(* ===== verification/Prelude.thy ===== *)
theory Prelude
  imports Complex_Main "HOL-Library.Char_ord" "HOL-Library.List_Lexorder"
begin

text \<open>
  Shared material of the development: the result monad in which handlers raise
  exceptions, the ordered tables that stand for the kinds of records of a metadata
  store, a few list functions of the source language, and the lemma collections the
  component theories extend.

  \<^item> A handler returns \<open>'e + 'a\<close>: \<open>Inl\<close> is the raised exception,
    \<open>Inr\<close> the returned value together with the new state of the unit of work.
    A unit of work that ends in an exception is rolled back, so no state comes with
    \<open>Inl\<close>.
  \<^item> A table is an association list with strictly increasing keys. Strings are
    compared by character code, which is the order \<^verbatim>\<open>ORDER BY id\<close> and
    \<^verbatim>\<open>sorted(identities)\<close> give the rows of one kind.
\<close>

named_theorems run "inversion of the monad operations on a successful run"
named_theorems frame "which tables an operation leaves alone"

section \<open>The result monad\<close>

definition bindr :: "'e + 'a \<Rightarrow> ('a \<Rightarrow> 'e + 'b) \<Rightarrow> 'e + 'b" where
  "bindr m f = (case m of Inl e \<Rightarrow> Inl e | Inr x \<Rightarrow> f x)"

definition guardr :: "bool \<Rightarrow> 'e \<Rightarrow> 'e + 'a \<Rightarrow> 'e + 'a" where
  "guardr c e k = (if c then k else Inl e)"

definition somer :: "'b option \<Rightarrow> 'e \<Rightarrow> ('b \<Rightarrow> 'e + 'a) \<Rightarrow> 'e + 'a" where
  "somer v e f = (case v of None \<Rightarrow> Inl e | Some x \<Rightarrow> f x)"

fun foldr_res :: "('x \<Rightarrow> 's \<Rightarrow> 'e + 's) \<Rightarrow> 'x list \<Rightarrow> 's \<Rightarrow> 'e + 's" where
  "foldr_res f [] s = Inr s"
| "foldr_res f (x # xs) s = bindr (f x s) (foldr_res f xs)"

fun map_res :: "('a \<Rightarrow> 'e + 'b) \<Rightarrow> 'a list \<Rightarrow> 'e + 'b list" where
  "map_res f [] = Inr []"
| "map_res f (x # xs) = bindr (f x) (\<lambda>y. bindr (map_res f xs) (\<lambda>ys. Inr (y # ys)))"

lemma bindr_simps [simp]:
  "bindr (Inl e) f = Inl e"
  "bindr (Inr x) f = f x"
  by (simp_all add: bindr_def)

lemma guardr_simps [simp]:
  "guardr True e k = k"
  "guardr False e k = Inl e"
  by (simp_all add: guardr_def)

lemma somer_simps [simp]:
  "somer None e f = Inl e"
  "somer (Some x) e f = f x"
  by (simp_all add: somer_def)

lemma bindr_eq_Inr [run]: "bindr m f = Inr y \<longleftrightarrow> (\<exists>x. m = Inr x \<and> f x = Inr y)"
  by (cases m) auto

lemma guardr_eq_Inr [run]: "guardr c e k = Inr y \<longleftrightarrow> c \<and> k = Inr y"
  by (simp add: guardr_def)

lemma somer_eq_Inr [run]: "somer v e f = Inr y \<longleftrightarrow> (\<exists>x. v = Some x \<and> f x = Inr y)"
  by (cases v) auto

lemma if_Inl_eq_Inr [run]:
  "(if c then Inl e else k) = Inr y \<longleftrightarrow> \<not> c \<and> k = Inr y"
  "(if c then k else Inl e) = Inr y \<longleftrightarrow> c \<and> k = Inr y"
  by auto

lemma bindr_assoc: "bindr (bindr m f) g = bindr m (\<lambda>x. bindr (f x) g)"
  by (cases m) auto

lemma bindr_cong [fundef_cong]:
  "m = m' \<Longrightarrow> (\<And>x. m' = Inr x \<Longrightarrow> f x = f' x) \<Longrightarrow> bindr m f = bindr m' f'"
  by (cases m') auto

lemma guardr_cong [fundef_cong]:
  "c = c' \<Longrightarrow> e = e' \<Longrightarrow> (c' \<Longrightarrow> k = k') \<Longrightarrow> guardr c e k = guardr c' e' k'"
  by (simp add: guardr_def)

lemma somer_cong [fundef_cong]:
  "v = v' \<Longrightarrow> e = e' \<Longrightarrow> (\<And>x. v' = Some x \<Longrightarrow> f x = f' x) \<Longrightarrow> somer v e f = somer v' e' f'"
  by (cases v') auto

lemma map_res_Inr: "map_res f xs = Inr ys \<longleftrightarrow> list_all2 (\<lambda>x y. f x = Inr y) xs ys"
  by (induction xs arbitrary: ys) (auto simp: run list_all2_Cons1)

text \<open>A loop keeps whatever each of its steps keeps.\<close>

lemma foldr_res_invariant:
  assumes "foldr_res f xs s = Inr s'" and "P s"
    and "\<And>x t t'. x \<in> set xs \<Longrightarrow> P t \<Longrightarrow> f x t = Inr t' \<Longrightarrow> P t'"
  shows "P s'"
  using assms
proof (induction xs arbitrary: s)
  case Nil
  then show ?case by simp
next
  case (Cons x xs)
  from Cons.prems(1) obtain t where t: "f x s = Inr t" and rest: "foldr_res f xs t = Inr s'"
    by (auto simp: bindr_eq_Inr)
  have "P t" using Cons.prems(2,3) t by auto
  with rest show ?case using Cons.IH Cons.prems(3) by auto
qed

lemma fold_invariant:
  assumes "P s" and "\<And>x t. x \<in> set xs \<Longrightarrow> P t \<Longrightarrow> P (f x t)"
  shows "P (fold f xs s)"
  using assms by (induction xs arbitrary: s) auto

section \<open>Tables\<close>

typedef 'v table = "{xs :: (string \<times> 'v) list. sorted_wrt (<) (map fst xs)}"
  by (rule exI [of _ "[]"]) simp

setup_lifting type_definition_table

fun ins_row :: "string \<Rightarrow> 'v \<Rightarrow> (string \<times> 'v) list \<Rightarrow> (string \<times> 'v) list" where
  "ins_row k v [] = [(k, v)]"
| "ins_row k v ((k', v') # rows) =
     (if k < k' then (k, v) # (k', v') # rows
      else if k = k' then (k, v) # rows
      else (k', v') # ins_row k v rows)"

lemma keys_ins_row: "fst ` set (ins_row k v rows) = insert k (fst ` set rows)"
proof (induction rows)
  case Nil
  then show ?case by simp
next
  case (Cons row rows)
  then show ?case by (cases row) (simp add: insert_commute)
qed

lemma map_of_ins_row: "map_of (ins_row k v rows) = (map_of rows)(k \<mapsto> v)"
  by (induction rows) (auto simp: fun_eq_iff)

lemma sorted_ins_row:
  "sorted_wrt (<) (map fst rows) \<Longrightarrow> sorted_wrt (<) (map fst (ins_row k v rows))"
proof (induction rows)
  case Nil
  then show ?case by simp
next
  case (Cons row rows)
  obtain k' v' where row: "row = (k', v')" by (cases row)
  from Cons.prems have below: "\<forall>x \<in> fst ` set rows. k' < x" and
    tail: "sorted_wrt (<) (map fst rows)" by (auto simp: row)
  consider "k < k'" | "k = k'" | "k' < k" by (metis linorder_cases)
  then show ?case
  proof cases
    case 1
    with below tail show ?thesis by (auto simp: row)
  next
    case 2
    with below tail show ?thesis by (auto simp: row)
  next
    case 3
    have "\<forall>x \<in> fst ` set (ins_row k v rows). k' < x"
      using below 3 by (simp only: keys_ins_row) auto
    with 3 Cons.IH [OF tail] show ?thesis by (auto simp: row)
  qed
qed

lift_definition tempty :: "'v table" is "[]" by simp

lift_definition tget :: "'v table \<Rightarrow> string \<Rightarrow> 'v option" is "\<lambda>rows k. map_of rows k" .

lift_definition tput :: "string \<Rightarrow> 'v \<Rightarrow> 'v table \<Rightarrow> 'v table" is ins_row
  by (rule sorted_ins_row)

lift_definition tdel :: "string \<Rightarrow> 'v table \<Rightarrow> 'v table" is
  "\<lambda>k rows. filter (\<lambda>row. fst row \<noteq> k) rows"
proof -
  fix k and rows :: "(string \<times> 'v) list"
  assume "sorted_wrt (<) (map fst rows)"
  then show "sorted_wrt (<) (map fst (filter (\<lambda>row. fst row \<noteq> k) rows))"
    by (induction rows) auto
qed

lift_definition tall :: "'v table \<Rightarrow> 'v list" is "map snd" .

lift_definition tkeys :: "'v table \<Rightarrow> string list" is "map fst" .

lift_definition trows :: "'v table \<Rightarrow> (string \<times> 'v) list" is "\<lambda>rows. rows" .

instantiation table :: (equal) equal
begin

lift_definition equal_table :: "'a table \<Rightarrow> 'a table \<Rightarrow> bool" is "\<lambda>x y. HOL.equal x y" .

instance
  by standard (transfer, simp add: equal_eq)

end

lemma distinct_if_sorted: "sorted_wrt (<) (map fst (rows :: (string \<times> 'v) list)) \<Longrightarrow> distinct (map fst rows)"
  by (metis strict_sorted_iff)

lemma tget_tempty [simp]: "tget tempty k = None"
  by transfer simp

lemma tget_tput [simp]: "tget (tput k v t) k' = (if k' = k then Some v else tget t k')"
  by transfer (simp add: map_of_ins_row)

lemma map_of_drop_key:
  "map_of (filter (\<lambda>row. fst row \<noteq> k) rows) k' = (if k' = k then None else map_of rows k')"
  by (induction rows) auto

lemma tget_tdel [simp]: "tget (tdel k t) k' = (if k' = k then None else tget t k')"
  by transfer (rule map_of_drop_key)

lemma in_tall_iff: "v \<in> set (tall t) \<longleftrightarrow> (\<exists>k. tget t k = Some v)"
  by transfer (force dest: distinct_if_sorted simp: map_of_eq_Some_iff)

lemma in_tkeys_iff: "k \<in> set (tkeys t) \<longleftrightarrow> tget t k \<noteq> None"
  by transfer (force simp: map_of_eq_None_iff)

lemma tall_tempty [simp]: "tall tempty = []"
  by transfer simp

lemma table_eqI:
  fixes s t :: "'v table"
  assumes "\<And>k. tget s k = tget t k"
  shows "s = t"
  using assms
proof (transfer, goal_cases)
  case (1 s t)
  have ds: "distinct (map fst s)" and dt: "distinct (map fst t)"
    using 1(1,2) by (auto dest: distinct_if_sorted)
  have same: "set s = set t"
  proof (rule set_eqI)
    fix x :: "string \<times> 'v"
    obtain k v where x: "x = (k, v)" by (cases x)
    have "(k, v) \<in> set s \<longleftrightarrow> map_of s k = Some v" "(k, v) \<in> set t \<longleftrightarrow> map_of t k = Some v"
      by (rule map_of_eq_Some_iff [symmetric], rule ds, rule map_of_eq_Some_iff [symmetric], rule dt)
    then show "x \<in> set s \<longleftrightarrow> x \<in> set t" by (simp add: x 1(3))
  qed
  show ?case
  proof (rule map_sorted_distinct_set_unique [where f = fst])
    show "inj_on fst (set s \<union> set t)"
      using ds same by (simp add: distinct_map)
  qed (use 1(1,2) ds dt same in \<open>auto simp: strict_sorted_iff\<close>)
qed

lemma tput_same: "tget t k = Some v \<Longrightarrow> tput k v t = t"
  by (rule table_eqI) auto

lemma tput_tput: "tput k v (tput k w t) = tput k v t"
  by (rule table_eqI) auto

lemma tall_trows: "tall t = map snd (trows t)"
  by transfer simp

lemma distinct_trows: "distinct (map fst (trows t))"
  by transfer (rule distinct_if_sorted)

lemma in_trows_iff: "(k, v) \<in> set (trows t) \<longleftrightarrow> tget t k = Some v"
  by transfer (simp add: distinct_if_sorted map_of_eq_Some_iff)

lemma trows_keys: "fst ` set (trows t) = {k. tget t k \<noteq> None}"
  by (force simp: in_trows_iff [symmetric])

lemma trows_nth: "i < length (trows t) \<Longrightarrow> tget t (fst (trows t ! i)) = Some (snd (trows t ! i))"
  by (metis in_trows_iff nth_mem prod.collapse)

lemma sorted_trows: "sorted_wrt (<) (map fst (trows t))"
  by transfer

text \<open>Tables that correspond row by row list corresponding rows.\<close>

lemma trows_rel:
  assumes "\<And>k. rel_option (R k) (tget s k) (tget t k)"
  shows "list_all2 (\<lambda>(i, x) (j, y). i = j \<and> R i x y) (trows s) (trows t)"
proof -
  have "tget s k = None \<longleftrightarrow> tget t k = None" for k
    using assms [of k] by (cases "tget s k"; cases "tget t k") auto
  then have "fst ` set (trows s) = fst ` set (trows t)" by (simp add: trows_keys)
  then have keys: "map fst (trows s) = map fst (trows t)"
    using sorted_trows [of s] sorted_trows [of t] by (intro strict_sorted_equal) simp_all
  show ?thesis
    unfolding list_all2_conv_all_nth
  proof (intro conjI allI impI)
    show len: "length (trows s) = length (trows t)" using keys by (metis length_map)
    fix i
    assume i: "i < length (trows s)"
    with len keys have same: "fst (trows t ! i) = fst (trows s ! i)" by (metis nth_map)
    have "rel_option (R (fst (trows s ! i))) (Some (snd (trows s ! i))) (Some (snd (trows t ! i)))"
      using assms [of "fst (trows s ! i)"] trows_nth [OF i] trows_nth [of i t] i len same by simp
    with same show "(case trows s ! i of (j, x) \<Rightarrow> \<lambda>(k, y). j = k \<and> R j x y) (trows t ! i)" by (simp add: case_prod_beta)
  qed
qed

lemma list_all2_filter:
  "list_all2 R xs ys \<Longrightarrow> (\<And>x y. R x y \<Longrightarrow> P x \<longleftrightarrow> Q y) \<Longrightarrow> list_all2 R (filter P xs) (filter Q ys)"
  by (induction rule: list_all2_induct) auto

section \<open>Loops over the rows of a table\<close>

definition keyed :: "('v \<Rightarrow> string) \<Rightarrow> 'v table \<Rightarrow> bool" where
  "keyed key t \<longleftrightarrow> (\<forall>k v. tget t k = Some v \<longrightarrow> key v = k)"

lemma keyedD: "keyed key t \<Longrightarrow> tget t k = Some v \<Longrightarrow> key v = k"
  by (simp add: keyed_def)

lemma keyed_tempty [simp]: "keyed key tempty"
  by (simp add: keyed_def)

lemma keyed_tput: "keyed key t \<Longrightarrow> key v = k \<Longrightarrow> keyed key (tput k v t)"
  by (simp add: keyed_def)

lemma keyed_tdel: "keyed key t \<Longrightarrow> keyed key (tdel k t)"
  by (simp add: keyed_def)

lemma keyed_tall: "keyed key t \<Longrightarrow> v \<in> set (tall t) \<longleftrightarrow> tget t (key v) = Some v"
  by (auto simp: keyed_def in_tall_iff)

lemma fold_tput_last:
  "tget (fold (\<lambda>v s. if P v then tput (key v) (f v) s else s) xs s) k =
     (case filter (\<lambda>v. P v \<and> key v = k) xs of [] \<Rightarrow> tget s k | v # vs \<Rightarrow> Some (f (last (v # vs))))"
  by (induction xs arbitrary: s) (auto split: list.splits)

text \<open>Rewriting selected rows in place.\<close>

lemma tget_fold_tput:
  assumes "keyed key t"
  shows "tget (fold (\<lambda>v s. if P v then tput (key v) (f v) s else s) (tall t) t) k =
     map_option (\<lambda>v. if P v then f v else v) (tget t k)"
proof -
  let ?vs = "filter (\<lambda>v. P v \<and> key v = k) (tall t)"
  have row: "tget t k = Some v \<and> P v" if "v \<in> set ?vs" for v
    using that assms by (auto simp: keyed_tall)
  show ?thesis
  proof (cases ?vs)
    case Nil
    then have "\<not> (\<exists>v. tget t k = Some v \<and> P v)"
      using keyedD [OF assms, of k] by (auto simp: filter_empty_conv in_tall_iff)
    with Nil show ?thesis by (cases "tget t k") (auto simp: fold_tput_last)
  next
    case (Cons v vs)
    then have "last (v # vs) \<in> set ?vs" by simp
    from row [OF this] Cons show ?thesis by (simp add: fold_tput_last)
  qed
qed

lemma keyed_fold_tput:
  assumes "keyed key t" and "\<And>v. key (f v) = key v"
  shows "keyed key (fold (\<lambda>v s. if P v then tput (key v) (f v) s else s) (tall t) t)"
  using assms by (auto simp: keyed_def tget_fold_tput)

text \<open>Deleting selected rows.\<close>

lemma tget_fold_tdel:
  "tget (fold (\<lambda>v s. if P v then tdel (key v) s else s) xs s) k =
     (if \<exists>v \<in> set xs. P v \<and> key v = k then None else tget s k)"
  by (induction xs arbitrary: s) auto

lemma tget_fold_tdel_all:
  assumes "keyed key t"
  shows "tget (fold (\<lambda>v s. if P v then tdel (key v) s else s) (tall t) t) k =
     (case tget t k of None \<Rightarrow> None | Some v \<Rightarrow> if P v then None else Some v)"
proof -
  have "(\<exists>v \<in> set (tall t). P v \<and> key v = k) \<longleftrightarrow> (\<exists>v. tget t k = Some v \<and> P v)"
    using keyedD [OF assms, of k] keyed_tall [OF assms] by (metis in_tall_iff)
  then show ?thesis by (auto simp: tget_fold_tdel split: option.splits)
qed

section \<open>Dictionaries in insertion order\<close>

fun dict_put :: "'k \<Rightarrow> 'v \<Rightarrow> ('k \<times> 'v) list \<Rightarrow> ('k \<times> 'v) list" where
  "dict_put k v [] = [(k, v)]"
| "dict_put k v ((k', v') # xs) = (if k = k' then (k, v) # xs else (k', v') # dict_put k v xs)"

lemma map_of_dict_put [simp]: "map_of (dict_put k v xs) = (map_of xs)(k \<mapsto> v)"
  by (induction k v xs rule: dict_put.induct) auto

lemma keys_dict_put: "fst ` set (dict_put k v xs) = insert k (fst ` set xs)"
  by (induction k v xs rule: dict_put.induct) auto

lemma distinct_dict_put: "distinct (map fst xs) \<Longrightarrow> distinct (map fst (dict_put k v xs))"
proof (induction k v xs rule: dict_put.induct)
  case (2 k v k' v' xs)
  then show ?case using keys_dict_put [of k v xs] by auto
qed simp

lemma dict_put_fresh: "k \<notin> fst ` set xs \<Longrightarrow> dict_put k v xs = xs @ [(k, v)]"
  by (induction k v xs rule: dict_put.induct) auto

section \<open>Machines and their invariants\<close>

inductive reach :: "('s \<Rightarrow> bool) \<Rightarrow> ('s \<Rightarrow> 's \<Rightarrow> bool) \<Rightarrow> 's \<Rightarrow> bool" for start step where
  reach_start: "start s \<Longrightarrow> reach start step s"
| reach_step: "reach start step s \<Longrightarrow> step s s' \<Longrightarrow> reach start step s'"

text \<open>
  What a component owes to be safe: its invariant holds at the start and every step keeps it.
  Each component with a step relation discharges these two laws for it.
\<close>

locale safe_machine =
  fixes start :: "'s \<Rightarrow> bool" and step :: "'s \<Rightarrow> 's \<Rightarrow> bool" and inv :: "'s \<Rightarrow> bool"
  assumes inv_start: "start s \<Longrightarrow> inv s"
    and inv_step: "inv s \<Longrightarrow> step s s' \<Longrightarrow> inv s'"
begin

lemma reach_inv: "reach start step s \<Longrightarrow> inv s"
  by (induction rule: reach.induct) (auto intro: inv_start inv_step)

lemma steps_inv: "inv s \<Longrightarrow> step\<^sup>*\<^sup>* s s' \<Longrightarrow> inv s'"
  by (rotate_tac, induction rule: rtranclp_induct) (auto intro: inv_step)

end

end
