(* ===== verification/Domain.thy ===== *)
theory Domain
  imports Prelude
begin

text \<open>
  Values and errors shared by every component (\<^verbatim>\<open>src/src/dfsha/common/domain.py\<close>,
  \<^verbatim>\<open>limits.py\<close> and the messages of \<^verbatim>\<open>src/proto/dfsha/v1\<close>), the records that the
  control node keeps in its metadata store, and the \<open>app\<close> record: configuration,
  clock readings and the functions of third-party packages.

  Conventions. Text and byte strings are both \<open>string\<close> (lists of 8-bit characters):
  a Python \<^verbatim>\<open>str\<close> is represented by its UTF-8 encoding, so \<^verbatim>\<open>encode()\<close> is the identity
  and \<^verbatim>\<open>len(x.encode())\<close> is \<open>length\<close>. Python integers are \<open>int\<close>. A stored
  \<^verbatim>\<open>dict\<close> is a record, one type for each kind of row; a key that may be missing or
  \<^verbatim>\<open>None\<close> is an \<open>option\<close>. \<^verbatim>\<open>asdict\<close>/\<^verbatim>\<open>proto\<close> of a message that is only
  stored and compared is the record itself. A unit of work reads the wall clock
  (\<open>now_ms\<close>) and the lease clock (\<open>clock_s\<close>) once.
\<close>

section \<open>Reasons, exceptions and status codes\<close>

datatype reason =
    ERROR_REASON_UNSPECIFIED | INVALID_ARGUMENT | LIMIT_EXCEEDED | NOT_IMPLEMENTED_STAGE2
  | UNAUTHENTICATED | PERMISSION_DENIED | NOT_FOUND | ALREADY_EXISTS | NOT_DIRECTORY
  | IS_DIRECTORY | DIRECTORY_NOT_EMPTY | ROOT_PROTECTED | CWD_GONE | LIST_CHANGED
  | VERSION_CONFLICT | LOCK_CONFLICT | LOCK_EXPIRED | LOCK_BUSY | STALE_HANDLE | HANDLE_BUSY
  | SPARSE_WRITE_UNSUPPORTED | UNSUPPORTED_MODE | IDEMPOTENCY_MISMATCH | OUTCOME_UNKNOWN
  | NO_SPACE | INSUFFICIENT_REPLICAS | METADATA_QUORUM_LOST | DATA_UNAVAILABLE | DATA_LOSS
  | CHECKSUM_MISMATCH | SERVICE_UNAVAILABLE | DEADLINE_EXCEEDED | OPERATION_EXPIRED
  | NOT_RETIRED

text \<open>
  \<open>Fault r\<close> is the domain exception; the others are the exceptions of the language
  that an access to a missing value raises, the one a failed decryption raises, which no
  handler catches, those of the operating system and of a failed start, and \<open>RpcError r\<close>, a failed
  remote call whose reported reason is \<open>r\<close>. \<open>OutOfFuel\<close> is not an
  exception of the program: it marks a loop of the model that has used up its bound, where the
  loop of the program would not end.
\<close>

datatype exn = Fault reason | RpcError reason | TypeError | KeyError | ValueError | IndexError | StopIteration
  | InvalidTag | OSError | RuntimeError | AttributeError | ZeroDivisionError | IntegrityError | OutOfFuel

type_synonym 'a res = "exn + 'a"

definition need :: "bool \<Rightarrow> reason \<Rightarrow> 'a res \<Rightarrow> 'a res" where
  "need c r k = guardr c (Fault r) k"

definition need_some :: "'b option \<Rightarrow> reason \<Rightarrow> ('b \<Rightarrow> 'a res) \<Rightarrow> 'a res" where
  "need_some v r f = somer v (Fault r) f"

text \<open>Subscripting \<^verbatim>\<open>None\<close> raises \<open>TypeError\<close>.\<close>

definition deref :: "'b option \<Rightarrow> ('b \<Rightarrow> 'a res) \<Rightarrow> 'a res" where
  "deref v f = somer v TypeError f"

datatype status_code =
    SC_UNAUTHENTICATED | SC_PERMISSION_DENIED | SC_NOT_FOUND | SC_ALREADY_EXISTS
  | SC_INVALID_ARGUMENT | SC_RESOURCE_EXHAUSTED | SC_ABORTED | SC_DEADLINE_EXCEEDED
  | SC_UNAVAILABLE | SC_DATA_LOSS | SC_FAILED_PRECONDITION | SC_CANCELLED | SC_UNKNOWN | SC_INTERNAL
  | SC_UNIMPLEMENTED | SC_OUT_OF_RANGE

fun fault_code :: "reason \<Rightarrow> status_code" where
  "fault_code UNAUTHENTICATED = SC_UNAUTHENTICATED"
| "fault_code PERMISSION_DENIED = SC_PERMISSION_DENIED"
| "fault_code NOT_FOUND = SC_NOT_FOUND"
| "fault_code ALREADY_EXISTS = SC_ALREADY_EXISTS"
| "fault_code IDEMPOTENCY_MISMATCH = SC_ALREADY_EXISTS"
| "fault_code INVALID_ARGUMENT = SC_INVALID_ARGUMENT"
| "fault_code LIMIT_EXCEEDED = SC_RESOURCE_EXHAUSTED"
| "fault_code UNSUPPORTED_MODE = SC_INVALID_ARGUMENT"
| "fault_code VERSION_CONFLICT = SC_ABORTED"
| "fault_code LIST_CHANGED = SC_ABORTED"
| "fault_code LOCK_BUSY = SC_ABORTED"
| "fault_code LOCK_CONFLICT = SC_ABORTED"
| "fault_code HANDLE_BUSY = SC_ABORTED"
| "fault_code SPARSE_WRITE_UNSUPPORTED = SC_INVALID_ARGUMENT"
| "fault_code OUTCOME_UNKNOWN = SC_DEADLINE_EXCEEDED"
| "fault_code DATA_UNAVAILABLE = SC_UNAVAILABLE"
| "fault_code DEADLINE_EXCEEDED = SC_DEADLINE_EXCEEDED"
| "fault_code NO_SPACE = SC_RESOURCE_EXHAUSTED"
| "fault_code DATA_LOSS = SC_DATA_LOSS"
| "fault_code CHECKSUM_MISMATCH = SC_DATA_LOSS"
| "fault_code SERVICE_UNAVAILABLE = SC_UNAVAILABLE"
| "fault_code _ = SC_FAILED_PRECONDITION"

section \<open>Limits\<close>

definition CHUNK :: int where "CHUNK = 262144"

definition PROFILES :: "int list" where "PROFILES = [4194304, 67108864, 134217728]"

definition DEADLINES :: "int \<Rightarrow> int option" where
  "DEADLINES = map_of (zip PROFILES [30, 120, 240])"

definition MAX_DELTA :: int where "MAX_DELTA = 16 * 1024 * 1024"

definition MAX_OFFSET :: int where "MAX_OFFSET = 2 ^ 63 - 1"

section \<open>Canonical JSON and intents\<close>

datatype json = JNull | JBool bool | JInt int | JStr string | JArr "json list"
  | JObj "(string \<times> json) list"

fun dec_digits :: "nat \<Rightarrow> string" where
  "dec_digits n = (if n < 10 then [char_of (48 + n)]
     else dec_digits (n div 10) @ [char_of (48 + n mod 10)])"

declare dec_digits.simps [simp del]

definition dec_int :: "int \<Rightarrow> string" where
  "dec_int i = (if i < 0 then CHR ''-'' # dec_digits (nat (- i)) else dec_digits (nat i))"

definition hex_digit :: "nat \<Rightarrow> char" where
  "hex_digit n = char_of (if n < 10 then 48 + n else 87 + n)"

definition hex :: "string \<Rightarrow> string" where
  "hex bs = concat (map (\<lambda>c. [hex_digit (of_char c div 16), hex_digit (of_char c mod 16)]) bs)"

definition esc_char :: "char \<Rightarrow> string" where
  "esc_char c =
     (if c = CHR 0x22 then [CHR 0x5C, CHR 0x22]
      else if c = CHR 0x5C then [CHR 0x5C, CHR 0x5C]
      else if c = CHR 0x0A then [CHR 0x5C, CHR ''n'']
      else if c = CHR 0x0D then [CHR 0x5C, CHR ''r'']
      else if c = CHR 0x09 then [CHR 0x5C, CHR ''t'']
      else if c = CHR 0x0C then [CHR 0x5C, CHR ''f'']
      else if c = CHR 0x08 then [CHR 0x5C, CHR ''b'']
      else if of_char c < (32 :: nat) then [CHR 0x5C, CHR ''u'', CHR ''0'', CHR ''0'',
        hex_digit (of_char c div 16), hex_digit (of_char c mod 16)]
      else [c])"

definition json_str :: "string \<Rightarrow> string" where
  "json_str s = CHR 0x22 # concat (map esc_char s) @ [CHR 0x22]"

fun join :: "string \<Rightarrow> string list \<Rightarrow> string" where
  "join sep [] = []"
| "join sep [x] = x"
| "join sep (x # y # xs) = x @ sep @ join sep (y # xs)"

fun canonical :: "json \<Rightarrow> string" where
  "canonical JNull = ''null''"
| "canonical (JBool b) = (if b then ''true'' else ''false'')"
| "canonical (JInt i) = dec_int i"
| "canonical (JStr s) = json_str s"
| "canonical (JArr vs) = ''['' @ join '','' (map canonical vs) @ '']''"
| "canonical (JObj kvs) = ''{'' @ join '','' (map (\<lambda>(k, t). json_str k @ '':'' @ t)
     (sort_key fst (map (\<lambda>(k, v). (k, canonical v)) kvs))) @ ''}''"

definition private_keys :: "string list" where
  "private_keys = [''context'', ''password'', ''capability'', ''expires_at_unix_ms'']"

fun clean :: "(string \<Rightarrow> string) \<Rightarrow> json \<Rightarrow> json" where
  "clean nfc (JObj kvs) = JObj (map (\<lambda>(k, v). (k, clean nfc v))
     (filter (\<lambda>(k, v). k \<notin> set private_keys) kvs))"
| "clean nfc (JArr vs) = JArr (map (clean nfc) vs)"
| "clean nfc (JStr s) = JStr (nfc s)"
| "clean nfc v = v"

definition is_hex_lower :: "char \<Rightarrow> bool" where
  "is_hex_lower c = (c \<in> set ''0123456789abcdef'')"

text \<open>\<^verbatim>\<open>str(UUID(v)) == v\<close> holds of the lower-case 8-4-4-4-12 form only.\<close>

definition is_uuid :: "string \<Rightarrow> bool" where
  "is_uuid v \<longleftrightarrow> length v = 36 \<and>
     (\<forall>i \<in> set [0..<36]. if i \<in> {8, 13, 18, 23} then v ! i = CHR ''-'' else is_hex_lower (v ! i))"

definition uuid :: "string \<Rightarrow> string res" where
  "uuid v = need (is_uuid v) INVALID_ARGUMENT (Inr v)"

section \<open>Messages\<close>

datatype op_state = PREPARING | COMMITTED | ABORTED | EXPIRED

datatype open_mode = MODE_UNSPECIFIED | MODE_R | MODE_R_PLUS | MODE_W | MODE_W_PLUS | MODE_X | MODE_X_PLUS

datatype access_action = ACTION_UNSPECIFIED | READ_DATA | WRITE_DATA | READ_REPLICA | STORE_REPLICA
  | DELETE_RETIRED | READ_PATCH_BASE | PATCH_DATA

datatype task_state = ACCEPTED | RUNNING | FINISHED | FAILED

datatype task_kind = COPY | DELETE

datatype node_state = UNAVAILABLE | STARTING | SUSPECT | READY

datatype copy_health = VERIFIED | CORRUPT | MISSING

datatype policy_state = ACTIVE | PROMOTING | PROMOTION_BLOCKED

record req_ctx =
  cx_request_id :: string
  cx_user_id :: string
  cx_service_epoch :: string
  cx_intent :: string

record path_ref =
  pf_path :: string
  pf_cwd_path :: string
  pf_cwd_id :: string

record acl_entry =
  ae_principal :: string
  ae_is_group :: bool
  ae_permissions :: nat

record acl_msg =
  am_owner :: string
  am_group :: string
  am_owner_perms :: nat
  am_group_perms :: nat
  am_other_perms :: nat
  am_entries :: "acl_entry list"
  am_revision :: int

record block_ref =
  br_file :: string
  br_version :: string
  br_index :: int
  br_size :: int
  br_sha :: string

record snapshot_ref =
  sr_file :: string
  sr_content_epoch :: int
  sr_file_version :: int
  sr_root :: string
  sr_size :: int
  sr_manifest_sha :: string
  sr_file_sha :: "string option"
  sr_block_size :: int

record fence =
  f_lock :: string
  f_handle :: string
  f_epoch :: string
  f_generation :: int
  f_lease :: int
  f_indices :: "int list"
  f_whole :: bool
  f_size :: bool
  f_expires :: int

record operation_ref =
  or_id :: string
  or_request :: string
  or_intent :: string

record block_location =
  bl_node :: string
  bl_generation :: int
  bl_client :: string
  bl_private :: string
  bl_domain :: string

record block_grant =
  bg_capability :: string
  bg_action :: access_action
  bg_block :: block_ref
  bg_node :: string
  bg_offset :: int
  bg_length :: int
  bg_expires :: int

record reservation =
  rs_id :: string
  rs_node :: string
  rs_operation :: string
  rs_bytes :: int
  rs_expires :: int

record planned_block =
  pb_block :: block_ref
  pb_locations :: "block_location list"
  pb_grants :: "block_grant list"
  pb_replacement :: string
  pb_patch :: bool
  pb_delta_offset :: int
  pb_block_offset :: int
  pb_delta_length :: int
  pb_reservation :: "reservation option"

record durable_receipt =
  dr_id :: string
  dr_operation :: string
  dr_block :: block_ref
  dr_node :: string
  dr_generation :: int
  dr_domain :: string
  dr_stored :: int
  dr_cipher_sha :: string
  dr_durable_at :: int

record page_receipt =
  pr_page :: string
  pr_sha :: string
  pr_revision :: int

record commit_result =
  cr_operation :: operation_ref
  cr_state :: op_state
  cr_snapshot :: snapshot_ref
  cr_accepted :: int
  cr_degraded :: bool
  cr_target :: int
  cr_minimum :: int

record mutation_result =
  mr_request :: string
  mr_revision :: int

record upload_plan =
  up_operation :: operation_ref
  up_file :: string
  up_epoch :: int
  up_fence :: fence
  up_block_bytes :: int
  up_expires :: int
  up_minimum :: int

record block_plan =
  bp_blocks :: "planned_block list"
  bp_cursor :: string
  bp_snapshot :: "snapshot_ref option"

record write_part =
  wp_index :: int
  wp_block_offset :: int
  wp_delta_offset :: int
  wp_length :: int
  wp_sha :: string

record begin_write_req =
  bw_handle :: string
  bw_base :: snapshot_ref
  bw_offset :: "int option"
  bw_length :: "int option"
  bw_sha :: string
  bw_fences :: "fence list"
  bw_parts :: "write_part list"

record write_plan =
  wl_operation :: operation_ref
  wl_blocks :: "planned_block list"
  wl_fences :: "fence list"
  wl_base :: snapshot_ref
  wl_minimum :: int

record block_change =
  bc_base :: block_ref
  bc_replacement :: block_ref
  bc_receipts :: "durable_receipt list"

record handle_msg =
  hm_id :: string
  hm_snapshot :: snapshot_ref
  hm_mode :: open_mode
  hm_expires :: int
  hm_revision :: int

record entry_msg =
  en_id :: string
  en_name :: string
  en_directory :: bool
  en_revision :: int
  en_snapshot :: "snapshot_ref option"
  en_size :: int

record task_status =
  ts_task :: string
  ts_state :: task_state
  ts_receipt :: "durable_receipt option"
  ts_error :: "reason option"

section \<open>Rows of the metadata store\<close>

record user_rec =
  u_id :: string
  u_username :: string
  u_password :: string
  u_disabled :: bool
  u_admin :: bool
  u_revision :: int

record group_rec =
  g_id :: string
  g_name :: string
  g_members :: "string list"
  g_revision :: int

record session_rec =
  s_id :: string
  s_session_id :: string
  s_user :: string
  s_expires :: int
  s_revoked :: bool

record node_rec =
  n_id :: string
  n_name :: string
  n_parent :: "string option"
  n_owner :: string
  n_group :: string
  n_mode :: nat
  n_acl :: "acl_entry list"
  n_alive :: bool
  n_directory :: bool
  n_revision :: int
  n_snapshot :: "string option"
  n_block_size :: int

record snapshot_rec =
  sn_id :: string
  sn_file :: string
  sn_ref :: snapshot_ref
  sn_blocks :: "block_ref list"

record policy_rec =
  p_id :: string
  p_r :: int
  p_w :: int
  p_revision :: int
  p_state :: policy_state
  p_until :: int

record part_rec =
  pt_part :: write_part
  pt_base :: block_ref
  pt_replacement :: block_ref
  pt_plan :: planned_block

text \<open>What only an operation of kind \<^verbatim>\<open>write\<close> has.\<close>

record write_rec =
  w_handle :: string
  w_handle_revision :: int
  w_control_epoch :: string
  w_offset :: int
  w_length :: int
  w_growing :: bool
  w_base_size :: int
  w_fences :: "fence list"
  w_parts :: "part_rec list"
  w_begin :: begin_write_req

record upload_rec =
  o_id :: string
  o_operation :: operation_ref
  o_request :: string
  o_user :: string
  o_session :: string
  o_parent :: string
  o_name :: string
  o_file :: string
  o_base :: "string option"
  o_version :: int
  o_block_size :: int
  o_total :: int
  o_sha :: string
  o_state :: op_state
  o_expires :: int
  o_max_expires :: int
  o_epoch :: int
  o_reserved :: int
  o_allocations :: "(int \<times> block_ref) list"
  o_pages :: "(int \<times> block_ref list) list"
  o_sealed :: "page_receipt option"
  o_result :: "commit_result option"
  o_locks :: "string list"
  o_full_fence :: "fence option"
  o_policy :: "policy_rec option"
  o_write :: "write_rec option"

record handle_rec =
  h_id :: string
  h_file :: string
  h_snapshot :: "string option"
  h_user :: string
  h_session :: string
  h_expires :: int
  h_revision :: int
  h_closed :: bool
  h_ancestors :: "string list"
  h_mode :: open_mode
  h_busy :: "string option"
  h_epoch :: string
  h_deadline :: rat
  h_maximum :: rat

record lock_rec =
  lk_id :: string
  lk_handle :: string
  lk_file :: string
  lk_session :: string
  lk_generation :: int
  lk_epoch :: string
  lk_indices :: "int list"
  lk_whole :: bool
  lk_size :: bool
  lk_automatic :: bool
  lk_lease :: int
  lk_active :: "string list"
  lk_deadline :: rat

record read_rec =
  rd_id :: string
  rd_handle :: string
  rd_session :: string
  rd_offset :: int
  rd_length :: int
  rd_closed :: bool

record block_rec =
  b_id :: string
  b_file :: string
  b_operation :: string
  b_ref :: block_ref
  b_stored :: int
  b_receipt :: durable_receipt

record location_rec =
  lc_id :: string
  lc_block :: string
  lc_node :: string
  lc_receipt :: durable_receipt
  lc_inventory :: string
  lc_health :: copy_health
  lc_checked_at :: int

record assignment_rec =
  as_id :: string
  as_node :: string
  as_operation :: string
  as_generation :: int
  as_reserved :: int

record datanode_rec =
  dn_id :: string
  dn_location :: block_location
  dn_capacity :: int
  dn_free :: int
  dn_used :: int
  dn_seen :: int
  dn_sequence :: int
  dn_reconciled :: bool
  dn_inventory :: string
  dn_page :: int
  dn_active :: int
  dn_disabled :: bool
  dn_digest :: "string option"
  dn_counters :: "int list"
  dn_report_pages :: "(int \<times> string) list"

record node_policy_rec =
  np_id :: string
  np_enabled :: bool
  np_revision :: int

record task_rec =
  t_id :: string
  t_kind :: task_kind
  t_block :: block_ref
  t_src :: string
  t_dest :: string
  t_expires :: int
  t_status :: task_status
  t_reserved :: int
  t_source :: "block_location option"
  t_destination :: "block_location option"
  t_receipt :: "durable_receipt option"
  t_write_operation :: "string option"
  t_owner :: string
  t_generation :: int
  t_attempts :: int
  t_next_run :: int
  t_dispatched :: bool
  t_cleanup_checked :: bool
  t_expected_receipt :: string
  t_replace_receipt :: string

record replica_plan_rec =
  rp_id :: string
  rp_operation :: string
  rp_destinations :: "string list"
  rp_reserved :: int

record ledger_rec =
  lg_id :: string
  lg_rpc :: string
  lg_digest :: string
  lg_response :: string
  lg_verifier :: "string option"

record rate_rec =
  ar_id :: string
  ar_window :: int
  ar_count :: int

record login_rec =
  li_id :: string
  li_session :: string
  li_expires :: int
  li_response :: string

record retry_rec =
  rt_id :: string
  rt_attempts :: int
  rt_next_run :: int

record health_event =
  he_id :: string
  he_block :: string
  he_node :: string
  he_receipt :: durable_receipt
  he_health :: copy_health
  he_observed_at :: int

text \<open>
  The whole store: one table for each kind, the single rows of kind
  \<^verbatim>\<open>settings\<close> that change while the control node runs, and the number of
  identifiers drawn so far from \<^verbatim>\<open>uuid4\<close>.
\<close>

record db =
  users :: "user_rec table"
  groups :: "group_rec table"
  sessions :: "session_rec table"
  nodes :: "node_rec table"
  snapshots :: "snapshot_rec table"
  uploads :: "upload_rec table"
  handles :: "handle_rec table"
  locks :: "lock_rec table"
  reads :: "read_rec table"
  blocks :: "block_rec table"
  locations :: "location_rec table"
  assignments :: "assignment_rec table"
  datanodes :: "datanode_rec table"
  node_policies :: "node_policy_rec table"
  tasks :: "task_rec table"
  retirements :: "string table"
  retired :: "block_ref table"
  policies :: "policy_rec table"
  replica_plans :: "replica_plan_rec table"
  durability :: "(string \<times> durable_receipt) list table"
  ledger :: "ledger_rec table"
  auth_rates :: "rate_rec table"
  login_results :: "login_rec table"
  repair_retries :: "retry_rec table"
  health_events :: "health_event table"
  migration_pins :: "string table"
  lock_sequence :: int
  control_epoch :: "(int \<times> string) option"
  placement_last :: string
  uid_count :: nat

definition empty_db :: db where
  "empty_db = \<lparr>users = tempty, groups = tempty, sessions = tempty, nodes = tempty,
     snapshots = tempty, uploads = tempty, handles = tempty, locks = tempty, reads = tempty,
     blocks = tempty, locations = tempty, assignments = tempty, datanodes = tempty,
     node_policies = tempty, tasks = tempty, retirements = tempty, retired = tempty,
     policies = tempty, replica_plans = tempty, durability = tempty, ledger = tempty,
     auth_rates = tempty, login_results = tempty, repair_retries = tempty,
     health_events = tempty, migration_pins = tempty, lock_sequence = 0, control_epoch = None,
     placement_last = '''', uid_count = 0\<rparr>"

section \<open>The application: configuration, clocks, external functions\<close>

text \<open>
  The class of the running control node: \<open>LOCAL\<close> is \<^verbatim>\<open>Monolith\<close>,
  \<open>CLUSTER\<close> is \<^verbatim>\<open>DistributedControl\<close> without \<^verbatim>\<open>rf3_enabled\<close>, \<open>RF3\<close> with it, and
  \<open>REPLICATED\<close> is \<^verbatim>\<open>ReplicatedControl\<close>; with \<open>etcd_backend\<close> it is \<^verbatim>\<open>HAControl\<close> over the shared store, whose answer
  to \<^verbatim>\<open>session_live\<close> is \<open>session_leased\<close> and to \<^verbatim>\<open>lease_live\<close>, for the lease key of a handle, \<open>handle_leased\<close> of its identifier.
\<close>

datatype profile = LOCAL | CLUSTER | RF3 | REPLICATED

record allow_rec =
  al_identity :: string
  al_client :: string
  al_private :: string
  al_domain :: string
  al_capacity :: int

record app =
  profile :: profile
  block_size_bytes :: int
  max_file_bytes :: int
  capacity_bytes :: int
  protected_store :: bool
  etcd_backend :: bool
  session_leased :: "session_rec \<Rightarrow> bool"
  handle_leased :: "string \<Rightarrow> bool"
  lock_seconds :: rat
  handle_seconds :: rat
  suspect_ms :: int
  unavailable_ms :: int
  scrub_interval_ms :: int
  default_replicas :: int
  allowed :: "(string \<times> allow_rec) list"
  sys_epoch :: string
  sys_root :: string
  sys_node :: string
  strict_content :: bool
  lease_epoch :: string
  maintenance_generation :: int
  verified_seals :: "(string \<times> string) list"
  now_ms :: int
  clock_s :: rat
  disk_free :: int
  slot_free :: bool
  master_key :: string
  uidgen :: "nat \<Rightarrow> string"
  nfc :: "string \<Rightarrow> string"
  sha256 :: "string \<Rightarrow> string"
  hmac_sha256 :: "string \<Rightarrow> string \<Rightarrow> string"
  pw_hash :: "nat \<Rightarrow> string \<Rightarrow> string"
  pw_verify :: "string \<Rightarrow> string \<Rightarrow> bool"
  aead_seal :: "nat \<Rightarrow> string \<Rightarrow> string"
  aead_open :: "string \<Rightarrow> string option"
  block_dict :: "block_ref \<Rightarrow> json"
  fence_dict :: "fence \<Rightarrow> json"

definition has_leases :: "app \<Rightarrow> bool" where
  "has_leases app \<longleftrightarrow> profile app = RF3 \<or> profile app = REPLICATED"

text \<open>\<^verbatim>\<open>uid()\<close> draws the next identifier.\<close>

definition uid :: "app \<Rightarrow> db \<Rightarrow> string \<times> db" where
  "uid app tx = (uidgen app (uid_count tx), tx\<lparr>uid_count := Suc (uid_count tx)\<rparr>)"

definition manifest_hash :: "app \<Rightarrow> block_ref list \<Rightarrow> string" where
  "manifest_hash app bs = sha256 app (canonical (JArr (map (block_dict app) bs)))"

definition intent :: "app \<Rightarrow> json \<Rightarrow> string" where
  "intent app dict = sha256 app (canonical (clean (nfc app) dict))"

definition storage_cost :: "int \<Rightarrow> int" where
  "storage_cost len = len + 4096 + ((len + CHUNK - 1) div CHUNK) * 20"

section \<open>Inversion lemmas\<close>

lemma need_simps [simp]:
  "need True r k = k"
  "need False r k = Inl (Fault r)"
  by (simp_all add: need_def)

lemma need_some_simps [simp]:
  "need_some None r f = Inl (Fault r)"
  "need_some (Some x) r f = f x"
  by (simp_all add: need_some_def)

lemma deref_simps [simp]:
  "deref None f = Inl TypeError"
  "deref (Some x) f = f x"
  by (simp_all add: deref_def)

lemma need_eq_Inr [run]: "need c r k = Inr y \<longleftrightarrow> c \<and> k = Inr y"
  by (simp add: need_def run)

lemma need_some_eq_Inr [run]: "need_some v r f = Inr y \<longleftrightarrow> (\<exists>x. v = Some x \<and> f x = Inr y)"
  by (simp add: need_some_def run)

lemma deref_eq_Inr [run]: "deref v f = Inr y \<longleftrightarrow> (\<exists>x. v = Some x \<and> f x = Inr y)"
  by (simp add: deref_def run)

lemma need_eq_Inl: "need c r k = Inl e \<longleftrightarrow> \<not> c \<and> e = Fault r \<or> c \<and> k = Inl e"
  by (auto simp: need_def guardr_def)

lemma need_cong [fundef_cong]:
  "c = c' \<Longrightarrow> r = r' \<Longrightarrow> (c' \<Longrightarrow> k = k') \<Longrightarrow> need c r k = need c' r' k'"
  by (simp add: need_def guardr_def)

lemma need_some_cong [fundef_cong]:
  "v = v' \<Longrightarrow> r = r' \<Longrightarrow> (\<And>x. v' = Some x \<Longrightarrow> f x = f' x) \<Longrightarrow> need_some v r f = need_some v' r' f'"
  by (cases v') auto

lemma deref_cong [fundef_cong]:
  "v = v' \<Longrightarrow> (\<And>x. v' = Some x \<Longrightarrow> f x = f' x) \<Longrightarrow> deref v f = deref v' f'"
  by (cases v') auto

lemma uid_simps [simp]:
  "fst (uid app tx) = uidgen app (uid_count tx)"
  "snd (uid app tx) = tx\<lparr>uid_count := Suc (uid_count tx)\<rparr>"
  by (simp_all add: uid_def)

end
