(* ===== verification/Json.thy ===== *)
theory Json
  imports Domain "HOL-Library.Multiset"
begin

text \<open>
  The two text formats of the standard library that stored data goes through: \<^verbatim>\<open>json.loads\<close>, the
  inverse of the canonical text of \<open>Domain\<close>, and the base64 alphabet. Texts are UTF-8
  byte strings. Numbers with a fraction or an exponent are outside the model: the program never
  writes them in what it reads back.
\<close>

section \<open>Reading strings and numbers\<close>

definition is_space :: "char \<Rightarrow> bool" where
  "is_space c \<longleftrightarrow> c \<in> {CHR 0x20, CHR 0x0A, CHR 0x0D, CHR 0x09}"

definition skip :: "string \<Rightarrow> string" where
  "skip s = dropWhile is_space s"

definition hex_val :: "char \<Rightarrow> nat option" where
  "hex_val c =
     (let n = of_char c :: nat in
      if 48 \<le> n \<and> n \<le> 57 then Some (n - 48)
      else if 97 \<le> n \<and> n \<le> 102 then Some (n - 87)
      else if 65 \<le> n \<and> n \<le> 70 then Some (n - 55)
      else None)"

fun hex4 :: "char \<Rightarrow> char \<Rightarrow> char \<Rightarrow> char \<Rightarrow> nat option" where
  "hex4 a b c d =
     (case (hex_val a, hex_val b, hex_val c, hex_val d) of
        (Some w, Some x, Some y, Some z) \<Rightarrow> Some (w * 4096 + x * 256 + y * 16 + z)
      | _ \<Rightarrow> None)"

definition utf8 :: "nat \<Rightarrow> string" where
  "utf8 n =
     (if n < 128 then [char_of n]
      else if n < 2048 then [char_of (192 + n div 64), char_of (128 + n mod 64)]
      else if n < 65536 then [char_of (224 + n div 4096), char_of (128 + n div 64 mod 64), char_of (128 + n mod 64)]
      else [char_of (240 + n div 262144), char_of (128 + n div 4096 mod 64), char_of (128 + n div 64 mod 64), char_of (128 + n mod 64)])"

definition simple_escape :: "char \<Rightarrow> char option" where
  "simple_escape c = map_of [(CHR 0x22, CHR 0x22), (CHR 0x5C, CHR 0x5C), (CHR ''/'', CHR ''/''), (CHR ''b'', CHR 0x08),
     (CHR ''f'', CHR 0x0C), (CHR ''n'', CHR 0x0A), (CHR ''r'', CHR 0x0D), (CHR ''t'', CHR 0x09)] c"

text \<open>The code point of an escape and the text after it: a pair of surrogates is one code point.\<close>

definition code_point :: "nat \<Rightarrow> string \<Rightarrow> nat \<times> string" where
  "code_point hi rest =
     (case rest of
        b # u # e # f # g # h # later \<Rightarrow>
          (case hex4 e f g h of
             Some lo \<Rightarrow>
               if b = CHR 0x5C \<and> u = CHR ''u'' \<and> 55296 \<le> hi \<and> hi \<le> 56319 \<and> 56320 \<le> lo \<and> lo \<le> 57343
               then (65536 + (hi - 55296) * 1024 + (lo - 56320), later) else (hi, rest)
           | None \<Rightarrow> (hi, rest))
      | _ \<Rightarrow> (hi, rest))"

lemma code_point_shorter [termination_simp]: "length (snd (code_point hi rest)) \<le> length rest"
  by (auto simp: code_point_def split: list.splits option.splits)

text \<open>The rest of a string after its opening quote.\<close>

function str_body :: "string \<Rightarrow> (string \<times> string) option" where
  "str_body [] = None"
| "str_body (c # cs) =
     (if c = CHR 0x22 then Some ([], cs)
      else if c = CHR 0x5C then
        (case cs of
           [] \<Rightarrow> None
         | e # r \<Rightarrow>
             (case simple_escape e of
                Some x \<Rightarrow> map_option (apfst ((#) x)) (str_body r)
              | None \<Rightarrow>
                  if e \<noteq> CHR ''u'' then None
                  else (case r of
                          h1 # h2 # h3 # h4 # r' \<Rightarrow>
                            (case hex4 h1 h2 h3 h4 of
                               None \<Rightarrow> None
                             | Some n \<Rightarrow> map_option (apfst ((@) (utf8 (fst (code_point n r')))))
                                          (str_body (snd (code_point n r'))))
                        | _ \<Rightarrow> None)))
      else if of_char c < (32 :: nat) then None
      else map_option (apfst ((#) c)) (str_body cs))"
  by pat_completeness auto
termination
  by (relation "measure length")
     (auto simp: code_point_shorter less_Suc_eq_le intro: le_SucI order_trans [OF code_point_shorter])

declare str_body.simps(2) [simp del]

definition is_digit :: "char \<Rightarrow> bool" where
  "is_digit c \<longleftrightarrow> 48 \<le> (of_char c :: nat) \<and> of_char c \<le> (57 :: nat)"

definition dec_val :: "string \<Rightarrow> int" where
  "dec_val ds = foldl (\<lambda>a c. a * 10 + (int (of_char c) - 48)) 0 ds"

definition digits :: "string \<Rightarrow> (string \<times> string) option" where
  "digits s =
     (case s of
        [] \<Rightarrow> None
      | c # cs \<Rightarrow>
          if c = CHR ''0'' then Some ([c], cs)
          else if is_digit c then Some (c # takeWhile is_digit cs, dropWhile is_digit cs)
          else None)"

definition fraction :: "string \<Rightarrow> bool" where
  "fraction s \<longleftrightarrow> (case s of [] \<Rightarrow> False | c # _ \<Rightarrow> c \<in> {CHR ''.'', CHR ''e'', CHR ''E''})"

definition number :: "string \<Rightarrow> (json \<times> string) option" where
  "number s =
     (let neg = (case s of c # _ \<Rightarrow> c = CHR ''-'' | [] \<Rightarrow> False) in
      case digits (if neg then tl s else s) of
        None \<Rightarrow> None
      | Some (ds, rest) \<Rightarrow>
          if fraction rest then None else Some (JInt (if neg then - dec_val ds else dec_val ds), rest))"

section \<open>Reading values\<close>

definition starts :: "string \<Rightarrow> string \<Rightarrow> string option" where
  "starts word s = (if take (length word) s = word then Some (drop (length word) s) else None)"

text \<open>The head of a text after white space.\<close>

definition next_is :: "char \<Rightarrow> string \<Rightarrow> string option" where
  "next_is c s = starts [c] (skip s)"

definition literal :: "string \<Rightarrow> (json \<times> string) option" where
  "literal s =
     (case starts ''null'' s of
        Some t \<Rightarrow> Some (JNull, t)
      | None \<Rightarrow>
          (case starts ''true'' s of
             Some t \<Rightarrow> Some (JBool True, t)
           | None \<Rightarrow> (case starts ''false'' s of Some t \<Rightarrow> Some (JBool False, t) | None \<Rightarrow> number s)))"

fun parse :: "nat \<Rightarrow> string \<Rightarrow> (json \<times> string) option"
  and elements :: "nat \<Rightarrow> string \<Rightarrow> (json list \<times> string) option"
  and members :: "nat \<Rightarrow> string \<Rightarrow> ((string \<times> json) list \<times> string) option" where
  "parse 0 s = None"
| "parse (Suc n) s =
     (case next_is (CHR 0x22) s of
        Some r \<Rightarrow> map_option (apfst JStr) (str_body r)
      | None \<Rightarrow>
     (case next_is (CHR ''['') s of
        Some r \<Rightarrow> (case next_is (CHR '']'') r of
                     Some t \<Rightarrow> Some (JArr [], t)
                   | None \<Rightarrow> map_option (apfst JArr) (elements n r))
      | None \<Rightarrow>
     (case next_is (CHR ''{'') s of
        Some r \<Rightarrow> (case next_is (CHR ''}'') r of
                     Some t \<Rightarrow> Some (JObj [], t)
                   | None \<Rightarrow> map_option (apfst (\<lambda>kvs. JObj (fold (\<lambda>(k, v). dict_put k v) kvs []))) (members n r))
      | None \<Rightarrow> literal (skip s))))"
| "elements 0 s = None"
| "elements (Suc n) s =
     (case parse n s of
        None \<Rightarrow> None
      | Some (v, t) \<Rightarrow>
          (case next_is (CHR '','') t of
             Some u \<Rightarrow> map_option (apfst ((#) v)) (elements n u)
           | None \<Rightarrow> (case next_is (CHR '']'') t of Some u \<Rightarrow> Some ([v], u) | None \<Rightarrow> None)))"
| "members 0 s = None"
| "members (Suc n) s =
     (case Option.bind (next_is (CHR 0x22) s) str_body of
        None \<Rightarrow> None
      | Some (k, t) \<Rightarrow>
          (case Option.bind (next_is (CHR '':'') t) (parse n) of
             None \<Rightarrow> None
           | Some (v, u) \<Rightarrow>
               (case next_is (CHR '','') u of
                  Some w \<Rightarrow> map_option (apfst ((#) (k, v))) (members n w)
                | None \<Rightarrow> (case next_is (CHR ''}'') u of Some w \<Rightarrow> Some ([(k, v)], w) | None \<Rightarrow> None))))"

text \<open>Every second call consumes a character, so twice the length of the text is enough fuel.\<close>

definition loads :: "string \<Rightarrow> json option" where
  "loads s =
     (case parse (2 * length s + 2) s of
        Some (v, t) \<Rightarrow> if skip t = [] then Some v else None
      | None \<Rightarrow> None)"

section \<open>Base64\<close>

definition b64_alphabet :: string where
  "b64_alphabet = ''ABCDEFGHIJKLMNOPQRSTUVWXYZabcdefghijklmnopqrstuvwxyz0123456789+/''"

definition b64_char :: "nat \<Rightarrow> char" where
  "b64_char n = b64_alphabet ! n"

definition b64_val :: "char \<Rightarrow> nat option" where
  "b64_val c = map_of (zip b64_alphabet [0..<64]) c"

fun b64encode :: "string \<Rightarrow> string" where
  "b64encode [] = []"
| "b64encode [a] =
     (let x = of_char a in [b64_char (x div 4), b64_char (x mod 4 * 16), CHR ''='', CHR ''=''])"
| "b64encode [a, b] =
     (let x = of_char a; y = of_char b in
      [b64_char (x div 4), b64_char (x mod 4 * 16 + y div 16), b64_char (y mod 16 * 4), CHR ''=''])"
| "b64encode (a # b # c # rest) =
     (let x = of_char a; y = of_char b; z = of_char c in
      b64_char (x div 4) # b64_char (x mod 4 * 16 + y div 16) # b64_char (y mod 16 * 4 + z div 64) #
      b64_char (z mod 64) # b64encode rest)"

text \<open>
  The lenient decoder: characters outside the alphabet are skipped, padding ends the data when it
  completes a group. The state is the position in the group, the bits left over and the padding seen.
\<close>

fun b64_run :: "nat \<Rightarrow> nat \<Rightarrow> nat \<Rightarrow> string \<Rightarrow> string option" where
  "b64_run q left pads [] = (if q = 0 then Some [] else None)"
| "b64_run q left pads (c # cs) =
     (if c = CHR ''='' then
        (if 2 \<le> q \<and> 4 \<le> q + Suc pads then Some []
         else b64_run q left (if 2 \<le> q then Suc pads else pads) cs)
      else
        (case b64_val c of
           None \<Rightarrow> b64_run q left pads cs
         | Some v \<Rightarrow>
             if q = 0 then b64_run 1 v 0 cs
             else if q = 1 then map_option ((#) (char_of (left * 4 + v div 16))) (b64_run 2 (v mod 16) 0 cs)
             else if q = 2 then map_option ((#) (char_of (left * 16 + v div 4))) (b64_run 3 (v mod 4) 0 cs)
             else map_option ((#) (char_of (left * 64 + v))) (b64_run 0 0 0 cs)))"

definition b64decode :: "string \<Rightarrow> string option" where
  "b64decode s = b64_run 0 0 0 s"

section \<open>Lemmas: base64\<close>

lemma b64_val_char: "n < 64 \<Longrightarrow> b64_val (b64_char n) = Some n \<and> b64_char n \<noteq> CHR ''=''"
proof -
  have "list_all (\<lambda>n. b64_val (b64_char n) = Some n \<and> b64_char n \<noteq> CHR ''='') [0..<64]" by code_simp
  then show "n < 64 \<Longrightarrow> ?thesis" by (auto simp: list_all_iff)
qed

lemma of_char_less: "of_char (c :: char) < (256 :: nat)"
  by (metis of_char_mod_256 mod_less_divisor zero_less_numeral)

lemma b64_run_char:
  "n < 64 \<Longrightarrow> b64_run q left pads (b64_char n # cs) =
     (if q = 0 then b64_run 1 n 0 cs
      else if q = 1 then map_option ((#) (char_of (left * 4 + n div 16))) (b64_run 2 (n mod 16) 0 cs)
      else if q = 2 then map_option ((#) (char_of (left * 16 + n div 4))) (b64_run 3 (n mod 4) 0 cs)
      else map_option ((#) (char_of (left * 64 + n))) (b64_run 0 0 0 cs))"
  using b64_val_char [of n] by simp

lemma b64_run_pad:
  "b64_run q left pads (CHR ''='' # cs) =
     (if 2 \<le> q \<and> 4 \<le> q + Suc pads then Some [] else b64_run q left (if 2 \<le> q then Suc pads else pads) cs)"
  by simp

lemma sextets:
  fixes x y z :: nat
  assumes "x < 256" "y < 256" "z < 256"
  shows "x div 4 < 64" "x mod 4 * 16 < 64" "x mod 4 * 16 + y div 16 < 64" "y mod 16 * 4 < 64"
    "y mod 16 * 4 + z div 64 < 64" "z mod 64 < 64" "x div 4 * 4 + (x mod 4 * 16 + y div 16) div 16 = x"
    "(x mod 4 * 16 + y div 16) mod 16 * 16 + (y mod 16 * 4 + z div 64) div 4 = y"
    "(x mod 4 * 16 + y div 16) mod 16 * 16 + y mod 16 * 4 div 4 = y"
    "(y mod 16 * 4 + z div 64) mod 4 * 64 + z mod 64 = z"
    "x div 4 * 4 + x mod 4 * 16 div 16 = x"
proof -
  have *: "x div 4 < 64" "y div 16 < 16" "z div 64 < 4" using assms by (simp_all add: div_less_iff_less_mult)
  have **: "x mod 4 < 4" "y mod 16 < 16" "z mod 64 < 64" by simp_all
  from * ** show "x div 4 < 64" "x mod 4 * 16 < 64" "x mod 4 * 16 + y div 16 < 64" "y mod 16 * 4 < 64"
    "y mod 16 * 4 + z div 64 < 64" "z mod 64 < 64" by linarith+
  show "x div 4 * 4 + (x mod 4 * 16 + y div 16) div 16 = x"
    "(x mod 4 * 16 + y div 16) mod 16 * 16 + (y mod 16 * 4 + z div 64) div 4 = y"
    "(x mod 4 * 16 + y div 16) mod 16 * 16 + y mod 16 * 4 div 4 = y"
    "(y mod 16 * 4 + z div 64) mod 4 * 64 + z mod 64 = z"
    "x div 4 * 4 + x mod 4 * 16 div 16 = x"
    using * by (simp_all add: div_mult_mod_eq)
qed

lemmas char_sextets = sextets [OF of_char_less of_char_less of_char_less]

lemma char_parts:
  "of_char (c :: char) div 16 div 16 = (0 :: nat)" "of_char (c :: char) div 64 div 4 = (0 :: nat)"
  "of_char (c :: char) div 16 mod 16 = (of_char c div 16 :: nat)" "of_char (c :: char) div 64 mod 4 = (of_char c div 64 :: nat)"
  using of_char_less [of c] by (simp_all add: div_mult2_eq [symmetric] div_less_iff_less_mult)

lemma char_joins:
  "of_char (c :: char) div 16 * 16 + of_char c mod 16 = (of_char c :: nat)"
  "of_char (c :: char) div 64 * 64 + of_char c mod 64 = (of_char c :: nat)"
  by simp_all

text \<open>Decoding what was encoded.\<close>

lemma b64decode_b64encode [simp]: "b64decode (b64encode s) = Some s"
proof -
  have "b64_run 0 0 0 (b64encode s) = Some s"
  proof (induction s rule: b64encode.induct)
    case (4 a b c rest)
    then show ?case
      by (simp add: Let_def b64_run_char char_sextets char_parts char_joins del: b64_run.simps(2))
  qed (simp_all add: Let_def b64_run_char b64_run_pad char_sextets char_parts char_joins del: b64_run.simps(2))
  then show ?thesis by (simp add: b64decode_def)
qed

section \<open>Lemmas: reading back the canonical text\<close>

lemma next_is_Cons:
  "\<not> is_space d \<Longrightarrow> next_is c (d # s) = (if d = c then Some s else None)"
  by (simp add: next_is_def starts_def skip_def)

lemma skip_Cons: "\<not> is_space d \<Longrightarrow> skip (d # s) = d # s"
  by (simp add: skip_def)

lemma hex_val_digit: "n < 16 \<Longrightarrow> hex_val (hex_digit n) = Some n"
  by (simp add: hex_val_def hex_digit_def Let_def)

lemma code_point_small: "n < 55296 \<Longrightarrow> code_point n rest = (n, rest)"
  by (simp add: code_point_def split: list.split option.split)

lemma append_single: "(@) [c] = (#) c"
  by auto

lemma str_body_esc: "str_body (esc_char c @ s) = map_option (apfst ((#) c)) (str_body s)"
proof (cases "of_char c < (32 :: nat)")
  case True
  have "hex_val (CHR ''0'') = Some 0" by (simp add: hex_val_def)
  moreover have "of_char c div 16 < (16 :: nat)" "of_char c mod 16 < (16 :: nat)" using True by simp_all
  ultimately have four: "hex4 (CHR ''0'') (CHR ''0'') (hex_digit (of_char c div 16)) (hex_digit (of_char c mod 16)) = Some (of_char c)"
    by (simp add: hex_val_digit)
  have "utf8 (of_char c) = [c]" using True by (simp add: utf8_def)
  with four True show ?thesis
    by (simp add: esc_char_def str_body.simps(2) simple_escape_def code_point_small append_single del: hex4.simps)
next
  case False
  then show ?thesis
    by (simp add: esc_char_def str_body.simps(2) simple_escape_def)
qed

lemma str_body_json: "str_body (concat (map esc_char k) @ CHR 0x22 # s) = Some (k, s)"
  by (induction k) (simp_all add: str_body_esc str_body.simps(2))


lemma is_digit_dec [simp]: "n < 10 \<Longrightarrow> is_digit (char_of (48 + n :: nat))"
  by (simp add: is_digit_def)

lemma dec_digits_digits: "list_all is_digit (dec_digits n)"
proof (induction n rule: dec_digits.induct)
  case (1 n)
  then show ?case by (subst dec_digits.simps) simp
qed

lemma dec_val_append: "dec_val (ds @ [c]) = dec_val ds * 10 + (int (of_char c) - 48)"
  by (simp add: dec_val_def)

lemma dec_val_digits: "dec_val (dec_digits n) = int n"
proof (induction n rule: dec_digits.induct)
  case (1 n)
  show ?case
  proof (cases "n < 10")
    case True
    then show ?thesis by (subst dec_digits.simps) (simp add: dec_val_def)
  next
    case False
    then have "dec_digits n = dec_digits (n div 10) @ [char_of (48 + n mod 10)]" by (subst dec_digits.simps) simp
    moreover have "int (of_char (char_of (48 + n mod 10))) = 48 + int (n mod 10)" by simp
    ultimately show ?thesis using 1 False by (simp only: dec_val_append) (simp add: zdiv_int zmod_int)
  qed
qed

text \<open>A decimal number starts with zero only if it is zero.\<close>

lemma dec_digits_hd: "\<exists>c cs. dec_digits n = c # cs \<and> (c = CHR ''0'' \<longrightarrow> cs = [])"
proof (induction n rule: dec_digits.induct)
  case (1 n)
  show ?case
  proof (cases "n < 10")
    case True
    then show ?thesis by (subst dec_digits.simps) simp
  next
    case False
    then obtain c cs where ih: "dec_digits (n div 10) = c # cs" "c = CHR ''0'' \<longrightarrow> cs = []" using 1 by blast
    have "c \<noteq> CHR ''0''"
    proof
      assume "c = CHR ''0''"
      with ih have "dec_val (dec_digits (n div 10)) = 0" by (simp add: dec_val_def)
      with False show False by (simp add: dec_val_digits)
    qed
    with ih False show ?thesis by (subst dec_digits.simps) simp
  qed
qed

definition ends_number :: "string \<Rightarrow> bool" where
  "ends_number s \<longleftrightarrow> (case s of [] \<Rightarrow> True | c # _ \<Rightarrow> \<not> is_digit c) \<and> \<not> fraction s"

lemma digits_dec: "ends_number rest \<Longrightarrow> digits (dec_digits n @ rest) = Some (dec_digits n, rest)"
proof -
  assume rest: "ends_number rest"
  obtain c cs where ds: "dec_digits n = c # cs" "c = CHR ''0'' \<longrightarrow> cs = []" using dec_digits_hd by blast
  have all: "is_digit c" "\<forall>x \<in> set cs. is_digit x" using dec_digits_digits [of n] ds(1) by (simp_all add: list_all_iff)
  have "takeWhile is_digit (cs @ rest) = cs" "dropWhile is_digit (cs @ rest) = rest"
    using all(2) rest by (auto simp: takeWhile_append dropWhile_append ends_number_def split: list.splits)
  with ds all(1) show ?thesis by (auto simp: digits_def)
qed

lemma number_dec: "ends_number rest \<Longrightarrow> number (dec_int i @ rest) = Some (JInt i, rest)"
proof -
  assume rest: "ends_number rest"
  have first: "c \<noteq> CHR ''-''" if "is_digit c" for c using that by (auto simp: is_digit_def)
  obtain c cs where ds: "dec_digits (nat i) = c # cs" using dec_digits_hd by blast
  then have "c \<noteq> CHR ''-''" using dec_digits_digits [of "nat i"] first by simp
  with ds rest dec_val_digits [of "nat i"] digits_dec [OF rest, of "nat i"] digits_dec [OF rest, of "nat (- i)"] show ?thesis
    by (auto simp: number_def dec_int_def Let_def dec_val_digits ends_number_def)
qed

lemma dec_int_hd: "\<exists>c cs. dec_int i = c # cs \<and> (is_digit c \<or> c = CHR ''-'')"
  using dec_digits_hd [of "nat i"] dec_digits_digits [of "nat i"] by (auto simp: dec_int_def)

section \<open>What is written is read back\<close>

fun json_wf :: "(string \<Rightarrow> bool) \<Rightarrow> json \<Rightarrow> bool" where
  "json_wf fine (JArr vs) = list_all (json_wf fine) vs"
| "json_wf fine (JObj kvs) = (distinct (map fst kvs) \<and> list_all (\<lambda>(k, v). fine k \<and> json_wf fine v) kvs)"
| "json_wf fine (JStr s) = fine s"
| "json_wf fine v = True"

lemma ends_number_mark [simp]: "c \<in> {CHR '','', CHR '']'', CHR ''}''} \<Longrightarrow> ends_number (c # s)"
  by (auto simp: ends_number_def fraction_def is_digit_def)

lemma mark_not_space [simp]:
  "\<not> is_space (CHR '','')" "\<not> is_space (CHR '']'')" "\<not> is_space (CHR ''}'')" "\<not> is_space (CHR ''['')"
  "\<not> is_space (CHR ''{'')" "\<not> is_space (CHR 0x22)" "\<not> is_space (CHR '':'')"
  by (simp_all add: is_space_def)

lemma insort_key_apsnd: "insort_key fst (apsnd f x) (map (apsnd f) xs) = map (apsnd f) (insort_key fst x xs)"
  by (induction xs) auto

lemma sort_key_apsnd: "sort_key fst (map (apsnd f) xs) = map (apsnd f) (sort_key fst xs)"
  by (induction xs) (simp_all add: insort_key_apsnd)

lemma apsnd_case_prod: "(\<lambda>(k, v). (k, f v)) = apsnd f"
  by (auto simp: fun_eq_iff)

lemma fold_dict_put: "distinct (map fst (acc @ kvs)) \<Longrightarrow> fold (\<lambda>(k, v). dict_put k v) kvs acc = acc @ kvs"
proof (induction kvs arbitrary: acc)
  case (Cons kv kvs)
  obtain k v where kv: "kv = (k, v)" by (cases kv)
  from Cons.prems have "dict_put k v acc = acc @ [(k, v)]" by (intro dict_put_fresh) (auto simp: kv)
  with Cons.IH [of "acc @ [(k, v)]"] Cons.prems show ?case by (simp add: kv)
qed simp

text \<open>
  A writer of JSON: \<open>shown\<close> is the text of a value, \<open>quoted\<close> that of a string of the kind \<open>fine\<close>,
  \<open>ordered\<close> the order in which it lists the members of an object, and \<open>reread\<close> the value that is read again.
\<close>

locale json_writer =
  fixes shown :: "json \<Rightarrow> string" and quoted :: "string \<Rightarrow> string" and fine :: "string \<Rightarrow> bool"
    and ordered :: "(string \<times> json) list \<Rightarrow> (string \<times> json) list" and reread :: "json \<Rightarrow> json"
  assumes shown_leaf: "shown JNull = ''null''" "shown (JBool b) = (if b then ''true'' else ''false'')" "shown (JInt i) = dec_int i"
      "shown (JStr s) = quoted s"
    and shown_arr: "shown (JArr vs) = ''['' @ join '','' (map shown vs) @ '']''"
    and shown_obj: "shown (JObj kvs) = ''{'' @ join '','' (map (\<lambda>kv. quoted (fst kv) @ '':'' @ shown (snd kv)) (ordered kvs)) @ ''}''"
    and quoted_read: "fine k \<Longrightarrow> \<exists>b. quoted k = CHR 0x22 # b \<and> (\<forall>s. str_body (b @ s) = Some (k, s))"
    and ordered_mset: "mset (ordered kvs) = mset kvs"
    and back_leaf: "reread JNull = JNull" "reread (JBool b) = JBool b" "reread (JInt i) = JInt i" "reread (JStr s) = JStr s"
    and back_arr: "reread (JArr vs) = JArr (map reread vs)"
    and back_obj: "reread (JObj kvs) = JObj (map (apsnd reread) (ordered kvs))"
begin

lemma set_ordered: "set (ordered kvs) = set kvs"
  using ordered_mset [of kvs] by (metis set_mset_mset)

lemma distinct_ordered: "distinct (map fst (ordered kvs)) \<longleftrightarrow> distinct (map fst kvs)"
  by (metis ordered_mset mset_map mset_eq_imp_distinct_iff)

text \<open>The text of a value is read as that value whatever follows, unless the value is a number that goes on.\<close>

definition reads_back :: "json \<Rightarrow> bool" where
  "reads_back v \<longleftrightarrow> (\<forall>n rest. 2 * length (shown v) \<le> n \<longrightarrow> ends_number rest \<longrightarrow>
     parse n (shown v @ rest) = Some (reread v, rest))"

definition member_shown :: "string \<times> json \<Rightarrow> string" where
  "member_shown kv = quoted (fst kv) @ '':'' @ shown (snd kv)"

lemma shown_JObj: "shown (JObj kvs) = ''{'' @ join '','' (map member_shown (ordered kvs)) @ ''}''"
  by (simp add: shown_obj member_shown_def [abs_def])

lemma member_shown_hd:
  assumes "fine (fst kv)"
  obtains b where "member_shown kv = CHR 0x22 # b @ '':'' @ shown (snd kv)" "\<And>s. str_body (b @ s) = Some (fst kv, s)"
  using quoted_read [OF assms] by (auto simp: member_shown_def)

lemma elements_join:
  assumes "vs \<noteq> []" and "list_all reads_back vs" and "2 * length (join '','' (map shown vs)) < n"
  shows "elements n (join '','' (map shown vs) @ CHR '']'' # rest) = Some (map reread vs, rest)"
  using assms
proof (induction vs arbitrary: n)
  case (Cons v vs)
  then obtain m where n: "n = Suc m" by (cases n) auto
  show ?case
  proof (cases vs)
    case Nil
    with Cons.prems n have "parse m (shown v @ CHR '']'' # rest) = Some (reread v, CHR '']'' # rest)"
      by (simp add: reads_back_def)
    then show ?thesis by (simp add: n Nil next_is_Cons)
  next
    case (Cons w ws)
    let ?tail = "join '','' (map shown vs) @ CHR '']'' # rest"
    have "parse m (shown v @ CHR '','' # ?tail) = Some (reread v, CHR '','' # ?tail)"
      using Cons.prems n Cons by (simp add: reads_back_def)
    moreover have "elements m ?tail = Some (map reread vs, rest)"
      using Cons.prems n Cons by (intro Cons.IH) auto
    ultimately show ?thesis using Cons by (simp add: n next_is_Cons)
  qed
qed simp

lemma members_join:
  assumes "kvs \<noteq> []" and "list_all (\<lambda>kv. fine (fst kv) \<and> reads_back (snd kv)) kvs" and "2 * length (join '','' (map member_shown kvs)) < n"
  shows "members n (join '','' (map member_shown kvs) @ CHR ''}'' # rest) = Some (map (apsnd reread) kvs, rest)"
  using assms
proof (induction kvs arbitrary: n)
  case (Cons kv kvs)
  then obtain m where n: "n = Suc m" by (cases n) auto
  obtain k v where kv: "kv = (k, v)" by (cases kv)
  from Cons.prems have "fine (fst kv)" by simp
  then obtain b where b: "member_shown kv = CHR 0x22 # b @ '':'' @ shown v" "\<And>s. str_body (b @ s) = Some (k, s)"
    by (rule member_shown_hd) (simp add: kv)
  show ?case
  proof (cases kvs)
    case Nil
    with Cons.prems n kv b have "parse m (shown v @ CHR ''}'' # rest) = Some (reread v, CHR ''}'' # rest)"
      by (simp add: reads_back_def)
    then show ?thesis by (simp add: n kv Nil next_is_Cons b(1) [unfolded kv] b(2))
  next
    case (Cons x xs)
    let ?tail = "join '','' (map member_shown kvs) @ CHR ''}'' # rest"
    have "parse m (shown v @ CHR '','' # ?tail) = Some (reread v, CHR '','' # ?tail)"
      using Cons.prems n Cons kv b by (simp add: reads_back_def)
    moreover have "members m ?tail = Some (map (apsnd reread) kvs, rest)"
      using Cons.prems n Cons by (intro Cons.IH) auto
    ultimately show ?thesis using Cons by (simp add: n kv next_is_Cons b(1) [unfolded kv] b(2))
  qed
qed simp

lemma reads_back_JObj:
  assumes "distinct (map fst kvs)" and "list_all (\<lambda>kv. fine (fst kv) \<and> reads_back (snd kv)) kvs"
  shows "reads_back (JObj kvs)"
  unfolding reads_back_def
proof (intro allI impI)
  fix n rest
  assume n: "2 * length (shown (JObj kvs)) \<le> n"
  from n obtain m where m: "n = Suc m" by (cases n) (auto simp: shown_JObj)
  have all: "list_all (\<lambda>kv. fine (fst kv) \<and> reads_back (snd kv)) (ordered kvs)"
    using assms(2) by (simp add: list_all_iff set_ordered)
  show "parse n (shown (JObj kvs) @ rest) = Some (reread (JObj kvs), rest)"
  proof (cases "ordered kvs")
    case Nil
    then show ?thesis by (simp add: m shown_JObj back_obj next_is_Cons)
  next
    case (Cons x xs)
    with all have "fine (fst x)" by simp
    then obtain b where "member_shown x = CHR 0x22 # b @ '':'' @ shown (snd x)" by (rule member_shown_hd)
    then have first: "next_is (CHR ''}'') (join '','' (map member_shown (ordered kvs)) @ CHR ''}'' # rest) = None"
      by (cases xs) (simp_all add: Cons next_is_Cons)
    have "members m (join '','' (map member_shown (ordered kvs)) @ CHR ''}'' # rest) = Some (map (apsnd reread) (ordered kvs), rest)"
      using n all Cons by (intro members_join) (auto simp: m shown_JObj)
    moreover have "distinct (map fst (map (apsnd reread) (ordered kvs)))"
      using assms(1) distinct_ordered [of kvs] by (simp add: comp_def)
    then have "fold (\<lambda>(k, v). dict_put k v) (map (apsnd reread) (ordered kvs)) [] = map (apsnd reread) (ordered kvs)"
      by (metis append_Nil fold_dict_put)
    ultimately show ?thesis
      using first by (simp add: m shown_JObj back_obj next_is_Cons)
  qed
qed

lemma shown_hd: "(case v of JStr s \<Rightarrow> fine s | _ \<Rightarrow> True) \<Longrightarrow> \<exists>c cs. shown v = c # cs \<and> \<not> is_space c \<and> c \<notin> {CHR '']'', CHR ''}''}"
proof (cases v)
  case (JInt i)
  have "\<not> is_space c \<and> c \<notin> {CHR '']'', CHR ''}''}" if "is_digit c \<or> c = CHR ''-''" for c
    using that by (auto simp: is_digit_def is_space_def)
  with dec_int_hd [of i] show ?thesis by (auto simp: JInt shown_leaf)
qed (auto simp: shown_leaf shown_arr shown_obj is_space_def dest: quoted_read)

lemma reads_back_JArr:
  assumes "list_all reads_back vs" and "list_all (\<lambda>v. case v of JStr s \<Rightarrow> fine s | _ \<Rightarrow> True) vs"
  shows "reads_back (JArr vs)"
  unfolding reads_back_def [of "JArr vs"]
proof (intro allI impI)
  fix n rest
  assume n: "2 * length (shown (JArr vs)) \<le> n"
  from n obtain m where m: "n = Suc m" by (cases n) (auto simp: shown_arr)
  show "parse n (shown (JArr vs) @ rest) = Some (reread (JArr vs), rest)"
  proof (cases vs)
    case (Cons v ws)
    with assms(2) obtain c cs where "shown v = c # cs" "\<not> is_space c" "c \<noteq> CHR '']''" using shown_hd [of v] by auto
    then have "next_is (CHR '']'') (join '','' (map shown vs) @ CHR '']'' # rest) = None"
      by (cases ws) (simp_all add: Cons next_is_Cons)
    moreover have "elements m (join '','' (map shown vs) @ CHR '']'' # rest) = Some (map reread vs, rest)"
      using n assms(1) Cons by (intro elements_join) (auto simp: m shown_arr)
    ultimately show ?thesis by (simp add: m next_is_Cons shown_arr back_arr)
  qed (simp add: m next_is_Cons shown_arr back_arr)
qed

lemma reads_back_leaf: "reads_back JNull" "reads_back (JBool b)" "fine s \<Longrightarrow> reads_back (JStr s)" "reads_back (JInt i)"
proof -
  show "reads_back JNull" "reads_back (JBool b)"
    unfolding reads_back_def
    by (auto simp: shown_leaf back_leaf eval_nat_numeral next_is_def skip_def is_space_def literal_def starts_def dest!: Suc_le_D)
  show "fine s \<Longrightarrow> reads_back (JStr s)"
    unfolding reads_back_def
    by (auto simp: shown_leaf back_leaf next_is_Cons Suc_le_eq dest!: quoted_read elim!: less_natE)
  show "reads_back (JInt i)"
    unfolding reads_back_def
  proof (intro allI impI)
    fix n rest
    assume n: "2 * length (shown (JInt i)) \<le> n" and rest: "ends_number rest"
    obtain c cs where c: "dec_int i = c # cs" "is_digit c \<or> c = CHR ''-''" using dec_int_hd by blast
    then have sp: "\<not> is_space c" "c \<notin> {CHR 0x22, CHR ''['', CHR ''{'', CHR ''n'', CHR ''t'', CHR ''f''}"
      by (auto simp: is_digit_def is_space_def)
    from n c obtain m where m: "n = Suc m" by (cases n) (auto simp: shown_leaf)
    have "number (c # cs @ rest) = Some (JInt i, rest)" using number_dec [OF rest, of i] c(1) by simp
    with c(1) sp show "parse n (shown (JInt i) @ rest) = Some (reread (JInt i), rest)"
      by (simp add: m shown_leaf back_leaf next_is_Cons skip_Cons literal_def starts_def)
  qed
qed

lemma reads_back_all: "json_wf fine v \<Longrightarrow> reads_back v"
proof (induction v)
  case (JArr vs)
  then show ?case by (intro reads_back_JArr) (auto simp: list_all_iff split: json.split)
next
  case (JObj kvs)
  then show ?case by (intro reads_back_JObj) (fastforce simp: list_all_iff)+
qed (auto intro: reads_back_leaf)

lemma loads_shown:
  assumes "json_wf fine v"
  shows "loads (shown v) = Some (reread v)"
proof -
  have "ends_number []" by (simp add: ends_number_def fraction_def)
  then have "parse (2 * length (shown v) + 2) (shown v) = Some (reread v, [])"
    using reads_back_all [OF assms] unfolding reads_back_def by (metis append_Nil2 le_add1)
  then show ?thesis by (simp add: loads_def skip_def)
qed

end

section \<open>The canonical writer\<close>

text \<open>The same value with the keys of every object in order.\<close>

fun normal :: "json \<Rightarrow> json" where
  "normal (JArr vs) = JArr (map normal vs)"
| "normal (JObj kvs) = JObj (sort_key fst (map (\<lambda>(k, v). (k, normal v)) kvs))"
| "normal v = v"

interpretation canonically: json_writer canonical json_str "\<lambda>_. True" "sort_key fst" normal
proof
  show "canonical (JObj kvs) = ''{'' @ join '','' (map (\<lambda>kv. json_str (fst kv) @ '':'' @ canonical (snd kv)) (sort_key fst kvs)) @ ''}''" for kvs
  proof -
    have "(\<lambda>(k, t). json_str k @ '':'' @ t) \<circ> apsnd canonical = (\<lambda>kv. json_str (fst kv) @ '':'' @ canonical (snd kv))"
      by (auto simp: fun_eq_iff)
    then show ?thesis by (simp add: apsnd_case_prod sort_key_apsnd)
  qed
  show "normal (JObj kvs) = JObj (map (apsnd normal) (sort_key fst kvs))" for kvs
    by (simp add: apsnd_case_prod sort_key_apsnd)
  show "\<exists>b. json_str k = CHR 0x22 # b \<and> (\<forall>s. str_body (b @ s) = Some (k, s))" for k
    by (simp add: json_str_def str_body_json)
qed simp_all

abbreviation member_text :: "string \<times> json \<Rightarrow> string" where
  "member_text kv \<equiv> json_str (fst kv) @ '':'' @ canonical (snd kv)"

lemmas canonical_JObj = canonically.shown_obj

lemma loads_canonical: "json_wf (\<lambda>_. True) v \<Longrightarrow> loads (canonical v) = Some (normal v)"
  by (rule canonically.loads_shown)

section \<open>The writer of the metadata store\<close>

text \<open>
  \<^verbatim>\<open>json.dumps\<close> with its defaults but for the separators: members in the order of the dictionary, and every character outside
  the printable ASCII range escaped, in a pair of surrogates above 65535. The code points of a UTF-8 text are read off its bytes.
\<close>

fun points :: "string \<Rightarrow> nat list" where
  "points (a # s) =
     (let n = of_char a in
      if n < 128 then n # points s
      else if n < 224 then (case s of b # r \<Rightarrow> ((n - 192) * 64 + (of_char b - 128)) # points r | _ \<Rightarrow> [])
      else if n < 240 then (case s of b # c # r \<Rightarrow> ((n - 224) * 4096 + (of_char b - 128) * 64 + (of_char c - 128)) # points r | _ \<Rightarrow> [])
      else (case s of b # c # d # r \<Rightarrow>
              ((n - 240) * 262144 + (of_char b - 128) * 4096 + (of_char c - 128) * 64 + (of_char d - 128)) # points r | _ \<Rightarrow> []))"
| "points [] = []"

definition esc_hex :: "nat \<Rightarrow> string" where
  "esc_hex n = [CHR 0x5C, CHR ''u'', hex_digit (n div 4096), hex_digit (n div 256 mod 16), hex_digit (n div 16 mod 16), hex_digit (n mod 16)]"

definition esc_point :: "nat \<Rightarrow> string" where
  "esc_point n =
     (if n < 127 then esc_char (char_of n)
      else if n < 65536 then esc_hex n
      else esc_hex (55296 + (n - 65536) div 1024) @ esc_hex (56320 + (n - 65536) mod 1024))"

definition ascii_str :: "string \<Rightarrow> string" where
  "ascii_str s = CHR 0x22 # concat (map esc_point (points s)) @ [CHR 0x22]"

fun dumps :: "json \<Rightarrow> string" where
  "dumps JNull = ''null''"
| "dumps (JBool b) = (if b then ''true'' else ''false'')"
| "dumps (JInt i) = dec_int i"
| "dumps (JStr s) = ascii_str s"
| "dumps (JArr vs) = ''['' @ join '','' (map dumps vs) @ '']''"
| "dumps (JObj kvs) = ''{'' @ join '','' (map (\<lambda>(k, t). ascii_str k @ '':'' @ t) (map (\<lambda>(k, v). (k, dumps v)) kvs)) @ ''}''"

text \<open>A text of the program: the UTF-8 form of its code points, none of which is a surrogate.\<close>

definition scalar :: "nat \<Rightarrow> bool" where
  "scalar n \<longleftrightarrow> n < 55296 \<or> 57344 \<le> n \<and> n < 1114112"

definition utf8_text :: "string \<Rightarrow> bool" where
  "utf8_text s \<longleftrightarrow> concat (map utf8 (points s)) = s \<and> list_all scalar (points s)"

lemma hex4_digits: "n < 65536 \<Longrightarrow> hex4 (hex_digit (n div 4096)) (hex_digit (n div 256 mod 16)) (hex_digit (n div 16 mod 16)) (hex_digit (n mod 16)) = Some n"
proof -
  assume n: "n < 65536"
  have "n div 16 div 16 = n div 256" "n div 256 div 16 = n div 4096" by (simp_all add: div_mult2_eq [symmetric])
  then have "n div 4096 * 4096 + n div 256 mod 16 * 256 + n div 16 mod 16 * 16 + n mod 16 = n"
    using mult_div_mod_eq [of 16 n] mult_div_mod_eq [of 16 "n div 16"] mult_div_mod_eq [of 16 "n div 256"] by linarith
  with n show ?thesis by (simp add: hex_val_digit)
qed

lemma str_body_hex: "n < 65536 \<Longrightarrow> str_body (esc_hex n @ s) = map_option (apfst ((@) (utf8 (fst (code_point n s))))) (str_body (snd (code_point n s)))"
  by (simp add: esc_hex_def str_body.simps(2) simple_escape_def hex4_digits del: hex4.simps)

lemma code_point_alone: "\<not> (55296 \<le> n \<and> n \<le> 56319) \<Longrightarrow> code_point n rest = (n, rest)"
  by (auto simp: code_point_def split: list.split option.split)

lemma code_point_pair:
  assumes "55296 \<le> hi" "hi \<le> 56319" "56320 \<le> lo" "lo \<le> 57343"
  shows "code_point hi (esc_hex lo @ s) = (65536 + (hi - 55296) * 1024 + (lo - 56320), s)"
  using assms by (simp add: esc_hex_def code_point_def hex4_digits del: hex4.simps)

lemma str_body_point:
  assumes "scalar n"
  shows "str_body (esc_point n @ s) = map_option (apfst ((@) (utf8 n))) (str_body s)"
proof -
  consider "n < 127" | "127 \<le> n" "n < 65536" | "65536 \<le> n" by linarith
  then show ?thesis
  proof cases
    case 1
    then show ?thesis by (simp add: esc_point_def str_body_esc utf8_def append_single)
  next
    case 2
    with assms have "code_point n s = (n, s)" by (intro code_point_alone) (auto simp: scalar_def)
    with 2 show ?thesis by (simp add: esc_point_def str_body_hex)
  next
    case 3
    let ?hi = "55296 + (n - 65536) div 1024" and ?lo = "56320 + (n - 65536) mod 1024"
    from 3 assms have hi: "?hi \<le> 56319" by (simp add: scalar_def)
    have lo: "?lo \<le> 57343" by (simp add: Suc_le_eq less_Suc_eq_le [symmetric])
    have join: "65536 + (n - 65536) div 1024 * 1024 + (n - 65536) mod 1024 = n" using 3 by presburger
    from hi lo have "code_point ?hi (esc_hex ?lo @ s) = (n, s)"
      by (subst code_point_pair) (simp_all add: join)
    with 3 hi show ?thesis by (simp add: esc_point_def str_body_hex)
  qed
qed

lemma str_body_points: "list_all scalar ps \<Longrightarrow> str_body (concat (map esc_point ps) @ CHR 0x22 # s) = Some (concat (map utf8 ps), s)"
  by (induction ps) (simp_all add: str_body_point str_body.simps(2))

interpretation dumping: json_writer dumps ascii_str utf8_text id "\<lambda>v. v"
proof
  show "dumps (JObj kvs) = ''{'' @ join '','' (map (\<lambda>kv. ascii_str (fst kv) @ '':'' @ dumps (snd kv)) (id kvs)) @ ''}''" for kvs
    by (simp add: comp_def case_prod_beta)
  show "\<exists>b. ascii_str k = CHR 0x22 # b \<and> (\<forall>s. str_body (b @ s) = Some (k, s))" if "utf8_text k" for k
    using that str_body_points by (simp add: ascii_str_def utf8_text_def)
qed (simp_all add: apsnd_def map_prod.id [unfolded id_def] id_def)

lemma loads_dumps: "json_wf utf8_text v \<Longrightarrow> loads (dumps v) = Some v"
  by (rule dumping.loads_shown)

end
