(* ===== verification/Store.thy ===== *)
theory Store
  imports Json
begin

text \<open>
  The metadata store of a single control node: encrypted envelopes (\<^verbatim>\<open>common/protected.py\<close>) and rows in SQLite
  (\<^verbatim>\<open>control/metadata.py\<close>).

  A row is a dictionary, written as JSON and, when a metadata key is configured, sealed in an envelope bound to its
  kind and identifier. The database is one table of objects for every kind; its columns beside the
  body are the parent, the name and whether the row is live, on which the unique index of names rests. HKDF, AES-GCM and HMAC are
  the fields of \<open>envelope_lib\<close>.
\<close>

section \<open>Envelopes\<close>

definition ENVELOPE :: string where "ENVELOPE = ''DFSHAM01''"

record envelope_lib =
  el_hkdf :: "string \<Rightarrow> string"
  el_sha256 :: "string \<Rightarrow> string"
  el_hmac :: "string \<Rightarrow> string \<Rightarrow> string"
  el_encrypt :: "string \<Rightarrow> string \<Rightarrow> string \<Rightarrow> string \<Rightarrow> string"
  el_decrypt :: "string \<Rightarrow> string \<Rightarrow> string \<Rightarrow> string \<Rightarrow> string option"

record metadata_cipher =
  mc_lib :: envelope_lib
  mc_aead :: string
  mc_index_key :: string
  mc_key_id :: string

definition cipher_of_key :: "envelope_lib \<Rightarrow> string \<Rightarrow> metadata_cipher res" where
  "cipher_of_key lib key =
     guardr (length key = 32) ValueError (
     let material = el_hkdf lib key in
     Inr \<lparr>mc_lib = lib, mc_aead = take 32 material, mc_index_key = drop 32 material, mc_key_id = el_sha256 lib key\<rparr>)"

text \<open>The files of the machine answer \<open>None\<close> where reading raises \<^verbatim>\<open>OSError\<close>.\<close>

definition configured :: "envelope_lib \<Rightarrow> (string \<Rightarrow> string option) \<Rightarrow> string option \<Rightarrow> metadata_cipher option res" where
  "configured lib files path =
     (if path = None \<or> path = Some [] then Inr None
      else case files (the path) of
             None \<Rightarrow> Inl RuntimeError
           | Some key \<Rightarrow> (case cipher_of_key lib key of Inl _ \<Rightarrow> Inl RuntimeError | Inr c \<Rightarrow> Inr (Some c)))"

definition address :: "metadata_cipher \<Rightarrow> string \<Rightarrow> string" where
  "address c data = hex (el_hmac (mc_lib c) (mc_index_key c) data)"

definition seal :: "metadata_cipher \<Rightarrow> string \<Rightarrow> string \<Rightarrow> string \<Rightarrow> string" where
  "seal c nonce data ctx =
     (let header = ENVELOPE @ mc_key_id c @ nonce in
      header @ el_encrypt (mc_lib c) (mc_aead c) nonce data (header @ ctx))"

text \<open>A value of a column: a text, or bytes.\<close>

datatype cell = Text string | Blob string

primrec cell_bytes :: "cell \<Rightarrow> string" where
  "cell_bytes (Text s) = s"
| "cell_bytes (Blob s) = s"

definition unseal :: "metadata_cipher \<Rightarrow> cell \<Rightarrow> string \<Rightarrow> string res" where
  "unseal c body ctx =
     (case body of
        Text _ \<Rightarrow> Inl (Fault DATA_LOSS)
      | Blob data \<Rightarrow>
          need (68 \<le> length data \<and> take 8 data = ENVELOPE) DATA_LOSS (
          need (take 32 (drop 8 data) = mc_key_id c) DATA_LOSS (
          need_some (el_decrypt (mc_lib c) (mc_aead c) (take 12 (drop 40 data)) (drop 52 data) (take 52 data @ ctx)) DATA_LOSS Inr)))"

section \<open>Rows of the database\<close>

type_synonym dict = "(string \<times> json) list"

record object_row =
  ob_body :: cell
  ob_parent :: "string option"
  ob_name :: "string option"
  ob_live :: bool

record store =
  st_objects :: "string \<Rightarrow> object_row table"
  st_nonces :: nat

record unit_env =
  ue_cipher :: "metadata_cipher option"
  ue_urandom :: "nat \<Rightarrow> string"

definition fresh_store :: store where
  "fresh_store = \<lparr>st_objects = (\<lambda>_. tempty), st_nonces = 0\<rparr>"

definition row_context :: "string \<Rightarrow> string \<Rightarrow> string" where
  "row_context kind identity = kind @ [CHR 0x00] @ identity"

text \<open>The fields the columns are taken from are texts, \<^verbatim>\<open>None\<close> or absent.\<close>

definition text_field :: "dict \<Rightarrow> string \<Rightarrow> string option" where
  "text_field v key = (case map_of v key of Some (JStr s) \<Rightarrow> Some s | _ \<Rightarrow> None)"

definition alive :: "dict \<Rightarrow> bool" where
  "alive v \<longleftrightarrow> map_of v ''alive'' = Some (JBool True)"

definition value_id :: "dict \<Rightarrow> string res" where
  "value_id v = (case map_of v ''id'' of None \<Rightarrow> Inl KeyError | Some (JStr i) \<Rightarrow> Inr i | Some _ \<Rightarrow> Inl TypeError)"

definition decode :: "unit_env \<Rightarrow> string \<Rightarrow> string \<Rightarrow> cell \<Rightarrow> json res" where
  "decode env kind identity body =
     need (ue_cipher env \<noteq> None \<or> \<not> (case body of Text _ \<Rightarrow> False | Blob data \<Rightarrow> take 8 data = ENVELOPE)) DATA_LOSS (
     bindr (case ue_cipher env of None \<Rightarrow> Inr (cell_bytes body) | Some c \<Rightarrow> unseal c body (row_context kind identity)) (\<lambda>text.
     somer (loads text) ValueError Inr))"

definition get_row :: "unit_env \<Rightarrow> string \<Rightarrow> string \<Rightarrow> store \<Rightarrow> json option res" where
  "get_row env kind identity s =
     (case tget (st_objects s kind) identity of
        None \<Rightarrow> Inr None
      | Some row \<Rightarrow> bindr (decode env kind identity (ob_body row)) (\<lambda>v. Inr (Some v)))"

definition selected :: "object_row table \<Rightarrow> (object_row \<Rightarrow> bool) \<Rightarrow> (string \<times> object_row) list" where
  "selected t P = filter (\<lambda>(i, row). P row) (trows t)"

definition all_rows :: "unit_env \<Rightarrow> string \<Rightarrow> store \<Rightarrow> json list res" where
  "all_rows env kind s =
     map_res (\<lambda>(i, row). decode env kind i (ob_body row)) (selected (st_objects s kind) (\<lambda>_. True))"

definition is_text :: "json \<Rightarrow> bool" where
  "is_text k = (case k of JStr _ \<Rightarrow> True | _ \<Rightarrow> False)"

text \<open>
  \<^verbatim>\<open>sorted(rows, key=lambda v: v['name'])\<close> of rows whose names are texts; the sort is stable, and with fewer than two rows
  nothing is compared.
\<close>

definition name_key :: "json \<Rightarrow> json res" where
  "name_key v = (case v of JObj d \<Rightarrow> somer (map_of d ''name'') KeyError Inr | _ \<Rightarrow> Inl TypeError)"

definition by_name :: "json list \<Rightarrow> json list res" where
  "by_name vs =
     bindr (map_res name_key vs) (\<lambda>keys.
     if length vs < 2 then Inr vs
     else guardr (list_all is_text keys) TypeError (
          Inr (map snd (sort_key (\<lambda>(k, _). case k of JStr n \<Rightarrow> n | _ \<Rightarrow> []) (zip keys vs)))))"

definition children_rows :: "unit_env \<Rightarrow> string \<Rightarrow> store \<Rightarrow> json list res" where
  "children_rows env parent s =
     bindr (map_res (\<lambda>(i, row). decode env ''node'' i (ob_body row))
              (selected (st_objects s ''node'') (\<lambda>row. ob_parent row = Some parent \<and> ob_live row))) by_name"

text \<open>The name column is an address when the rows are sealed.\<close>

definition index_name :: "unit_env \<Rightarrow> string \<Rightarrow> string" where
  "index_name env name = (case ue_cipher env of None \<Rightarrow> name | Some c \<Rightarrow> address c (''name'' @ [CHR 0x00] @ name))"

text \<open>The unique index on the names of live nodes; it has no entry for a row without parent or without name.\<close>

definition name_taken :: "object_row table \<Rightarrow> string \<Rightarrow> string \<Rightarrow> object_row \<Rightarrow> bool" where
  "name_taken t kind identity row \<longleftrightarrow> kind = ''node'' \<and> ob_live row \<and> ob_parent row \<noteq> None \<and> ob_name row \<noteq> None \<and>
     list_ex (\<lambda>(i, other). i \<noteq> identity \<and> ob_live other \<and> ob_parent other = ob_parent row \<and> ob_name other = ob_name row)
       (trows t)"

text \<open>The row that \<^verbatim>\<open>put\<close> inserts.\<close>

definition new_row :: "unit_env \<Rightarrow> string \<Rightarrow> string \<Rightarrow> dict \<Rightarrow> string \<Rightarrow> object_row" where
  "new_row env kind i v nonce =
     \<lparr>ob_body = (case ue_cipher env of None \<Rightarrow> Text (dumps (JObj v)) | Some c \<Rightarrow> Blob (seal c nonce (dumps (JObj v)) (row_context kind i))),
      ob_parent = text_field v ''parent'', ob_name = map_option (index_name env) (text_field v ''name''), ob_live = alive v\<rparr>"

definition put_value :: "unit_env \<Rightarrow> string \<Rightarrow> dict \<Rightarrow> store \<Rightarrow> store res" where
  "put_value env kind value s =
     bindr (value_id value) (\<lambda>identity.
     let row = new_row env kind identity value (ue_urandom env (st_nonces s))
     in guardr (\<not> name_taken (st_objects s kind) kind identity row) IntegrityError (
        Inr (s\<lparr>st_objects := (st_objects s)(kind := tput identity row (st_objects s kind)),
               st_nonces := (if ue_cipher env = None then st_nonces s else Suc (st_nonces s))\<rparr>)))"

definition delete_row :: "string \<Rightarrow> string \<Rightarrow> store \<Rightarrow> store" where
  "delete_row kind identity s = s\<lparr>st_objects := (st_objects s)(kind := tdel identity (st_objects s kind))\<rparr>"

text \<open>A unit of work is committed when its body returns and rolled back when it raises.\<close>

definition transaction :: "(store \<Rightarrow> ('a \<times> store) res) \<Rightarrow> store \<Rightarrow> 'a res \<times> store" where
  "transaction body s = (case body s of Inl e \<Rightarrow> (Inl e, s) | Inr (x, t) \<Rightarrow> (Inr x, t))"

section \<open>What a store promises\<close>

text \<open>
  The unit of work that the commands of the control node rely on (\<^verbatim>\<open>UnitOfWork\<close>): tables of rows by
  kind and identifier, in which the live nodes of one parent have different names.
\<close>

type_synonym rows = "string \<Rightarrow> json table"

definition child_of :: "string \<Rightarrow> json \<Rightarrow> bool" where
  "child_of parent v = (case v of JObj d \<Rightarrow> text_field d ''parent'' = Some parent \<and> alive d | _ \<Rightarrow> False)"

definition name_clash :: "rows \<Rightarrow> string \<Rightarrow> string \<Rightarrow> dict \<Rightarrow> bool" where
  "name_clash a kind identity v \<longleftrightarrow> kind = ''node'' \<and> alive v \<and> text_field v ''parent'' \<noteq> None \<and> text_field v ''name'' \<noteq> None \<and>
     list_ex (\<lambda>(i, w). i \<noteq> identity \<and>
         (case w of JObj d \<Rightarrow> alive d \<and> text_field d ''parent'' = text_field v ''parent'' \<and> text_field d ''name'' = text_field v ''name''
          | _ \<Rightarrow> False)) (trows (a kind))"

text \<open>Of the two stores only the database refuses a name that is taken; \<open>unique\<close> says which one is meant.\<close>

definition spec_put :: "bool \<Rightarrow> string \<Rightarrow> dict \<Rightarrow> rows \<Rightarrow> rows res" where
  "spec_put unique kind v a =
     bindr (value_id v) (\<lambda>i. guardr (\<not> (unique \<and> name_clash a kind i v)) IntegrityError (Inr (a(kind := tput i (JObj v) (a kind)))))"

datatype unit_op = Get string string | All string | Children string | Put string dict | Delete string string

datatype answer = Row "json option" | Rows "json list" | Done

definition unit_step :: "(string \<Rightarrow> string \<Rightarrow> 's \<Rightarrow> (json option \<times> 's) res) \<Rightarrow> (string \<Rightarrow> 's \<Rightarrow> (json list \<times> 's) res) \<Rightarrow>
    (string \<Rightarrow> 's \<Rightarrow> (json list \<times> 's) res) \<Rightarrow> (string \<Rightarrow> dict \<Rightarrow> 's \<Rightarrow> 's res) \<Rightarrow> (string \<Rightarrow> string \<Rightarrow> 's \<Rightarrow> 's res) \<Rightarrow>
    unit_op \<Rightarrow> 's \<Rightarrow> (answer \<times> 's) res" where
  "unit_step get every kids put del op s =
     (case op of
        Get k i \<Rightarrow> bindr (get k i s) (\<lambda>(v, t). Inr (Row v, t))
      | All k \<Rightarrow> bindr (every k s) (\<lambda>(vs, t). Inr (Rows vs, t))
      | Children p \<Rightarrow> bindr (kids p s) (\<lambda>(vs, t). Inr (Rows vs, t))
      | Put k v \<Rightarrow> bindr (put k v s) (\<lambda>t. Inr (Done, t))
      | Delete k i \<Rightarrow> bindr (del k i s) (\<lambda>t. Inr (Done, t)))"

fun unit_run :: "(unit_op \<Rightarrow> 's \<Rightarrow> (answer \<times> 's) res) \<Rightarrow> unit_op list \<Rightarrow> 's \<Rightarrow> (answer list \<times> 's) res" where
  "unit_run step [] s = Inr ([], s)"
| "unit_run step (op # ops) s = bindr (step op s) (\<lambda>(x, t). bindr (unit_run step ops t) (\<lambda>(xs, u). Inr (x # xs, u)))"

text \<open>A read that leaves the state as it is.\<close>

definition peek :: "('s \<Rightarrow> 'a res) \<Rightarrow> 's \<Rightarrow> ('a \<times> 's) res" where
  "peek f s = bindr (f s) (\<lambda>v. Inr (v, s))"

definition spec_step :: "bool \<Rightarrow> unit_op \<Rightarrow> rows \<Rightarrow> (answer \<times> rows) res" where
  "spec_step unique = unit_step (\<lambda>k i. peek (\<lambda>a. Inr (tget (a k) i))) (\<lambda>k. peek (\<lambda>a. Inr (tall (a k))))
     (\<lambda>p. peek (\<lambda>a. by_name (filter (child_of p) (tall (a ''node''))))) (spec_put unique) (\<lambda>k i a. Inr (a(k := tdel i (a k))))"

definition sqlite_step :: "unit_env \<Rightarrow> unit_op \<Rightarrow> store \<Rightarrow> (answer \<times> store) res" where
  "sqlite_step env = unit_step (\<lambda>k i. peek (get_row env k i)) (\<lambda>k. peek (all_rows env k)) (\<lambda>p. peek (children_rows env p))
     (put_value env) (\<lambda>k i s. Inr (delete_row k i s))"

text \<open>Two outcomes agree: the same exception, or the same answer in corresponding states.\<close>

definition agree :: "('s \<Rightarrow> 'a \<Rightarrow> bool) \<Rightarrow> ('x \<times> 's) res \<Rightarrow> ('x \<times> 'a) res \<Rightarrow> bool" where
  "agree holds r q = rel_sum (=) (\<lambda>(x, s) (y, a). x = y \<and> holds s a) r q"

text \<open>
  A store of this kind. \<open>holds\<close> relates its states to tables of rows, and \<open>fits\<close> says what may be stored. A read may
  change the state, since a store may remember what it has read.
\<close>

locale unit_of_work =
  fixes get :: "string \<Rightarrow> string \<Rightarrow> 's \<Rightarrow> (json option \<times> 's) res" and every :: "string \<Rightarrow> 's \<Rightarrow> (json list \<times> 's) res"
    and kids :: "string \<Rightarrow> 's \<Rightarrow> (json list \<times> 's) res" and put :: "string \<Rightarrow> dict \<Rightarrow> 's \<Rightarrow> 's res"
    and del :: "string \<Rightarrow> string \<Rightarrow> 's \<Rightarrow> 's res" and unique :: bool
    and holds :: "'s \<Rightarrow> rows \<Rightarrow> bool" and fits :: "string \<Rightarrow> dict \<Rightarrow> bool"
  assumes get_law: "holds s a \<Longrightarrow> \<exists>t. get k i s = Inr (tget (a k) i, t) \<and> holds t a"
    and every_law: "holds s a \<Longrightarrow> \<exists>t. every k s = Inr (tall (a k), t) \<and> holds t a"
    and kids_law: "holds s a \<Longrightarrow> rel_sum (=) (\<lambda>(vs, t) ws. vs = ws \<and> holds t a) (kids p s) (by_name (filter (child_of p) (tall (a ''node''))))"
    and put_law: "holds s a \<Longrightarrow> fits k v \<Longrightarrow> rel_sum (=) holds (put k v s) (spec_put unique k v a)"
    and del_law: "holds s a \<Longrightarrow> \<exists>t. del k i s = Inr t \<and> holds t (a(k := tdel i (a k)))"
begin

abbreviation allowed :: "unit_op \<Rightarrow> bool" where
  "allowed op \<equiv> (case op of Put k v \<Rightarrow> fits k v | _ \<Rightarrow> True)"

abbreviation step :: "unit_op \<Rightarrow> 's \<Rightarrow> (answer \<times> 's) res" where
  "step \<equiv> unit_step get every kids put del"

lemma step_agrees: "holds s a \<Longrightarrow> allowed op \<Longrightarrow> agree holds (step op s) (spec_step unique op a)"
proof (cases op)
  case (Put k v)
  assume "holds s a" "allowed op"
  then have "rel_sum (=) holds (put k v s) (spec_put unique k v a)" using put_law by (simp add: Put)
  then show ?thesis by (cases "put k v s"; cases "spec_put unique k v a") (simp_all add: Put unit_step_def spec_step_def agree_def)
next
  case (Children p)
  assume "holds s a"
  from kids_law [OF this, of p] show ?thesis
    by (cases "kids p s"; cases "by_name (filter (child_of p) (tall (a ''node'')))")
      (auto simp: Children unit_step_def spec_step_def agree_def peek_def)
next
  case (Get k i)
  assume "holds s a"
  from get_law [OF this, of k i] show ?thesis by (auto simp: Get unit_step_def spec_step_def agree_def peek_def)
next
  case (All k)
  assume "holds s a"
  from every_law [OF this, of k] show ?thesis by (auto simp: All unit_step_def spec_step_def agree_def peek_def)
next
  case (Delete k i)
  assume "holds s a"
  from del_law [OF this, of k i] show ?thesis by (auto simp: Delete unit_step_def spec_step_def agree_def)
qed

lemma run_agrees: "holds s a \<Longrightarrow> list_all allowed ops \<Longrightarrow> agree holds (unit_run step ops s) (unit_run (spec_step unique) ops a)"
proof (induction ops arbitrary: s a)
  case (Cons op ops)
  then have "agree holds (step op s) (spec_step unique op a)" by (simp add: step_agrees)
  then consider e where "step op s = Inl e" "spec_step unique op a = Inl e"
    | x t b where "step op s = Inr (x, t)" "spec_step unique op a = Inr (x, b)" "holds t b"
    by (cases "step op s"; cases "spec_step unique op a") (auto simp: agree_def)
  then show ?case
  proof cases
    case 2
    with Cons have "agree holds (unit_run step ops t) (unit_run (spec_step unique) ops b)" by simp
    with 2 show ?thesis by (cases "unit_run step ops t"; cases "unit_run (spec_step unique) ops b") (auto simp: agree_def)
  qed (simp add: agree_def)
qed (simp add: agree_def)

end

section \<open>The database keeps the promise\<close>

definition cipher_ok :: "metadata_cipher \<Rightarrow> bool" where
  "cipher_ok c \<longleftrightarrow> length (mc_key_id c) = 32 \<and>
     (\<forall>nonce data aad. length nonce = 12 \<longrightarrow>
        el_decrypt (mc_lib c) (mc_aead c) nonce (el_encrypt (mc_lib c) (mc_aead c) nonce data aad) aad = Some data \<and>
        length (el_encrypt (mc_lib c) (mc_aead c) nonce data aad) = length data + 16)"

definition unit_ok :: "unit_env \<Rightarrow> bool" where
  "unit_ok env = (case ue_cipher env of None \<Rightarrow> True | Some c \<Rightarrow> cipher_ok c \<and> (\<forall>k. length (ue_urandom env k) = 12))"

lemma unseal_seal:
  assumes "cipher_ok c" "length nonce = 12"
  shows "unseal c (Blob (seal c nonce data ctx)) ctx = Inr data"
  using assms by (simp add: unseal_def seal_def Let_def cipher_ok_def ENVELOPE_def need_def need_some_def)

definition row_holds :: "unit_env \<Rightarrow> string set \<Rightarrow> string \<Rightarrow> string \<Rightarrow> object_row \<Rightarrow> json \<Rightarrow> bool" where
  "row_holds env names kind i row v \<longleftrightarrow> (\<exists>d. v = JObj d \<and> decode env kind i (ob_body row) = Inr v \<and>
     ob_parent row = text_field d ''parent'' \<and> ob_live row = alive d \<and>
     ob_name row = map_option (index_name env) (text_field d ''name'') \<and> set_option (text_field d ''name'') \<subseteq> names)"

definition store_holds :: "unit_env \<Rightarrow> string set \<Rightarrow> store \<Rightarrow> rows \<Rightarrow> bool" where
  "store_holds env names s a \<longleftrightarrow> unit_ok env \<and> inj_on (index_name env) names \<and>
     (\<forall>kind i. rel_option (row_holds env names kind i) (tget (st_objects s kind) i) (tget (a kind) i))"

definition storable :: "string set \<Rightarrow> dict \<Rightarrow> bool" where
  "storable names v \<longleftrightarrow> json_wf utf8_text (JObj v) \<and> set_option (text_field v ''name'') \<subseteq> names"

lemma ascii_text: "list_all (\<lambda>c. of_char c < (128 :: nat)) s \<Longrightarrow> utf8_text s"
proof -
  assume all: "list_all (\<lambda>c. of_char c < (128 :: nat)) s"
  then have "points s = map of_char s" by (induction s) simp_all
  with all show ?thesis by (induction s) (auto simp: utf8_text_def utf8_def scalar_def)
qed

lemma list_ex_rel: "list_all2 R xs ys \<Longrightarrow> (\<And>x y. R x y \<Longrightarrow> P x \<longleftrightarrow> Q y) \<Longrightarrow> list_ex P xs \<longleftrightarrow> list_ex Q ys"
  by (induction rule: list_all2_induct) auto

lemma new_row_simps [simp]:
  "ob_parent (new_row env kind i v nonce) = text_field v ''parent''"
  "ob_name (new_row env kind i v nonce) = map_option (index_name env) (text_field v ''name'')"
  "ob_live (new_row env kind i v nonce) = alive v"
  by (simp_all add: new_row_def)

lemma decode_new:
  assumes "unit_ok env" "json_wf utf8_text (JObj v)"
  shows "decode env kind i (ob_body (new_row env kind i v (ue_urandom env n))) = Inr (JObj v)"
proof (cases "ue_cipher env")
  case None
  then show ?thesis using loads_dumps [OF assms(2)] by (simp add: new_row_def decode_def need_def del: dumps.simps)
next
  case (Some c)
  with assms(1) have "unseal c (Blob (seal c (ue_urandom env n) (dumps (JObj v)) (row_context kind i))) (row_context kind i) = Inr (dumps (JObj v))"
    by (intro unseal_seal) (simp_all add: unit_ok_def)
  with Some show ?thesis using loads_dumps [OF assms(2)] by (simp add: new_row_def decode_def need_def del: dumps.simps)
qed

lemma rows_correspond:
  "store_holds env names s a \<Longrightarrow>
     list_all2 (\<lambda>(i, row) (j, v). i = j \<and> row_holds env names k i row v) (trows (st_objects s k)) (trows (a k))"
  by (rule trows_rel) (simp add: store_holds_def)

lemma decoded_rows:
  assumes "store_holds env names s a" and "\<And>row i v. row_holds env names k i row v \<Longrightarrow> P row \<longleftrightarrow> Q v"
  shows "map_res (\<lambda>(i, row). decode env k i (ob_body row)) (selected (st_objects s k) P) = Inr (filter Q (tall (a k)))"
proof -
  have "list_all2 (\<lambda>(i, row) (j, v). i = j \<and> row_holds env names k i row v)
          (selected (st_objects s k) P) (filter (Q \<circ> snd) (trows (a k)))"
    unfolding selected_def by (rule list_all2_filter [OF rows_correspond [OF assms(1)]]) (auto dest: assms(2))
  then have "list_all2 (\<lambda>x v. (case x of (i, row) \<Rightarrow> decode env k i (ob_body row)) = Inr v)
      (selected (st_objects s k) P) (map snd (filter (Q \<circ> snd) (trows (a k))))"
    by (auto simp: list_all2_map2 row_holds_def elim!: list_all2_mono)
  moreover have "map snd (filter (Q \<circ> snd) (trows (a k))) = filter Q (tall (a k))"
    by (simp add: tall_trows filter_map)
  ultimately show ?thesis by (simp add: map_res_Inr)
qed

lemma name_taken_iff:
  assumes "store_holds env names s a" and "storable names v"
  shows "name_taken (st_objects s k) k i (new_row env k i v nonce) \<longleftrightarrow> name_clash a k i v"
proof -
  have inj: "inj_on (index_name env) names" using assms(1) by (simp add: store_holds_def)
  have same: "map_option (index_name env) x = map_option (index_name env) y \<longleftrightarrow> x = y"
    if "set_option x \<subseteq> names" "set_option y \<subseteq> names" for x y
    using that inj by (cases x; cases y) (auto dest: inj_onD)
  have "list_ex (\<lambda>(j, other). j \<noteq> i \<and> ob_live other \<and> ob_parent other = text_field v ''parent'' \<and>
             ob_name other = map_option (index_name env) (text_field v ''name'')) (trows (st_objects s k)) \<longleftrightarrow>
        list_ex (\<lambda>(j, w). j \<noteq> i \<and> (case w of JObj d \<Rightarrow> alive d \<and> text_field d ''parent'' = text_field v ''parent'' \<and>
             text_field d ''name'' = text_field v ''name'' | _ \<Rightarrow> False)) (trows (a k))"
    by (rule list_ex_rel [OF rows_correspond [OF assms(1)]])
       (use assms(2) same in \<open>auto simp: row_holds_def storable_def\<close>)
  then show ?thesis by (auto simp: name_taken_def name_clash_def case_prod_beta)
qed

interpretation sqlite: unit_of_work "\<lambda>k i. peek (get_row env k i)" "\<lambda>k. peek (all_rows env k)" "\<lambda>p. peek (children_rows env p)"
    "put_value env" "\<lambda>k i s. Inr (delete_row k i s)" True "store_holds env names" "\<lambda>_. storable names"
  for env names
proof
  fix s a k i p v
  assume holds: "store_holds env names s a"
  then have at: "rel_option (row_holds env names k i) (tget (st_objects s k) i) (tget (a k) i)" for k i
    by (simp add: store_holds_def)
  have "get_row env k i s = Inr (tget (a k) i)"
    using at [of k i] by (cases "tget (st_objects s k) i"; cases "tget (a k) i") (auto simp: get_row_def row_holds_def)
  with holds show "\<exists>t. peek (get_row env k i) s = Inr (tget (a k) i, t) \<and> store_holds env names t a" by (simp add: peek_def)
  have "all_rows env k s = Inr (tall (a k))"
    using decoded_rows [OF holds, of k "\<lambda>_. True" "\<lambda>_. True"] by (simp add: all_rows_def)
  with holds show "\<exists>t. peek (all_rows env k) s = Inr (tall (a k), t) \<and> store_holds env names t a" by (simp add: peek_def)
  have "map_res (\<lambda>(i, row). decode env ''node'' i (ob_body row))
      (selected (st_objects s ''node'') (\<lambda>row. ob_parent row = Some p \<and> ob_live row)) = Inr (filter (child_of p) (tall (a ''node'')))"
    by (rule decoded_rows [OF holds]) (auto simp: row_holds_def child_of_def)
  then have "children_rows env p s = by_name (filter (child_of p) (tall (a ''node'')))"
    by (simp add: children_rows_def)
  with holds show "rel_sum (=) (\<lambda>(vs, t) ws. vs = ws \<and> store_holds env names t a) (peek (children_rows env p) s)
      (by_name (filter (child_of p) (tall (a ''node''))))"
    by (cases "by_name (filter (child_of p) (tall (a ''node'')))") (simp_all add: peek_def)
  show "\<exists>t. Inr (delete_row k i s) = Inr t \<and> store_holds env names t (a(k := tdel i (a k)))"
    using holds by (simp add: store_holds_def delete_row_def)
  show "rel_sum (=) (store_holds env names) (put_value env k v s) (spec_put True k v a)" if fits: "storable names v"
  proof (cases "value_id v")
    case (Inr i)
    have "row_holds env names k i (new_row env k i v (ue_urandom env (st_nonces s))) (JObj v)"
      using decode_new holds fits by (simp add: row_holds_def storable_def store_holds_def)
    with Inr holds show ?thesis
      by (simp add: put_value_def spec_put_def name_taken_iff [OF holds fits] Let_def guardr_def store_holds_def)
  qed (simp add: put_value_def spec_put_def)
qed

section \<open>Properties\<close>

lemma fresh_store_holds:
  "unit_ok env \<Longrightarrow> inj_on (index_name env) names \<Longrightarrow> store_holds env names fresh_store (\<lambda>_. tempty)"
  by (simp add: store_holds_def fresh_store_def)

text \<open>
  C6. The metadata store, plain or sealed, is a faithful unit of work. Every sequence of reads, writes, listings and deletions on a new database
  gives the answers and the exceptions of the tables of rows it stands for: rows come back as they were written, in
  the order of their identifiers, the children of a node in the order of their names, and a write
  is refused exactly when another live node of that parent has the name. Rows are texts in UTF-8 and the addresses of the names
  in use do not collide.
\<close>

theorem store_refines:
  assumes "unit_ok env" and "inj_on (index_name env) names"
    and "\<And>k v. Put k v \<in> set ops \<Longrightarrow> storable names v"
  shows "agree (store_holds env names) (unit_run (sqlite_step env) ops fresh_store) (unit_run (spec_step True) ops (\<lambda>_. tempty))"
proof -
  have "list_all (\<lambda>op. case op of Put k v \<Rightarrow> storable names v | _ \<Rightarrow> True) ops"
    using assms(3) by (auto simp: list_all_iff split: unit_op.split)
  with sqlite.run_agrees [OF fresh_store_holds [OF assms(1,2)]] show ?thesis by (simp add: sqlite_step_def)
qed

definition sample_lib :: envelope_lib where
  "sample_lib = \<lparr>el_hkdf = (\<lambda>k. k @ k), el_sha256 = (\<lambda>k. k), el_hmac = (\<lambda>k s. s), el_encrypt = (\<lambda>k n d a. d @ replicate 16 (CHR ''t'')),
     el_decrypt = (\<lambda>k n d a. Some (take (length d - 16) d))\<rparr>"

definition sample_cipher :: metadata_cipher where
  "sample_cipher = \<lparr>mc_lib = sample_lib, mc_aead = replicate 32 (CHR ''k''), mc_index_key = replicate 32 (CHR ''i''), mc_key_id = replicate 32 (CHR ''k'')\<rparr>"

definition sealed_env :: unit_env where
  "sealed_env = \<lparr>ue_cipher = Some sample_cipher, ue_urandom = (\<lambda>_. replicate 12 (CHR ''n''))\<rparr>"

definition sample_row :: "string \<Rightarrow> string \<Rightarrow> dict" where
  "sample_row i n = [(''id'', JStr i), (''name'', JStr n), (''parent'', JStr ''r''), (''alive'', JBool True)]"

definition sample_ops :: "unit_op list" where
  "sample_ops = [Put ''node'' (sample_row ''x'' ''b''), Put ''node'' (sample_row ''y'' ''a''), Children ''r'', Delete ''node'' ''x'', Get ''node'' ''x'']"

theorem store_refines_witness:
  "agree (store_holds sealed_env {''a'', ''b''}) (unit_run (sqlite_step sealed_env) sample_ops fresh_store)
     (Inr ([Done, Done, Rows [JObj (sample_row ''y'' ''a''), JObj (sample_row ''x'' ''b'')], Done, Row None],
           (\<lambda>_. tempty)(''node'' := tput ''y'' (JObj (sample_row ''y'' ''a'')) tempty)))"
proof -
  have ok: "unit_ok sealed_env"
    by (simp add: unit_ok_def sealed_env_def cipher_ok_def sample_cipher_def sample_lib_def)
  have inj: "inj_on (index_name sealed_env) {''a'', ''b''}"
    by (simp add: inj_on_def index_name_def sealed_env_def address_def sample_cipher_def sample_lib_def hex_def hex_digit_def)
  have put: "storable {''a'', ''b''} v" if "Put k v \<in> set sample_ops" for k v
    using that by (auto simp: sample_ops_def sample_row_def storable_def text_field_def intro!: ascii_text)
  have two: "tall (tput ''y'' v (tput ''x'' w tempty)) = [w, v]" "trows (tput ''x'' w tempty) = [(''x'', w)]" "trows (tempty :: json table) = []" for v w :: json
    by (transfer, simp add: less_char_def)+
  have rest: "tdel ''x'' (tput ''y'' v (tput ''x'' w tempty)) = tput ''y'' v tempty" for v w :: json
    by (rule table_eqI) simp
  have "unit_run (spec_step True) sample_ops (\<lambda>_. tempty) =
     Inr ([Done, Done, Rows [JObj (sample_row ''y'' ''a''), JObj (sample_row ''x'' ''b'')], Done, Row None],
          (\<lambda>_. tempty)(''node'' := tput ''y'' (JObj (sample_row ''y'' ''a'')) tempty))"
    by (simp add: sample_ops_def sample_row_def spec_step_def unit_step_def peek_def spec_put_def value_id_def name_clash_def text_field_def alive_def two rest
       child_of_def by_name_def name_key_def is_text_def trows.abs_eq less_char_def)
  with store_refines [OF ok inj put, of sample_ops] show ?thesis by simp
qed

end
