(* ===== verification/Effects.thy ===== *)
theory Effects
  imports Domain
begin

text \<open>
  Handlers whose effects survive an exception. The metadata store of the control node rolls a failed
  unit of work back, so there an exception comes alone; a DataNode and a client change files, counters
  and other machines step by step, so here every action returns the state beside its outcome.

  \<open>finallym\<close> is Python's \<^verbatim>\<open>try: ... finally: ...\<close>; \<open>tick\<close> reads something that may differ at
  every reading (a clock, a random source, the answer of another machine), by the number of
  readings so far.

  Actions are reasoned about by triples: \<open>valid P m Q E\<close> says that from a state with \<open>P\<close> the action
  ends in \<open>Q\<close> with its value, or in \<open>E\<close> with an exception.
\<close>

type_synonym ('s, 'a) act = "'s \<Rightarrow> 'a res \<times> 's"

definition retm :: "'a \<Rightarrow> ('s, 'a) act" where
  "retm x = (\<lambda>s. (Inr x, s))"

definition raisem :: "exn \<Rightarrow> ('s, 'a) act" where
  "raisem e = (\<lambda>s. (Inl e, s))"

definition bindm :: "('s, 'a) act \<Rightarrow> ('a \<Rightarrow> ('s, 'b) act) \<Rightarrow> ('s, 'b) act" where
  "bindm m f = (\<lambda>s. case m s of (Inl e, t) \<Rightarrow> (Inl e, t) | (Inr x, t) \<Rightarrow> f x t)"

definition liftm :: "'a res \<Rightarrow> ('s, 'a) act" where
  "liftm r = (\<lambda>s. (r, s))"

definition getm :: "('s \<Rightarrow> 'a) \<Rightarrow> ('s, 'a) act" where
  "getm f = (\<lambda>s. (Inr (f s), s))"

definition modm :: "('s \<Rightarrow> 's) \<Rightarrow> ('s, unit) act" where
  "modm f = (\<lambda>s. (Inr (), f s))"

definition needm :: "bool \<Rightarrow> reason \<Rightarrow> ('s, unit) act" where
  "needm c r = (\<lambda>s. (if c then Inr () else Inl (Fault r), s))"

definition finallym :: "('s, 'a) act \<Rightarrow> ('s, unit) act \<Rightarrow> ('s, 'a) act" where
  "finallym m g = (\<lambda>s. case m s of (r, t) \<Rightarrow> (case g t of (Inl e, u) \<Rightarrow> (Inl e, u) | (Inr _, u) \<Rightarrow> (r, u)))"

text \<open>\<^verbatim>\<open>try: ... except Exception: ...\<close>\<close>

definition catchm :: "('s, 'a) act \<Rightarrow> (exn \<Rightarrow> ('s, 'a) act) \<Rightarrow> ('s, 'a) act" where
  "catchm m h = (\<lambda>s. case m s of (Inl e, t) \<Rightarrow> h e t | (Inr x, t) \<Rightarrow> (Inr x, t))"

text \<open>The outcome as a value.\<close>

definition trym :: "('s, 'a) act \<Rightarrow> ('s, 'a res) act" where
  "trym m = catchm (bindm m (\<lambda>x. retm (Inr x))) (\<lambda>e. retm (Inl e))"

fun eachm :: "('x \<Rightarrow> ('s, unit) act) \<Rightarrow> 'x list \<Rightarrow> ('s, unit) act" where
  "eachm f [] = retm ()"
| "eachm f (x # xs) = bindm (f x) (\<lambda>_. eachm f xs)"

section \<open>Runs\<close>

lemma act_simps [simp]:
  "retm x s = (Inr x, s)"
  "raisem e s = (Inl e, s)"
  "liftm r s = (r, s)"
  "getm g s = (Inr (g s), s)"
  "modm h s = (Inr (), h s)"
  "needm True c s = (Inr (), s)"
  "needm False c s = (Inl (Fault c), s)"
  by (simp_all add: retm_def raisem_def liftm_def getm_def modm_def needm_def)

lemma bindm_eq_Inr [run]:
  "bindm m f s = (Inr y, u) \<longleftrightarrow> (\<exists>x t. m s = (Inr x, t) \<and> f x t = (Inr y, u))"
  by (auto simp: bindm_def split: prod.splits sum.splits)

lemma bindm_eq_Inl:
  "bindm m f s = (Inl e, u) \<longleftrightarrow> m s = (Inl e, u) \<or> (\<exists>x t. m s = (Inr x, t) \<and> f x t = (Inl e, u))"
  by (auto simp: bindm_def split: prod.splits sum.splits)

lemma finallym_eq:
  "finallym m g s = (Inr x, u) \<longleftrightarrow> (\<exists>t. m s = (Inr x, t) \<and> g t = (Inr (), u))"
  "finallym m g s = (Inl e, u) \<longleftrightarrow> (\<exists>t. m s = (Inl e, t) \<and> g t = (Inr (), u)) \<or>
     (\<exists>d t. m s = (Inl d, t) \<and> g t = (Inl e, u)) \<or> (\<exists>y t. m s = (Inr y, t) \<and> g t = (Inl e, u))"
  by (auto simp: finallym_def split: prod.splits sum.splits) (metis sumE)

lemma catchm_eq:
  "catchm m h s = (r, u) \<longleftrightarrow> (\<exists>x. m s = (Inr x, u) \<and> r = Inr x) \<or> (\<exists>e t. m s = (Inl e, t) \<and> h e t = (r, u))"
  by (auto simp: catchm_def split: prod.splits sum.splits)

lemma needm_eq_Inr [run]: "needm c r s = (Inr y, t) \<longleftrightarrow> c \<and> t = s"
  by (auto simp: needm_def)

lemma liftm_eq_Inr [run]: "liftm r s = (Inr y, t) \<longleftrightarrow> r = Inr y \<and> t = s"
  by (auto simp: liftm_def)

lemma bindm_run:
  "m s = (Inr x, t) \<Longrightarrow> bindm m f s = f x t"
  "m s = (Inl e, t) \<Longrightarrow> bindm m f s = (Inl e, t)"
  by (simp_all add: bindm_def)

lemma bindm_assoc: "bindm (bindm m f) g = bindm m (\<lambda>x. bindm (f x) g)"
  by (rule ext) (simp add: bindm_def split: prod.splits sum.splits)

lemma bindm_retm [simp]: "bindm (retm x) f = f x" "bindm m retm = m"
  by (rule ext, simp add: bindm_def retm_def split: prod.splits sum.splits)+

section \<open>Triples\<close>

definition valid :: "('s \<Rightarrow> bool) \<Rightarrow> ('s, 'a) act \<Rightarrow> ('a \<Rightarrow> 's \<Rightarrow> bool) \<Rightarrow> (exn \<Rightarrow> 's \<Rightarrow> bool) \<Rightarrow> bool" where
  "valid P m Q E \<longleftrightarrow> (\<forall>s x t. P s \<longrightarrow> m s = (Inr x, t) \<longrightarrow> Q x t) \<and> (\<forall>s e t. P s \<longrightarrow> m s = (Inl e, t) \<longrightarrow> E e t)"

text \<open>An action that keeps a property of the state, whatever its outcome.\<close>

abbreviation keeps :: "('s \<Rightarrow> bool) \<Rightarrow> ('s, 'a) act \<Rightarrow> bool" where
  "keeps I m \<equiv> valid I m (\<lambda>_. I) (\<lambda>_. I)"

named_theorems steps "rules for triples, one for each construct of the language"

lemma validD:
  "valid P m Q E \<Longrightarrow> P s \<Longrightarrow> m s = (Inr x, t) \<Longrightarrow> Q x t"
  "valid P m Q E \<Longrightarrow> P s \<Longrightarrow> m s = (Inl e, t) \<Longrightarrow> E e t"
  by (simp_all add: valid_def)

lemma keepsD: "keeps I m \<Longrightarrow> I s \<Longrightarrow> m s = (r, t) \<Longrightarrow> I t"
  by (cases r) (auto dest: validD)

lemma valid_weaken:
  "valid P m Q E \<Longrightarrow> (\<And>s. P' s \<Longrightarrow> P s) \<Longrightarrow> (\<And>x s. Q x s \<Longrightarrow> Q' x s) \<Longrightarrow> (\<And>e s. E e s \<Longrightarrow> E' e s) \<Longrightarrow> valid P' m Q' E'"
  by (simp add: valid_def) blast

lemma valid_retm [steps]: "(\<And>s. P s \<Longrightarrow> Q x s) \<Longrightarrow> valid P (retm x) Q E"
  by (simp add: valid_def)

lemma valid_raisem [steps]: "(\<And>s. P s \<Longrightarrow> E e s) \<Longrightarrow> valid P (raisem e) Q E"
  by (simp add: valid_def)

lemma valid_bindm [steps]:
  "valid P m R E \<Longrightarrow> (\<And>x. valid (R x) (f x) Q E) \<Longrightarrow> valid P (bindm m f) Q E"
  unfolding valid_def bindm_eq_Inr bindm_eq_Inl by blast

lemma valid_liftm [steps]:
  "(\<And>x s. P s \<Longrightarrow> r = Inr x \<Longrightarrow> Q x s) \<Longrightarrow> (\<And>e s. P s \<Longrightarrow> r = Inl e \<Longrightarrow> E e s) \<Longrightarrow> valid P (liftm r) Q E"
  by (simp add: valid_def)

lemma valid_getm [steps]: "(\<And>s. P s \<Longrightarrow> Q (f s) s) \<Longrightarrow> valid P (getm f) Q E"
  by (simp add: valid_def)

lemma valid_modm [steps]: "(\<And>s. P s \<Longrightarrow> Q () (f s)) \<Longrightarrow> valid P (modm f) Q E"
  by (simp add: valid_def)

lemma valid_needm [steps]:
  "(\<And>s. P s \<Longrightarrow> c \<Longrightarrow> Q () s) \<Longrightarrow> (\<And>s. P s \<Longrightarrow> \<not> c \<Longrightarrow> E (Fault r) s) \<Longrightarrow> valid P (needm c r) Q E"
  by (cases c) (simp_all add: valid_def)

lemma valid_finallym:
  "valid P m Q1 E1 \<Longrightarrow> (\<And>x. valid (Q1 x) g (\<lambda>_. Q x) E) \<Longrightarrow> (\<And>e. valid (E1 e) g (\<lambda>_. E e) E) \<Longrightarrow>
   valid P (finallym m g) Q E"
  unfolding valid_def finallym_eq by blast

lemma valid_catchm [steps]:
  "valid P m Q E1 \<Longrightarrow> (\<And>e. valid (E1 e) (h e) Q E) \<Longrightarrow> valid P (catchm m h) Q E"
  unfolding valid_def catchm_eq by blast

lemma keeps_eachm: "(\<And>x. x \<in> set xs \<Longrightarrow> keeps I (f x)) \<Longrightarrow> keeps I (eachm f xs)"
  by (induction xs) (auto intro!: valid_bindm valid_retm)

section \<open>What an action keeps\<close>

named_theorems keep "constructs that keep a property of the state"

lemma keeps_rules [keep]:
  "keeps I (retm x)" "keeps I (raisem e)" "keeps I (liftm r)" "keeps I (getm g)" "keeps I (needm c why)"
  by (auto simp: valid_def needm_def split: if_splits)

lemma keeps_bindm [keep]: "keeps I m \<Longrightarrow> (\<And>x. keeps I (f x)) \<Longrightarrow> keeps I (bindm m f)"
  by (rule valid_bindm)

lemma keeps_modm: "(\<And>s. I s \<Longrightarrow> I (f s)) \<Longrightarrow> keeps I (modm f)"
  by (rule valid_modm)

lemma keeps_finallym [keep]: "keeps I m \<Longrightarrow> keeps I g \<Longrightarrow> keeps I (finallym m g)"
  by (rule valid_finallym)

lemma keeps_catchm [keep]: "keeps I m \<Longrightarrow> (\<And>e. keeps I (h e)) \<Longrightarrow> keeps I (catchm m h)"
  by (rule valid_catchm)

lemma keeps_trym [keep]: "keeps I m \<Longrightarrow> keeps I (trym m)"
  unfolding trym_def by (intro keep)

lemma keeps_cases [keep]:
  "(c \<Longrightarrow> keeps I a) \<Longrightarrow> (\<not> c \<Longrightarrow> keeps I b) \<Longrightarrow> keeps I (if c then a else b)"
  "keeps I a \<Longrightarrow> (\<And>x. keeps I (f x)) \<Longrightarrow> keeps I (case v of None \<Rightarrow> a | Some x \<Rightarrow> f x)"
  "(\<And>x. keeps I (g x)) \<Longrightarrow> (\<And>y. keeps I (h y)) \<Longrightarrow> keeps I (case w of Inl x \<Rightarrow> g x | Inr y \<Rightarrow> h y)"
  "(\<And>x y. keeps I (k x y)) \<Longrightarrow> keeps I (case z of (x, y) \<Rightarrow> k x y)"
  "(\<And>x y. keeps I (k' x y arg)) \<Longrightarrow> keeps I ((case z of (x, y) \<Rightarrow> k' x y) arg)"
  "keeps I a \<Longrightarrow> (\<And>y ys. keeps I (l y ys)) \<Longrightarrow> keeps I (case xs of [] \<Rightarrow> a | y # ys \<Rightarrow> l y ys)"
  by (auto split: option.split sum.split prod.split list.split)

lemma keeps_Let [keep]: "keeps I (f x) \<Longrightarrow> keeps I (let y = x in f y)"
  by simp

end
