(* ===== verification/Etcd_Pages.thy ===== *)
theory Etcd_Pages
  imports Store Effects
begin

text \<open>
  The pages of the shared metadata store (\<^verbatim>\<open>control/etcd_metadata.py\<close>). A text is cut into leaves of at most
  128 KiB; more than one leaf is listed in index pages of 64 digests, and those in further ones until 64 are left.
  A page is stored under its address, a hash of its payload, and never changes.

  etcd is not part of the program: its calls are the fields of \<open>etcd\<close>, and what is relied on is stated by
  \<open>serving\<close>. A record \<open>etcd_state\<close> is what one thread of a control node sees: the service, the cache of
  pages and the open unit of work.
\<close>

section \<open>The service\<close>

record kv =
  kv_value :: string
  kv_mod :: nat

datatype guard = Value_Is string string | Never_Created string | Modified_At string nat

datatype effect = Put_Key string string "nat option" | Delete_Key string

text \<open>A failed call: its code, and whether its details speak of exceeded space.\<close>

record etcd_failure =
  ef_code :: status_code
  ef_space :: bool

record 'e etcd =
  ed_range :: "string \<Rightarrow> 'e \<Rightarrow> (etcd_failure + kv option) \<times> 'e"
  ed_put :: "string \<Rightarrow> string \<Rightarrow> 'e \<Rightarrow> (etcd_failure + unit) \<times> 'e"
  ed_txn :: "guard list \<Rightarrow> effect list \<Rightarrow> 'e \<Rightarrow> (etcd_failure + bool) \<times> 'e"
  ed_grant :: "nat \<Rightarrow> int \<Rightarrow> 'e \<Rightarrow> (etcd_failure + nat option) \<times> 'e"
  ed_keepalive :: "nat \<Rightarrow> 'e \<Rightarrow> (etcd_failure + int option) \<times> 'e"

record 'e etcd_env =
  ee_etcd :: "'e etcd"
  ee_prefix :: string
  ee_sha256 :: "string \<Rightarrow> string"
  ee_cipher :: "metadata_cipher option"
  ee_urandom :: "nat \<Rightarrow> string"
  ee_uuid :: "nat \<Rightarrow> string"
  ee_lease_id :: "nat \<Rightarrow> nat"
  ee_clock :: "nat \<Rightarrow> rat"
  ee_gate_seconds :: rat
  ee_gate_wait :: rat
  ee_required :: "(string \<times> string) list"
  ee_request_size :: "guard list \<Rightarrow> effect list \<Rightarrow> nat"
  ee_patience :: nat

record etcd_unit =
  eu_write :: bool
  eu_root :: dict
  eu_buckets :: "string \<times> string \<Rightarrow> dict option"
  eu_pending :: "((string \<times> string) \<times> dict option) list"
  eu_guards :: "(string \<times> string) list"
  eu_effects :: "(string \<times> effect) list"
  eu_lease_reads :: "(string \<times> kv option) list"
  eu_pages :: "(string \<times> string) list"

record 'e etcd_state =
  es_etcd :: 'e
  es_cache :: "(string \<times> string) list"
  es_size :: int
  es_ticks :: nat
  es_unit :: "etcd_unit option"
  es_gate_lease :: "nat option"
  es_marker :: "string option"

type_synonym ('e, 'a) on_etcd = "('e etcd_state, 'a) act"

definition PAGE_BYTES :: nat where "PAGE_BYTES = 131072"

definition UNIT_BYTES :: nat where "UNIT_BYTES = 16 * 1048576"

definition rpc_reason :: "etcd_failure \<Rightarrow> reason" where
  "rpc_reason e =
     (case ef_code e of
        SC_UNAUTHENTICATED \<Rightarrow> UNAUTHENTICATED
      | SC_PERMISSION_DENIED \<Rightarrow> PERMISSION_DENIED
      | SC_RESOURCE_EXHAUSTED \<Rightarrow> NO_SPACE
      | SC_FAILED_PRECONDITION \<Rightarrow> if ef_space e then NO_SPACE else SERVICE_UNAVAILABLE
      | SC_DATA_LOSS \<Rightarrow> DATA_LOSS
      | _ \<Rightarrow> SERVICE_UNAVAILABLE)"

text \<open>A call of the service, and the method \<^verbatim>\<open>rpc\<close> around it.\<close>

definition call_etcd :: "('e \<Rightarrow> (etcd_failure + 'a) \<times> 'e) \<Rightarrow> ('e, etcd_failure + 'a) on_etcd" where
  "call_etcd f = (\<lambda>s. case f (es_etcd s) of (r, e) \<Rightarrow> (Inr r, s\<lparr>es_etcd := e\<rparr>))"

definition etcd_rpc :: "('e \<Rightarrow> (etcd_failure + 'a) \<times> 'e) \<Rightarrow> ('e, 'a) on_etcd" where
  "etcd_rpc f = bindm (call_etcd f) (\<lambda>r. case r of Inl e \<Rightarrow> raisem (Fault (rpc_reason e)) | Inr x \<Rightarrow> retm x)"

definition etcd_range :: "'e etcd_env \<Rightarrow> string \<Rightarrow> ('e, kv option) on_etcd" where
  "etcd_range env key = etcd_rpc (ed_range (ee_etcd env) key)"

definition etcd_tick :: "(nat \<Rightarrow> 'a) \<Rightarrow> ('e, 'a) on_etcd" where
  "etcd_tick f = (\<lambda>s. (Inr (f (es_ticks s)), s\<lparr>es_ticks := Suc (es_ticks s)\<rparr>))"

fun mapm :: "('x \<Rightarrow> ('s, 'a) act) \<Rightarrow> 'x list \<Rightarrow> ('s, 'a list) act" where
  "mapm f [] = retm []"
| "mapm f (x # xs) = bindm (f x) (\<lambda>y. bindm (mapm f xs) (\<lambda>ys. retm (y # ys)))"

section \<open>Pages\<close>

definition page_key :: "'e etcd_env \<Rightarrow> string \<Rightarrow> string" where
  "page_key env digest = ee_prefix env @ ''pages/'' @ digest"

definition page_address :: "'e etcd_env \<Rightarrow> string \<Rightarrow> string" where
  "page_address env payload = (case ee_cipher env of Some c \<Rightarrow> address c payload | None \<Rightarrow> ee_sha256 env payload)"

definition page_wire :: "'e etcd_env \<Rightarrow> string \<Rightarrow> string \<Rightarrow> ('e, string) on_etcd" where
  "page_wire env digest payload =
     (case ee_cipher env of
        None \<Rightarrow> retm payload
      | Some c \<Rightarrow> bindm (etcd_tick (ee_urandom env)) (\<lambda>nonce. retm (seal c nonce payload (page_key env digest))))"

text \<open>The oldest entries of the cache go until the rest fits; \<^verbatim>\<open>popitem\<close> of an empty dictionary raises \<open>KeyError\<close>.\<close>

fun evict :: "(string \<times> string) list \<Rightarrow> int \<Rightarrow> (string \<times> string) list \<times> int" where
  "evict [] n = ([], n)"
| "evict ((d, p) # cache) n = (if int UNIT_BYTES < n then evict cache (n - int (length p)) else ((d, p) # cache, n))"

definition cache_put :: "'e etcd_env \<Rightarrow> string \<Rightarrow> string \<Rightarrow> ('e, unit) on_etcd" where
  "cache_put env digest payload = (\<lambda>s.
     let old = (case map_of (es_cache s) digest of None \<Rightarrow> 0 | Some p \<Rightarrow> int (length p));
         entries = filter (\<lambda>(d, _). d \<noteq> digest) (es_cache s) @ [(digest, payload)]
     in case evict entries (es_size s - old + int (length payload)) of (cache, n) \<Rightarrow>
          (if int UNIT_BYTES < n then Inl KeyError else Inr (), s\<lparr>es_cache := cache, es_size := n\<rparr>))"

definition writing :: "'e etcd_state \<Rightarrow> bool" where
  "writing s = (case es_unit s of Some u \<Rightarrow> eu_write u | None \<Rightarrow> False)"

definition set_unit :: "(etcd_unit \<Rightarrow> etcd_unit) \<Rightarrow> ('e, unit) on_etcd" where
  "set_unit f = modm (\<lambda>s. s\<lparr>es_unit := map_option f (es_unit s)\<rparr>)"

definition pages_size :: "(string \<times> string) list \<Rightarrow> nat" where
  "pages_size pages = sum_list (map (\<lambda>(_, p). length p) pages)"

definition unit_pages :: "'e etcd_state \<Rightarrow> (string \<times> string) list" where
  "unit_pages s = (case es_unit s of Some u \<Rightarrow> eu_pages u | None \<Rightarrow> [])"

definition page :: "'e etcd_env \<Rightarrow> string \<Rightarrow> ('e, string) on_etcd" where
  "page env payload =
     bindm (needm (length payload \<le> PAGE_BYTES + 1) LIMIT_EXCEEDED) (\<lambda>_.
     let digest = page_address env payload in
     bindm (getm (\<lambda>s. map_of (es_cache s) digest \<noteq> None)) (\<lambda>cached.
     if cached then retm digest
     else
       bindm (getm writing) (\<lambda>collecting.
       if collecting
       then bindm (set_unit (\<lambda>u. u\<lparr>eu_pages := dict_put digest payload (eu_pages u)\<rparr>)) (\<lambda>_.
            bindm (getm unit_pages) (\<lambda>pages.
            bindm (needm (pages_size pages \<le> UNIT_BYTES) LIMIT_EXCEEDED) (\<lambda>_. retm digest)))
       else bindm (page_wire env digest payload) (\<lambda>wire.
            bindm (etcd_rpc (ed_put (ee_etcd env) (page_key env digest) wire)) (\<lambda>_.
            bindm (cache_put env digest payload) (\<lambda>_. retm digest))))))"

definition put_page :: "'e etcd_env \<Rightarrow> string \<times> string \<Rightarrow> ('e, effect) on_etcd" where
  "put_page env dp = (case dp of (digest, payload) \<Rightarrow>
     bindm (page_wire env digest payload) (\<lambda>wire. retm (Put_Key (page_key env digest) wire None)))"

definition flush_batch :: "'e etcd_env \<Rightarrow> (string \<times> string) list \<Rightarrow> ('e, unit) on_etcd" where
  "flush_batch env batch =
     (if batch = [] then retm ()
      else bindm (mapm (put_page env) batch) (\<lambda>puts.
           bindm (etcd_rpc (ed_txn (ee_etcd env) [] puts)) (\<lambda>_.
           eachm (\<lambda>(digest, payload). cache_put env digest payload) batch)))"

fun persist_from :: "'e etcd_env \<Rightarrow> (string \<times> string) list \<Rightarrow> nat \<Rightarrow> (string \<times> string) list \<Rightarrow> ('e, unit) on_etcd" where
  "persist_from env batch n [] = flush_batch env batch"
| "persist_from env batch n ((digest, payload) # pages) =
     (if 32 \<le> length batch \<or> 524288 < n + length payload
      then bindm (flush_batch env batch) (\<lambda>_. persist_from env [(digest, payload)] (length payload) pages)
      else persist_from env (batch @ [(digest, payload)]) (n + length payload) pages)"

definition persist_pages :: "'e etcd_env \<Rightarrow> (string \<times> string) list \<Rightarrow> ('e, unit) on_etcd" where
  "persist_pages env pages = persist_from env [] 0 pages"

section \<open>Texts in pages\<close>

text \<open>\<^verbatim>\<open>[xs[i:i+n] for i in range(0, len(xs), n)]\<close> with \<open>n = Suc m\<close>.\<close>

function pieces :: "nat \<Rightarrow> 'a list \<Rightarrow> 'a list list" where
  "pieces m xs = (if xs = [] then [] else take (Suc m) xs # pieces m (drop (Suc m) xs))"
  by pat_completeness auto

termination
  by (relation "measure (\<lambda>(_, xs). length xs)") (auto simp: diff_less)

declare pieces.simps [simp del]

definition leaf_page :: "string \<Rightarrow> string" where
  "leaf_page data = CHR ''L'' # data"

definition index_page :: "string list \<Rightarrow> string" where
  "index_page digests = CHR ''I'' # canonical (JArr (map JStr digests))"

lemma mapm_length: "mapm f xs s = (Inr ys, t) \<Longrightarrow> length ys = length xs"
  by (induction xs arbitrary: s ys) (auto simp: run retm_def)

lemma pieces_length: "length (pieces m xs) \<le> length xs"
proof (induction m xs rule: pieces.induct)
  case (1 m xs)
  then show ?case by (cases xs) (simp_all add: pieces.simps [of m])
qed

lemma pieces_shorter: "1 < length xs \<Longrightarrow> length (pieces (Suc m) xs) < length xs"
  using pieces_length [of "Suc m" "drop (Suc (Suc m)) xs"] by (subst pieces.simps) auto

function index_loop :: "'e etcd_env \<Rightarrow> string list \<Rightarrow> ('e, string list) on_etcd" where
  "index_loop env children s =
     (if 64 < length children
      then (case mapm (\<lambda>ds. page env (index_page ds)) (pieces 63 children) s of
              (Inl e, t) \<Rightarrow> (Inl e, t)
            | (Inr children', t) \<Rightarrow> index_loop env children' t)
      else (Inr children, s))"
  by pat_completeness auto

termination
proof (relation "measure (\<lambda>(_, children, _). length children)", simp)
  fix env :: "'e etcd_env" and children s r t x2
  assume "64 < length children"
    and run: "(r, t) = mapm (\<lambda>ds. page env (index_page ds)) (pieces 63 children) s" "r = Inr x2"
  then have "length x2 < length children"
    using mapm_length [OF run(1) [symmetric, unfolded run(2)]] pieces_shorter [of children 62] by simp
  then show "((env, x2, t), env, children, s) \<in> measure (\<lambda>(_, children, _). length children)" by simp
qed

declare index_loop.simps [simp del]

definition blob :: "'e etcd_env \<Rightarrow> string \<Rightarrow> ('e, string) on_etcd" where
  "blob env payload =
     (if length payload \<le> PAGE_BYTES then page env (leaf_page payload)
      else bindm (mapm (\<lambda>data. page env (leaf_page data)) (pieces (PAGE_BYTES - 1) payload)) (\<lambda>children.
           bindm (index_loop env children) (\<lambda>children.
           page env (index_page children))))"

text \<open>What a page read from the service has to be.\<close>

definition checked_page :: "'e etcd_env \<Rightarrow> string \<Rightarrow> string option \<Rightarrow> string res" where
  "checked_page env digest record =
     need_some record DATA_LOSS (\<lambda>value.
     bindr (case ee_cipher env of None \<Rightarrow> Inr value | Some c \<Rightarrow> unseal c (Blob value) (page_key env digest)) (\<lambda>payload.
     need (page_address env payload = digest) DATA_LOSS (Inr payload)))"

definition read_page :: "'e etcd_env \<Rightarrow> string \<Rightarrow> ('e, string) on_etcd" where
  "read_page env digest =
     bindm (getm (\<lambda>s. map_of (es_cache s) digest)) (\<lambda>cached.
     case cached of
       Some payload \<Rightarrow> retm payload
     | None \<Rightarrow>
         bindm (etcd_range env (page_key env digest)) (\<lambda>record.
         bindm (liftm (checked_page env digest (map_option kv_value record))) (\<lambda>payload.
         bindm (cache_put env digest payload) (\<lambda>_. retm payload))))"

text \<open>
  The digests an index page lists. Anything but a list of texts raises \<open>TypeError\<close> here; the store writes no other page.
\<close>

definition listed :: "string \<Rightarrow> string list res" where
  "listed text =
     somer (loads text) ValueError (\<lambda>v.
     case v of JArr vs \<Rightarrow> map_res (\<lambda>x. case x of JStr d \<Rightarrow> Inr d | _ \<Rightarrow> Inl TypeError) vs | _ \<Rightarrow> Inl TypeError)"

text \<open>The recursion is bounded by the fuel, as it is by the interpreter's limit.\<close>

fun read_blob :: "'e etcd_env \<Rightarrow> nat \<Rightarrow> string \<Rightarrow> ('e, string) on_etcd" where
  "read_blob env 0 digest = raisem OutOfFuel"
| "read_blob env (Suc n) digest =
     bindm (read_page env digest) (\<lambda>payload.
     if take 1 payload = ''L'' then retm (drop 1 payload)
     else
       bindm (needm (take 1 payload = ''I'') DATA_LOSS) (\<lambda>_.
       bindm (liftm (listed (drop 1 payload))) (\<lambda>digests.
       bindm (mapm (read_blob env n) digests) (\<lambda>parts. retm (concat parts)))))"

definition READ_DEPTH :: nat where "READ_DEPTH = 16"

definition read_object :: "'e etcd_env \<Rightarrow> string option \<Rightarrow> ('e, json) on_etcd" where
  "read_object env digest =
     (if digest = None \<or> digest = Some [] then retm (JObj [])
      else bindm (read_blob env READ_DEPTH (the digest)) (\<lambda>text. liftm (somer (loads text) ValueError Inr)))"

section \<open>What the service promises\<close>

fun apply_effect :: "effect \<Rightarrow> (string \<Rightarrow> string option) \<Rightarrow> string \<Rightarrow> string option" where
  "apply_effect (Put_Key k v lease) m = m(k \<mapsto> v)"
| "apply_effect (Delete_Key k) m = m(k := None)"

text \<open>
  The service answers: \<open>content\<close> gives the values of the keys in a state; a read gives the value of the key, and a
  transaction without comparisons carries its effects out.
\<close>

definition serving :: "'e etcd_env \<Rightarrow> ('e \<Rightarrow> string \<Rightarrow> string option) \<Rightarrow> bool" where
  "serving env content \<longleftrightarrow>
     (\<forall>k e. \<exists>r e'. ed_range (ee_etcd env) k e = (Inr r, e') \<and> map_option kv_value r = content e k \<and> content e' = content e) \<and>
     (\<forall>effs e. \<exists>b e'. ed_txn (ee_etcd env) [] effs e = (Inr b, e') \<and> content e' = fold apply_effect effs (content e))"

definition sealing_ok :: "'e etcd_env \<Rightarrow> bool" where
  "sealing_ok env = (case ee_cipher env of None \<Rightarrow> True | Some c \<Rightarrow> cipher_ok c \<and> (\<forall>k. length (ee_urandom env k) = 12))"

text \<open>The pages a state of the service holds, and the cache beside it.\<close>

definition stored_pages :: "'e etcd_env \<Rightarrow> (string \<Rightarrow> string option) \<Rightarrow> string \<Rightarrow> string option" where
  "stored_pages env view d = (case checked_page env d (view (page_key env d)) of Inr p \<Rightarrow> Some p | Inl _ \<Rightarrow> None)"

definition cache_ok :: "'e etcd_env \<Rightarrow> ('e \<Rightarrow> string \<Rightarrow> string option) \<Rightarrow> 'e etcd_state \<Rightarrow> bool" where
  "cache_ok env content s \<longleftrightarrow> distinct (map fst (es_cache s)) \<and> es_size s = int (pages_size (es_cache s)) \<and> es_size s \<le> int UNIT_BYTES \<and>
     (\<forall>(d, p) \<in> set (es_cache s). stored_pages env (content (es_etcd s)) d = Some p)"

lemma cache_ok_unit [simp]: "cache_ok env content (s\<lparr>es_unit := u\<rparr>) = cache_ok env content s"
  by (simp add: cache_ok_def)

text \<open>A step that only reads: the contents stay, and nothing but the cache may differ.\<close>

definition only_read :: "'e etcd_env \<Rightarrow> ('e \<Rightarrow> string \<Rightarrow> string option) \<Rightarrow> 'e etcd_state \<Rightarrow> 'e etcd_state \<Rightarrow> bool" where
  "only_read env content s t \<longleftrightarrow> cache_ok env content t \<and>
     (\<exists>e c n. t = s\<lparr>es_etcd := e, es_cache := c, es_size := n\<rparr> \<and> content e = content (es_etcd s))"

lemma only_readI:
  "cache_ok env content (s\<lparr>es_etcd := e, es_cache := c, es_size := n\<rparr>) \<Longrightarrow> content e = content (es_etcd s) \<Longrightarrow>
     only_read env content s (s\<lparr>es_etcd := e, es_cache := c, es_size := n\<rparr>)"
  unfolding only_read_def by blast

lemma only_read_refl: "cache_ok env content s \<Longrightarrow> only_read env content s s"
  using only_readI [of env content "es_size s" "es_cache s" "es_etcd s" s] by simp

lemma only_read_trans:
  assumes "only_read env content s t" and "only_read env content t u"
  shows "only_read env content s u"
proof -
  obtain e c n e' c' n' where "t = s\<lparr>es_etcd := e, es_cache := c, es_size := n\<rparr>" "content e = content (es_etcd s)"
      "u = t\<lparr>es_etcd := e', es_cache := c', es_size := n'\<rparr>" "content e' = content (es_etcd t)" "cache_ok env content u"
    using assms by (auto simp: only_read_def)
  then show ?thesis using only_readI [of env content n' c' e' s] by simp
qed

lemma only_readD:
  "only_read env content s t \<Longrightarrow> cache_ok env content t" "only_read env content s t \<Longrightarrow> content (es_etcd t) = content (es_etcd s)"
  "only_read env content s t \<Longrightarrow> es_unit t = es_unit s"
  by (auto simp: only_read_def)

lemma stored_address: "stored_pages env view d = Some p \<Longrightarrow> page_address env p = d"
  by (auto simp: stored_pages_def checked_page_def need_some_def need_def run split: sum.splits option.splits)

section \<open>The cache\<close>

lemma pages_size_simps [simp]:
  "pages_size [] = 0" "pages_size ((d, p) # xs) = length p + pages_size xs" "pages_size (xs @ ys) = pages_size xs + pages_size ys"
  by (simp_all add: pages_size_def)

lemma evict_keeps: "\<exists>gone kept m. evict cache (int (pages_size cache)) = (kept, int m) \<and> cache = gone @ kept \<and> m = pages_size kept \<and> m \<le> UNIT_BYTES"
proof (induction cache)
  case (Cons dp cache)
  obtain d p where dp: "dp = (d, p)" by (cases dp)
  show ?case
  proof (cases "UNIT_BYTES < pages_size (dp # cache)")
    case True
    obtain gone kept m where ih: "evict cache (int (pages_size cache)) = (kept, int m)" "cache = gone @ kept" "m = pages_size kept" "m \<le> UNIT_BYTES"
      using Cons.IH by blast
    have "int (pages_size (dp # cache)) - int (length p) = int (pages_size cache)" by (simp add: dp)
    with True ih(1) have "evict (dp # cache) (int (pages_size (dp # cache))) = (kept, int m)" by (simp add: dp)
    moreover have "dp # cache = (dp # gone) @ kept" using ih(2) by simp
    ultimately show ?thesis using ih(3,4) by blast
  next
    case False
    then have "evict (dp # cache) (int (pages_size (dp # cache))) = (dp # cache, int (pages_size (dp # cache)))"
      by (simp add: dp)
    with False show ?thesis by (intro exI [of _ "[]"] exI [of _ "dp # cache"] exI [of _ "pages_size (dp # cache)"]) simp
  qed
qed simp

lemma pages_size_without:
  "distinct (map fst c) \<Longrightarrow>
     pages_size (filter (\<lambda>(d, _). d \<noteq> digest) c) + (case map_of c digest of None \<Rightarrow> 0 | Some p \<Rightarrow> length p) = pages_size c"
proof (induction c)
  case (Cons dp c)
  obtain d p where dp: "dp = (d, p)" by (cases dp)
  show ?case
  proof (cases "d = digest")
    case True
    with Cons.prems have "\<forall>x \<in> set c. fst x \<noteq> digest" by (force simp: dp)
    then have "filter (\<lambda>(d, _). d \<noteq> digest) c = c" by (simp add: filter_id_conv case_prod_beta)
    with True show ?thesis by (simp add: dp)
  qed (use Cons in \<open>simp add: dp\<close>)
qed simp

lemma cache_put_ok:
  assumes "cache_ok env content s" and "stored_pages env (content (es_etcd s)) digest = Some payload"
  shows "\<exists>t. cache_put env digest payload s = (Inr (), t) \<and> only_read env content s t"
proof -
  let ?entries = "filter (\<lambda>(d, _). d \<noteq> digest) (es_cache s) @ [(digest, payload)]"
  have size: "es_size s - (case map_of (es_cache s) digest of None \<Rightarrow> 0 | Some p \<Rightarrow> int (length p)) + int (length payload) = int (pages_size ?entries)"
    using assms(1) pages_size_without [of "es_cache s" digest] by (cases "map_of (es_cache s) digest") (simp_all add: cache_ok_def)
  obtain gone kept m where kept: "evict ?entries (int (pages_size ?entries)) = (kept, int m)" "?entries = gone @ kept" "m = pages_size kept" "m \<le> UNIT_BYTES"
    using evict_keeps [of ?entries] by blast
  have "distinct (map fst ?entries)" using assms(1) by (auto simp: cache_ok_def distinct_map inj_on_def)
  then have "distinct (map fst kept)" unfolding kept(2) by simp
  moreover have "set kept \<subseteq> set ?entries" unfolding kept(2) by auto
  ultimately have "cache_ok env content (s\<lparr>es_cache := kept, es_size := int m\<rparr>)"
    using assms kept(3,4) by (auto simp: cache_ok_def)
  then have "only_read env content s (s\<lparr>es_cache := kept, es_size := int m\<rparr>)"
    using only_readI [of env content "int m" kept "es_etcd s" s] by simp
  moreover have "cache_put env digest payload s = (Inr (), s\<lparr>es_cache := kept, es_size := int m\<rparr>)"
    using kept(1,4) by (simp add: cache_put_def size Let_def)
  ultimately show ?thesis by blast
qed

lemma read_page_ok:
  assumes "serving env content" and "cache_ok env content s" and "stored_pages env (content (es_etcd s)) digest = Some payload"
  shows "\<exists>t. read_page env digest s = (Inr payload, t) \<and> only_read env content s t"
proof (cases "map_of (es_cache s) digest")
  case None
  obtain r e where r: "ed_range (ee_etcd env) (page_key env digest) (es_etcd s) = (Inr r, e)"
      "map_option kv_value r = content (es_etcd s) (page_key env digest)" "content e = content (es_etcd s)"
    using assms(1) unfolding serving_def by metis
  let ?s = "s\<lparr>es_etcd := e\<rparr>"
  have s: "cache_ok env content ?s" "stored_pages env (content (es_etcd ?s)) digest = Some payload"
    using assms(2,3) r(3) by (simp_all add: cache_ok_def)
  then obtain t where t: "cache_put env digest payload ?s = (Inr (), t)" "only_read env content ?s t"
    using cache_put_ok by blast
  have "only_read env content s ?s" using only_readI [of env content "es_size s" "es_cache s" e s] s(1) r(3) by simp
  moreover have "checked_page env digest (map_option kv_value r) = Inr payload"
    using assms(3) r(2) by (auto simp: stored_pages_def split: sum.splits)
  ultimately show ?thesis using None r(1) t
    by (auto simp: read_page_def bindm_def etcd_range_def etcd_rpc_def call_etcd_def intro: only_read_trans)
next
  case (Some p)
  with assms(2) have "stored_pages env (content (es_etcd s)) digest = Some p"
    by (auto simp: cache_ok_def dest: map_of_SomeD)
  with Some assms(2,3) show ?thesis by (auto simp: read_page_def bindm_def intro: only_read_refl)
qed

section \<open>Reading a text\<close>

text \<open>The text of a digest among the pages \<open>G\<close>, through at most \<open>n\<close> levels.\<close>

inductive text_at :: "(string \<Rightarrow> string option) \<Rightarrow> nat \<Rightarrow> string \<Rightarrow> string \<Rightarrow> bool" for G where
  leaf_text: "G d = Some (leaf_page b) \<Longrightarrow> text_at G (Suc n) d b"
| index_text: "G d = Some (index_page ds) \<Longrightarrow> list_all2 (text_at G n) ds bs \<Longrightarrow> text_at G (Suc n) d (concat bs)"

inductive_cases text_atE: "text_at G n d b"

lemma text_at_mono:
  assumes "text_at G n d b" and "\<And>d p. G d = Some p \<Longrightarrow> G' d = Some p" and "n \<le> m"
  shows "text_at G' m d b"
  using assms(1,3)
proof (induction arbitrary: m)
  case (leaf_text d b n)
  then show ?case using assms(2) by (cases m) (auto intro: text_at.intros)
next
  case (index_text d ds n bs)
  from index_text.prems obtain k where k: "m = Suc k" "n \<le> k" by (cases m) auto
  from index_text.IH have "list_all2 (text_at G' k) ds bs" using k(2) by (auto elim: list.rel_mono_strong)
  with index_text.hyps k(1) show ?case using assms(2) by (auto intro: text_at.intros)
qed

lemma listed_index: "listed (canonical (JArr (map JStr ds))) = Inr ds"
proof -
  have "json_wf (\<lambda>_. True) (JArr (map JStr ds))" by (simp add: list_all_iff)
  then have "loads (canonical (JArr (map JStr ds))) = Some (JArr (map JStr ds))"
    by (subst loads_canonical) (simp_all add: comp_def)
  moreover have "map_res (\<lambda>x. case x of JStr d \<Rightarrow> Inr d | _ \<Rightarrow> Inl TypeError) (map JStr ds) = Inr ds"
    by (simp add: map_res_Inr list_all2_conv_all_nth)
  ultimately show ?thesis by (simp add: listed_def del: canonical.simps)
qed

lemma mapm_read:
  assumes "list_all2 Q xs ys" and "only_read env content s0 s"
    and "\<And>x y s. x \<in> set xs \<Longrightarrow> Q x y \<Longrightarrow> only_read env content s0 s \<Longrightarrow> \<exists>t. f x s = (Inr y, t) \<and> only_read env content s t"
  shows "\<exists>t. mapm f xs s = (Inr ys, t) \<and> only_read env content s t"
  using assms
proof (induction arbitrary: s rule: list_all2_induct)
  case Nil
  then show ?case by (auto intro: only_read_refl dest: only_readD)
next
  case (Cons x xs y ys)
  from Cons.prems(2) [of x y s] Cons.hyps Cons.prems(1) obtain t where t: "f x s = (Inr y, t)" "only_read env content s t" by auto
  from Cons.IH [of t] Cons.prems t obtain u where "mapm f xs t = (Inr ys, u)" "only_read env content t u"
    by (auto intro: only_read_trans)
  with t show ?case by (auto simp: bindm_def intro: only_read_trans)
qed

theorem read_blob_ok:
  assumes "text_at (stored_pages env (content (es_etcd s))) n d b" and "serving env content" and "cache_ok env content s"
  shows "\<exists>t. read_blob env n d s = (Inr b, t) \<and> only_read env content s t"
  using assms(1,3)
proof (induction n arbitrary: d b s)
  case 0
  then show ?case by (auto elim: text_atE)
next
  case (Suc n)
  from Suc.prems(1) show ?case
  proof (cases rule: text_at.cases)
    case leaf_text
    from read_page_ok [OF assms(2) Suc.prems(2) leaf_text(1)] show ?thesis
      by (auto simp: bindm_def leaf_page_def)
  next
    case (index_text ds bs)
    from read_page_ok [OF assms(2) Suc.prems(2) index_text(2)] obtain t
      where t: "read_page env d s = (Inr (index_page ds), t)" "only_read env content s t" by blast
    have "\<exists>u. mapm (read_blob env n) ds t = (Inr bs, u) \<and> only_read env content t u"
    proof (rule mapm_read [OF index_text(3) t(2)])
      fix x y u
      assume "text_at (stored_pages env (content (es_etcd s))) n x y" "only_read env content s u"
      then have "text_at (stored_pages env (content (es_etcd u))) n x y" "cache_ok env content u" by (simp_all add: only_readD)
      then show "\<exists>v. read_blob env n x u = (Inr y, v) \<and> only_read env content u v" by (rule Suc.IH)
    qed
    with t show ?thesis
      by (auto simp: bindm_def index_page_def listed_index index_text(1) intro: only_read_trans simp del: canonical.simps)
  qed
qed

section \<open>The pages of a text\<close>

function index_digests :: "'e etcd_env \<Rightarrow> string list \<Rightarrow> string list" where
  "index_digests env ds =
     (if 64 < length ds then index_digests env (map (page_address env \<circ> index_page) (pieces 63 ds)) else ds)"
  by pat_completeness auto

termination
  by (relation "measure (\<lambda>(_, ds). length ds)") (simp_all add: pieces_shorter [of _ 62, simplified])

declare index_digests.simps [simp del]

function index_pages :: "'e etcd_env \<Rightarrow> string list \<Rightarrow> string list" where
  "index_pages env ds =
     (if 64 < length ds
      then map index_page (pieces 63 ds) @ index_pages env (map (page_address env \<circ> index_page) (pieces 63 ds)) else [])"
  by pat_completeness auto

termination
  by (relation "measure (\<lambda>(_, ds). length ds)") (simp_all add: pieces_shorter [of _ 62, simplified])

declare index_pages.simps [simp del]

definition blob_leaves :: "string \<Rightarrow> string list" where
  "blob_leaves payload = map leaf_page (pieces (PAGE_BYTES - 1) payload)"

definition blob_top :: "'e etcd_env \<Rightarrow> string \<Rightarrow> string" where
  "blob_top env payload =
     (if length payload \<le> PAGE_BYTES then leaf_page payload
      else index_page (index_digests env (map (page_address env) (blob_leaves payload))))"

definition blob_pages :: "'e etcd_env \<Rightarrow> string \<Rightarrow> string list" where
  "blob_pages env payload =
     (if length payload \<le> PAGE_BYTES then []
      else blob_leaves payload @ index_pages env (map (page_address env) (blob_leaves payload))) @ [blob_top env payload]"

definition blob_digest :: "'e etcd_env \<Rightarrow> string \<Rightarrow> string" where
  "blob_digest env payload = page_address env (blob_top env payload)"

text \<open>What a unit of work has collected after the pages \<open>ps\<close>; the cached ones are in the service already.\<close>

definition collect_page :: "'e etcd_env \<Rightarrow> (string \<times> string) list \<Rightarrow> string \<Rightarrow> (string \<times> string) list \<Rightarrow> (string \<times> string) list" where
  "collect_page env cache p pages =
     (let d = page_address env p in if map_of cache d \<noteq> None then pages else dict_put d p pages)"

definition with_pages :: "'e etcd_env \<Rightarrow> string list \<Rightarrow> 'e etcd_state \<Rightarrow> 'e etcd_state" where
  "with_pages env ps s = s\<lparr>es_unit := map_option (\<lambda>u. u\<lparr>eu_pages := fold (collect_page env (es_cache s)) ps (eu_pages u)\<rparr>) (es_unit s)\<rparr>"

lemma with_pages_simps [simp]:
  "with_pages env [] s = s" "with_pages env ps (with_pages env qs s) = with_pages env (qs @ ps) s"
  "writing (with_pages env ps s) = writing s" "es_cache (with_pages env ps s) = es_cache s" "es_size (with_pages env ps s) = es_size s"
  "es_etcd (with_pages env ps s) = es_etcd s"
  by (cases "es_unit s"; simp add: with_pages_def writing_def)+

text \<open>An action that adds pages to the open unit, or runs into its limit.\<close>

definition collects :: "'e etcd_env \<Rightarrow> ('e, 'a) on_etcd \<Rightarrow> string list \<Rightarrow> 'a \<Rightarrow> bool" where
  "collects env m ps x \<longleftrightarrow> (\<forall>s. writing s \<longrightarrow>
     m s = (Inr x, with_pages env ps s) \<or> (\<exists>t. m s = (Inl (Fault LIMIT_EXCEEDED), t)))"

lemma collects_page: "collects env (page env p) [p] (page_address env p)"
proof (unfold collects_def, intro allI impI)
  fix s :: "'a etcd_state"
  assume "writing s"
  then obtain u where "es_unit s = Some u" "eu_write u" by (auto simp: writing_def split: option.splits)
  then show "page env p s = (Inr (page_address env p), with_pages env [p] s) \<or> (\<exists>t. page env p s = (Inl (Fault LIMIT_EXCEEDED), t))"
    by (auto simp: page_def bindm_def needm_def Let_def set_unit_def with_pages_def collect_page_def writing_def unit_pages_def)
qed

lemma collects_retm: "collects env (retm x) [] x"
  by (simp add: collects_def)

lemma collects_bindm: "collects env m ps x \<Longrightarrow> collects env (f x) qs y \<Longrightarrow> collects env (bindm m f) (ps @ qs) y"
proof (unfold collects_def [of env "bindm m f"], intro allI impI)
  fix s :: "'a etcd_state"
  assume one: "collects env m ps x" and two: "collects env (f x) qs y" and w: "writing s"
  from one w consider "m s = (Inr x, with_pages env ps s)" | t where "m s = (Inl (Fault LIMIT_EXCEEDED), t)"
    unfolding collects_def by blast
  then show "bindm m f s = (Inr y, with_pages env (ps @ qs) s) \<or> (\<exists>t. bindm m f s = (Inl (Fault LIMIT_EXCEEDED), t))"
  proof cases
    case 1
    have "writing (with_pages env ps s)" using w by simp
    with two have "f x (with_pages env ps s) = (Inr y, with_pages env qs (with_pages env ps s)) \<or>
        (\<exists>t. f x (with_pages env ps s) = (Inl (Fault LIMIT_EXCEEDED), t))" unfolding collects_def by blast
    with 1 show ?thesis by (simp add: bindm_run)
  qed (simp add: bindm_run)
qed

lemma collects_mapm: "(\<And>x. x \<in> set xs \<Longrightarrow> collects env (f x) [g x] (h x)) \<Longrightarrow> collects env (mapm f xs) (map g xs) (map h xs)"
proof (induction xs)
  case (Cons x xs)
  then have "collects env (f x) [g x] (h x)" "collects env (mapm f xs) (map g xs) (map h xs)" by simp_all
  then have "collects env (bindm (f x) (\<lambda>y. bindm (mapm f xs) (\<lambda>ys. retm (y # ys)))) ([g x] @ map g xs @ []) (h x # map h xs)"
    by (rule collects_bindm [OF _ collects_bindm [OF _ collects_retm]])
  then show ?case by simp
qed (simp add: collects_retm)

lemma collects_index: "collects env (index_loop env ds) (index_pages env ds) (index_digests env ds)"
proof (induction env ds rule: index_digests.induct)
  case (1 env ds)
  let ?up = "map (page_address env \<circ> index_page) (pieces 63 ds)"
  show ?case
  proof (cases "64 < length ds")
    case True
    have "index_loop env ds = bindm (mapm (\<lambda>ds. page env (index_page ds)) (pieces 63 ds)) (index_loop env)"
      using True by (auto simp: fun_eq_iff bindm_def index_loop.simps [of env ds] split: prod.split sum.split)
    moreover have "collects env (mapm (\<lambda>ds. page env (index_page ds)) (pieces 63 ds)) (map index_page (pieces 63 ds)) ?up"
      unfolding comp_def by (rule collects_mapm) (rule collects_page)
    ultimately have "collects env (index_loop env ds) (map index_page (pieces 63 ds) @ index_pages env ?up) (index_digests env ?up)"
      using 1 [OF True] by (simp add: collects_bindm)
    with True show ?thesis by (simp add: index_pages.simps [of env ds] index_digests.simps [of env ds])
  next
    case False
    then have "index_loop env ds = retm ds" by (auto simp: fun_eq_iff index_loop.simps [of env ds])
    with False show ?thesis by (simp add: index_pages.simps [of env ds] index_digests.simps [of env ds] collects_retm del: act_simps)
  qed
qed

theorem collects_blob: "collects env (blob env payload) (blob_pages env payload) (blob_digest env payload)"
proof (cases "length payload \<le> PAGE_BYTES")
  case True
  then show ?thesis by (simp add: blob_def blob_pages_def blob_digest_def blob_top_def collects_page)
next
  case False
  let ?ds = "map (page_address env) (blob_leaves payload)"
  have "collects env (mapm (\<lambda>data. page env (leaf_page data)) (pieces (PAGE_BYTES - 1) payload)) (blob_leaves payload) ?ds"
    unfolding blob_leaves_def map_map comp_def by (rule collects_mapm) (rule collects_page)
  then have "collects env (bindm (mapm (\<lambda>data. page env (leaf_page data)) (pieces (PAGE_BYTES - 1) payload)) (\<lambda>children.
      bindm (index_loop env children) (\<lambda>children. page env (index_page children))))
      (blob_leaves payload @ index_pages env ?ds @ [index_page (index_digests env ?ds)]) (page_address env (index_page (index_digests env ?ds)))"
    by (rule collects_bindm [OF _ collects_bindm [OF collects_index collects_page]])
  with False show ?thesis by (simp add: blob_def blob_pages_def blob_digest_def blob_top_def)
qed

section \<open>Pieces\<close>

lemma pieces_Nil [simp]: "pieces m [] = []"
  by (simp add: pieces.simps)

lemma pieces_step: "xs \<noteq> [] \<Longrightarrow> pieces m xs = take (Suc m) xs # pieces m (drop (Suc m) xs)"
  by (simp add: pieces.simps)

lemma concat_pieces: "concat (pieces m xs) = xs"
proof (induction m xs rule: pieces.induct)
  case (1 m xs)
  show ?case
  proof (cases "xs = []")
    case False
    then have "concat (pieces m xs) = take (Suc m) xs @ concat (pieces m (drop (Suc m) xs))" by (subst pieces_step) simp_all
    also have "\<dots> = xs" using 1 [OF False] by (metis append_take_drop_id)
    finally show ?thesis .
  qed simp
qed

lemma pieces_bound: "x \<in> set (pieces m xs) \<Longrightarrow> length x \<le> Suc m"
proof (induction m xs rule: pieces.induct)
  case (1 m xs)
  then show ?case by (cases "xs = []") (auto simp: pieces_step simp del: take_Suc_Cons)
qed

lemma pieces_count: "length xs \<le> k * Suc m \<Longrightarrow> length (pieces m xs) \<le> k"
proof (induction k arbitrary: xs)
  case (Suc k)
  show ?case
  proof (cases "xs = []")
    case False
    have "length (drop (Suc m) xs) \<le> k * Suc m" using Suc.prems by simp
    then show ?thesis using Suc.IH False by (simp add: pieces_step)
  qed simp
qed simp

lemma pieces_rel: "list_all2 R xs ys \<Longrightarrow> list_all2 (list_all2 R) (pieces m xs) (pieces m ys)"
proof (induction m xs arbitrary: ys rule: pieces.induct)
  case (1 m xs)
  show ?case
  proof (cases "xs = []")
    case False
    with 1 have "ys \<noteq> []" "list_all2 (list_all2 R) (pieces m (drop (Suc m) xs)) (pieces m (drop (Suc m) ys))"
      by (auto intro: list_all2_dropI)
    with False show ?thesis by (simp add: pieces_step list_all2_takeI [OF 1(2)])
  qed (use 1(2) in simp)
qed

lemma concat_map_pieces: "concat (map concat (pieces m xs)) = concat xs"
proof -
  have "concat (map concat xss) = concat (concat xss)" for xss :: "'a list list list"
    by (induction xss) simp_all
  then show ?thesis by (simp add: concat_pieces)
qed

lemma READ_DEPTH_steps: "READ_DEPTH = Suc (Suc 14)"
  by (simp add: READ_DEPTH_def)

section \<open>A text is found under its digest\<close>

definition holds_pages :: "'e etcd_env \<Rightarrow> (string \<Rightarrow> string option) \<Rightarrow> string set \<Rightarrow> bool" where
  "holds_pages env G ps \<longleftrightarrow> (\<forall>p \<in> ps. G (page_address env p) = Some p)"

lemma text_of_index:
  assumes "list_all2 (text_at G n) ds bs" and "holds_pages env G (set (index_pages env ds))" and "length ds \<le> 64 * 64 ^ k"
  shows "\<exists>cs. list_all2 (text_at G (n + k)) (index_digests env ds) cs \<and> concat cs = concat bs"
  using assms
proof (induction env ds arbitrary: n bs k rule: index_digests.induct)
  case (1 env ds)
  show ?case
  proof (cases "64 < length ds")
    case True
    then obtain j where k: "k = Suc j" using "1.prems"(3) by (cases k) auto
    let ?up = "map (page_address env \<circ> index_page) (pieces 63 ds)"
    have pages: "holds_pages env G (set (map index_page (pieces 63 ds)))" "holds_pages env G (set (index_pages env ?up))"
      using "1.prems"(2) True by (auto simp: holds_pages_def index_pages.simps [of env ds])
    have "list_all2 (list_all2 (text_at G n)) (pieces 63 ds) (pieces 63 bs)" by (rule pieces_rel) (rule "1.prems"(1))
    then have "list_all2 (text_at G (Suc n)) ?up (map concat (pieces 63 bs))"
      using pages(1) by (auto simp: list_all2_conv_all_nth holds_pages_def intro!: index_text)
    moreover have "length ?up \<le> 64 * 64 ^ j" using "1.prems"(3) k pieces_count [of ds "64 * 64 ^ j" 63] by simp
    ultimately obtain cs where "list_all2 (text_at G (Suc n + j)) (index_digests env ?up) cs" "concat cs = concat (map concat (pieces 63 bs))"
      using "1.IH" [OF True _ pages(2), of "Suc n" _ j] by blast
    with True show ?thesis by (auto simp: k concat_map_pieces index_digests.simps [of env ds])
  next
    case False
    have "list_all2 (text_at G (n + k)) ds bs" using "1.prems"(1) by (rule list.rel_mono_strong) (auto elim: text_at_mono)
    with False show ?thesis by (auto simp: index_digests.simps [of env ds])
  qed
qed

lemma text_of_blob:
  assumes "holds_pages env G (set (blob_pages env payload))" and "length payload \<le> PAGE_BYTES * (64 * 64 ^ k)"
  shows "text_at G (Suc (Suc k)) (blob_digest env payload) payload"
proof (cases "length payload \<le> PAGE_BYTES")
  case True
  with assms(1) show ?thesis
    by (auto simp: blob_pages_def holds_pages_def blob_digest_def blob_top_def intro: leaf_text)
next
  case False
  let ?ps = "pieces (PAGE_BYTES - 1) payload" and ?ds = "map (page_address env) (blob_leaves payload)"
  have pages: "holds_pages env G (set (blob_leaves payload))" "holds_pages env G (set (index_pages env ?ds))"
      "G (blob_digest env payload) = Some (index_page (index_digests env ?ds))"
    using assms(1) False by (auto simp: blob_pages_def holds_pages_def blob_digest_def blob_top_def)
  have "list_all2 (text_at G (Suc 0)) ?ds ?ps"
    using pages(1) by (auto simp: blob_leaves_def list_all2_conv_all_nth holds_pages_def intro!: leaf_text)
  moreover have "length ?ds \<le> 64 * 64 ^ k"
    using assms(2) pieces_count [of payload "64 * 64 ^ k" "PAGE_BYTES - 1"] by (simp add: blob_leaves_def PAGE_BYTES_def mult.commute)
  ultimately obtain cs where cs: "list_all2 (text_at G (Suc 0 + k)) (index_digests env ?ds) cs" "concat cs = concat ?ps"
    using text_of_index [OF _ pages(2)] by blast
  from index_text [OF pages(3) cs(1)] cs(2) show ?thesis by (simp add: concat_pieces)
qed

section \<open>Writing the pages of a unit\<close>

definition pages_ok :: "'e etcd_env \<Rightarrow> string set \<Rightarrow> (string \<times> string) list \<Rightarrow> bool" where
  "pages_ok env X pages \<longleftrightarrow> distinct (map fst pages) \<and> (\<forall>(d, p) \<in> set pages. d = page_address env p \<and> p \<in> X)"

lemma set_dict_put: "set (dict_put k v xs) \<subseteq> insert (k, v) (set xs)"
  by (induction k v xs rule: dict_put.induct) auto

lemma pages_ok_put: "pages_ok env X pages \<Longrightarrow> p \<in> X \<Longrightarrow> pages_ok env X (dict_put (page_address env p) p pages)"
  using set_dict_put [of "page_address env p" p pages] by (auto simp: pages_ok_def distinct_dict_put)

lemma collected:
  assumes "pages_ok env X pages" and "inj_on (page_address env) X" and "set ps \<subseteq> X"
  shows "pages_ok env X (fold (collect_page env cache) ps pages) \<and>
     (\<forall>d p. map_of pages d = Some p \<longrightarrow> map_of (fold (collect_page env cache) ps pages) d = Some p) \<and>
     (\<forall>p \<in> set ps. map_of cache (page_address env p) \<noteq> None \<or>
        map_of (fold (collect_page env cache) ps pages) (page_address env p) = Some p)"
  using assms(1,3)
proof (induction ps arbitrary: pages)
  case (Cons p ps)
  let ?d = "page_address env p" and ?pages = "collect_page env cache p pages"
  have ok: "pages_ok env X ?pages" using Cons.prems by (simp add: collect_page_def pages_ok_put Let_def)
  have same: "map_of ?pages d = Some q" if "map_of pages d = Some q" for d q
  proof (cases "d = ?d")
    case True
    have "(d, q) \<in> set pages" using that by (rule map_of_SomeD)
    with Cons.prems(1) have q: "d = page_address env q" "q \<in> X" unfolding pages_ok_def by blast+
    have "q = p"
    proof (rule inj_onD [OF assms(2)])
      show "page_address env q = page_address env p" using q(1) True by simp
      show "q \<in> X" "p \<in> X" using q(2) Cons.prems(2) by simp_all
    qed
    with that True show ?thesis by (simp add: collect_page_def Let_def)
  qed (use that in \<open>simp add: collect_page_def Let_def\<close>)
  have here: "map_of cache ?d \<noteq> None \<or> map_of ?pages ?d = Some p" by (simp add: collect_page_def Let_def)
  have rest: "set ps \<subseteq> X" using Cons.prems(2) by simp
  note ih = Cons.IH [OF ok rest]
  have later: "map_of (fold (collect_page env cache) ps ?pages) d = Some q" if "map_of ?pages d = Some q" for d q
    using ih that by blast
  show ?case
  proof (intro conjI allI impI ballI)
    show "pages_ok env X (fold (collect_page env cache) (p # ps) pages)" using ih by simp
    show "map_of (fold (collect_page env cache) (p # ps) pages) d = Some q" if "map_of pages d = Some q" for d q
      using later [OF same [OF that]] by simp
    fix q
    assume "q \<in> set (p # ps)"
    then consider "q = p" | "q \<in> set ps" by auto
    then show "map_of cache (page_address env q) \<noteq> None \<or>
        map_of (fold (collect_page env cache) (p # ps) pages) (page_address env q) = Some q"
    proof cases
      case 1
      with here later [of ?d p] show ?thesis by (simp only: fold_simps) blast
    next
      case 2
      with ih show ?thesis by (simp only: fold_simps)
    qed
  qed
qed simp

definition wrote :: "'e etcd_env \<Rightarrow> ('e \<Rightarrow> string \<Rightarrow> string option) \<Rightarrow> (string \<times> string) list \<Rightarrow> 'e etcd_state \<Rightarrow> 'e etcd_state \<Rightarrow> bool" where
  "wrote env content pages s t \<longleftrightarrow> cache_ok env content t \<and>
     stored_pages env (content (es_etcd t)) = stored_pages env (content (es_etcd s)) ++ map_of pages \<and>
     (\<exists>e c n k. t = s\<lparr>es_etcd := e, es_cache := c, es_size := n, es_ticks := k\<rparr>)"

lemma wrote_trans:
  assumes "wrote env content ps s t" and "wrote env content qs t u" and "distinct (map fst (ps @ qs))"
  shows "wrote env content (ps @ qs) s u"
proof -
  obtain e c n k e' c' n' k' where "t = s\<lparr>es_etcd := e, es_cache := c, es_size := n, es_ticks := k\<rparr>"
      "u = t\<lparr>es_etcd := e', es_cache := c', es_size := n', es_ticks := k'\<rparr>"
    using assms(1,2) by (auto simp: wrote_def)
  then have "u = s\<lparr>es_etcd := e', es_cache := c', es_size := n', es_ticks := k'\<rparr>" by simp
  moreover have "dom (map_of ps) \<inter> dom (map_of qs) = {}"
    using assms(3) by (simp add: dom_map_of_conv_image_fst)
  then have "map_of ps ++ map_of qs = map_of (ps @ qs)"
    unfolding map_of_append by (rule map_add_comm)
  ultimately show ?thesis using assms(1,2) unfolding wrote_def by (metis map_add_assoc)
qed

lemma page_key_inj [simp]: "page_key env d = page_key env d' \<longleftrightarrow> d = d'"
  by (simp add: page_key_def)

lemma put_pages_ok:
  assumes "sealing_ok env" and "\<forall>(d, p) \<in> set batch. d = page_address env p"
  shows "\<exists>puts k. mapm (put_page env) batch s = (Inr puts, s\<lparr>es_ticks := k\<rparr>) \<and>
     list_all2 (\<lambda>(d, p) e. \<exists>w. e = Put_Key (page_key env d) w None \<and> checked_page env d (Some w) = Inr p) batch puts"
  using assms(2)
proof (induction batch arbitrary: s)
  case (Cons dp batch)
  obtain d p where dp: "dp = (d, p)" by (cases dp)
  obtain w k where w: "put_page env dp s = (Inr (Put_Key (page_key env d) w None), s\<lparr>es_ticks := k\<rparr>)" "checked_page env d (Some w) = Inr p"
  proof (cases "ee_cipher env")
    case None
    with that [of p "es_ticks s"] dp Cons.prems show ?thesis
      by (simp add: put_page_def page_wire_def bindm_def checked_page_def need_some_def need_def)
  next
    case (Some c)
    then have "unseal c (Blob (seal c (ee_urandom env (es_ticks s)) p (page_key env d))) (page_key env d) = Inr p"
      using assms(1) by (intro unseal_seal) (simp_all add: sealing_ok_def)
    with Some that dp Cons.prems show ?thesis
      by (simp add: put_page_def page_wire_def bindm_def etcd_tick_def checked_page_def need_some_def need_def)
  qed
  have "\<forall>(d, p) \<in> set batch. d = page_address env p" using Cons.prems by auto
  from Cons.IH [OF this, of "s\<lparr>es_ticks := k\<rparr>"] obtain puts j where
    "mapm (put_page env) batch (s\<lparr>es_ticks := k\<rparr>) = (Inr puts, s\<lparr>es_ticks := j\<rparr>)"
    "list_all2 (\<lambda>(d, p) e. \<exists>w. e = Put_Key (page_key env d) w None \<and> checked_page env d (Some w) = Inr p) batch puts"
    by auto
  with w dp show ?case by (auto simp: bindm_def)
next
  case Nil
  have "mapm (put_page env) [] s = (Inr [], s\<lparr>es_ticks := es_ticks s\<rparr>)" by simp
  then show ?case by blast
qed

lemma stored_puts:
  assumes "list_all2 (\<lambda>(d, p) e. \<exists>w. e = Put_Key (page_key env d) w None \<and> checked_page env d (Some w) = Inr p) batch puts"
    and "distinct (map fst batch)"
  shows "stored_pages env (fold apply_effect puts m) = stored_pages env m ++ map_of batch"
  using assms
proof (induction arbitrary: m rule: list_all2_induct)
  case (Cons dp batch e puts)
  then obtain d p w where dp: "dp = (d, p)" "e = Put_Key (page_key env d) w None" "checked_page env d (Some w) = Inr p"
    by (cases dp) auto
  then have one: "stored_pages env (apply_effect e m) = (stored_pages env m)(d \<mapsto> p)"
    by (auto simp: stored_pages_def fun_eq_iff)
  have "stored_pages env (fold apply_effect (e # puts) m) = stored_pages env (apply_effect e m) ++ map_of batch"
    using Cons.IH [of "apply_effect e m"] Cons.prems by simp
  also have "\<dots> = (stored_pages env m)(d \<mapsto> p) ++ map_of batch" unfolding one ..
  also have "\<dots> = (stored_pages env m ++ map_of batch)(d \<mapsto> p)"
    by (rule map_add_upd_left) (use Cons.prems dp in \<open>simp add: dom_map_of_conv_image_fst\<close>)
  finally show ?case by (simp only: dp map_of.simps fst_conv snd_conv map_add_upd)
qed simp

lemma cache_all_ok:
  assumes "cache_ok env content s" and "\<forall>(d, p) \<in> set batch. stored_pages env (content (es_etcd s)) d = Some p"
  shows "\<exists>t. eachm (\<lambda>(digest, payload). cache_put env digest payload) batch s = (Inr (), t) \<and> only_read env content s t"
  using assms
proof (induction batch arbitrary: s)
  case (Cons dp batch)
  obtain d p where dp: "dp = (d, p)" by (cases dp)
  with Cons.prems cache_put_ok [of env content s d p] obtain t where t: "cache_put env d p s = (Inr (), t)" "only_read env content s t"
    by auto
  with Cons.prems Cons.IH [of t] obtain u where
    "eachm (\<lambda>(digest, payload). cache_put env digest payload) batch t = (Inr (), u)" "only_read env content t u"
    by (auto simp: only_readD)
  with t dp show ?case by (auto simp: bindm_def intro: only_read_trans)
qed (auto intro: only_read_refl)

text \<open>A page is written over the same page only.\<close>

definition fresh_or_same :: "(string \<Rightarrow> string option) \<Rightarrow> (string \<times> string) list \<Rightarrow> bool" where
  "fresh_or_same G pages \<longleftrightarrow> (\<forall>(d, p) \<in> set pages. \<forall>q. G d = Some q \<longrightarrow> q = p)"

lemma flush_batch_ok:
  assumes "serving env content" and "sealing_ok env" and "cache_ok env content s" and "pages_ok env X batch"
    and "fresh_or_same (stored_pages env (content (es_etcd s))) batch"
  shows "\<exists>t. flush_batch env batch s = (Inr (), t) \<and> wrote env content batch s t"
proof (cases "batch = []")
  case True
  moreover have "s = s\<lparr>es_etcd := es_etcd s, es_cache := es_cache s, es_size := es_size s, es_ticks := es_ticks s\<rparr>" by simp
  then have "\<exists>e c n k. s = s\<lparr>es_etcd := e, es_cache := c, es_size := n, es_ticks := k\<rparr>" by blast
  with assms(3) have "wrote env content [] s s" by (simp add: wrote_def)
  ultimately show ?thesis by (simp add: flush_batch_def)
next
  case False
  have addr: "\<forall>(d, p) \<in> set batch. d = page_address env p" and keys: "distinct (map fst batch)"
    using assms(4) by (auto simp: pages_ok_def)
  from put_pages_ok [OF assms(2) addr, of s] obtain puts k where puts: "mapm (put_page env) batch s = (Inr puts, s\<lparr>es_ticks := k\<rparr>)"
      "list_all2 (\<lambda>(d, p) e. \<exists>w. e = Put_Key (page_key env d) w None \<and> checked_page env d (Some w) = Inr p) batch puts"
    by blast
  obtain b e where txn: "ed_txn (ee_etcd env) [] puts (es_etcd s) = (Inr b, e)" "content e = fold apply_effect puts (content (es_etcd s))"
    using assms(1) unfolding serving_def by blast
  let ?s = "s\<lparr>es_ticks := k, es_etcd := e\<rparr>"
  have stored: "stored_pages env (content e) = stored_pages env (content (es_etcd s)) ++ map_of batch"
    unfolding txn(2) by (rule stored_puts [OF puts(2) keys])
  have same: "stored_pages env (content e) d = Some q" if "stored_pages env (content (es_etcd s)) d = Some q" for d q
  proof (cases "map_of batch d")
    case (Some p)
    then have "q = p" using assms(5) that by (auto simp: fresh_or_same_def dest!: map_of_SomeD)
    with Some show ?thesis by (simp add: stored map_add_def)
  qed (use that in \<open>simp add: stored map_add_def\<close>)
  have ok: "cache_ok env content ?s" using assms(3) same by (auto simp: cache_ok_def)
  have "\<forall>(d, p) \<in> set batch. stored_pages env (content (es_etcd ?s)) d = Some p"
    using keys by (auto simp: stored map_add_def)
  from cache_all_ok [OF ok this] obtain t
    where t: "eachm (\<lambda>(digest, payload). cache_put env digest payload) batch ?s = (Inr (), t)" "only_read env content ?s t" by blast
  then obtain e' c n where t': "t = ?s\<lparr>es_etcd := e', es_cache := c, es_size := n\<rparr>" "content e' = content e" "cache_ok env content t"
    by (auto simp: only_read_def)
  then have "t = s\<lparr>es_etcd := e', es_cache := c, es_size := n, es_ticks := k\<rparr>" by simp
  with t' stored have "wrote env content batch s t" unfolding wrote_def by auto
  moreover have "flush_batch env batch s = (Inr (), t)"
    using False puts(1) txn(1) t(1) by (simp add: flush_batch_def bindm_def etcd_rpc_def call_etcd_def)
  ultimately show ?thesis by blast
qed

lemma wrote_fresh: "wrote env content ps s t \<Longrightarrow> fresh_or_same (stored_pages env (content (es_etcd s))) qs \<Longrightarrow>
    distinct (map fst (ps @ qs)) \<Longrightarrow> fresh_or_same (stored_pages env (content (es_etcd t))) qs"
proof (unfold fresh_or_same_def split_paired_all prod.case, intro ballI allI impI, unfold split_paired_all prod.case, intro allI impI)
  fix d p q
  assume w: "wrote env content ps s t" and keys: "distinct (map fst (ps @ qs))" and dp: "(d, p) \<in> set qs"
    and fresh: "\<forall>x \<in> set qs. case x of (d, p) \<Rightarrow> \<forall>q. stored_pages env (content (es_etcd s)) d = Some q \<longrightarrow> q = p"
    and now: "stored_pages env (content (es_etcd t)) d = Some q"
  have "d \<notin> fst ` set ps" using keys dp by force
  then have "map_of ps d = None" by (simp add: map_of_eq_None_iff)
  with w now have "stored_pages env (content (es_etcd s)) d = Some q" by (simp add: wrote_def map_add_def)
  with fresh dp show "q = p" by auto
qed

lemma persist_from_ok:
  assumes "serving env content" and "sealing_ok env" and "cache_ok env content s" and "pages_ok env X (batch @ pages)"
    and "fresh_or_same (stored_pages env (content (es_etcd s))) (batch @ pages)"
  shows "\<exists>t. persist_from env batch n pages s = (Inr (), t) \<and> wrote env content (batch @ pages) s t"
  using assms(3-5)
proof (induction pages arbitrary: batch n s)
  case Nil
  then show ?case using flush_batch_ok [OF assms(1,2)] by auto
next
  case (Cons dp pages)
  obtain d p where dp: "dp = (d, p)" by (cases dp)
  show ?case
  proof (cases "32 \<le> length batch \<or> 524288 < n + length p")
    case True
    have batch: "pages_ok env X batch" "fresh_or_same (stored_pages env (content (es_etcd s))) batch"
      and rest: "pages_ok env X ([dp] @ pages)" "fresh_or_same (stored_pages env (content (es_etcd s))) ([dp] @ pages)"
      and keys: "distinct (map fst (batch @ [dp] @ pages))"
      using Cons.prems(2,3) by (auto simp: pages_ok_def fresh_or_same_def)
    obtain t where t: "flush_batch env batch s = (Inr (), t)" "wrote env content batch s t"
      using flush_batch_ok [OF assms(1,2) Cons.prems(1) batch] by blast
    have "cache_ok env content t" "fresh_or_same (stored_pages env (content (es_etcd t))) ([dp] @ pages)"
      using t(2) wrote_fresh [OF t(2) rest(2) keys] by (simp_all add: wrote_def)
    from Cons.IH [OF this(1) rest(1) this(2)] obtain u
      where u: "persist_from env [dp] (length p) pages t = (Inr (), u)" "wrote env content ([dp] @ pages) t u" by blast
    have "wrote env content (batch @ dp # pages) s u" using wrote_trans [OF t(2) u(2) keys] by simp
    with True t(1) u(1) dp show ?thesis by (auto simp: bindm_def)
  next
    case False
    from Cons.IH [of s "batch @ [dp]" "n + length p"] Cons.prems False dp show ?thesis by simp
  qed
qed

lemma persist_pages_ok:
  assumes "serving env content" and "sealing_ok env" and "cache_ok env content s" and "pages_ok env X pages"
    and "inj_on (page_address env) (X \<union> ran (stored_pages env (content (es_etcd s))))"
  shows "\<exists>t. persist_pages env pages s = (Inr (), t) \<and> wrote env content pages s t"
proof -
  have "fresh_or_same (stored_pages env (content (es_etcd s))) pages"
    unfolding fresh_or_same_def
  proof (intro ballI, unfold split_paired_all prod.case, intro allI impI)
    fix d p q
    assume "(d, p) \<in> set pages" "stored_pages env (content (es_etcd s)) d = Some q"
    then have p: "p \<in> X" "d = page_address env p" and q: "page_address env q = d" "q \<in> ran (stored_pages env (content (es_etcd s)))"
      using assms(4) unfolding pages_ok_def by (blast, blast, simp add: stored_address, auto simp: ran_def)
    show "q = p"
    proof (rule inj_onD [OF assms(5)])
      show "page_address env q = page_address env p" using p(2) q(1) by simp
    qed (use p q in auto)
  qed
  then show ?thesis
    using persist_from_ok [OF assms(1-3), of X "[]" pages 0] assms(4) by (simp add: persist_pages_def)
qed

text \<open>The pages in the service together with those a unit has collected.\<close>

lemma held_page:
  assumes "cache_ok env content s" and "pages_ok env X pages"
    and inj: "inj_on (page_address env) (X \<union> ran (stored_pages env (content (es_etcd s))))" and "p \<in> X"
    and "map_of (es_cache s) (page_address env p) \<noteq> None \<or> map_of pages (page_address env p) = Some p"
  shows "(stored_pages env (content (es_etcd s)) ++ map_of pages) (page_address env p) = Some p"
proof (cases "map_of pages (page_address env p)")
  case None
  with assms(5) obtain q where "map_of (es_cache s) (page_address env p) = Some q" by auto
  then have q: "stored_pages env (content (es_etcd s)) (page_address env p) = Some q"
    using assms(1) by (auto simp: cache_ok_def dest: map_of_SomeD)
  have "q = p"
  proof (rule inj_onD [OF inj])
    show "page_address env q = page_address env p" using stored_address [OF q] .
  qed (use q assms(4) in \<open>auto simp: ran_def\<close>)
  with None q show ?thesis by (simp add: map_add_def)
next
  case (Some q)
  then have "(page_address env p, q) \<in> set pages" by (rule map_of_SomeD)
  then have q: "page_address env p = page_address env q" "q \<in> X" using assms(2) unfolding pages_ok_def by blast+
  have "q = p"
  proof (rule inj_onD [OF inj])
    show "page_address env q = page_address env p" using q(1) by simp
  qed (use q assms(4) in auto)
  with Some show ?thesis by (simp add: map_add_def)
qed

end
