(* ===== verification/Etcd_Unit.thy ===== *)
theory Etcd_Unit
  imports Etcd_Pages
begin

text \<open>
  The unit of work over the pages of etcd (\<^verbatim>\<open>EtcdUnit\<close> of \<^verbatim>\<open>control/etcd_metadata.py\<close>). The root is a dictionary of kinds,
  each a dictionary from shards to buckets, each a dictionary from identifiers to rows; a bucket is loaded when it is
  first needed, writes wait in \<open>eu_pending\<close>, and \<open>unit_flush\<close> writes new rows, buckets and a new root. Rows that etcd
  keeps alive by a lease (open sessions, handles, locks and registrations of DataNodes) are read and
  deleted here; the branch of \<^verbatim>\<open>put\<close> that grants and renews their leases is not modelled, as their deadlines
  are numbers with a fraction.
\<close>

section \<open>Reading\<close>

definition shard_of :: "'e etcd_env \<Rightarrow> string \<Rightarrow> string" where
  "shard_of env identity = take 2 (ee_sha256 env identity)"

text \<open>\<^verbatim>\<open>d.get(k, {})\<close> where a dictionary is expected, and \<^verbatim>\<open>d.get(k)\<close> where a digest is.\<close>

definition child_dict :: "dict \<Rightarrow> string \<Rightarrow> dict res" where
  "child_dict d k = (case map_of d k of None \<Rightarrow> Inr [] | Some (JObj e) \<Rightarrow> Inr e | Some _ \<Rightarrow> Inl AttributeError)"

definition digest_at :: "dict \<Rightarrow> string \<Rightarrow> string option res" where
  "digest_at d k =
     (case map_of d k of None \<Rightarrow> Inr None | Some (JStr i) \<Rightarrow> Inr (Some i) | Some JNull \<Rightarrow> Inr None | Some _ \<Rightarrow> Inl AttributeError)"

definition of_unit :: "(etcd_unit \<Rightarrow> 'a) \<Rightarrow> ('e, 'a) on_etcd" where
  "of_unit f = (\<lambda>s. case es_unit s of Some u \<Rightarrow> (Inr (f u), s) | None \<Rightarrow> (Inl AttributeError, s))"

definition open_bucket :: "'e etcd_env \<Rightarrow> string \<Rightarrow> string \<Rightarrow> ('e, dict) on_etcd" where
  "open_bucket env kind shard =
     bindm (of_unit (\<lambda>u. eu_buckets u (kind, shard))) (\<lambda>known.
     case known of
       Some b \<Rightarrow> retm b
     | None \<Rightarrow>
         bindm (of_unit eu_root) (\<lambda>root.
         bindm (liftm (bindr (child_dict root kind) (\<lambda>shards. digest_at shards shard))) (\<lambda>digest.
         bindm (read_object env digest) (\<lambda>v.
         case v of
           JObj b \<Rightarrow> bindm (set_unit (\<lambda>u. u\<lparr>eu_buckets := (eu_buckets u)((kind, shard) \<mapsto> b)\<rparr>)) (\<lambda>_. retm b)
         | _ \<Rightarrow> raisem AttributeError))))"

definition bucket :: "'e etcd_env \<Rightarrow> string \<Rightarrow> string \<Rightarrow> ('e, dict) on_etcd" where
  "bucket env kind identity = open_bucket env kind (shard_of env identity)"

definition unit_get :: "'e etcd_env \<Rightarrow> string \<Rightarrow> string option \<Rightarrow> ('e, json option) on_etcd" where
  "unit_get env kind identity =
     (case identity of
        None \<Rightarrow> retm None
      | Some i \<Rightarrow>
          bindm (of_unit (\<lambda>u. map_of (eu_pending u) (kind, i))) (\<lambda>waiting.
          case waiting of
            Some v \<Rightarrow> retm (map_option JObj v)
          | None \<Rightarrow>
              bindm (bucket env kind i) (\<lambda>b.
              bindm (liftm (digest_at b i)) (\<lambda>digest.
              if digest = None \<or> digest = Some [] then retm None
              else bindm (read_object env digest) (\<lambda>v. retm (Some v))))))"

definition sorted_texts :: "string list \<Rightarrow> string list" where
  "sorted_texts xs = sort (remdups xs)"

definition present :: "'a option list \<Rightarrow> 'a list" where
  "present vs = map the (filter (\<lambda>v. v \<noteq> None) vs)"

definition unit_all :: "'e etcd_env \<Rightarrow> string \<Rightarrow> ('e, json list) on_etcd" where
  "unit_all env kind =
     bindm (of_unit eu_root) (\<lambda>root.
     bindm (liftm (child_dict root kind)) (\<lambda>shards.
     bindm (mapm (\<lambda>(shard, _). bindm (open_bucket env kind shard) (\<lambda>b. retm (map fst b))) shards) (\<lambda>found.
     bindm (of_unit eu_pending) (\<lambda>pending.
     let waiting = map (snd \<circ> fst) (filter (\<lambda>((k, _), _). k = kind) pending) in
     bindm (mapm (\<lambda>i. unit_get env kind (Some i)) (sorted_texts (concat found @ waiting))) (\<lambda>vs.
     retm (present vs))))))"

definition truthy :: "json option \<Rightarrow> bool" where
  "truthy v = (case v of
     None \<Rightarrow> False | Some JNull \<Rightarrow> False | Some (JBool b) \<Rightarrow> b | Some (JInt n) \<Rightarrow> n \<noteq> 0
   | Some (JStr t) \<Rightarrow> t \<noteq> [] | Some (JArr vs) \<Rightarrow> vs \<noteq> [] | Some (JObj d) \<Rightarrow> d \<noteq> [])"

definition live_child :: "string \<Rightarrow> json \<Rightarrow> bool res" where
  "live_child parent v =
     (case v of JObj d \<Rightarrow> Inr (truthy (map_of d ''alive'') \<and> map_of d ''parent'' = Some (JStr parent)) | _ \<Rightarrow> Inl AttributeError)"

definition unit_children :: "'e etcd_env \<Rightarrow> string \<Rightarrow> ('e, json list) on_etcd" where
  "unit_children env parent =
     bindm (unit_all env ''node'') (\<lambda>vs.
     bindm (liftm (map_res (live_child parent) vs)) (\<lambda>keep.
     liftm (by_name (map fst (filter snd (zip vs keep))))))"

section \<open>Leases of rows\<close>

text \<open>The lease key of a row; \<open>None\<close> where it has none or an empty one.\<close>

definition lease_key :: "dict \<Rightarrow> string option" where
  "lease_key v = (case map_of v ''lease_key'' of Some (JStr k) \<Rightarrow> if k = [] then None else Some k | _ \<Rightarrow> None)"

definition unit_part :: "'a \<Rightarrow> (etcd_unit \<Rightarrow> 'a) \<Rightarrow> ('e, 'a) on_etcd" where
  "unit_part none f = getm (\<lambda>s. case es_unit s of Some u \<Rightarrow> f u | None \<Rightarrow> none)"

definition lease_live :: "'e etcd_env \<Rightarrow> dict \<Rightarrow> ('e, bool) on_etcd" where
  "lease_live env v =
     (case lease_key v of
        None \<Rightarrow> retm False
      | Some key \<Rightarrow>
          bindm (unit_part None (\<lambda>u. map_of (eu_effects u) key)) (\<lambda>effect.
          case effect of
            Some (Put_Key _ owner _) \<Rightarrow> liftm (somer (map_of v ''lease_owner'') KeyError (\<lambda>holder. Inr (JStr owner = holder)))
          | _ \<Rightarrow>
              bindm (unit_part None (\<lambda>u. map_of (eu_lease_reads u) key)) (\<lambda>known.
              bindm (case known of
                       Some r \<Rightarrow> retm r
                     | None \<Rightarrow>
                         bindm (etcd_range env key) (\<lambda>r.
                         bindm (set_unit (\<lambda>u. u\<lparr>eu_lease_reads := dict_put key r (eu_lease_reads u)\<rparr>)) (\<lambda>_. retm r)))
                (\<lambda>record.
              case record of
                None \<Rightarrow> retm False
              | Some r \<Rightarrow>
                  bindm (liftm (somer (map_of v ''lease_owner'') KeyError Inr)) (\<lambda>owner.
                  if JStr (kv_value r) = owner
                  then bindm (set_unit (\<lambda>u. u\<lparr>eu_guards := dict_put key (kv_value r) (eu_guards u)\<rparr>)) (\<lambda>_. retm True)
                  else retm False)))))"

section \<open>Writing\<close>

definition leased :: "string \<Rightarrow> dict \<Rightarrow> bool" where
  "leased kind v \<longleftrightarrow> kind \<in> {''lock'', ''handle'', ''datanode'', ''session''} \<and>
     \<not> truthy (map_of v ''closed'') \<and> \<not> truthy (map_of v ''revoked'')"

definition set_pending :: "string \<Rightarrow> string \<Rightarrow> dict option \<Rightarrow> ('e, unit) on_etcd" where
  "set_pending kind i v = set_unit (\<lambda>u. u\<lparr>eu_pending := dict_put (kind, i) v (eu_pending u)\<rparr>)"

text \<open>\<^verbatim>\<open>put\<close> of a row that is not kept by a lease.\<close>

definition put_unleased :: "string \<Rightarrow> dict \<Rightarrow> ('e, unit) on_etcd" where
  "put_unleased kind v =
     bindm (of_unit eu_write) (\<lambda>write.
     bindm (needm write PERMISSION_DENIED) (\<lambda>_.
     bindm (liftm (value_id v)) (\<lambda>i. set_pending kind i (Some v))))"

definition unit_delete :: "'e etcd_env \<Rightarrow> string \<Rightarrow> string \<Rightarrow> ('e, unit) on_etcd" where
  "unit_delete env kind i =
     bindm (of_unit eu_write) (\<lambda>write.
     bindm (needm write PERMISSION_DENIED) (\<lambda>_.
     bindm (unit_get env kind (Some i)) (\<lambda>previous.
     bindm (case previous of
              Some (JObj v) \<Rightarrow>
                (case lease_key v of
                   Some key \<Rightarrow> set_unit (\<lambda>u. u\<lparr>eu_effects := dict_put key (Delete_Key key) (eu_effects u)\<rparr>)
                 | None \<Rightarrow> retm ())
            | other \<Rightarrow> if truthy other then raisem AttributeError else retm ())
       (\<lambda>_. set_pending kind i None))))"

text \<open>A row of the bucket is replaced or removed; \<open>False\<close> where it is as it was.\<close>

definition flush_row :: "'e etcd_env \<Rightarrow> (string \<times> string) \<times> dict option \<Rightarrow> ('e, bool) on_etcd" where
  "flush_row env entry = (case entry of ((kind, i), v) \<Rightarrow>
     bindm (bucket env kind i) (\<lambda>b.
     bindm (case v of None \<Rightarrow> retm None | Some d \<Rightarrow> bindm (blob env (canonical (JObj d))) (\<lambda>digest. retm (Some digest))) (\<lambda>digest.
     if map_of b i = map_option JStr digest then retm False
     else
       let b' = (case digest of Some d \<Rightarrow> dict_put i (JStr d) b | None \<Rightarrow> filter (\<lambda>(j, _). j \<noteq> i) b) in
       bindm (set_unit (\<lambda>u. u\<lparr>eu_buckets := (eu_buckets u)((kind, shard_of env i) \<mapsto> b')\<rparr>)) (\<lambda>_. retm True))))"

text \<open>The changed buckets, in one of the orders a set may have.\<close>

definition flush_rows :: "'e etcd_env \<Rightarrow> ('e, (string \<times> string) list) on_etcd" where
  "flush_rows env =
     bindm (of_unit eu_pending) (\<lambda>pending.
     bindm (mapm (flush_row env) pending) (\<lambda>changed.
     retm (remdups (map (\<lambda>(((kind, i), _), _). (kind, shard_of env i)) (filter snd (zip pending changed))))))"

definition flush_bucket :: "'e etcd_env \<Rightarrow> string \<times> string \<Rightarrow> ('e, unit) on_etcd" where
  "flush_bucket env key = (case key of (kind, shard) \<Rightarrow>
     bindm (of_unit (\<lambda>u. eu_buckets u (kind, shard))) (\<lambda>b.
     bindm (liftm (somer b KeyError Inr)) (\<lambda>b.
     bindm (blob env (canonical (JObj b))) (\<lambda>digest.
     bindm (of_unit eu_root) (\<lambda>root.
     bindm (liftm (child_dict root kind)) (\<lambda>shards.
     set_unit (\<lambda>u. u\<lparr>eu_root := dict_put kind (JObj (dict_put shard (JStr digest) shards)) root\<rparr>)))))))"

definition unit_flush :: "'e etcd_env \<Rightarrow> ('e, string) on_etcd" where
  "unit_flush env =
     bindm (flush_rows env) (\<lambda>changed.
     bindm (eachm (flush_bucket env) changed) (\<lambda>_.
     bindm (of_unit eu_root) (\<lambda>root. blob env (canonical (JObj root)))))"

section \<open>The steps of a unit of work\<close>

text \<open>A unit that raises is dropped with all it has collected.\<close>

definition settled :: "('s, 'a) act \<Rightarrow> 's \<Rightarrow> ('a \<times> 's) res" where
  "settled m s = (case m s of (Inl e, _) \<Rightarrow> Inl e | (Inr x, t) \<Rightarrow> Inr (x, t))"

definition changed_state :: "('s, unit) act \<Rightarrow> 's \<Rightarrow> 's res" where
  "changed_state m s = (case m s of (Inl e, _) \<Rightarrow> Inl e | (Inr _, t) \<Rightarrow> Inr t)"

definition etcd_step :: "'e etcd_env \<Rightarrow> unit_op \<Rightarrow> 'e etcd_state \<Rightarrow> (answer \<times> 'e etcd_state) res" where
  "etcd_step env = unit_step (\<lambda>k i. settled (unit_get env k (Some i))) (\<lambda>k. settled (unit_all env k))
     (\<lambda>p. settled (unit_children env p)) (\<lambda>k v. changed_state (put_unleased k v)) (\<lambda>k i. changed_state (unit_delete env k i))"

section \<open>Actions that give a value\<close>

definition gives :: "('s \<Rightarrow> bool) \<Rightarrow> ('s, 'a) act \<Rightarrow> 'a \<Rightarrow> bool" where
  "gives P m x \<longleftrightarrow> (\<forall>s. P s \<longrightarrow> (\<exists>t. m s = (Inr x, t) \<and> P t))"

named_theorems giving "rules for actions that give a value"

lemma givesD: "gives P m x \<Longrightarrow> P s \<Longrightarrow> \<exists>t. m s = (Inr x, t) \<and> P t"
  by (simp add: gives_def)

lemma gives_retm [giving]: "gives P (retm x) x"
  by (simp add: gives_def)

lemma gives_liftm [giving]: "r = Inr x \<Longrightarrow> gives P (liftm r) x"
  by (simp add: gives_def)

lemma gives_bindm: "gives P m x \<Longrightarrow> gives P (f x) y \<Longrightarrow> gives P (bindm m f) y"
  unfolding gives_def by (metis bindm_run(1))

lemma gives_of_unit: "(\<And>s. P s \<Longrightarrow> \<exists>u. es_unit s = Some u \<and> f u = x) \<Longrightarrow> gives P (of_unit f) x"
  unfolding gives_def of_unit_def by fastforce

lemma gives_mapm: "list_all2 (\<lambda>x y. gives P (f x) y) xs ys \<Longrightarrow> gives P (mapm f xs) ys"
proof (induction rule: list_all2_induct)
  case (Cons x xs y ys)
  have "gives P (bindm (f x) (\<lambda>y. bindm (mapm f xs) (\<lambda>ys. retm (y # ys)))) (y # ys)"
    by (rule gives_bindm [OF Cons.hyps(1) gives_bindm [OF Cons.IH gives_retm]])
  then show ?case by simp
qed (simp add: gives_def)

section \<open>Rows in pages\<close>

definition object_at :: "(string \<Rightarrow> string option) \<Rightarrow> string \<Rightarrow> json \<Rightarrow> bool" where
  "object_at G d v \<longleftrightarrow> d \<noteq> [] \<and> (\<exists>text. text_at G READ_DEPTH d text \<and> loads text = Some v)"

lemma object_at_mono: "object_at G d v \<Longrightarrow> (\<And>d p. G d = Some p \<Longrightarrow> G' d = Some p) \<Longrightarrow> object_at G' d v"
  unfolding object_at_def by (metis text_at_mono order_refl)

text \<open>The buckets \<open>bk\<close> that a root leads to, and the rows \<open>base\<close> that the buckets lead to.\<close>

definition root_at :: "(string \<Rightarrow> string option) \<Rightarrow> dict \<Rightarrow> (string \<times> string \<Rightarrow> dict) \<Rightarrow> bool" where
  "root_at G rt bk \<longleftrightarrow> json_wf (\<lambda>_. True) (JObj rt) \<and> (\<forall>kind. \<exists>shards. child_dict rt kind = Inr shards \<and>
     (\<forall>shard. case map_of shards shard of None \<Rightarrow> bk (kind, shard) = []
        | Some x \<Rightarrow> \<exists>d. x = JStr d \<and> object_at G d (JObj (bk (kind, shard)))))"

definition buckets_at :: "'e etcd_env \<Rightarrow> (string \<Rightarrow> string option) \<Rightarrow> (string \<times> string \<Rightarrow> dict) \<Rightarrow> rows \<Rightarrow> bool" where
  "buckets_at env G bk base \<longleftrightarrow> (\<forall>kind shard. distinct (map fst (bk (kind, shard))) \<and>
     (\<forall>i x. map_of (bk (kind, shard)) i = Some x \<longrightarrow> shard = shard_of env i \<and>
        (\<exists>d v. x = JStr d \<and> object_at G d v \<and> tget (base kind) i = Some v))) \<and>
     (\<forall>kind i v. tget (base kind) i = Some v \<longrightarrow> map_of (bk (kind, shard_of env i)) i \<noteq> None)"

text \<open>
  A state in which the unit \<open>u\<close> is open on such a tree, and the buckets it has loaded are those of the tree; \<open>view\<close> is what the service holds.
\<close>

definition opened :: "'e etcd_env \<Rightarrow> ('e \<Rightarrow> string \<Rightarrow> string option) \<Rightarrow> (string \<Rightarrow> string option) \<Rightarrow> etcd_unit \<Rightarrow>
    (string \<times> string \<Rightarrow> dict) \<Rightarrow> 'e etcd_state \<Rightarrow> bool" where
  "opened env content view u bk s \<longleftrightarrow> serving env content \<and> cache_ok env content s \<and> content (es_etcd s) = view \<and>
     root_at (stored_pages env view) (eu_root u) bk \<and>
     (\<exists>B. es_unit s = Some (u\<lparr>eu_buckets := B\<rparr>) \<and> (\<forall>key b. B key = Some b \<longrightarrow> b = bk key))"

lemma opened_unit: "opened env content view u bk s \<Longrightarrow> \<exists>B. es_unit s = Some (u\<lparr>eu_buckets := B\<rparr>)"
  by (auto simp: opened_def)

lemma gives_part:
  assumes "\<And>B. f (u\<lparr>eu_buckets := B\<rparr>) = f u"
  shows "gives (opened env content view u bk) (of_unit f) (f u)"
  by (rule gives_of_unit) (use assms in \<open>auto dest: opened_unit\<close>)

lemma opened_read: "opened env content view u bk s \<Longrightarrow> only_read env content s t \<Longrightarrow> opened env content view u bk t"
  by (auto simp: opened_def only_readD)

lemma read_object_ok:
  assumes "object_at (stored_pages env (content (es_etcd s))) d v" and "serving env content" and "cache_ok env content s"
  shows "\<exists>t. read_object env (Some d) s = (Inr v, t) \<and> only_read env content s t"
proof -
  obtain b where b: "text_at (stored_pages env (content (es_etcd s))) READ_DEPTH d b" "loads b = Some v" "d \<noteq> []"
    using assms(1) by (auto simp: object_at_def)
  obtain t where "read_blob env READ_DEPTH d s = (Inr b, t)" "only_read env content s t"
    using read_blob_ok [where content = content, OF b(1)] assms(2,3) by blast
  with b show ?thesis by (auto simp: read_object_def bindm_def)
qed

lemma gives_object:
  assumes "object_at (stored_pages env view) d v"
  shows "gives (opened env content view u bk) (read_object env (Some d)) v"
  unfolding gives_def
proof (intro allI impI)
  fix s
  assume s: "opened env content view u bk s"
  with assms have "object_at (stored_pages env (content (es_etcd s))) d v" by (simp add: opened_def)
  moreover have "serving env content" "cache_ok env content s" using s by (simp_all add: opened_def)
  ultimately obtain t where "read_object env (Some d) s = (Inr v, t)" "only_read env content s t"
    using read_object_ok by blast
  with s show "\<exists>t. read_object env (Some d) s = (Inr v, t) \<and> opened env content view u bk t" by (auto intro: opened_read)
qed

text \<open>The buckets as they are in a unit: those it has loaded, or changed, and those of the tree \<open>bk\<close>.\<close>

definition current :: "(string \<times> string \<Rightarrow> dict) \<Rightarrow> etcd_unit \<Rightarrow> string \<times> string \<Rightarrow> dict" where
  "current bk w key = (case eu_buckets w key of Some b \<Rightarrow> b | None \<Rightarrow> bk key)"

lemma open_bucket_ok:
  assumes "serving env content" and "cache_ok env content s" and w: "es_unit s = Some w"
    and rt: "root_at (stored_pages env (content (es_etcd s))) (eu_root w) bk"
  shows "\<exists>t. open_bucket env kind shard s = (Inr (current bk w (kind, shard)), t) \<and> cache_ok env content t \<and>
     content (es_etcd t) = content (es_etcd s) \<and>
     es_unit t = Some (w\<lparr>eu_buckets := (eu_buckets w)((kind, shard) \<mapsto> current bk w (kind, shard))\<rparr>)"
proof (cases "eu_buckets w (kind, shard)")
  case (Some b)
  then have "(eu_buckets w)((kind, shard) \<mapsto> b) = eu_buckets w" by auto
  then have "w = w\<lparr>eu_buckets := (eu_buckets w)((kind, shard) \<mapsto> b)\<rparr>" by simp
  moreover have "open_bucket env kind shard s = (Inr b, s)" by (simp add: open_bucket_def bindm_def of_unit_def w Some)
  ultimately show ?thesis using assms(2) w Some by (auto simp: current_def)
next
  case None
  from rt obtain shards where shards: "child_dict (eu_root w) kind = Inr shards" and shard: "case map_of shards shard of None \<Rightarrow> bk (kind, shard) = []
        | Some x \<Rightarrow> \<exists>d. x = JStr d \<and> object_at (stored_pages env (content (es_etcd s))) d (JObj (bk (kind, shard)))"
    unfolding root_at_def by blast
  have "\<exists>digest t. digest_at shards shard = Inr digest \<and> read_object env digest s = (Inr (JObj (bk (kind, shard))), t) \<and> only_read env content s t"
  proof (cases "map_of shards shard")
    case None
    with shard assms(2) show ?thesis by (simp add: digest_at_def read_object_def only_read_refl)
  next
    case (Some x)
    with shard obtain d where x: "x = JStr d" "object_at (stored_pages env (content (es_etcd s))) d (JObj (bk (kind, shard)))" by auto
    with Some read_object_ok [OF x(2) assms(1,2)] show ?thesis by (simp add: digest_at_def)
  qed
  then obtain digest t where t: "digest_at shards shard = Inr digest" "read_object env digest s = (Inr (JObj (bk (kind, shard))), t)"
      "only_read env content s t" by blast
  let ?t = "t\<lparr>es_unit := Some (w\<lparr>eu_buckets := (eu_buckets w)((kind, shard) \<mapsto> bk (kind, shard))\<rparr>)\<rparr>"
  have "open_bucket env kind shard s = (Inr (bk (kind, shard)), ?t)"
    using None shards t only_readD(3) [OF t(3)] by (simp add: open_bucket_def bindm_def of_unit_def set_unit_def w)
  with None t(3) show ?thesis by (auto simp: current_def only_readD)
qed

lemma gives_bucket: "gives (opened env content view u bk) (open_bucket env kind shard) (bk (kind, shard))"
  unfolding gives_def
proof (intro allI impI)
  fix s
  assume s: "opened env content view u bk s"
  then have base: "serving env content" "cache_ok env content s" "content (es_etcd s) = view" "root_at (stored_pages env view) (eu_root u) bk"
    by (simp_all add: opened_def)
  obtain B where B: "es_unit s = Some (u\<lparr>eu_buckets := B\<rparr>)" "\<And>key b. B key = Some b \<Longrightarrow> b = bk key"
    using s by (auto simp: opened_def)
  then have here: "current bk (u\<lparr>eu_buckets := B\<rparr>) (kind, shard) = bk (kind, shard)"
    by (cases "B (kind, shard)") (simp_all add: current_def)
  have "root_at (stored_pages env (content (es_etcd s))) (eu_root (u\<lparr>eu_buckets := B\<rparr>)) bk" using base(3,4) by simp
  from open_bucket_ok [OF base(1,2) B(1) this, of kind shard] obtain t where
    t: "open_bucket env kind shard s = (Inr (bk (kind, shard)), t)" "cache_ok env content t" "content (es_etcd t) = view"
      "es_unit t = Some (u\<lparr>eu_buckets := B((kind, shard) \<mapsto> bk (kind, shard))\<rparr>)"
    unfolding here base(3) by auto
  have "b = bk key" if "(B((kind, shard) \<mapsto> bk (kind, shard))) key = Some b" for key b
    using that B(2) [of key b] by (cases "key = (kind, shard)") simp_all
  then have "opened env content view u bk t" unfolding opened_def using t(2-4) base(1,4) by blast
  with t(1) show "\<exists>t. open_bucket env kind shard s = (Inr (bk (kind, shard)), t) \<and> opened env content view u bk t" by blast
qed

section \<open>The unit against tables of rows\<close>

text \<open>What may be stored: a row of the kind \<open>put_unleased\<close> is for, whose flag of life is a truth value.\<close>

definition fitting :: "string \<Rightarrow> dict \<Rightarrow> bool" where
  "fitting kind v \<longleftrightarrow> \<not> leased kind v \<and> json_wf (\<lambda>_. True) (JObj v) \<and>
     (case map_of v ''alive'' of None \<Rightarrow> True | Some x \<Rightarrow> \<exists>b. x = JBool b)"

definition row_fine :: "json \<Rightarrow> bool" where
  "row_fine v \<longleftrightarrow> (\<exists>d. v = JObj d \<and> (case map_of d ''alive'' of None \<Rightarrow> True | Some x \<Rightarrow> \<exists>b. x = JBool b))"

text \<open>The tables \<open>a\<close> that the pending writes of \<open>u\<close> make of the stored tables \<open>base\<close>.\<close>

definition overlaid :: "etcd_unit \<Rightarrow> rows \<Rightarrow> rows \<Rightarrow> bool" where
  "overlaid u base a \<longleftrightarrow> (\<forall>k i. tget (a k) i = (case map_of (eu_pending u) (k, i) of Some v \<Rightarrow> map_option JObj v | None \<Rightarrow> tget (base k) i))"

definition pending_ok :: "etcd_unit \<Rightarrow> bool" where
  "pending_ok u \<longleftrightarrow> distinct (map fst (eu_pending u)) \<and> (\<forall>(key, v) \<in> set (eu_pending u). \<forall>d. v = Some d \<longrightarrow> json_wf (\<lambda>_. True) (JObj d))"

text \<open>A writing unit \<open>u\<close> on the tree of buckets \<open>bk\<close>, whose rows are \<open>a\<close>.\<close>

definition unit_at :: "'e etcd_env \<Rightarrow> (string \<Rightarrow> string option) \<Rightarrow> etcd_unit \<Rightarrow> (string \<times> string \<Rightarrow> dict) \<Rightarrow> rows \<Rightarrow> rows \<Rightarrow> bool" where
  "unit_at env view u bk base a \<longleftrightarrow> eu_write u \<and> pending_ok u \<and> eu_pages u = [] \<and> buckets_at env (stored_pages env view) bk base \<and> overlaid u base a \<and>
     (\<forall>k i v. tget (a k) i = Some v \<longrightarrow> row_fine v)"

definition unit_holds :: "'e etcd_env \<Rightarrow> ('e \<Rightarrow> string \<Rightarrow> string option) \<Rightarrow> 'e etcd_state \<Rightarrow> rows \<Rightarrow> bool" where
  "unit_holds env content s a \<longleftrightarrow> (\<exists>view u bk base. opened env content view u bk s \<and> unit_at env view u bk base a)"

lemma row_found:
  assumes "buckets_at env G bk base"
  shows "case tget (base k) i of
      None \<Rightarrow> digest_at (bk (k, shard_of env i)) i = Inr None
    | Some v \<Rightarrow> \<exists>d. digest_at (bk (k, shard_of env i)) i = Inr (Some d) \<and> object_at G d v"
proof (cases "map_of (bk (k, shard_of env i)) i")
  case None
  then have "tget (base k) i = None" using assms unfolding buckets_at_def by (metis not_Some_eq)
  with None show ?thesis by (simp add: digest_at_def)
next
  case (Some x)
  then obtain d v where "x = JStr d" "object_at G d v" "tget (base k) i = Some v"
    using assms unfolding buckets_at_def by blast
  with Some show ?thesis by (simp add: digest_at_def)
qed

lemma gives_get:
  assumes at: "unit_at env view u bk base a"
  shows "gives (opened env content view u bk) (unit_get env k (Some i)) (tget (a k) i)"
proof -
  let ?P = "opened env content view u bk"
  have row: "tget (a k) i = (case map_of (eu_pending u) (k, i) of Some v \<Rightarrow> map_option JObj v | None \<Rightarrow> tget (base k) i)"
    and tree: "buckets_at env (stored_pages env view) bk base"
    using at by (simp_all add: unit_at_def overlaid_def)
  have waiting: "gives ?P (of_unit (\<lambda>u. map_of (eu_pending u) (k, i))) (map_of (eu_pending u) (k, i))"
    by (rule gives_part) simp
  have bucket: "gives ?P (bucket env k i) (bk (k, shard_of env i))" unfolding bucket_def by (rule gives_bucket)
  show ?thesis
  proof (cases "map_of (eu_pending u) (k, i)")
    case (Some v)
    have "gives ?P (unit_get env k (Some i)) (map_option JObj v)"
      unfolding unit_get_def option.case by (rule gives_bindm [OF waiting]) (simp add: Some gives_retm del: act_simps)
    with Some row show ?thesis by simp
  next
    case None
    show ?thesis
    proof (cases "tget (base k) i")
      case none: None
      then have "digest_at (bk (k, shard_of env i)) i = Inr None" using row_found [OF tree, of k i] by simp
      then have "gives ?P (unit_get env k (Some i)) None"
        unfolding unit_get_def option.case
        by (intro gives_bindm [OF waiting]) (auto simp: None simp del: act_simps intro!: gives_bindm [OF bucket] gives_bindm [OF gives_liftm] gives_retm)
      with none None row show ?thesis by simp
    next
      case (Some v)
      then obtain d where d: "digest_at (bk (k, shard_of env i)) i = Inr (Some d)" "object_at (stored_pages env view) d v"
        using row_found [OF tree, of k i] by auto
      have "d \<noteq> []" using d(2) by (simp add: object_at_def)
      with d have "gives ?P (unit_get env k (Some i)) (Some v)"
        unfolding unit_get_def option.case
        by (intro gives_bindm [OF waiting])
          (auto simp: None simp del: act_simps intro!: gives_bindm [OF bucket] gives_bindm [OF gives_liftm] gives_bindm [OF gives_object] gives_retm)
      with Some None row show ?thesis by simp
    qed
  qed
qed

lemma present_map: "present (map f xs) = map (the \<circ> f) (filter (\<lambda>x. f x \<noteq> None) xs)"
  by (induction xs) (simp_all add: present_def)

lemma tall_of_keys:
  assumes "sorted xs" and "distinct xs" and "\<And>i. tget t i \<noteq> None \<Longrightarrow> i \<in> set xs"
  shows "present (map (tget t) xs) = tall t"
proof -
  let ?ks = "filter (\<lambda>i. tget t i \<noteq> None) xs"
  have "set ?ks = set (map fst (trows t))" using assms(3) by (auto simp: trows_keys)
  moreover have "sorted_wrt (<) ?ks" using assms(1,2) by (simp add: strict_sorted_iff sorted_wrt_filter)
  ultimately have keys: "?ks = map fst (trows t)" using sorted_trows by (intro strict_sorted_equal) simp_all
  have "map (the \<circ> tget t) (map fst (trows t)) = map snd (trows t)"
    by (auto simp: in_trows_iff)
  with keys show ?thesis by (simp add: present_map tall_trows)
qed

lemma gives_all:
  assumes at: "unit_at env view u bk base a" and rt: "root_at (stored_pages env view) (eu_root u) bk"
  shows "gives (opened env content view u bk) (unit_all env k) (tall (a k))"
proof -
  let ?P = "opened env content view u bk"
  obtain shards where shards: "child_dict (eu_root u) k = Inr shards" and shard: "\<And>shard. case map_of shards shard of None \<Rightarrow> bk (k, shard) = []
        | Some x \<Rightarrow> \<exists>d. x = JStr d \<and> object_at (stored_pages env view) d (JObj (bk (k, shard)))"
    using rt unfolding root_at_def by blast
  have empty: "bk (k, shard) = []" if "map_of shards shard = None" for shard
    using shard [of shard] that by simp
  let ?found = "map (\<lambda>(shard, _). map fst (bk (k, shard))) shards"
    and ?waiting = "map (snd \<circ> fst) (filter (\<lambda>((kind, _), _). kind = k) (eu_pending u))"
  let ?ids = "sorted_texts (concat ?found @ ?waiting)"
  have one: "gives ?P (case x of (shard, d) \<Rightarrow> bindm (open_bucket env k shard) (\<lambda>b. retm (map fst b)))
      (case x of (shard, d) \<Rightarrow> map fst (bk (k, shard)))" for x :: "string \<times> json"
    by (cases x) (simp add: gives_bindm [OF gives_bucket gives_retm] del: act_simps)
  have buckets: "gives ?P (mapm (\<lambda>(shard, _). bindm (open_bucket env k shard) (\<lambda>b. retm (map fst b))) shards) ?found"
    by (rule gives_mapm) (simp add: list_all2_conv_all_nth one)
  have rows: "gives ?P (mapm (\<lambda>i. unit_get env k (Some i)) ?ids) (map (tget (a k)) ?ids)"
    by (rule gives_mapm) (simp add: list_all2_conv_all_nth gives_get [OF at])
  have "gives ?P (unit_all env k) (present (map (tget (a k)) ?ids))"
    unfolding unit_all_def Let_def
    by (rule gives_bindm [OF gives_part], simp, rule gives_bindm [OF gives_liftm [OF shards]], rule gives_bindm [OF buckets],
      rule gives_bindm [OF gives_part], simp, rule gives_bindm [OF rows], rule gives_retm)
  moreover have "i \<in> set ?ids" if "tget (a k) i \<noteq> None" for i
  proof (cases "map_of (eu_pending u) (k, i)")
    case (Some v)
    then have "((k, i), v) \<in> set (eu_pending u)" by (rule map_of_SomeD)
    then show ?thesis by (force simp: sorted_texts_def)
  next
    case None
    then have "tget (base k) i \<noteq> None" using at that by (simp add: unit_at_def overlaid_def)
    then have i: "map_of (bk (k, shard_of env i)) i \<noteq> None" using at unfolding unit_at_def buckets_at_def by blast
    then have "map_of shards (shard_of env i) \<noteq> None" using empty by force
    then obtain d where "(shard_of env i, d) \<in> set shards" by (auto dest: map_of_SomeD)
    moreover have "i \<in> fst ` set (bk (k, shard_of env i))" using i by (simp add: map_of_eq_None_iff)
    ultimately show ?thesis by (force simp: sorted_texts_def)
  qed
  then have "present (map (tget (a k)) ?ids) = tall (a k)"
    by (intro tall_of_keys) (simp_all add: sorted_texts_def)
  ultimately show ?thesis by simp
qed

lemma live_child_fine: "row_fine v \<Longrightarrow> live_child p v = Inr (child_of p v)"
  by (auto simp: row_fine_def live_child_def child_of_def truthy_def alive_def text_field_def split: option.splits json.splits)

lemma children_fine:
  assumes "\<forall>v \<in> set vs. row_fine v"
  shows "map_res (live_child p) vs = Inr (map (child_of p) vs)"
  using assms by (simp add: map_res_Inr list_all2_conv_all_nth live_child_fine)

lemma filter_zip_map: "map fst (filter snd (zip vs (map f vs))) = filter f vs"
  by (induction vs) simp_all

lemma opened_modify:
  assumes "opened env content view u bk s" and "\<And>B. f (u\<lparr>eu_buckets := B\<rparr>) = (f u)\<lparr>eu_buckets := B\<rparr>" and "eu_root (f u) = eu_root u"
  shows "\<exists>t. set_unit f s = (Inr (), t) \<and> opened env content view (f u) bk t"
proof -
  obtain B where B: "es_unit s = Some (u\<lparr>eu_buckets := B\<rparr>)" "\<forall>key b. B key = Some b \<longrightarrow> b = bk key"
    using assms(1) unfolding opened_def by blast
  let ?t = "s\<lparr>es_unit := Some ((f u)\<lparr>eu_buckets := B\<rparr>)\<rparr>"
  have "set_unit f s = (Inr (), ?t)" by (simp add: set_unit_def B(1) assms(2))
  moreover have "serving env content" "cache_ok env content s" "content (es_etcd s) = view" "root_at (stored_pages env view) (eu_root u) bk"
    using assms(1) by (simp_all add: opened_def)
  then have "opened env content view (f u) bk ?t"
    unfolding opened_def using B(2) by (intro conjI exI [of _ B]) (simp_all add: assms(3))
  ultimately show ?thesis by blast
qed

definition add_pending :: "string \<Rightarrow> string \<Rightarrow> dict option \<Rightarrow> etcd_unit \<Rightarrow> etcd_unit" where
  "add_pending kind i v u = u\<lparr>eu_pending := dict_put (kind, i) v (eu_pending u)\<rparr>"

lemma unit_at_pending:
  assumes "unit_at env view u bk base a" and "v = None \<or> (\<exists>d. v = Some d \<and> json_wf (\<lambda>_. True) (JObj d) \<and> row_fine (JObj d))"
  shows "unit_at env view (add_pending k i v u) bk base (a(k := (case v of None \<Rightarrow> tdel i (a k) | Some d \<Rightarrow> tput i (JObj d) (a k))))"
proof -
  have "pending_ok (add_pending k i v u)"
    unfolding pending_ok_def
  proof
    have old: "pending_ok u" using assms(1) by (simp add: unit_at_def)
    then show "distinct (map fst (eu_pending (add_pending k i v u)))" by (simp add: add_pending_def pending_ok_def distinct_dict_put)
    show "\<forall>(key, v) \<in> set (eu_pending (add_pending k i v u)). \<forall>d. v = Some d \<longrightarrow> json_wf (\<lambda>_. True) (JObj d)"
    proof (intro ballI, unfold split_paired_all prod.case, intro allI impI)
      fix k' i' w d
      assume "((k', i'), w) \<in> set (eu_pending (add_pending k i v u))" and w: "w = Some d"
      then have "w = v \<or> ((k', i'), w) \<in> set (eu_pending u)"
        using set_dict_put [of "(k, i)" v "eu_pending u"] by (auto simp: add_pending_def)
      with w old assms(2) show "json_wf (\<lambda>_. True) (JObj d)" unfolding pending_ok_def by blast
    qed
  qed
  moreover have "overlaid (add_pending k i v u) base (a(k := (case v of None \<Rightarrow> tdel i (a k) | Some d \<Rightarrow> tput i (JObj d) (a k))))"
    using assms(1) by (auto simp: unit_at_def overlaid_def add_pending_def split: option.split)
  ultimately show ?thesis
    using assms by (auto simp: unit_at_def add_pending_def split: option.splits if_splits)
qed

lemma pending_kept: "opened env content view u bk s \<Longrightarrow>
    \<exists>t. set_pending k i v s = (Inr (), t) \<and> opened env content view (add_pending k i v u) bk t"
  unfolding set_pending_def add_pending_def by (rule opened_modify) simp_all

lemma gives_write:
  assumes "unit_at env view u bk base a"
  shows "gives (opened env content view u bk) (of_unit eu_write) True"
proof -
  have "eu_write u = True" using assms by (simp add: unit_at_def)
  then show ?thesis using gives_part [of eu_write u env content view bk] by simp
qed

lemma put_law:
  assumes "unit_holds env content s a" and "fitting k v"
  shows "rel_sum (=) (unit_holds env content) (changed_state (put_unleased k v) s) (spec_put False k v a)"
proof -
  obtain view u bk base where s: "opened env content view u bk s" and at: "unit_at env view u bk base a"
    using assms(1) by (auto simp: unit_holds_def)
  obtain t where t: "of_unit eu_write s = (Inr True, t)" "opened env content view u bk t"
    using givesD [OF gives_write [OF at] s] by blast
  show ?thesis
  proof (cases "value_id v")
    case (Inl e)
    with t show ?thesis by (simp add: changed_state_def put_unleased_def bindm_def spec_put_def)
  next
    case (Inr i)
    obtain t' where t': "set_pending k i (Some v) t = (Inr (), t')" "opened env content view (add_pending k i (Some v) u) bk t'"
      using pending_kept [OF t(2)] by blast
    have "unit_at env view (add_pending k i (Some v) u) bk base (a(k := tput i (JObj v) (a k)))"
      using unit_at_pending [OF at, of "Some v" k i] assms(2) by (simp add: fitting_def row_fine_def)
    with t'(2) have "unit_holds env content t' (a(k := tput i (JObj v) (a k)))" unfolding unit_holds_def by blast
    with Inr t t'(1) show ?thesis by (simp add: changed_state_def put_unleased_def bindm_def spec_put_def)
  qed
qed

lemma del_law:
  assumes "unit_holds env content s a"
  shows "\<exists>t. changed_state (unit_delete env k i) s = Inr t \<and> unit_holds env content t (a(k := tdel i (a k)))"
proof -
  obtain view u bk base where s: "opened env content view u bk s" and at: "unit_at env view u bk base a"
    using assms(1) by (auto simp: unit_holds_def)
  obtain t where t: "of_unit eu_write s = (Inr True, t)" "opened env content view u bk t"
    using givesD [OF gives_write [OF at] s] by blast
  obtain t' where t': "unit_get env k (Some i) t = (Inr (tget (a k) i), t')" "opened env content view u bk t'"
    using givesD [OF gives_get [OF at] t(2)] by blast
  have "\<exists>t'' u''. (case tget (a k) i of
              Some (JObj v) \<Rightarrow>
                (case lease_key v of
                   Some key \<Rightarrow> set_unit (\<lambda>u. u\<lparr>eu_effects := dict_put key (Delete_Key key) (eu_effects u)\<rparr>)
                 | None \<Rightarrow> retm ())
            | other \<Rightarrow> if truthy other then raisem AttributeError else retm ()) t' = (Inr (), t'') \<and>
        opened env content view u'' bk t'' \<and> unit_at env view u'' bk base a"
  proof (cases "tget (a k) i")
    case None
    with t'(2) at show ?thesis by (auto simp: truthy_def)
  next
    case (Some x)
    with at have "row_fine x" unfolding unit_at_def by blast
    then obtain v where x: "x = JObj v" unfolding row_fine_def by blast
    show ?thesis
    proof (cases "lease_key v")
      case None
      with Some x t'(2) at show ?thesis by auto
    next
      case key: (Some key)
      let ?f = "\<lambda>u. u\<lparr>eu_effects := dict_put key (Delete_Key key) (eu_effects u)\<rparr>"
      obtain t'' where "set_unit ?f t' = (Inr (), t'')" "opened env content view (?f u) bk t''"
        using opened_modify [OF t'(2), of ?f] by auto
      moreover have "unit_at env view (?f u) bk base a" using at by (simp add: unit_at_def pending_ok_def overlaid_def)
      ultimately show ?thesis using Some x key by auto
    qed
  qed
  then obtain t'' u'' where t'': "(case tget (a k) i of
              Some (JObj v) \<Rightarrow>
                (case lease_key v of
                   Some key \<Rightarrow> set_unit (\<lambda>u. u\<lparr>eu_effects := dict_put key (Delete_Key key) (eu_effects u)\<rparr>)
                 | None \<Rightarrow> retm ())
            | other \<Rightarrow> if truthy other then raisem AttributeError else retm ()) t' = (Inr (), t'')"
        "opened env content view u'' bk t''" "unit_at env view u'' bk base a" by blast
  obtain w where w: "set_pending k i None t'' = (Inr (), w)" "opened env content view (add_pending k i None u'') bk w"
    using pending_kept [OF t''(2)] by blast
  have "unit_holds env content w (a(k := tdel i (a k)))"
    using w(2) unit_at_pending [OF t''(3), of None k i] unfolding unit_holds_def by auto
  moreover have "changed_state (unit_delete env k i) s = Inr w"
    by (simp only: changed_state_def unit_delete_def bindm_def t(1) needm_def if_True t'(1) t''(1) w(1) prod.case sum.case)
  ultimately show ?thesis by blast
qed

lemma settled_gives: "gives P m x \<Longrightarrow> P s \<Longrightarrow> \<exists>t. settled m s = Inr (x, t) \<and> P t"
  by (auto simp: settled_def dest!: givesD)

interpretation etcd: unit_of_work "\<lambda>k i. settled (unit_get env k (Some i))" "\<lambda>k. settled (unit_all env k)" "\<lambda>p. settled (unit_children env p)"
    "\<lambda>k v. changed_state (put_unleased k v)" "\<lambda>k i. changed_state (unit_delete env k i)" False "unit_holds env content" fitting
  for env :: "'e etcd_env" and content
proof
  fix s :: "'e etcd_state" and a k i p v
  assume holds: "unit_holds env content s a"
  then obtain view u bk base where s: "opened env content view u bk s" and at: "unit_at env view u bk base a"
    by (auto simp: unit_holds_def)
  have again: "unit_holds env content t a" if "opened env content view u bk t" for t
    using that at unfolding unit_holds_def by blast
  show "\<exists>t. settled (unit_get env k (Some i)) s = Inr (tget (a k) i, t) \<and> unit_holds env content t a"
    using settled_gives [OF gives_get [OF at] s] again by blast
  have rt: "root_at (stored_pages env view) (eu_root u) bk" using s by (simp add: opened_def)
  have all: "\<exists>t. unit_all env k s = (Inr (tall (a k)), t) \<and> opened env content view u bk t" for k
    using givesD [OF gives_all [OF at rt] s] .
  show "\<exists>t. settled (unit_all env k) s = Inr (tall (a k), t) \<and> unit_holds env content t a"
    using settled_gives [OF gives_all [OF at rt] s] again by blast
  obtain t where t: "unit_all env ''node'' s = (Inr (tall (a ''node'')), t)" "opened env content view u bk t" using all by blast
  have fine: "\<forall>v \<in> set (tall (a ''node'')). row_fine v" using at by (auto simp: unit_at_def in_tall_iff)
  have "unit_children env p s = (by_name (filter (child_of p) (tall (a ''node''))), t)"
    by (simp add: unit_children_def t(1) children_fine [OF fine] filter_zip_map bindm_def)
  then show "rel_sum (=) (\<lambda>(vs, t) ws. vs = ws \<and> unit_holds env content t a) (settled (unit_children env p) s)
      (by_name (filter (child_of p) (tall (a ''node''))))"
    using again [OF t(2)] by (cases "by_name (filter (child_of p) (tall (a ''node'')))") (simp_all add: settled_def)
  show "rel_sum (=) (unit_holds env content) (changed_state (put_unleased k v) s) (spec_put False k v a)" if "fitting k v"
    using put_law [OF holds that] .
  show "\<exists>t. changed_state (unit_delete env k i) s = Inr t \<and> unit_holds env content t (a(k := tdel i (a k)))"
    using del_law [OF holds] .
qed

end
