(* ===== verification/Etcd_Flush.thy ===== *)
theory Etcd_Flush
  imports Etcd_Unit
begin

text \<open>
  What \<open>unit_flush\<close> writes: a root from which, once the collected pages are persisted, exactly the rows of the unit
  are read, up to the order of the members of their dictionaries.
\<close>

section \<open>Dictionaries in order\<close>

lemma map_of_sort:
  assumes "distinct (map fst xs)"
  shows "map_of (sort_key fst xs) = map_of xs"
proof -
  have "mset (map fst (sort_key fst xs)) = mset (map fst xs)" by (metis mset_map mset_sort)
  then have "distinct (map fst (sort_key fst xs))" using assms mset_eq_imp_distinct_iff by blast
  with assms show ?thesis by (subst map_of_inject_set) simp_all
qed

lemma map_of_apsnd: "map_of (map (\<lambda>(k, v). (k, f v)) xs) k = map_option f (map_of xs k)"
  by (induction xs) auto

lemma normal_member: "distinct (map fst xs) \<Longrightarrow> map_of (sort_key fst (map (\<lambda>(k, v). (k, normal v)) xs)) k = map_option normal (map_of xs k)"
proof -
  assume "distinct (map fst xs)"
  then have d: "distinct (map fst (map (\<lambda>(k, v). (k, normal v)) xs))" by (simp add: comp_def case_prod_beta)
  show ?thesis by (simp only: map_of_sort [OF d] map_of_apsnd)
qed

lemma distinct_sort: "distinct (map fst (sort_key fst xs)) = distinct (map fst xs)"
  by (metis mset_map mset_sort mset_eq_imp_distinct_iff)

text \<open>A bucket: digests under different identifiers.\<close>

definition bucket_wf :: "dict \<Rightarrow> bool" where
  "bucket_wf b \<longleftrightarrow> distinct (map fst b) \<and> (\<forall>(i, x) \<in> set b. \<exists>d. x = JStr d)"

lemma bucket_wf_json: "bucket_wf b \<Longrightarrow> json_wf (\<lambda>_. True) (JObj b)"
  by (force simp: bucket_wf_def list_all_iff)

lemma normal_bucket: "bucket_wf b \<Longrightarrow> normal (JObj b) = JObj (sort_key fst b)"
proof -
  assume "bucket_wf b"
  then have "map (\<lambda>(k, v). (k, normal v)) b = b" by (intro map_idI) (force simp: bucket_wf_def)
  then show ?thesis by simp
qed

section \<open>Texts of a unit\<close>

definition text_fits :: "'e etcd_env \<Rightarrow> string set \<Rightarrow> string \<Rightarrow> bool" where
  "text_fits env X x \<longleftrightarrow> set (blob_pages env x) \<subseteq> X \<and> length x \<le> PAGE_BYTES * 64 ^ (READ_DEPTH - 1)"

definition held :: "'e etcd_env \<Rightarrow> (string \<Rightarrow> string option) \<Rightarrow> etcd_unit \<Rightarrow> string \<Rightarrow> string option" where
  "held env view w = stored_pages env view ++ map_of (eu_pages w)"

text \<open>Every page there is, is kept.\<close>

definition extends :: "(string \<Rightarrow> string option) \<Rightarrow> (string \<Rightarrow> string option) \<Rightarrow> bool" where
  "extends G G' \<longleftrightarrow> (\<forall>d p. G d = Some p \<longrightarrow> G' d = Some p)"

lemma extends_self: "extends G G" and extends_trans: "extends G G' \<Longrightarrow> extends G' H \<Longrightarrow> extends G H"
  by (simp_all add: extends_def)

lemma object_extends: "object_at G d v \<Longrightarrow> extends G G' \<Longrightarrow> object_at G' d v"
  unfolding extends_def by (rule object_at_mono) blast+

text \<open>The state of a flush: the unit \<open>w\<close> is open, its pages are in \<open>X\<close>, where no two have one address.\<close>

definition flushing :: "'e etcd_env \<Rightarrow> ('e \<Rightarrow> string \<Rightarrow> string option) \<Rightarrow> (string \<Rightarrow> string option) \<Rightarrow> string set \<Rightarrow> 'e etcd_state \<Rightarrow> etcd_unit \<Rightarrow> bool" where
  "flushing env content view X s w \<longleftrightarrow> serving env content \<and> cache_ok env content s \<and> content (es_etcd s) = view \<and>
     es_unit s = Some w \<and> eu_write w \<and> pages_ok env X (eu_pages w) \<and> inj_on (page_address env) (X \<union> ran (stored_pages env view))"

lemma blob_flushing:
  assumes "flushing env content view X s w" and "text_fits env X x" and "blob env x s = (Inr d, t)"
  shows "\<exists>w'. flushing env content view X t w' \<and> extends (held env view w) (held env view w') \<and> text_at (held env view w') READ_DEPTH d x \<and>
     d = blob_digest env x \<and> (\<exists>pages. w' = w\<lparr>eu_pages := pages\<rparr>)"
proof -
  let ?pages = "fold (collect_page env (es_cache s)) (blob_pages env x) (eu_pages w)" and ?w = "w\<lparr>eu_pages := fold (collect_page env (es_cache s)) (blob_pages env x) (eu_pages w)\<rparr>"
  have ok: "serving env content" "cache_ok env content s" "content (es_etcd s) = view" "es_unit s = Some w" "eu_write w"
      "pages_ok env X (eu_pages w)" "inj_on (page_address env) (X \<union> ran (stored_pages env view))" and sub: "set (blob_pages env x) \<subseteq> X"
    using assms(1,2) by (simp_all add: flushing_def text_fits_def)
  have "writing s" using ok(4,5) by (simp add: writing_def)
  with collects_blob [of env x] assms(3) have d: "d = blob_digest env x" and t: "t = with_pages env (blob_pages env x) s"
    unfolding collects_def by (auto dest!: spec [of _ s])
  have inj: "inj_on (page_address env) X" using ok(7) by (rule inj_on_subset) auto
  note got = collected [OF ok(6) inj sub, of "es_cache s"]
  have pages: "pages_ok env X ?pages" using got by blast
  have unit: "es_unit t = Some ?w" by (simp add: t with_pages_def ok(4))
  have cache: "cache_ok env content t" using ok(2) by (simp add: t with_pages_def)
  have held: "held env view ?w = stored_pages env view ++ map_of ?pages" by (simp add: held_def)
  have more: "extends (held env view w) (held env view ?w)"
    unfolding extends_def
  proof (intro allI impI)
    fix e p
    assume now: "held env view w e = Some p"
    show "held env view ?w e = Some p"
    proof (cases "map_of (eu_pages w) e")
      case (Some q)
      with got now show ?thesis by (simp add: held held_def map_add_def)
    next
      case None
      then have p: "stored_pages env view e = Some p" using now by (simp add: held_def map_add_def)
      show ?thesis
      proof (cases "map_of ?pages e")
        case (Some q)
        then have "(e, q) \<in> set ?pages" by (rule map_of_SomeD)
        then have q: "e = page_address env q" "q \<in> X" using pages unfolding pages_ok_def by blast+
        have "q = p"
        proof (rule inj_onD [OF ok(7)])
          show "page_address env q = page_address env p" using stored_address [OF p] q(1) by simp
        qed (use p q(2) in \<open>auto simp: ran_def\<close>)
        with Some show ?thesis by (simp add: held map_add_def)
      qed (use p in \<open>simp add: held map_add_def\<close>)
    qed
  qed
  have "held env view ?w (page_address env p) = Some p" if "p \<in> set (blob_pages env x)" for p
  proof -
    have "map_of (es_cache s) (page_address env p) \<noteq> None \<or> map_of ?pages (page_address env p) = Some p" using got that by blast
    with held_page [OF ok(2) pages, of p] ok(3,7) sub that show ?thesis by (simp add: held subset_iff)
  qed
  then have "holds_pages env (held env view ?w) (set (blob_pages env x))" by (simp add: holds_pages_def)
  then have "text_at (held env view ?w) READ_DEPTH d x"
    using assms(2) unfolding d READ_DEPTH_steps text_fits_def diff_Suc_1 power_Suc by (intro text_of_blob) simp_all
  moreover have "flushing env content view X t ?w"
    using ok cache pages unit by (simp add: flushing_def t)
  ultimately show ?thesis using more d by blast
qed

lemma written_object:
  assumes "text_at G READ_DEPTH d (canonical v)" and "json_wf (\<lambda>_. True) v" and "d \<noteq> []"
  shows "object_at G d (normal v)"
  using assms loads_canonical [OF assms(2)] unfolding object_at_def by blast

section \<open>Rows\<close>

definition digests_ok :: "'e etcd_env \<Rightarrow> bool" where
  "digests_ok env \<longleftrightarrow> (\<forall>p. page_address env p \<noteq> [])"

lemma buckets_at_extends: "buckets_at env G bk base \<Longrightarrow> extends G G' \<Longrightarrow> buckets_at env G' bk base"
  unfolding buckets_at_def using object_extends by meson

definition read_back :: "dict option \<Rightarrow> json option" where
  "read_back v = map_option (\<lambda>d. normal (JObj d)) v"

lemma current_set: "current bk (w\<lparr>eu_buckets := (eu_buckets w)(key \<mapsto> b)\<rparr>) = (current bk w)(key := b)"
  by (auto simp: current_def fun_eq_iff)

lemma row_listed: "buckets_at env G bk base \<Longrightarrow> tget (base kind) j = Some w \<Longrightarrow> map_of (bk (kind, shard_of env j)) j \<noteq> None"
  unfolding buckets_at_def by blast

text \<open>One row of a bucket is replaced.\<close>

lemma buckets_at_put:
  assumes "buckets_at env G bk base" and "object_at G d v"
  shows "buckets_at env G (bk((k, shard_of env i) := dict_put i (JStr d) (bk (k, shard_of env i)))) (base(k := tput i v (base k)))"
  unfolding buckets_at_def
proof (intro conjI allI impI)
  fix kind shard
  show "distinct (map fst ((bk((k, shard_of env i) := dict_put i (JStr d) (bk (k, shard_of env i)))) (kind, shard)))"
    using assms(1) by (simp add: buckets_at_def distinct_dict_put)
next
  fix kind shard j x
  assume x: "map_of ((bk((k, shard_of env i) := dict_put i (JStr d) (bk (k, shard_of env i)))) (kind, shard)) j = Some x"
  show "shard = shard_of env j"
    using x assms(1) unfolding buckets_at_def by (auto split: if_splits)
  show "\<exists>d v'. x = JStr d \<and> object_at G d v' \<and> tget ((base(k := tput i v (base k))) kind) j = Some v'"
  proof (cases "kind = k \<and> j = i")
    case True
    have "shard = shard_of env j" by fact
    with True x assms(2) show ?thesis by auto
  next
    case False
    then have "map_of (bk (kind, shard)) j = Some x" using x by (auto split: if_splits)
    then obtain e w where "x = JStr e" "object_at G e w" "tget (base kind) j = Some w"
      using assms(1) unfolding buckets_at_def by blast
    with False show ?thesis by auto
  qed
next
  fix kind j w
  assume "tget ((base(k := tput i v (base k))) kind) j = Some w"
  then show "map_of ((bk((k, shard_of env i) := dict_put i (JStr d) (bk (k, shard_of env i)))) (kind, shard_of env j)) j \<noteq> None"
    using row_listed [OF assms(1), of kind j] by (auto split: if_splits)
qed

lemma map_of_without: "map_of (filter (\<lambda>(j, _). j \<noteq> i) b) j = (if j = i then None else map_of b j)"
  by (induction b) auto

lemma buckets_at_remove:
  assumes "buckets_at env G bk base"
  shows "buckets_at env G (bk((k, shard_of env i) := filter (\<lambda>(j, _). j \<noteq> i) (bk (k, shard_of env i)))) (base(k := tdel i (base k)))"
  unfolding buckets_at_def
proof (intro conjI allI impI)
  fix kind shard
  have "distinct (map fst (bk (kind, shard)))" using assms by (simp add: buckets_at_def)
  then show "distinct (map fst ((bk((k, shard_of env i) := filter (\<lambda>(j, _). j \<noteq> i) (bk (k, shard_of env i)))) (kind, shard)))"
    by (auto simp: distinct_map inj_on_def)
next
  fix kind shard j x
  assume x: "map_of ((bk((k, shard_of env i) := filter (\<lambda>(j, _). j \<noteq> i) (bk (k, shard_of env i)))) (kind, shard)) j = Some x"
  then have old: "map_of (bk (kind, shard)) j = Some x" and other: "(kind, shard) = (k, shard_of env i) \<longrightarrow> j \<noteq> i"
    by (auto simp: map_of_without split: if_splits)
  then obtain e w where row: "shard = shard_of env j" "x = JStr e" "object_at G e w" "tget (base kind) j = Some w"
    using assms unfolding buckets_at_def by blast
  then show "shard = shard_of env j" by simp
  show "\<exists>d v'. x = JStr d \<and> object_at G d v' \<and> tget ((base(k := tdel i (base k))) kind) j = Some v'"
    using row other by auto
next
  fix kind j w
  assume "tget ((base(k := tdel i (base k))) kind) j = Some w"
  then have "tget (base kind) j = Some w" "\<not> (kind = k \<and> j = i)" by (auto split: if_splits)
  then show "map_of ((bk((k, shard_of env i) := filter (\<lambda>(j, _). j \<noteq> i) (bk (k, shard_of env i)))) (kind, shard_of env j)) j \<noteq> None"
    using row_listed [OF assms, of kind j] by (auto simp: map_of_without)
qed

text \<open>The invariant of the rows written so far: in the collected pages, the buckets lead to the tables \<open>base\<close>.\<close>

definition rows_written :: "'e etcd_env \<Rightarrow> ('e \<Rightarrow> string \<Rightarrow> string option) \<Rightarrow> (string \<Rightarrow> string option) \<Rightarrow> string set \<Rightarrow>
    (string \<times> string \<Rightarrow> dict) \<Rightarrow> 'e etcd_state \<Rightarrow> etcd_unit \<Rightarrow> rows \<Rightarrow> bool" where
  "rows_written env content view X bk s w base \<longleftrightarrow> flushing env content view X s w \<and> root_at (stored_pages env view) (eu_root w) bk \<and>
     buckets_at env (held env view w) (current bk w) base"

definition apply_row :: "string \<Rightarrow> string \<Rightarrow> dict option \<Rightarrow> rows \<Rightarrow> rows" where
  "apply_row k i v base = base(k := (case read_back v of None \<Rightarrow> tdel i (base k) | Some x \<Rightarrow> tput i x (base k)))"

definition only_pages :: "etcd_unit \<Rightarrow> etcd_unit \<Rightarrow> bool" where
  "only_pages w w' \<longleftrightarrow> w' = w\<lparr>eu_buckets := eu_buckets w', eu_pages := eu_pages w'\<rparr>"

lemma only_pages_trans: "only_pages w w' \<Longrightarrow> only_pages w' w'' \<Longrightarrow> only_pages w w''"
  by (cases w; cases w'; cases w'') (simp add: only_pages_def)

lemma flushing_buckets: "flushing env content view X s w \<Longrightarrow> set_unit (\<lambda>u. u\<lparr>eu_buckets := f u\<rparr>) s = (Inr (), t) \<Longrightarrow>
    flushing env content view X t (w\<lparr>eu_buckets := f w\<rparr>)"
  by (auto simp: flushing_def set_unit_def)

lemma held_buckets [simp]: "held env view (w\<lparr>eu_buckets := B\<rparr>) = held env view w"
  by (simp add: held_def)

lemma opened_bucket:
  assumes "rows_written env content view X bk s w base" and "open_bucket env kind shard s = (r, t)"
  shows "r = Inr (current bk w (kind, shard)) \<and>
     rows_written env content view X bk t (w\<lparr>eu_buckets := (eu_buckets w)((kind, shard) \<mapsto> current bk w (kind, shard))\<rparr>) base"
proof -
  let ?w = "w\<lparr>eu_buckets := (eu_buckets w)((kind, shard) \<mapsto> current bk w (kind, shard))\<rparr>"
  have ok: "serving env content" "cache_ok env content s" "es_unit s = Some w" and view: "content (es_etcd s) = view"
    and rt: "root_at (stored_pages env (content (es_etcd s))) (eu_root w) bk"
    using assms(1) by (auto simp: rows_written_def flushing_def)
  from open_bucket_ok [OF ok rt, of kind shard] assms(2) have t: "r = Inr (current bk w (kind, shard))" "cache_ok env content t"
      "content (es_etcd t) = view" "es_unit t = Some ?w" by (auto simp: view)
  have "current bk ?w = current bk w" by (simp add: current_set)
  with t assms(1) show ?thesis by (simp add: rows_written_def flushing_def)
qed

theorem flush_row_ok:
  assumes inv: "rows_written env content view X bk s w base" and "digests_ok env"
    and row: "\<And>d. v = Some d \<Longrightarrow> json_wf (\<lambda>_. True) (JObj d) \<and> text_fits env X (canonical (JObj d))"
    and run: "flush_row env ((k, i), v) s = (Inr c, t)"
  shows "\<exists>w'. rows_written env content view X bk t w' (apply_row k i v base) \<and> only_pages w w' \<and> extends (held env view w) (held env view w') \<and>
     eu_buckets w' (k, shard_of env i) \<noteq> None \<and> (\<forall>key. eu_buckets w key \<noteq> None \<longrightarrow> eu_buckets w' key \<noteq> None) \<and>
     (\<forall>key. current bk w' key \<noteq> current bk w key \<longrightarrow> c \<and> key = (k, shard_of env i))"
proof -
  let ?key = "(k, shard_of env i)" and ?b = "current bk w (k, shard_of env i)"
  let ?w = "w\<lparr>eu_buckets := (eu_buckets w)(?key \<mapsto> ?b)\<rparr>"
  obtain r s1 where opened: "open_bucket env k (shard_of env i) s = (r, s1)" by (cases "open_bucket env k (shard_of env i) s")
  from opened_bucket [OF inv this] have r: "r = Inr ?b" and inv1: "rows_written env content view X bk s1 ?w base" by blast+
  define m where "m = (case v of None \<Rightarrow> retm None | Some d \<Rightarrow> bindm (blob env (canonical (JObj d))) (\<lambda>digest. retm (Some digest)))"
  from run obtain digest s2 where m: "m s1 = (Inr digest, s2)" and rest: "(if map_of ?b i = map_option JStr digest then retm False
     else bindm (set_unit (\<lambda>u. u\<lparr>eu_buckets := (eu_buckets u)(?key \<mapsto> (case digest of Some d \<Rightarrow> dict_put i (JStr d) ?b | None \<Rightarrow> filter (\<lambda>(j, _). j \<noteq> i) ?b))\<rparr>))
            (\<lambda>_. retm True)) s2 = (Inr c, t)"
    unfolding flush_row_def prod.case bucket_def m_def [symmetric] Let_def by (auto simp: bindm_eq_Inr opened r)
  have flush1: "flushing env content view X s1 ?w" using inv1 by (simp add: rows_written_def)
  have "\<exists>w2. flushing env content view X s2 w2 \<and> extends (held env view ?w) (held env view w2) \<and> (\<exists>pages. w2 = ?w\<lparr>eu_pages := pages\<rparr>) \<and>
      (case digest of None \<Rightarrow> v = None | Some d \<Rightarrow> \<exists>x. read_back v = Some x \<and> object_at (held env view w2) d x)"
  proof (cases v)
    case None
    with m have "digest = None" "s2 = s1" by (simp_all add: m_def)
    with None flush1 show ?thesis by (intro exI [of _ ?w]) (auto simp: extends_self intro: exI [of _ "eu_pages w"])
  next
    case (Some d)
    from m Some obtain e where e: "blob env (canonical (JObj d)) s1 = (Inr e, s2)" "digest = Some e"
      by (auto simp: m_def bindm_eq_Inr)
    from blob_flushing [OF flush1 _ e(1)] row [OF Some] obtain w2 where w2: "flushing env content view X s2 w2"
        "extends (held env view ?w) (held env view w2)" "text_at (held env view w2) READ_DEPTH e (canonical (JObj d))"
        "e = blob_digest env (canonical (JObj d))" "\<exists>pages. w2 = ?w\<lparr>eu_pages := pages\<rparr>" by blast
    have "e \<noteq> []" using w2(4) assms(2) by (simp add: digests_ok_def blob_digest_def)
    then have "object_at (held env view w2) e (normal (JObj d))" using written_object [OF w2(3)] row [OF Some] by blast
    with w2 e(2) Some show ?thesis by (auto simp: read_back_def simp del: normal.simps)
  qed
  then obtain w2 pages where w2: "flushing env content view X s2 w2" "extends (held env view ?w) (held env view w2)" "w2 = ?w\<lparr>eu_pages := pages\<rparr>"
      "case digest of None \<Rightarrow> v = None | Some d \<Rightarrow> \<exists>x. read_back v = Some x \<and> object_at (held env view w2) d x" by blast
  have cur2: "current bk w2 = current bk w" by (simp add: w2(3) current_def fun_eq_iff)
  have tree2: "buckets_at env (held env view w2) (current bk w) base"
    by (rule buckets_at_extends [OF _ w2(2)]) (use inv1 in \<open>simp add: rows_written_def current_set\<close>)
  let ?b' = "case digest of Some d \<Rightarrow> dict_put i (JStr d) ?b | None \<Rightarrow> filter (\<lambda>(j, _). j \<noteq> i) ?b"
  have tree': "buckets_at env (held env view w2) ((current bk w)(?key := ?b')) (apply_row k i v base)"
  proof (cases digest)
    case None
    with w2(4) buckets_at_remove [OF tree2, of k i] show ?thesis by (simp add: apply_row_def read_back_def)
  next
    case (Some d)
    with w2(4) obtain x where x: "read_back v = Some x" "object_at (held env view w2) d x" by auto
    from buckets_at_put [OF tree2 x(2), of k i] Some x(1) show ?thesis by (simp add: apply_row_def)
  qed
  have rt: "root_at (stored_pages env view) (eu_root w) bk" using inv by (simp add: rows_written_def)
  show ?thesis
  proof (cases "map_of ?b i = map_option JStr digest")
    case True
    have "?b' = ?b"
    proof (cases digest)
      case None
      with True have "i \<notin> fst ` set ?b" by (simp add: map_of_eq_None_iff)
      with None show ?thesis by (force simp: filter_id_conv)
    next
      case (Some d)
      have "dict_put i (JStr d) xs = xs" if "map_of xs i = Some (JStr d)" for xs
        using that by (induction xs) (auto split: if_splits)
      with True Some show ?thesis by simp
    qed
    then have "(current bk w)(?key := ?b') = current bk w" by simp
    with tree' cur2 w2(1) rt have "rows_written env content view X bk s2 w2 (apply_row k i v base)"
      by (simp add: rows_written_def w2(3))
    moreover from True rest have "s2 = t" by simp
    ultimately have "rows_written env content view X bk t w2 (apply_row k i v base)" by simp
    moreover have "\<forall>key. current bk w2 key \<noteq> current bk w key \<longrightarrow> c \<and> key = ?key" by (simp add: cur2)
    moreover have "only_pages w w2" by (simp add: only_pages_def w2(3))
    moreover have "eu_buckets w2 ?key \<noteq> None" "\<forall>key. eu_buckets w key \<noteq> None \<longrightarrow> eu_buckets w2 key \<noteq> None" by (simp_all add: w2(3))
    moreover have "extends (held env view w) (held env view w2)" using w2(2) by simp
    ultimately show ?thesis by blast
  next
    case False
    let ?w' = "w2\<lparr>eu_buckets := (eu_buckets w2)(?key \<mapsto> ?b')\<rparr>"
    from False rest have c: "c = True" and t: "set_unit (\<lambda>u. u\<lparr>eu_buckets := (eu_buckets u)(?key \<mapsto> ?b')\<rparr>) s2 = (Inr (), t)"
      by (simp_all add: bindm_def set_unit_def)
    have cur': "current bk ?w' = (current bk w)(?key := ?b')" by (simp only: current_set cur2)
    have "flushing env content view X t ?w'" using flushing_buckets [OF w2(1) t] .
    moreover have "eu_root w2 = eu_root w" by (simp add: w2(3))
    ultimately have "rows_written env content view X bk t ?w' (apply_row k i v base)"
      using tree' rt unfolding rows_written_def held_buckets cur' by simp
    moreover have "only_pages w ?w'" by (simp add: only_pages_def w2(3))
    moreover have "eu_buckets ?w' ?key \<noteq> None" "\<forall>key. eu_buckets w key \<noteq> None \<longrightarrow> eu_buckets ?w' key \<noteq> None" by (simp_all add: w2(3))
    moreover have "extends (held env view w) (held env view ?w')" using w2(2) by simp
    moreover have "\<forall>key. current bk ?w' key \<noteq> current bk w key \<longrightarrow> c \<and> key = ?key" using c unfolding cur' by simp
    ultimately show ?thesis by blast
  qed
qed

definition changed_keys :: "'e etcd_env \<Rightarrow> ((string \<times> string) \<times> dict option) list \<Rightarrow> bool list \<Rightarrow> (string \<times> string) list" where
  "changed_keys env ps cs = map (\<lambda>(((kind, i), _), _). (kind, shard_of env i)) (filter snd (zip ps cs))"

lemma changed_keys_simps [simp]:
  "changed_keys env [] cs = []"
  "changed_keys env (((k, i), v) # ps) (c # cs) = (if c then (k, shard_of env i) # changed_keys env ps cs else changed_keys env ps cs)"
  by (simp_all add: changed_keys_def)

definition apply_rows :: "((string \<times> string) \<times> dict option) list \<Rightarrow> rows \<Rightarrow> rows" where
  "apply_rows ps base = fold (\<lambda>((k, i), v). apply_row k i v) ps base"

lemma tget_apply_row: "tget (apply_row k i v base k') j = (if (k', j) = (k, i) then read_back v else tget (base k') j)"
  by (simp add: apply_row_def split: option.split)

lemma tget_apply_rows:
  "distinct (map fst ps) \<Longrightarrow> tget (apply_rows ps base k) i = (case map_of ps (k, i) of Some v \<Rightarrow> read_back v | None \<Rightarrow> tget (base k) i)"
proof (induction ps arbitrary: base)
  case (Cons p ps)
  obtain k' j v where p: "p = ((k', j), v)" by (metis surj_pair)
  with Cons.prems have "map_of ps (k', j) = None" by (simp add: map_of_eq_None_iff)
  with Cons p show ?case by (auto simp: apply_rows_def tget_apply_row split: option.split)
qed (simp add: apply_rows_def)

lemma flush_rows_run:
  assumes "rows_written env content view X bk s w base" and "digests_ok env"
    and "\<And>key d. (key, Some d) \<in> set ps \<Longrightarrow> json_wf (\<lambda>_. True) (JObj d) \<and> text_fits env X (canonical (JObj d))"
    and "mapm (flush_row env) ps s = (Inr cs, t)"
  shows "\<exists>w'. rows_written env content view X bk t w' (apply_rows ps base) \<and> only_pages w w' \<and>
     (\<forall>key \<in> set (changed_keys env ps cs). eu_buckets w' key \<noteq> None) \<and> (\<forall>key. eu_buckets w key \<noteq> None \<longrightarrow> eu_buckets w' key \<noteq> None) \<and>
     (\<forall>key. current bk w' key \<noteq> current bk w key \<longrightarrow> key \<in> set (changed_keys env ps cs))"
  using assms(1,3,4)
proof (induction ps arbitrary: s w base cs)
  case Nil
  then show ?case by (intro exI [of _ w]) (auto simp: apply_rows_def only_pages_def)
next
  case (Cons p ps)
  obtain k i v where p: "p = ((k, i), v)" by (metis surj_pair)
  from Cons.prems(3) obtain c cs' s1 where run: "flush_row env ((k, i), v) s = (Inr c, s1)" "mapm (flush_row env) ps s1 = (Inr cs', t)" "cs = c # cs'"
    by (auto simp: p bindm_eq_Inr)
  have row: "json_wf (\<lambda>_. True) (JObj d) \<and> text_fits env X (canonical (JObj d))" if "v = Some d" for d
    using Cons.prems(2) [of "(k, i)" d] that p by (simp del: json_wf.simps canonical.simps)
  obtain w1 where w1: "rows_written env content view X bk s1 w1 (apply_row k i v base)" "only_pages w w1"
      "eu_buckets w1 (k, shard_of env i) \<noteq> None" "\<forall>key. eu_buckets w key \<noteq> None \<longrightarrow> eu_buckets w1 key \<noteq> None"
      "\<forall>key. current bk w1 key \<noteq> current bk w key \<longrightarrow> c \<and> key = (k, shard_of env i)"
    using flush_row_ok [OF Cons.prems(1) assms(2) row run(1)] by blast
  have later: "json_wf (\<lambda>_. True) (JObj d) \<and> text_fits env X (canonical (JObj d))" if "(key, Some d) \<in> set ps" for key d
    using Cons.prems(2) [of key d] that by (simp del: json_wf.simps canonical.simps)
  obtain w' where w': "rows_written env content view X bk t w' (apply_rows ps (apply_row k i v base))" "only_pages w1 w'"
      "\<forall>key \<in> set (changed_keys env ps cs'). eu_buckets w' key \<noteq> None" "\<forall>key. eu_buckets w1 key \<noteq> None \<longrightarrow> eu_buckets w' key \<noteq> None"
      "\<forall>key. current bk w' key \<noteq> current bk w1 key \<longrightarrow> key \<in> set (changed_keys env ps cs')"
    using Cons.IH [OF w1(1) _ run(2)] later by blast
  have "apply_rows (p # ps) base = apply_rows ps (apply_row k i v base)" by (simp add: apply_rows_def p)
  moreover have "only_pages w w'" using only_pages_trans [OF w1(2) w'(2)] .
  moreover have "\<forall>key \<in> set (changed_keys env (p # ps) cs). eu_buckets w' key \<noteq> None"
    using w'(3,4) w1(3) by (auto simp: p run(3))
  moreover have "\<forall>key. eu_buckets w key \<noteq> None \<longrightarrow> eu_buckets w' key \<noteq> None" using w1(4) w'(4) by blast
  moreover have "key \<in> set (changed_keys env (p # ps) cs)" if "current bk w' key \<noteq> current bk w key" for key
  proof (cases "current bk w' key = current bk w1 key")
    case True
    with that w1(5) have "c \<and> key = (k, shard_of env i)" by metis
    then show ?thesis by (simp add: p run(3))
  next
    case False
    with w'(5) have "key \<in> set (changed_keys env ps cs')" by blast
    then show ?thesis by (simp add: p run(3))
  qed
  ultimately show ?case using w'(1) by (intro exI [of _ w']) simp
qed

section \<open>Buckets and the root\<close>

definition sorted_bucket :: "dict \<Rightarrow> dict" where
  "sorted_bucket b = sort_key fst b"

text \<open>The buckets of the new root: those in \<open>D\<close> have been written.\<close>

definition buckets_written :: "'e etcd_env \<Rightarrow> ('e \<Rightarrow> string \<Rightarrow> string option) \<Rightarrow> (string \<Rightarrow> string option) \<Rightarrow> string set \<Rightarrow>
    (string \<times> string \<Rightarrow> dict) \<Rightarrow> (string \<times> string \<Rightarrow> dict option) \<Rightarrow> 'e etcd_state \<Rightarrow> etcd_unit \<Rightarrow> (string \<times> string) set \<Rightarrow> bool" where
  "buckets_written env content view X bk B s w D \<longleftrightarrow> flushing env content view X s w \<and> eu_buckets w = B \<and>
     root_at (held env view w) (eu_root w) (\<lambda>key. if key \<in> D then sorted_bucket (the (B key)) else bk key)"

lemma child_dict_put: "child_dict (dict_put k (JObj e) d) k' = (if k' = k then Inr e else child_dict d k')"
  by (simp add: child_dict_def)

lemma child_wf: "json_wf (\<lambda>_. True) (JObj d) \<Longrightarrow> child_dict d k = Inr e \<Longrightarrow> json_wf (\<lambda>_. True) (JObj e)"
proof (cases "map_of d k")
  case (Some x)
  assume wf: "json_wf (\<lambda>_. True) (JObj d)" and child: "child_dict d k = Inr e"
  then have "x = JObj e" using Some by (simp add: child_dict_def split: json.splits)
  moreover have "(k, x) \<in> set d" using Some by (rule map_of_SomeD)
  then have "json_wf (\<lambda>_. True) x" using wf by (auto simp: list_all_iff)
  ultimately show ?thesis by simp
qed (simp add: child_dict_def)

lemma wf_dict_put: "json_wf (\<lambda>_. True) (JObj d) \<Longrightarrow> json_wf (\<lambda>_. True) v \<Longrightarrow> json_wf (\<lambda>_. True) (JObj (dict_put k v d))"
  using set_dict_put [of k v d] by (auto simp: distinct_dict_put list_all_iff)

lemma root_at_extends: "root_at G rt bk \<Longrightarrow> extends G G' \<Longrightarrow> root_at G' rt bk"
  unfolding root_at_def by (fastforce dest: object_extends split: option.splits)

lemma root_at_put:
  assumes rt: "root_at G rt bk" and child: "child_dict rt kind = Inr shards" and "object_at G d (JObj b)"
  shows "root_at G (dict_put kind (JObj (dict_put shard (JStr d) shards)) rt) (bk((kind, shard) := b))"
  unfolding root_at_def
proof (intro conjI allI)
  have wf: "json_wf (\<lambda>_. True) (JObj rt)" using rt by (simp add: root_at_def)
  from child_wf [OF this child] show "json_wf (\<lambda>_. True) (JObj (dict_put kind (JObj (dict_put shard (JStr d) shards)) rt))"
    by (intro wf_dict_put wf) simp_all
  fix kind'
  show "\<exists>shards'. child_dict (dict_put kind (JObj (dict_put shard (JStr d) shards)) rt) kind' = Inr shards' \<and>
      (\<forall>sh. case map_of shards' sh of None \<Rightarrow> (bk((kind, shard) := b)) (kind', sh) = []
         | Some x \<Rightarrow> \<exists>d. x = JStr d \<and> object_at G d (JObj ((bk((kind, shard) := b)) (kind', sh))))"
  proof (cases "kind' = kind")
    case True
    from rt obtain shards' where "child_dict rt kind = Inr shards'" and old: "\<And>sh. case map_of shards' sh of None \<Rightarrow> bk (kind, sh) = []
         | Some x \<Rightarrow> \<exists>d. x = JStr d \<and> object_at G d (JObj (bk (kind, sh)))"
      unfolding root_at_def by blast
    with child have same: "shards' = shards" by simp
    have "case map_of (dict_put shard (JStr d) shards) sh of None \<Rightarrow> (bk((kind, shard) := b)) (kind, sh) = []
         | Some x \<Rightarrow> \<exists>d. x = JStr d \<and> object_at G d (JObj ((bk((kind, shard) := b)) (kind, sh)))" for sh
      using old [of sh] assms(3) by (cases "sh = shard"; cases "map_of shards sh") (simp_all add: same)
    then show ?thesis unfolding True by (intro exI [of _ "dict_put shard (JStr d) shards"] conjI allI) (simp add: child_dict_put)
  next
    case False
    then have same: "(bk((kind, shard) := b)) (kind', sh) = bk (kind', sh)" for sh by simp
    have "child_dict (dict_put kind (JObj (dict_put shard (JStr d) shards)) rt) kind' = child_dict rt kind'"
      using False by (simp add: child_dict_put)
    with rt show ?thesis unfolding root_at_def same by simp
  qed
qed

lemma flush_bucket_ok:
  assumes inv: "buckets_written env content view X bk B s w D" and "digests_ok env" and "B key = Some b" and "bucket_wf b"
    and "text_fits env X (canonical (JObj b))" and run: "flush_bucket env key s = (Inr (), t)"
  shows "\<exists>w'. buckets_written env content view X bk B t w' (insert key D) \<and> extends (held env view w) (held env view w') \<and>
     eu_pending w' = eu_pending w"
proof -
  obtain kind shard where key: "key = (kind, shard)" by (cases key)
  have flush: "flushing env content view X s w" and B: "eu_buckets w = B" using inv by (simp_all add: buckets_written_def)
  then have unit: "es_unit s = Some w" by (simp add: flushing_def)
  obtain d s1 where d: "blob env (canonical (JObj b)) s = (Inr d, s1)" and rest:
      "bindm (of_unit eu_root) (\<lambda>root. bindm (liftm (child_dict root kind)) (\<lambda>shards.
         set_unit (\<lambda>u. u\<lparr>eu_root := dict_put kind (JObj (dict_put shard (JStr d) shards)) root\<rparr>))) s1 = (Inr (), t)"
    using run assms(3) unfolding flush_bucket_def key prod.case by (auto simp: bindm_eq_Inr of_unit_def unit B key simp del: canonical.simps)
  from blob_flushing [OF flush assms(5) d] obtain w1 pages where w1: "flushing env content view X s1 w1"
      "extends (held env view w) (held env view w1)" "text_at (held env view w1) READ_DEPTH d (canonical (JObj b))"
      "d = blob_digest env (canonical (JObj b))" "w1 = w\<lparr>eu_pages := pages\<rparr>" by blast
  have "d \<noteq> []" using w1(4) assms(2) by (simp add: digests_ok_def blob_digest_def)
  then have obj: "object_at (held env view w1) d (JObj (sorted_bucket b))"
    using written_object [OF w1(3) bucket_wf_json [OF assms(4)]] normal_bucket [OF assms(4)] by (simp add: sorted_bucket_def del: normal.simps)
  have unit1: "es_unit s1 = Some w1" using w1(1) by (simp add: flushing_def)
  from rest obtain shards where shards: "child_dict (eu_root w) kind = Inr shards"
    and t: "t = s1\<lparr>es_unit := Some (w1\<lparr>eu_root := dict_put kind (JObj (dict_put shard (JStr d) shards)) (eu_root w)\<rparr>)\<rparr>"
    by (auto simp: bindm_eq_Inr of_unit_def unit1 w1(5) set_unit_def)
  let ?w = "w1\<lparr>eu_root := dict_put kind (JObj (dict_put shard (JStr d) shards)) (eu_root w)\<rparr>"
  have same: "held env view ?w = held env view w1" by (simp add: held_def)
  have "root_at (held env view w1) (eu_root w) (\<lambda>key. if key \<in> D then sorted_bucket (the (B key)) else bk key)"
    using inv root_at_extends [OF _ w1(2)] by (simp add: buckets_written_def)
  from root_at_put [OF this shards obj, of shard]
  have "root_at (held env view w1) (eu_root ?w) ((\<lambda>key. if key \<in> D then sorted_bucket (the (B key)) else bk key)((kind, shard) := sorted_bucket b))"
    by simp
  moreover have "(\<lambda>key. if key \<in> D then sorted_bucket (the (B key)) else bk key)((kind, shard) := sorted_bucket b) =
      (\<lambda>k. if k \<in> insert key D then sorted_bucket (the (B k)) else bk k)"
    using assms(3) by (auto simp: key fun_eq_iff)
  ultimately have "root_at (held env view w1) (eu_root ?w) (\<lambda>k. if k \<in> insert key D then sorted_bucket (the (B k)) else bk k)" by simp
  moreover have "flushing env content view X t ?w" using w1(1) by (simp add: flushing_def t)
  ultimately have "buckets_written env content view X bk B t ?w (insert key D)"
    unfolding buckets_written_def same using B by (simp add: w1(5))
  with w1(2,5) same show ?thesis by (intro exI [of _ ?w]) simp
qed

lemma flush_buckets_run:
  assumes "buckets_written env content view X bk B s w D" and "digests_ok env"
    and "\<And>key. key \<in> set keys \<Longrightarrow> \<exists>b. B key = Some b \<and> bucket_wf b \<and> text_fits env X (canonical (JObj b))"
    and "eachm (flush_bucket env) keys s = (Inr (), t)"
  shows "\<exists>w'. buckets_written env content view X bk B t w' (D \<union> set keys) \<and> extends (held env view w) (held env view w') \<and>
     eu_pending w' = eu_pending w"
  using assms(1,3,4)
proof (induction keys arbitrary: s w D)
  case Nil
  then show ?case by (auto intro: extends_self)
next
  case (Cons key keys)
  from Cons.prems(3) obtain s1 where run: "flush_bucket env key s = (Inr (), s1)" "eachm (flush_bucket env) keys s1 = (Inr (), t)"
    by (auto simp: bindm_eq_Inr)
  obtain b where b: "B key = Some b" "bucket_wf b" "text_fits env X (canonical (JObj b))" using Cons.prems(2) [of key] by auto
  from flush_bucket_ok [OF Cons.prems(1) assms(2) b run(1)] obtain w1 where w1: "buckets_written env content view X bk B s1 w1 (insert key D)"
      "extends (held env view w) (held env view w1)" "eu_pending w1 = eu_pending w" by blast
  from Cons.IH [OF w1(1) _ run(2)] Cons.prems(2) obtain w' where "buckets_written env content view X bk B t w' (insert key D \<union> set keys)"
      "extends (held env view w1) (held env view w')" "eu_pending w' = eu_pending w1" by (metis list.set_intros(2))
  with w1 show ?case by (auto intro: extends_trans)
qed

text \<open>A step of the flush after the rows leaves the loaded buckets and the pending rows as they are, fits or not.\<close>

lemma blob_keeps:
  assumes "es_unit s = Some w" and "eu_write w" and "blob env x s = (Inr d, t)"
  shows "\<exists>pages. es_unit t = Some (w\<lparr>eu_pages := pages\<rparr>)"
proof -
  have "writing s" using assms(1,2) by (simp add: writing_def)
  with collects_blob [of env x] assms(3) have "t = with_pages env (blob_pages env x) s"
    unfolding collects_def by (auto dest!: spec [of _ s])
  then show ?thesis using assms(1) by (auto simp: with_pages_def)
qed

lemma flush_buckets_keep:
  assumes "es_unit s = Some w" and "eu_write w" and "eachm (flush_bucket env) keys s = (Inr (), t)"
  shows "\<exists>w'. es_unit t = Some w' \<and> eu_write w' \<and> eu_buckets w' = eu_buckets w \<and> eu_pending w' = eu_pending w"
  using assms
proof (induction keys arbitrary: s w)
  case (Cons key keys)
  obtain kind shard where key: "key = (kind, shard)" by (cases key)
  from Cons.prems(3) obtain s1 where run: "flush_bucket env key s = (Inr (), s1)" "eachm (flush_bucket env) keys s1 = (Inr (), t)"
    by (auto simp: bindm_eq_Inr)
  then obtain b d s2 root where d: "blob env (canonical (JObj b)) s = (Inr d, s2)" and
    rest: "bindm (of_unit eu_root) (\<lambda>root. bindm (liftm (child_dict root kind)) (\<lambda>shards.
         set_unit (\<lambda>u. u\<lparr>eu_root := dict_put kind (JObj (dict_put shard (JStr d) shards)) root\<rparr>))) s2 = (Inr (), s1)"
    unfolding flush_bucket_def key prod.case by (auto simp: bindm_eq_Inr of_unit_def Cons.prems(1) somer_eq_Inr simp del: canonical.simps)
  from blob_keeps [OF Cons.prems(1,2) d] obtain pages where "es_unit s2 = Some (w\<lparr>eu_pages := pages\<rparr>)" by blast
  with rest have "\<exists>w1. es_unit s1 = Some w1 \<and> eu_write w1 \<and> eu_buckets w1 = eu_buckets w \<and> eu_pending w1 = eu_pending w"
    using Cons.prems(2) by (auto simp: bindm_eq_Inr of_unit_def set_unit_def)
  with Cons.IH run(2) show ?case by metis
qed simp

section \<open>The new root\<close>

text \<open>The rows \<open>base\<close> that the digest of a root leads to.\<close>

definition stored_rows :: "'e etcd_env \<Rightarrow> (string \<Rightarrow> string option) \<Rightarrow> string \<Rightarrow> rows \<Rightarrow> bool" where
  "stored_rows env G d base \<longleftrightarrow> (\<exists>rt bk. object_at G d (JObj rt) \<and> root_at G rt bk \<and> buckets_at env G bk base)"

definition same_rows :: "rows \<Rightarrow> rows \<Rightarrow> bool" where
  "same_rows a b \<longleftrightarrow> (\<forall>k i. map_option normal (tget (a k) i) = map_option normal (tget (b k) i))"

lemma sort_map_apsnd: "sort_key fst (map (\<lambda>(k, v). (k, f v)) xs) = map (\<lambda>(k, v). (k, f v)) (sort_key fst xs)"
  using sort_key_apsnd [of f xs] by (simp add: apsnd_case_prod)

lemma sort_idem: "sort_key fst (sort_key fst xs) = sort_key fst xs"
  by (rule sort_key_id_if_sorted) simp

lemma normal_idem: "normal (normal v) = normal v"
proof (induction v)
  case (JObj kvs)
  have "map (\<lambda>(k, v). (k, normal v)) (map (\<lambda>(k, v). (k, normal v)) kvs) = map (\<lambda>(k, v). (k, normal v)) kvs"
    using JObj by (force simp: list_all_iff)
  then have "sort_key fst (map (\<lambda>(k, v). (k, normal v)) (sort_key fst (map (\<lambda>(k, v). (k, normal v)) kvs))) =
      sort_key fst (map (\<lambda>(k, v). (k, normal v)) kvs)"
    unfolding sort_map_apsnd sort_idem by (metis (no_types) sort_map_apsnd)
  then show ?case by simp
qed auto

lemma normal_wf: "json_wf fine v \<Longrightarrow> json_wf fine (normal v)"
proof (induction v)
  case (JObj kvs)
  have "map fst (map (\<lambda>(k, v). (k, normal v)) kvs) = map fst kvs" by auto
  then have "distinct (map fst (sort_key fst (map (\<lambda>(k, v). (k, normal v)) kvs)))" using JObj.prems by (simp only: distinct_sort json_wf.simps)
  then show ?case using JObj by (force simp: list_all_iff)
qed (auto simp: list_all_iff)

lemma child_normal:
  assumes "json_wf (\<lambda>_. True) (JObj d)" and "child_dict d k = Inr e"
  shows "child_dict (sort_key fst (map (\<lambda>(k, v). (k, normal v)) d)) k = Inr (sort_key fst (map (\<lambda>(k, v). (k, normal v)) e))"
proof -
  have "map_of (sort_key fst (map (\<lambda>(k, v). (k, normal v)) d)) k = map_option normal (map_of d k)"
    using assms(1) by (simp add: normal_member)
  with assms(2) show ?thesis by (auto simp: child_dict_def split: option.splits json.splits)
qed

lemma root_at_normal:
  assumes "root_at G rt bk"
  shows "root_at G (sort_key fst (map (\<lambda>(k, v). (k, normal v)) rt)) bk"
  unfolding root_at_def
proof (intro conjI allI)
  have wf: "json_wf (\<lambda>_. True) (JObj rt)" using assms by (simp add: root_at_def)
  from normal_wf [OF this] show "json_wf (\<lambda>_. True) (JObj (sort_key fst (map (\<lambda>(k, v). (k, normal v)) rt)))" by simp
  fix kind
  obtain shards where shards: "child_dict rt kind = Inr shards" "\<And>shard. case map_of shards shard of None \<Rightarrow> bk (kind, shard) = []
      | Some x \<Rightarrow> \<exists>d. x = JStr d \<and> object_at G d (JObj (bk (kind, shard)))"
    using assms unfolding root_at_def by blast
  have member: "map_of (sort_key fst (map (\<lambda>(k, v). (k, normal v)) shards)) shard = map_option normal (map_of shards shard)" for shard
    using child_wf [OF wf shards(1)] by (simp add: normal_member)
  have "case map_of (sort_key fst (map (\<lambda>(k, v). (k, normal v)) shards)) shard of None \<Rightarrow> bk (kind, shard) = []
      | Some x \<Rightarrow> \<exists>d. x = JStr d \<and> object_at G d (JObj (bk (kind, shard)))" for shard
    using shards(2) [of shard] unfolding member by (cases "map_of shards shard") auto
  with child_normal [OF wf shards(1)] show "\<exists>shards. child_dict (sort_key fst (map (\<lambda>(k, v). (k, normal v)) rt)) kind = Inr shards \<and>
      (\<forall>shard. case map_of shards shard of None \<Rightarrow> bk (kind, shard) = []
         | Some x \<Rightarrow> \<exists>d. x = JStr d \<and> object_at G d (JObj (bk (kind, shard))))" by blast
qed

lemma buckets_at_sorted:
  assumes "buckets_at env G cur base" and "\<And>key. bk key = cur key \<or> bk key = sort_key fst (cur key)"
  shows "buckets_at env G bk base"
proof -
  have "map_of (bk key) = map_of (cur key) \<and> distinct (map fst (bk key))" for key
  proof -
    have "distinct (map fst (cur key))" using assms(1) by (cases key) (simp add: buckets_at_def)
    with assms(2) [of key] show ?thesis by (auto simp: map_of_sort distinct_sort)
  qed
  then have same: "map_of (bk key) i = map_of (cur key) i" and "distinct (map fst (bk key))" for key i by simp_all
  with assms(1) show ?thesis unfolding buckets_at_def same by blast
qed

text \<open>The texts a unit writes, and their pages.\<close>

definition unit_texts :: "etcd_unit \<Rightarrow> etcd_unit \<Rightarrow> string set" where
  "unit_texts u w = {canonical (JObj d) |d. \<exists>key. (key, Some d) \<in> set (eu_pending u)} \<union>
     {canonical (JObj b) |b. \<exists>key. eu_buckets w key = Some b} \<union> {canonical (JObj (eu_root w))}"

definition text_pages :: "'e etcd_env \<Rightarrow> etcd_unit \<Rightarrow> etcd_unit \<Rightarrow> string set" where
  "text_pages env u w = (\<Union>x \<in> unit_texts u w. set (blob_pages env x))"

text \<open>
  No two pages in use have one address, and the texts are of a size that \<open>READ_DEPTH\<close> levels can index;
  \<open>u\<close> is the unit before the flush and \<open>w\<close> the one after it.
\<close>

definition no_collision :: "'e etcd_env \<Rightarrow> (string \<Rightarrow> string option) \<Rightarrow> etcd_unit \<Rightarrow> etcd_unit \<Rightarrow> bool" where
  "no_collision env view u w \<longleftrightarrow> inj_on (page_address env) (text_pages env u w \<union> ran (stored_pages env view)) \<and>
     (\<forall>x \<in> unit_texts u w. length x \<le> PAGE_BYTES * 64 ^ (READ_DEPTH - 1))"

lemma unit_text_fits: "no_collision env view u w \<Longrightarrow> x \<in> unit_texts u w \<Longrightarrow> text_fits env (text_pages env u w) x"
  by (auto simp: no_collision_def text_fits_def text_pages_def)

lemma buckets_wf:
  assumes "buckets_at env G bk base"
  shows "bucket_wf (bk key)"
  unfolding bucket_wf_def
proof
  obtain kind shard where key: "key = (kind, shard)" by (cases key)
  show d: "distinct (map fst (bk key))" using assms by (simp add: buckets_at_def key)
  show "\<forall>(i, x) \<in> set (bk key). \<exists>d. x = JStr d"
  proof (intro ballI, unfold split_paired_all prod.case)
    fix i x
    assume "(i, x) \<in> set (bk key)"
    with d have "map_of (bk key) i = Some x" by simp
    then show "\<exists>d. x = JStr d" using assms unfolding buckets_at_def key by blast
  qed
qed

lemma rows_start:
  assumes "opened env content view u bk s" and "unit_at env view u bk base a" and "inj_on (page_address env) (X \<union> ran (stored_pages env view))"
  shows "\<exists>w. rows_written env content view X bk s w base \<and> eu_pending w = eu_pending u \<and> current bk w = bk"
proof -
  obtain B where B: "es_unit s = Some (u\<lparr>eu_buckets := B\<rparr>)" "\<And>key b. B key = Some b \<Longrightarrow> b = bk key"
    using assms(1) by (auto simp: opened_def)
  let ?w = "u\<lparr>eu_buckets := B\<rparr>"
  have cur: "current bk ?w = bk"
  proof
    show "current bk ?w key = bk key" for key using B(2) [of key] by (cases "B key") (simp_all add: current_def)
  qed
  have "serving env content" "cache_ok env content s" "content (es_etcd s) = view" "root_at (stored_pages env view) (eu_root u) bk"
    using assms(1) by (simp_all add: opened_def)
  moreover have "eu_write u" "eu_pages u = []" "buckets_at env (stored_pages env view) bk base" using assms(2) by (simp_all add: unit_at_def)
  ultimately have "rows_written env content view X bk s ?w base"
    using B(1) assms(3) by (simp add: rows_written_def flushing_def cur held_def pages_ok_def)
  with cur show ?thesis by (intro exI [of _ ?w]) simp
qed

lemma held_extends:
  assumes "flushing env content view X s w"
  shows "extends (stored_pages env view) (held env view w)"
  unfolding extends_def
proof (intro allI impI)
  fix d p
  assume p: "stored_pages env view d = Some p"
  show "held env view w d = Some p"
  proof (cases "map_of (eu_pages w) d")
    case (Some q)
    then have "(d, q) \<in> set (eu_pages w)" by (rule map_of_SomeD)
    then have q: "d = page_address env q" "q \<in> X" using assms unfolding flushing_def pages_ok_def by blast+
    have "inj_on (page_address env) (X \<union> ran (stored_pages env view))" using assms by (simp add: flushing_def)
    then have "q = p"
    proof (rule inj_onD)
      show "page_address env q = page_address env p" using stored_address [OF p] q(1) by simp
    qed (use p q(2) in \<open>auto simp: ran_def\<close>)
    with Some show ?thesis by (simp add: held_def map_add_def)
  qed (use p in \<open>simp add: held_def map_add_def\<close>)
qed

lemma root_written:
  assumes inv: "buckets_written env content view X bk B s w D" and dig: "digests_ok env"
    and fits: "text_fits env X (canonical (JObj (eu_root w)))" and run: "blob env (canonical (JObj (eu_root w))) s = (Inr d, t)"
    and tree: "buckets_at env (held env view w) cur base"
    and keys: "\<And>key. (if key \<in> D then sorted_bucket (the (B key)) else bk key) \<in> {cur key, sort_key fst (cur key)}"
  shows "\<exists>w'. flushing env content view X t w' \<and> stored_rows env (held env view w') d base"
proof -
  let ?bk = "\<lambda>key. if key \<in> D then sorted_bucket (the (B key)) else bk key"
  have flush: "flushing env content view X s w" and rt: "root_at (held env view w) (eu_root w) ?bk"
    using inv by (simp_all add: buckets_written_def)
  from blob_flushing [OF flush fits run] obtain w' where w': "flushing env content view X t w'" "extends (held env view w) (held env view w')"
      "text_at (held env view w') READ_DEPTH d (canonical (JObj (eu_root w)))" "d = blob_digest env (canonical (JObj (eu_root w)))" by blast
  have "d \<noteq> []" using w'(4) dig by (simp add: digests_ok_def blob_digest_def)
  moreover have "json_wf (\<lambda>_. True) (JObj (eu_root w))" using rt by (simp add: root_at_def)
  ultimately have "object_at (held env view w') d (JObj (sort_key fst (map (\<lambda>(k, v). (k, normal v)) (eu_root w))))"
    using written_object [OF w'(3)] by simp
  moreover have "root_at (held env view w') (sort_key fst (map (\<lambda>(k, v). (k, normal v)) (eu_root w))) ?bk"
    by (rule root_at_normal [OF root_at_extends [OF rt w'(2)]])
  moreover have "buckets_at env (held env view w') ?bk base"
    by (rule buckets_at_sorted [OF buckets_at_extends [OF tree w'(2)]]) (use keys in blast)
  ultimately show ?thesis using w'(1) unfolding stored_rows_def by blast
qed

lemma flush_run:
  assumes "opened env content view u bk s" and "unit_at env view u bk base a" and dig: "digests_ok env"
    and run: "unit_flush env s = (Inr d, t)" and w: "es_unit t = Some w" and fits: "no_collision env view u w"
  shows "flushing env content view (text_pages env u w) t w \<and> stored_rows env (held env view w) d (apply_rows (eu_pending u) base)"
proof -
  let ?X = "text_pages env u w"
  have "inj_on (page_address env) (?X \<union> ran (stored_pages env view))" using fits by (simp add: no_collision_def)
  then obtain w0 where w0: "rows_written env content view ?X bk s w0 base" "eu_pending w0 = eu_pending u" "current bk w0 = bk"
    using rows_start [OF assms(1,2)] by blast
  then have unit0: "es_unit s = Some w0" by (simp add: rows_written_def flushing_def)
  from run obtain changed s1 s2 where rows: "flush_rows env s = (Inr changed, s1)" and buckets: "eachm (flush_bucket env) changed s1 = (Inr (), s2)"
    and rest: "bindm (of_unit eu_root) (\<lambda>root. blob env (canonical (JObj root))) s2 = (Inr d, t)"
    unfolding unit_flush_def by (auto simp: bindm_eq_Inr simp del: canonical.simps)
  obtain cs where cs: "mapm (flush_row env) (eu_pending u) s = (Inr cs, s1)" "set changed = set (changed_keys env (eu_pending u) cs)"
    using rows by (auto simp: flush_rows_def bindm_eq_Inr of_unit_def unit0 w0(2) changed_keys_def)
  have pend: "json_wf (\<lambda>_. True) (JObj d) \<and> text_fits env ?X (canonical (JObj d))" if "(key, Some d) \<in> set (eu_pending u)" for key d
  proof
    show "json_wf (\<lambda>_. True) (JObj d)" using that assms(2) unfolding unit_at_def pending_ok_def by blast
    have "canonical (JObj d) \<in> unit_texts u w" using that unfolding unit_texts_def by blast
    with fits show "text_fits env ?X (canonical (JObj d))" by (rule unit_text_fits)
  qed
  obtain w1 where w1: "rows_written env content view ?X bk s1 w1 (apply_rows (eu_pending u) base)"
      "only_pages w0 w1" "\<forall>key \<in> set changed. eu_buckets w1 key \<noteq> None" "\<forall>key. current bk w1 key \<noteq> current bk w0 key \<longrightarrow> key \<in> set changed"
    using flush_rows_run [OF w0(1) dig _ cs(1)] pend unfolding cs(2) by blast
  then have flush1: "flushing env content view ?X s1 w1" and unit1: "es_unit s1 = Some w1" "eu_write w1"
    and tree1: "buckets_at env (held env view w1) (current bk w1) (apply_rows (eu_pending u) base)"
    and rt1: "root_at (stored_pages env view) (eu_root w1) bk" by (simp_all add: rows_written_def flushing_def)
  from flush_buckets_keep [OF unit1 buckets] obtain w2 where w2: "es_unit s2 = Some w2" "eu_write w2" "eu_buckets w2 = eu_buckets w1" by blast
  from rest have last: "blob env (canonical (JObj (eu_root w2))) s2 = (Inr d, t)" by (auto simp: bindm_eq_Inr of_unit_def w2(1) simp del: canonical.simps)
  from blob_keeps [OF w2(1,2) last] w have w_end: "eu_buckets w = eu_buckets w1" "eu_root w = eu_root w2" using w2(3) by auto
  have start: "buckets_written env content view ?X bk (eu_buckets w1) s1 w1 {}"
    using flush1 root_at_extends [OF rt1 held_extends [OF flush1]] by (simp add: buckets_written_def)
  have each: "\<exists>b. eu_buckets w1 key = Some b \<and> bucket_wf b \<and> text_fits env ?X (canonical (JObj b))" if key: "key \<in> set changed" for key
  proof -
    obtain b where b: "eu_buckets w1 key = Some b" using w1(3) key by auto
    then have "bucket_wf b" using buckets_wf [OF tree1, of key] by (simp add: current_def)
    moreover have "canonical (JObj b) \<in> unit_texts u w" using b unfolding unit_texts_def w_end by blast
    ultimately show ?thesis using b unit_text_fits [OF fits] by blast
  qed
  from flush_buckets_run [OF start dig each buckets] w2(1) have done2: "buckets_written env content view ?X bk (eu_buckets w1) s2 w2 (set changed)"
    "extends (held env view w1) (held env view w2)" by (auto simp: buckets_written_def flushing_def)
  have root_fits: "text_fits env ?X (canonical (JObj (eu_root w2)))"
    by (rule unit_text_fits [OF fits]) (simp add: unit_texts_def w_end del: canonical.simps)
  have "(if key \<in> set changed then sorted_bucket (the (eu_buckets w1 key)) else bk key) \<in> {current bk w1 key, sort_key fst (current bk w1 key)}" for key
  proof (cases "key \<in> set changed")
    case True
    then obtain b where "eu_buckets w1 key = Some b" using each by blast
    with True show ?thesis by (simp add: current_def sorted_bucket_def)
  next
    case False
    with w1(4) have "current bk w1 key = bk key" using w0(3) by metis
    with False show ?thesis by simp
  qed
  from root_written [OF done2(1) dig root_fits last buckets_at_extends [OF tree1 done2(2)] this]
  show ?thesis using w by (auto simp: flushing_def)
qed

end
