(* ===== verification/Etcd_Commit.thy ===== *)
theory Etcd_Commit
  imports Etcd_Flush
begin

text \<open>
  Publication in the shared metadata store (\<^verbatim>\<open>transaction\<close> of \<^verbatim>\<open>control/etcd_metadata.py\<close>): one writer at a time holds the
  gate, a key under a lease; it reads the root, runs the body, writes new pages, and replaces the root in one
  transaction of etcd that compares the gate and the revision of the root. A transaction that is repeated after a lost answer
  is recognised by a marker of its owner.
\<close>

section \<open>Leases of the gate\<close>

definition ceil_seconds :: "rat \<Rightarrow> int" where
  "ceil_seconds t = max 1 \<lceil>t\<rceil>"

definition grant_lease :: "'e etcd_env \<Rightarrow> rat \<Rightarrow> ('e, nat) on_etcd" where
  "grant_lease env seconds =
     bindm (etcd_tick (ee_lease_id env)) (\<lambda>identity.
     bindm (etcd_rpc (ed_grant (ee_etcd env) identity (ceil_seconds seconds))) (\<lambda>granted.
     case granted of None \<Rightarrow> raisem (Fault SERVICE_UNAVAILABLE) | Some i \<Rightarrow> retm i))"

definition keepalive :: "'e etcd_env \<Rightarrow> nat \<Rightarrow> ('e, int) on_etcd" where
  "keepalive env identity =
     bindm (call_etcd (ed_keepalive (ee_etcd env) identity)) (\<lambda>r.
     case r of
       Inl _ \<Rightarrow> raisem (Fault SERVICE_UNAVAILABLE)
     | Inr None \<Rightarrow> raisem (Fault SERVICE_UNAVAILABLE)
     | Inr (Some ttl) \<Rightarrow> bindm (needm (0 < ttl) LOCK_EXPIRED) (\<lambda>_. retm ttl))"

definition new_gate_lease :: "'e etcd_env \<Rightarrow> ('e, nat) on_etcd" where
  "new_gate_lease env =
     bindm (grant_lease env (ee_gate_seconds env)) (\<lambda>lease.
     bindm (modm (\<lambda>s. s\<lparr>es_gate_lease := Some lease\<rparr>)) (\<lambda>_. retm lease))"

definition gate_lease :: "'e etcd_env \<Rightarrow> ('e, nat) on_etcd" where
  "gate_lease env =
     bindm (getm es_gate_lease) (\<lambda>held.
     if held = None \<or> held = Some 0 then new_gate_lease env
     else
       bindm (trym (keepalive env (the held))) (\<lambda>r.
       case r of
         Inr _ \<Rightarrow> retm (the held)
       | Inl (Fault reason) \<Rightarrow>
           bindm (modm (\<lambda>s. s\<lparr>es_gate_lease := None\<rparr>)) (\<lambda>_.
           if reason \<noteq> LOCK_EXPIRED then raisem (Fault reason) else new_gate_lease env)
       | Inl e \<Rightarrow> raisem e))"

section \<open>The gate\<close>

definition root_key :: "'e etcd_env \<Rightarrow> string" where "root_key env = ee_prefix env @ ''root''"

definition gate_key :: "'e etcd_env \<Rightarrow> string" where "gate_key env = ee_prefix env @ ''gate''"

definition marker_key :: "'e etcd_env \<Rightarrow> string \<Rightarrow> string" where "marker_key env owner = ee_prefix env @ ''commits/'' @ owner"

definition before :: "'e etcd_env \<Rightarrow> rat \<Rightarrow> ('e, unit) on_etcd" where
  "before env deadline = bindm (etcd_tick (ee_clock env)) (\<lambda>now. needm (now < deadline) SERVICE_UNAVAILABLE)"

fun take_gate :: "'e etcd_env \<Rightarrow> string \<Rightarrow> nat \<Rightarrow> rat \<Rightarrow> nat \<Rightarrow> ('e, unit) on_etcd" where
  "take_gate env owner lease deadline 0 = raisem OutOfFuel"
| "take_gate env owner lease deadline (Suc n) =
     bindm (etcd_range env (gate_key env)) (\<lambda>holder.
     if holder \<noteq> None
     then bindm (before env deadline) (\<lambda>_. take_gate env owner lease deadline n)
     else
       bindm (etcd_rpc (ed_txn (ee_etcd env) [Never_Created (gate_key env)] [Put_Key (gate_key env) owner (Some lease)])) (\<lambda>succeeded.
       if succeeded then retm ()
       else bindm (before env deadline) (\<lambda>_. take_gate env owner lease deadline n)))"

definition release_gate :: "'e etcd_env \<Rightarrow> string \<Rightarrow> ('e, unit) on_etcd" where
  "release_gate env owner =
     bindm (modm (\<lambda>s. s\<lparr>es_unit := None, es_gate_lease := None\<rparr>)) (\<lambda>_.
     catchm (bindm (etcd_rpc (ed_txn (ee_etcd env) [Value_Is (gate_key env) owner] [Delete_Key (gate_key env)])) (\<lambda>_. retm ()))
       (\<lambda>e. case e of Fault _ \<Rightarrow> retm () | _ \<Rightarrow> raisem e))"

section \<open>Opening and publishing\<close>

definition open_unit :: "'e etcd_env \<Rightarrow> bool \<Rightarrow> kv option \<Rightarrow> ('e, unit) on_etcd" where
  "open_unit env write record =
     bindm (case record of None \<Rightarrow> retm (JObj []) | Some r \<Rightarrow> read_object env (Some (kv_value r))) (\<lambda>v.
     case v of
       JObj tree \<Rightarrow> modm (\<lambda>s. s\<lparr>es_unit := Some \<lparr>eu_write = write, eu_root = tree, eu_buckets = (\<lambda>_. None), eu_pending = [],
         eu_guards = fold (\<lambda>(k, x). dict_put k x) (ee_required env) [], eu_effects = [], eu_lease_reads = [], eu_pages = []\<rparr>\<rparr>)
     | _ \<Rightarrow> raisem AttributeError)"

definition MAX_GUARDS :: nat where "MAX_GUARDS = 48"

definition commit_guards :: "'e etcd_env \<Rightarrow> string \<Rightarrow> kv option \<Rightarrow> etcd_unit \<Rightarrow> guard list" where
  "commit_guards env owner record u =
     [Value_Is (gate_key env) owner, Modified_At (root_key env) (case record of Some r \<Rightarrow> kv_mod r | None \<Rightarrow> 0)] @
     map (\<lambda>(k, v). Value_Is k v) (eu_guards u)"

definition commit_effects :: "'e etcd_env \<Rightarrow> string \<Rightarrow> nat \<Rightarrow> kv option \<Rightarrow> string option \<Rightarrow> string \<Rightarrow> etcd_unit \<Rightarrow> effect list" where
  "commit_effects env owner lease record previous digest u =
     map snd (eu_effects u) @ [Put_Key (marker_key env owner) digest (Some lease)] @
     (case previous of Some m \<Rightarrow> [Delete_Key m] | None \<Rightarrow> []) @
     (if map_option kv_value record \<noteq> Some digest then [Put_Key (root_key env) digest None] else []) @
     [Delete_Key (gate_key env)]"

definition publish_unit :: "'e etcd_env \<Rightarrow> string \<Rightarrow> nat \<Rightarrow> kv option \<Rightarrow> ('e, unit) on_etcd" where
  "publish_unit env owner lease record =
     bindm (unit_flush env) (\<lambda>digest.
     bindm (bindm (of_unit eu_pages) (persist_pages env)) (\<lambda>_.
     bindm (of_unit (\<lambda>u. u)) (\<lambda>u.
     bindm (needm (length (eu_guards u) \<le> MAX_GUARDS \<and> length (eu_effects u) \<le> MAX_GUARDS) LIMIT_EXCEEDED) (\<lambda>_.
     bindm (getm es_marker) (\<lambda>previous.
     let guards = commit_guards env owner record u; effects = commit_effects env owner lease record previous digest u in
     bindm (needm (ee_request_size env guards effects < 262144) LIMIT_EXCEEDED) (\<lambda>_.
     bindm (etcd_rpc (ed_txn (ee_etcd env) guards effects)) (\<lambda>succeeded.
     bindm (if succeeded then retm ()
            else bindm (etcd_range env (marker_key env owner)) (\<lambda>committed.
                 needm (map_option kv_value committed = Some digest) VERSION_CONFLICT)) (\<lambda>_.
     modm (\<lambda>s. s\<lparr>es_marker := Some (marker_key env owner)\<rparr>)))))))))"

text \<open>What runs between acquiring the gate, where the unit writes, and the end of the \<^verbatim>\<open>with\<close> block.\<close>

definition reading_unit :: "'e etcd_env \<Rightarrow> ('e, 'a) on_etcd \<Rightarrow> ('e, 'a) on_etcd" where
  "reading_unit env body = bindm (etcd_range env (root_key env)) (\<lambda>record. bindm (open_unit env False record) (\<lambda>_. body))"

definition writing_unit :: "'e etcd_env \<Rightarrow> string \<Rightarrow> nat \<Rightarrow> ('e, 'a) on_etcd \<Rightarrow> ('e, 'a) on_etcd" where
  "writing_unit env owner lease body =
     bindm (etcd_tick (ee_clock env)) (\<lambda>now.
     bindm (take_gate env owner lease (now + ee_gate_wait env) (ee_patience env)) (\<lambda>_.
     bindm (etcd_range env (root_key env)) (\<lambda>record.
     bindm (open_unit env True record) (\<lambda>_.
     bindm body (\<lambda>x.
     bindm (publish_unit env owner lease record) (\<lambda>_. retm x))))))"

definition unit_of_etcd :: "'e etcd_env \<Rightarrow> bool \<Rightarrow> ('e, 'a) on_etcd \<Rightarrow> ('e, 'a) on_etcd" where
  "unit_of_etcd env write body =
     bindm (getm es_unit) (\<lambda>open.
     if open \<noteq> None then raisem RuntimeError
     else
       bindm (etcd_tick (ee_uuid env)) (\<lambda>owner.
       finallym
         (if write
          then bindm (gate_lease env) (\<lambda>lease.
               catchm (writing_unit env owner lease body)
                 (\<lambda>e. bindm (if lease = 0 then retm () else release_gate env owner) (\<lambda>_. raisem e)))
          else reading_unit env body)
         (modm (\<lambda>s. s\<lparr>es_unit := None\<rparr>))))"

section \<open>What the calls leave alone\<close>

text \<open>
  A property \<open>I\<close> that reads, new pages, the play with the gate and the bookkeeping of a unit do not disturb; then no part of a
  unit of work before its publication does. The bookkeeping leaves the guards of the unit alone.
\<close>

definition first_guards :: "'e etcd_env \<Rightarrow> (string \<times> string) list" where
  "first_guards env = fold (\<lambda>(k, x). dict_put k x) (ee_required env) []"

locale undisturbed =
  fixes env :: "'e etcd_env" and I :: "'e etcd_state \<Rightarrow> bool"
  assumes range_keeps: "I s \<Longrightarrow> ed_range (ee_etcd env) k (es_etcd s) = (r, e) \<Longrightarrow> I (s\<lparr>es_etcd := e\<rparr>)"
    and put_keeps: "I s \<Longrightarrow> ed_put (ee_etcd env) (page_key env d) w (es_etcd s) = (p, e) \<Longrightarrow> I (s\<lparr>es_etcd := e\<rparr>)"
    and pages_keep: "I s \<Longrightarrow> \<forall>x \<in> set puts. \<exists>d w. x = Put_Key (page_key env d) w None \<Longrightarrow>
        ed_txn (ee_etcd env) [] puts (es_etcd s) = (b, e) \<Longrightarrow> I (s\<lparr>es_etcd := e\<rparr>)"
    and gate_keeps: "I s \<Longrightarrow> ed_txn (ee_etcd env) gs [Put_Key (gate_key env) owner l] (es_etcd s) = (b, e) \<Longrightarrow> I (s\<lparr>es_etcd := e\<rparr>)"
    and lease_keeps: "I s \<Longrightarrow> ed_grant (ee_etcd env) i n (es_etcd s) = (g, e) \<Longrightarrow> I (s\<lparr>es_etcd := e\<rparr>)"
        "I s \<Longrightarrow> ed_keepalive (ee_etcd env) i (es_etcd s) = (a, e) \<Longrightarrow> I (s\<lparr>es_etcd := e\<rparr>)"
    and local_keeps: "I s \<Longrightarrow> I (s\<lparr>es_cache := c, es_size := z\<rparr>)" "I s \<Longrightarrow> I (s\<lparr>es_ticks := m\<rparr>)" "I s \<Longrightarrow> I (s\<lparr>es_gate_lease := h\<rparr>)"
    and unit_keeps: "I s \<Longrightarrow> (\<And>u. eu_guards (f u) = eu_guards u) \<Longrightarrow> I (s\<lparr>es_unit := map_option f (es_unit s)\<rparr>)"
begin

abbreviation still :: "('e, 'a) on_etcd \<Rightarrow> bool" where
  "still m \<equiv> keeps I m"

lemma still_call: "(\<And>s r e. I s \<Longrightarrow> f (es_etcd s) = (r, e) \<Longrightarrow> I (s\<lparr>es_etcd := e\<rparr>)) \<Longrightarrow> still (call_etcd f)"
  by (auto simp: valid_def call_etcd_def split: prod.splits)

lemma still_rpc: "(\<And>s r e. I s \<Longrightarrow> f (es_etcd s) = (r, e) \<Longrightarrow> I (s\<lparr>es_etcd := e\<rparr>)) \<Longrightarrow> still (etcd_rpc f)"
  unfolding etcd_rpc_def by (intro keep still_call)

lemma still_set [keep]: "(\<And>u. eu_guards (f u) = eu_guards u) \<Longrightarrow> still (set_unit f)"
  unfolding set_unit_def by (intro keeps_modm unit_keeps)

lemma still_tick [keep]: "still (etcd_tick f)"
  by (auto simp: valid_def etcd_tick_def local_keeps(2))

lemma still_cache [keep]: "still (cache_put env d p)"
  by (auto simp: valid_def cache_put_def Let_def local_keeps(1) split: prod.splits)

lemma still_look [keep]: "still (of_unit h)" "still (unit_part none h)"
  unfolding unit_part_def by (auto simp: valid_def of_unit_def split: option.splits)

lemma still_range [keep]: "still (etcd_range env k)"
  unfolding etcd_range_def by (intro still_rpc) (rule range_keeps)

lemma still_mapm [keep]: "(\<And>x. still (f x)) \<Longrightarrow> still (mapm f xs)"
  by (induction xs) (simp_all add: keep)

lemma still_eachm [keep]: "(\<And>x. still (f x)) \<Longrightarrow> still (eachm f xs)"
  by (rule keeps_eachm)

lemma still_wire [keep]: "still (page_wire env d p)" and still_put_page [keep]: "still (put_page env x)"
  by (unfold page_wire_def put_page_def) (intro keep)+

lemma still_page [keep]: "still (page env p)"
  unfolding page_def Let_def by (intro keep still_rpc put_keeps; simp)

lemma still_index [keep]: "still (index_loop env ds)"
proof (induction "length ds" arbitrary: ds rule: less_induct)
  case less
  show ?case
  proof (cases "64 < length ds")
    case True
    have "index_loop env ds = bindm (mapm (\<lambda>ds. page env (index_page ds)) (pieces 63 ds)) (index_loop env)"
      using True by (auto simp: fun_eq_iff bindm_def index_loop.simps [of env ds] split: prod.split sum.split)
    moreover have "valid I (mapm (\<lambda>ds. page env (index_page ds)) (pieces 63 ds))
        (\<lambda>cs s. I s \<and> length cs < length ds) (\<lambda>_. I)"
    proof -
      have "still (mapm (\<lambda>ds. page env (index_page ds)) (pieces 63 ds))" by (intro keep)
      moreover have "length cs < length ds" if "mapm (\<lambda>ds. page env (index_page ds)) (pieces 63 ds) s = (Inr cs, t)" for s cs t
        using mapm_length [OF that] pieces_shorter [of ds 62] True by simp
      ultimately show ?thesis unfolding valid_def by blast
    qed
    moreover have "valid (\<lambda>s. I s \<and> length cs < length ds) (index_loop env cs) (\<lambda>_. I) (\<lambda>_. I)" for cs
      using less [of cs] unfolding valid_def by blast
    ultimately show ?thesis by (simp add: valid_bindm)
  next
    case False
    then have "index_loop env ds = retm ds" by (auto simp: fun_eq_iff index_loop.simps [of env ds])
    then show ?thesis by (simp add: keep del: act_simps)
  qed
qed

lemma still_blob [keep]: "still (blob env x)"
  unfolding blob_def by (intro keep)

lemma still_read_page [keep]: "still (read_page env d)"
  unfolding read_page_def by (intro keep)

lemma still_read_blob [keep]: "still (read_blob env n d)"
proof (induction n arbitrary: d)
  case (Suc n)
  show ?case unfolding read_blob.simps by (intro keep Suc)
qed (simp add: keep del: act_simps)

lemma still_object [keep]: "still (read_object env d)"
  unfolding read_object_def by (intro keep)

lemma still_bucket [keep]: "still (open_bucket env k sh)" "still (bucket env k i)"
proof -
  show "still (open_bucket env k sh)" for k sh
    unfolding open_bucket_def
    by (intro keep; rename_tac v; case_tac v; simp only: json.case; intro keep; simp)
  then show "still (bucket env k i)" unfolding bucket_def .
qed

lemma still_get [keep]: "still (unit_get env k i)"
  unfolding unit_get_def by (intro keep)

lemma still_pending [keep]: "still (set_pending k i v)"
  unfolding set_pending_def by (intro keep) simp

lemma still_all [keep]: "still (unit_all env k)"
  unfolding unit_all_def Let_def by (intro keep)

lemma still_put [keep]: "still (put_unleased k v)"
  unfolding put_unleased_def by (intro keep)

lemma still_flush [keep]: "still (unit_flush env)"
  unfolding unit_flush_def flush_rows_def flush_row_def flush_bucket_def Let_def by (intro keep; simp)

lemma still_persist [keep]: "still (persist_pages env pages)"
proof -
  have puts: "valid I (mapm (put_page env) batch)
      (\<lambda>puts s. I s \<and> (\<forall>x \<in> set puts. \<exists>d w. x = Put_Key (page_key env d) w None)) (\<lambda>_. I)" for batch
  proof -
    have "\<forall>x \<in> set puts. \<exists>d w. x = Put_Key (page_key env d) w None" if "mapm (put_page env) batch s = (Inr puts, t)" for s puts t
      using that by (induction batch arbitrary: s puts) (auto simp: bindm_eq_Inr put_page_def)
    moreover have "still (mapm (put_page env) batch)" by (intro keep)
    ultimately show ?thesis unfolding valid_def by blast
  qed
  have txn: "valid (\<lambda>s. I s \<and> (\<forall>x \<in> set puts. \<exists>d w. x = Put_Key (page_key env d) w None))
      (etcd_rpc (ed_txn (ee_etcd env) [] puts)) (\<lambda>_. I) (\<lambda>_. I)" for puts
    using pages_keep [of _ puts] unfolding valid_def
    by (auto simp: etcd_rpc_def bindm_def call_etcd_def split: prod.splits sum.splits)
  have batch: "still (flush_batch env batch)" for batch
    unfolding flush_batch_def by (intro keeps_cases keep valid_bindm [OF puts] valid_bindm [OF txn])
  have "still (persist_from env batch n pages)" for batch n
    by (induction pages arbitrary: batch n) (auto simp: batch intro!: keep)
  then show ?thesis by (simp add: persist_pages_def)
qed

lemma still_gate [keep]: "still (take_gate env owner lease deadline n)"
proof (induction n)
  case (Suc n)
  show ?case unfolding take_gate.simps before_def by (intro keep Suc still_rpc) (rule gate_keeps)
qed (simp add: keep del: act_simps)

lemma still_lease [keep]: "still (gate_lease env)"
proof -
  have set_lease: "still (modm (\<lambda>s. s\<lparr>es_gate_lease := l\<rparr>))" for l by (intro keeps_modm local_keeps)
  have grant: "still (etcd_rpc (ed_grant (ee_etcd env) i n))" for i n
    by (rule still_rpc) (rule lease_keeps(1))
  have renew: "still (call_etcd (ed_keepalive (ee_etcd env) i))" for i
    by (rule still_call) (rule lease_keeps(2))
  note calls = grant renew
  have alive: "still (keepalive env i)" for i
    unfolding keepalive_def by (intro keep calls)
  have new: "still (new_gate_lease env)"
    unfolding new_gate_lease_def grant_lease_def by (intro keep calls set_lease)
  show ?thesis unfolding gate_lease_def
    by (intro keep alive new; rename_tac e; case_tac e; simp only: exn.case; intro keep set_lease new)
qed

end

locale undisturbed_open = undisturbed +
  assumes open_keeps: "I s \<Longrightarrow> eu_guards u = first_guards env \<Longrightarrow> I (s\<lparr>es_unit := Some u\<rparr>)"
begin

lemma still_open [keep]: "still (open_unit env write record)"
proof -
  have "still (case v of JObj tree \<Rightarrow> modm (\<lambda>s. s\<lparr>es_unit := Some (u tree)\<rparr>) | _ \<Rightarrow> raisem AttributeError)"
    if "\<And>tree. eu_guards (u tree) = first_guards env" for v u
    using that by (cases v) (auto simp only: json.case intro!: keeps_rules keeps_modm open_keeps)
  then show ?thesis unfolding open_unit_def by (intro keep) (simp add: first_guards_def)
qed

end

text \<open>The guards of a unit change in \<open>lease_live\<close> only.\<close>

interpretation held: undisturbed env "\<lambda>s. \<forall>u. es_unit s = Some u \<longrightarrow> eu_guards u = g"
  for env :: "'e etcd_env" and g
  by unfold_locales auto

lemma open_unit_guards: "open_unit env write record s = (Inr (), t) \<Longrightarrow> \<exists>u. es_unit t = Some u \<and> eu_guards u = first_guards env"
  unfolding open_unit_def bindm_eq_Inr by (elim exE conjE; rename_tac v s'; case_tac v; auto simp: first_guards_def)

section \<open>What etcd promises about transactions\<close>

type_synonym revision = "string \<Rightarrow> kv option"

fun met :: "revision \<Rightarrow> guard \<Rightarrow> bool" where
  "met b (Value_Is k v) = (map_option kv_value (b k) = Some v)"
| "met b (Never_Created k) = (b k = None)"
| "met b (Modified_At k n) = (case b k of None \<Rightarrow> n = 0 | Some r \<Rightarrow> kv_mod r = n)"

definition values_of :: "revision \<Rightarrow> string \<Rightarrow> string option" where
  "values_of b k = map_option kv_value (b k)"

text \<open>
  The revisions of the store, of which \<open>hist\<close> is the list up to now. While a call runs, others may add revisions; a key of
  \<open>own\<close> is written by this process only, so by others it can at most be removed, when its lease ends.
\<close>

definition grown :: "(string \<Rightarrow> bool) \<Rightarrow> revision list \<Rightarrow> revision list \<Rightarrow> bool" where
  "grown own h h' \<longleftrightarrow> (\<exists>more. h' = h @ more \<and> (\<forall>r \<in> set more. \<forall>k. own k \<longrightarrow> r k = None \<or> r k = last h k))"

text \<open>A transaction that takes place: at one revision its comparisons hold, and the next one has all its effects.\<close>

definition performed :: "(string \<Rightarrow> bool) \<Rightarrow> guard list \<Rightarrow> effect list \<Rightarrow> revision list \<Rightarrow> revision list \<Rightarrow> bool" where
  "performed own gs es h h' \<longleftrightarrow> (\<exists>h1 c h2. h' = h1 @ c # h2 \<and> grown own h h1 \<and> list_all (met (last h1)) gs \<and>
     values_of c = fold apply_effect es (values_of (last h1)) \<and> grown own (h1 @ [c]) (h1 @ c # h2))"

text \<open>
  A call that reads adds nothing of its own; a transaction that reports success has been performed, and one that reports a failed comparison, or
  nothing at all, may have been performed by an attempt whose answer was lost. A revision number belongs to one version of a key.
\<close>

definition atomic :: "'e etcd_env \<Rightarrow> ('e \<Rightarrow> revision list) \<Rightarrow> (string \<Rightarrow> bool) \<Rightarrow> bool" where
  "atomic env hist own \<longleftrightarrow>
     (\<forall>e. hist e \<noteq> [] \<and> (\<forall>b \<in> set (hist e). \<forall>c \<in> set (hist e). \<forall>k x y. b k = Some x \<longrightarrow> 0 < kv_mod x \<and> (c k = Some y \<longrightarrow> kv_mod x = kv_mod y \<longrightarrow> x = y))) \<and>
     (\<forall>k e r e'. ed_range (ee_etcd env) k e = (r, e') \<longrightarrow> grown own (hist e) (hist e') \<and> (\<forall>v. r = Inr v \<longrightarrow> v = last (hist e') k)) \<and>
     (\<forall>k w e r e'. ed_put (ee_etcd env) k w e = (r, e') \<longrightarrow> grown own (hist e) (hist e') \<or> performed own [] [Put_Key k w None] (hist e) (hist e')) \<and>
     (\<forall>gs es e r e'. ed_txn (ee_etcd env) gs es e = (r, e') \<longrightarrow> performed own gs es (hist e) (hist e') \<or>
        r \<noteq> Inr True \<and> grown own (hist e) (hist e')) \<and>
     (\<forall>i n e r e'. ed_grant (ee_etcd env) i n e = (r, e') \<longrightarrow> grown own (hist e) (hist e')) \<and>
     (\<forall>i e r e'. ed_keepalive (ee_etcd env) i e = (r, e') \<longrightarrow> grown own (hist e) (hist e'))"

lemma atomicD:
  "atomic env hist own \<Longrightarrow> \<forall>e. hist e \<noteq> [] \<and> (\<forall>b \<in> set (hist e). \<forall>c \<in> set (hist e). \<forall>k x y. b k = Some x \<longrightarrow> 0 < kv_mod x \<and> (c k = Some y \<longrightarrow> kv_mod x = kv_mod y \<longrightarrow> x = y))"
  "atomic env hist own \<Longrightarrow> \<forall>k e r e'. ed_range (ee_etcd env) k e = (r, e') \<longrightarrow> grown own (hist e) (hist e') \<and> (\<forall>v. r = Inr v \<longrightarrow> v = last (hist e') k)"
  "atomic env hist own \<Longrightarrow> \<forall>k w e r e'. ed_put (ee_etcd env) k w e = (r, e') \<longrightarrow> grown own (hist e) (hist e') \<or> performed own [] [Put_Key k w None] (hist e) (hist e')"
  "atomic env hist own \<Longrightarrow> \<forall>gs es e r e'. ed_txn (ee_etcd env) gs es e = (r, e') \<longrightarrow> performed own gs es (hist e) (hist e') \<or>
        r \<noteq> Inr True \<and> grown own (hist e) (hist e')"
  "atomic env hist own \<Longrightarrow> \<forall>i n e r e'. ed_grant (ee_etcd env) i n e = (r, e') \<longrightarrow> grown own (hist e) (hist e')"
  "atomic env hist own \<Longrightarrow> \<forall>i e r e'. ed_keepalive (ee_etcd env) i e = (r, e') \<longrightarrow> grown own (hist e) (hist e')"
  unfolding atomic_def by (elim conjE, assumption)+

text \<open>The marker of the owner is not there, and nothing of the history \<open>h\<close> is lost.\<close>

definition unmarked :: "'e etcd_env \<Rightarrow> ('e \<Rightarrow> revision list) \<Rightarrow> (string \<Rightarrow> bool) \<Rightarrow> string \<Rightarrow> revision list \<Rightarrow> 'e \<Rightarrow> bool" where
  "unmarked env hist own owner h e \<longleftrightarrow> atomic env hist own \<and> own (marker_key env owner) \<and>
     last (hist e) (marker_key env owner) = None \<and> (\<exists>more. hist e = h @ more)"

lemma grown_unmarked:
  assumes "grown own h h'" and "own k" and "last h k = None" and "h \<noteq> []"
  shows "last h' k = None \<and> (\<exists>more. h' = h @ more)"
proof -
  obtain more where more: "h' = h @ more" "\<forall>r \<in> set more. \<forall>k. own k \<longrightarrow> r k = None \<or> r k = last h k"
    using assms(1) unfolding grown_def by blast
  have "last h' k = None"
  proof (cases "more = []")
    case False
    then have "last h' = last more" "last more \<in> set more" by (simp_all add: more(1))
    with more(2) assms(2,3) show ?thesis by force
  qed (use more assms(3) in simp)
  with more(1) show ?thesis by blast
qed

lemma performed_unmarked:
  assumes "performed own gs es h h'" and "own k" and "last h k = None" and "h \<noteq> []" and "\<And>m. m k = None \<Longrightarrow> fold apply_effect es m k = None"
  shows "last h' k = None \<and> (\<exists>more. h' = h @ more)"
proof -
  obtain h1 c h2 where h: "h' = h1 @ c # h2" "grown own h h1" "values_of c = fold apply_effect es (values_of (last h1))" "grown own (h1 @ [c]) (h1 @ c # h2)"
    using assms(1) by (auto simp: performed_def)
  from grown_unmarked [OF h(2) assms(2-4)] obtain more where one: "last h1 k = None" "h1 = h @ more" by blast
  then have "values_of c k = None" using assms(5) [of "values_of (last h1)"] h(3) by (simp add: values_of_def)
  then have "last (h1 @ [c]) k = None" by (simp add: values_of_def)
  from grown_unmarked [OF h(4) assms(2) this] one(2) show ?thesis by (auto simp: h(1))
qed

lemma marker_other [simp]: "marker_key env owner \<noteq> page_key env d" "marker_key env owner \<noteq> gate_key env"
  by (simp_all add: marker_key_def page_key_def gate_key_def)

lemma puts_elsewhere:
  "\<forall>x \<in> set puts. \<exists>d w. x = Put_Key (page_key env d) w None \<Longrightarrow> m (marker_key env owner) = None \<Longrightarrow>
     fold apply_effect puts m (marker_key env owner) = None"
  by (induction puts arbitrary: m) auto

lemma unmarked_atomic: "unmarked env hist own owner h e \<Longrightarrow> atomic env hist own"
  by (simp add: unmarked_def)

lemma unmarked_keeps:
  assumes u: "unmarked env hist own owner h e"
  shows "grown own (hist e) (hist e') \<Longrightarrow> unmarked env hist own owner h e'"
    "performed own gs es (hist e) (hist e') \<Longrightarrow> (\<And>m. m (marker_key env owner) = None \<Longrightarrow> fold apply_effect es m (marker_key env owner) = None) \<Longrightarrow>
       unmarked env hist own owner h e'"
proof -
  let ?m = "marker_key env owner"
  have at: "atomic env hist own" and own: "own ?m" and no: "last (hist e) ?m = None" and ne: "hist e \<noteq> []"
    and pre: "\<exists>more. hist e = h @ more" using u atomicD(1) by (auto simp: unmarked_def)
  show "unmarked env hist own owner h e'" if "grown own (hist e) (hist e')"
    using grown_unmarked [OF that own no ne] at own pre by (auto simp: unmarked_def)
  show "unmarked env hist own owner h e'"
    if "performed own gs es (hist e) (hist e')" "\<And>m. m ?m = None \<Longrightarrow> fold apply_effect es m ?m = None"
    using performed_unmarked [OF that(1) own no ne that(2)] at own pre by (auto simp: unmarked_def)
qed

interpretation start: undisturbed_open env "\<lambda>s. unmarked env hist own owner h (es_etcd s)"
  for env :: "'e etcd_env" and hist own owner h
proof
  let ?u = "\<lambda>s. unmarked env hist own owner h (es_etcd s)"
  show "?u (s\<lparr>es_etcd := e\<rparr>)" if "?u s" "ed_range (ee_etcd env) k (es_etcd s) = (r, e)" for s e k r
    using unmarked_keeps(1) [OF that(1)] atomicD(2) [of env hist own] that by (auto simp: unmarked_def)
  show "?u (s\<lparr>es_etcd := e\<rparr>)" if "?u s" "ed_put (ee_etcd env) (page_key env d) w (es_etcd s) = (p, e)" for s e d w p
  proof -
    have "grown own (hist (es_etcd s)) (hist e) \<or> performed own [] [Put_Key (page_key env d) w None] (hist (es_etcd s)) (hist e)"
      using atomicD(3) [of env hist own] that by (auto simp: unmarked_def)
    then show ?thesis using unmarked_keeps(1) [OF that(1), of e] unmarked_keeps(2) [OF that(1), of "[]" "[Put_Key (page_key env d) w None]" e] by auto
  qed
  show "?u (s\<lparr>es_etcd := e\<rparr>)" if "?u s" "\<forall>x \<in> set puts. \<exists>d w. x = Put_Key (page_key env d) w None"
      "ed_txn (ee_etcd env) [] puts (es_etcd s) = (b, e)" for s e puts b
  proof -
    have "performed own [] puts (hist (es_etcd s)) (hist e) \<or> grown own (hist (es_etcd s)) (hist e)"
      using atomicD(4) [OF unmarked_atomic [OF that(1)]] that by blast
    then show ?thesis using unmarked_keeps(1) [OF that(1), of e] unmarked_keeps(2) [OF that(1), of "[]" puts e] puts_elsewhere [OF that(2)] by auto
  qed
  show "?u (s\<lparr>es_etcd := e\<rparr>)" if "?u s" "ed_txn (ee_etcd env) gs [Put_Key (gate_key env) owner' l] (es_etcd s) = (b, e)" for s e gs owner' l b
  proof -
    have "performed own gs [Put_Key (gate_key env) owner' l] (hist (es_etcd s)) (hist e) \<or> grown own (hist (es_etcd s)) (hist e)"
      using atomicD(4) [OF unmarked_atomic [OF that(1)]] that by blast
    then show ?thesis using unmarked_keeps(1) [OF that(1), of e] unmarked_keeps(2) [OF that(1), of gs "[Put_Key (gate_key env) owner' l]" e] by auto
  qed
  show "?u (s\<lparr>es_etcd := e\<rparr>)" if "?u s" "ed_grant (ee_etcd env) i n (es_etcd s) = (g, e)" for s e i n g
    using unmarked_keeps(1) [OF that(1)] atomicD(5) [of env hist own] that by (auto simp: unmarked_def)
  show "?u (s\<lparr>es_etcd := e\<rparr>)" if "?u s" "ed_keepalive (ee_etcd env) i (es_etcd s) = (a, e)" for s e i a
    using unmarked_keeps(1) [OF that(1)] atomicD(6) [of env hist own] that by (auto simp: unmarked_def)
qed simp_all

section \<open>Publication\<close>

text \<open>What \<open>publish_unit\<close> has done when it returns: its transaction took place at one revision.\<close>

lemma grown_trans_prefix: "grown own h h' \<Longrightarrow> \<exists>more. h' = h @ more"
  by (auto simp: grown_def)

lemma performed_prefix: "performed own gs es h h' \<Longrightarrow> \<exists>more. h' = h @ more"
  by (auto simp: performed_def grown_def)

lemma last_txn:
  assumes before: "unmarked env hist own owner h (es_etcd s)"
    and run: "bindm (etcd_rpc (ed_txn (ee_etcd env) gs es)) (\<lambda>succeeded.
       bindm (if succeeded then retm ()
            else bindm (etcd_range env (marker_key env owner)) (\<lambda>committed.
                 needm (map_option kv_value committed = Some digest) VERSION_CONFLICT)) (\<lambda>_.
       modm (\<lambda>s. s\<lparr>es_marker := Some (marker_key env owner)\<rparr>))) s = (Inr (), t)"
  shows "\<exists>h'. performed own gs es (hist (es_etcd s)) h' \<and> (\<exists>more. hist (es_etcd t) = h' @ more)"
proof -
  have at: "atomic env hist own" using before by (simp add: unmarked_def)
  obtain ok e where txn: "ed_txn (ee_etcd env) gs es (es_etcd s) = (Inr ok, e)"
    and rest: "bindm (if ok then retm ()
            else bindm (etcd_range env (marker_key env owner)) (\<lambda>committed.
                 needm (map_option kv_value committed = Some digest) VERSION_CONFLICT)) (\<lambda>_.
       modm (\<lambda>s. s\<lparr>es_marker := Some (marker_key env owner)\<rparr>)) (s\<lparr>es_etcd := e\<rparr>) = (Inr (), t)"
    using run unfolding bindm_eq_Inr [of "etcd_rpc _"]
    by (auto simp: etcd_rpc_def bindm_eq_Inr call_etcd_def split: prod.splits sum.splits)
  from atomicD(4) [OF at] txn have cases: "performed own gs es (hist (es_etcd s)) (hist e) \<or> Inr ok \<noteq> (Inr True :: etcd_failure + bool) \<and> grown own (hist (es_etcd s)) (hist e)"
    by blast
  show ?thesis
  proof (cases ok)
    case True
    with rest have "es_etcd t = e" by (auto simp: bindm_eq_Inr)
    with True cases show ?thesis by auto
  next
    case False
    from rest False obtain r e' where r: "ed_range (ee_etcd env) (marker_key env owner) e = (Inr r, e')" "map_option kv_value r = Some digest" "es_etcd t = e'"
      by (auto simp: bindm_eq_Inr etcd_range_def etcd_rpc_def call_etcd_def needm_eq_Inr split: prod.splits sum.splits)
    from atomicD(2) [OF at] r(1) have after: "grown own (hist e) (hist e')" "r = last (hist e') (marker_key env owner)" by blast+
    have "\<not> grown own (hist (es_etcd s)) (hist e)"
    proof
      assume grow: "grown own (hist (es_etcd s)) (hist e)"
      have m: "own (marker_key env owner)" "last (hist (es_etcd s)) (marker_key env owner) = None" using before by (simp_all add: unmarked_def)
      have ne: "hist (es_etcd s) \<noteq> []" "hist e \<noteq> []" using atomicD(1) [OF at] by blast+
      from grown_unmarked [OF grow m ne(1)] have "last (hist e) (marker_key env owner) = None" by blast
      from grown_unmarked [OF after(1) m(1) this ne(2)] have "last (hist e') (marker_key env owner) = None" by blast
      with after(2) r(2) show False by simp
    qed
    with cases have "performed own gs es (hist (es_etcd s)) (hist e)" by blast
    with grown_trans_prefix [OF after(1)] r(3) show ?thesis by auto
  qed
qed

lemma publish_performed:
  assumes before: "unmarked env hist own owner h (es_etcd s)" and run: "publish_unit env owner lease record s = (Inr (), t)"
  shows "\<exists>digest s3 s4 w h'. unit_flush env s = (Inr digest, s3) \<and> bindm (of_unit eu_pages) (persist_pages env) s3 = (Inr (), s4) \<and>
     es_unit s4 = Some w \<and> unmarked env hist own owner (hist (es_etcd s)) (es_etcd s4) \<and>
     performed own (commit_guards env owner record w) (commit_effects env owner lease record (es_marker s4) digest w) (hist (es_etcd s4)) h' \<and>
     (\<exists>more. hist (es_etcd t) = h' @ more)"
proof -
  let ?I = "\<lambda>s'. unmarked env hist own owner (hist (es_etcd s)) (es_etcd s')"
  have I: "?I s" using before by (simp add: unmarked_def)
  from run obtain digest s3 where flush: "unit_flush env s = (Inr digest, s3)"
    and r1: "bindm (bindm (of_unit eu_pages) (persist_pages env)) (\<lambda>_.
     bindm (of_unit (\<lambda>u. u)) (\<lambda>u.
     bindm (needm (length (eu_guards u) \<le> MAX_GUARDS \<and> length (eu_effects u) \<le> MAX_GUARDS) LIMIT_EXCEEDED) (\<lambda>_.
     bindm (getm es_marker) (\<lambda>previous.
     let guards = commit_guards env owner record u; effects = commit_effects env owner lease record previous digest u in
     bindm (needm (ee_request_size env guards effects < 262144) LIMIT_EXCEEDED) (\<lambda>_.
     bindm (etcd_rpc (ed_txn (ee_etcd env) guards effects)) (\<lambda>succeeded.
     bindm (if succeeded then retm ()
            else bindm (etcd_range env (marker_key env owner)) (\<lambda>committed.
                 needm (map_option kv_value committed = Some digest) VERSION_CONFLICT)) (\<lambda>_.
     modm (\<lambda>s. s\<lparr>es_marker := Some (marker_key env owner)\<rparr>)))))))) s3 = (Inr (), t)"
    unfolding publish_unit_def bindm_eq_Inr [of "unit_flush env"] by blast
  from r1 obtain s4 where pages: "bindm (of_unit eu_pages) (persist_pages env) s3 = (Inr (), s4)"
    and r2: "bindm (of_unit (\<lambda>u. u)) (\<lambda>u.
     bindm (needm (length (eu_guards u) \<le> MAX_GUARDS \<and> length (eu_effects u) \<le> MAX_GUARDS) LIMIT_EXCEEDED) (\<lambda>_.
     bindm (getm es_marker) (\<lambda>previous.
     let guards = commit_guards env owner record u; effects = commit_effects env owner lease record previous digest u in
     bindm (needm (ee_request_size env guards effects < 262144) LIMIT_EXCEEDED) (\<lambda>_.
     bindm (etcd_rpc (ed_txn (ee_etcd env) guards effects)) (\<lambda>succeeded.
     bindm (if succeeded then retm ()
            else bindm (etcd_range env (marker_key env owner)) (\<lambda>committed.
                 needm (map_option kv_value committed = Some digest) VERSION_CONFLICT)) (\<lambda>_.
     modm (\<lambda>s. s\<lparr>es_marker := Some (marker_key env owner)\<rparr>))))))) s4 = (Inr (), t)"
    by (subst (asm) bindm_eq_Inr) auto
  from r2 obtain w where w: "es_unit s4 = Some w"
    and r3: "bindm (etcd_rpc (ed_txn (ee_etcd env) (commit_guards env owner record w) (commit_effects env owner lease record (es_marker s4) digest w))) (\<lambda>succeeded.
     bindm (if succeeded then retm ()
            else bindm (etcd_range env (marker_key env owner)) (\<lambda>committed.
                 needm (map_option kv_value committed = Some digest) VERSION_CONFLICT)) (\<lambda>_.
     modm (\<lambda>s. s\<lparr>es_marker := Some (marker_key env owner)\<rparr>))) s4 = (Inr (), t)"
    by (auto simp: bindm_def of_unit_def needm_def Let_def split: option.splits if_splits)
  have I3: "?I s3" using keepsD [OF start.still_flush I flush] .
  have kept: "keeps ?I (bindm (of_unit eu_pages) (persist_pages env))" by (intro keep)
  have I4: "?I s4" using keepsD [OF kept I3 pages] .
  from last_txn [OF I4 r3] flush pages w I4 show ?thesis by blast
qed

section \<open>A unit that is opened\<close>

text \<open>The rows the root record leads to; without a root there are none.\<close>

definition recorded_rows :: "'e etcd_env \<Rightarrow> (string \<Rightarrow> string option) \<Rightarrow> kv option \<Rightarrow> rows \<Rightarrow> bool" where
  "recorded_rows env view record base \<longleftrightarrow>
     (case record of None \<Rightarrow> (\<forall>k. base k = tempty) | Some r \<Rightarrow> stored_rows env (stored_pages env view) (kv_value r) base) \<and>
     (\<forall>k i v. tget (base k) i = Some v \<longrightarrow> row_fine v)"

lemma open_unit_ok:
  assumes "serving env content" and "cache_ok env content s" and rows: "recorded_rows env (content (es_etcd s)) rec base"
  shows "\<exists>t u bk. open_unit env True rec s = (Inr (), t) \<and> opened env content (content (es_etcd s)) u bk t \<and>
     unit_at env (content (es_etcd s)) u bk base base \<and> eu_pending u = []"
proof -
  let ?G = "stored_pages env (content (es_etcd s))"
  let ?new = "\<lambda>tree. \<lparr>eu_write = True, eu_root = tree, eu_buckets = (\<lambda>_. None), eu_pending = [],
     eu_guards = fold (\<lambda>(k, x). dict_put k x) (ee_required env) [], eu_effects = [], eu_lease_reads = [], eu_pages = []\<rparr>"
  obtain rt bk t where tree: "root_at ?G rt bk" "buckets_at env ?G bk base"
    and t: "(case rec of None \<Rightarrow> retm (JObj []) | Some r \<Rightarrow> read_object env (Some (kv_value r))) s = (Inr (JObj rt), t)" "only_read env content s t"
  proof (cases rec)
    case None
    then have "root_at ?G [] (\<lambda>_. [])" "buckets_at env ?G (\<lambda>_. []) base"
      using rows by (simp_all add: root_at_def buckets_at_def child_dict_def recorded_rows_def)
    with that None assms(2) show ?thesis by (auto intro: only_read_refl)
  next
    case (Some r)
    with rows obtain rt bk where "object_at ?G (kv_value r) (JObj rt)" "root_at ?G rt bk" "buckets_at env ?G bk base"
      by (auto simp: recorded_rows_def stored_rows_def)
    with that Some read_object_ok [OF _ assms(1,2)] show ?thesis by (metis option.case(2))
  qed
  let ?t = "t\<lparr>es_unit := Some (?new rt)\<rparr>"
  have "open_unit env True rec s = (Inr (), ?t)" using t(1) by (simp add: open_unit_def bindm_def)
  moreover have "opened env content (content (es_etcd s)) (?new rt) bk ?t"
    using tree(1) assms(1) only_readD(1,2) [OF t(2)] unfolding opened_def by (intro conjI exI [of _ "\<lambda>_. None"]) simp_all
  moreover have "unit_at env (content (es_etcd s)) (?new rt) bk base base"
    using tree(2) rows by (simp add: unit_at_def pending_ok_def overlaid_def recorded_rows_def)
  ultimately show ?thesis by (intro exI [of _ ?t] exI [of _ "?new rt"] exI [of _ bk]) simp
qed

section \<open>A unit of work that returns\<close>

lemma same_version:
  assumes "atomic env hist own" and "b \<in> set (hist e)" and "c \<in> set (hist e)"
    and "met c (Modified_At k (case b k of Some r \<Rightarrow> kv_mod r | None \<Rightarrow> 0))"
  shows "c k = b k"
proof -
  have versions: "b k = Some z \<Longrightarrow> 0 < kv_mod z" "c k = Some y \<Longrightarrow> 0 < kv_mod y"
    "c k = Some y \<Longrightarrow> b k = Some z \<Longrightarrow> kv_mod y = kv_mod z \<Longrightarrow> y = z" for y z
    using atomicD(1) [OF assms(1)] assms(2,3) by blast+
  show ?thesis
  proof (cases "c k")
    case None
    with assms(4) versions(1) show ?thesis by (cases "b k") auto
  next
    case (Some y)
    with assms(4) versions(2) [OF Some] versions(3) [OF Some] show ?thesis by (cases "b k") auto
  qed
qed

lemma unit_published:
  assumes at: "unmarked env hist own (ee_uuid env (es_ticks s)) (hist (es_etcd s)) (es_etcd s)"
    and harmless: "\<And>h. keeps (\<lambda>s'. unmarked env hist own (ee_uuid env (es_ticks s)) h (es_etcd s')) body"
    and returned: "unit_of_etcd env True body s = (Inr x, t)"
  shows "\<exists>lease sd s1 s2 t1. unmarked env hist own (ee_uuid env (es_ticks s)) (hist (es_etcd s)) (es_etcd sd) \<and>
     open_unit env True (last (hist (es_etcd sd)) (root_key env)) sd = (Inr (), s1) \<and> body s1 = (Inr x, s2) \<and>
     unmarked env hist own (ee_uuid env (es_ticks s)) (hist (es_etcd sd)) (es_etcd s2) \<and>
     publish_unit env (ee_uuid env (es_ticks s)) lease (last (hist (es_etcd sd)) (root_key env)) s2 = (Inr (), t1) \<and> es_etcd t = es_etcd t1"
proof -
  let ?o = "ee_uuid env (es_ticks s)"
  let ?I = "\<lambda>s'. unmarked env hist own ?o (hist (es_etcd s)) (es_etcd s')"
  define s' where "s' = s\<lparr>es_ticks := Suc (es_ticks s)\<rparr>"
  have I': "?I s'" using at by (simp add: s'_def)
  have "finallym (bindm (gate_lease env) (\<lambda>lease. catchm (writing_unit env ?o lease body)
                 (\<lambda>e. bindm (if lease = 0 then retm () else release_gate env ?o) (\<lambda>_. raisem e)))) (modm (\<lambda>s. s\<lparr>es_unit := None\<rparr>)) s' = (Inr x, t)"
    using returned by (cases "es_unit s") (simp_all add: unit_of_etcd_def bindm_def etcd_tick_def s'_def del: not_None_eq)
  then obtain t1 where run: "bindm (gate_lease env) (\<lambda>lease. catchm (writing_unit env ?o lease body)
                 (\<lambda>e. bindm (if lease = 0 then retm () else release_gate env ?o) (\<lambda>_. raisem e))) s' = (Inr x, t1)"
    and t: "modm (\<lambda>s. s\<lparr>es_unit := None\<rparr>) t1 = (Inr (), t)"
    unfolding finallym_eq by blast
  obtain lease sa where lease: "gate_lease env s' = (Inr lease, sa)" and work: "writing_unit env ?o lease body sa = (Inr x, t1)"
    using run by (auto simp: bindm_eq_Inr catchm_eq)
  obtain now sb sc and g :: unit where clock: "etcd_tick (ee_clock env) sa = (Inr now, sb)"
    and gate: "take_gate env ?o lease (now + ee_gate_wait env) (ee_patience env) sb = (Inr g, sc)"
    and rest: "bindm (etcd_range env (root_key env)) (\<lambda>record. bindm (open_unit env True record) (\<lambda>_.
       bindm body (\<lambda>x. bindm (publish_unit env ?o lease record) (\<lambda>_. retm x)))) sc = (Inr x, t1)"
    using work unfolding writing_unit_def bindm_eq_Inr [of "etcd_tick _"] bindm_eq_Inr [of "take_gate _ _ _ _ _"] by blast
  have Ic: "?I sc"
    using keepsD [OF start.still_gate keepsD [OF start.still_tick keepsD [OF start.still_lease I' lease] clock] gate] .
  obtain rec sd s1 s2 where range: "etcd_range env (root_key env) sc = (Inr rec, sd)" and opened: "open_unit env True rec sd = (Inr (), s1)"
    and body: "body s1 = (Inr x, s2)" and publish: "publish_unit env ?o lease rec s2 = (Inr (), t1)"
    using rest by (auto simp: bindm_eq_Inr)
  have Id: "?I sd" using keepsD [OF start.still_range Ic range] .
  then have "unmarked env hist own ?o (hist (es_etcd sd)) (es_etcd sd)" by (simp add: unmarked_def)
  then have "unmarked env hist own ?o (hist (es_etcd sd)) (es_etcd s2)"
    using keepsD [OF harmless keepsD [OF start.still_open _ opened] body] by blast
  moreover have "atomic env hist own" using at by (simp add: unmarked_def)
  then have "rec = last (hist (es_etcd sd)) (root_key env)"
    using range atomicD(2) [of env hist own]
    by (auto simp: etcd_range_def etcd_rpc_def bindm_eq_Inr call_etcd_def split: prod.splits sum.splits)
  moreover have "es_etcd t = es_etcd t1" using t by auto
  ultimately show ?thesis using Id opened body publish by blast
qed

lemma unit_committed:
  assumes "atomic env hist own" and "own (marker_key env (ee_uuid env (es_ticks s)))"
    and "last (hist (es_etcd s)) (marker_key env (ee_uuid env (es_ticks s))) = None"
    and "\<And>h. keeps (\<lambda>s'. unmarked env hist own (ee_uuid env (es_ticks s)) h (es_etcd s')) body"
    and "unit_of_etcd env True body s = (Inr x, t)"
  shows "\<exists>record s0 s1 s2 s3 s4 digest w lease h1 c h2.
     open_unit env True record s0 = (Inr (), s1) \<and> body s1 = (Inr x, s2) \<and> unit_flush env s2 = (Inr digest, s3) \<and>
     bindm (of_unit eu_pages) (persist_pages env) s3 = (Inr (), s4) \<and> es_unit s4 = Some w \<and>
     hist (es_etcd t) = h1 @ c # h2 \<and> (\<exists>more. h1 = hist (es_etcd s) @ more) \<and> last h1 (root_key env) = record \<and>
     list_all (met (last h1)) (commit_guards env (ee_uuid env (es_ticks s)) record w) \<and>
     values_of c = fold apply_effect (commit_effects env (ee_uuid env (es_ticks s)) lease record (es_marker s4) digest w) (values_of (last h1))"
proof -
  let ?o = "ee_uuid env (es_ticks s)"
  have "unmarked env hist own ?o (hist (es_etcd s)) (es_etcd s)" using assms(1-3) by (simp add: unmarked_def)
  from unit_published [OF this assms(4,5)] obtain lease sd s1 s2 t1 where
    Id: "unmarked env hist own ?o (hist (es_etcd s)) (es_etcd sd)" and opened: "open_unit env True (last (hist (es_etcd sd)) (root_key env)) sd = (Inr (), s1)"
    and body: "body s1 = (Inr x, s2)" and K2: "unmarked env hist own ?o (hist (es_etcd sd)) (es_etcd s2)"
    and publish: "publish_unit env ?o lease (last (hist (es_etcd sd)) (root_key env)) s2 = (Inr (), t1)" and t: "es_etcd t = es_etcd t1" by blast
  let ?rec = "last (hist (es_etcd sd)) (root_key env)"
  from publish_performed [OF K2 publish] obtain digest s3 s4 w h' where done4: "unit_flush env s2 = (Inr digest, s3)"
      "bindm (of_unit eu_pages) (persist_pages env) s3 = (Inr (), s4)" "es_unit s4 = Some w"
      "unmarked env hist own ?o (hist (es_etcd s2)) (es_etcd s4)"
      "performed own (commit_guards env ?o ?rec w) (commit_effects env ?o lease ?rec (es_marker s4) digest w) (hist (es_etcd s4)) h'"
      "\<exists>more. hist (es_etcd t1) = h' @ more" by blast
  from done4(5) obtain h1 c h2 where h': "h' = h1 @ c # h2" "grown own (hist (es_etcd s4)) h1"
      "list_all (met (last h1)) (commit_guards env ?o ?rec w)"
      "values_of c = fold apply_effect (commit_effects env ?o lease ?rec (es_marker s4) digest w) (values_of (last h1))"
    by (auto simp: performed_def)
  obtain m1 m2 m3 m4 where more: "hist (es_etcd sd) = hist (es_etcd s) @ m1" "hist (es_etcd s2) = hist (es_etcd sd) @ m2"
      "hist (es_etcd s4) = hist (es_etcd s2) @ m3" "h1 = hist (es_etcd s4) @ m4"
    using Id K2 done4(4) grown_trans_prefix [OF h'(2)] by (auto simp: unmarked_def)
  obtain m5 where m5: "hist (es_etcd t) = h1 @ c # (h2 @ m5)" using done4(6) t h'(1) by auto
  have ne: "hist (es_etcd sd) \<noteq> []" using atomicD(1) [OF assms(1)] by blast
  have "h1 = hist (es_etcd sd) @ m2 @ m3 @ m4" using more by simp
  then have "h1 \<noteq> []" "set (hist (es_etcd sd)) \<subseteq> set h1" "set h1 \<subseteq> set (hist (es_etcd t))" using ne unfolding m5 by auto
  then have "last h1 \<in> set (hist (es_etcd t))" "last (hist (es_etcd sd)) \<in> set (hist (es_etcd t))"
    using ne last_in_set by blast+
  moreover have "met (last h1) (Modified_At (root_key env) (case ?rec of Some r \<Rightarrow> kv_mod r | None \<Rightarrow> 0))"
    using h'(3) by (simp add: commit_guards_def)
  ultimately have "last h1 (root_key env) = ?rec" using same_version [OF assms(1)] by blast
  moreover have "h1 = hist (es_etcd s) @ (m1 @ m2 @ m3 @ m4)" using more by simp
  ultimately show ?thesis using opened body done4(1-3) m5 h'(3,4) by blast
qed

text \<open>What the effects of a unit leave at each key.\<close>

lemma apart_keys: "gate_key env \<noteq> root_key env" "marker_key env owner \<noteq> root_key env" "marker_key env owner \<noteq> gate_key env"
  by (simp_all add: gate_key_def root_key_def marker_key_def)

lemma commit_leaves:
  "fold apply_effect (commit_effects env owner lease record previous digest u) m k =
     (if k = gate_key env then None
      else if k = root_key env \<and> map_option kv_value record \<noteq> Some digest then Some digest
      else if previous = Some k then None
      else if k = marker_key env owner then Some digest
      else fold apply_effect (map snd (eu_effects u)) m k)"
  by (cases previous) (auto simp: commit_effects_def apart_keys)

end
