(* ===== verification/Maintenance_Owner.thy ===== *)
theory Maintenance_Owner
  imports Etcd_Commit
begin

text \<open>
  The owner of the maintenance of a cluster (\<^verbatim>\<open>control/ha.py\<close>). Several control nodes serve one shared store; one of them at a time
  repairs and retires copies. It holds the key \<open>maintenance-owner\<close> under a lease of etcd and publishes a generation in the store
  that the tasks it creates carry. Its units of work compare the key with the value it has put there.

  The part of \<^verbatim>\<open>tick\<close> that does the maintenance is the action \<open>work\<close>; it is modelled, on typed rows, in \<open>Maintenance\<close>.
\<close>

section \<open>State\<close>

text \<open>One thread of a control node: its store, \<^verbatim>\<open>maintenance_lease\<close> and \<^verbatim>\<open>maintenance_value\<close>, which are set together, the guards it requires, and the
  time of the next round.\<close>

record 'e ha_state =
  ha_store :: "'e etcd_state"
  ha_owner :: "(nat \<times> string) option"
  ha_required :: "(string \<times> string) list"
  ha_next :: rat

type_synonym ('e, 'a) on_ha = "('e ha_state, 'a) act"

definition on_store :: "('e, 'a) on_etcd \<Rightarrow> ('e, 'a) on_ha" where
  "on_store m = (\<lambda>s. case m (ha_store s) of (r, t) \<Rightarrow> (r, s\<lparr>ha_store := t\<rparr>))"

definition unit_of_ha :: "'e etcd_env \<Rightarrow> bool \<Rightarrow> ('e, 'a) on_etcd \<Rightarrow> ('e, 'a) on_ha" where
  "unit_of_ha env write body = (\<lambda>s. on_store (unit_of_etcd (env\<lparr>ee_required := ha_required s\<rparr>) write body) s)"

definition leader_key :: "'e etcd_env \<Rightarrow> string" where
  "leader_key env = ee_prefix env @ ''maintenance-owner''"

section \<open>Rows\<close>

text \<open>\<^verbatim>\<open>v[k]\<close> of a value that has been read.\<close>

definition item :: "json \<Rightarrow> string \<Rightarrow> json res" where
  "item v k = (case v of JObj d \<Rightarrow> somer (map_of d k) KeyError Inr | _ \<Rightarrow> Inl TypeError)"

definition the_dict :: "json \<Rightarrow> dict res" where
  "the_dict v = (case v of JObj d \<Rightarrow> Inr d | _ \<Rightarrow> Inl AttributeError)"

definition number_of :: "json \<Rightarrow> int res" where
  "number_of v = (case v of JInt n \<Rightarrow> Inr n | JBool b \<Rightarrow> Inr (if b then 1 else 0) | _ \<Rightarrow> Inl TypeError)"

definition ACTIVE :: "string list" where "ACTIVE = [''ACCEPTED'', ''RUNNING'']"

section \<open>The generation\<close>

definition installed :: "'e etcd_env \<Rightarrow> string \<Rightarrow> ('e, bool) on_etcd" where
  "installed env value =
     bindm (unit_get env ''settings'' (Some ''maintenance'')) (\<lambda>previous.
     if truthy previous then bindm (liftm (item (the previous) ''lease_owner'')) (\<lambda>owner. retm (owner = JStr value))
     else retm False)"

definition generation_row :: "'e etcd_env \<Rightarrow> string \<Rightarrow> string \<Rightarrow> int \<Rightarrow> nat \<Rightarrow> string \<Rightarrow> dict" where
  "generation_row env instance_id control n lease value =
     [(''id'', JStr ''maintenance''), (''generation'', JInt n), (''lease'', JInt (int lease)), (''lease_key'', JStr (leader_key env)),
      (''lease_owner'', JStr value), (''instance'', JStr instance_id), (''control_id'', JStr control)]"

definition next_generation :: "'e etcd_env \<Rightarrow> string \<Rightarrow> string \<Rightarrow> nat \<Rightarrow> string \<Rightarrow> ('e, unit) on_etcd" where
  "next_generation env instance_id control lease value =
     bindm (unit_get env ''settings'' (Some ''maintenance'')) (\<lambda>found.
     bindm (liftm (the_dict (if truthy found then the found else JObj [(''generation'', JInt 0)]))) (\<lambda>previous.
     if map_of previous ''lease_owner'' = Some (JStr value) then retm ()
     else
       bindm (liftm (bindr (item (JObj previous) ''generation'') number_of)) (\<lambda>n.
       put_unleased ''settings'' (generation_row env instance_id control (n + 1) lease value))))"

definition install_generation :: "'e etcd_env \<Rightarrow> string \<Rightarrow> string \<Rightarrow> nat \<Rightarrow> string \<Rightarrow> ('e, unit) on_ha" where
  "install_generation env instance_id control lease value =
     bindm (unit_of_ha env False (installed env value)) (\<lambda>done.
     if done then retm ()
     else
       bindm (modm (\<lambda>s. s\<lparr>ha_required := [(leader_key env, value)]\<rparr>)) (\<lambda>_.
       finallym (unit_of_ha env True (next_generation env instance_id control lease value)) (modm (\<lambda>s. s\<lparr>ha_required := []\<rparr>))))"

section \<open>The owner\<close>

definition take_maintenance :: "'e etcd_env \<Rightarrow> string \<Rightarrow> string \<Rightarrow> ('e, bool) on_ha" where
  "take_maintenance env instance_id control =
     bindm (on_store (etcd_range env (leader_key env))) (\<lambda>current.
     bindm (getm ha_owner) (\<lambda>mine.
     case current of
       Some r \<Rightarrow>
         (case mine of
            Some (lease, value) \<Rightarrow>
              if value = kv_value r
              then bindm (on_store (keepalive env lease)) (\<lambda>_.
                   bindm (install_generation env instance_id control lease value) (\<lambda>_. retm True))
              else retm False
          | None \<Rightarrow> retm False)
     | None \<Rightarrow>
         bindm (on_store (grant_lease env 15)) (\<lambda>lease.
         bindm (on_store (etcd_tick (ee_uuid env))) (\<lambda>u.
         let value = instance_id @ '':'' @ u in
         bindm (on_store (etcd_rpc (ed_txn (ee_etcd env) [Never_Created (leader_key env)] [Put_Key (leader_key env) value (Some lease)]))) (\<lambda>succeeded.
         if \<not> succeeded then retm False
         else
           bindm (modm (\<lambda>s. s\<lparr>ha_owner := Some (lease, value)\<rparr>)) (\<lambda>_.
           bindm (install_generation env instance_id control lease value) (\<lambda>_. retm True)))))))"

text \<open>One round of the thread that renews the lease.\<close>

definition renew_round :: "'e etcd_env \<Rightarrow> ('e, unit) on_ha" where
  "renew_round env =
     bindm (getm ha_owner) (\<lambda>mine.
     case mine of
       None \<Rightarrow> retm ()
     | Some (lease, value) \<Rightarrow>
         if lease = 0 \<or> value = [] then retm ()
         else
           catchm
             (bindm (on_store (etcd_range env (leader_key env))) (\<lambda>current.
              if map_option kv_value current = Some value then bindm (on_store (keepalive env lease)) (\<lambda>_. retm ()) else retm ()))
             (\<lambda>e. case e of Fault _ \<Rightarrow> retm () | _ \<Rightarrow> raisem e))"

text \<open>A round of maintenance, at most one in three seconds.\<close>

definition maintenance_tick :: "'e etcd_env \<Rightarrow> string \<Rightarrow> string \<Rightarrow> ('e, unit) on_ha \<Rightarrow> ('e, unit) on_ha" where
  "maintenance_tick env instance_id control work =
     bindm (take_maintenance env instance_id control) (\<lambda>taken.
     if \<not> taken then retm ()
     else
       bindm (on_store (etcd_tick (ee_clock env))) (\<lambda>now.
       bindm (getm ha_next) (\<lambda>later.
       if now < later then retm ()
       else
         bindm (on_store (etcd_tick (ee_clock env))) (\<lambda>now.
         bindm (modm (\<lambda>s. s\<lparr>ha_next := now + 3\<rparr>)) (\<lambda>_.
         bindm (modm (\<lambda>s. s\<lparr>ha_required := (case ha_owner s of Some (_, value) \<Rightarrow> [(leader_key env, value)] | None \<Rightarrow> [])\<rparr>)) (\<lambda>_.
         finallym work (modm (\<lambda>s. s\<lparr>ha_required := []\<rparr>))))))))"

section \<open>What units of work of the maintenance look at\<close>

definition maintenance :: "'e etcd_env \<Rightarrow> ('e, dict) on_etcd" where
  "maintenance env =
     bindm (unit_get env ''settings'' (Some ''maintenance'')) (\<lambda>leader.
     if truthy leader
     then bindm (liftm (the_dict (the leader))) (\<lambda>leader.
          bindm (lease_live env leader) (\<lambda>live.
          bindm (needm live SERVICE_UNAVAILABLE) (\<lambda>_. retm leader)))
     else raisem (Fault SERVICE_UNAVAILABLE))"

definition owned_task :: "'e etcd_env \<Rightarrow> dict \<Rightarrow> ('e, dict) on_etcd" where
  "owned_task env task =
     bindm (maintenance env) (\<lambda>leader.
     bindm (liftm (item (JObj leader) ''generation'')) (\<lambda>generation.
     bindm (liftm (item (JObj leader) ''lease_owner'')) (\<lambda>owner.
     retm (dict_put ''maintenance_owner'' owner (dict_put ''generation'' generation task)))))"

text \<open>\<^verbatim>\<open>t.get(k)\<close>\<close>

definition entry_of :: "dict \<Rightarrow> string \<Rightarrow> json" where
  "entry_of t k = (case map_of t k of None \<Rightarrow> JNull | Some v \<Rightarrow> v)"

definition check_task_owner :: "'e etcd_env \<Rightarrow> dict option \<Rightarrow> ('e, unit) on_etcd" where
  "check_task_owner env task =
     bindm (maintenance env) (\<lambda>leader.
     bindm (liftm (somer task (Fault LOCK_EXPIRED) Inr)) (\<lambda>t.
     bindm (needm (t \<noteq> []) LOCK_EXPIRED) (\<lambda>_.
     bindm (liftm (item (JObj leader) ''generation'')) (\<lambda>generation.
     bindm (needm (entry_of t ''generation'' = generation) LOCK_EXPIRED) (\<lambda>_.
     bindm (liftm (item (JObj leader) ''lease_owner'')) (\<lambda>owner.
     needm (entry_of t ''maintenance_owner'' = owner) LOCK_EXPIRED))))))"

text \<open>The tasks of earlier generations have failed.\<close>

definition fail_task :: "dict \<Rightarrow> json \<Rightarrow> ('e, unit) on_etcd" where
  "fail_task leader row =
     bindm (liftm (item row ''status'')) (\<lambda>status.
     bindm (liftm (item status ''state'')) (\<lambda>state.
     if state \<notin> JStr ` set ACTIVE then retm ()
     else
       bindm (liftm (the_dict row)) (\<lambda>task.
       bindm (liftm (item (JObj leader) ''generation'')) (\<lambda>generation.
       if entry_of task ''generation'' = generation then retm ()
       else
         bindm (liftm (the_dict status)) (\<lambda>status.
         put_unleased ''task'' (dict_put ''status'' (JObj (dict_put ''state'' (JStr ''FAILED'') status))
           (dict_put ''reserved'' (JInt 0) (dict_put ''expires'' (JInt 0) task))))))))"

definition fail_earlier_tasks :: "'e etcd_env \<Rightarrow> ('e, unit) on_etcd" where
  "fail_earlier_tasks env =
     bindm (maintenance env) (\<lambda>leader. bindm (unit_all env ''task'') (\<lambda>tasks. eachm (fail_task leader) tasks))"

definition maintenance_collect :: "'e etcd_env \<Rightarrow> bool \<Rightarrow> ('e, unit) on_ha \<Rightarrow> ('e, unit) on_ha" where
  "maintenance_collect env ready collect_rest =
     (if \<not> ready then retm () else bindm (unit_of_ha env True (fail_earlier_tasks env)) (\<lambda>_. collect_rest))"

definition retained_snapshots :: "'e etcd_env \<Rightarrow> ('e, json list) on_etcd" where
  "retained_snapshots env =
     bindm (unit_all env ''migration-pin'') (\<lambda>pins.
     bindm (liftm (map_res (\<lambda>x. item x ''snapshot'') pins)) (\<lambda>snapshots. retm (remdups snapshots)))"

text \<open>\<^verbatim>\<open>metadata_available\<close>, and \<^verbatim>\<open>metadata_revision\<close> where it is reported.\<close>

definition health :: "'e etcd_env \<Rightarrow> ('e, bool \<times> nat option) on_ha" where
  "health env =
     catchm (bindm (on_store (etcd_range env (root_key env))) (\<lambda>rt.
         retm (rt \<noteq> None, Some (case rt of Some r \<Rightarrow> kv_mod r | None \<Rightarrow> 0))))
       (\<lambda>e. case e of Fault _ \<Rightarrow> retm (False, None) | _ \<Rightarrow> raisem e)"

section \<open>Required guards\<close>

lemma required_keys [simp]:
  "root_key (env\<lparr>ee_required := r\<rparr>) = root_key env" "gate_key (env\<lparr>ee_required := r\<rparr>) = gate_key env"
  "marker_key (env\<lparr>ee_required := r\<rparr>) = marker_key env" "ee_uuid (env\<lparr>ee_required := r\<rparr>) = ee_uuid env"
  by (simp_all add: root_key_def gate_key_def marker_key_def fun_eq_iff)

lemma required_atomic [simp]: "atomic (env\<lparr>ee_required := r\<rparr>) hist own = atomic env hist own"
  by (simp add: atomic_def)

lemma required_unmarked [simp]: "unmarked (env\<lparr>ee_required := r\<rparr>) hist own owner h e = unmarked env hist own owner h e"
  by (simp add: unmarked_def)

lemma first_guards_one [simp]: "first_guards (env\<lparr>ee_required := [(k, v)]\<rparr>) = [(k, v)]"
  by (simp add: first_guards_def)

text \<open>A unit that is opened under required guards, and does not touch them, is published at a revision at which they hold.\<close>

lemma unit_fenced:
  assumes "atomic env hist own" and "own (marker_key env (ee_uuid env (es_ticks s)))"
    and "last (hist (es_etcd s)) (marker_key env (ee_uuid env (es_ticks s))) = None"
    and "\<And>h. keeps (\<lambda>s'. unmarked env hist own (ee_uuid env (es_ticks s)) h (es_etcd s')) body"
    and "keeps (\<lambda>s. \<forall>u. es_unit s = Some u \<longrightarrow> eu_guards u = first_guards env) body"
    and "unit_of_etcd env True body s = (Inr x, t)"
  shows "\<exists>s1 s2 s3 digest w lease rec previous h1 c h2. body s1 = (Inr x, s2) \<and> unit_flush env s2 = (Inr digest, s3) \<and>
     hist (es_etcd t) = h1 @ c # h2 \<and> (\<exists>ys. h1 = hist (es_etcd s) @ ys) \<and>
     (\<forall>(k, v) \<in> set (first_guards env). map_option kv_value (last h1 k) = Some v) \<and>
     map_option kv_value (last h1 (gate_key env)) = Some (ee_uuid env (es_ticks s)) \<and>
     values_of c = fold apply_effect (commit_effects env (ee_uuid env (es_ticks s)) lease rec previous digest w) (values_of (last h1))"
proof -
  let ?o = "ee_uuid env (es_ticks s)" and ?G = "\<lambda>s. \<forall>u. es_unit s = Some u \<longrightarrow> eu_guards u = first_guards env"
  from unit_committed [OF assms(1-4,6)] obtain rec s0 s1 s2 s3 s4 digest w lease h1 c h2 where
    run: "open_unit env True rec s0 = (Inr (), s1)" "body s1 = (Inr x, s2)" "unit_flush env s2 = (Inr digest, s3)"
      "bindm (of_unit eu_pages) (persist_pages env) s3 = (Inr (), s4)" "es_unit s4 = Some w"
    and at: "hist (es_etcd t) = h1 @ c # h2" "\<exists>ys. h1 = hist (es_etcd s) @ ys" "list_all (met (last h1)) (commit_guards env ?o rec w)"
      "values_of c = fold apply_effect (commit_effects env ?o lease rec (es_marker s4) digest w) (values_of (last h1))" by blast
  have "?G s1" using open_unit_guards [OF run(1)] by auto
  then have "?G s2" by (rule keepsD [OF assms(5) _ run(2)])
  then have G3: "?G s3" by (rule keepsD [OF held.still_flush _ run(3)])
  have pages: "keeps ?G (bindm (of_unit eu_pages) (persist_pages env))" by (intro keep)
  have "?G s4" by (rule keepsD [OF pages G3 run(4)])
  with run(5) have "eu_guards w = first_guards env" by blast
  with at(3) have "\<forall>(k, v) \<in> set (first_guards env). map_option kv_value (last h1 k) = Some v"
      "map_option kv_value (last h1 (gate_key env)) = Some ?o"
    by (auto simp: commit_guards_def list_all_iff)
  with run(2,3) at(1,2,4) show ?thesis by blast
qed

context undisturbed
begin

lemma still_installed: "still (installed env value)"
  unfolding installed_def by (intro keep)

lemma still_next: "still (next_generation env instance_id control lease value)"
  unfolding next_generation_def by (intro keep)

end

lemma reading_unmarked:
  assumes "keeps (\<lambda>s. unmarked env hist own owner h (es_etcd s)) body"
  shows "keeps (\<lambda>s. unmarked env hist own owner h (es_etcd s)) (unit_of_etcd env False body)"
proof -
  have "keeps (\<lambda>s. unmarked env hist own owner h (es_etcd s)) (modm (\<lambda>s. s\<lparr>es_unit := None\<rparr>))" by (rule keeps_modm) simp
  with assms show ?thesis unfolding unit_of_etcd_def reading_unit_def by (auto intro!: keep)
qed

text \<open>What the publication of a generation has done.\<close>

lemma generation_published:
  assumes "atomic env hist own" and "\<And>n. own (marker_key env (ee_uuid env n))"
    and "\<And>n. last (hist (es_etcd (ha_store s))) (marker_key env (ee_uuid env n)) = None"
    and run: "install_generation env instance_id control lease value s = (Inr (), t)"
  shows "unit_of_ha env False (installed env value) s = (Inr True, t) \<or>
     ha_required t = [] \<and> (\<exists>owner s1 s2 s3 digest w l rec previous h1 c h2.
       next_generation env instance_id control lease value s1 = (Inr (), s2) \<and>
       unit_flush (env\<lparr>ee_required := [(leader_key env, value)]\<rparr>) s2 = (Inr digest, s3) \<and>
       hist (es_etcd (ha_store t)) = h1 @ c # h2 \<and> (\<exists>ys. h1 = hist (es_etcd (ha_store s)) @ ys) \<and>
       map_option kv_value (last h1 (leader_key env)) = Some value \<and> map_option kv_value (last h1 (gate_key env)) = Some owner \<and>
       values_of c = fold apply_effect (commit_effects env owner l rec previous digest w) (values_of (last h1)))"
proof -
  let ?env = "env\<lparr>ee_required := [(leader_key env, value)]\<rparr>" and ?body = "next_generation env instance_id control lease value"
  obtain b s' where look: "unit_of_ha env False (installed env value) s = (Inr b, s')"
    and rest: "(if b then retm () else bindm (modm (\<lambda>s. s\<lparr>ha_required := [(leader_key env, value)]\<rparr>)) (\<lambda>_.
        finallym (unit_of_ha env True ?body) (modm (\<lambda>s. s\<lparr>ha_required := []\<rparr>)))) s' = (Inr (), t)"
    using run unfolding install_generation_def bindm_eq_Inr [of "unit_of_ha _ _ _"] by blast
  show ?thesis
  proof (cases b)
    case True
    with look rest show ?thesis by simp
  next
    case False
    from look have store: "unit_of_etcd (env\<lparr>ee_required := ha_required s\<rparr>) False (installed env value) (ha_store s) = (Inr b, ha_store s')"
      by (auto simp: unit_of_ha_def on_store_def split: prod.splits)
    have U: "unmarked env hist own (ee_uuid env n) (hist (es_etcd (ha_store s))) (es_etcd (ha_store s'))" for n
    proof -
      let ?K = "\<lambda>s'. unmarked (env\<lparr>ee_required := ha_required s\<rparr>) hist own (ee_uuid env n) (hist (es_etcd (ha_store s))) (es_etcd s')"
      have kept: "keeps ?K (unit_of_etcd (env\<lparr>ee_required := ha_required s\<rparr>) False (installed env value))"
        by (rule reading_unmarked) (simp add: start.still_installed)
      have "?K (ha_store s)" using assms(1-3) by (simp add: unmarked_def)
      from keepsD [OF kept this store] show ?thesis by simp
    qed
    from rest False obtain x where put: "unit_of_etcd ?env True ?body (ha_store s') = (Inr (), x)" and t: "t = s'\<lparr>ha_store := x, ha_required := []\<rparr>"
      by (auto simp: bindm_eq_Inr finallym_eq unit_of_ha_def on_store_def split: prod.splits)
    have effects: "commit_effects ?env = commit_effects env" by (simp add: commit_effects_def fun_eq_iff)
    have "\<exists>s1 s2 s3 digest w lease rec previous h1 c h2. ?body s1 = (Inr (), s2) \<and> unit_flush ?env s2 = (Inr digest, s3) \<and>
       hist (es_etcd x) = h1 @ c # h2 \<and> (\<exists>ys. h1 = hist (es_etcd (ha_store s')) @ ys) \<and>
       (\<forall>(k, v) \<in> set (first_guards ?env). map_option kv_value (last h1 k) = Some v) \<and>
       map_option kv_value (last h1 (gate_key ?env)) = Some (ee_uuid ?env (es_ticks (ha_store s'))) \<and>
       values_of c = fold apply_effect (commit_effects ?env (ee_uuid ?env (es_ticks (ha_store s'))) lease rec previous digest w) (values_of (last h1))"
    proof (rule unit_fenced [OF _ _ _ _ _ put, of hist own])
      show "keeps (\<lambda>s. unmarked ?env hist own (ee_uuid ?env (es_ticks (ha_store s'))) h (es_etcd s)) ?body" for h
        by (simp add: start.still_next)
      show "last (hist (es_etcd (ha_store s'))) (marker_key ?env (ee_uuid ?env (es_ticks (ha_store s')))) = None"
        using U by (simp add: unmarked_def)
    qed (simp_all add: assms(1,2) held.still_next)
    moreover have "\<exists>ys. hist (es_etcd (ha_store s')) = hist (es_etcd (ha_store s)) @ ys" using U by (simp add: unmarked_def)
    ultimately show ?thesis unfolding effects t by simp (metis append.assoc)
  qed
qed

text \<open>A generation of another node that is alive puts its own key into the guards.\<close>

lemma maintenance_guard:
  assumes "unit_get env ''settings'' (Some ''maintenance'') s = (Inr (Some (JObj v)), t)" and "es_unit t = Some u"
    and "lease_key v = Some (leader_key env)" and "map_of v ''lease_owner'' = Some (JStr new)"
    and "map_of (eu_effects u) (leader_key env) = None" and "map_of (eu_lease_reads u) (leader_key env) = None"
    and "ed_range (ee_etcd env) (leader_key env) (es_etcd t) = (Inr (Some r), e)" and "kv_value r = new"
  shows "\<exists>t' w. maintenance env s = (Inr v, t') \<and> es_unit t' = Some w \<and> eu_guards w = dict_put (leader_key env) new (eu_guards u)"
proof -
  have "v \<noteq> []" using assms(4) by auto
  then show ?thesis
    using assms by (simp add: maintenance_def bindm_def truthy_def the_dict_def lease_live_def unit_part_def etcd_range_def etcd_rpc_def
        call_etcd_def set_unit_def)
qed

end
