(* ===== verification/Etcd_Samples.thy ===== *)
theory Etcd_Samples
  imports Maintenance_Owner
begin

text \<open>
  A service on which the hypotheses of the properties hold: its state is the list of the transactions performed so far, and the
  revisions are what they make of the empty store.
\<close>

definition stamp :: "nat \<Rightarrow> effect list \<Rightarrow> revision \<Rightarrow> revision" where
  "stamp n es b = fold (\<lambda>e b. case e of Put_Key k v l \<Rightarrow> b(k \<mapsto> \<lparr>kv_value = v, kv_mod = n\<rparr>) | Delete_Key k \<Rightarrow> b(k := None)) es b"

primrec revision_at :: "effect list list \<Rightarrow> nat \<Rightarrow> revision" where
  "revision_at txs 0 = (\<lambda>_. None)"
| "revision_at txs (Suc n) = stamp (Suc n) (txs ! n) (revision_at txs n)"

definition log_hist :: "effect list list \<Rightarrow> revision list" where
  "log_hist txs = map (revision_at txs) [0..<Suc (length txs)]"

definition log_now :: "effect list list \<Rightarrow> revision" where
  "log_now txs = revision_at txs (length txs)"

definition log_content :: "effect list list \<Rightarrow> string \<Rightarrow> string option" where
  "log_content txs = values_of (log_now txs)"

definition log_etcd :: "effect list list etcd" where
  "log_etcd = \<lparr>ed_range = (\<lambda>k txs. (Inr (log_now txs k), txs)), ed_put = (\<lambda>k v txs. (Inr (), txs @ [[Put_Key k v None]])),
     ed_txn = (\<lambda>gs es txs. if list_all (met (log_now txs)) gs then (Inr True, txs @ [es]) else (Inr False, txs)),
     ed_grant = (\<lambda>i n txs. (Inr (Some i), txs)), ed_keepalive = (\<lambda>i txs. (Inr (Some 10), txs))\<rparr>"

text \<open>The program beside it; \<open>q\<close> are the guards it requires.\<close>

definition log_env :: "(string \<times> string) list \<Rightarrow> effect list list etcd_env" where
  "log_env q = \<lparr>ee_etcd = log_etcd, ee_prefix = ''p/'', ee_sha256 = (\<lambda>x. CHR ''h'' # x), ee_cipher = None, ee_urandom = (\<lambda>_. []),
     ee_uuid = (\<lambda>_. ''o''), ee_lease_id = (\<lambda>n. 7), ee_clock = (\<lambda>_. 0), ee_gate_seconds = 10, ee_gate_wait = 4, ee_required = q,
     ee_request_size = (\<lambda>gs es. 100), ee_patience = 3\<rparr>"

lemma log_required [simp]: "(log_env q)\<lparr>ee_required := r\<rparr> = log_env r"
  by (simp add: log_env_def)

lemma values_stamp: "values_of (stamp n es b) = fold apply_effect es (values_of b)"
proof (induction es arbitrary: b)
  case (Cons e es)
  then show ?case by (cases e) (simp_all add: stamp_def values_of_def fun_eq_iff fun_upd_def if_distrib cong: if_cong)
qed (simp add: stamp_def)

lemma revision_append: "n \<le> length txs \<Longrightarrow> revision_at (txs @ ys) n = revision_at txs n"
  by (induction n) (simp_all add: nth_append)

lemma hist_append: "log_hist (txs @ [es]) = log_hist txs @ [stamp (Suc (length txs)) es (log_now txs)]"
  by (simp add: log_hist_def log_now_def revision_append)

lemma log_last: "last (log_hist txs) = log_now txs" "log_hist txs \<noteq> []"
  by (simp_all add: log_hist_def log_now_def)

lemma content_append: "log_content (txs @ [es]) = fold apply_effect es (log_content txs)"
  by (simp add: log_content_def log_now_def values_stamp revision_append)

lemma stamp_cases: "stamp n es b k = Some x \<Longrightarrow> b k = Some x \<or> kv_mod x = n"
proof (induction es arbitrary: b)
  case (Cons e es)
  then show ?case by (cases e) (fastforce simp: stamp_def split: if_splits)+
qed (simp add: stamp_def)

lemma revision_stamped: "revision_at txs n k = Some x \<Longrightarrow> 0 < kv_mod x \<and> kv_mod x \<le> n \<and> revision_at txs (kv_mod x) k = Some x"
proof (induction n)
  case (Suc n)
  from Suc.prems have "revision_at txs n k = Some x \<or> kv_mod x = Suc n" by (auto dest: stamp_cases)
  with Suc show ?case by auto
qed simp

lemma grown_refl: "grown own h h"
  by (simp add: grown_def)

lemma log_performed: "list_all (met (log_now txs)) gs \<Longrightarrow> performed own gs es (log_hist txs) (log_hist (txs @ [es]))"
  unfolding performed_def hist_append
  by (intro exI [of _ "log_hist txs"] exI [of _ "stamp (Suc (length txs)) es (log_now txs)"] exI [of _ "[]"])
    (simp add: grown_refl log_last values_stamp)

lemma log_atomic: "atomic (log_env q) log_hist own"
  unfolding atomic_def
proof (intro conjI allI ballI impI)
  show "log_hist txs \<noteq> []" for txs by (simp add: log_last)
  fix txs b c k x y
  assume b: "b \<in> set (log_hist txs)" and c: "c \<in> set (log_hist txs)" and x: "b k = Some x"
  from b x show "0 < kv_mod x" by (auto simp: log_hist_def dest: revision_stamped)
  assume "c k = Some y" "kv_mod x = kv_mod y"
  moreover have "\<exists>n. revision_at txs n k = Some x" "\<exists>n. revision_at txs n k = Some y"
    using b c x \<open>c k = Some y\<close> by (auto simp: log_hist_def)
  ultimately show "x = y" by (metis option.inject revision_stamped)
qed (auto simp: log_env_def log_etcd_def log_last grown_refl log_performed split: if_splits)

lemma log_serving: "serving (log_env q) log_content"
  unfolding serving_def
proof (intro conjI allI)
  fix k and e :: "effect list list"
  show "\<exists>r e'. ed_range (ee_etcd (log_env q)) k e = (Inr r, e') \<and> map_option kv_value r = log_content e k \<and> log_content e' = log_content e"
    by (simp add: log_env_def log_etcd_def log_content_def values_of_def)
next
  fix effs :: "effect list" and e :: "effect list list"
  show "\<exists>b e'. ed_txn (ee_etcd (log_env q)) [] effs e = (Inr b, e') \<and> log_content e' = fold apply_effect effs (log_content e)"
    by (intro exI [of _ True]) (simp add: log_env_def log_etcd_def content_append)
qed

lemma log_address: "page_address (log_env q) p = CHR ''h'' # p"
  by (simp add: page_address_def log_env_def)

lemma log_hashes: "inj_on (page_address (log_env q)) X" "digests_ok (log_env q)" "sealing_ok (log_env q)"
  by (simp_all add: inj_on_def log_address digests_ok_def) (simp add: sealing_ok_def log_env_def)

text \<open>States: after the transactions \<open>txs\<close> no unit is open, no page is cached and no lease is held.\<close>

definition log_start :: "effect list list \<Rightarrow> nat \<Rightarrow> effect list list etcd_state" where
  "log_start txs n = \<lparr>es_etcd = txs, es_cache = [], es_size = 0, es_ticks = n, es_unit = None, es_gate_lease = None, es_marker = None\<rparr>"

definition log_unit :: "(string \<times> string) list \<Rightarrow> etcd_unit" where
  "log_unit g = \<lparr>eu_write = True, eu_root = [], eu_buckets = (\<lambda>_. None), eu_pending = [], eu_guards = g, eu_effects = [],
     eu_lease_reads = [], eu_pages = []\<rparr>"

definition log_open :: "effect list list etcd_state" where
  "log_open = (log_start [] 0)\<lparr>es_unit := Some (log_unit [])\<rparr>"

lemma log_cache: "cache_ok (log_env q) log_content (log_start txs n)" "cache_ok (log_env q) log_content log_open"
  by (simp_all add: cache_ok_def log_start_def log_open_def)

definition log_row :: dict where
  "log_row = [(''id'', JStr ''a''), (''alive'', JBool True)]"

lemma log_rows: "recorded_rows (log_env q) view None (\<lambda>_. tempty)"
  by (simp add: recorded_rows_def)

lemma log_blob_hi: "fst (blob (log_env []) ''hi'' log_open) = Inr ''hLhi''"
  by (simp add: blob_def page_def bindm_def leaf_page_def PAGE_BYTES_def UNIT_BYTES_def log_address Let_def log_open_def log_start_def
      log_unit_def writing_def set_unit_def unit_pages_def)

text \<open>A unit that has written the row \<open>r\<close>; its bucket may have been opened before.\<close>

definition log_written :: "(string \<times> string) list \<Rightarrow> (string \<times> string \<Rightarrow> dict option) \<Rightarrow> string \<Rightarrow> string \<Rightarrow> dict \<Rightarrow> etcd_unit" where
  "log_written g bs k i r = (log_unit g)\<lparr>eu_buckets := bs, eu_pending := [((k, i), Some r)]\<rparr>"

abbreviation log_one :: etcd_unit where
  "log_one \<equiv> log_written [] (\<lambda>_. None) ''k'' ''a'' log_row"

definition log_pending :: "effect list list etcd_state" where
  "log_pending = (log_start [] 0)\<lparr>es_unit := Some log_one\<rparr>"

lemma log_opened: "opened (log_env []) log_content (log_content []) log_one (\<lambda>_. []) log_pending"
  unfolding opened_def
proof (intro conjI exI [of _ "\<lambda>_. None"])
  show "root_at (stored_pages (log_env []) (log_content [])) (eu_root log_one) (\<lambda>_. [])"
    by (simp add: root_at_def child_dict_def log_written_def log_unit_def)
  show "cache_ok (log_env []) log_content log_pending" using log_cache(1) [of "[]" "[]" 0] by (simp add: log_pending_def)
qed (use log_serving in \<open>simp_all add: log_pending_def log_written_def log_unit_def log_start_def\<close>)

lemma log_unit_at:
  "unit_at (log_env []) (log_content []) log_one (\<lambda>_. []) (\<lambda>_. tempty) ((\<lambda>_. tempty)(''k'' := tput ''a'' (JObj log_row) tempty))"
  by (auto simp: unit_at_def log_written_def log_unit_def pending_ok_def buckets_at_def overlaid_def row_fine_def log_row_def split: if_splits)

text \<open>A flush of one row, text by text.\<close>

definition log_shard :: "string \<Rightarrow> string" where
  "log_shard i = take 2 (CHR ''h'' # i)"

definition log_bucket :: "string \<Rightarrow> dict \<Rightarrow> dict" where
  "log_bucket i r = [(i, JStr (''hL'' @ canonical (JObj r)))]"

definition log_root :: "string \<Rightarrow> string \<Rightarrow> dict \<Rightarrow> dict" where
  "log_root k i r = [(k, JObj [(log_shard i, JStr (''hL'' @ canonical (JObj (log_bucket i r))))])]"

definition log_texts :: "string \<Rightarrow> string \<Rightarrow> dict \<Rightarrow> string list" where
  "log_texts k i r = [canonical (JObj r), canonical (JObj (log_bucket i r)), canonical (JObj (log_root k i r))]"

definition log_small :: "string \<Rightarrow> string \<Rightarrow> dict \<Rightarrow> bool" where
  "log_small k i r \<longleftrightarrow> distinct (log_texts k i r) \<and> list_all (\<lambda>x. length x < 1000) (log_texts k i r)"

lemma log_row_small: "log_small ''k'' ''a'' log_row"
  by code_simp

lemma log_blob:
  assumes "length x < 1000" and "es_unit s = Some u" and "eu_write u" and "es_cache s = []" and "pages_size (eu_pages u) < 10000"
    and "''hL'' @ x \<notin> fst ` set (eu_pages u)"
  shows "blob (log_env q) x s = (Inr (''hL'' @ x), s\<lparr>es_unit := Some (u\<lparr>eu_pages := eu_pages u @ [(''hL'' @ x, leaf_page x)]\<rparr>)\<rparr>)"
  using assms by (simp add: blob_def page_def bindm_def leaf_page_def PAGE_BYTES_def UNIT_BYTES_def log_address Let_def
      writing_def set_unit_def unit_pages_def dict_put_fresh)

definition log_pages :: "string \<Rightarrow> string \<Rightarrow> dict \<Rightarrow> (string \<times> string) list" where
  "log_pages k i r = map (\<lambda>x. (''hL'' @ x, leaf_page x)) (log_texts k i r)"

definition log_flushed :: "(string \<times> string) list \<Rightarrow> (string \<times> string \<Rightarrow> dict option) \<Rightarrow> string \<Rightarrow> string \<Rightarrow> dict \<Rightarrow> etcd_unit" where
  "log_flushed g bs k i r = (log_written g bs k i r)\<lparr>eu_buckets := bs((k, log_shard i) \<mapsto> log_bucket i r), eu_root := log_root k i r,
     eu_pages := log_pages k i r\<rparr>"

lemma log_flush_run:
  assumes unit: "es_unit s = Some (log_written g bs k i r)" and cache: "es_cache s = []"
    and known: "bs (k, log_shard i) \<in> {None, Some []}" and fine: "log_small k i r"
  shows "unit_flush (log_env q) s = (Inr (''hL'' @ canonical (JObj (log_root k i r))), s\<lparr>es_unit := Some (log_flushed g bs k i r)\<rparr>)"
proof -
  let ?row = "canonical (JObj r)" and ?bucket = "canonical (JObj (log_bucket i r))" and ?root = "canonical (JObj (log_root k i r))"
  let ?w = "log_written g bs k i r"
  let ?u1 = "?w\<lparr>eu_buckets := bs((k, log_shard i) \<mapsto> [])\<rparr>"
  let ?u2 = "?u1\<lparr>eu_pages := [(''hL'' @ ?row, leaf_page ?row)]\<rparr>"
  let ?u3 = "?w\<lparr>eu_buckets := bs((k, log_shard i) \<mapsto> log_bucket i r), eu_pages := [(''hL'' @ ?row, leaf_page ?row)]\<rparr>"
  let ?u4 = "?u3\<lparr>eu_pages := [(''hL'' @ ?row, leaf_page ?row), (''hL'' @ ?bucket, leaf_page ?bucket)]\<rparr>"
  let ?u5 = "?u4\<lparr>eu_root := log_root k i r\<rparr>"
  have shard: "shard_of (log_env q) i = log_shard i" by (simp add: shard_of_def log_env_def log_shard_def)
  have sizes: "length ?row < 1000" "length ?bucket < 1000" "length ?root < 1000"
    and differ: "?row \<noteq> ?bucket" "?row \<noteq> ?root" "?bucket \<noteq> ?root"
    using fine by (simp_all add: log_small_def log_texts_def del: canonical.simps)
  then have small: "pages_size [(''hL'' @ ?row, leaf_page ?row), (''hL'' @ ?bucket, leaf_page ?bucket)] < 10000"
    by (simp add: leaf_page_def del: canonical.simps)
  have no_root: "eu_root ?w = []" "eu_write ?w" "eu_pages ?w = []" "eu_buckets ?w = bs" "eu_pending ?w = [((k, i), Some r)]"
    by (simp_all add: log_written_def log_unit_def)
  have b: "bucket (log_env q) k i s = (Inr [], s\<lparr>es_unit := Some ?u1\<rparr>)"
  proof (cases "bs (k, log_shard i)")
    case None
    then show ?thesis
      by (simp add: bucket_def shard open_bucket_def bindm_def of_unit_def unit no_root child_dict_def digest_at_def read_object_def set_unit_def)
  next
    case (Some x)
    with known have "bs = bs((k, log_shard i) \<mapsto> [])" by (simp add: fun_eq_iff)
    then have "?u1 = ?w" by (simp add: log_written_def)
    with Some known unit show ?thesis by (simp add: bucket_def shard open_bucket_def bindm_def of_unit_def no_root)
  qed
  have row: "blob (log_env q) ?row (s\<lparr>es_unit := Some ?u1\<rparr>) = (Inr (''hL'' @ ?row), s\<lparr>es_unit := Some ?u2\<rparr>)"
    by (subst log_blob [where u = ?u1]) (simp_all add: sizes cache no_root del: canonical.simps)
  have r: "flush_row (log_env q) ((k, i), Some r) s = (Inr True, s\<lparr>es_unit := Some ?u3\<rparr>)"
    by (simp add: flush_row_def bindm_def b row set_unit_def shard log_bucket_def Let_def del: canonical.simps)
  have bucket: "blob (log_env q) ?bucket (s\<lparr>es_unit := Some ?u3\<rparr>) = (Inr (''hL'' @ ?bucket), s\<lparr>es_unit := Some ?u4\<rparr>)"
    using differ small
    by (subst log_blob [where u = ?u3]) (simp_all add: sizes cache no_root del: canonical.simps)
  have fb: "flush_bucket (log_env q) (k, log_shard i) (s\<lparr>es_unit := Some ?u3\<rparr>) = (Inr (), s\<lparr>es_unit := Some ?u5\<rparr>)"
    by (simp add: flush_bucket_def bindm_def of_unit_def bucket [unfolded append_Cons append_Nil] set_unit_def child_dict_def log_root_def no_root del: canonical.simps)
  have rows: "flush_rows (log_env q) s = (Inr [(k, log_shard i)], s\<lparr>es_unit := Some ?u3\<rparr>)"
    using r by (simp add: flush_rows_def bindm_def of_unit_def unit shard no_root del: canonical.simps)
  have root: "blob (log_env q) ?root (s\<lparr>es_unit := Some ?u5\<rparr>) = (Inr (''hL'' @ ?root), s\<lparr>es_unit := Some (log_flushed g bs k i r)\<rparr>)"
    using differ small
    by (subst log_blob [where u = ?u5]) (auto simp: sizes cache no_root log_flushed_def log_pages_def log_texts_def simp del: canonical.simps)
  have "eachm (flush_bucket (log_env q)) [(k, log_shard i)] (s\<lparr>es_unit := Some ?u3\<rparr>) = (Inr (), s\<lparr>es_unit := Some ?u5\<rparr>)"
    by (simp only: eachm.simps bindm_def fb) simp
  moreover have "of_unit eu_root (s\<lparr>es_unit := Some ?u5\<rparr>) = (Inr (log_root k i r), s\<lparr>es_unit := Some ?u5\<rparr>)" by (simp add: of_unit_def)
  ultimately show ?thesis unfolding unit_flush_def bindm_def rows by (simp only: prod.case sum.case root)
qed

lemma log_fits:
  assumes "log_small k i r"
  shows "no_collision (log_env q) view (log_written g (\<lambda>_. None) k i r) (log_flushed g (\<lambda>_. None) k i r)"
proof -
  have "x \<in> set (log_texts k i r)" if "x \<in> unit_texts (log_written g (\<lambda>_. None) k i r) (log_flushed g (\<lambda>_. None) k i r)" for x
    using that by (auto simp: unit_texts_def log_written_def log_flushed_def log_unit_def log_texts_def simp del: canonical.simps split: if_splits)
  then have "length x < 1000" if "x \<in> unit_texts (log_written g (\<lambda>_. None) k i r) (log_flushed g (\<lambda>_. None) k i r)" for x
    using that assms by (auto simp: log_small_def list_all_iff)
  moreover have "1000 \<le> PAGE_BYTES * 64 ^ (READ_DEPTH - 1)" by (simp add: PAGE_BYTES_def READ_DEPTH_def)
  ultimately show ?thesis unfolding no_collision_def by (meson log_hashes(1) less_imp_le order_trans)
qed

lemma log_flush:
  "\<exists>d t w. unit_flush (log_env []) log_pending = (Inr d, t) \<and> es_unit t = Some w \<and> no_collision (log_env []) (log_content []) log_one w"
proof -
  have "es_unit log_pending = Some log_one" "es_cache log_pending = []" by (simp_all add: log_pending_def log_start_def)
  from log_flush_run [OF this _ log_row_small] log_fits [OF log_row_small] show ?thesis by auto
qed

text \<open>A whole transaction: the gate is taken, the row written, the unit published.\<close>

definition log_put :: "string \<times> string \<Rightarrow> effect" where
  "log_put = (\<lambda>(d, p). Put_Key (''p/pages/'' @ d) p None)"

lemma log_batched:
  "length batch + length ps \<le> 32 \<Longrightarrow> n + pages_size ps \<le> 524288 \<Longrightarrow> persist_from env batch n ps = flush_batch env (batch @ ps)"
proof (induction ps arbitrary: batch n)
  case (Cons dp ps)
  then show ?case by (cases dp) simp
qed simp

lemma log_remembered:
  "distinct (map fst (es_cache s @ ps)) \<Longrightarrow> es_size s + int (pages_size ps) \<le> int UNIT_BYTES \<Longrightarrow>
     eachm (\<lambda>(digest, payload). cache_put env digest payload) ps s =
       (Inr (), s\<lparr>es_cache := es_cache s @ ps, es_size := es_size s + int (pages_size ps)\<rparr>)"
proof (induction ps arbitrary: s)
  case (Cons dp ps)
  obtain d p where dp: "dp = (d, p)" by (cases dp)
  have new: "map_of (es_cache s) d = None" "filter (\<lambda>(x, _). x \<noteq> d) (es_cache s) = es_cache s"
    using Cons.prems(1) by (force simp: dp map_of_eq_None_iff filter_id_conv)+
  have "evict cache n = (cache, n)" if "n \<le> int UNIT_BYTES" for cache n
    using that by (cases cache) auto
  with new Cons.prems(2) have "cache_put env d p s = (Inr (), s\<lparr>es_cache := es_cache s @ [(d, p)], es_size := es_size s + int (length p)\<rparr>)"
    by (simp add: cache_put_def Let_def dp)
  with Cons.IH [of "s\<lparr>es_cache := es_cache s @ [(d, p)], es_size := es_size s + int (length p)\<rparr>"] Cons.prems
  show ?case by (simp add: dp bindm_def)
qed simp

lemma log_persisted:
  assumes "distinct (map fst ps)" and "ps \<noteq> []" and "length ps \<le> 32" and "pages_size ps \<le> 524288" and "es_cache s = []" and "es_size s = 0"
  shows "persist_pages (log_env q) ps s =
     (Inr (), s\<lparr>es_etcd := es_etcd s @ [map log_put ps], es_cache := ps, es_size := int (pages_size ps)\<rparr>)"
proof -
  have "put_page (log_env q) dp = retm (log_put dp)" for dp
    by (cases dp) (simp add: put_page_def page_wire_def page_key_def log_env_def log_put_def fun_eq_iff bindm_def)
  then have puts: "mapm (put_page (log_env q)) ps = retm (map log_put ps)" by (induction ps) (simp_all add: fun_eq_iff bindm_def)
  let ?s = "s\<lparr>es_etcd := es_etcd s @ [map log_put ps]\<rparr>"
  have txn: "etcd_rpc (ed_txn (ee_etcd (log_env q)) [] (map log_put ps)) s = (Inr True, ?s)"
    by (simp add: etcd_rpc_def call_etcd_def bindm_def log_env_def log_etcd_def)
  have "eachm (\<lambda>(digest, payload). cache_put (log_env q) digest payload) ps ?s =
      (Inr (), ?s\<lparr>es_cache := es_cache ?s @ ps, es_size := es_size ?s + int (pages_size ps)\<rparr>)"
    using assms by (intro log_remembered) (simp_all add: UNIT_BYTES_def)
  with puts txn assms log_batched [of "[]" ps 0 "log_env q"] show ?thesis
    by (simp add: persist_pages_def flush_batch_def bindm_def)
qed

lemma log_now_append: "log_now (txs @ [es]) = stamp (Suc (length txs)) es (log_now txs)"
  by (simp add: log_now_def revision_append)

lemma log_untouched: "(\<And>d. k \<noteq> ''p/pages/'' @ d) \<Longrightarrow> stamp n (map log_put ps) b k = b k"
  by (induction ps arbitrary: b) (auto simp: stamp_def log_put_def)

lemma log_keys:
  assumes "log_small k i r"
  shows "distinct (map fst (log_pages k i r))" "length (log_pages k i r) = 3" "pages_size (log_pages k i r) \<le> 524288"
  using assms by (auto simp: log_small_def log_pages_def log_texts_def leaf_page_def simp del: canonical.simps)

text \<open>The keys a transaction compares hold at the revision \<open>b\<close>, and no page is stored under them.\<close>

definition log_holds :: "revision \<Rightarrow> (string \<times> string) list \<Rightarrow> bool" where
  "log_holds b g \<longleftrightarrow> length g \<le> 48 \<and> (\<forall>(a, v) \<in> set g. map_option kv_value (b a) = Some v \<and> (\<forall>d. a \<noteq> ''p/pages/'' @ d))"

lemma log_published:
  assumes unit: "es_unit s = Some (log_written g bs k i r)" and rest: "es_cache s = []" "es_size s = 0" "es_marker s = None"
    and known: "bs (k, log_shard i) \<in> {None, Some []}" and fine: "log_small k i r"
    and now: "map_option kv_value (log_now (es_etcd s) ''p/gate'') = Some ''o''" "log_now (es_etcd s) ''p/root'' = None" "log_holds (log_now (es_etcd s)) g"
  shows "fst (publish_unit (log_env q) ''o'' 7 None s) = Inr ()"
proof -
  let ?d = "''hL'' @ canonical (JObj (log_root k i r))" and ?ps = "log_pages k i r" and ?w = "log_flushed g bs k i r"
  let ?s = "s\<lparr>es_unit := Some ?w\<rparr>"
  let ?t = "?s\<lparr>es_etcd := es_etcd s @ [map log_put ?ps], es_cache := ?ps, es_size := int (pages_size ?ps)\<rparr>"
  have flush: "unit_flush (log_env q) s = (Inr ?d, ?s)"
    by (rule log_flush_run [OF unit rest(1) known fine])
  have pages: "of_unit eu_pages ?s = (Inr ?ps, ?s)" by (simp add: of_unit_def log_flushed_def)
  have persist: "persist_pages (log_env q) ?ps ?s = (Inr (), ?t)"
    using log_keys [OF fine] rest by (subst log_persisted) auto
  have whole: "of_unit (\<lambda>u. u) ?t = (Inr ?w, ?t)" by (simp add: of_unit_def)
  have empty: "eu_guards ?w = g" "eu_effects ?w = []" "es_marker ?t = None" "es_etcd ?t = es_etcd s @ [map log_put ?ps]"
    using rest by (simp_all add: log_flushed_def log_written_def log_unit_def)
  let ?b = "log_now (es_etcd s @ [map log_put ?ps])"
  have same: "?b a = log_now (es_etcd s) a" if "\<And>d. a \<noteq> ''p/pages/'' @ d" for a
    unfolding log_now_append using that by (rule log_untouched)
  have held: "map_option kv_value (?b a) = Some v" if "(a, v) \<in> set g" for a v
  proof -
    have at: "map_option kv_value (log_now (es_etcd s) a) = Some v \<and> (\<forall>d. a \<noteq> ''p/pages/'' @ d)"
      using bspec [OF conjunct2 [OF now(3) [unfolded log_holds_def]] that] by simp
    show ?thesis by (subst same) (use at in auto)
  qed
  have "map_option kv_value (?b ''p/gate'') = Some ''o''" using now(1) by (subst same) simp_all
  moreover have "?b ''p/root'' = None" using now(2) by (subst same) simp_all
  moreover have "list_all (met ?b) (map (\<lambda>(a, v). Value_Is a v) g)" using held by (auto simp: list_all_iff simp del: map_option_eq_Some)
  ultimately have met: "list_all (met ?b) (commit_guards (log_env q) ''o'' None ?w)"
    by (simp add: commit_guards_def empty gate_key_def root_key_def log_env_def)
  have few: "length g \<le> MAX_GUARDS" using now(3) by (simp add: log_holds_def MAX_GUARDS_def)
  have size: "ee_request_size (log_env q) gs es = 100" for gs es by (simp add: log_env_def)
  have txn: "ed_txn (ee_etcd (log_env q)) gs es txs = (if list_all (met (log_now txs)) gs then (Inr True, txs @ [es]) else (Inr False, txs))" for gs es txs
    by (simp add: log_env_def log_etcd_def)
  show ?thesis
    by (simp only: publish_unit_def bindm_def flush pages persist whole prod.case sum.case)
      (simp add: empty few size met txn Let_def etcd_rpc_def call_etcd_def bindm_def del: canonical.simps)
qed

definition log_gate :: "effect list" where
  "log_gate = [Put_Key ''p/gate'' ''o'' (Some 7)]"

definition log_gated :: "effect list list \<Rightarrow> nat \<Rightarrow> effect list list etcd_state" where
  "log_gated txs n = (log_start (txs @ [log_gate]) n)\<lparr>es_gate_lease := Some 7\<rparr>"

lemma log_lease: "gate_lease (log_env q) (log_start txs n) = (Inr 7, (log_start txs (Suc n))\<lparr>es_gate_lease := Some 7\<rparr>)"
  by (simp add: gate_lease_def new_gate_lease_def grant_lease_def etcd_tick_def etcd_rpc_def call_etcd_def bindm_def log_start_def
      log_env_def log_etcd_def)

lemma log_taken:
  "log_now txs ''p/gate'' = None \<Longrightarrow> take_gate (log_env q) ''o'' 7 4 3 ((log_start txs n)\<lparr>es_gate_lease := Some 7\<rparr>) = (Inr (), log_gated txs n)"
  by (simp add: numeral_3_eq_3 etcd_range_def etcd_rpc_def call_etcd_def bindm_def log_start_def gate_key_def
      log_env_def log_etcd_def log_gated_def log_gate_def)

lemma log_after_gate: "log_now (txs @ [log_gate]) a = (if a = ''p/gate'' then Some \<lparr>kv_value = ''o'', kv_mod = Suc (length txs)\<rparr> else log_now txs a)"
  unfolding log_now_append by (simp add: stamp_def log_gate_def)

lemma log_no_root: "log_now txs ''p/root'' = None \<Longrightarrow> etcd_range (log_env q) (root_key (log_env q)) (log_gated txs n) = (Inr None, log_gated txs n)"
  by (simp add: etcd_range_def etcd_rpc_def call_etcd_def bindm_def root_key_def log_after_gate log_env_def log_etcd_def log_gated_def log_start_def)

lemma log_opens:
  "open_unit (log_env q) True None s = (Inr (), s\<lparr>es_unit := Some (log_unit (first_guards (log_env q)))\<rparr>)"
  by (simp add: open_unit_def bindm_def log_unit_def first_guards_def log_env_def)

lemma log_committed:
  assumes body: "body ((log_gated txs (Suc (Suc (Suc n))))\<lparr>es_unit := Some (log_unit (first_guards (log_env q)))\<rparr>) =
       (Inr (), (log_gated txs (Suc (Suc (Suc n))))\<lparr>es_unit := Some (log_written (first_guards (log_env q)) bs k i r)\<rparr>)"
    and known: "bs (k, log_shard i) \<in> {None, Some []}" and fine: "log_small k i r"
    and now: "log_now txs ''p/gate'' = None" "log_now txs ''p/root'' = None" "log_holds (log_now (txs @ [log_gate])) (first_guards (log_env q))"
  shows "fst (unit_of_etcd (log_env q) True body (log_start txs n)) = Inr ()"
proof -
  let ?s = "log_start txs (Suc n)" and ?g = "(log_start txs (Suc (Suc n)))\<lparr>es_gate_lease := Some 7\<rparr>" and ?m = "Suc (Suc (Suc n))"
  let ?p = "(log_gated txs ?m)\<lparr>es_unit := Some (log_written (first_guards (log_env q)) bs k i r)\<rparr>"
  have "fst (publish_unit (log_env q) ''o'' 7 None ?p) = Inr ()"
    by (rule log_published [where bs = bs and k = k and i = i, OF _ _ _ _ known fine]) (use now in \<open>simp_all add: log_gated_def log_start_def log_after_gate\<close>)
  then obtain t where published: "publish_unit (log_env q) ''o'' 7 None ?p = (Inr (), t)"
    by (cases "publish_unit (log_env q) ''o'' 7 None ?p") auto
  have clock: "etcd_tick (ee_clock (log_env q)) ?g = (Inr 0, (log_start txs ?m)\<lparr>es_gate_lease := Some 7\<rparr>)"
    by (simp add: etcd_tick_def log_env_def log_start_def)
  have env: "0 + ee_gate_wait (log_env q) = 4" "ee_patience (log_env q) = 3" by (simp_all add: log_env_def)
  have work: "writing_unit (log_env q) ''o'' 7 body ?g = (Inr (), t)"
    unfolding writing_unit_def bindm_def
    by (simp only: clock env log_taken [OF now(1)] log_no_root [OF now(2)] log_opens body published prod.case sum.case) simp
  have owner: "etcd_tick (ee_uuid (log_env q)) (log_start txs n) = (Inr ''o'', ?s)" by (simp add: etcd_tick_def log_env_def log_start_def)
  have idle: "es_unit (log_start txs n) = None" by (simp add: log_start_def)
  show ?thesis
    by (simp add: unit_of_etcd_def bindm_def idle owner log_lease catchm_def work finallym_def)
qed

lemma log_commit: "fst (unit_of_etcd (log_env []) True (put_unleased ''k'' log_row) (log_start [] 0)) = Inr ()"
proof (rule log_committed [OF _ _ log_row_small, where bs = "\<lambda>_. None"])
  show "log_holds (log_now ([] @ [log_gate])) (first_guards (log_env []))" by (simp add: log_holds_def first_guards_def log_env_def)
qed (simp_all add: put_unleased_def bindm_def of_unit_def log_unit_def log_written_def value_id_def log_row_def set_pending_def set_unit_def
    log_now_def)

text \<open>A node that holds the key of the maintenance and publishes its generation.\<close>

definition log_elected :: "effect list list" where
  "log_elected = [[Put_Key ''p/maintenance-owner'' ''v'' (Some 7)]]"

definition log_node :: "effect list list ha_state" where
  "log_node = \<lparr>ha_store = log_start log_elected 0, ha_owner = Some (7, ''v''), ha_required = [], ha_next = 0\<rparr>"

lemma log_leader: "leader_key (log_env q) = ''p/maintenance-owner''"
  by (simp add: leader_key_def log_env_def)

lemma log_generation_small: "log_small ''settings'' ''maintenance'' (generation_row (log_env q) ''i'' ''c'' 1 7 ''v'')"
  unfolding generation_row_def log_leader by code_simp

lemma log_settings:
  "es_unit s = Some u \<Longrightarrow> eu_root u = [] \<Longrightarrow> eu_pending u = [] \<Longrightarrow> eu_buckets u = (\<lambda>_. None) \<Longrightarrow>
     unit_get (log_env q) ''settings'' (Some ''maintenance'') s =
     (Inr None, s\<lparr>es_unit := Some (u\<lparr>eu_buckets := [(''settings'', ''hm'') \<mapsto> []]\<rparr>)\<rparr>)"
  by (simp add: unit_get_def of_unit_def bucket_def open_bucket_def shard_of_def bindm_def child_dict_def digest_at_def
      read_object_def set_unit_def log_env_def)

lemma log_elected_now: "log_now log_elected a = (if a = ''p/maintenance-owner'' then Some \<lparr>kv_value = ''v'', kv_mod = 1\<rparr> else None)"
  by (simp add: log_now_def log_elected_def stamp_def)

lemma log_not_installed: "unit_of_ha (log_env []) False (installed (log_env []) ''v'') log_node = (Inr False, log_node\<lparr>ha_store := log_start log_elected 1\<rparr>)"
proof -
  have owner: "etcd_tick (ee_uuid (log_env [])) (log_start log_elected 0) = (Inr ''o'', log_start log_elected 1)"
    by (simp add: etcd_tick_def log_env_def log_start_def)
  have none: "etcd_range (log_env []) (root_key (log_env [])) (log_start log_elected 1) = (Inr None, log_start log_elected 1)"
    by (simp add: etcd_range_def etcd_rpc_def call_etcd_def bindm_def root_key_def log_env_def log_etcd_def log_start_def log_elected_now)
  have start: "es_unit (log_start txs n) = None" "(log_start txs n)\<lparr>es_unit := None\<rparr> = log_start txs n" for txs n
    by (simp_all add: log_start_def)
  show ?thesis
    by (simp add: unit_of_ha_def on_store_def log_node_def unit_of_etcd_def bindm_def start(1) owner [unfolded One_nat_def] reading_unit_def none [unfolded One_nat_def] open_unit_def
        installed_def log_settings truthy_def finallym_def)
qed

lemma log_installed: "fst (install_generation (log_env []) ''i'' ''c'' 7 ''v'' log_node) = Inr ()"
proof -
  let ?q = "[(''p/maintenance-owner'', ''v'')]" and ?body = "next_generation (log_env []) ''i'' ''c'' 7 ''v''"
  have guards: "first_guards (log_env ?q) = ?q" by (simp add: first_guards_def log_env_def)
  have "fst (unit_of_etcd (log_env ?q) True ?body (log_start log_elected 1)) = Inr ()"
  proof (rule log_committed [OF _ _ log_generation_small, where bs = "[(''settings'', ''hm'') \<mapsto> []]" and q1 = "[]"])
    show "log_holds (log_now (log_elected @ [log_gate])) (first_guards (log_env ?q))"
      by (simp add: log_holds_def guards log_after_gate log_elected_now)
  qed (simp_all add: next_generation_def bindm_def log_settings log_unit_def guards truthy_def the_dict_def item_def number_of_def
      log_written_def put_unleased_def of_unit_def value_id_def generation_row_def set_pending_def set_unit_def log_shard_def log_elected_now)
  then obtain x where "unit_of_etcd (log_env ?q) True ?body (log_start log_elected 1) = (Inr (), x)"
    by (cases "unit_of_etcd (log_env ?q) True ?body (log_start log_elected 1)") auto
  moreover have "unit_of_ha (log_env []) True ?body (log_node\<lparr>ha_store := log_start log_elected 1, ha_required := ?q\<rparr>) =
      (case unit_of_etcd (log_env ?q) True ?body (log_start log_elected 1) of (r, t) \<Rightarrow> (r, log_node\<lparr>ha_store := t, ha_required := ?q\<rparr>))"
    by (simp add: unit_of_ha_def on_store_def split: prod.split)
  ultimately show ?thesis
    unfolding install_generation_def bindm_def log_not_installed by (simp add: log_leader finallym_def)
qed

text \<open>A unit that an earlier owner has opened, and that sees the generation of the present one.\<close>

definition log_deposed :: etcd_unit where
  "log_deposed = (log_unit [(''p/maintenance-owner'', ''u'')])\<lparr>eu_pending := [((''settings'', ''maintenance''),
     Some (generation_row (log_env []) ''i'' ''c'' 1 7 ''v''))]\<rparr>"

end
