(* ===== verification/Etcd_Properties.thy ===== *)
theory Etcd_Properties
  imports Etcd_Samples
begin

text \<open>
  The properties of the shared metadata store: texts in pages, the unit of work against tables of rows, what a
  flush publishes, the one transaction that makes it public, and the owner of the maintenance of a cluster.
\<close>

text \<open>
  C9. A text written in a unit of work of the shared store is read back exactly. Whatever its length, it is cut into
  leaves and index pages, collected, sealed and persisted in batches, and from then on reading its digest, with any state of the
  cache the program can have, gives the text: no page is lost, reordered or taken for another. The service is assumed to
  answer, and the addresses of the pages in use not to collide.
\<close>

theorem blob_read_back:
  assumes "serving env content" and "sealing_ok env" and "cache_ok env content s"
    and "es_unit s = Some u" and "eu_write u" and "pages_ok env X (eu_pages u)"
    and "inj_on (page_address env) (X \<union> set (blob_pages env payload) \<union> ran (stored_pages env (content (es_etcd s))))"
    and "length payload \<le> PAGE_BYTES * 64 ^ (READ_DEPTH - 1)"
    and "blob env payload s = (Inr d, t)"
  shows "\<exists>t' t''. persist_pages env (unit_pages t) t = (Inr (), t') \<and> read_blob env READ_DEPTH d t' = (Inr payload, t'')"
proof -
  let ?ps = "blob_pages env payload" and ?X = "X \<union> set (blob_pages env payload)"
  let ?pages = "fold (collect_page env (es_cache s)) ?ps (eu_pages u)"
  have w: "writing s" using assms(4,5) by (simp add: writing_def)
  from collects_blob [of env payload] w assms(9) have d: "d = blob_digest env payload" and t: "t = with_pages env ?ps s"
    unfolding collects_def by (auto dest!: spec [of _ s])
  have pages: "unit_pages t = ?pages" by (simp add: t unit_pages_def with_pages_def assms(4))
  have start: "pages_ok env ?X (eu_pages u)" using assms(6) unfolding pages_ok_def by blast
  have inj: "inj_on (page_address env) ?X" using assms(7) by (rule inj_on_subset) auto
  note got = collected [OF start inj, of ?ps "es_cache s"]
  have ok: "pages_ok env ?X ?pages" using got by simp
  have cache: "cache_ok env content t" using assms(3) by (simp add: t cache_ok_def)
  have here: "es_etcd t = es_etcd s" "es_cache t = es_cache s" by (simp_all add: t)
  obtain t' where t': "persist_pages env ?pages t = (Inr (), t')" "wrote env content ?pages t t'"
    using persist_pages_ok [OF assms(1,2) cache ok] assms(7) here(1) by auto
  have "(stored_pages env (content (es_etcd t')) ) (page_address env p) = Some p" if "p \<in> set ?ps" for p
    using held_page [OF cache ok, of p] got assms(7) that t'(2) by (simp add: wrote_def here)
  then have "holds_pages env (stored_pages env (content (es_etcd t'))) (set ?ps)" by (simp add: holds_pages_def)
  then have "text_at (stored_pages env (content (es_etcd t'))) READ_DEPTH d payload"
    unfolding d READ_DEPTH_steps by (rule text_of_blob) (rule assms(8) [unfolded READ_DEPTH_steps diff_Suc_1 power_Suc])
  from read_blob_ok [OF this assms(1)] t'(2) obtain t'' where "read_blob env READ_DEPTH d t' = (Inr payload, t'')"
    by (auto simp: wrote_def)
  with t' pages show ?thesis by auto
qed

theorem blob_read_back_witness:
  "\<exists>t t' t''. blob (log_env []) ''hi'' log_open = (Inr ''hLhi'', t) \<and> persist_pages (log_env []) (unit_pages t) t = (Inr (), t') \<and>
     read_blob (log_env []) READ_DEPTH ''hLhi'' t' = (Inr ''hi'', t'')"
proof -
  obtain t where t: "blob (log_env []) ''hi'' log_open = (Inr ''hLhi'', t)"
    using log_blob_hi by (cases "blob (log_env []) ''hi'' log_open") auto
  have small: "length ''hi'' \<le> PAGE_BYTES * 64 ^ (READ_DEPTH - 1)" by (simp add: PAGE_BYTES_def READ_DEPTH_def)
  have unit: "es_unit log_open = Some (log_unit [])" "eu_write (log_unit [])" "pages_ok (log_env []) {} (eu_pages (log_unit []))"
    by (simp_all add: log_open_def log_unit_def pages_ok_def)
  from blob_read_back [OF log_serving log_hashes(3) log_cache(2) unit log_hashes(1) small t] t show ?thesis by blast
qed

text \<open>
  C10. The unit of work of the shared store keeps the same promise as the database, but for the refusal of names. A writing unit opened on a root gives, for every sequence of
  reads, listings, writes and deletions, the answers and the exceptions of the tables of rows that the root leads to: whether a bucket or a page has been loaded before makes no difference, what the unit has
  written or deleted is seen at once, and lists are in the order of identifiers or of names. The service answers; rows kept by
  leases are read and deleted but not written.
\<close>

theorem etcd_refines:
  assumes "serving env content" and "cache_ok env content s" and "recorded_rows env (content (es_etcd s)) record base"
    and "\<And>k v. Put k v \<in> set ops \<Longrightarrow> fitting k v"
  shows "\<exists>t. open_unit env True record s = (Inr (), t) \<and>
     agree (unit_holds env content) (unit_run (etcd_step env) ops t) (unit_run (spec_step False) ops base)"
proof -
  obtain t u bk where t: "open_unit env True record s = (Inr (), t)" "opened env content (content (es_etcd s)) u bk t"
      "unit_at env (content (es_etcd s)) u bk base base"
    using open_unit_ok [OF assms(1-3)] by blast
  then have "unit_holds env content t base" unfolding unit_holds_def by blast
  moreover have "list_all (\<lambda>op. case op of Put k v \<Rightarrow> fitting k v | _ \<Rightarrow> True) ops"
    using assms(4) by (auto simp: list_all_iff split: unit_op.split)
  ultimately show ?thesis using t(1) etcd.run_agrees [of env content t base ops] by (simp add: etcd_step_def)
qed

theorem etcd_refines_witness:
  "\<exists>t. open_unit (log_env []) True None (log_start [] 0) = (Inr (), t) \<and>
     agree (unit_holds (log_env []) log_content) (unit_run (etcd_step (log_env [])) [Put ''k'' log_row, Get ''k'' ''a'', Delete ''k'' ''a'', All ''k''] t)
       (Inr ([Done, Row (Some (JObj log_row)), Done, Rows []], (\<lambda>_. tempty)(''k'' := tdel ''a'' (tput ''a'' (JObj log_row) tempty))))"
proof -
  have fit: "fitting k v" if "Put k v \<in> set [Put ''k'' log_row, Get ''k'' ''a'', Delete ''k'' ''a'', All ''k'']" for k v
    using that by (auto simp: fitting_def leased_def log_row_def)
  have "tdel ''a'' (tput ''a'' (JObj log_row) tempty) = tempty" by (rule table_eqI) simp
  then have run: "unit_run (spec_step False) [Put ''k'' log_row, Get ''k'' ''a'', Delete ''k'' ''a'', All ''k''] (\<lambda>_. tempty) =
      Inr ([Done, Row (Some (JObj log_row)), Done, Rows []], (\<lambda>_. tempty)(''k'' := tdel ''a'' (tput ''a'' (JObj log_row) tempty)))"
    by (simp add: spec_step_def unit_step_def peek_def spec_put_def value_id_def log_row_def)
  show ?thesis unfolding run [symmetric] by (rule etcd_refines [OF log_serving log_cache(1) log_rows fit])
qed

text \<open>
  C8. What a unit of work publishes is what is read afterwards. When the flush of a unit and the writing of its pages have ended,
  the digest it returns leads, through pages that are all stored, to exactly the rows of the unit: those it wrote as
  written, those it deleted gone, the others as before, in dictionaries that are equal up to the order of their members.
  Addresses do not collide.
\<close>

theorem flush_publishes:
  assumes "opened env content view u bk s" and "unit_at env view u bk base a" and "digests_ok env" and "sealing_ok env"
    and "unit_flush env s = (Inr d, t)" and "es_unit t = Some w" and "no_collision env view u w"
  shows "\<exists>t' b. persist_pages env (eu_pages w) t = (Inr (), t') \<and>
     stored_rows env (stored_pages env (content (es_etcd t'))) d b \<and> same_rows b a"
proof -
  from flush_run [OF assms(1-3,5-7)] have flush: "flushing env content view (text_pages env u w) t w"
    and rows: "stored_rows env (held env view w) d (apply_rows (eu_pending u) base)" by blast+
  then have ok: "serving env content" "cache_ok env content t" "content (es_etcd t) = view" "pages_ok env (text_pages env u w) (eu_pages w)"
      "inj_on (page_address env) (text_pages env u w \<union> ran (stored_pages env view))" by (simp_all add: flushing_def)
  from persist_pages_ok [OF ok(1) assms(4) ok(2,4)] ok(3,5) obtain t' where t': "persist_pages env (eu_pages w) t = (Inr (), t')"
      "wrote env content (eu_pages w) t t'" by auto
  then have "stored_pages env (content (es_etcd t')) = held env view w" by (simp add: wrote_def held_def ok(3))
  moreover have "same_rows (apply_rows (eu_pending u) base) a"
    unfolding same_rows_def
  proof (intro allI)
    fix k i
    have "tget (apply_rows (eu_pending u) base k) i = (case map_of (eu_pending u) (k, i) of Some v \<Rightarrow> read_back v | None \<Rightarrow> tget (base k) i)"
      using assms(2) by (intro tget_apply_rows) (simp add: unit_at_def pending_ok_def)
    moreover have "tget (a k) i = (case map_of (eu_pending u) (k, i) of Some v \<Rightarrow> map_option JObj v | None \<Rightarrow> tget (base k) i)"
      using assms(2) by (simp add: unit_at_def overlaid_def)
    ultimately show "map_option normal (tget (apply_rows (eu_pending u) base k) i) = map_option normal (tget (a k) i)"
      by (cases "map_of (eu_pending u) (k, i)") (auto simp: read_back_def option.map_comp comp_def normal_idem simp del: normal.simps)
  qed
  ultimately show ?thesis using t'(1) rows by auto
qed

theorem flush_publishes_witness:
  "\<exists>d t w t' b. unit_flush (log_env []) log_pending = (Inr d, t) \<and> es_unit t = Some w \<and> persist_pages (log_env []) (eu_pages w) t = (Inr (), t') \<and>
     stored_rows (log_env []) (stored_pages (log_env []) (log_content (es_etcd t'))) d b \<and>
     same_rows b ((\<lambda>_. tempty)(''k'' := tput ''a'' (JObj log_row) tempty))"
proof -
  obtain d t w where run: "unit_flush (log_env []) log_pending = (Inr d, t)" "es_unit t = Some w"
    and fits: "no_collision (log_env []) (log_content []) log_one w"
    using log_flush by blast
  from flush_publishes [OF log_opened log_unit_at log_hashes(2,3) run fits] run show ?thesis by blast
qed

text \<open>
  C7. A writing unit of work of the shared store that returns was published whole, on the root it had read. At one revision of etcd
  the gate held this unit's name, every key that it had relied on had the value it had seen, and the root was the very version the unit was opened on. At
  the next revision, all at once, the root is the digest the unit flushed after its pages were written, its marker holds that digest, the marker of the unit
  before is gone, the gate is free, and every other key is as the unit's own writes of lease keys leave it: a
  key it did not write is as it was. The root stays as it was when the digest is the one it had. So no
  update is lost between two control nodes, also when the answer of the transaction is lost and the call is repeated. The body
  may do anything that leaves the marker alone; what is relied on of etcd is \<open>atomic\<close>.
\<close>

theorem commit_atomic:
  assumes "atomic env hist own" and "own (marker_key env (ee_uuid env (es_ticks s)))"
    and "last (hist (es_etcd s)) (marker_key env (ee_uuid env (es_ticks s))) = None"
    and "\<And>h. keeps (\<lambda>s'. unmarked env hist own (ee_uuid env (es_ticks s)) h (es_etcd s')) body"
    and "unit_of_etcd env True body s = (Inr x, t)"
  defines "owner \<equiv> ee_uuid env (es_ticks s)"
  shows "\<exists>record s0 s1 s2 s3 s4 digest w h1 c h2.
     open_unit env True record s0 = (Inr (), s1) \<and> body s1 = (Inr x, s2) \<and> unit_flush env s2 = (Inr digest, s3) \<and>
     bindm (of_unit eu_pages) (persist_pages env) s3 = (Inr (), s4) \<and> es_unit s4 = Some w \<and>
     hist (es_etcd t) = h1 @ c # h2 \<and> (\<exists>more. h1 = hist (es_etcd s) @ more) \<and>
     last h1 (root_key env) = record \<and> values_of (last h1) (gate_key env) = Some owner \<and>
     (\<forall>(k, v) \<in> set (eu_guards w). values_of (last h1) k = Some v) \<and>
     values_of c (gate_key env) = None \<and>
     (values_of (last h1) (root_key env) \<noteq> Some digest \<longrightarrow> values_of c (root_key env) = Some digest) \<and>
     (es_marker s4 \<noteq> Some (marker_key env owner) \<longrightarrow> values_of c (marker_key env owner) = Some digest) \<and>
     (\<forall>k. k \<notin> {gate_key env, root_key env, marker_key env owner} \<or> (k = root_key env \<and> values_of (last h1) k = Some digest) \<longrightarrow>
        values_of c k = (if es_marker s4 = Some k then None else fold apply_effect (map snd (eu_effects w)) (values_of (last h1)) k))"
proof -
  from unit_committed [OF assms(1-5)] obtain rec s0 s1 s2 s3 s4 digest w lease h1 c h2 where
    run: "open_unit env True rec s0 = (Inr (), s1)" "body s1 = (Inr x, s2)" "unit_flush env s2 = (Inr digest, s3)"
      "bindm (of_unit eu_pages) (persist_pages env) s3 = (Inr (), s4)" "es_unit s4 = Some w"
    and at: "hist (es_etcd t) = h1 @ c # h2" "\<exists>more. h1 = hist (es_etcd s) @ more" "last h1 (root_key env) = rec"
    and met: "list_all (met (last h1)) (commit_guards env owner rec w)"
    and c: "values_of c = fold apply_effect (commit_effects env owner lease rec (es_marker s4) digest w) (values_of (last h1))"
    unfolding owner_def by blast
  have guards: "values_of (last h1) (gate_key env) = Some owner" "\<forall>(k, v) \<in> set (eu_guards w). values_of (last h1) k = Some v"
    using met by (auto simp: commit_guards_def list_all_iff values_of_def)
  note key = fun_cong [OF c, unfolded commit_leaves]
  have rt: "values_of (last h1) (root_key env) = map_option kv_value rec" using at(3) by (simp add: values_of_def)
  have gate: "values_of c (gate_key env) = None" using key [of "gate_key env"] by simp
  have root: "values_of (last h1) (root_key env) \<noteq> Some digest \<longrightarrow> values_of c (root_key env) = Some digest"
    using key [of "root_key env"] by (simp add: rt apart_keys apart_keys [THEN not_sym])
  have marker: "es_marker s4 \<noteq> Some (marker_key env owner) \<longrightarrow> values_of c (marker_key env owner) = Some digest"
    using key [of "marker_key env owner"] by (simp add: apart_keys)
  have others: "\<forall>k. k \<notin> {gate_key env, root_key env, marker_key env owner} \<or> (k = root_key env \<and> values_of (last h1) k = Some digest) \<longrightarrow>
        values_of c k = (if es_marker s4 = Some k then None else fold apply_effect (map snd (eu_effects w)) (values_of (last h1)) k)"
    by (auto simp: key rt apart_keys apart_keys [THEN not_sym])
  from at(2) obtain ys where ys: "h1 = hist (es_etcd s) @ ys" by blast
  show ?thesis using run at(1) ys at(3) guards gate root marker others by (intro exI conjI)
qed

theorem commit_atomic_witness:
  "\<exists>t record s0 s1 s2 s3 s4 digest w h1 c h2.
     unit_of_etcd (log_env []) True (put_unleased ''k'' log_row) (log_start [] 0) = (Inr (), t) \<and>
     open_unit (log_env []) True record s0 = (Inr (), s1) \<and> put_unleased ''k'' log_row s1 = (Inr (), s2) \<and> unit_flush (log_env []) s2 = (Inr digest, s3) \<and>
     bindm (of_unit eu_pages) (persist_pages (log_env [])) s3 = (Inr (), s4) \<and> es_unit s4 = Some w \<and>
     log_hist (es_etcd t) = h1 @ c # h2 \<and> last h1 ''p/root'' = record \<and> values_of (last h1) ''p/gate'' = Some ''o'' \<and>
     values_of c ''p/gate'' = None \<and> (values_of (last h1) ''p/root'' \<noteq> Some digest \<longrightarrow> values_of c ''p/root'' = Some digest)"
proof -
  have own: "ee_uuid (log_env []) (es_ticks (log_start [] 0)) = ''o''" by (simp add: log_env_def)
  have none: "last (log_hist (es_etcd (log_start [] 0))) (marker_key (log_env []) ''o'') = None"
    by (simp add: log_last log_now_def log_start_def)
  have body: "keeps (\<lambda>s. unmarked (log_env []) log_hist (\<lambda>_. True) ''o'' h (es_etcd s)) (put_unleased ''k'' log_row)" for h
    by (intro keep)
  obtain t where t: "unit_of_etcd (log_env []) True (put_unleased ''k'' log_row) (log_start [] 0) = (Inr (), t)"
    using log_commit by (cases "unit_of_etcd (log_env []) True (put_unleased ''k'' log_row) (log_start [] 0)") auto
  have keys: "root_key (log_env []) = ''p/root''" "gate_key (log_env []) = ''p/gate''" by (simp_all add: root_key_def gate_key_def log_env_def)
  with commit_atomic [where env = "log_env []" and hist = log_hist and s = "log_start [] 0" and own = "\<lambda>_. True", unfolded own keys, OF log_atomic TrueI none body t] t
  show ?thesis by (metis (no_types, lifting))
qed

text \<open>
  C37. A control node publishes a generation of the maintenance only while it is the owner. When publishing it returns, either this owner's
  generation was found installed, or the unit of work that counted it up became visible at one revision, and at the revision before it
  the key of the maintenance held this owner's value and the gate was this unit's; afterwards nothing is required of later units. So a node whose lease has ended cannot
  install itself over its successor. The markers of commits are this process's own and unused.
\<close>

theorem generation_fenced:
  assumes "atomic env hist own" and "\<And>n. own (marker_key env (ee_uuid env n))"
    and "\<And>n. last (hist (es_etcd (ha_store s))) (marker_key env (ee_uuid env n)) = None"
    and "install_generation env instance_id control lease value s = (Inr (), t)"
  shows "unit_of_ha env False (installed env value) s = (Inr True, t) \<or>
     ha_required t = [] \<and> (\<exists>owner s1 s2 s3 digest w l rec previous h1 c h2.
       next_generation env instance_id control lease value s1 = (Inr (), s2) \<and>
       unit_flush (env\<lparr>ee_required := [(leader_key env, value)]\<rparr>) s2 = (Inr digest, s3) \<and>
       hist (es_etcd (ha_store t)) = h1 @ c # h2 \<and> (\<exists>ys. h1 = hist (es_etcd (ha_store s)) @ ys) \<and>
       map_option kv_value (last h1 (leader_key env)) = Some value \<and> map_option kv_value (last h1 (gate_key env)) = Some owner \<and>
       values_of c = fold apply_effect (commit_effects env owner l rec previous digest w) (values_of (last h1)))"
  by (rule generation_published [OF assms])

theorem generation_fenced_witness:
  "\<exists>t h1 c h2. install_generation (log_env []) ''i'' ''c'' 7 ''v'' log_node = (Inr (), t) \<and>
     log_hist (es_etcd (ha_store t)) = h1 @ c # h2 \<and> map_option kv_value (last h1 ''p/maintenance-owner'') = Some ''v''"
proof -
  obtain t where t: "install_generation (log_env []) ''i'' ''c'' 7 ''v'' log_node = (Inr (), t)"
    using log_installed by (cases "install_generation (log_env []) ''i'' ''c'' 7 ''v'' log_node") auto
  have none: "last (log_hist (es_etcd (ha_store log_node))) (marker_key (log_env []) (ee_uuid (log_env []) n)) = None" for n
    by (simp add: log_last log_node_def log_start_def log_elected_now marker_key_def log_env_def)
  have fresh: "unit_of_ha (log_env []) False (installed (log_env []) ''v'') log_node \<noteq> (Inr True, t)"
    by (simp add: log_not_installed)
  from generation_fenced [where own = "\<lambda>_. True", OF log_atomic TrueI none t] fresh t show ?thesis
    unfolding log_leader by blast
qed

text \<open>
  C38. The comparison with the owner can be lost on the way. A unit of work that was opened by a deposed owner, under the guard that the key of the
  maintenance holds its value, and then looks at the maintenance, as every unit of the maintenance does, gets the generation of its
  successor and from then on compares the key with the successor's value: the guard is replaced, not added, and
  the unit is published although its owner has lost the maintenance.
\<close>

theorem deposed_owner_unnoticed:
  assumes "unit_get env ''settings'' (Some ''maintenance'') s = (Inr (Some (JObj v)), t)" and "es_unit t = Some u"
    and "eu_guards u = [(leader_key env, old)]" and "old \<noteq> new"
    and "lease_key v = Some (leader_key env)" and "map_of v ''lease_owner'' = Some (JStr new)"
    and "map_of (eu_effects u) (leader_key env) = None" and "map_of (eu_lease_reads u) (leader_key env) = None"
    and "ed_range (ee_etcd env) (leader_key env) (es_etcd t) = (Inr (Some r), e)" and "kv_value r = new"
  shows "\<exists>t' w. maintenance env s = (Inr v, t') \<and> es_unit t' = Some w \<and>
     (\<forall>owner rec. Value_Is (leader_key env) old \<notin> set (commit_guards env owner rec w) \<and>
        Value_Is (leader_key env) new \<in> set (commit_guards env owner rec w))"
proof -
  obtain t' w where run: "maintenance env s = (Inr v, t')" "es_unit t' = Some w" "eu_guards w = dict_put (leader_key env) new (eu_guards u)"
    using maintenance_guard [OF assms(1,2,5-10)] by blast
  then have "eu_guards w = [(leader_key env, new)]" using assms(3) by simp
  then show ?thesis using run(1,2) assms(4) by (auto simp: commit_guards_def leader_key_def gate_key_def)
qed

theorem deposed_owner_unnoticed_witness:
  "\<exists>t' w. maintenance (log_env []) ((log_start log_elected 0)\<lparr>es_unit := Some log_deposed\<rparr>) = (Inr (generation_row (log_env []) ''i'' ''c'' 1 7 ''v''), t') \<and>
     es_unit t' = Some w \<and> Value_Is ''p/maintenance-owner'' ''u'' \<notin> set (commit_guards (log_env []) ''o'' None w)"
proof -
  let ?s = "(log_start log_elected 0)\<lparr>es_unit := Some log_deposed\<rparr>" and ?v = "generation_row (log_env []) ''i'' ''c'' 1 7 ''v''"
  have found: "unit_get (log_env []) ''settings'' (Some ''maintenance'') ?s = (Inr (Some (JObj ?v)), ?s)"
    by (simp add: unit_get_def bindm_def of_unit_def log_deposed_def)
  have unit: "es_unit ?s = Some log_deposed" "eu_guards log_deposed = [(leader_key (log_env []), ''u'')]"
      "map_of (eu_effects log_deposed) (leader_key (log_env [])) = None" "map_of (eu_lease_reads log_deposed) (leader_key (log_env [])) = None"
    by (simp_all add: log_deposed_def log_unit_def log_leader)
  have row: "lease_key ?v = Some (leader_key (log_env []))" "map_of ?v ''lease_owner'' = Some (JStr ''v'')"
    by (simp_all add: generation_row_def lease_key_def log_leader)
  have range: "ed_range (ee_etcd (log_env [])) (leader_key (log_env [])) (es_etcd ?s) =
      (Inr (Some \<lparr>kv_value = ''v'', kv_mod = 1\<rparr>), log_elected)"
    by (simp add: log_env_def log_etcd_def leader_key_def log_start_def log_elected_now)
  have other: "''u'' \<noteq> ''v''" by simp
  from deposed_owner_unnoticed [OF found unit(1,2) other row unit(3,4) range] show ?thesis
    unfolding log_leader by auto
qed

end
