(* ===== verification/Failover.thy ===== *)
theory Failover
  imports Domain
begin

text \<open>
  The channel over several endpoints of one service (\<^verbatim>\<open>common/failover.py\<close>): a unary call goes to the endpoint that answered
  last and, while its time lasts, to the others in turn when an endpoint is unreachable. The endpoints are a
  function \<open>fe_answer\<close> of the endpoint, the number of readings so far and the time it is given; times are
  rational seconds of the monotonic clock.
\<close>

section \<open>The channel\<close>

record rpc_failure =
  rf_code :: status_code
  rf_detailed :: bool

record failover =
  fo_index :: nat
  fo_closed :: bool
  fo_sent :: int
  fo_received :: int
  fo_tick :: nat

record ('q, 'r) failover_env =
  fe_channels :: nat
  fe_clock :: "nat \<Rightarrow> rat"
  fe_answer :: "nat \<Rightarrow> nat \<Rightarrow> rat \<Rightarrow> 'q \<Rightarrow> rpc_failure + 'r"
  fe_request_size :: "'q \<Rightarrow> int"
  fe_response_size :: "'r \<Rightarrow> int"

text \<open>The two ways in which a call raises: an error of the remote side, or the program's own.\<close>

datatype call_error = Remote rpc_failure | Exhausted

definition new_channel :: "nat \<Rightarrow> failover res" where
  "new_channel channels =
     guardr (0 < channels) ValueError (Inr \<lparr>fo_index = 0, fo_closed = False, fo_sent = 0, fo_received = 0, fo_tick = 0\<rparr>)"

definition GET_PROTECTION :: string where
  "GET_PROTECTION = ''/dfsha.v1.ClusterAdministrationService/GetProtection''"

definition cancelled_read :: "failover \<Rightarrow> string \<Rightarrow> rpc_failure \<Rightarrow> bool" where
  "cancelled_read s rpc e \<longleftrightarrow> rf_code e = SC_CANCELLED \<and> rpc = GET_PROTECTION \<and> \<not> fo_closed s \<and> \<not> rf_detailed e"

definition next_endpoint :: "failover \<Rightarrow> string \<Rightarrow> rpc_failure \<Rightarrow> bool" where
  "next_endpoint s rpc e \<longleftrightarrow> rf_code e \<in> {SC_UNAVAILABLE, SC_DEADLINE_EXCEEDED} \<or> cancelled_read s rpc e"

text \<open>\<^verbatim>\<open>timeout or 5\<close>.\<close>

definition patience :: "rat option \<Rightarrow> rat" where
  "patience timeout = (case timeout of None \<Rightarrow> 5 | Some t \<Rightarrow> if t = 0 then 5 else t)"

definition budget :: "nat \<Rightarrow> nat \<Rightarrow> rat \<Rightarrow> rat \<Rightarrow> rat" where
  "budget channels attempt wait remaining =
     (if attempt < channels - 1 then min remaining (max 1 (wait * (7 / 10))) else remaining)"

definition settle :: "rpc_failure option \<Rightarrow> call_error + 'r" where
  "settle error = (case error of Some e \<Rightarrow> Inl (Remote e) | None \<Rightarrow> Inl Exhausted)"

fun attempts :: "('q, 'r) failover_env \<Rightarrow> string \<Rightarrow> 'q \<Rightarrow> rat \<Rightarrow> rat \<Rightarrow> nat \<Rightarrow> rpc_failure option \<Rightarrow> nat list \<Rightarrow> failover \<Rightarrow>
    (call_error + 'r) \<times> failover" where
  "attempts env rpc request wait deadline start error [] s = (settle error, s)"
| "attempts env rpc request wait deadline start error (attempt # later) s =
     (let index = (start + attempt) mod fe_channels env;
          remaining = deadline - fe_clock env (fo_tick s)
      in if remaining \<le> 0 then (settle error, s\<lparr>fo_tick := Suc (fo_tick s)\<rparr>)
         else let time = budget (fe_channels env) attempt wait remaining;
                  s' = s\<lparr>fo_tick := fo_tick s + 2, fo_sent := fo_sent s + fe_request_size env request\<rparr>
              in case fe_answer env index (fo_tick s + 1) time request of
                   Inr response \<Rightarrow>
                     (Inr response, s'\<lparr>fo_index := index, fo_received := fo_received s' + fe_response_size env response\<rparr>)
                 | Inl e \<Rightarrow>
                     if next_endpoint s' rpc e
                     then attempts env rpc request wait deadline start (Some e) later s'
                     else (Inl (Remote e), s'))"

definition unary_unary :: "('q, 'r) failover_env \<Rightarrow> string \<Rightarrow> 'q \<Rightarrow> rat option \<Rightarrow> failover \<Rightarrow> (call_error + 'r) \<times> failover" where
  "unary_unary env rpc request timeout s =
     attempts env rpc request (patience timeout) (fe_clock env (fo_tick s) + patience timeout) (fo_index s) None
       [0..<fe_channels env] (s\<lparr>fo_tick := Suc (fo_tick s)\<rparr>)"

text \<open>A stream goes to the endpoint that answered last.\<close>

definition stream_endpoint :: "failover \<Rightarrow> nat" where
  "stream_endpoint s = fo_index s"

definition close_channel :: "failover \<Rightarrow> failover" where
  "close_channel s = s\<lparr>fo_closed := True\<rparr>"

section \<open>A reachable endpoint is found\<close>

text \<open>
  The endpoints behave: each one answers, or fails in a way that sends the call on, and \<open>healthy\<close> answers whenever it
  is given some time.
\<close>

definition reachable_within :: "('q, 'r) failover_env \<Rightarrow> string \<Rightarrow> 'q \<Rightarrow> nat \<Rightarrow> failover \<Rightarrow> bool" where
  "reachable_within env rpc request healthy s \<longleftrightarrow> healthy < fe_channels env \<and>
     (\<forall>i t b e. 0 < b \<longrightarrow> fe_answer env i t b request = Inl e \<longrightarrow> i \<noteq> healthy \<and> next_endpoint s rpc e)"

lemma next_endpoint_keeps [simp]:
  "next_endpoint (s\<lparr>fo_tick := t\<rparr>) rpc e = next_endpoint s rpc e" "next_endpoint (s\<lparr>fo_tick := t, fo_sent := b\<rparr>) rpc e = next_endpoint s rpc e"
  by (simp_all add: next_endpoint_def cancelled_read_def)

lemma reachable_keeps [simp]:
  "reachable_within env rpc request healthy (s\<lparr>fo_tick := t\<rparr>) = reachable_within env rpc request healthy s"
  "reachable_within env rpc request healthy (s\<lparr>fo_tick := t, fo_sent := b\<rparr>) = reachable_within env rpc request healthy s"
  by (simp_all add: reachable_within_def)

lemma budget_bounds: "0 < remaining \<Longrightarrow> 0 < budget n k wait remaining \<and> budget n k wait remaining \<le> remaining"
  using max.cobounded1 [of 1 "wait * (7 / 10)"] by (auto simp: budget_def min_def simp del: max.cobounded1)

lemma attempts_answer:
  assumes "reachable_within env rpc request healthy s" and "\<And>t. fe_clock env t < deadline"
    and "\<exists>k \<in> set ks. (start + k) mod fe_channels env = healthy"
  shows "\<exists>r t j time. attempts env rpc request wait deadline start error ks s = (Inr r, t) \<and> fo_index t = j \<and> j < fe_channels env \<and>
     0 < time \<and> (\<exists>tick. time \<le> deadline - fe_clock env tick \<and> fe_answer env j (Suc tick) time request = Inr r)"
  using assms
proof (induction ks arbitrary: s error)
  case (Cons k ks)
  let ?j = "(start + k) mod fe_channels env" and ?b = "budget (fe_channels env) k wait (deadline - fe_clock env (fo_tick s))"
  let ?s = "s\<lparr>fo_tick := fo_tick s + 2, fo_sent := fo_sent s + fe_request_size env request\<rparr>"
  have pos: "0 < deadline - fe_clock env (fo_tick s)" using Cons.prems(2) by simp
  have b: "0 < ?b" "?b \<le> deadline - fe_clock env (fo_tick s)" using budget_bounds [OF pos] by blast+
  have j: "?j < fe_channels env" using Cons.prems(1) by (intro mod_less_divisor) (simp add: reachable_within_def)
  show ?case
  proof (cases "fe_answer env ?j (Suc (fo_tick s)) ?b request")
    case (Inr r)
    with pos b j show ?thesis by (auto simp: Let_def)
  next
    case (Inl e)
    with Cons.prems(1) b(1) have on: "?j \<noteq> healthy" "next_endpoint s rpc e"
      unfolding reachable_within_def by blast+
    with Cons.prems(1,3) have "reachable_within env rpc request healthy ?s" "\<exists>k \<in> set ks. (start + k) mod fe_channels env = healthy"
      by simp_all
    from Cons.IH [OF this(1) Cons.prems(2) this(2), of "Some e"] on Inl pos show ?thesis
      by (simp add: Let_def)
  qed
qed simp

lemma rotation_reaches: "healthy < n \<Longrightarrow> \<exists>k \<in> set [0..<n]. (start + k) mod n = healthy" for n :: nat
proof -
  assume h: "healthy < n"
  let ?k = "(healthy + (n - start mod n)) mod n"
  have "(start + ?k) mod n = (start mod n + (healthy + (n - start mod n))) mod n" by (simp add: mod_add_eq mod_add_left_eq mod_add_right_eq)
  also have "start mod n + (healthy + (n - start mod n)) = healthy + n" using h mod_less_divisor [of n start] by linarith
  also have "(healthy + n) mod n = healthy" using h by simp
  finally show ?thesis using h by (intro bexI [of _ ?k]) auto
qed

text \<open>
  C25. One reachable endpoint is enough. When the endpoints fail only by being unreachable, one of them answers whenever it is asked, and
  the clock stays before the deadline of the call, the call returns an answer: that of an endpoint that was given a
  positive time within the deadline, and which later calls and streams turn to first.
\<close>

theorem failover_answers:
  assumes "reachable_within env rpc request healthy s" and "\<And>t. fe_clock env t < fe_clock env (fo_tick s) + patience timeout"
  shows "\<exists>r t tick time. unary_unary env rpc request timeout s = (Inr r, t) \<and> stream_endpoint t < fe_channels env \<and> 0 < time \<and>
     time \<le> fe_clock env (fo_tick s) + patience timeout - fe_clock env tick \<and>
     fe_answer env (stream_endpoint t) (Suc tick) time request = Inr r"
proof -
  let ?s = "s\<lparr>fo_tick := Suc (fo_tick s)\<rparr>"
  have "\<exists>k \<in> set [0..<fe_channels env]. (fo_index s + k) mod fe_channels env = healthy"
    using assms(1) by (intro rotation_reaches) (simp add: reachable_within_def)
  moreover have "reachable_within env rpc request healthy ?s" using assms(1) by simp
  ultimately obtain r t time tick where "unary_unary env rpc request timeout s = (Inr r, t)" "fo_index t < fe_channels env" "0 < time"
      "time \<le> fe_clock env (fo_tick s) + patience timeout - fe_clock env tick" "fe_answer env (fo_index t) (Suc tick) time request = Inr r"
    using attempts_answer [OF _ assms(2), where s = ?s and error = None and wait = "patience timeout" and start = "fo_index s" and ks = "[0..<fe_channels env]"]
    unfolding unary_unary_def by blast
  then show ?thesis unfolding stream_endpoint_def by blast
qed

definition sample_endpoints :: "(string, string) failover_env" where
  "sample_endpoints = \<lparr>fe_channels = 3, fe_clock = (\<lambda>_. 0),
     fe_answer = (\<lambda>i t b q. if i = 2 then Inr ''ok'' else Inl \<lparr>rf_code = SC_UNAVAILABLE, rf_detailed = False\<rparr>),
     fe_request_size = (\<lambda>q. int (length q)), fe_response_size = (\<lambda>r. int (length r))\<rparr>"

theorem failover_answers_witness:
  "\<exists>t. unary_unary sample_endpoints ''/x'' ''q'' None \<lparr>fo_index = 0, fo_closed = False, fo_sent = 0, fo_received = 0, fo_tick = 0\<rparr> = (Inr ''ok'', t) \<and>
     stream_endpoint t = 2"
proof -
  have "reachable_within sample_endpoints ''/x'' ''q'' 2 \<lparr>fo_index = 0, fo_closed = False, fo_sent = 0, fo_received = 0, fo_tick = 0\<rparr>"
    by (simp add: reachable_within_def sample_endpoints_def next_endpoint_def)
  from failover_answers [OF this, of None] show ?thesis
    by (auto simp: sample_endpoints_def patience_def split: if_splits)
qed

lemma rotation_distinct: "k \<le> n \<Longrightarrow> distinct (map (\<lambda>i. (start + i) mod n) [0..<k])" for n :: nat
proof -
  assume k: "k \<le> n"
  have less: "(start + i) mod n \<noteq> (start + j) mod n" if "i < j" "j < k" for i j
  proof
    assume "(start + i) mod n = (start + j) mod n"
    then have "n dvd start + j - (start + i)" using that(1) by (subst mod_eq_dvd_iff_nat [symmetric]) auto
    with that k show False by (auto dest: dvd_imp_le)
  qed
  have "i = j" if "i < k" "j < k" "(start + i) mod n = (start + j) mod n" for i j
    using less [of i j] less [of j i] that by (metis linorder_less_linear)
  then show ?thesis by (auto simp: distinct_map inj_on_def)
qed

text \<open>
  The course of the requests that failed: the \<open>i\<close>-th of them went to the endpoint \<open>i\<close> places after the first, was given
  a positive time that ends by the deadline, was answered by the \<open>i\<close>-th error, and each of them but the last
  was one after which the call goes on. A request reads the clock twice, so the tick numbers say in which order
  the clock and the endpoints were asked.
\<close>

definition asked :: "('q, 'r) failover_env \<Rightarrow> 'q \<Rightarrow> rat \<Rightarrow> nat \<Rightarrow> nat \<Rightarrow> nat \<Rightarrow> rpc_failure \<Rightarrow> bool" where
  "asked env request deadline start tick i e \<longleftrightarrow>
     (\<exists>time. 0 < time \<and> time \<le> deadline - fe_clock env (tick + 2 * i) \<and>
        fe_answer env ((start + i) mod fe_channels env) (tick + 2 * i + 1) time request = Inl e)"

lemma attempts_raise:
  fixes env :: "('q, 'r) failover_env"
  assumes "attempts env rpc request wait deadline start error [j..<n] s = (Inl x, t)" and "tick + 2 * j = fo_tick s" and "j \<le> n"
  shows "\<exists>es. j + length es \<le> n \<and> (\<forall>i < length es. asked env request deadline start tick (j + i) (es ! i)) \<and>
     (\<forall>i. Suc i < length es \<longrightarrow> next_endpoint s rpc (es ! i)) \<and>
     (es = [] \<longrightarrow> settle error = (Inl x :: call_error + 'r)) \<and> (es \<noteq> [] \<longrightarrow> x = Remote (last es)) \<and>
     (j + length es < n \<longrightarrow> (es = [] \<or> next_endpoint s rpc (last es)) \<longrightarrow> deadline \<le> fe_clock env (tick + 2 * (j + length es))) \<and>
     fo_sent t = fo_sent s + int (length es) * fe_request_size env request \<and> fo_index t = fo_index s \<and> fo_received t = fo_received s"
  using assms
proof (induction "n - j" arbitrary: j s error)
  case 0
  then show ?case by (intro exI [of _ "[]"]) (auto simp: settle_def split: option.splits)
next
  case (Suc m)
  let ?i = "(start + j) mod fe_channels env" and ?b = "budget (fe_channels env) j wait (deadline - fe_clock env (fo_tick s))"
  let ?s = "s\<lparr>fo_tick := fo_tick s + 2, fo_sent := fo_sent s + fe_request_size env request\<rparr>"
  have steps: "[j..<n] = j # [Suc j..<n]" and below: "j < n" using Suc.hyps(2) by (simp_all add: upt_rec)
  consider "deadline - fe_clock env (fo_tick s) \<le> 0"
    | e where "0 < deadline - fe_clock env (fo_tick s)" "fe_answer env ?i (Suc (fo_tick s)) ?b request = Inl e" "\<not> next_endpoint s rpc e"
    | e where "0 < deadline - fe_clock env (fo_tick s)" "fe_answer env ?i (Suc (fo_tick s)) ?b request = Inl e" "next_endpoint s rpc e"
    using Suc.prems(1) unfolding steps by (cases "fe_answer env ?i (Suc (fo_tick s)) ?b request") (auto simp: Let_def split: if_splits)
  then show ?case
  proof cases
    case 1
    with Suc.prems show ?thesis unfolding steps
      by (intro exI [of _ "[]"]) (auto simp: settle_def split: option.splits)
  next
    case 2
    with budget_bounds [OF 2(1)] Suc.prems(2) have "asked env request deadline start tick j e"
      unfolding asked_def by (intro exI [of _ ?b]) auto
    with 2 Suc.prems below show ?thesis unfolding steps by (intro exI [of _ "[e]"]) (auto simp: Let_def)
  next
    case 3
    with budget_bounds [OF 3(1)] Suc.prems(2) have here: "asked env request deadline start tick j e"
      unfolding asked_def by (intro exI [of _ ?b]) auto
    from 3 Suc.prems(1) have rest: "attempts env rpc request wait deadline start (Some e) [Suc j..<n] ?s = (Inl x, t)"
      unfolding steps by (simp add: Let_def)
    have "m = n - Suc j" "tick + 2 * Suc j = fo_tick ?s" "Suc j \<le> n" using Suc.hyps(2) Suc.prems(2) below by simp_all
    from Suc.hyps(1) [OF this(1) rest this(2,3)] obtain es where "Suc j + length es \<le> n \<and>
        (\<forall>i < length es. asked env request deadline start tick (Suc j + i) (es ! i)) \<and>
        (\<forall>i. Suc i < length es \<longrightarrow> next_endpoint ?s rpc (es ! i)) \<and>
        (es = [] \<longrightarrow> settle (Some e) = (Inl x :: call_error + 'r)) \<and> (es \<noteq> [] \<longrightarrow> x = Remote (last es)) \<and>
        (Suc j + length es < n \<longrightarrow> (es = [] \<or> next_endpoint ?s rpc (last es)) \<longrightarrow> deadline \<le> fe_clock env (tick + 2 * (Suc j + length es))) \<and>
        fo_sent t = fo_sent ?s + int (length es) * fe_request_size env request \<and> fo_index t = fo_index ?s \<and> fo_received t = fo_received ?s"
      by (elim exE)
    then have es: "Suc j + length es \<le> n" "\<forall>i < length es. asked env request deadline start tick (Suc j + i) (es ! i)"
        "\<forall>i. Suc i < length es \<longrightarrow> next_endpoint s rpc (es ! i)" "x = (if es = [] then Remote e else Remote (last es))"
        "Suc j + length es < n \<longrightarrow> (es = [] \<or> next_endpoint s rpc (last es)) \<longrightarrow> deadline \<le> fe_clock env (tick + 2 * (Suc j + length es))"
        "fo_sent t = fo_sent s + fe_request_size env request + int (length es) * fe_request_size env request"
        "fo_index t = fo_index s" "fo_received t = fo_received s"
      by (simp_all add: settle_def)
    show ?thesis
    proof (intro exI [of _ "e # es"] conjI allI impI)
      fix i assume "i < length (e # es)"
      with es(2) here show "asked env request deadline start tick (j + i) ((e # es) ! i)" by (cases i) auto
    next
      fix i assume "Suc i < length (e # es)"
      with es(3) 3(3) show "next_endpoint s rpc ((e # es) ! i)" by (cases i) auto
    qed (use es 3(3) in \<open>auto simp: algebra_simps split: if_splits\<close>)
  qed
qed

text \<open>
  C32. What a failed call means. A call that raises has asked the first \<open>k\<close> endpoints of the rotation that starts at the
  endpoint that answered last: each of these \<open>k\<close> endpoints once, no other one, each with a positive time that ends by
  the deadline, and each failed. All the failures but the last were ones that send the call on, the error
  raised is the last of them, and the program's own error is raised exactly when nobody was asked. The
  call stopped before the end of the rotation only because of an error that does not send it on or
  because the clock had reached the deadline. It has sent the request \<open>k\<close> times and received nothing, and the endpoint that
  later calls turn to first is the same as before.
\<close>

theorem failover_raises:
  fixes env :: "('q, 'r) failover_env"
  assumes "unary_unary env rpc request timeout s = (Inl x, t)"
  defines "n \<equiv> fe_channels env" and "deadline \<equiv> fe_clock env (fo_tick s) + patience timeout"
  shows "\<exists>es. length es \<le> n \<and> distinct (map (\<lambda>i. (stream_endpoint s + i) mod n) [0..<length es]) \<and>
     (\<forall>i < length es. \<exists>time. 0 < time \<and> time \<le> deadline - fe_clock env (fo_tick s + 1 + 2 * i) \<and>
        fe_answer env ((stream_endpoint s + i) mod n) (fo_tick s + 2 + 2 * i) time request = Inl (es ! i)) \<and>
     (\<forall>i. Suc i < length es \<longrightarrow> next_endpoint s rpc (es ! i)) \<and>
     x = (if es = [] then Exhausted else Remote (last es)) \<and>
     (length es < n \<and> (es = [] \<or> next_endpoint s rpc (last es)) \<longrightarrow> deadline \<le> fe_clock env (fo_tick s + 1 + 2 * length es)) \<and>
     fo_sent t = fo_sent s + int (length es) * fe_request_size env request \<and> fo_received t = fo_received s \<and>
     stream_endpoint t = stream_endpoint s"
proof -
  let ?s = "s\<lparr>fo_tick := Suc (fo_tick s)\<rparr>"
  have "Suc (fo_tick s) + 2 * 0 = fo_tick ?s" "0 \<le> fe_channels env" by simp_all
  from attempts_raise [OF assms(1) [unfolded unary_unary_def] this] obtain es where "0 + length es \<le> n \<and>
      (\<forall>i < length es. asked env request deadline (fo_index s) (Suc (fo_tick s)) (0 + i) (es ! i)) \<and>
      (\<forall>i. Suc i < length es \<longrightarrow> next_endpoint ?s rpc (es ! i)) \<and>
      (es = [] \<longrightarrow> settle None = (Inl x :: call_error + 'r)) \<and> (es \<noteq> [] \<longrightarrow> x = Remote (last es)) \<and>
      (0 + length es < n \<longrightarrow> (es = [] \<or> next_endpoint ?s rpc (last es)) \<longrightarrow> deadline \<le> fe_clock env (Suc (fo_tick s) + 2 * (0 + length es))) \<and>
      fo_sent t = fo_sent ?s + int (length es) * fe_request_size env request \<and> fo_index t = fo_index ?s \<and> fo_received t = fo_received ?s"
    unfolding n_def deadline_def by (elim exE)
  then have es: "length es \<le> n" "\<forall>i < length es. asked env request deadline (fo_index s) (Suc (fo_tick s)) i (es ! i)"
      "\<forall>i. Suc i < length es \<longrightarrow> next_endpoint s rpc (es ! i)" "x = (if es = [] then Exhausted else Remote (last es))"
      "length es < n \<and> (es = [] \<or> next_endpoint s rpc (last es)) \<longrightarrow> deadline \<le> fe_clock env (fo_tick s + 1 + 2 * length es)"
      "fo_sent t = fo_sent s + int (length es) * fe_request_size env request" "fo_received t = fo_received s" "fo_index t = fo_index s"
    by (auto simp: settle_def)
  have apart: "distinct (map (\<lambda>i. (fo_index s + i) mod n) [0..<length es])" using es(1) by (rule rotation_distinct)
  have each: "\<forall>i < length es. \<exists>time. 0 < time \<and> time \<le> deadline - fe_clock env (fo_tick s + 1 + 2 * i) \<and>
      fe_answer env ((fo_index s + i) mod n) (fo_tick s + 2 + 2 * i) time request = Inl (es ! i)"
    using es(2) by (simp add: asked_def n_def)
  show ?thesis unfolding stream_endpoint_def using es(1) apart each es(3-8) by (intro exI [of _ es] conjI)
qed

theorem failover_raises_witness:
  "\<exists>t. unary_unary (sample_endpoints\<lparr>fe_channels := 2\<rparr>) ''/x'' ''q'' None \<lparr>fo_index = 0, fo_closed = False, fo_sent = 0, fo_received = 0, fo_tick = 0\<rparr> =
      (Inl (Remote \<lparr>rf_code = SC_UNAVAILABLE, rf_detailed = False\<rparr>), t) \<and> stream_endpoint t = 0"
proof -
  let ?s = "\<lparr>fo_index = 0, fo_closed = False, fo_sent = 0, fo_received = 0, fo_tick = 0\<rparr>"
  have "\<exists>t. unary_unary (sample_endpoints\<lparr>fe_channels := 2\<rparr>) ''/x'' ''q'' None ?s = (Inl (Remote \<lparr>rf_code = SC_UNAVAILABLE, rf_detailed = False\<rparr>), t)"
    by (simp add: unary_unary_def sample_endpoints_def patience_def eval_nat_numeral upt_rec settle_def next_endpoint_def Let_def budget_def)
  then show ?thesis using failover_raises [of "sample_endpoints\<lparr>fe_channels := 2\<rparr>" "''/x''" "''q''" None ?s]
    by (force simp: stream_endpoint_def)
qed

end
