(* ===== verification/Auth.thy ===== *)
theory Auth
  imports Domain
begin

text \<open>
  Identity and permissions (\<^verbatim>\<open>src/src/dfsha/control/auth.py\<close>): password checks behind
  the bounded number of hashing slots, session authentication, the permission check of
  \<^verbatim>\<open>Authorizer.require\<close>, block capabilities, and the first transaction of a fresh
  store. Argon2, SHA-256 and HMAC are fields of \<open>app\<close>.
\<close>

unbundle bit_operations_syntax

section \<open>Definitions\<close>

definition name_char :: "char \<Rightarrow> bool" where
  "name_char c \<longleftrightarrow> c \<in> set ''_-'' \<or>
     list_ex (\<lambda>(low, high). low \<le> c \<and> c \<le> high) (zip ''0Aa'' ''9Zz'')"

text \<open>\<^verbatim>\<open>re.fullmatch(r'[a-zA-Z0-9_-]{1,64}', name)\<close>\<close>

definition name_ok :: "string \<Rightarrow> bool" where
  "name_ok s \<longleftrightarrow> 1 \<le> length s \<and> length s \<le> 64 \<and> list_all name_char s"

text \<open>The salt of a new hash is drawn like an identifier.\<close>

definition password_hash :: "app \<Rightarrow> string \<Rightarrow> db \<Rightarrow> (string \<times> db) res" where
  "password_hash app password tx =
     need (12 \<le> length password \<and> length password \<le> 1024) INVALID_ARGUMENT (
     need (slot_free app) LIMIT_EXCEEDED (
     Inr (pw_hash app (uid_count tx) password, tx\<lparr>uid_count := Suc (uid_count tx)\<rparr>)))"

definition matches :: "app \<Rightarrow> string \<Rightarrow> string \<Rightarrow> bool res" where
  "matches app encoded password =
     (if length password > 1024 then Inr False
      else need (slot_free app) LIMIT_EXCEEDED (Inr (pw_verify app encoded password)))"

definition new_node :: "app \<Rightarrow> string \<Rightarrow> string option \<Rightarrow> string \<Rightarrow> bool \<Rightarrow> nat \<Rightarrow> db \<Rightarrow> node_rec \<times> db" where
  "new_node app name parent owner directory mode tx =
     (let (i, tx) = uid app tx in
      (\<lparr>n_id = i, n_name = name, n_parent = parent, n_owner = owner, n_group = owner,
        n_mode = mode, n_acl = [], n_alive = True, n_directory = directory, n_revision = 1,
        n_snapshot = None, n_block_size = 0\<rparr>, tx))"

text \<open>
  \<^verbatim>\<open>initialize\<close> of an installation that is there already, with a protected store: nothing changes, and it succeeds
  only for the administrator who gives the password. What the \<^verbatim>\<open>system\<close> row and the key file say is given by
  \<open>system_row\<close> (\<open>None\<close> without that row, otherwise whether the authority has been migrated) and \<open>same_key\<close>.
\<close>

definition initialize_again :: "app \<Rightarrow> bool option \<Rightarrow> bool \<Rightarrow> string \<Rightarrow> string \<Rightarrow> db \<Rightarrow> unit res" where
  "initialize_again app system_row same_key username password tx =
     need (name_ok username) INVALID_ARGUMENT (
     need (system_row = Some False) ALREADY_EXISTS (
     need same_key DATA_LOSS (
     need_some (find (\<lambda>u. u_username u = username) (tall (users tx))) ALREADY_EXISTS (\<lambda>user.
     need (u_admin user \<and> \<not> u_disabled user) ALREADY_EXISTS (
     bindr (matches app (u_password user) password) (\<lambda>same.
     need same ALREADY_EXISTS (Inr ())))))))"

text \<open>
  The fresh branch of \<^verbatim>\<open>initialize\<close>: no store, no key and no blocks may be present. The
  result names the root directory, which the \<^verbatim>\<open>system\<close> settings row records.
\<close>

definition initialize :: "app \<Rightarrow> bool \<Rightarrow> bool \<Rightarrow> string \<Rightarrow> string \<Rightarrow> db \<Rightarrow> (string \<times> db) res" where
  "initialize app store_exists blocks_exist username password tx =
     need (name_ok username) INVALID_ARGUMENT (
     need (\<not> store_exists) ALREADY_EXISTS (
     need (\<not> blocks_exist) ALREADY_EXISTS (
     bindr (password_hash app password tx) (\<lambda>(encoded, tx).
     let (identity, tx) = uid app tx;
         (rootnode, tx) = new_node app '''' None identity True 493 tx;
         tx = tx\<lparr>users := tput identity \<lparr>u_id = identity, u_username = username,
                u_password = encoded, u_disabled = False, u_admin = True, u_revision = 1\<rparr> (users tx)\<rparr>;
         tx = tx\<lparr>groups := tput identity \<lparr>g_id = identity, g_name = username,
                g_members = [identity], g_revision = 1\<rparr> (groups tx)\<rparr>;
         tx = tx\<lparr>nodes := tput (n_id rootnode) rootnode (nodes tx)\<rparr>;
         (home, tx) = new_node app ''home'' (Some (n_id rootnode)) identity True 493 tx;
         tx = tx\<lparr>nodes := tput (n_id home) home (nodes tx)\<rparr>;
         (own, tx) = new_node app username (Some (n_id home)) identity True 448 tx;
         tx = tx\<lparr>nodes := tput (n_id own) own (nodes tx)\<rparr>
     in Inr (n_id rootnode, tx)))))"

definition authenticate :: "app \<Rightarrow> db \<Rightarrow> string \<Rightarrow> (user_rec \<times> session_rec) res" where
  "authenticate app tx token =
     need_some (tget (sessions tx) (hex (sha256 app token))) UNAUTHENTICATED (\<lambda>session.
     need (\<not> s_revoked session \<and> s_expires session > now_ms app) UNAUTHENTICATED (
     need (etcd_backend app \<longrightarrow> session_leased app session) UNAUTHENTICATED (
     need_some (tget (users tx) (s_user session)) UNAUTHENTICATED (\<lambda>user.
     need (\<not> u_disabled user) UNAUTHENTICATED (
     Inr (user, session))))))"

definition groups_of :: "db \<Rightarrow> user_rec \<Rightarrow> string list" where
  "groups_of tx user = map g_id (filter (\<lambda>g. u_id user \<in> set (g_members g)) (tall (groups tx)))"

definition acl_applies :: "user_rec \<Rightarrow> string list \<Rightarrow> acl_entry \<Rightarrow> bool" where
  "acl_applies user gs e \<longleftrightarrow>
     ae_principal e = u_id user \<and> \<not> ae_is_group e \<or> ae_is_group e \<and> ae_principal e \<in> set gs"

definition class_shift :: "user_rec \<Rightarrow> string list \<Rightarrow> node_rec \<Rightarrow> nat" where
  "class_shift user gs node =
     (if n_owner node = u_id user then 6 else if n_group node \<in> set gs then 3 else 0)"

definition allowed_bits :: "db \<Rightarrow> user_rec \<Rightarrow> node_rec \<Rightarrow> nat" where
  "allowed_bits tx user node =
     (let gs = groups_of tx user in
      fold (\<lambda>e a. if acl_applies user gs e then a OR ae_permissions e else a) (n_acl node)
        (drop_bit (class_shift user gs node) (n_mode node) AND 7))"

definition require :: "app \<Rightarrow> db \<Rightarrow> user_rec \<Rightarrow> node_rec \<Rightarrow> nat \<Rightarrow> unit res" where
  "require app tx user node bits =
     (if u_admin user \<and> (\<not> strict_content app \<or> n_directory node \<and> bits = 1) then Inr ()
      else need (allowed_bits tx user node AND bits = bits) PERMISSION_DENIED (Inr ()))"

definition capability :: "app \<Rightarrow> string \<Rightarrow> string \<Rightarrow> string \<Rightarrow> string \<Rightarrow> string" where
  "capability app user_id binding block_id action =
     hmac_sha256 app (master_key app)
       (join [CHR 0x00] [sys_epoch app, user_id, binding, block_id, action])"

section \<open>Lemmas\<close>

lemma new_node_simps [simp]:
  "snd (new_node app name parent owner d m tx) = tx\<lparr>uid_count := Suc (uid_count tx)\<rparr>"
  "n_id (fst (new_node app name parent owner d m tx)) = uidgen app (uid_count tx)"
  "n_name (fst (new_node app name parent owner d m tx)) = name"
  "n_parent (fst (new_node app name parent owner d m tx)) = parent"
  "n_alive (fst (new_node app name parent owner d m tx))"
  "n_directory (fst (new_node app name parent owner d m tx)) = d"
  "n_snapshot (fst (new_node app name parent owner d m tx)) = None"
  "n_owner (fst (new_node app name parent owner d m tx)) = owner"
  "n_mode (fst (new_node app name parent owner d m tx)) = m"
  by (simp_all add: new_node_def uid_def)

lemma authenticate_Inr:
  "authenticate app tx token = Inr (user, session) \<longleftrightarrow>
     tget (sessions tx) (hex (sha256 app token)) = Some session \<and> \<not> s_revoked session \<and>
     s_expires session > now_ms app \<and> (etcd_backend app \<longrightarrow> session_leased app session) \<and>
     tget (users tx) (s_user session) = Some user \<and> \<not> u_disabled user"
  by (auto simp: authenticate_def run)

lemma require_Inr:
  "require app tx user node bits = Inr u \<longleftrightarrow>
     u_admin user \<and> (\<not> strict_content app \<or> n_directory node \<and> bits = 1) \<or>
     allowed_bits tx user node AND bits = bits"
  by (auto simp: require_def run)

text \<open>\<open>allowed_bits\<close>, bit by bit: the class bits or an applicable entry grants it.\<close>

lemma bit_fold_or:
  "bit (fold (\<lambda>e a. if P e then a OR f e else a) es (a :: nat)) i \<longleftrightarrow>
     bit a i \<or> (\<exists>e \<in> set es. P e \<and> bit (f e) i)"
  by (induction es arbitrary: a) (auto simp: bit_or_iff)

lemma bit_seven: "bit (7 :: nat) i \<longleftrightarrow> i < 3"
proof -
  have "(7 :: nat) = mask 3" by (simp add: mask_eq_exp_minus_1)
  then show ?thesis by (simp only: bit_mask_iff) simp
qed

lemma bit_allowed_bits:
  "bit (allowed_bits tx user node) i \<longleftrightarrow>
     i < 3 \<and> bit (n_mode node) (class_shift user (groups_of tx user) node + i) \<or>
     (\<exists>e \<in> set (n_acl node). acl_applies user (groups_of tx user) e \<and> bit (ae_permissions e) i)"
  by (auto simp: allowed_bits_def Let_def bit_fold_or bit_and_iff bit_drop_bit_eq bit_seven add.commute)

lemma and_eq_iff_bits: "(a AND b = b) \<longleftrightarrow> (\<forall>i. bit b i \<longrightarrow> bit (a :: nat) i)"
  by (auto simp: bit_eq_iff bit_and_iff)

end
