(* ===== verification/Queries.thy ===== *)
theory Queries
  imports Auth
begin

text \<open>
  Queries over the name space (\<^verbatim>\<open>src/src/dfsha/control/queries.py\<close>) and the read
  operations of a unit of work they use: path walking with a permission check in every
  directory crossed, resolution of relative paths against a working directory named by
  path and identity, \<^verbatim>\<open>Stat\<close>, \<^verbatim>\<open>List\<close> with cursors, \<^verbatim>\<open>GetAcl\<close>, \<^verbatim>\<open>GetOperation\<close> and the
  handle check of the local profile.
\<close>

section \<open>Strings\<close>

fun split_on :: "char \<Rightarrow> string \<Rightarrow> string list" where
  "split_on c [] = [[]]"
| "split_on c (x # xs) =
     (if x = c then [] # split_on c xs
      else (case split_on c xs of [] \<Rightarrow> [[x]] | p # ps \<Rightarrow> (x # p) # ps))"

definition path_pieces :: "string \<Rightarrow> string list" where
  "path_pieces p = filter (\<lambda>x. x \<noteq> []) (split_on CHR ''/'' p)"

definition rstrip :: "char \<Rightarrow> string \<Rightarrow> string" where
  "rstrip c s = rev (dropWhile (\<lambda>x. x = c) (rev s))"

text \<open>\<^verbatim>\<open>rpartition\<close>: before and after the last separator, (empty, whole) without one.\<close>

definition rpartition :: "char \<Rightarrow> string \<Rightarrow> string \<times> string" where
  "rpartition c s =
     (if c \<in> set s
      then (rev (tl (dropWhile (\<lambda>x. x \<noteq> c) (rev s))), rev (takeWhile (\<lambda>x. x \<noteq> c) (rev s)))
      else ([], s))"

definition starts_slash :: "string \<Rightarrow> bool" where
  "starts_slash s \<longleftrightarrow> take 1 s = ''/''"

section \<open>Paths\<close>

definition children :: "db \<Rightarrow> string \<Rightarrow> node_rec list" where
  "children tx parent =
     sort_key n_name (filter (\<lambda>n. n_alive n \<and> n_parent n = Some parent) (tall (nodes tx)))"

fun walk_pieces :: "app \<Rightarrow> db \<Rightarrow> user_rec \<Rightarrow> node_rec \<Rightarrow> string list \<Rightarrow> node_rec res" where
  "walk_pieces app tx user node [] = Inr node"
| "walk_pieces app tx user node (piece # pieces) =
     need (n_directory node) NOT_DIRECTORY (
     bindr (require app tx user node 1) (\<lambda>_.
     if piece = ''.'' then walk_pieces app tx user node pieces
     else if piece = ''..'' then
       (case n_parent node of
          None \<Rightarrow> walk_pieces app tx user node pieces
        | Some p \<Rightarrow> deref (tget (nodes tx) p) (\<lambda>node. walk_pieces app tx user node pieces))
     else need_some (find (\<lambda>n. n_name n = piece) (children tx (n_id node))) NOT_FOUND
       (\<lambda>node. walk_pieces app tx user node pieces)))"

definition walk :: "app \<Rightarrow> db \<Rightarrow> user_rec \<Rightarrow> string \<Rightarrow> node_rec res" where
  "walk app tx user path =
     need (starts_slash path \<and> length path \<le> 4096 \<and> CHR 0x5C \<notin> set path \<and> CHR 0x00 \<notin> set path)
       INVALID_ARGUMENT (
     let pieces = map (nfc app) (path_pieces path) in
     need (length pieces \<le> 32 \<and> list_all (\<lambda>p. length p \<le> 255) pieces) LIMIT_EXCEEDED (
     deref (tget (nodes tx) (sys_root app)) (\<lambda>root. walk_pieces app tx user root pieces)))"

definition abs_path :: "app \<Rightarrow> db \<Rightarrow> user_rec \<Rightarrow> path_ref \<Rightarrow> string res" where
  "abs_path app tx user ref =
     need (pf_path ref \<noteq> [] \<and> length (pf_path ref) \<le> 4096) INVALID_ARGUMENT (
     if starts_slash (pf_path ref) then Inr (pf_path ref)
     else need (starts_slash (pf_cwd_path ref) \<and> pf_cwd_id ref \<noteq> []) INVALID_ARGUMENT (
       case walk app tx user (pf_cwd_path ref) of
         Inl e \<Rightarrow> Inl (if e = Fault NOT_FOUND \<or> e = Fault NOT_DIRECTORY then Fault CWD_GONE else e)
       | Inr cwd \<Rightarrow>
           need (n_id cwd = pf_cwd_id ref \<and> n_directory cwd) CWD_GONE (
           Inr (rstrip CHR ''/'' (pf_cwd_path ref) @ ''/'' @ pf_path ref))))"

definition resolve :: "app \<Rightarrow> db \<Rightarrow> user_rec \<Rightarrow> path_ref \<Rightarrow> node_rec res" where
  "resolve app tx user ref = bindr (abs_path app tx user ref) (walk app tx user)"

definition parent_of :: "app \<Rightarrow> db \<Rightarrow> user_rec \<Rightarrow> path_ref \<Rightarrow> (node_rec \<times> string) res" where
  "parent_of app tx user ref =
     bindr (abs_path app tx user ref) (\<lambda>p0.
     let path = rstrip CHR ''/'' p0 in
     need (path \<noteq> [] \<and> path \<noteq> ''/'') ROOT_PROTECTED (
     let (parent_path, name0) = rpartition CHR ''/'' path; name = nfc app name0 in
     need (name \<notin> {[], ''.'', ''..''} \<and> length name \<le> 255 \<and> CHR 0x5C \<notin> set name \<and>
           CHR 0x00 \<notin> set name) INVALID_ARGUMENT (
     bindr (walk app tx user (if parent_path = [] then ''/'' else parent_path)) (\<lambda>parent.
     need (n_directory parent) NOT_DIRECTORY (
     bindr (require app tx user parent 3) (\<lambda>_.
     need (length (path_pieces (parent_path @ ''/'' @ name)) \<le> 32) LIMIT_EXCEEDED (
     Inr (parent, name))))))))"

section \<open>Queries\<close>

definition entry :: "db \<Rightarrow> node_rec \<Rightarrow> entry_msg res" where
  "entry tx node =
     (let e = \<lparr>en_id = n_id node, en_name = n_name node, en_directory = n_directory node,
               en_revision = n_revision node, en_snapshot = None, en_size = 0\<rparr> in
      case n_snapshot node of
        None \<Rightarrow> Inr e
      | Some s \<Rightarrow> deref (tget (snapshots tx) s) (\<lambda>snap.
          Inr (e\<lparr>en_snapshot := Some (sn_ref snap), en_size := sr_size (sn_ref snap)\<rparr>)))"

definition Stat :: "app \<Rightarrow> db \<Rightarrow> user_rec \<Rightarrow> path_ref \<Rightarrow> entry_msg res" where
  "Stat app tx user path =
     bindr (resolve app tx user path) (\<lambda>node.
     bindr (require app tx user node (if n_directory node then 1 else 4)) (\<lambda>_.
     entry tx node))"

text \<open>
  A cursor as the query sees it after decoding its base64 JSON text: absent, longer than
  512 characters, not decodable, or the four fields.
\<close>

datatype list_cursor = NoCursor | LongCursor | BadCursor
  | Cursor (lc_dir: string) (lc_rev: int) (lc_usr: string) (lc_last: string)

record list_page =
  lp_entries :: "entry_msg list"
  lp_cursor :: list_cursor
  lp_revision :: int

definition list_start :: "db \<Rightarrow> user_rec \<Rightarrow> node_rec \<Rightarrow> list_cursor \<Rightarrow> string res" where
  "list_start tx user node cursor =
     (case cursor of
        NoCursor \<Rightarrow> Inr []
      | LongCursor \<Rightarrow> Inl (Fault LIMIT_EXCEEDED)
      | BadCursor \<Rightarrow> Inl (Fault INVALID_ARGUMENT)
      | Cursor d r u l \<Rightarrow>
          need (d = n_id node \<and> r = n_revision node \<and> u = u_id user) LIST_CHANGED (
          need_some (find (\<lambda>n. n_id n = l) (children tx (n_id node))) INVALID_ARGUMENT (\<lambda>previous.
          Inr (n_name previous))))"

definition List :: "app \<Rightarrow> db \<Rightarrow> user_rec \<Rightarrow> path_ref \<Rightarrow> nat \<Rightarrow> list_cursor \<Rightarrow> list_page res" where
  "List app tx user path limit cursor =
     bindr (resolve app tx user path) (\<lambda>node.
     need (n_directory node) NOT_DIRECTORY (
     bindr (require app tx user node 5) (\<lambda>_.
     need (1 \<le> limit \<and> limit \<le> 100) INVALID_ARGUMENT (
     bindr (list_start tx user node cursor) (\<lambda>start.
     let rest = filter (\<lambda>n. n_name n > start) (children tx (n_id node));
         selected = take limit rest;
         next_cursor = (if length rest \<le> limit then NoCursor
                   else Cursor (n_id node) (n_revision node) (u_id user) (n_id (last selected)))
     in bindr (map_res (entry tx) selected) (\<lambda>entries.
        Inr \<lparr>lp_entries = entries, lp_cursor = next_cursor, lp_revision = n_revision node\<rparr>))))))"

definition GetAcl :: "app \<Rightarrow> db \<Rightarrow> user_rec \<Rightarrow> path_ref \<Rightarrow> acl_msg res" where
  "GetAcl app tx user path =
     bindr (resolve app tx user path) (\<lambda>node.
     bindr (if u_admin user \<or> n_owner node = u_id user then Inr () else require app tx user node 4) (\<lambda>_.
     Inr \<lparr>am_owner = n_owner node, am_group = n_group node,
          am_owner_perms = drop_bit 6 (n_mode node), am_group_perms = drop_bit 3 (n_mode node) AND 7,
          am_other_perms = n_mode node AND 7, am_entries = n_acl node, am_revision = n_revision node\<rparr>))"

record operation_status =
  os_operation :: operation_ref
  os_state :: op_state
  os_expires :: int
  os_result :: "commit_result option"
  os_begin :: "begin_write_req option"

definition GetOperation :: "db \<Rightarrow> user_rec \<Rightarrow> string \<Rightarrow> string \<Rightarrow> operation_status res" where
  "GetOperation tx user operation_id original_request =
     (let op = (if operation_id \<noteq> [] then tget (uploads tx) operation_id
                else find (\<lambda>x. o_user x = u_id user \<and> o_request x = original_request) (tall (uploads tx)))
      in need_some op NOT_FOUND (\<lambda>op.
         need (o_user op = u_id user) NOT_FOUND (
         Inr \<lparr>os_operation = o_operation op, os_state = o_state op, os_expires = o_expires op,
              os_result = o_result op, os_begin = map_option w_begin (o_write op)\<rparr>)))"

text \<open>Permission on every recorded ancestor of an open handle.\<close>

fun require_ancestors :: "app \<Rightarrow> db \<Rightarrow> user_rec \<Rightarrow> string list \<Rightarrow> unit res" where
  "require_ancestors app tx user [] = Inr ()"
| "require_ancestors app tx user (a # as) =
     deref (tget (nodes tx) a) (\<lambda>node.
     bindr (require app tx user node 1) (\<lambda>_. require_ancestors app tx user as))"

definition local_handle :: "app \<Rightarrow> db \<Rightarrow> user_rec \<Rightarrow> session_rec \<Rightarrow> string \<Rightarrow>
    (handle_rec \<times> snapshot_rec option) res" where
  "local_handle app tx user session identity =
     need_some (tget (handles tx) identity) STALE_HANDLE (\<lambda>handle.
     need (h_user handle = u_id user \<and> h_session handle = s_id session \<and> \<not> h_closed handle \<and>
           h_expires handle > now_ms app) STALE_HANDLE (
     deref (tget (nodes tx) (h_file handle)) (\<lambda>node.
     bindr (require app tx user node 4) (\<lambda>_.
     bindr (require_ancestors app tx user (h_ancestors handle)) (\<lambda>_.
     Inr (handle, Option.bind (h_snapshot handle) (tget (snapshots tx))))))))"

section \<open>Lemmas\<close>

lemma in_children_iff:
  "n \<in> set (children tx p) \<longleftrightarrow> (\<exists>k. tget (nodes tx) k = Some n) \<and> n_alive n \<and> n_parent n = Some p"
  by (auto simp: children_def in_tall_iff)

lemma sorted_children: "sorted (map n_name (children tx p))"
  by (simp add: children_def)

lemma find_child:
  "find (\<lambda>n. n_name n = x) (children tx p) = Some n \<Longrightarrow>
     (\<exists>k. tget (nodes tx) k = Some n) \<and> n_alive n \<and> n_parent n = Some p \<and> n_name n = x"
  by (metis (mono_tags, lifting) find_Some_iff in_children_iff nth_mem)

lemma children_nodes_cong: "nodes tx = nodes tx' \<Longrightarrow> children tx = children tx'"
  by (simp add: children_def fun_eq_iff)

end
