(* ===== verification/Leases.thy ===== *)
theory Leases
  imports Queries
begin

text \<open>
  The lease authority of RF3 (\<^verbatim>\<open>src/src/dfsha/control/leases.py\<close>): checked ranges, range and
  whole-file locks with deadlines, fences handed to clients, and the release of what an
  operation holds. Every operation takes the unit of work in which its caller publishes.

  \<open>lock_excl\<close> is mutual exclusion: two live locks of one file that belong to different
  owners never cover a common block, the size, or the whole file.
\<close>

section \<open>Definitions\<close>

definition checked_range :: "int \<Rightarrow> int \<Rightarrow> int option \<Rightarrow> int res" where
  "checked_range offset len maximum =
     need (0 \<le> offset \<and> offset \<le> MAX_OFFSET \<and> 0 \<le> len \<and> len \<le> MAX_OFFSET - offset) INVALID_ARGUMENT (
     need (case maximum of None \<Rightarrow> True | Some m \<Rightarrow> len \<le> m) LIMIT_EXCEEDED (
     Inr (offset + len)))"

text \<open>The constructor: a new control epoch closes every handle and drops every lock.\<close>

definition lease_restart :: "app \<Rightarrow> db \<Rightarrow> string \<times> db" where
  "lease_restart app tx =
     (let (epoch, tx) = uid app tx;
          generation = (case control_epoch tx of None \<Rightarrow> 0 | Some (g, _) \<Rightarrow> g) + 1;
          tx = tx\<lparr>control_epoch := Some (generation, epoch)\<rparr>;
          tx = fold (\<lambda>h tx. tx\<lparr>handles := tput (h_id h) (h\<lparr>h_closed := True\<rparr>) (handles tx)\<rparr>)
                 (tall (handles tx)) tx;
          tx = fold (\<lambda>l tx. tx\<lparr>locks := tdel (lk_id l) (locks tx)\<rparr>) (tall (locks tx)) tx
      in (epoch, tx))"

definition live_at :: "app \<Rightarrow> string \<Rightarrow> rat \<Rightarrow> bool" where
  "live_at app epoch deadline \<longleftrightarrow> epoch = lease_epoch app \<and> deadline > clock_s app"

definition lock_live :: "app \<Rightarrow> lock_rec \<Rightarrow> bool" where
  "lock_live app l \<longleftrightarrow> live_at app (lk_epoch l) (lk_deadline l)"

definition handle_live :: "app \<Rightarrow> handle_rec \<Rightarrow> bool" where
  "handle_live app h \<longleftrightarrow> live_at app (h_epoch h) (h_deadline h) \<and>
     (etcd_backend app \<longrightarrow> h_maximum h > clock_s app \<and> handle_leased app (h_id h))"

definition remaining_ms :: "app \<Rightarrow> rat \<Rightarrow> int" where
  "remaining_ms app deadline = max 0 \<lfloor>(deadline - clock_s app) * 1000\<rfloor>"

definition expiry_hint :: "app \<Rightarrow> handle_rec \<Rightarrow> int" where
  "expiry_hint app h = now_ms app + remaining_ms app (h_deadline h)"

definition refresh_handle :: "app \<Rightarrow> bool \<Rightarrow> handle_rec \<Rightarrow> handle_rec" where
  "refresh_handle app initial h0 =
     (let h = (if initial then h0\<lparr>h_epoch := lease_epoch app, h_maximum := clock_s app + 86400\<rparr> else h0);
          deadline = min (clock_s app + handle_seconds app) (h_maximum h)
      in h\<lparr>h_deadline := deadline, h_expires := now_ms app + remaining_ms app deadline\<rparr>)"

definition blocks_request :: "app \<Rightarrow> string \<Rightarrow> string \<Rightarrow> string \<Rightarrow> int list \<Rightarrow> bool \<Rightarrow> bool \<Rightarrow> lock_rec \<Rightarrow> bool" where
  "blocks_request app file session handle indices whole sized l \<longleftrightarrow>
     lock_live app l \<and> lk_file l = file \<and> (lk_session l, lk_handle l) \<noteq> (session, handle) \<and>
     (whole \<or> lk_whole l \<or> sized \<and> lk_size l \<or> set indices \<inter> set (lk_indices l) \<noteq> {})"

definition acquire :: "app \<Rightarrow> string \<Rightarrow> string \<Rightarrow> string \<Rightarrow> int list \<Rightarrow> bool \<Rightarrow> bool \<Rightarrow> bool \<Rightarrow> db \<Rightarrow>
    (lock_rec \<times> db) res" where
  "acquire app handle file session indices0 whole sized automatic tx =
     (let indices = sort (remdups indices0) in
      need (\<not> list_ex (blocks_request app file session handle indices whole sized) (tall (locks tx))) LOCK_CONFLICT (
      let generation = lock_sequence tx + 1;
          tx = tx\<lparr>lock_sequence := generation\<rparr>;
          (i, tx) = uid app tx;
          lock = \<lparr>lk_id = i, lk_handle = handle, lk_file = file, lk_session = session,
                  lk_generation = generation, lk_epoch = lease_epoch app, lk_indices = indices,
                  lk_whole = whole, lk_size = sized, lk_automatic = automatic, lk_lease = generation,
                  lk_active = [], lk_deadline = clock_s app + lock_seconds app\<rparr>
      in Inr (lock, tx\<lparr>locks := tput i lock (locks tx)\<rparr>)))"

definition lock_message :: "app \<Rightarrow> lock_rec \<Rightarrow> fence" where
  "lock_message app l =
     \<lparr>f_lock = lk_id l, f_handle = lk_handle l, f_epoch = lease_epoch app,
      f_generation = lk_generation l, f_lease = lk_lease l, f_indices = lk_indices l,
      f_whole = lk_whole l, f_size = lk_size l,
      f_expires = now_ms app + remaining_ms app (lk_deadline l)\<rparr>"

definition validate :: "app \<Rightarrow> db \<Rightarrow> string \<Rightarrow> fence \<Rightarrow> lock_rec res" where
  "validate app tx session f =
     need_some (tget (locks tx) (f_lock f)) LOCK_EXPIRED (\<lambda>l.
     need (lk_session l = session \<and> lk_handle l = f_handle f) PERMISSION_DENIED (
     need (lock_live app l \<and> f_epoch f = lease_epoch app \<and> f_generation f = lk_generation l \<and>
           f_lease f = lk_lease l) LOCK_EXPIRED (
     need ((lock_message app l)\<lparr>f_expires := 0\<rparr> = f\<lparr>f_expires := 0\<rparr>) PERMISSION_DENIED (
     Inr l))))"

definition release_lock :: "string \<Rightarrow> string \<Rightarrow> db \<Rightarrow> db" where
  "release_lock op_id identity tx =
     (case tget (locks tx) identity of
        None \<Rightarrow> tx
      | Some l \<Rightarrow>
          if op_id \<in> set (lk_active l) then
            (if lk_automatic l then tx\<lparr>locks := tdel identity (locks tx)\<rparr>
             else tx\<lparr>locks := tput (lk_id l) (l\<lparr>lk_active := remove1 op_id (lk_active l)\<rparr>) (locks tx)\<rparr>)
          else tx)"

definition release_busy :: "string \<Rightarrow> string \<Rightarrow> db \<Rightarrow> db" where
  "release_busy op_id handle tx =
     (case tget (handles tx) handle of
        None \<Rightarrow> tx
      | Some h \<Rightarrow> if h_busy h = Some op_id
                  then tx\<lparr>handles := tput (h_id h) (h\<lparr>h_busy := None\<rparr>) (handles tx)\<rparr> else tx)"

definition release_operation :: "upload_rec \<Rightarrow> db \<Rightarrow> db" where
  "release_operation op tx =
     release_busy (o_id op) (case o_write op of None \<Rightarrow> [] | Some w \<Rightarrow> w_handle w)
       (fold (release_lock (o_id op)) (o_locks op) tx)"

section \<open>Mutual exclusion\<close>

definition lock_clash :: "lock_rec \<Rightarrow> lock_rec \<Rightarrow> bool" where
  "lock_clash a b \<longleftrightarrow> lk_file a = lk_file b \<and> (lk_session a, lk_handle a) \<noteq> (lk_session b, lk_handle b) \<and>
     (lk_whole a \<or> lk_whole b \<or> lk_size a \<and> lk_size b \<or> set (lk_indices a) \<inter> set (lk_indices b) \<noteq> {})"

definition lock_excl :: "app \<Rightarrow> db \<Rightarrow> bool" where
  "lock_excl app tx \<longleftrightarrow>
     (\<forall>j k a b. tget (locks tx) j = Some a \<longrightarrow> tget (locks tx) k = Some b \<longrightarrow>
        lock_live app a \<longrightarrow> lock_live app b \<longrightarrow> \<not> lock_clash a b)"

definition lock_keys :: "db \<Rightarrow> bool" where
  "lock_keys tx \<longleftrightarrow> (\<forall>k l. tget (locks tx) k = Some l \<longrightarrow> lk_id l = k \<and> lk_generation l \<le> lock_sequence tx)"

section \<open>Lemmas\<close>

lemma checked_range_Inr:
  "checked_range offset len m = Inr e \<longleftrightarrow>
     0 \<le> offset \<and> 0 \<le> len \<and> offset + len \<le> MAX_OFFSET \<and> (\<forall>x. m = Some x \<longrightarrow> len \<le> x) \<and> e = offset + len"
  by (auto simp: checked_range_def run split: option.splits)

lemma lock_clash_sym: "lock_clash a b \<Longrightarrow> lock_clash b a"
  by (auto simp: lock_clash_def)

lemma lock_clash_irrefl [simp]: "\<not> lock_clash a a"
  by (simp add: lock_clash_def)

lemma lock_excl_subset:
  assumes "lock_excl app tx"
    and "\<And>k b. tget (locks tx') k = Some b \<Longrightarrow> lock_live app' b \<Longrightarrow>
           \<exists>j a. tget (locks tx) j = Some a \<and> lock_live app a \<and> lk_file a = lk_file b \<and>
             lk_session a = lk_session b \<and> lk_handle a = lk_handle b \<and> lk_whole a = lk_whole b \<and>
             lk_size a = lk_size b \<and> lk_indices a = lk_indices b"
  shows "lock_excl app' tx'"
  unfolding lock_excl_def
proof (intro allI impI)
  fix j k a b
  assume a: "tget (locks tx') j = Some a" "lock_live app' a"
    and b: "tget (locks tx') k = Some b" "lock_live app' b"
  obtain j' a' where a': "tget (locks tx) j' = Some a'" "lock_live app a'" "lk_file a' = lk_file a"
      "lk_session a' = lk_session a" "lk_handle a' = lk_handle a" "lk_whole a' = lk_whole a"
      "lk_size a' = lk_size a" "lk_indices a' = lk_indices a"
    using assms(2) [OF a] by blast
  obtain k' b' where b': "tget (locks tx) k' = Some b'" "lock_live app b'" "lk_file b' = lk_file b"
      "lk_session b' = lk_session b" "lk_handle b' = lk_handle b" "lk_whole b' = lk_whole b"
      "lk_size b' = lk_size b" "lk_indices b' = lk_indices b"
    using assms(2) [OF b] by blast
  have "\<not> lock_clash a' b'" using assms(1) a'(1,2) b'(1,2) unfolding lock_excl_def by blast
  then show "\<not> lock_clash a b"
    unfolding lock_clash_def a'(3-) b'(3-) .
qed

lemma lock_live_mono:
  "lock_live app' l \<Longrightarrow> lease_epoch app' = lease_epoch app \<Longrightarrow> clock_s app \<le> clock_s app' \<Longrightarrow> lock_live app l"
  by (auto simp: lock_live_def live_at_def)

text \<open>Time only ends leases: mutual exclusion survives a later clock reading.\<close>

lemma lock_excl_later:
  "lock_excl app tx \<Longrightarrow> lease_epoch app' = lease_epoch app \<Longrightarrow> clock_s app \<le> clock_s app' \<Longrightarrow>
     lock_excl app' tx"
  unfolding lock_excl_def by (meson lock_live_mono)

lemma acquire_Inr:
  assumes "acquire app handle file session is whole sized automatic tx = Inr (l, tx')"
  shows "lk_id l = uidgen app (uid_count tx)" "lk_file l = file" "lk_handle l = handle"
    "lk_session l = session" "set (lk_indices l) = set is" "sorted (lk_indices l)"
    "distinct (lk_indices l)" "lk_whole l = whole" "lk_size l = sized"
    "lk_automatic l = automatic" "lk_generation l = lock_sequence tx + 1"
    "lk_lease l = lk_generation l" "lk_active l = []"
    "lk_epoch l = lease_epoch app" "lk_deadline l = clock_s app + lock_seconds app"
    "tx' = tx\<lparr>lock_sequence := lock_sequence tx + 1, uid_count := Suc (uid_count tx),
              locks := tput (lk_id l) l (locks tx)\<rparr>"
  using assms
  by (auto simp: acquire_def run Let_def uid_def)

lemma acquire_no_clash:
  assumes "acquire app handle file session is whole sized automatic tx = Inr (l, tx')"
    and "tget (locks tx) k = Some b" and "lock_live app b"
  shows "\<not> lock_clash l b"
proof -
  have "\<not> blocks_request app file session handle (sort (remdups is)) whole sized b"
    using assms(1,2) by (auto simp: acquire_def run Let_def list_ex_iff in_tall_iff)
  with assms(3) acquire_Inr(2-5,8,9) [OF assms(1)] show ?thesis
    by (auto simp: blocks_request_def lock_clash_def)
qed

lemma acquire_excl:
  assumes "acquire app handle file session is whole sized automatic tx = Inr (l, tx')"
    and "lock_excl app tx"
  shows "lock_excl app tx'"
  unfolding lock_excl_def
proof (intro allI impI)
  fix j k a b
  assume *: "tget (locks tx') j = Some a" "tget (locks tx') k = Some b" "lock_live app a" "lock_live app b"
  have locks': "locks tx' = tput (lk_id l) l (locks tx)"
    by (subst acquire_Inr(16) [OF assms(1)]) simp
  note no = acquire_no_clash [OF assms(1)]
  show "\<not> lock_clash a b"
  proof (cases "j = lk_id l"; cases "k = lk_id l")
    assume "j = lk_id l" "k = lk_id l"
    with * show ?thesis by (auto simp: locks')
  next
    assume "j = lk_id l" "k \<noteq> lk_id l"
    with * no [of k b] show ?thesis by (simp add: locks')
  next
    assume "j \<noteq> lk_id l" "k = lk_id l"
    with * no [of j a] show ?thesis by (auto simp: locks' dest: lock_clash_sym)
  next
    assume "j \<noteq> lk_id l" "k \<noteq> lk_id l"
    with * have "tget (locks tx) j = Some a" "tget (locks tx) k = Some b" by (simp_all add: locks')
    with * assms(2) show ?thesis unfolding lock_excl_def by blast
  qed
qed

lemma validate_Inr:
  "validate app tx session f = Inr l \<longleftrightarrow>
     tget (locks tx) (f_lock f) = Some l \<and> lk_session l = session \<and> lk_handle l = f_handle f \<and>
     lock_live app l \<and> f_epoch f = lease_epoch app \<and> f_generation f = lk_generation l \<and>
     f_lease f = lk_lease l \<and> (lock_message app l)\<lparr>f_expires := 0\<rparr> = f\<lparr>f_expires := 0\<rparr>"
  by (auto simp: validate_def run)

lemma validate_fields:
  assumes "validate app tx session f = Inr l"
  shows "f_indices f = lk_indices l" "f_whole f = lk_whole l" "f_size f = lk_size l"
    "f_lock f = lk_id l" "f_handle f = lk_handle l"
proof -
  from assms have eq: "(lock_message app l)\<lparr>f_expires := 0\<rparr> = f\<lparr>f_expires := 0\<rparr>"
    by (simp add: validate_Inr)
  show "f_indices f = lk_indices l" "f_whole f = lk_whole l" "f_size f = lk_size l"
    "f_lock f = lk_id l" "f_handle f = lk_handle l"
    using arg_cong [OF eq, of f_indices] arg_cong [OF eq, of f_whole] arg_cong [OF eq, of f_size]
      arg_cong [OF eq, of f_lock] arg_cong [OF eq, of f_handle]
    by (simp_all add: lock_message_def)
qed

lemma validate_message: "tget (locks tx) (lk_id l) = Some l \<Longrightarrow> lock_live app l \<Longrightarrow>
    validate app tx (lk_session l) (lock_message app l) = Inr l"
  by (simp add: validate_Inr lock_message_def)

lemma release_lock_frame [frame]:
  "handles (release_lock i k tx) = handles tx" "uploads (release_lock i k tx) = uploads tx"
  "nodes (release_lock i k tx) = nodes tx" "snapshots (release_lock i k tx) = snapshots tx"
  "blocks (release_lock i k tx) = blocks tx" "lock_sequence (release_lock i k tx) = lock_sequence tx"
  "users (release_lock i k tx) = users tx" "groups (release_lock i k tx) = groups tx"
  "uid_count (release_lock i k tx) = uid_count tx" "tasks (release_lock i k tx) = tasks tx"
  by (auto simp: release_lock_def split: option.splits)

lemma fold_release_lock_frame [frame]:
  "handles (fold (release_lock i) ks tx) = handles tx" "uploads (fold (release_lock i) ks tx) = uploads tx"
  "nodes (fold (release_lock i) ks tx) = nodes tx" "snapshots (fold (release_lock i) ks tx) = snapshots tx"
  "blocks (fold (release_lock i) ks tx) = blocks tx" "lock_sequence (fold (release_lock i) ks tx) = lock_sequence tx"
  "users (fold (release_lock i) ks tx) = users tx" "groups (fold (release_lock i) ks tx) = groups tx"
  "uid_count (fold (release_lock i) ks tx) = uid_count tx" "tasks (fold (release_lock i) ks tx) = tasks tx"
  by (induction ks arbitrary: tx) (simp_all add: frame)

lemma release_busy_frame [frame]:
  "locks (release_busy i k tx) = locks tx" "uploads (release_busy i k tx) = uploads tx"
  "nodes (release_busy i k tx) = nodes tx" "snapshots (release_busy i k tx) = snapshots tx"
  "blocks (release_busy i k tx) = blocks tx" "lock_sequence (release_busy i k tx) = lock_sequence tx"
  "users (release_busy i k tx) = users tx" "groups (release_busy i k tx) = groups tx"
  "uid_count (release_busy i k tx) = uid_count tx" "tasks (release_busy i k tx) = tasks tx"
  by (auto simp: release_busy_def split: option.splits)

lemma release_operation_frame [frame]:
  "uploads (release_operation op tx) = uploads tx" "nodes (release_operation op tx) = nodes tx"
  "snapshots (release_operation op tx) = snapshots tx" "blocks (release_operation op tx) = blocks tx"
  "lock_sequence (release_operation op tx) = lock_sequence tx"
  "users (release_operation op tx) = users tx" "groups (release_operation op tx) = groups tx"
  "uid_count (release_operation op tx) = uid_count tx" "tasks (release_operation op tx) = tasks tx"
  by (simp_all add: release_operation_def frame)

lemma release_lock_lookup:
  assumes "lock_keys tx" and "tget (locks (release_lock i k tx)) j = Some b"
  shows "\<exists>a. tget (locks tx) j = Some a \<and> b = a\<lparr>lk_active := lk_active b\<rparr>"
  using assms
  by (auto simp: release_lock_def lock_keys_def split: option.splits if_splits)

lemma release_lock_keys: "lock_keys tx \<Longrightarrow> lock_keys (release_lock i k tx)"
  by (auto simp: lock_keys_def release_lock_def split: option.splits if_splits)

lemma release_locks_lookup:
  assumes "lock_keys tx" and "tget (locks (fold (release_lock i) ks tx)) j = Some b"
  shows "\<exists>a. tget (locks tx) j = Some a \<and> b = a\<lparr>lk_active := lk_active b\<rparr>"
  using assms
proof (induction ks arbitrary: tx)
  case Nil
  then show ?case by auto
next
  case (Cons k ks)
  from Cons.prems Cons.IH [of "release_lock i k tx"] obtain a where
    a: "tget (locks (release_lock i k tx)) j = Some a" "b = a\<lparr>lk_active := lk_active b\<rparr>"
    by (auto simp: release_lock_keys)
  from release_lock_lookup [OF Cons.prems(1) a(1)] obtain c where
    "tget (locks tx) j = Some c" "a = c\<lparr>lk_active := lk_active a\<rparr>" by auto
  with a(2) show ?case by (metis lock_rec.ext_inject lock_rec.surjective lock_rec.update_convs(12))
qed

lemma release_operation_excl:
  assumes "lock_keys tx" and "lock_excl app tx"
  shows "lock_excl app (release_operation op tx)"
proof (rule lock_excl_subset [OF assms(2)])
  fix k b
  assume b: "tget (locks (release_operation op tx)) k = Some b" "lock_live app b"
  from b(1) have "tget (locks (fold (release_lock (o_id op)) (o_locks op) tx)) k = Some b"
    by (simp add: release_operation_def frame)
  from release_locks_lookup [OF assms(1) this] obtain a where
    a: "tget (locks tx) k = Some a" "b = a\<lparr>lk_active := lk_active b\<rparr>" by auto
  have "lk_file b = lk_file a \<and> lk_session b = lk_session a \<and> lk_handle b = lk_handle a \<and>
      lk_whole b = lk_whole a \<and> lk_size b = lk_size a \<and> lk_indices b = lk_indices a \<and>
      lk_epoch b = lk_epoch a \<and> lk_deadline b = lk_deadline a"
    by (subst (1 2 3 4 5 6 7 8) a(2)) simp
  with a(1) b(2) show "\<exists>j a. tget (locks tx) j = Some a \<and> lock_live app a \<and> lk_file a = lk_file b \<and>
      lk_session a = lk_session b \<and> lk_handle a = lk_handle b \<and> lk_whole a = lk_whole b \<and>
      lk_size a = lk_size b \<and> lk_indices a = lk_indices b"
    by (auto simp: lock_live_def)
qed

end
