(* ===== verification/Placement.thy ===== *)
theory Placement
  imports Leases "HOL-Library.Product_Lexorder"
begin

text \<open>
  Where blocks go and which copies count (\<^verbatim>\<open>monolith.py\<close>, \<^verbatim>\<open>distributed.py\<close> and
  \<^verbatim>\<open>replication.py\<close> under \<^verbatim>\<open>src/src/dfsha/control\<close>): the observed state and usage of a DataNode, the
  placement of a new block, the reads and writes a client is granted, the replication
  policy of a file, and the durable copies a publication must have.

  A method that a subclass overrides is one definition for each class and a dispatcher
  on \<^verbatim>\<open>profile app\<close> that stands for the dynamic call. Quotients of sizes that the code takes
  as floats are exact here; \<^verbatim>\<open>int(20*(used+reserved)/capacity)\<close> agrees with the integer
  quotient for capacities below \<open>2\<^sup>4\<^sup>8\<close> bytes.
\<close>

section \<open>Liveness of operations, state and usage of nodes\<close>

definition operation_live :: "app \<Rightarrow> db \<Rightarrow> upload_rec option \<Rightarrow> bool" where
  "operation_live app tx op \<longleftrightarrow>
     (case op of
        None \<Rightarrow> False
      | Some op \<Rightarrow>
          o_state op = PREPARING \<and>
          (case (has_leases app, o_write op) of
             (True, Some w) \<Rightarrow>
               (case tget (handles tx) (w_handle w) of
                  None \<Rightarrow> False
                | Some h \<Rightarrow> \<not> h_closed h \<and> handle_live app h) \<and>
               list_all (\<lambda>i. case tget (locks tx) i of None \<Rightarrow> False | Some l \<Rightarrow> lock_live app l) (o_locks op)
           | _ \<Rightarrow> o_expires op > now_ms app))"

definition node_state :: "app \<Rightarrow> datanode_rec option \<Rightarrow> node_state" where
  "node_state app node =
     (case node of
        None \<Rightarrow> UNAVAILABLE
      | Some d \<Rightarrow>
          if dn_disabled d \<or> now_ms app - dn_seen d > unavailable_ms app then UNAVAILABLE
          else if \<not> dn_reconciled d then STARTING
          else if now_ms app - dn_seen d > suspect_ms app then SUSPECT else READY)"

definition serving :: "app \<Rightarrow> datanode_rec option \<Rightarrow> bool" where
  "serving app node \<longleftrightarrow> node_state app node \<in> {READY, SUSPECT}"

definition location_key :: "string \<Rightarrow> string \<Rightarrow> string" where
  "location_key block node = block @ '':'' @ node"

definition location_of :: "db \<Rightarrow> string \<Rightarrow> string \<Rightarrow> location_rec option" where
  "location_of tx block node = tget (locations tx) (location_key block node)"

definition task_active :: "task_rec \<Rightarrow> bool" where
  "task_active t \<longleftrightarrow> ts_state (t_status t) \<in> {ACCEPTED, RUNNING}"

definition cluster_usage :: "app \<Rightarrow> db \<Rightarrow> datanode_rec \<Rightarrow> int \<times> int" where
  "cluster_usage app tx node =
     (let copies = sum_list (map (\<lambda>x. dr_stored (lc_receipt x))
                     (filter (\<lambda>x. lc_node x = dn_id node) (tall (locations tx))));
          used = max (dn_used node) copies;
          assigned = sum_list (map as_reserved
                     (filter (\<lambda>a. as_node a = dn_id node \<and> location_of tx (as_id a) (as_node a) = None \<and>
                                  operation_live app tx (tget (uploads tx) (as_operation a)))
                       (tall (assignments tx))));
          copying = sum_list (map t_reserved
                     (filter (\<lambda>t. t_dest t = dn_id node \<and> t_expires t > now_ms app \<and> task_active t)
                       (tall (tasks tx))))
      in (used, assigned + copying))"

definition replicated_usage :: "app \<Rightarrow> db \<Rightarrow> datanode_rec \<Rightarrow> int \<times> int" where
  "replicated_usage app tx node =
     (let (used, reserved) = cluster_usage app tx node;
          planned = sum_list (map rp_reserved
            (filter (\<lambda>p. dn_id node \<in> set (rp_destinations p) \<and>
                         operation_live app tx (tget (uploads tx) (rp_operation p)) \<and>
                         location_of tx (rp_id p) (dn_id node) = None \<and>
                         \<not> list_ex (\<lambda>t. t_dest t = dn_id node \<and> br_version (t_block t) = rp_id p \<and>
                              task_active t \<and> t_expires t > now_ms app) (tall (tasks tx)))
              (tall (replica_plans tx))))
      in (used, reserved + planned))"

definition usage :: "app \<Rightarrow> db \<Rightarrow> datanode_rec \<Rightarrow> int \<times> int" where
  "usage app tx node =
     (if profile app = REPLICATED then replicated_usage app tx node else cluster_usage app tx node)"

section \<open>Replication policy and eligible copies\<close>

definition policy :: "app \<Rightarrow> string \<Rightarrow> bool \<Rightarrow> db \<Rightarrow> (policy_rec \<times> db) res" where
  "policy app file_id create tx =
     (case tget (policies tx) file_id of
        Some p \<Rightarrow> Inr (p, tx)
      | None \<Rightarrow>
          let replicas = (if create then default_replicas app else 1) in
          need (replicas \<in> {1, 3}) INVALID_ARGUMENT (
          let p = \<lparr>p_id = file_id, p_r = replicas, p_w = (if replicas = 3 then 2 else 1),
                   p_revision = 1, p_state = ACTIVE, p_until = 0\<rparr>
          in Inr (p, if create then tx\<lparr>policies := tput file_id p (policies tx)\<rparr> else tx)))"

definition eligible :: "app \<Rightarrow> db \<Rightarrow> string \<Rightarrow> location_rec list" where
  "eligible app tx block =
     filter (\<lambda>l. lc_block l = block \<and> lc_health l = VERIFIED \<and>
               (case tget (datanodes tx) (lc_node l) of
                  None \<Rightarrow> False
                | Some d \<Rightarrow> serving app (Some d) \<and> lc_inventory l = dn_inventory d))
       (tall (locations tx))"

definition domain_of :: "app \<Rightarrow> string \<Rightarrow> string res" where
  "domain_of app node =
     (case map_of (allowed app) node of None \<Rightarrow> Inl KeyError | Some a \<Rightarrow> Inr (al_domain a))"

record copy_protection =
  cp_node :: block_location
  cp_receipt :: durable_receipt
  cp_health :: copy_health
  cp_eligible :: bool

record block_protection =
  bp_block :: block_ref
  bp_target :: int
  bp_confirmed :: int
  bp_eligible :: int
  bp_copies :: "copy_protection list"
  bp_pending :: int

definition history :: "db \<Rightarrow> string \<Rightarrow> (string \<times> durable_receipt) list" where
  "history tx block = (case tget (durability tx) block of None \<Rightarrow> [] | Some r \<Rightarrow> r)"

definition protection :: "app \<Rightarrow> db \<Rightarrow> block_ref \<Rightarrow> policy_rec \<Rightarrow> block_protection res" where
  "protection app tx ref p =
     (let identity = br_version ref;
          located = filter (\<lambda>x. lc_block x = identity) (tall (locations tx));
          elig = remdups (map lc_node (eligible app tx identity));
          domains = remdups (List.map_filter (\<lambda>(k, _). map_option al_domain (map_of (allowed app) k)) (history tx identity))
      in bindr (map_res (\<lambda>x. deref (tget (datanodes tx) (lc_node x)) (\<lambda>d.
             Inr \<lparr>cp_node = dn_location d, cp_receipt = lc_receipt x, cp_health = lc_health x,
                  cp_eligible = lc_node x \<in> set elig\<rparr>)) located) (\<lambda>copies.
         Inr \<lparr>bp_block = (case tget (blocks tx) identity of None \<Rightarrow> ref | Some r \<Rightarrow> b_ref r),
              bp_target = p_r p, bp_confirmed = int (length domains), bp_eligible = int (length elig),
              bp_copies = copies,
              bp_pending = int (length (filter (\<lambda>t. br_version (t_block t) = identity \<and>
                 task_active t \<and> t_expires t > now_ms app) (tall (tasks tx))))\<rparr>))"

definition validate_policy :: "app \<Rightarrow> upload_rec option \<Rightarrow> db \<Rightarrow> unit res" where
  "validate_policy app op tx =
     need_some op NOT_FOUND (\<lambda>op.
     bindr (policy app (o_file op) False tx) (\<lambda>(p, _).
     need (p_revision (case o_policy op of None \<Rightarrow> p | Some q \<Rightarrow> q) = p_revision p \<and> p_state p \<noteq> PROMOTING)
       VERSION_CONFLICT (Inr ())))"

definition require_durable :: "app \<Rightarrow> upload_rec \<Rightarrow> block_ref \<Rightarrow> db \<Rightarrow> unit res" where
  "require_durable app op block tx =
     bindr (validate_policy app (Some op) tx) (\<lambda>_.
     bindr (policy app (o_file op) False tx) (\<lambda>(p, _).
     bindr (protection app tx block p) (\<lambda>status.
     bindr (map_res (\<lambda>x. domain_of app (lc_node x)) (eligible app tx (br_version block))) (\<lambda>active.
     need (bp_confirmed status \<ge> p_w p \<and> int (length (remdups active)) \<ge> p_w p) INSUFFICIENT_REPLICAS (
     Inr ())))))"

definition policy_result :: "app \<Rightarrow> upload_rec \<Rightarrow> commit_result \<Rightarrow> db \<Rightarrow> (commit_result \<times> db) res" where
  "policy_result app op result tx =
     bindr (policy app (o_file op) False tx) (\<lambda>(p, _).
     deref (tget (snapshots tx) (sr_root (cr_snapshot result))) (\<lambda>snap.
     need (list_all (\<lambda>b. eligible app tx (br_version b) \<noteq> []) (sn_blocks snap)) DATA_UNAVAILABLE (
     let result = result\<lparr>cr_target := p_r p, cr_minimum := p_w p,
           cr_degraded := list_ex (\<lambda>b. int (length (eligible app tx (br_version b))) < p_r p) (sn_blocks snap)\<rparr>
     in Inr (result, tx\<lparr>uploads := tput (o_id op) (op\<lparr>o_result := Some result\<rparr>) (uploads tx)\<rparr>))))"

section \<open>Plans\<close>

text \<open>What a plan needs of the operation or handle it is bound to.\<close>

record binding =
  bd_id :: string
  bd_session :: string
  bd_expires :: int
  bd_reserved :: int
  bd_file :: string
  bd_based :: bool

definition op_binding :: "upload_rec \<Rightarrow> binding" where
  "op_binding op = \<lparr>bd_id = o_id op, bd_session = o_session op, bd_expires = o_expires op,
     bd_reserved = o_reserved op, bd_file = o_file op, bd_based = (o_base op \<noteq> None)\<rparr>"

definition handle_binding :: "handle_rec \<Rightarrow> binding" where
  "handle_binding h = \<lparr>bd_id = h_id h, bd_session = h_session h, bd_expires = h_expires h,
     bd_reserved = 0, bd_file = h_file h, bd_based = False\<rparr>"

definition bare_plan :: "block_ref \<Rightarrow> planned_block" where
  "bare_plan block = \<lparr>pb_block = block, pb_locations = [], pb_grants = [], pb_replacement = '''',
     pb_patch = False, pb_delta_offset = 0, pb_block_offset = 0, pb_delta_length = 0,
     pb_reservation = None\<rparr>"

definition local_plan :: "app \<Rightarrow> block_ref \<Rightarrow> user_rec \<Rightarrow> binding \<Rightarrow> bool \<Rightarrow> planned_block" where
  "local_plan app block user bd rd =
     (bare_plan block)\<lparr>
       pb_locations := [\<lparr>bl_node = sys_node app, bl_generation = 1, bl_client = '''', bl_private = '''',
                         bl_domain = ''local-host''\<rparr>],
       pb_grants := [\<lparr>bg_capability = capability app (u_id user) (bd_id bd) (br_version block)
                        (if rd then ''read'' else ''write''),
                      bg_action = (if rd then READ_DATA else WRITE_DATA), bg_block = block,
                      bg_node = sys_node app, bg_offset = 0, bg_length = br_size block,
                      bg_expires = bd_expires bd\<rparr>],
       pb_reservation := (if rd then None else Some \<lparr>rs_id = bd_id bd, rs_node = sys_node app,
                      rs_operation = bd_id bd, rs_bytes = bd_reserved bd, rs_expires = bd_expires bd\<rparr>)\<rparr>"

definition cluster_capability :: "app \<Rightarrow> user_rec \<Rightarrow> binding \<Rightarrow> block_ref \<Rightarrow> datanode_rec \<Rightarrow> string \<Rightarrow> string" where
  "cluster_capability app user bd block node action =
     capability app (u_id user) (bd_id bd) (br_version block)
       (join '':'' [action, dn_id node, dec_int (bl_generation (dn_location node)), bd_session bd])"

definition fits :: "app \<Rightarrow> db \<Rightarrow> int \<Rightarrow> datanode_rec \<Rightarrow> bool" where
  "fits app tx cost node \<longleftrightarrow>
     (let (used, reserved) = usage app tx node in
      node_state app (Some node) = READY \<and> used + reserved + cost \<le> dn_capacity node \<and>
      reserved + cost + 1048576 \<le> dn_free node)"

definition load_band :: "app \<Rightarrow> db \<Rightarrow> datanode_rec \<Rightarrow> int \<times> int" where
  "load_band app tx node =
     (let (used, reserved) = usage app tx node in
      (20 * (used + reserved) div dn_capacity node, dn_active node))"

text \<open>The least loaded band, and in it the first identifier after the last one used.\<close>

definition choose_node :: "app \<Rightarrow> db \<Rightarrow> int \<Rightarrow> datanode_rec res" where
  "choose_node app tx cost =
     (let candidates = filter (fits app tx cost) (tall (datanodes tx)) in
      need (candidates \<noteq> []) NO_SPACE (
      let best = Min (set (map (load_band app tx) candidates));
          pool = sort_key dn_id (filter (\<lambda>d. load_band app tx d = best) candidates)
      in Inr (case find (\<lambda>d. dn_id d > placement_last tx) pool of Some d \<Rightarrow> d | None \<Rightarrow> hd pool)))"

definition assign_block :: "app \<Rightarrow> block_ref \<Rightarrow> binding \<Rightarrow> db \<Rightarrow> (assignment_rec \<times> db) res" where
  "assign_block app block bd tx =
     (case tget (assignments tx) (br_version block) of
        Some a \<Rightarrow> Inr (a, tx)
      | None \<Rightarrow>
          let cost = storage_cost (br_size block) in
          bindr (choose_node app tx cost) (\<lambda>chosen.
          let a = \<lparr>as_id = br_version block, as_node = dn_id chosen, as_operation = bd_id bd,
                   as_generation = bl_generation (dn_location chosen), as_reserved = cost\<rparr>
          in Inr (a, tx\<lparr>placement_last := dn_id chosen,
                        assignments := tput (as_id a) a (assignments tx)\<rparr>)))"

definition cluster_planned :: "app \<Rightarrow> block_ref \<Rightarrow> user_rec \<Rightarrow> binding \<Rightarrow> bool \<Rightarrow> datanode_rec list \<Rightarrow>
    reservation option \<Rightarrow> planned_block" where
  "cluster_planned app block user bd rd ns res =
     (bare_plan block)\<lparr>pb_locations := map dn_location ns,
        pb_grants := map (\<lambda>d. \<lparr>bg_capability = cluster_capability app user bd block d (if rd then ''read'' else ''write''),
             bg_action = (if rd then READ_DATA else WRITE_DATA), bg_block = block, bg_node = dn_id d,
             bg_offset = 0, bg_length = br_size block, bg_expires = bd_expires bd\<rparr>) ns,
        pb_reservation := res\<rparr>"

definition cluster_plan :: "app \<Rightarrow> block_ref \<Rightarrow> user_rec \<Rightarrow> binding \<Rightarrow> bool \<Rightarrow> db \<Rightarrow> (planned_block \<times> db) res" where
  "cluster_plan app block user bd rd tx =
     (if rd then
        let ns = filter (\<lambda>d. serving app (Some d)) (List.map_filter (\<lambda>x. tget (datanodes tx) (lc_node x))
                   (filter (\<lambda>x. lc_block x = br_version block) (tall (locations tx))))
        in need (ns \<noteq> []) DATA_UNAVAILABLE (Inr (cluster_planned app block user bd True ns None, tx))
      else
        bindr (assign_block app block bd tx) (\<lambda>(a, tx).
        let node = tget (datanodes tx) (as_node a) in
        need (serving app node \<and> (case node of None \<Rightarrow> False
                | Some d \<Rightarrow> bl_generation (dn_location d) = as_generation a)) DATA_UNAVAILABLE (
        deref node (\<lambda>d.
        Inr (cluster_planned app block user bd False [d]
               (Some \<lparr>rs_id = br_version block, rs_node = dn_id d, rs_operation = bd_id bd,
                      rs_bytes = as_reserved a, rs_expires = bd_expires bd\<rparr>), tx)))))"

text \<open>Destinations of the further copies, one per failure domain not yet used.\<close>

fun pick_domains :: "app \<Rightarrow> int \<Rightarrow> datanode_rec list \<Rightarrow> string list \<times> string list \<Rightarrow> (string list \<times> string list) res" where
  "pick_domains app r [] acc = Inr acc"
| "pick_domains app r (d # ds) (domains, dests) =
     bindr (domain_of app (dn_id d)) (\<lambda>dom.
     pick_domains app r ds
       (if dom \<notin> set domains \<and> int (length domains) < r then (domains @ [dom], dests @ [dn_id d])
        else (domains, dests)))"

definition reserve_replicas :: "app \<Rightarrow> block_ref \<Rightarrow> binding \<Rightarrow> policy_rec \<Rightarrow> db \<Rightarrow> db res" where
  "reserve_replicas app block bd p tx =
     (case tget (replica_plans tx) (br_version block) of
        Some _ \<Rightarrow> Inr tx
      | None \<Rightarrow>
          deref (tget (assignments tx) (br_version block)) (\<lambda>primary.
          bindr (domain_of app (as_node primary)) (\<lambda>own.
          let cost = storage_cost (br_size block);
              ratio = (\<lambda>d. let (used, reserved) = usage app tx d in
                        (of_int (used + reserved) / of_int (dn_capacity d) :: rat));
              ordered = sort_key (\<lambda>d. (ratio d, dn_active d, dn_id d))
                          (filter (fits app tx cost) (tall (datanodes tx)))
          in bindr (pick_domains app (p_r p) ordered ([own], [])) (\<lambda>(domains, dests).
             need (int (length domains) \<ge> p_w p) INSUFFICIENT_REPLICAS (
             Inr (tx\<lparr>replica_plans := tput (br_version block) \<lparr>rp_id = br_version block,
                    rp_operation = bd_id bd, rp_destinations = dests, rp_reserved = cost\<rparr> (replica_plans tx)\<rparr>))))))"

definition replicated_plan :: "app \<Rightarrow> block_ref \<Rightarrow> user_rec \<Rightarrow> binding \<Rightarrow> bool \<Rightarrow> db \<Rightarrow> (planned_block \<times> db) res" where
  "replicated_plan app block user bd rd tx =
     bindr (cluster_plan app block user bd rd tx) (\<lambda>(result, tx).
     if rd then
       let elig = map lc_node (eligible app tx (br_version block));
           pairs = filter (\<lambda>(l, g). bl_node l \<in> set elig) (zip (pb_locations result) (pb_grants result));
           known = filter (\<lambda>x. lc_block x = br_version block) (tall (locations tx));
           lost = known \<noteq> [] \<and> length known = length (history tx (br_version block)) \<and>
                  list_all (\<lambda>x. lc_health x \<in> {CORRUPT, MISSING}) known
       in need (pairs \<noteq> []) (if lost then DATA_LOSS else DATA_UNAVAILABLE) (
          let k = nat (br_index block mod int (length pairs));
              turned = drop k pairs @ take k pairs
          in Inr (result\<lparr>pb_locations := map fst turned, pb_grants := map snd turned\<rparr>, tx))
     else
       bindr (policy app (bd_file bd) (\<not> bd_based bd) tx) (\<lambda>(p, tx).
       bindr (reserve_replicas app block bd p tx) (\<lambda>tx. Inr (result, tx))))"

definition plan :: "app \<Rightarrow> block_ref \<Rightarrow> user_rec \<Rightarrow> binding \<Rightarrow> bool \<Rightarrow> db \<Rightarrow> (planned_block \<times> db) res" where
  "plan app block user bd rd tx =
     (case profile app of
        LOCAL \<Rightarrow> Inr (local_plan app block user bd rd, tx)
      | REPLICATED \<Rightarrow> replicated_plan app block user bd rd tx
      | _ \<Rightarrow> cluster_plan app block user bd rd tx)"

section \<open>Capacity of an upload\<close>

definition ceil_div :: "int \<Rightarrow> int \<Rightarrow> int" where
  "ceil_div a b = (a + b - 1) div b"

definition reserve_upload :: "app \<Rightarrow> int \<Rightarrow> int \<Rightarrow> db \<Rightarrow> int res" where
  "reserve_upload app total_bytes block_size tx =
     (if profile app = LOCAL then
        let reserved = total_bytes + ceil_div total_bytes block_size * 4096 + ceil_div total_bytes CHUNK * 20;
            pending = sum_list (map o_reserved (filter (\<lambda>x. o_state x = PREPARING) (tall (uploads tx))));
            used = sum_list (map b_stored (tall (blocks tx)))
        in need (reserved + pending + used \<le> capacity_bytes app \<and>
                 reserved + pending + 1048576 \<le> disk_free app) NO_SPACE (Inr reserved)
      else Inr 0)"

section \<open>Maintenance tasks\<close>

text \<open>The replicated control node stamps a task with its epoch and generation.\<close>

definition new_task :: "app \<Rightarrow> task_kind \<Rightarrow> block_ref \<Rightarrow> string \<Rightarrow> string \<Rightarrow> db \<Rightarrow> task_rec \<times> db" where
  "new_task app kind block source dest tx =
     (let (i, tx) = uid app tx; stamped = (profile app = REPLICATED) in
      (\<lparr>t_id = i, t_kind = kind, t_block = block, t_src = source, t_dest = dest,
        t_expires = now_ms app + 300000,
        t_status = \<lparr>ts_task = i, ts_state = ACCEPTED, ts_receipt = None, ts_error = None\<rparr>,
        t_reserved = 0, t_source = None, t_destination = None, t_receipt = None, t_write_operation = None,
        t_owner = (if stamped then lease_epoch app else ''''),
        t_generation = (if stamped then maintenance_generation app else 0), t_attempts = 0,
        t_next_run = (if stamped then now_ms app else 0), t_dispatched = False, t_cleanup_checked = False,
        t_expected_receipt = '''', t_replace_receipt = ''''\<rparr>, tx))"

definition kind_text :: "task_kind \<Rightarrow> string" where
  "kind_text k = (case k of COPY \<Rightarrow> ''copy'' | DELETE \<Rightarrow> ''delete'')"

definition task_capability :: "app \<Rightarrow> task_rec \<Rightarrow> string" where
  "task_capability app t =
     capability app (t_src t) (t_id t) (br_version (t_block t))
       (if profile app = REPLICATED
        then join '':'' [t_dest t, kind_text (t_kind t), t_owner t, dec_int (t_generation t)]
        else t_dest t @ '':'' @ kind_text (t_kind t))"

end
