(* ===== verification/Namespace.thy ===== *)
theory Namespace
  imports Placement
begin

text \<open>
  Changes of the name space (\<^verbatim>\<open>Mkdir\<close>, \<^verbatim>\<open>Rmdir\<close> and \<^verbatim>\<open>Remove\<close> of
  \<^verbatim>\<open>src/src/dfsha/control/commands.py\<close> and \<^verbatim>\<open>access.py\<close>) and the invariant that keeps it a tree.

  \<open>fs_ok\<close>: every node is stored under its identifier and lies at most 32 levels
  below the root; the root is the only node without a parent, and it has no content; the parent of a node is a
  directory, and a live one if the node is alive; live siblings have different names. The
  pending uploads belong to it: each names a directory to publish in, and the
  identifier reserved for a new file is not in use.
\<close>

section \<open>Definitions\<close>

abbreviation put_node :: "node_rec \<Rightarrow> db \<Rightarrow> db" where
  "put_node n tx \<equiv> tx\<lparr>nodes := tput (n_id n) n (nodes tx)\<rparr>"

abbreviation put_upload :: "upload_rec \<Rightarrow> db \<Rightarrow> db" where
  "put_upload op tx \<equiv> tx\<lparr>uploads := tput (o_id op) op (uploads tx)\<rparr>"

abbreviation put_handle :: "handle_rec \<Rightarrow> db \<Rightarrow> db" where
  "put_handle h tx \<equiv> tx\<lparr>handles := tput (h_id h) h (handles tx)\<rparr>"

abbreviation put_lock :: "lock_rec \<Rightarrow> db \<Rightarrow> db" where
  "put_lock l tx \<equiv> tx\<lparr>locks := tput (lk_id l) l (locks tx)\<rparr>"

abbreviation put_task :: "task_rec \<Rightarrow> db \<Rightarrow> db" where
  "put_task t tx \<equiv> tx\<lparr>tasks := tput (t_id t) t (tasks tx)\<rparr>"

abbreviation put_snapshot :: "snapshot_rec \<Rightarrow> db \<Rightarrow> db" where
  "put_snapshot s tx \<equiv> tx\<lparr>snapshots := tput (sn_id s) s (snapshots tx)\<rparr>"

definition bump :: "node_rec \<Rightarrow> db \<Rightarrow> node_rec \<times> db" where
  "bump node tx =
     (let node = node\<lparr>n_revision := n_revision node + 1\<rparr> in (node, put_node node tx))"

definition result :: "req_ctx \<Rightarrow> int \<Rightarrow> mutation_result" where
  "result cx revision = \<lparr>mr_request = cx_request_id cx, mr_revision = revision\<rparr>"

definition pending_in :: "app \<Rightarrow> string \<Rightarrow> upload_rec \<Rightarrow> bool" where
  "pending_in app parent op \<longleftrightarrow> o_parent op = parent \<and> o_state op = PREPARING \<and> o_expires op > now_ms app"

definition reserved :: "app \<Rightarrow> db \<Rightarrow> string \<Rightarrow> string \<Rightarrow> bool" where
  "reserved app tx parent name = list_ex (\<lambda>op. pending_in app parent op \<and> o_name op = name) (tall (uploads tx))"

definition Mkdir :: "app \<Rightarrow> user_rec \<Rightarrow> path_ref \<Rightarrow> db \<Rightarrow> (entry_msg \<times> db) res" where
  "Mkdir app user path tx =
     bindr (parent_of app tx user path) (\<lambda>(parent, name).
     need (\<not> list_ex (\<lambda>n. n_name n = name) (children tx (n_id parent))) ALREADY_EXISTS (
     need (\<not> reserved app tx (n_id parent) name) LOCK_BUSY (
     let (node, tx) = new_node app name (Some (n_id parent)) (u_id user) True 448 tx;
         tx = put_node node tx;
         (_, tx) = bump parent tx
     in bindr (entry tx node) (\<lambda>e. Inr (e, tx)))))"

definition abort_op :: "upload_rec \<Rightarrow> upload_rec" where
  "abort_op op = op\<lparr>o_state := ABORTED, o_reserved := 0\<rparr>"

definition abort_uploads :: "string \<Rightarrow> db \<Rightarrow> db" where
  "abort_uploads file tx =
     fold (\<lambda>op tx. if o_file op = file \<and> o_state op = PREPARING then put_upload (abort_op op) tx else tx)
       (tall (uploads tx)) tx"

definition base_remove :: "app \<Rightarrow> user_rec \<Rightarrow> req_ctx \<Rightarrow> path_ref \<Rightarrow> bool \<Rightarrow> db \<Rightarrow> (mutation_result \<times> db) res" where
  "base_remove app user cx path directory tx =
     bindr (resolve app tx user path) (\<lambda>node.
     need_some (n_parent node) ROOT_PROTECTED (\<lambda>parent_id.
     need (n_directory node = directory) (if directory then NOT_DIRECTORY else IS_DIRECTORY) (
     deref (tget (nodes tx) parent_id) (\<lambda>parent.
     bindr (require app tx user parent 3) (\<lambda>_.
     need (\<not> directory \<or> children tx (n_id node) = [] \<and> \<not> list_ex (pending_in app (n_id node)) (tall (uploads tx)))
       DIRECTORY_NOT_EMPTY (
     let tx = abort_uploads (n_id node) tx;
         (node, tx) = bump (node\<lparr>n_alive := False\<rparr>) tx;
         (_, tx) = bump parent tx
     in Inr (result cx (n_revision node), tx)))))))"

definition access_remove :: "app \<Rightarrow> user_rec \<Rightarrow> req_ctx \<Rightarrow> path_ref \<Rightarrow> bool \<Rightarrow> db \<Rightarrow> (mutation_result \<times> db) res" where
  "access_remove app user cx path directory tx =
     bindr (base_remove app user cx path directory tx) (\<lambda>(r, tx).
     Inr (r, fold (\<lambda>op tx. if o_state op \<noteq> PREPARING then release_operation op tx else tx) (tall (uploads tx)) tx))"

definition remove :: "app \<Rightarrow> user_rec \<Rightarrow> req_ctx \<Rightarrow> path_ref \<Rightarrow> bool \<Rightarrow> db \<Rightarrow> (mutation_result \<times> db) res" where
  "remove app = (if has_leases app then access_remove app else base_remove app)"

definition Rmdir :: "app \<Rightarrow> user_rec \<Rightarrow> req_ctx \<Rightarrow> path_ref \<Rightarrow> db \<Rightarrow> (mutation_result \<times> db) res" where
  "Rmdir app user cx path tx = remove app user cx path True tx"

definition Remove :: "app \<Rightarrow> user_rec \<Rightarrow> req_ctx \<Rightarrow> path_ref \<Rightarrow> db \<Rightarrow> (mutation_result \<times> db) res" where
  "Remove app user cx path tx = remove app user cx path False tx"

section \<open>The invariant\<close>

primrec depth_le :: "db \<Rightarrow> nat \<Rightarrow> string \<Rightarrow> bool" where
  "depth_le tx 0 k = (case tget (nodes tx) k of None \<Rightarrow> False | Some n \<Rightarrow> n_parent n = None)"
| "depth_le tx (Suc d) k =
     (case tget (nodes tx) k of
        None \<Rightarrow> False
      | Some n \<Rightarrow> (case n_parent n of None \<Rightarrow> True | Some p \<Rightarrow> depth_le tx d p))"

definition name_fine :: "string \<Rightarrow> bool" where
  "name_fine s \<longleftrightarrow> s \<notin> {[], ''.'', ''..''} \<and> length s \<le> 255 \<and>
     CHR ''/'' \<notin> set s \<and> CHR 0x5C \<notin> set s \<and> CHR 0x00 \<notin> set s"

text \<open>
  An account directory below a file that is stored as \<^verbatim>\<open>/home\<close>: \<^verbatim>\<open>CreateUser\<close> takes what it finds there for a directory. It stays when
  the file is removed, since only directories are checked to be empty.
\<close>

definition homed :: "app \<Rightarrow> node_rec \<Rightarrow> node_rec \<Rightarrow> bool" where
  "homed app n m \<longleftrightarrow> n_directory n \<and> \<not> n_directory m \<and> n_parent m = Some (sys_root app) \<and> n_name m = nfc app ''home''"

definition placed :: "app \<Rightarrow> db \<Rightarrow> node_rec \<Rightarrow> bool" where
  "placed app tx n \<longleftrightarrow>
     (case n_parent n of
        None \<Rightarrow> n_id n = sys_root app \<and> n_alive n \<and> n_directory n \<and> n_snapshot n = None
      | Some p \<Rightarrow> name_fine (n_name n) \<and>
          (case tget (nodes tx) p of
             None \<Rightarrow> False
           | Some m \<Rightarrow> n_directory m \<and> (n_alive n \<longrightarrow> n_alive m) \<or> homed app n m))"

definition issued :: "app \<Rightarrow> db \<Rightarrow> string \<Rightarrow> bool" where
  "issued app tx k \<longleftrightarrow> k \<in> set (map (uidgen app) [0..<uid_count tx])"

definition tree_ok :: "app \<Rightarrow> db \<Rightarrow> bool" where
  "tree_ok app tx \<longleftrightarrow>
     (case tget (nodes tx) (sys_root app) of None \<Rightarrow> False | Some r \<Rightarrow> n_parent r = None) \<and>
     (\<forall>k n. tget (nodes tx) k = Some n \<longrightarrow>
        n_id n = k \<and> issued app tx k \<and> depth_le tx 32 k \<and> placed app tx n) \<and>
     (\<forall>j k m n. tget (nodes tx) j = Some m \<longrightarrow> tget (nodes tx) k = Some n \<longrightarrow>
        n_alive m \<longrightarrow> n_alive n \<longrightarrow> n_parent m = n_parent n \<longrightarrow> n_name m = n_name n \<longrightarrow> m = n)"

definition upload_ok :: "app \<Rightarrow> db \<Rightarrow> upload_rec \<Rightarrow> bool" where
  "upload_ok app tx op \<longleftrightarrow>
     issued app tx (o_file op) \<and> issued app tx (o_id op) \<and> name_fine (o_name op) \<and>
     depth_le tx 31 (o_parent op) \<and>
     (case tget (nodes tx) (o_parent op) of None \<Rightarrow> False | Some m \<Rightarrow> o_base op = None \<longrightarrow> n_directory m) \<and>
     (if o_base op = None then o_state op = PREPARING \<longrightarrow> tget (nodes tx) (o_file op) = None
      else (case tget (nodes tx) (o_file op) of None \<Rightarrow> False
            | Some m \<Rightarrow> n_parent m = Some (o_parent op)))"

definition pending_ok :: "app \<Rightarrow> db \<Rightarrow> bool" where
  "pending_ok app tx \<longleftrightarrow>
     (\<forall>k op. tget (uploads tx) k = Some op \<longrightarrow> o_id op = k \<and> upload_ok app tx op) \<and>
     (\<forall>j k a b. tget (uploads tx) j = Some a \<longrightarrow> tget (uploads tx) k = Some b \<longrightarrow>
        o_base a = None \<longrightarrow> o_base b = None \<longrightarrow> o_file a = o_file b \<longrightarrow> j = k)"

definition fs_ok :: "app \<Rightarrow> db \<Rightarrow> bool" where
  "fs_ok app tx \<longleftrightarrow> tree_ok app tx \<and> pending_ok app tx"

text \<open>What the name space relies on: \<^verbatim>\<open>uuid4\<close> never repeats, and Unicode composition does not
  produce a path separator.\<close>

definition ids_distinct :: "app \<Rightarrow> bool" where
  "ids_distinct app \<longleftrightarrow> inj (uidgen app)"

definition nfc_keeps_slash :: "app \<Rightarrow> bool" where
  "nfc_keeps_slash app \<longleftrightarrow> (\<forall>s. CHR ''/'' \<notin> set s \<longrightarrow> CHR ''/'' \<notin> set (nfc app s))"

section \<open>Depth and paths\<close>

lemma depth_le_mono: "depth_le tx d k \<Longrightarrow> d \<le> e \<Longrightarrow> depth_le tx e k"
proof (induction d arbitrary: e k)
  case 0
  then show ?case by (cases e) (auto split: option.splits)
next
  case (Suc d)
  then show ?case by (cases e) (auto split: option.splits)
qed

definition extends :: "db \<Rightarrow> db \<Rightarrow> bool" where
  "extends tx tx' \<longleftrightarrow>
     (\<forall>k n. tget (nodes tx) k = Some n \<longrightarrow>
        (\<exists>n'. tget (nodes tx') k = Some n' \<and> n_parent n' = n_parent n \<and> n_directory n' = n_directory n))"

lemma extends_refl [intro]: "nodes tx' = nodes tx \<Longrightarrow> extends tx tx'"
  by (simp add: extends_def)

lemma extends_trans: "extends a b \<Longrightarrow> extends b c \<Longrightarrow> extends a c"
  unfolding extends_def by metis

lemma depth_le_extends: "depth_le tx d k \<Longrightarrow> extends tx tx' \<Longrightarrow> depth_le tx' d k"
proof (induction d arbitrary: k)
  case 0
  then show ?case unfolding extends_def by (fastforce split: option.splits)
next
  case (Suc d)
  from Suc.prems obtain n where n: "tget (nodes tx) k = Some n" by (auto split: option.splits)
  with Suc.prems(2) obtain n' where "tget (nodes tx') k = Some n'" "n_parent n' = n_parent n"
    unfolding extends_def by blast
  with n Suc show ?case by (auto split: option.splits)
qed

lemma depth_le_child:
  "tget (nodes tx) k = Some n \<Longrightarrow> n_parent n = Some p \<Longrightarrow> depth_le tx (Suc d) k \<longleftrightarrow> depth_le tx d p"
  by simp

lemma depth_le_parent:
  "tget (nodes tx) k = Some n \<Longrightarrow> n_parent n = Some p \<Longrightarrow> depth_le tx d k \<Longrightarrow> depth_le tx d p"
  using depth_le_mono [of tx "d - 1" p d] by (cases d) auto

lemma no_own_parent: "tget (nodes tx) k = Some n \<Longrightarrow> n_parent n = Some p \<Longrightarrow> depth_le tx d k \<Longrightarrow> p \<noteq> k"
proof (induction d)
  case (Suc d)
  then show ?case by (cases "p = k") auto
qed auto

declare depth_le.simps(2) [simp del]

lemma split_on_not_Nil [simp]: "split_on c s \<noteq> []"
  by (induction s) (auto split: list.splits)

lemma split_on_append: "split_on c (a @ c # b) = split_on c a @ split_on c b"
  by (induction a) (auto split: list.splits)

lemma split_on_none: "c \<notin> set s \<Longrightarrow> split_on c s = [s]"
  by (induction s) auto

lemma path_pieces_append: "path_pieces (a @ CHR ''/'' # b) = path_pieces a @ path_pieces b"
  by (simp add: path_pieces_def split_on_append)

lemma path_pieces_name: "CHR ''/'' \<notin> set s \<Longrightarrow> s \<noteq> [] \<Longrightarrow> path_pieces s = [s]"
  by (simp add: path_pieces_def split_on_none)

lemma path_pieces_slash [simp]: "path_pieces ''/'' = []" "path_pieces [] = []"
  by (simp_all add: path_pieces_def)

lemma rpartition_name: "c \<notin> set (snd (rpartition c s))"
  by (auto simp: rpartition_def dest: set_takeWhileD)

section \<open>Walks\<close>

definition stored :: "db \<Rightarrow> node_rec \<Rightarrow> bool" where
  "stored tx n \<longleftrightarrow> tget (nodes tx) (n_id n) = Some n \<and> n_alive n"

lemma tree_okD:
  assumes "tree_ok app tx" and "tget (nodes tx) k = Some n"
  shows "n_id n = k" "issued app tx k" "depth_le tx 32 k" "placed app tx n"
  using assms unfolding tree_ok_def by blast+

lemma tree_ok_root:
  assumes "tree_ok app tx"
  shows "\<exists>r. tget (nodes tx) (sys_root app) = Some r \<and> n_parent r = None"
  using assms unfolding tree_ok_def by (auto split: option.splits)

lemma tree_ok_parent:
  assumes "tree_ok app tx" and "tget (nodes tx) k = Some n" and "n_parent n = Some p"
  shows "\<exists>m. tget (nodes tx) p = Some m \<and> n_id m = p \<and> (n_directory m \<and> (n_alive n \<longrightarrow> n_alive m) \<or> homed app n m)"
proof -
  from tree_okD(4) [OF assms(1,2)] assms(3) obtain m where
    "tget (nodes tx) p = Some m" "n_directory m \<and> (n_alive n \<longrightarrow> n_alive m) \<or> homed app n m"
    by (auto simp: placed_def split: option.splits)
  with tree_okD(1) [OF assms(1)] show ?thesis by blast
qed

text \<open>A node that a walk reaches is live with all its ancestors.\<close>

primrec lives :: "db \<Rightarrow> nat \<Rightarrow> string \<Rightarrow> bool" where
  "lives tx 0 k = (case tget (nodes tx) k of None \<Rightarrow> False | Some n \<Rightarrow> n_alive n \<and> n_parent n = None)"
| "lives tx (Suc d) k =
     (case tget (nodes tx) k of
        None \<Rightarrow> False
      | Some n \<Rightarrow> n_alive n \<and> (case n_parent n of None \<Rightarrow> True | Some p \<Rightarrow> lives tx d p))"

lemma lives_mono: "lives tx d k \<Longrightarrow> d \<le> e \<Longrightarrow> lives tx e k"
proof (induction d arbitrary: e k)
  case 0
  then show ?case by (cases e) (auto split: option.splits)
next
  case (Suc d)
  then show ?case by (cases e) (auto split: option.splits)
qed

lemma lives_depth: "lives tx d k \<Longrightarrow> depth_le tx d k"
  by (induction d arbitrary: k) (auto simp: depth_le.simps split: option.splits)

lemma lives_parent:
  assumes "lives tx d k" and "tget (nodes tx) k = Some n" and "n_parent n = Some p"
  shows "lives tx d p" "\<exists>m. tget (nodes tx) p = Some m \<and> n_alive m"
proof -
  obtain e where e: "d = Suc e" "lives tx e p" using assms by (cases d) auto
  then show "lives tx d p" using lives_mono [of tx e p d] by simp
  from e(2) show "\<exists>m. tget (nodes tx) p = Some m \<and> n_alive m" by (cases e) (auto split: option.splits)
qed

lemma lives_child:
  "tget (nodes tx) k = Some n \<Longrightarrow> n_alive n \<Longrightarrow> n_parent n = Some p \<Longrightarrow> lives tx d p \<Longrightarrow> lives tx (Suc d) k"
  by simp

lemma walk_pieces_ok:
  assumes "tree_ok app tx" and "walk_pieces app tx user node pieces = Inr r"
    and "stored tx node" and "lives tx d (n_id node)"
  shows "stored tx r \<and> lives tx (d + length pieces) (n_id r)"
  using assms(2-)
proof (induction pieces arbitrary: node d)
  case Nil
  then show ?case by simp
next
  case (Cons piece pieces)
  note step = Cons.prems(1) [simplified, unfolded run]
  have deeper: "lives tx (Suc d) (n_id node)" using Cons.prems(3) by (rule lives_mono) simp
  consider "piece = ''.''" | "piece = ''..''" "n_parent node = None"
    | p where "piece = ''..''" "n_parent node = Some p" | "piece \<noteq> ''.''" "piece \<noteq> ''..''" by blast
  then show ?case
  proof cases
    case 1
    with step Cons.prems Cons.IH [of node "Suc d"] deeper show ?thesis
      by (auto simp: run)
  next
    case 2
    with step Cons.prems Cons.IH [of node "Suc d"] deeper show ?thesis
      by (auto simp: run)
  next
    case 3
    have "tget (nodes tx) (n_id node) = Some node" using Cons.prems(2) by (simp add: stored_def)
    note up = lives_parent [OF deeper this 3(2)]
    then obtain m where m: "tget (nodes tx) p = Some m" "n_alive m" "n_id m = p" using tree_okD(1) [OF assms(1)] by blast
    with 3 up(1) step Cons.IH [of m "Suc d"] show ?thesis
      by (auto simp: run stored_def)
  next
    case 4
    with step obtain c where c: "find (\<lambda>n. n_name n = piece) (children tx (n_id node)) = Some c"
      and rest: "walk_pieces app tx user c pieces = Inr r" by (auto simp: run)
    from find_child [OF c] obtain k where k: "tget (nodes tx) k = Some c" "n_alive c"
      "n_parent c = Some (n_id node)" by blast
    with tree_okD(1) [OF assms(1)] have id: "n_id c = k" by blast
    have "lives tx (Suc d) k" using lives_child [OF k Cons.prems(3)] .
    with Cons.IH [OF rest, of "Suc d"] k id show ?thesis by (auto simp: stored_def)
  qed
qed

lemma root_stored:
  assumes "tree_ok app tx" and "tget (nodes tx) (sys_root app) = Some r"
  shows "stored tx r" "lives tx 0 (n_id r)" "n_directory r"
proof -
  have "n_parent r = None" using assms unfolding tree_ok_def by auto
  then show "stored tx r" "lives tx 0 (n_id r)" "n_directory r"
    using tree_okD [OF assms] assms(2) by (auto simp: stored_def placed_def)
qed

lemma walk_ok:
  assumes "tree_ok app tx" and "walk app tx user path = Inr r"
  shows "stored tx r" "depth_le tx (length (path_pieces path)) (n_id r)"
proof -
  from assms(2) obtain root where root: "tget (nodes tx) (sys_root app) = Some root"
    and w: "walk_pieces app tx user root (map (nfc app) (path_pieces path)) = Inr r"
    by (auto simp: walk_def run Let_def)
  from walk_pieces_ok [OF assms(1) w root_stored(1,2) [OF assms(1) root]]
  show "stored tx r" "depth_le tx (length (path_pieces path)) (n_id r)" by (simp_all add: lives_depth)
qed

lemma resolve_ok: "tree_ok app tx \<Longrightarrow> resolve app tx user ref = Inr r \<Longrightarrow> stored tx r"
  by (auto simp: resolve_def run intro: walk_ok)

lemma parent_of_ok:
  assumes "tree_ok app tx" and "nfc_keeps_slash app" and "parent_of app tx user ref = Inr (parent, name)"
  shows "stored tx parent" "n_directory parent" "depth_le tx 31 (n_id parent)" "name_fine name"
proof -
  from assms(3) obtain path where
    name: "name = nfc app (snd (rpartition CHR ''/'' path))" and
    bad: "name \<notin> {[], ''.'', ''..''}" "length name \<le> 255" "CHR 0x5C \<notin> set name" "CHR 0x00 \<notin> set name" and
    w: "walk app tx user (if fst (rpartition CHR ''/'' path) = [] then ''/''
          else fst (rpartition CHR ''/'' path)) = Inr parent" and dir: "n_directory parent" and
    len: "length (path_pieces (fst (rpartition CHR ''/'' path) @ ''/'' @ name)) \<le> 32"
    by (auto simp: parent_of_def run Let_def case_prod_beta)
  have slash: "CHR ''/'' \<notin> set name"
    using assms(2) rpartition_name unfolding nfc_keeps_slash_def name by blast
  with bad show "name_fine name" by (simp add: name_fine_def)
  show "stored tx parent" "n_directory parent" using walk_ok(1) [OF assms(1) w] dir by auto
  have "length (path_pieces (if fst (rpartition CHR ''/'' path) = [] then ''/''
          else fst (rpartition CHR ''/'' path))) \<le> 31"
    using len bad slash by (simp add: path_pieces_append path_pieces_name)
  with walk_ok(2) [OF assms(1) w] show "depth_le tx 31 (n_id parent)" by (rule depth_le_mono)
qed

section \<open>Preservation\<close>

lemma issued_mono: "issued app tx k \<Longrightarrow> uid_count tx \<le> uid_count tx' \<Longrightarrow> issued app tx' k"
  by (auto simp: issued_def)

lemma issued_fresh:
  "ids_distinct app \<Longrightarrow> issued app tx k \<Longrightarrow> uid_count tx \<le> i \<Longrightarrow> uidgen app i \<noteq> k"
  by (auto simp: issued_def ids_distinct_def dest: injD)

lemma issued_next: "i < uid_count tx \<Longrightarrow> issued app tx (uidgen app i)"
  by (simp add: issued_def)

lemma tree_ok_nodes:
  "tree_ok app tx \<Longrightarrow> nodes tx' = nodes tx \<Longrightarrow> uid_count tx \<le> uid_count tx' \<Longrightarrow> tree_ok app tx'"
proof -
  assume *: "tree_ok app tx" "nodes tx' = nodes tx" "uid_count tx \<le> uid_count tx'"
  have "depth_le tx' 32 k" if "depth_le tx 32 k" for k
    using depth_le_extends [OF that] *(2) by auto
  moreover have "placed app tx' = placed app tx" by (auto simp: fun_eq_iff placed_def *(2) split: option.splits)
  ultimately show ?thesis using * unfolding tree_ok_def by (auto intro: issued_mono)
qed

lemma homed_cong:
  "n_directory n' = n_directory n \<Longrightarrow> homed app n' m = homed app n m"
  "n_directory m' = n_directory m \<Longrightarrow> n_parent m' = n_parent m \<Longrightarrow> n_name m' = n_name m \<Longrightarrow> homed app n m' = homed app n m"
  by (simp_all add: homed_def)

text \<open>A stored node may change anything but its place; a file may die, a directory once it has no live child.\<close>

lemma tree_ok_update:
  assumes ok: "tree_ok app tx" and n: "tget (nodes tx) (n_id n) = Some n"
    and same: "n_id n' = n_id n" "n_name n' = n_name n" "n_parent n' = n_parent n"
      "n_directory n' = n_directory n"
    and alive: "n_alive n' = n_alive n \<or> \<not> n_alive n' \<and> n_parent n \<noteq> None \<and> (n_directory n \<longrightarrow> children tx (n_id n) = [])"
    and nodes': "nodes tx' = tput (n_id n') n' (nodes tx)" and ids: "uid_count tx \<le> uid_count tx'"
    and top: "n_parent n = None \<Longrightarrow> n_snapshot n' = n_snapshot n"
  shows "tree_ok app tx'" "extends tx tx'"
proof -
  show ext: "extends tx tx'" using n same by (auto simp: extends_def nodes')
  have get: "tget (nodes tx') k = Some m \<longleftrightarrow> (if k = n_id n then m = n' else tget (nodes tx) k = Some m)" for k m
    by (auto simp: nodes' same)
  have dead: "n_directory n' \<and> (n_alive m \<longrightarrow> n_alive n') \<or> homed app m n'" if "tget (nodes tx) j = Some m" "n_parent m = Some (n_id n)" for j m
  proof (cases "n_directory n")
    case False
    then show ?thesis using tree_ok_parent [OF ok that] n same by (auto simp: homed_def)
  next
    case True
    have "n_alive m \<longrightarrow> n_alive n'"
    proof (rule ccontr)
      assume "\<not> (n_alive m \<longrightarrow> n_alive n')"
      moreover have "n_alive m \<longrightarrow> n_alive n"
        using tree_ok_parent [OF ok that] n True by (auto simp: homed_def)
      ultimately have "children tx (n_id n) = []" "n_alive m" using alive True by auto
      moreover have "m \<in> set (children tx (n_id n))"
        using that \<open>n_alive m\<close> by (auto simp: in_children_iff)
      ultimately show False by simp
    qed
    with True same(4) show ?thesis by simp
  qed
  have placed': "placed app tx' m" if "tget (nodes tx') k = Some m" for k m
  proof (cases "k = n_id n")
    case True
    with that have [simp]: "m = n'" by (simp add: get)
    have "placed app tx n" by (rule tree_okD(4) [OF ok n])
    then show ?thesis using same alive dead [OF n] n top
      by (auto simp: placed_def nodes' homed_cong(1) [OF same(4)] split: option.splits if_splits)
  next
    case False
    with that have m: "tget (nodes tx) k = Some m" by (simp add: get)
    have "placed app tx m" by (rule tree_okD(4) [OF ok m])
    with dead [OF m] n same show ?thesis by (auto simp: placed_def nodes' split: option.splits if_splits)
  qed
  have row: "n_id m = k \<and> issued app tx' k \<and> depth_le tx' 32 k \<and> placed app tx' m"
    if "tget (nodes tx') k = Some m" for k m
  proof -
    from that obtain m0 where m0: "tget (nodes tx) k = Some m0" using n by (auto simp: get split: if_splits)
    have "n_id m = k"
      using that tree_okD(1) [OF ok, of k m] same(1) by (cases "k = n_id n") (simp_all add: get)
    with placed' [OF that] issued_mono [OF tree_okD(2) [OF ok m0] ids]
      depth_le_extends [OF tree_okD(3) [OF ok m0] ext] show ?thesis by simp
  qed
  have root: "case tget (nodes tx') (sys_root app) of None \<Rightarrow> False | Some r \<Rightarrow> n_parent r = None"
    using tree_ok_root [OF ok] n same by (auto simp: nodes' split: option.splits)
  have origin: "\<exists>a. tget (nodes tx) i = Some a \<and> n_alive a \<and> n_parent a = n_parent m \<and> n_name a = n_name m \<and>
      m = (if i = n_id n then n' else a)" if "tget (nodes tx') i = Some m" "n_alive m" for i m
  proof (cases "i = n_id n")
    case True
    with that have "m = n'" by (simp add: get)
    with True that(2) n same alive show ?thesis by auto
  qed (use that in \<open>auto simp: get\<close>)
  have uniq: "m = k" if m: "tget (nodes tx') i = Some m" "n_alive m" and k: "tget (nodes tx') j = Some k" "n_alive k"
    and eq: "n_parent m = n_parent k" "n_name m = n_name k" for i j m k
  proof -
    obtain a where a: "tget (nodes tx) i = Some a" "n_alive a" "n_parent a = n_parent m" "n_name a = n_name m"
      "m = (if i = n_id n then n' else a)" using origin [OF m] by blast
    obtain b where b: "tget (nodes tx) j = Some b" "n_alive b" "n_parent b = n_parent k" "n_name b = n_name k"
      "k = (if j = n_id n then n' else b)" using origin [OF k] by blast
    have "n_parent a = n_parent b" "n_name a = n_name b" using a b eq by auto
    with a(1,2) b(1,2) ok have "a = b" unfolding tree_ok_def by blast
    moreover have "i = j" using \<open>a = b\<close> tree_okD(1) [OF ok] a(1) b(1) by metis
    ultimately show ?thesis using a(5) b(5) by simp
  qed
  show "tree_ok app tx'" unfolding tree_ok_def using root row uniq by blast
qed

lemma tree_ok_insert:
  assumes ok: "tree_ok app tx" and fresh: "tget (nodes tx) (n_id n) = None"
    and p: "n_parent n = Some p" "tget (nodes tx) p = Some m" "n_directory m \<or> homed app n m" "n_alive m" "depth_le tx 31 p"
    and name: "name_fine (n_name n)" "\<not> list_ex (\<lambda>c. n_name c = n_name n) (children tx p)"
    and nodes': "nodes tx' = tput (n_id n) n (nodes tx)"
    and ids: "uid_count tx \<le> uid_count tx'" "issued app tx' (n_id n)"
  shows "tree_ok app tx'" "extends tx tx'"
proof -
  show ext: "extends tx tx'" using fresh by (auto simp: extends_def nodes')
  have get: "tget (nodes tx') k = Some c \<longleftrightarrow> (if k = n_id n then c = n else tget (nodes tx) k = Some c)" for k c
    by (auto simp: nodes')
  have np: "p \<noteq> n_id n" using p(2) fresh by auto
  have row: "n_id c = k \<and> issued app tx' k \<and> depth_le tx' 32 k \<and> placed app tx' c"
    if c: "tget (nodes tx') k = Some c" for k c
  proof (cases "k = n_id n")
    case True
    with c have [simp]: "c = n" by (simp add: get)
    have "depth_le tx' (Suc 31) k"
      unfolding depth_le.simps(2) using depth_le_extends [OF p(5) ext] c p(1) by simp
    then have "depth_le tx' 32 k" by simp
    then show ?thesis using True p name np ids by (simp add: placed_def nodes')
  next
    case False
    with c have c: "tget (nodes tx) k = Some c" by (simp add: get)
    have "n_parent c \<noteq> Some (n_id n)" using tree_ok_parent [OF ok c] fresh by auto
    then have "placed app tx' c" using tree_okD(4) [OF ok c] by (auto simp: placed_def nodes' split: option.splits)
    with tree_okD(1) [OF ok c] issued_mono [OF tree_okD(2) [OF ok c] ids(1)]
      depth_le_extends [OF tree_okD(3) [OF ok c] ext] show ?thesis by simp
  qed
  have other: "n_name c \<noteq> n_name n" if "tget (nodes tx) k = Some c" "n_alive c" "n_parent c = Some p" for k c
    using name(2) that by (auto simp: list_ex_iff in_children_iff)
  have uniq: "a = b" if a: "tget (nodes tx') i = Some a" and b: "tget (nodes tx') j = Some b"
    and eq: "n_alive a" "n_alive b" "n_parent a = n_parent b" "n_name a = n_name b" for i j a b
  proof (cases "i = n_id n"; cases "j = n_id n")
    assume "i \<noteq> n_id n" "j \<noteq> n_id n"
    with a b eq show ?thesis using ok unfolding tree_ok_def by (simp add: get)
  qed (use a b eq p other [of i a] other [of j b] in \<open>auto simp: get\<close>)
  have root: "case tget (nodes tx') (sys_root app) of None \<Rightarrow> False | Some r \<Rightarrow> n_parent r = None"
    using tree_ok_root [OF ok] fresh by (auto simp: nodes' split: option.splits)
  show "tree_ok app tx'" unfolding tree_ok_def using root row uniq by blast
qed

text \<open>Pending uploads: none appears, a dead one stays dead, no new node takes a reserved identifier.\<close>

definition op_later :: "upload_rec \<Rightarrow> upload_rec \<Rightarrow> bool" where
  "op_later a b \<longleftrightarrow> o_id b = o_id a \<and> o_file b = o_file a \<and> o_parent b = o_parent a \<and> o_name b = o_name a \<and>
     o_base b = o_base a \<and> (o_state b = PREPARING \<longrightarrow> o_state a = PREPARING)"

lemma op_later_refl [intro, simp]: "op_later a a"
  by (simp add: op_later_def)

lemma op_later_trans: "op_later a b \<Longrightarrow> op_later b c \<Longrightarrow> op_later a c"
  by (auto simp: op_later_def)

definition uploads_later :: "db \<Rightarrow> db \<Rightarrow> bool" where
  "uploads_later tx tx' \<longleftrightarrow>
     (\<forall>k b. tget (uploads tx') k = Some b \<longrightarrow> (\<exists>a. tget (uploads tx) k = Some a \<and> op_later a b))"

lemma uploads_later_same [intro]: "uploads tx' = uploads tx \<Longrightarrow> uploads_later tx tx'"
  by (auto simp: uploads_later_def)

lemma uploads_later_trans: "uploads_later a b \<Longrightarrow> uploads_later b c \<Longrightarrow> uploads_later a c"
  unfolding uploads_later_def by (metis op_later_trans)

lemma uploads_later_put:
  "uploads tx' = tput (o_id b) b (uploads tx) \<Longrightarrow> tget (uploads tx) (o_id b) = Some a \<Longrightarrow> op_later a b \<Longrightarrow>
     uploads_later tx tx'"
  by (auto simp: uploads_later_def split: if_splits)

lemma upload_ok_extends:
  assumes "upload_ok app tx a" and "op_later a b" and ext: "extends tx tx'"
    and ids: "uid_count tx \<le> uid_count tx'"
    and new: "\<And>k. tget (nodes tx) k = None \<Longrightarrow> tget (nodes tx') k \<noteq> None \<Longrightarrow>
       o_file b = k \<Longrightarrow> o_base b = None \<Longrightarrow> o_state b \<noteq> PREPARING"
  shows "upload_ok app tx' b"
proof -
  have kept: "\<exists>n'. tget (nodes tx') k = Some n' \<and> n_parent n' = n_parent n \<and> n_directory n' = n_directory n"
    if "tget (nodes tx) k = Some n" for k n using ext that unfolding extends_def by blast
  have "depth_le tx' 31 (o_parent b)"
    using assms(1,2) depth_le_extends [OF _ ext] by (auto simp: upload_ok_def op_later_def)
  moreover have "case tget (nodes tx') (o_parent b) of None \<Rightarrow> False | Some m \<Rightarrow> o_base b = None \<longrightarrow> n_directory m"
    using assms(1,2) by (auto simp: upload_ok_def op_later_def split: option.splits dest: kept)
  moreover have "case tget (nodes tx') (o_file b) of None \<Rightarrow> False
      | Some m \<Rightarrow> n_parent m = Some (o_parent b)" if "o_base b \<noteq> None"
    using assms(1,2) that by (auto simp: upload_ok_def op_later_def split: option.splits if_splits dest: kept)
  moreover have "tget (nodes tx') (o_file b) = None" if "o_base b = None" "o_state b = PREPARING"
    using assms(1,2) that new [of "o_file b"]
    by (cases "tget (nodes tx') (o_file b)") (auto simp: upload_ok_def op_later_def)
  ultimately show ?thesis using assms(1,2) ids
    by (auto simp: upload_ok_def op_later_def intro: issued_mono)
qed

lemma pending_ok_step:
  assumes ok: "pending_ok app tx" and ext: "extends tx tx'" and ids: "uid_count tx \<le> uid_count tx'"
    and ups: "uploads_later tx tx'"
    and new: "\<And>k j b. tget (nodes tx) k = None \<Longrightarrow> tget (nodes tx') k \<noteq> None \<Longrightarrow>
       tget (uploads tx') j = Some b \<Longrightarrow> o_file b = k \<Longrightarrow> o_base b = None \<Longrightarrow> o_state b \<noteq> PREPARING"
  shows "pending_ok app tx'"
proof -
  have "o_id b = k \<and> upload_ok app tx' b" if b: "tget (uploads tx') k = Some b" for k b
  proof -
    from ups b obtain a where a: "tget (uploads tx) k = Some a" "op_later a b"
      unfolding uploads_later_def by blast
    with ok have "o_id a = k" "upload_ok app tx a" unfolding pending_ok_def by blast+
    then show ?thesis using upload_ok_extends [OF _ a(2) ext ids] new [OF _ _ b] a(2)
      by (auto simp: op_later_def)
  qed
  moreover have "j = k" if "tget (uploads tx') j = Some c" "tget (uploads tx') k = Some d"
    "o_base c = None" "o_base d = None" "o_file c = o_file d" for j k c d
  proof -
    from ups that(1,2) obtain a b where "tget (uploads tx) j = Some a" "op_later a c"
      "tget (uploads tx) k = Some b" "op_later b d" unfolding uploads_later_def by meson
    with ok that show ?thesis unfolding pending_ok_def by (auto simp: op_later_def)
  qed
  ultimately show ?thesis unfolding pending_ok_def by blast
qed

lemma children_frame [simp]:
  "children (tx\<lparr>users := U\<rparr>) = children tx" "children (tx\<lparr>groups := G\<rparr>) = children tx"
  "children (tx\<lparr>uid_count := i\<rparr>) = children tx" "children (tx\<lparr>sessions := S\<rparr>) = children tx"
  "children (tx\<lparr>uploads := P\<rparr>) = children tx" "children (tx\<lparr>snapshots := N\<rparr>) = children tx"
  "children (tx\<lparr>handles := H\<rparr>) = children tx" "children (tx\<lparr>locks := L\<rparr>) = children tx"
  "children (tx\<lparr>lock_sequence := q\<rparr>) = children tx"
  by (simp_all add: children_def fun_eq_iff)

lemma bump_simps [simp]:
  "fst (bump n tx) = n\<lparr>n_revision := n_revision n + 1\<rparr>"
  "snd (bump n tx) = put_node (n\<lparr>n_revision := n_revision n + 1\<rparr>) tx"
  by (simp_all add: bump_def Let_def)

text \<open>A new entry below \<open>parent\<close>, whose revision is then bumped: the change all creating
  handlers make.\<close>

lemma tree_ok_add_child:
  assumes ok: "tree_ok app tx" and parent: "stored tx parent" "n_directory parent \<or> homed app n parent" "depth_le tx 31 (n_id parent)"
    and n: "tget (nodes tx) (n_id n) = None" "n_parent n = Some (n_id parent)" "name_fine (n_name n)"
    and free: "\<not> list_ex (\<lambda>c. n_name c = n_name n) (children tx (n_id parent))"
    and nodes': "nodes tx' = tput (n_id parent) (parent\<lparr>n_revision := r\<rparr>) (tput (n_id n) n (nodes tx))"
    and ids: "uid_count tx \<le> uid_count tx'" "issued app tx' (n_id n)"
  shows "tree_ok app tx'" "extends tx tx'"
proof -
  let ?mid = "tx'\<lparr>nodes := tput (n_id n) n (nodes tx)\<rparr>"
  have mid: "tree_ok app ?mid" "extends tx ?mid"
    using tree_ok_insert [OF ok n(1,2), of parent ?mid] parent n(3) free ids
    by (auto simp: stored_def issued_def)
  have ne: "n_id n \<noteq> n_id parent" using n(1) parent(1) by (auto simp: stored_def)
  have "tree_ok app tx'" "extends ?mid tx'"
    using tree_ok_update [OF mid(1), of parent "parent\<lparr>n_revision := r\<rparr>" tx'] parent(1) ne nodes'
    by (auto simp: stored_def)
  then show "tree_ok app tx'" "extends tx tx'" using extends_trans [OF mid(2)] by auto
qed

lemma pending_ok_add:
  assumes ok: "pending_ok app tx" and ext: "extends tx tx'" and ids: "uid_count tx \<le> uid_count tx'"
    and ups: "uploads_later tx tx'" and distinct: "ids_distinct app" and i: "uid_count tx \<le> i"
    and new: "\<And>k. tget (nodes tx) k = None \<Longrightarrow> tget (nodes tx') k \<noteq> None \<Longrightarrow> k = uidgen app i"
  shows "pending_ok app tx'"
proof (rule pending_ok_step [OF ok ext ids ups])
  fix k j b
  assume k: "tget (nodes tx) k = None" "tget (nodes tx') k \<noteq> None" and b: "tget (uploads tx') j = Some b"
    and eq: "o_file b = k"
  from ups b obtain a where "tget (uploads tx) j = Some a" "op_later a b" unfolding uploads_later_def by blast
  with ok have "issued app tx (o_file b)" unfolding pending_ok_def by (auto simp: upload_ok_def op_later_def)
  with issued_fresh [OF distinct _ i] new [OF k] eq show "o_state b \<noteq> PREPARING" by metis
qed

lemma Mkdir_Inr:
  assumes "Mkdir app user path tx = Inr (e, tx')"
  obtains parent name node where "parent_of app tx user path = Inr (parent, name)"
    "\<not> list_ex (\<lambda>n. n_name n = name) (children tx (n_id parent))" "\<not> reserved app tx (n_id parent) name"
    "node = fst (new_node app name (Some (n_id parent)) (u_id user) True 448 tx)"
    "en_id e = n_id node" "en_name e = name" "en_directory e"
    "tx' = tx\<lparr>uid_count := Suc (uid_count tx), nodes := tput (n_id parent)
        (parent\<lparr>n_revision := n_revision parent + 1\<rparr>) (tput (n_id node) node (nodes tx))\<rparr>"
  using assms
  by (auto simp: Mkdir_def run Let_def case_prod_beta entry_def split: option.splits)

lemma Mkdir_fs_ok:
  assumes "fs_ok app tx" and "ids_distinct app" and "nfc_keeps_slash app"
    and "Mkdir app user path tx = Inr (e, tx')"
  shows "fs_ok app tx'"
proof -
  from assms(1) have ok: "tree_ok app tx" "pending_ok app tx" by (simp_all add: fs_ok_def)
  from assms(4) obtain parent name node where
    parent: "parent_of app tx user path = Inr (parent, name)" and
    free: "\<not> list_ex (\<lambda>n. n_name n = name) (children tx (n_id parent))" and
    node: "node = fst (new_node app name (Some (n_id parent)) (u_id user) True 448 tx)" and
    tx': "tx' = tx\<lparr>uid_count := Suc (uid_count tx), nodes := tput (n_id parent)
        (parent\<lparr>n_revision := n_revision parent + 1\<rparr>) (tput (n_id node) node (nodes tx))\<rparr>"
    by (rule Mkdir_Inr)
  note p = parent_of_ok [OF ok(1) assms(3) parent]
  have fresh: "tget (nodes tx) (n_id node) = None"
    using tree_okD(2) [OF ok(1)] issued_fresh [OF assms(2), of tx "n_id node" "uid_count tx"]
    by (cases "tget (nodes tx) (n_id node)") (auto simp: node)
  have tree: "tree_ok app tx'" "extends tx tx'"
    using tree_ok_add_child [OF ok(1) p(1) _ p(3) fresh, of tx' "n_revision parent + 1"] p(2,4) free
    by (simp_all add: node tx' issued_next)
  have "pending_ok app tx'"
    by (rule pending_ok_add [OF ok(2) tree(2) _ _ assms(2) order_refl])
       (use p(1) in \<open>auto simp: tx' node stored_def split: if_splits\<close>)
  with tree(1) show ?thesis by (simp add: fs_ok_def)
qed

text \<open>Loops that rewrite upload rows.\<close>

lemma fold_put_upload:
  assumes "\<And>op. o_id (f op) = o_id op"
  shows "fold (\<lambda>op tx. if P op then put_upload (f op) tx else tx) xs tx =
     tx\<lparr>uploads := fold (\<lambda>op t. if P op then tput (o_id op) (f op) t else t) xs (uploads tx)\<rparr>"
  by (induction xs arbitrary: tx) (simp_all add: assms)

lemma abort_op_simps [simp]:
  "o_id (abort_op op) = o_id op" "o_state (abort_op op) = ABORTED" "o_reserved (abort_op op) = 0"
  "op_later op (abort_op op)"
  by (simp_all add: abort_op_def op_later_def)

lemma abort_uploads_alt:
  "abort_uploads file tx = tx\<lparr>uploads := fold (\<lambda>op t. if o_file op = file \<and> o_state op = PREPARING
     then tput (o_id op) (abort_op op) t else t) (tall (uploads tx)) (uploads tx)\<rparr>"
  unfolding abort_uploads_def by (rule fold_put_upload) simp

lemma pending_ok_keyed: "pending_ok app tx \<Longrightarrow> keyed o_id (uploads tx)"
  by (simp add: pending_ok_def keyed_def)

lemma tget_abort_uploads:
  "keyed o_id (uploads tx) \<Longrightarrow> tget (uploads (abort_uploads file tx)) k =
     map_option (\<lambda>op. if o_file op = file \<and> o_state op = PREPARING then abort_op op else op) (tget (uploads tx) k)"
  by (simp add: abort_uploads_alt tget_fold_tput)

lemma abort_uploads_frame [frame]:
  "nodes (abort_uploads f tx) = nodes tx" "uid_count (abort_uploads f tx) = uid_count tx"
  "snapshots (abort_uploads f tx) = snapshots tx" "handles (abort_uploads f tx) = handles tx"
  "locks (abort_uploads f tx) = locks tx" "blocks (abort_uploads f tx) = blocks tx"
  by (simp_all add: abort_uploads_alt)

lemma abort_uploads_later: "keyed o_id (uploads tx) \<Longrightarrow> uploads_later tx (abort_uploads f tx)"
  by (auto simp: uploads_later_def tget_abort_uploads)

lemma base_remove_Inr:
  assumes "base_remove app user cx path d tx = Inr (r, tx')"
  obtains node parent p where "resolve app tx user path = Inr node" "n_parent node = Some p"
    "n_directory node = d" "tget (nodes tx) p = Some parent"
    "d \<longrightarrow> children tx (n_id node) = []"
    "d \<longrightarrow> \<not> list_ex (pending_in app (n_id node)) (tall (uploads tx))"
    "r = result cx (n_revision node + 1)"
    "tx' = (abort_uploads (n_id node) tx)\<lparr>nodes := tput (n_id parent) (parent\<lparr>n_revision := n_revision parent + 1\<rparr>)
        (tput (n_id node) (node\<lparr>n_alive := False, n_revision := n_revision node + 1\<rparr>) (nodes tx))\<rparr>"
  using assms
  by (auto simp: base_remove_def run Let_def case_prod_beta frame)

lemma base_remove_fs_ok:
  assumes "fs_ok app tx" and "base_remove app user cx path d tx = Inr (r, tx')"
  shows "fs_ok app tx'" "extends tx tx'" "uploads_later tx tx'"
proof -
  from assms(1) have ok: "tree_ok app tx" "pending_ok app tx" by (simp_all add: fs_ok_def)
  from assms(2) obtain node parent p where
    node: "resolve app tx user path = Inr node" "n_parent node = Some p" "n_directory node = d" and
    parent: "tget (nodes tx) p = Some parent" and
    empty: "d \<longrightarrow> children tx (n_id node) = []" and
    tx': "tx' = (abort_uploads (n_id node) tx)\<lparr>nodes := tput (n_id parent) (parent\<lparr>n_revision := n_revision parent + 1\<rparr>)
        (tput (n_id node) (node\<lparr>n_alive := False, n_revision := n_revision node + 1\<rparr>) (nodes tx))\<rparr>"
    by (rule base_remove_Inr)
  have st: "tget (nodes tx) (n_id node) = Some node" "n_alive node"
    using resolve_ok [OF ok(1) node(1)] by (auto simp: stored_def)
  let ?node = "node\<lparr>n_alive := False, n_revision := n_revision node + 1\<rparr>"
  let ?mid = "tx\<lparr>nodes := tput (n_id node) ?node (nodes tx)\<rparr>"
  have mid: "tree_ok app ?mid" "extends tx ?mid"
    using tree_ok_update [OF ok(1) st(1), of ?node ?mid] node(2,3) empty by simp_all
  have pid: "n_id parent = p" by (rule tree_okD(1) [OF ok(1) parent])
  have ne: "p \<noteq> n_id node" by (rule no_own_parent [OF st(1) node(2) tree_okD(3) [OF ok(1) st(1)]])
  have "tree_ok app tx'" and ext: "extends ?mid tx'"
    using tree_ok_update [OF mid(1), of parent "parent\<lparr>n_revision := n_revision parent + 1\<rparr>" tx'] parent pid ne
    by (simp_all add: tx' frame)
  show ext: "extends tx tx'" by (rule extends_trans [OF mid(2) ext])
  show later: "uploads_later tx tx'"
    using abort_uploads_later [OF pending_ok_keyed [OF ok(2)], of "n_id node"]
    by (simp add: uploads_later_def tx')
  have "pending_ok app tx'"
    by (rule pending_ok_step [OF ok(2) ext _ later]) (use st parent pid in \<open>auto simp: tx' frame split: if_splits\<close>)
  with \<open>tree_ok app tx'\<close> show "fs_ok app tx'" by (simp add: fs_ok_def)
qed

text \<open>The invariant only depends on nodes, uploads and identifiers.\<close>

lemma fs_ok_cong:
  assumes "fs_ok app tx" and "nodes tx' = nodes tx" and "uploads_later tx tx'" and "uid_count tx \<le> uid_count tx'"
  shows "fs_ok app tx'"
proof -
  have "tree_ok app tx'" using assms tree_ok_nodes unfolding fs_ok_def by blast
  moreover have "pending_ok app tx'"
    by (rule pending_ok_step [of _ tx]) (use assms in \<open>auto simp: fs_ok_def\<close>)
  ultimately show ?thesis by (simp add: fs_ok_def)
qed

lemma fs_ok_touch:
  assumes "fs_ok app tx" and n: "tget (nodes tx) (n_id n) = Some n"
    and same: "n_id n' = n_id n" "n_name n' = n_name n" "n_parent n' = n_parent n"
      "n_directory n' = n_directory n" "n_alive n' = n_alive n"
    and nodes': "nodes tx' = tput (n_id n') n' (nodes tx)"
    and ups: "uploads_later tx tx'" and ids: "uid_count tx \<le> uid_count tx'"
    and top: "n_parent n = None \<Longrightarrow> n_snapshot n' = n_snapshot n"
  shows "fs_ok app tx'"
proof -
  from assms(1) have ok: "tree_ok app tx" "pending_ok app tx" by (simp_all add: fs_ok_def)
  have tree: "tree_ok app tx'" "extends tx tx'"
    using tree_ok_update [OF ok(1) n same(1-4) _ nodes' ids top] same(5) by auto
  have "pending_ok app tx'"
    by (rule pending_ok_step [OF ok(2) tree(2) ids ups]) (use n same in \<open>auto simp: nodes' split: if_splits\<close>)
  with tree(1) show ?thesis by (simp add: fs_ok_def)
qed

lemma fold_release_frame [frame]:
  "nodes (fold (\<lambda>op tx. if P op then release_operation op tx else tx) xs tx) = nodes tx"
  "uploads (fold (\<lambda>op tx. if P op then release_operation op tx else tx) xs tx) = uploads tx"
  "uid_count (fold (\<lambda>op tx. if P op then release_operation op tx else tx) xs tx) = uid_count tx"
  "snapshots (fold (\<lambda>op tx. if P op then release_operation op tx else tx) xs tx) = snapshots tx"
  "blocks (fold (\<lambda>op tx. if P op then release_operation op tx else tx) xs tx) = blocks tx"
  by (induction xs arbitrary: tx) (simp_all add: frame)

lemma remove_fs_ok:
  assumes "fs_ok app tx" and "remove app user cx path d tx = Inr (r, tx')"
  shows "fs_ok app tx'"
proof (cases "has_leases app")
  case False
  with assms base_remove_fs_ok(1) show ?thesis by (auto simp: remove_def)
next
  case True
  with assms(2) obtain tx1 where b: "base_remove app user cx path d tx = Inr (r, tx1)"
    and tx': "tx' = fold (\<lambda>op tx. if o_state op \<noteq> PREPARING then release_operation op tx else tx)
                      (tall (uploads tx1)) tx1"
    by (auto simp: remove_def access_remove_def run)
  show ?thesis
    by (rule fs_ok_cong [OF base_remove_fs_ok(1) [OF assms(1) b]]) (auto simp: tx' frame)
qed

end
