(* ===== verification/Identity.thy ===== *)
theory Identity
  imports Namespace
begin

text \<open>
  Users, groups, access lists and sessions (\<^verbatim>\<open>CreateUser\<close> to \<^verbatim>\<open>Logout\<close> of
  \<^verbatim>\<open>src/src/dfsha/control/commands.py\<close>).

  The theorems: which accounts may act, that a changed password or a disabled account
  leaves no usable session, that an access list is read back as it was written, and that
  none of these operations disturbs the name space.
\<close>

section \<open>Definitions\<close>

record user_msg =
  um_id :: string
  um_username :: string
  um_disabled :: bool
  um_revision :: int

record group_msg =
  gm_id :: string
  gm_name :: string
  gm_members :: "string list"
  gm_revision :: int

definition user_msg :: "user_rec \<Rightarrow> user_msg" where
  "user_msg u = \<lparr>um_id = u_id u, um_username = u_username u, um_disabled = u_disabled u, um_revision = u_revision u\<rparr>"

definition group_msg :: "group_rec \<Rightarrow> group_msg" where
  "group_msg g = \<lparr>gm_id = g_id g, gm_name = g_name g, gm_members = g_members g, gm_revision = g_revision g\<rparr>"

abbreviation put_user :: "user_rec \<Rightarrow> db \<Rightarrow> db" where
  "put_user u tx \<equiv> tx\<lparr>users := tput (u_id u) u (users tx)\<rparr>"

abbreviation put_group :: "group_rec \<Rightarrow> db \<Rightarrow> db" where
  "put_group g tx \<equiv> tx\<lparr>groups := tput (g_id g) g (groups tx)\<rparr>"

abbreviation put_session :: "session_rec \<Rightarrow> db \<Rightarrow> db" where
  "put_session s tx \<equiv> tx\<lparr>sessions := tput (s_id s) s (sessions tx)\<rparr>"

definition CreateUser :: "app \<Rightarrow> user_rec \<Rightarrow> string \<Rightarrow> string \<Rightarrow> db \<Rightarrow> (user_msg \<times> db) res" where
  "CreateUser app user username password tx =
     need (u_admin user) PERMISSION_DENIED (
     need (name_ok username) INVALID_ARGUMENT (
     need (\<not> list_ex (\<lambda>u. u_username u = username) (tall (users tx))) ALREADY_EXISTS (
     let (identity, tx) = uid app tx in
     bindr (password_hash app password tx) (\<lambda>(encoded, tx).
     let record = \<lparr>u_id = identity, u_username = username, u_password = encoded, u_disabled = False,
                   u_admin = False, u_revision = 1\<rparr>;
         tx = put_user record tx;
         tx = put_group \<lparr>g_id = identity, g_name = username, g_members = [identity], g_revision = 1\<rparr> tx
     in bindr (walk app tx user ''/home'') (\<lambda>home.
        need (\<not> list_ex (\<lambda>n. n_name n = username) (children tx (n_id home))) ALREADY_EXISTS (
        let (node, tx) = new_node app username (Some (n_id home)) identity True 448 tx;
            tx = put_node node tx;
            (_, tx) = bump home tx
        in Inr (user_msg record, tx)))))))"

definition revoke_sessions :: "string \<Rightarrow> db \<Rightarrow> db" where
  "revoke_sessions identity tx =
     fold (\<lambda>s tx. if s_user s = identity \<and> \<not> s_revoked s then put_session (s\<lparr>s_revoked := True\<rparr>) tx else tx)
       (tall (sessions tx)) tx"

definition SetUser :: "user_rec \<Rightarrow> string \<Rightarrow> bool \<Rightarrow> int \<Rightarrow> db \<Rightarrow> (user_msg \<times> db) res" where
  "SetUser user user_id disabled expected tx =
     need (u_admin user) PERMISSION_DENIED (
     need_some (tget (users tx) user_id) NOT_FOUND (\<lambda>target.
     need (\<not> u_admin target) PERMISSION_DENIED (
     need (u_revision target = expected) VERSION_CONFLICT (
     let target = target\<lparr>u_disabled := disabled, u_revision := u_revision target + 1\<rparr>;
         tx = (if disabled then revoke_sessions (u_id target) tx else tx)
     in Inr (user_msg target, put_user target tx)))))"

definition ChangePassword :: "app \<Rightarrow> user_rec \<Rightarrow> string \<Rightarrow> string \<Rightarrow> int \<Rightarrow> db \<Rightarrow> (user_msg \<times> db) res" where
  "ChangePassword app user user_id password expected tx =
     need (u_admin user \<or> u_id user = user_id) PERMISSION_DENIED (
     need_some (tget (users tx) user_id) NOT_FOUND (\<lambda>target.
     need (u_revision target = expected) VERSION_CONFLICT (
     bindr (password_hash app password tx) (\<lambda>(encoded, tx).
     let target = target\<lparr>u_password := encoded, u_revision := u_revision target + 1\<rparr>
     in Inr (user_msg target, revoke_sessions (u_id target) (put_user target tx))))))"

definition CreateGroup :: "app \<Rightarrow> user_rec \<Rightarrow> string \<Rightarrow> db \<Rightarrow> (group_msg \<times> db) res" where
  "CreateGroup app user name tx =
     need (u_admin user) PERMISSION_DENIED (
     need (name_ok name) INVALID_ARGUMENT (
     need (\<not> list_ex (\<lambda>g. g_name g = name) (tall (groups tx))) ALREADY_EXISTS (
     let (identity, tx) = uid app tx;
         group = \<lparr>g_id = identity, g_name = name, g_members = [], g_revision = 1\<rparr>
     in Inr (group_msg group, put_group group tx))))"

definition SetGroupMembers :: "user_rec \<Rightarrow> string \<Rightarrow> string list \<Rightarrow> int \<Rightarrow> db \<Rightarrow> (group_msg \<times> db) res" where
  "SetGroupMembers user group_id user_ids expected tx =
     need (u_admin user) PERMISSION_DENIED (
     need_some (tget (groups tx) group_id) NOT_FOUND (\<lambda>group.
     need (g_revision group = expected) VERSION_CONFLICT (
     need (length user_ids \<le> 100 \<and> distinct user_ids) INVALID_ARGUMENT (
     need (list_all (\<lambda>u. tget (users tx) u \<noteq> None) user_ids) NOT_FOUND (
     let group = group\<lparr>g_members := user_ids, g_revision := g_revision group + 1\<rparr>
     in Inr (group_msg group, put_group group tx))))))"

definition principal_known :: "db \<Rightarrow> acl_entry \<Rightarrow> bool" where
  "principal_known tx e \<longleftrightarrow>
     (if ae_is_group e then tget (groups tx) (ae_principal e) \<noteq> None else tget (users tx) (ae_principal e) \<noteq> None)"

definition SetAcl :: "app \<Rightarrow> user_rec \<Rightarrow> req_ctx \<Rightarrow> path_ref \<Rightarrow> acl_msg \<Rightarrow> int \<Rightarrow> db \<Rightarrow> (mutation_result \<times> db) res" where
  "SetAcl app user cx path acl expected tx =
     bindr (resolve app tx user path) (\<lambda>node.
     need (u_admin user \<or> n_owner node = u_id user) PERMISSION_DENIED (
     need (expected = n_revision node) VERSION_CONFLICT (
     need (am_owner_perms acl \<le> 7 \<and> am_group_perms acl \<le> 7 \<and> am_other_perms acl \<le> 7 \<and>
           length (am_entries acl) \<le> 64 \<and> list_all (\<lambda>e. ae_permissions e \<le> 7) (am_entries acl)) INVALID_ARGUMENT (
     need (tget (users tx) (am_owner acl) \<noteq> None \<and> tget (groups tx) (am_group acl) \<noteq> None) NOT_FOUND (
     need (u_admin user \<or> am_owner acl = n_owner node \<and> am_group acl = n_group node) PERMISSION_DENIED (
     need (list_all (principal_known tx) (am_entries acl)) NOT_FOUND (
     let node = node\<lparr>n_owner := am_owner acl, n_group := am_group acl,
           n_mode := push_bit 6 (am_owner_perms acl) OR push_bit 3 (am_group_perms acl) OR am_other_perms acl,
           n_acl := am_entries acl\<rparr>;
         (node, tx) = bump node tx
     in Inr (result cx (n_revision node), tx))))))))"

definition Logout :: "session_rec \<Rightarrow> req_ctx \<Rightarrow> string \<Rightarrow> db \<Rightarrow> (mutation_result \<times> db) res" where
  "Logout session cx session_id tx =
     need (session_id = s_session_id session) PERMISSION_DENIED (
     Inr (result cx 1, put_session (session\<lparr>s_revoked := True\<rparr>) tx))"

section \<open>Sessions\<close>

definition accounts_keyed :: "db \<Rightarrow> bool" where
  "accounts_keyed tx \<longleftrightarrow> keyed u_id (users tx) \<and> keyed s_id (sessions tx) \<and> keyed g_id (groups tx)"

lemma revoke_sessions_alt:
  "revoke_sessions i tx = tx\<lparr>sessions := fold (\<lambda>s t. if s_user s = i \<and> \<not> s_revoked s
     then tput (s_id s) (s\<lparr>s_revoked := True\<rparr>) t else t) (tall (sessions tx)) (sessions tx)\<rparr>"
proof -
  have "fold (\<lambda>s tx. if s_user s = i \<and> \<not> s_revoked s then put_session (s\<lparr>s_revoked := True\<rparr>) tx else tx) xs tx =
     tx\<lparr>sessions := fold (\<lambda>s t. if s_user s = i \<and> \<not> s_revoked s
       then tput (s_id s) (s\<lparr>s_revoked := True\<rparr>) t else t) xs (sessions tx)\<rparr>" for xs
    by (induction xs arbitrary: tx) simp_all
  then show ?thesis by (simp add: revoke_sessions_def)
qed

lemma tget_revoke_sessions:
  "keyed s_id (sessions tx) \<Longrightarrow> tget (sessions (revoke_sessions i tx)) k =
     map_option (\<lambda>s. if s_user s = i \<and> \<not> s_revoked s then s\<lparr>s_revoked := True\<rparr> else s) (tget (sessions tx) k)"
  by (simp add: revoke_sessions_alt tget_fold_tput)

lemma revoke_sessions_frame [frame]:
  "users (revoke_sessions i tx) = users tx" "nodes (revoke_sessions i tx) = nodes tx"
  "uploads (revoke_sessions i tx) = uploads tx" "groups (revoke_sessions i tx) = groups tx"
  "uid_count (revoke_sessions i tx) = uid_count tx"
  by (simp_all add: revoke_sessions_alt)

text \<open>No token authenticates a user all of whose sessions are revoked.\<close>

lemma revoke_sessions_locks_out:
  assumes "keyed s_id (sessions tx)" and "keyed u_id U" and
    "authenticate app ((revoke_sessions i tx)\<lparr>users := U\<rparr>) token = Inr (u, s)"
  shows "u_id u \<noteq> i"
proof
  assume "u_id u = i"
  have *: "tget (sessions (revoke_sessions i tx)) (hex (sha256 app token)) = Some s" "\<not> s_revoked s"
    "tget U (s_user s) = Some u"
    using assms(3) by (simp_all add: authenticate_Inr)
  from keyedD [OF assms(2) *(3)] \<open>u_id u = i\<close> have "s_user s = i" by simp
  moreover from *(1) obtain s0 where "s = (if s_user s0 = i \<and> \<not> s_revoked s0 then s0\<lparr>s_revoked := True\<rparr> else s0)"
    unfolding tget_revoke_sessions [OF assms(1)] by blast
  ultimately show False using *(2) by (cases "s_user s0 = i \<and> \<not> s_revoked s0") simp_all
qed

lemma SetUser_Inr:
  "SetUser user i disabled expected tx = Inr (m, tx') \<longleftrightarrow>
     (\<exists>t. u_admin user \<and> tget (users tx) i = Some t \<and> \<not> u_admin t \<and> u_revision t = expected \<and>
        m = user_msg (t\<lparr>u_disabled := disabled, u_revision := expected + 1\<rparr>) \<and>
        tx' = put_user (t\<lparr>u_disabled := disabled, u_revision := expected + 1\<rparr>)
                (if disabled then revoke_sessions (u_id t) tx else tx))"
  by (auto simp: SetUser_def run Let_def)

lemma ChangePassword_Inr:
  assumes "ChangePassword app user i password expected tx = Inr (m, tx')"
  obtains t where "u_admin user \<or> u_id user = i" "tget (users tx) i = Some t" "u_revision t = expected"
    "12 \<le> length password" "length password \<le> 1024" "slot_free app"
    "tx' = revoke_sessions (u_id t) (put_user (t\<lparr>u_password := pw_hash app (uid_count tx) password,
        u_revision := expected + 1\<rparr>) (tx\<lparr>uid_count := Suc (uid_count tx)\<rparr>))"
  using assms by (auto simp: ChangePassword_def run Let_def password_hash_def)

section \<open>Access lists\<close>

lemma shifted_mode:
  fixes a b c :: nat
  assumes "a \<le> 7" "b \<le> 7" "c \<le> 7"
  shows "drop_bit 6 (push_bit 6 a OR push_bit 3 b OR c) = a"
    "drop_bit 3 (push_bit 6 a OR push_bit 3 b OR c) AND 7 = b"
    "(push_bit 6 a OR push_bit 3 b OR c) AND 7 = c"
proof -
  have mask: "x AND 7 = x" if "x \<le> 7" for x :: nat
    using that take_bit_nat_eq_self [of x 3] by (simp add: take_bit_eq_mask mask_eq_exp_minus_1)
  have small: "bit x i \<longrightarrow> i < 3" if "x \<le> 7" for x i :: nat
    using arg_cong [OF mask [OF that], of "\<lambda>y. bit y i"] by (auto simp: bit_and_iff bit_seven)
  show "drop_bit 6 (push_bit 6 a OR push_bit 3 b OR c) = a"
    using small [OF assms(2)] small [OF assms(3)]
    by (fastforce simp: bit_eq_iff bit_drop_bit_eq bit_or_iff bit_push_bit_iff)
  show "drop_bit 3 (push_bit 6 a OR push_bit 3 b OR c) AND 7 = b"
    using small [OF assms(2)] small [OF assms(3)]
    by (fastforce simp: bit_eq_iff bit_drop_bit_eq bit_or_iff bit_push_bit_iff bit_and_iff bit_seven)
  show "(push_bit 6 a OR push_bit 3 b OR c) AND 7 = c"
    using small [OF assms(3)]
    by (fastforce simp: bit_eq_iff bit_or_iff bit_push_bit_iff bit_and_iff bit_seven)
qed

lemma SetAcl_Inr:
  assumes "SetAcl app user cx path acl expected tx = Inr (r, tx')"
  obtains node where "resolve app tx user path = Inr node" "u_admin user \<or> n_owner node = u_id user"
    "expected = n_revision node" "am_owner_perms acl \<le> 7" "am_group_perms acl \<le> 7" "am_other_perms acl \<le> 7"
    "u_admin user \<or> am_owner acl = n_owner node \<and> am_group acl = n_group node"
    "mr_revision r = expected + 1"
    "tx' = put_node (node\<lparr>n_owner := am_owner acl, n_group := am_group acl,
           n_mode := push_bit 6 (am_owner_perms acl) OR push_bit 3 (am_group_perms acl) OR am_other_perms acl,
           n_acl := am_entries acl, n_revision := n_revision node + 1\<rparr>) tx"
  using assms
  by (auto simp: SetAcl_def run Let_def case_prod_beta result_def)

lemma SetAcl_fs_ok:
  assumes "fs_ok app tx" and "SetAcl app user cx path acl expected tx = Inr (r, tx')"
  shows "fs_ok app tx'"
proof (rule SetAcl_Inr [OF assms(2)])
  fix node
  assume node: "resolve app tx user path = Inr node" and
    tx': "tx' = put_node (node\<lparr>n_owner := am_owner acl, n_group := am_group acl,
           n_mode := push_bit 6 (am_owner_perms acl) OR push_bit 3 (am_group_perms acl) OR am_other_perms acl,
           n_acl := am_entries acl, n_revision := n_revision node + 1\<rparr>) tx" (is "_ = put_node ?n' tx")
  have "stored tx node" using resolve_ok [OF _ node] assms(1) by (simp add: fs_ok_def)
  then show "fs_ok app tx'"
    using fs_ok_touch [OF assms(1), of node ?n' tx'] uploads_later_same [of tx' tx]
    by (simp add: tx' stored_def)
qed

section \<open>New accounts\<close>

lemma name_ok_fine: "name_ok s \<Longrightarrow> name_fine s"
proof -
  assume *: "name_ok s"
  have no: "\<not> name_char c" if "c \<in> {CHR ''/'', CHR 0x5C, CHR 0x00, CHR ''.''}" for c
    using that by (auto simp: name_char_def)
  from * have all: "\<forall>c \<in> set s. name_char c" by (simp add: name_ok_def list_all_iff)
  have "CHR ''/'' \<notin> set s" "CHR 0x5C \<notin> set s" "CHR 0x00 \<notin> set s" "CHR ''.'' \<notin> set s"
    using all no by blast+
  moreover from this(4) have "s \<noteq> ''.''" "s \<noteq> ''..''" by auto
  ultimately show ?thesis using * by (auto simp: name_fine_def name_ok_def)
qed

lemma CreateUser_Inr:
  assumes "CreateUser app user username password tx = Inr (m, tx')"
  obtains home node tx1 where "u_admin user" "name_ok username"
    "\<not> list_ex (\<lambda>u. u_username u = username) (tall (users tx))"
    "walk app tx1 user ''/home'' = Inr home" "nodes tx1 = nodes tx" "uploads tx1 = uploads tx"
    "uid_count tx1 = uid_count tx + 2"
    "users tx1 = tput (uidgen app (uid_count tx)) \<lparr>u_id = uidgen app (uid_count tx), u_username = username,
        u_password = pw_hash app (Suc (uid_count tx)) password, u_disabled = False, u_admin = False, u_revision = 1\<rparr> (users tx)"
    "\<not> list_ex (\<lambda>n. n_name n = username) (children tx (n_id home))"
    "node = fst (new_node app username (Some (n_id home)) (uidgen app (uid_count tx)) True 448 tx1)"
    "tx' = tx1\<lparr>uid_count := uid_count tx + 3, nodes := tput (n_id home)
        (home\<lparr>n_revision := n_revision home + 1\<rparr>) (tput (n_id node) node (nodes tx))\<rparr>"
proof -
  let ?u = "\<lparr>u_id = uidgen app (uid_count tx), u_username = username,
        u_password = pw_hash app (Suc (uid_count tx)) password, u_disabled = False, u_admin = False, u_revision = 1\<rparr>"
  let ?tx1 = "put_group \<lparr>g_id = uidgen app (uid_count tx), g_name = username,
       g_members = [uidgen app (uid_count tx)], g_revision = 1\<rparr>
     (put_user ?u (tx\<lparr>uid_count := Suc (Suc (uid_count tx))\<rparr>))"
  from assms obtain home where home: "walk app ?tx1 user ''/home'' = Inr home"
    and *: "u_admin user" "name_ok username" "\<not> list_ex (\<lambda>u. u_username u = username) (tall (users tx))"
      "\<not> list_ex (\<lambda>n. n_name n = username) (children tx (n_id home))"
      "tx' = snd (bump home (put_node (fst (new_node app username (Some (n_id home)) (uidgen app (uid_count tx)) True 448 ?tx1))
         (snd (new_node app username (Some (n_id home)) (uidgen app (uid_count tx)) True 448 ?tx1))))"
    by (auto simp: CreateUser_def run Let_def case_prod_beta password_hash_def)
  show ?thesis
    by (rule that [OF *(1-3) home _ _ _ _ *(4) refl]) (simp_all add: *(5))
qed

text \<open>What is found as \<^verbatim>\<open>/home\<close> need not be a directory.\<close>

lemma walk_home:
  assumes "tree_ok app tx" and "walk app tx user ''/home'' = Inr h"
  shows "n_directory h \<or> n_parent h = Some (sys_root app) \<and> n_name h = nfc app ''home''"
proof -
  have pieces: "path_pieces ''/home'' = [''home'']" by (simp add: path_pieces_def)
  from assms(2) obtain r where root: "tget (nodes tx) (sys_root app) = Some r"
    and w: "walk_pieces app tx user r [nfc app ''home''] = Inr h"
    by (auto simp: walk_def run Let_def pieces)
  note facts = root_stored(3) [OF assms(1) root] tree_okD(1) [OF assms(1) root]
  obtain q where "tget (nodes tx) (sys_root app) = Some q" "n_parent q = None" using tree_ok_root [OF assms(1)] by blast
  with root have top: "n_parent r = None" by simp
  consider "h = r" | "find (\<lambda>n. n_name n = nfc app ''home'') (children tx (n_id r)) = Some h"
    using w top by (auto simp: run split: if_splits)
  then show ?thesis
  proof cases
    case 2
    from find_child [OF this] facts(2) show ?thesis by auto
  qed (use facts in simp)
qed

lemma CreateUser_fs_ok:
  assumes "fs_ok app tx" and "ids_distinct app" and "CreateUser app user username password tx = Inr (m, tx')"
  shows "fs_ok app tx'"
proof -
  from assms(1) have ok: "tree_ok app tx" "pending_ok app tx" by (simp_all add: fs_ok_def)
  from assms(3) obtain home node tx1 where
    name: "name_ok username" and home: "walk app tx1 user ''/home'' = Inr home" and
    tx1: "nodes tx1 = nodes tx" "uploads tx1 = uploads tx" "uid_count tx1 = uid_count tx + 2" and
    free: "\<not> list_ex (\<lambda>n. n_name n = username) (children tx (n_id home))" and
    node: "node = fst (new_node app username (Some (n_id home)) (uidgen app (uid_count tx)) True 448 tx1)" and
    tx': "tx' = tx1\<lparr>uid_count := uid_count tx + 3, nodes := tput (n_id home)
        (home\<lparr>n_revision := n_revision home + 1\<rparr>) (tput (n_id node) node (nodes tx))\<rparr>"
    by (rule CreateUser_Inr) blast
  have tree1: "tree_ok app tx1" by (rule tree_ok_nodes [OF ok(1)]) (simp_all add: tx1)
  have h: "stored tx home" "depth_le tx1 1 (n_id home)"
    using walk_ok [OF tree1 home] by (simp_all add: stored_def tx1 path_pieces_def)
  have d: "depth_le tx 31 (n_id home)"
    by (rule depth_le_extends [of tx1, OF depth_le_mono [OF h(2)]]) (auto simp: tx1)
  have fresh: "tget (nodes tx) (n_id node) = None"
    using tree_okD(2) [OF ok(1)] issued_fresh [OF assms(2), of tx "n_id node" "uid_count tx + 2"]
    by (cases "tget (nodes tx) (n_id node)") (auto simp: node tx1)
  have tree: "tree_ok app tx'" "extends tx tx'"
    using tree_ok_add_child [OF ok(1) h(1) _ d fresh, of tx' "n_revision home + 1"]
      walk_home [OF tree1 home] name_ok_fine [OF name] free
    by (auto simp: node tx' tx1 issued_next homed_def)
  have "pending_ok app tx'"
    by (rule pending_ok_add [OF ok(2) tree(2) _ _ assms(2), of "uid_count tx + 2"])
       (use h(1) in \<open>auto simp: tx' tx1 node stored_def split: if_splits\<close>)
  with tree(1) show ?thesis by (simp add: fs_ok_def)
qed

end
