(* ===== verification/Uploads.thy ===== *)
theory Uploads
  imports Identity
begin

text \<open>
  Whole-file uploads (\<^verbatim>\<open>BeginUpload\<close> to \<^verbatim>\<open>AbortUpload\<close> of \<^verbatim>\<open>src/src/dfsha/control/commands.py\<close>,
  their overrides in \<^verbatim>\<open>distributed.py\<close>, \<^verbatim>\<open>access.py\<close> and \<^verbatim>\<open>replication.py\<close>, and \<^verbatim>\<open>upload_plan\<close> and
  \<^verbatim>\<open>manifest\<close> of \<^verbatim>\<open>monolith.py\<close>).

  An upload goes from \<open>PREPARING\<close> to \<open>COMMITTED\<close>, \<open>ABORTED\<close> or \<open>EXPIRED\<close>. The client
  allocates blocks, stages manifest pages of 64 blocks, seals the manifest and commits; the
  commit replaces the file's snapshot in one unit of work.

  The dictionaries \<^verbatim>\<open>allocations\<close> and \<^verbatim>\<open>pages\<close> are association lists in insertion order, keyed by the
  number whose decimal text is the key in the source.
\<close>

section \<open>Manifest arithmetic\<close>

definition upload_plan :: "app \<Rightarrow> upload_rec \<Rightarrow> upload_plan" where
  "upload_plan app op =
     \<lparr>up_operation = o_operation op, up_file = o_file op, up_epoch = o_epoch op,
      up_fence = \<lparr>f_lock = o_id op, f_handle = '''', f_epoch = sys_epoch app, f_generation = o_epoch op,
        f_lease = 1, f_indices = [], f_whole = True, f_size = True, f_expires = o_expires op\<rparr>,
      up_block_bytes = o_block_size op, up_expires = o_expires op,
      up_minimum = (if profile app = REPLICATED then (case o_policy op of None \<Rightarrow> 1 | Some p \<Rightarrow> p_w p) else 0)\<rparr>"

definition block_count :: "upload_rec \<Rightarrow> int" where
  "block_count op = ceil_div (o_total op) (o_block_size op)"

definition page_blocks :: "upload_rec \<Rightarrow> block_ref list" where
  "page_blocks op =
     concat (map (\<lambda>i. case map_of (o_pages op) (int i) of None \<Rightarrow> [] | Some bs \<Rightarrow> bs)
       [0..<length (o_pages op)])"

definition manifest :: "upload_rec \<Rightarrow> block_ref list res" where
  "manifest op =
     (let count = block_count op; pages = int (length (o_pages op)) in
      need (pages = (count + 63) div 64) CHECKSUM_MISMATCH (
      let blks = page_blocks op in
      need (int (length blks) = count \<and> sum_list (map br_size blks) = o_total op \<and>
            list_all (\<lambda>(i, b). br_index b = i) (zip (map int [0..<length blks]) blks)) CHECKSUM_MISMATCH (
      Inr blks)))"

section \<open>Beginning\<close>

record begin_upload_req =
  bu_path :: path_ref
  bu_total :: int
  bu_sha :: string
  bu_overwrite :: bool
  bu_expected :: snapshot_ref

definition upload_quota :: "app \<Rightarrow> db \<Rightarrow> user_rec \<Rightarrow> bool" where
  "upload_quota app tx user \<longleftrightarrow>
     (let active = filter (\<lambda>op. o_state op = PREPARING \<and> o_expires op > now_ms app) (tall (uploads tx)) in
      \<not> protected_store app \<or>
      length active < 64 \<and> length (filter (\<lambda>op. o_user op = u_id user) active) < 16)"

text \<open>The snapshot an existing file has, after the checks of an overwrite.\<close>

definition overwrite_base :: "app \<Rightarrow> user_rec \<Rightarrow> begin_upload_req \<Rightarrow> node_rec option \<Rightarrow> db \<Rightarrow> snapshot_rec option res" where
  "overwrite_base app user req existing tx =
     (case existing of
        Some n \<Rightarrow>
          need (\<not> n_directory n) IS_DIRECTORY (
          need (bu_overwrite req) ALREADY_EXISTS (
          bindr (require app tx user n 2) (\<lambda>_.
          deref (Option.bind (n_snapshot n) (tget (snapshots tx))) (\<lambda>snap.
          need (bu_expected req = sn_ref snap) VERSION_CONFLICT (
          Inr (Some snap))))))
      | None \<Rightarrow> need (sr_file (bu_expected req) = []) VERSION_CONFLICT (Inr None))"

definition base_BeginUpload :: "app \<Rightarrow> user_rec \<Rightarrow> session_rec \<Rightarrow> req_ctx \<Rightarrow> begin_upload_req \<Rightarrow> db \<Rightarrow>
    (upload_plan \<times> db) res" where
  "base_BeginUpload app user session cx req tx =
     need (upload_quota app tx user) LIMIT_EXCEEDED (
     need (length (bu_sha req) = 32 \<and> bu_total req \<le> max_file_bytes app) INVALID_ARGUMENT (
     bindr (parent_of app tx user (bu_path req)) (\<lambda>(parent, name).
     let existing = find (\<lambda>n. n_name n = name) (children tx (n_id parent)) in
     need (\<not> reserved app tx (n_id parent) name) LOCK_BUSY (
     bindr (overwrite_base app user req existing tx) (\<lambda>snap.
     let block_size = (case existing of Some n \<Rightarrow> n_block_size n | None \<Rightarrow> block_size_bytes app) in
     bindr (reserve_upload app (bu_total req) block_size tx) (\<lambda>res.
     let (operation_id, tx) = uid app tx;
         (file, tx) = (case existing of Some n \<Rightarrow> (n_id n, tx) | None \<Rightarrow> uid app tx);
         op = \<lparr>o_id = operation_id,
               o_operation = \<lparr>or_id = operation_id, or_request = cx_request_id cx, or_intent = cx_intent cx\<rparr>,
               o_request = cx_request_id cx, o_user = u_id user, o_session = s_id session,
               o_parent = n_id parent, o_name = name, o_file = file,
               o_base = Option.bind existing n_snapshot,
               o_version = (case existing of Some n \<Rightarrow> n_revision n | None \<Rightarrow> 0),
               o_block_size = block_size, o_total = bu_total req, o_sha = bu_sha req,
               o_state = PREPARING, o_expires = now_ms app + 300000, o_max_expires = now_ms app + 3600000,
               o_epoch = (case snap of Some s \<Rightarrow> sr_content_epoch (sn_ref s) + 1 | None \<Rightarrow> 1),
               o_reserved = res, o_allocations = [], o_pages = [], o_sealed = None, o_result = None,
               o_locks = [], o_full_fence = None, o_policy = None, o_write = None\<rparr>
     in Inr (upload_plan app op, put_upload op tx)))))))"

text \<open>RF3: the operation holds a whole-file lock of five minutes.\<close>

definition access_BeginUpload :: "app \<Rightarrow> user_rec \<Rightarrow> session_rec \<Rightarrow> req_ctx \<Rightarrow> begin_upload_req \<Rightarrow> db \<Rightarrow>
    (upload_plan \<times> db) res" where
  "access_BeginUpload app user session cx req tx =
     bindr (base_BeginUpload app user session cx req tx) (\<lambda>(p, tx).
     deref (tget (uploads tx) (or_id (up_operation p))) (\<lambda>op.
     bindr (acquire app (o_id op) (o_file op) (s_id session) [] True True True tx) (\<lambda>(lock, tx).
     let lock = lock\<lparr>lk_deadline := clock_s app + 300, lk_active := [o_id op]\<rparr>;
         tx = put_lock lock tx;
         op = op\<lparr>o_locks := [lk_id lock], o_full_fence := Some (lock_message app lock)\<rparr>
     in Inr (p, put_upload op tx))))"

definition capture_policy :: "app \<Rightarrow> upload_rec \<Rightarrow> db \<Rightarrow> db res" where
  "capture_policy app op tx =
     bindr (policy app (o_file op) (o_base op = None) tx) (\<lambda>(p, tx).
     need (p_state p \<noteq> PROMOTING) LOCK_BUSY (
     Inr (put_upload (op\<lparr>o_policy := Some p\<rparr>) tx)))"

definition protection_BeginUpload :: "app \<Rightarrow> user_rec \<Rightarrow> session_rec \<Rightarrow> req_ctx \<Rightarrow> begin_upload_req \<Rightarrow> db \<Rightarrow>
    (upload_plan \<times> db) res" where
  "protection_BeginUpload app user session cx req tx =
     bindr (access_BeginUpload app user session cx req tx) (\<lambda>(r, tx).
     deref (tget (uploads tx) (or_id (up_operation r))) (\<lambda>op.
     bindr (capture_policy app op tx) (\<lambda>tx.
     bindr (policy app (up_file r) False tx) (\<lambda>(p, tx).
     Inr (r\<lparr>up_minimum := p_w p\<rparr>, tx)))))"

definition BeginUpload :: "app \<Rightarrow> user_rec \<Rightarrow> session_rec \<Rightarrow> req_ctx \<Rightarrow> begin_upload_req \<Rightarrow> db \<Rightarrow>
    (upload_plan \<times> db) res" where
  "BeginUpload app =
     (case profile app of
        REPLICATED \<Rightarrow> protection_BeginUpload app
      | RF3 \<Rightarrow> access_BeginUpload app
      | _ \<Rightarrow> base_BeginUpload app)"

section \<open>The operation check\<close>

definition base_operation :: "app \<Rightarrow> user_rec \<Rightarrow> session_rec \<Rightarrow> operation_ref \<Rightarrow> fence option \<Rightarrow> db \<Rightarrow> upload_rec res" where
  "base_operation app user session reference fence tx =
     need_some (tget (uploads tx) (or_id reference)) PERMISSION_DENIED (\<lambda>op.
     need (o_user op = u_id user \<and> o_session op = s_id session) PERMISSION_DENIED (
     need (reference = o_operation op) VERSION_CONFLICT (
     need (o_state op = PREPARING \<and> o_expires op > now_ms app) OPERATION_EXPIRED (
     need_some (tget (nodes tx) (o_parent op)) VERSION_CONFLICT (\<lambda>parent.
     need (n_alive parent) VERSION_CONFLICT (
     bindr (require app tx user parent 3) (\<lambda>_.
     bindr (if o_base op = None then Inr ()
            else need_some (tget (nodes tx) (o_file op)) VERSION_CONFLICT (\<lambda>node.
                 need (n_alive node \<and> n_snapshot node = o_base op) VERSION_CONFLICT (
                 require app tx user node 2))) (\<lambda>_.
     need (case fence of None \<Rightarrow> True
           | Some f \<Rightarrow> f_lock f = o_id op \<and> f_generation f = o_epoch op \<and> f_epoch f = sys_epoch app) LOCK_EXPIRED (
     Inr op)))))))))"

definition access_operation :: "app \<Rightarrow> user_rec \<Rightarrow> session_rec \<Rightarrow> operation_ref \<Rightarrow> fence option \<Rightarrow> db \<Rightarrow> upload_rec res" where
  "access_operation app user session reference fence tx =
     bindr (base_operation app user session reference fence tx) (\<lambda>op.
     need (o_write op = None) PERMISSION_DENIED (
     case o_full_fence op of
       None \<Rightarrow> Inr op
     | Some f \<Rightarrow> bindr (validate app tx (s_id session) f) (\<lambda>_. Inr op)))"

definition operation :: "app \<Rightarrow> user_rec \<Rightarrow> session_rec \<Rightarrow> operation_ref \<Rightarrow> fence option \<Rightarrow> db \<Rightarrow> upload_rec res" where
  "operation app = (if has_leases app then access_operation app else base_operation app)"

section \<open>Renewal, allocation, staging and sealing\<close>

definition base_RenewUpload :: "app \<Rightarrow> user_rec \<Rightarrow> session_rec \<Rightarrow> operation_ref \<Rightarrow> db \<Rightarrow> (upload_plan \<times> db) res" where
  "base_RenewUpload app user session reference tx =
     bindr (operation app user session reference None tx) (\<lambda>op.
     let op = op\<lparr>o_expires := min (now_ms app + 300000) (o_max_expires op)\<rparr>
     in Inr (upload_plan app op, put_upload op tx))"

definition access_RenewUpload :: "app \<Rightarrow> user_rec \<Rightarrow> session_rec \<Rightarrow> operation_ref \<Rightarrow> db \<Rightarrow> (upload_plan \<times> db) res" where
  "access_RenewUpload app user session reference tx =
     bindr (base_RenewUpload app user session reference tx) (\<lambda>(r, tx).
     deref (tget (uploads tx) (or_id reference)) (\<lambda>op.
     somer (o_full_fence op) KeyError (\<lambda>f.
     bindr (validate app tx (s_id session) f) (\<lambda>lock.
     let lock = lock\<lparr>lk_deadline := clock_s app + max 0 (of_int (o_expires op - now_ms app) / 1000)\<rparr>
     in Inr (r, put_lock lock tx)))))"

definition RenewUpload :: "app \<Rightarrow> user_rec \<Rightarrow> session_rec \<Rightarrow> operation_ref \<Rightarrow> db \<Rightarrow> (upload_plan \<times> db) res" where
  "RenewUpload app = (if has_leases app then access_RenewUpload app else base_RenewUpload app)"

definition block_span :: "upload_rec \<Rightarrow> int \<Rightarrow> int" where
  "block_span op index = min (o_block_size op) (o_total op - index * o_block_size op)"

definition allocate_one :: "app \<Rightarrow> user_rec \<Rightarrow> block_ref \<Rightarrow> upload_rec \<times> planned_block list \<times> db \<Rightarrow>
    (upload_rec \<times> planned_block list \<times> db) res" where
  "allocate_one app user requested = (\<lambda>(op, planned, tx).
     let index = br_index requested; sized = block_span op index in
     need (sized > 0 \<and> br_file requested = o_file op \<and> br_size requested = sized \<and>
           length (br_sha requested) = 32 \<and> br_version requested = []) INVALID_ARGUMENT (
     bindr (case map_of (o_allocations op) index of
              Some block \<Rightarrow>
                need (br_size block = sized \<and> br_sha block = br_sha requested) VERSION_CONFLICT (Inr (block, op, tx))
            | None \<Rightarrow>
                let (v, tx) = uid app tx;
                    block = \<lparr>br_file = o_file op, br_version = v, br_index = index, br_size = sized,
                             br_sha = br_sha requested\<rparr>
                in Inr (block, op\<lparr>o_allocations := dict_put index block (o_allocations op)\<rparr>, tx)) (\<lambda>(block, op, tx).
     bindr (plan app block user (op_binding op) False tx) (\<lambda>(p, tx).
     Inr (op, planned @ [p], tx)))))"

definition AllocateBlocks :: "app \<Rightarrow> user_rec \<Rightarrow> session_rec \<Rightarrow> operation_ref \<Rightarrow> fence \<Rightarrow> block_ref list \<Rightarrow> db \<Rightarrow>
    (block_plan \<times> db) res" where
  "AllocateBlocks app user session reference fence requested tx =
     bindr (operation app user session reference (Some fence) tx) (\<lambda>op.
     need (o_sealed op = None) VERSION_CONFLICT (
     need (1 \<le> length requested \<and> length requested \<le> 64) INVALID_ARGUMENT (
     bindr (foldr_res (allocate_one app user) requested (op, [], tx)) (\<lambda>(op, planned, tx).
     Inr (\<lparr>bp_blocks = planned, bp_cursor = '''', bp_snapshot = None\<rparr>, put_upload op tx)))))"

text \<open>\<open>message_bytes\<close> is the encoded size of the request.\<close>

definition StageManifestPage :: "app \<Rightarrow> user_rec \<Rightarrow> session_rec \<Rightarrow> operation_ref \<Rightarrow> fence \<Rightarrow> int \<Rightarrow> block_ref list \<Rightarrow>
    string \<Rightarrow> nat \<Rightarrow> db \<Rightarrow> (page_receipt \<times> db) res" where
  "StageManifestPage app user session reference fence page_index blks page_sha message_bytes tx =
     bindr (operation app user session reference (Some fence) tx) (\<lambda>op.
     need (o_sealed op = None) VERSION_CONFLICT (
     let count = block_count op; start = page_index * 64 in
     need (blks \<noteq> [] \<and> length blks \<le> 64 \<and> message_bytes \<le> 65536 \<and>
           int (length blks) = min 64 (count - start)) INVALID_ARGUMENT (
     bindr (map_res (\<lambda>(i, b). need (br_index b = i \<and> map_of (o_allocations op) i = Some b) VERSION_CONFLICT (
              need (tget (blocks tx) (br_version b) \<noteq> None) DATA_UNAVAILABLE (Inr ())))
              (zip (map (\<lambda>k. start + int k) [0..<length blks]) blks)) (\<lambda>_.
     need (manifest_hash app blks = page_sha) CHECKSUM_MISMATCH (
     Inr (\<lparr>pr_page = o_id op @ '':'' @ dec_int page_index, pr_sha = page_sha, pr_revision = 1\<rparr>,
          put_upload (op\<lparr>o_pages := dict_put page_index blks (o_pages op)\<rparr>) tx))))))"

definition SealManifest :: "app \<Rightarrow> user_rec \<Rightarrow> session_rec \<Rightarrow> operation_ref \<Rightarrow> fence \<Rightarrow> int \<Rightarrow> int \<Rightarrow> int \<Rightarrow> string \<Rightarrow> db \<Rightarrow>
    (page_receipt \<times> db) res" where
  "SealManifest app user session reference fence nblocks total_bytes npages sha tx =
     bindr (operation app user session reference (Some fence) tx) (\<lambda>op.
     bindr (manifest op) (\<lambda>blks.
     need (nblocks = int (length blks) \<and> total_bytes = o_total op \<and>
           npages = int (length (o_pages op)) \<and> sha = manifest_hash app blks) CHECKSUM_MISMATCH (
     need (map_of (verified_seals app) (o_id op) = Some sha) CHECKSUM_MISMATCH (
     let receipt = \<lparr>pr_page = o_id op, pr_sha = sha, pr_revision = 1\<rparr>
     in Inr (receipt, put_upload (op\<lparr>o_sealed := Some receipt\<rparr>) tx)))))"

section \<open>Commit and abort\<close>

definition base_CommitUpload :: "app \<Rightarrow> user_rec \<Rightarrow> session_rec \<Rightarrow> operation_ref \<Rightarrow> fence \<Rightarrow> page_receipt \<Rightarrow> db \<Rightarrow>
    (commit_result \<times> db) res" where
  "base_CommitUpload app user session reference fence seal tx =
     bindr (operation app user session reference (Some fence) tx) (\<lambda>op.
     need (o_sealed op = Some seal) VERSION_CONFLICT (
     bindr (manifest op) (\<lambda>blks.
     need (list_all (\<lambda>b. tget (blocks tx) (br_version b) \<noteq> None) blks) DATA_UNAVAILABLE (
     deref (tget (nodes tx) (o_parent op)) (\<lambda>parent.
     bindr (case (if o_base op = None then None else tget (nodes tx) (o_file op)) of
              Some node \<Rightarrow> Inr (node, tx)
            | None \<Rightarrow>
                need (\<not> list_ex (\<lambda>n. n_name n = o_name op) (children tx (n_id parent))) VERSION_CONFLICT (
                let (node, tx) = new_node app (o_name op) (Some (o_parent op)) (u_id user) False 384 tx
                in Inr (node\<lparr>n_id := o_file op, n_block_size := o_block_size op\<rparr>, tx))) (\<lambda>(node, tx).
     let (snapshot_id, tx) = uid app tx;
         ref = \<lparr>sr_file = o_file op, sr_content_epoch = o_epoch op, sr_file_version = o_epoch op,
                sr_root = snapshot_id, sr_size = o_total op, sr_manifest_sha = pr_sha seal,
                sr_file_sha = Some (o_sha op), sr_block_size = o_block_size op\<rparr>;
         tx = put_snapshot \<lparr>sn_id = snapshot_id, sn_file = o_file op, sn_ref = ref, sn_blocks = blks\<rparr> tx;
         (_, tx) = bump (node\<lparr>n_snapshot := Some snapshot_id\<rparr>) tx;
         (_, tx) = bump parent tx;
         r = \<lparr>cr_operation = reference, cr_state = COMMITTED, cr_snapshot = ref, cr_accepted = o_total op,
              cr_degraded = False, cr_target = 1, cr_minimum = 1\<rparr>;
         op = op\<lparr>o_state := COMMITTED, o_result := Some r, o_reserved := 0\<rparr>
     in Inr (r, put_upload op tx)))))))"

definition confirm_assigned :: "app \<Rightarrow> db \<Rightarrow> block_ref \<Rightarrow> unit res" where
  "confirm_assigned app tx b =
     (let a = tget (assignments tx) (br_version b);
          d = Option.bind a (\<lambda>a. tget (datanodes tx) (as_node a)) in
      need (serving app d \<and> (case (a, d) of
              (Some a, Some d) \<Rightarrow> bl_generation (dn_location d) = as_generation a | _ \<Rightarrow> False)) DATA_UNAVAILABLE (
      Inr ()))"

definition cluster_CommitUpload :: "app \<Rightarrow> user_rec \<Rightarrow> session_rec \<Rightarrow> operation_ref \<Rightarrow> fence \<Rightarrow> page_receipt \<Rightarrow> db \<Rightarrow>
    (commit_result \<times> db) res" where
  "cluster_CommitUpload app user session reference fence seal tx =
     bindr (operation app user session reference (Some fence) tx) (\<lambda>op.
     bindr (map_res (\<lambda>b. if profile app = REPLICATED then require_durable app op b tx else confirm_assigned app tx b)
              (map snd (o_allocations op))) (\<lambda>_.
     base_CommitUpload app user session reference fence seal tx))"

definition access_CommitUpload :: "app \<Rightarrow> user_rec \<Rightarrow> session_rec \<Rightarrow> operation_ref \<Rightarrow> fence \<Rightarrow> page_receipt \<Rightarrow> db \<Rightarrow>
    (commit_result \<times> db) res" where
  "access_CommitUpload app user session reference fence seal tx =
     deref (tget (uploads tx) (or_id reference)) (\<lambda>op0.
     let previous = Option.bind (o_base op0) (tget (snapshots tx)) in
     bindr (cluster_CommitUpload app user session reference fence seal tx) (\<lambda>(r, tx).
     let version = (case previous of Some s \<Rightarrow> sr_file_version (sn_ref s) + 1 | None \<Rightarrow> 1);
         r = r\<lparr>cr_snapshot := (cr_snapshot r)\<lparr>sr_file_version := version\<rparr>\<rparr> in
     deref (tget (snapshots tx) (sr_root (cr_snapshot r))) (\<lambda>snap.
     let tx = put_snapshot (snap\<lparr>sn_ref := cr_snapshot r\<rparr>) tx in
     deref (tget (uploads tx) (or_id reference)) (\<lambda>op.
     let op = op\<lparr>o_result := Some r\<rparr>;
         tx = put_upload op tx
     in Inr (r, release_operation op tx)))))"

definition protection_CommitUpload :: "app \<Rightarrow> user_rec \<Rightarrow> session_rec \<Rightarrow> operation_ref \<Rightarrow> fence \<Rightarrow> page_receipt \<Rightarrow> db \<Rightarrow>
    (commit_result \<times> db) res" where
  "protection_CommitUpload app user session reference fence seal tx =
     bindr (validate_policy app (tget (uploads tx) (or_id reference)) tx) (\<lambda>_.
     bindr (access_CommitUpload app user session reference fence seal tx) (\<lambda>(r, tx).
     deref (tget (uploads tx) (or_id reference)) (\<lambda>op. policy_result app op r tx)))"

definition CommitUpload :: "app \<Rightarrow> user_rec \<Rightarrow> session_rec \<Rightarrow> operation_ref \<Rightarrow> fence \<Rightarrow> page_receipt \<Rightarrow> db \<Rightarrow>
    (commit_result \<times> db) res" where
  "CommitUpload app =
     (case profile app of
        LOCAL \<Rightarrow> base_CommitUpload app
      | CLUSTER \<Rightarrow> cluster_CommitUpload app
      | RF3 \<Rightarrow> access_CommitUpload app
      | REPLICATED \<Rightarrow> protection_CommitUpload app)"

definition base_AbortUpload :: "user_rec \<Rightarrow> session_rec \<Rightarrow> req_ctx \<Rightarrow> operation_ref \<Rightarrow> db \<Rightarrow> (mutation_result \<times> db) res" where
  "base_AbortUpload user session cx reference tx =
     need_some (tget (uploads tx) (or_id reference)) PERMISSION_DENIED (\<lambda>op.
     need (o_user op = u_id user \<and> o_session op = s_id session) PERMISSION_DENIED (
     need (reference = o_operation op) VERSION_CONFLICT (
     need (o_state op \<noteq> COMMITTED) VERSION_CONFLICT (
     Inr (result cx 1, put_upload (abort_op op) tx)))))"

definition AbortUpload :: "app \<Rightarrow> user_rec \<Rightarrow> session_rec \<Rightarrow> req_ctx \<Rightarrow> operation_ref \<Rightarrow> db \<Rightarrow> (mutation_result \<times> db) res" where
  "AbortUpload app user session cx reference tx =
     bindr (base_AbortUpload user session cx reference tx) (\<lambda>(r, tx).
     if has_leases app
     then deref (tget (uploads tx) (or_id reference)) (\<lambda>op. Inr (r, release_operation op tx))
     else Inr (r, tx))"

end
