(* ===== verification/Publish.thy ===== *)
theory Publish
  imports Uploads
begin

text \<open>
  What an upload publishes. The lemmas reduce the commit of every profile to the one of the base
  class; the properties say what a successful commit does and that it keeps the name space sound.
\<close>

section \<open>The checks of an operation\<close>

lemma base_operation_Inr:
  assumes "base_operation app user session reference fence tx = Inr op"
  shows "tget (uploads tx) (or_id reference) = Some op" "o_user op = u_id user" "o_session op = s_id session"
    "reference = o_operation op" "o_state op = PREPARING" "o_expires op > now_ms app"
    "\<exists>parent. tget (nodes tx) (o_parent op) = Some parent \<and> n_alive parent \<and> require app tx user parent 3 = Inr ()"
    "o_base op \<noteq> None \<Longrightarrow> \<exists>node. tget (nodes tx) (o_file op) = Some node \<and> n_alive node \<and>
       n_snapshot node = o_base op \<and> require app tx user node 2 = Inr ()"
  using assms by (auto simp: base_operation_def run split: if_splits)

lemma operation_base:
  "operation app user session reference fence tx = Inr op \<Longrightarrow> base_operation app user session reference fence tx = Inr op"
  by (auto simp: operation_def access_operation_def run split: if_splits option.splits)

lemmas operation_Inr = base_operation_Inr [OF operation_base]

section \<open>The base commit\<close>

text \<open>
  The state after a commit, from the operation, its manifest, the directory, the file's node and the
  identifier of the new snapshot. Only the version number of the snapshot differs between the profiles.
\<close>

definition commit_post :: "app \<Rightarrow> user_rec \<Rightarrow> page_receipt \<Rightarrow> db \<Rightarrow> upload_rec \<Rightarrow> block_ref list \<Rightarrow> node_rec \<Rightarrow> node_rec \<Rightarrow>
    string \<Rightarrow> commit_result \<Rightarrow> db \<Rightarrow> bool" where
  "commit_post app user seal tx op blks parent node sid r tx' \<longleftrightarrow>
     o_sealed op = Some seal \<and> manifest op = Inr blks \<and>
     (\<forall>b \<in> set blks. tget (blocks tx) (br_version b) \<noteq> None) \<and> tget (nodes tx) (o_parent op) = Some parent \<and>
     (if o_base op = None
      then \<not> list_ex (\<lambda>n. n_name n = o_name op) (children tx (n_id parent)) \<and>
        node = (fst (new_node app (o_name op) (Some (o_parent op)) (u_id user) False 384 tx))\<lparr>n_id := o_file op, n_block_size := o_block_size op\<rparr> \<and>
        sid = uidgen app (Suc (uid_count tx)) \<and> uid_count tx' = Suc (Suc (uid_count tx))
      else tget (nodes tx) (o_file op) = Some node \<and> sid = uidgen app (uid_count tx) \<and> uid_count tx' = Suc (uid_count tx)) \<and>
     sr_file (cr_snapshot r) = o_file op \<and> sr_content_epoch (cr_snapshot r) = o_epoch op \<and> sr_root (cr_snapshot r) = sid \<and>
     sr_size (cr_snapshot r) = o_total op \<and> sr_manifest_sha (cr_snapshot r) = pr_sha seal \<and>
     sr_file_sha (cr_snapshot r) = Some (o_sha op) \<and> sr_block_size (cr_snapshot r) = o_block_size op \<and>
     cr_state r = COMMITTED \<and> cr_accepted r = o_total op \<and>
     snapshots tx' = tput sid \<lparr>sn_id = sid, sn_file = o_file op, sn_ref = cr_snapshot r, sn_blocks = blks\<rparr> (snapshots tx) \<and>
     nodes tx' = tput (n_id parent) (parent\<lparr>n_revision := n_revision parent + 1\<rparr>)
       (tput (n_id node) (node\<lparr>n_snapshot := Some sid, n_revision := n_revision node + 1\<rparr>) (nodes tx)) \<and>
     uploads tx' = tput (o_id op) (op\<lparr>o_state := COMMITTED, o_result := Some r, o_reserved := 0\<rparr>) (uploads tx)"

lemma base_CommitUpload_Inr:
  assumes "base_CommitUpload app user session reference fence seal tx = Inr (r, tx')"
  shows "\<exists>op blks parent node sid. operation app user session reference (Some fence) tx = Inr op \<and>
     commit_post app user seal tx op blks parent node sid r tx'"
proof -
  from assms obtain op blks parent where
    op: "operation app user session reference (Some fence) tx = Inr op" "o_sealed op = Some seal" "manifest op = Inr blks"
      "list_all (\<lambda>b. tget (blocks tx) (br_version b) \<noteq> None) blks" "tget (nodes tx) (o_parent op) = Some parent"
    by (auto simp: base_CommitUpload_def run)
  define ref where "ref sid = \<lparr>sr_file = o_file op, sr_content_epoch = o_epoch op, sr_file_version = o_epoch op,
    sr_root = sid, sr_size = o_total op, sr_manifest_sha = pr_sha seal, sr_file_sha = Some (o_sha op),
    sr_block_size = o_block_size op\<rparr>" for sid
  define out where "out sid = \<lparr>cr_operation = reference, cr_state = COMMITTED, cr_snapshot = ref sid,
    cr_accepted = o_total op, cr_degraded = False, cr_target = 1, cr_minimum = 1\<rparr>" for sid
  define after where "after node sid i = tx\<lparr>uid_count := i,
      snapshots := tput sid \<lparr>sn_id = sid, sn_file = o_file op, sn_ref = ref sid, sn_blocks = blks\<rparr> (snapshots tx),
      nodes := tput (n_id parent) (parent\<lparr>n_revision := n_revision parent + 1\<rparr>)
        (tput (n_id node) (node\<lparr>n_snapshot := Some sid, n_revision := n_revision node + 1\<rparr>) (nodes tx)),
      uploads := tput (o_id op) (op\<lparr>o_state := COMMITTED, o_result := Some (out sid), o_reserved := 0\<rparr>) (uploads tx)\<rparr>" for node sid i
  note defs = base_CommitUpload_def Let_def uid_def bump_def need_def guardr_def ref_def out_def after_def
  show ?thesis
  proof (cases "o_base op = None")
    case True
    let ?n = "(fst (new_node app (o_name op) (Some (o_parent op)) (u_id user) False 384 tx))\<lparr>n_id := o_file op, n_block_size := o_block_size op\<rparr>"
    let ?sid = "uidgen app (Suc (uid_count tx))"
    have free: "\<not> list_ex (\<lambda>n. n_name n = o_name op) (children tx (n_id parent))"
      using assms op True by (auto simp: base_CommitUpload_def)
    have "base_CommitUpload app user session reference fence seal tx = Inr (out ?sid, after ?n ?sid (Suc (Suc (uid_count tx))))"
      using op True free by (simp add: defs new_node_def case_prod_beta)
    with assms have "r = out ?sid \<and> tx' = after ?n ?sid (Suc (Suc (uid_count tx)))" by simp
    then show ?thesis
      using op True free by (intro exI [of _ op] exI [of _ blks] exI [of _ parent] exI [of _ ?n] exI [of _ ?sid])
        (simp add: commit_post_def out_def after_def ref_def list_all_iff)
  next
    case False
    then obtain node where node: "tget (nodes tx) (o_file op) = Some node" using operation_Inr(8) [OF op(1)] by blast
    from False obtain base where base: "o_base op = Some base" by blast
    let ?sid = "uidgen app (uid_count tx)"
    have "base_CommitUpload app user session reference fence seal tx = Inr (out ?sid, after node ?sid (Suc (uid_count tx)))"
      using op base node by (simp add: defs)
    with assms have "r = out ?sid \<and> tx' = after node ?sid (Suc (uid_count tx))" by simp
    then show ?thesis
      using op base node by (intro exI [of _ op] exI [of _ blks] exI [of _ parent] exI [of _ node] exI [of _ ?sid])
        (simp add: commit_post_def out_def after_def ref_def list_all_iff)
  qed
qed

section \<open>The commit of every profile\<close>

lemma cluster_CommitUpload_base:
  "cluster_CommitUpload app user session reference fence seal tx = Inr x \<Longrightarrow>
     base_CommitUpload app user session reference fence seal tx = Inr x"
  by (auto simp: cluster_CommitUpload_def run)

lemma result_then_reserved:
  "op\<lparr>o_state := st, o_reserved := n, o_result := x\<rparr> = op\<lparr>o_state := st, o_result := x, o_reserved := n\<rparr>"
  by (cases op) simp

lemma access_CommitUpload_Inr:
  assumes "access_CommitUpload app user session reference fence seal tx = Inr (r, tx')" and keyed: "keyed o_id (uploads tx)"
  shows "\<exists>op blks parent node sid. operation app user session reference (Some fence) tx = Inr op \<and>
     commit_post app user seal tx op blks parent node sid r tx'"
proof -
  from assms(1) obtain r1 tx1 v snap op1 where
    c: "cluster_CommitUpload app user session reference fence seal tx = Inr (r1, tx1)" and
    r: "r = r1\<lparr>cr_snapshot := (cr_snapshot r1)\<lparr>sr_file_version := v\<rparr>\<rparr>" and
    snap: "tget (snapshots tx1) (sr_root (cr_snapshot r)) = Some snap" and
    op1: "tget (uploads tx1) (or_id reference) = Some op1" and
    tx': "tx' = release_operation (op1\<lparr>o_result := Some r\<rparr>) (put_upload (op1\<lparr>o_result := Some r\<rparr>) (put_snapshot (snap\<lparr>sn_ref := cr_snapshot r\<rparr>) tx1))"
    by (auto simp: access_CommitUpload_def run Let_def)
  from base_CommitUpload_Inr [OF cluster_CommitUpload_base [OF c]] obtain op blks parent node sid where
    op: "operation app user session reference (Some fence) tx = Inr op" and
    post: "commit_post app user seal tx op blks parent node sid r1 tx1" by blast
  have id: "o_id op = or_id reference" using keyedD [OF keyed operation_Inr(1) [OF op]] .
  from post snap have snap': "snap = \<lparr>sn_id = sid, sn_file = o_file op, sn_ref = cr_snapshot r1, sn_blocks = blks\<rparr>"
    by (simp add: commit_post_def r)
  from post op1 have op1': "op1 = op\<lparr>o_state := COMMITTED, o_result := Some r1, o_reserved := 0\<rparr>"
    by (simp add: commit_post_def id)
  have "commit_post app user seal tx op blks parent node sid r tx'"
    using post unfolding commit_post_def by (simp add: tx' frame snap' op1' r tput_tput result_then_reserved)
  with op show ?thesis by blast
qed

lemma policy_result_Inr:
  assumes "policy_result app op r1 tx1 = Inr (r, tx')"
  shows "cr_snapshot r = cr_snapshot r1" "cr_state r = cr_state r1" "cr_accepted r = cr_accepted r1"
    "tx' = put_upload (op\<lparr>o_result := Some r\<rparr>) tx1"
  using assms by (auto simp: policy_result_def policy_def run Let_def split: option.splits)

lemma protection_CommitUpload_Inr:
  assumes "protection_CommitUpload app user session reference fence seal tx = Inr (r, tx')" and keyed: "keyed o_id (uploads tx)"
  shows "\<exists>op blks parent node sid. operation app user session reference (Some fence) tx = Inr op \<and>
     commit_post app user seal tx op blks parent node sid r tx'"
proof -
  from assms(1) obtain r1 tx1 op1 where
    a: "access_CommitUpload app user session reference fence seal tx = Inr (r1, tx1)" and
    op1: "tget (uploads tx1) (or_id reference) = Some op1" and p: "policy_result app op1 r1 tx1 = Inr (r, tx')"
    by (auto simp: protection_CommitUpload_def run)
  from access_CommitUpload_Inr [OF a keyed] obtain op blks parent node sid where
    op: "operation app user session reference (Some fence) tx = Inr op" and
    post: "commit_post app user seal tx op blks parent node sid r1 tx1" by blast
  have id: "o_id op = or_id reference" using keyedD [OF keyed operation_Inr(1) [OF op]] .
  from post op1 have op1': "op1 = op\<lparr>o_state := COMMITTED, o_result := Some r1, o_reserved := 0\<rparr>"
    by (simp add: commit_post_def id)
  have "commit_post app user seal tx op blks parent node sid r tx'"
    using post policy_result_Inr [OF p] unfolding commit_post_def by (simp add: op1' tput_tput result_then_reserved)
  with op show ?thesis by blast
qed

lemma CommitUpload_Inr:
  assumes "CommitUpload app user session reference fence seal tx = Inr (r, tx')" and "keyed o_id (uploads tx)"
  shows "\<exists>op blks parent node sid. operation app user session reference (Some fence) tx = Inr op \<and>
     commit_post app user seal tx op blks parent node sid r tx'"
  using assms base_CommitUpload_Inr cluster_CommitUpload_base access_CommitUpload_Inr protection_CommitUpload_Inr
  by (cases "profile app") (auto simp: CommitUpload_def)

section \<open>The name space after a commit\<close>

lemma commit_post_fs_ok:
  assumes ok: "fs_ok app tx" and op: "operation app user session reference (Some fence) tx = Inr op"
    and post: "commit_post app user seal tx op blks parent node sid r tx'"
  shows "fs_ok app tx'"
proof -
  from ok have tree: "tree_ok app tx" and pend: "pending_ok app tx" by (simp_all add: fs_ok_def)
  note facts = operation_Inr [OF op]
  have okop: "upload_ok app tx op" "o_id op = or_id reference" using pend facts(1) unfolding pending_ok_def by blast+
  obtain p: "tget (nodes tx) (o_parent op) = Some parent" "n_alive parent"
    using facts(7) post by (auto simp: commit_post_def)
  have pid: "n_id parent = o_parent op" using tree_okD(1) [OF tree p(1)] .
  have pdir: "depth_le tx 31 (n_id parent)" "name_fine (o_name op)" "issued app tx (o_file op)"
    using okop p by (auto simp: upload_ok_def pid)
  have stored: "stored tx parent" using p by (simp add: stored_def pid)
  have later: "uploads_later tx tx'"
    using post facts(1) okop(2) by (intro uploads_later_put [of _ "op\<lparr>o_state := COMMITTED, o_result := Some r, o_reserved := 0\<rparr>" _ op])
      (auto simp: commit_post_def op_later_def)
  have ids: "uid_count tx \<le> uid_count tx'" using post by (auto simp: commit_post_def split: if_splits)
  show ?thesis
  proof (cases "o_base op = None")
    case True
    then have free: "tget (nodes tx) (o_file op) = None" using okop(1) facts(5) by (simp add: upload_ok_def)
    have dir: "n_directory parent" using okop(1) p(1) True by (simp add: upload_ok_def)
    let ?n = "node\<lparr>n_snapshot := Some sid, n_revision := n_revision node + 1\<rparr>"
    have n: "n_id ?n = o_file op" "n_parent ?n = Some (n_id parent)" "n_name ?n = o_name op"
      using post True by (auto simp: commit_post_def pid)
    have "issued app tx' (o_file op)" using pdir(3) ids by (rule issued_mono)
    then have add: "tree_ok app tx'" "extends tx tx'"
      using tree_ok_add_child [OF tree stored _ pdir(1), of ?n tx' "n_revision parent + 1"] post True free n dir pdir(2) ids
      by (auto simp: commit_post_def)
    have "pending_ok app tx'"
    proof (rule pending_ok_step [OF pend add(2) ids later])
      fix k j b
      assume k: "tget (nodes tx) k = None" "tget (nodes tx') k \<noteq> None" and
        b: "tget (uploads tx') j = Some b" "o_file b = k" "o_base b = None"
      have "k = o_file op" using k post n(1) p(1) pid by (auto simp: commit_post_def split: if_splits)
      with b have same: "o_file b = o_file op" by simp
      show "o_state b \<noteq> PREPARING"
      proof (cases "j = o_id op")
        case True
        with b(1) post show ?thesis by (auto simp: commit_post_def)
      next
        case False
        with b(1) post have "tget (uploads tx) j = Some b" by (auto simp: commit_post_def)
        with pend facts(1) same b(3) True False okop(2) show ?thesis unfolding pending_ok_def by metis
      qed
    qed
    with add(1) show ?thesis by (simp add: fs_ok_def)
  next
    case False
    then have node: "tget (nodes tx) (o_file op) = Some node" using post by (auto simp: commit_post_def)
    have nid: "n_id node = o_file op" using tree_okD(1) [OF tree node] .
    have npar: "n_parent node = Some (n_id parent)" using okop(1) False node by (auto simp: upload_ok_def pid)
    let ?n = "node\<lparr>n_snapshot := Some sid, n_revision := n_revision node + 1\<rparr>"
    let ?mid = "tx\<lparr>nodes := tput (n_id node) ?n (nodes tx)\<rparr>"
    have same: "uploads_later tx ?mid" by (rule uploads_later_same) simp
    have mid: "fs_ok app ?mid"
      by (rule fs_ok_touch [OF ok _ _ _ _ _ _ _ same, of node ?n]) (use node nid npar in simp_all)
    have ne: "n_id parent \<noteq> n_id node"
      using no_own_parent [OF _ _ tree_okD(3) [OF tree node]] node npar nid by auto
    have late: "uploads_later ?mid tx'" using later by (simp add: uploads_later_def)
    have nodes': "nodes tx' = tput (n_id parent) (parent\<lparr>n_revision := n_revision parent + 1\<rparr>) (nodes ?mid)"
      using post by (simp add: commit_post_def)
    show ?thesis
      by (rule fs_ok_touch [OF mid _ _ _ _ _ _ _ late, of parent "parent\<lparr>n_revision := n_revision parent + 1\<rparr>"])
         (use p(1) pid ne nodes' ids in simp_all)
  qed
qed

lemma CommitUpload_fs_ok:
  assumes "fs_ok app tx" and "CommitUpload app user session reference fence seal tx = Inr (r, tx')"
  shows "fs_ok app tx'"
  using CommitUpload_Inr [OF assms(2)] commit_post_fs_ok [OF assms(1)] assms(1) pending_ok_keyed
  by (auto simp: fs_ok_def)

end
