(* ===== verification/Files.thy ===== *)
theory Files
  imports Uploads
begin

text \<open>
  Open files, reads, range locks and writes in place (\<^verbatim>\<open>Open\<close>, \<^verbatim>\<open>RenewHandle\<close> and \<^verbatim>\<open>Close\<close> of
  \<^verbatim>\<open>src/src/dfsha/control/commands.py\<close>; all of \<^verbatim>\<open>access.py\<close> and the write overrides of
  \<^verbatim>\<open>replication.py\<close>).

  A write names the blocks it changes, holds locks on them and replaces them by new block
  versions; \<^verbatim>\<open>CommitWrite\<close> publishes a new snapshot. Cursors of \<^verbatim>\<open>ResolveBlocks\<close> are the parsed
  number, \<open>None\<close> when the text is not a number. Block sizes of stored snapshots are
  positive; a quotient by zero, which the program would raise on, does not occur.
\<close>

section \<open>Handles\<close>

definition READ_MODES :: "open_mode list" where
  "READ_MODES = [MODE_R, MODE_R_PLUS, MODE_W_PLUS, MODE_X_PLUS]"

definition WRITE_MODES :: "open_mode list" where
  "WRITE_MODES = [MODE_R_PLUS, MODE_W, MODE_W_PLUS, MODE_X, MODE_X_PLUS]"

definition handle_message :: "app \<Rightarrow> db \<Rightarrow> handle_rec \<Rightarrow> handle_msg res" where
  "handle_message app tx h =
     deref (Option.bind (h_snapshot h) (tget (snapshots tx))) (\<lambda>snap.
     Inr \<lparr>hm_id = h_id h, hm_snapshot = sn_ref snap, hm_mode = h_mode h,
          hm_expires = (if has_leases app then expiry_hint app h else h_expires h), hm_revision = h_revision h\<rparr>)"

text \<open>The loop that records the ancestors of an opened node.\<close>

fun ancestors :: "db \<Rightarrow> nat \<Rightarrow> string option \<Rightarrow> string list res" where
  "ancestors tx fuel None = Inr []"
| "ancestors tx 0 (Some p) = Inl OutOfFuel"
| "ancestors tx (Suc fuel) (Some p) =
     deref (tget (nodes tx) p) (\<lambda>n. bindr (ancestors tx fuel (n_parent n)) (\<lambda>ps. Inr (p # ps)))"

definition ancestor_fuel :: "db \<Rightarrow> nat" where
  "ancestor_fuel tx = 33 + length (tkeys (nodes tx))"

definition fresh_handle :: "user_rec \<Rightarrow> session_rec \<Rightarrow> node_rec \<Rightarrow> string list \<Rightarrow> open_mode \<Rightarrow> string \<Rightarrow> handle_rec" where
  "fresh_handle user session node anc mode i =
     \<lparr>h_id = i, h_file = n_id node, h_snapshot = n_snapshot node, h_user = u_id user, h_session = s_id session,
      h_expires = 0, h_revision = 1, h_closed = False, h_ancestors = anc, h_mode = mode, h_busy = None,
      h_epoch = '''', h_deadline = 0, h_maximum = 0\<rparr>"

definition local_Open :: "app \<Rightarrow> user_rec \<Rightarrow> session_rec \<Rightarrow> path_ref \<Rightarrow> open_mode \<Rightarrow> db \<Rightarrow> (handle_msg \<times> db) res" where
  "local_Open app user session path mode tx =
     need (mode = MODE_R) UNSUPPORTED_MODE (
     bindr (resolve app tx user path) (\<lambda>node.
     need (\<not> n_directory node) IS_DIRECTORY (
     bindr (require app tx user node 4) (\<lambda>_.
     bindr (ancestors tx (ancestor_fuel tx) (n_parent node)) (\<lambda>anc.
     let (i, tx) = uid app tx;
         h = (fresh_handle user session node anc MODE_R i)\<lparr>h_expires := now_ms app + 300000\<rparr>;
         tx = put_handle h tx
     in bindr (handle_message app tx h) (\<lambda>m. Inr (m, tx)))))))"

definition access_handle :: "app \<Rightarrow> db \<Rightarrow> user_rec \<Rightarrow> session_rec \<Rightarrow> string \<Rightarrow> (handle_rec \<times> snapshot_rec) res" where
  "access_handle app tx user session identity =
     need_some (tget (handles tx) identity) STALE_HANDLE (\<lambda>h.
     need (h_user h = u_id user \<and> h_session h = s_id session \<and> \<not> h_closed h \<and> handle_live app h) STALE_HANDLE (
     deref (tget (nodes tx) (h_file h)) (\<lambda>node.
     bindr (require app tx user node (if h_mode h \<in> set READ_MODES then 4 else 2)) (\<lambda>_.
     bindr (require_ancestors app tx user (h_ancestors h)) (\<lambda>_.
     need_some (Option.bind (h_snapshot h) (tget (snapshots tx))) STALE_HANDLE (\<lambda>snap.
     Inr (h, snap)))))))"

definition writable :: "app \<Rightarrow> db \<Rightarrow> user_rec \<Rightarrow> session_rec \<Rightarrow> string \<Rightarrow>
    (handle_rec \<times> snapshot_rec \<times> node_rec \<times> snapshot_rec) res" where
  "writable app tx user session identity =
     bindr (access_handle app tx user session identity) (\<lambda>(h, snap).
     need (h_mode h \<in> set WRITE_MODES) PERMISSION_DENIED (
     deref (tget (nodes tx) (h_file h)) (\<lambda>node.
     bindr (require app tx user node 2) (\<lambda>_.
     let current = Option.bind (n_snapshot node) (tget (snapshots tx)) in
     need (n_alive node) VERSION_CONFLICT (
     deref current (\<lambda>cur.
     need (sr_content_epoch (sn_ref cur) = sr_content_epoch (sn_ref snap)) VERSION_CONFLICT (
     Inr (h, snap, node, cur))))))))"

definition resolve_opt :: "app \<Rightarrow> db \<Rightarrow> user_rec \<Rightarrow> path_ref \<Rightarrow> node_rec option res" where
  "resolve_opt app tx user path =
     (case resolve app tx user path of
        Inr n \<Rightarrow> Inr (Some n)
      | Inl e \<Rightarrow> if e = Fault NOT_FOUND then Inr None else Inl e)"

definition handle_quota :: "app \<Rightarrow> db \<Rightarrow> user_rec \<Rightarrow> bool" where
  "handle_quota app tx user \<longleftrightarrow>
     (let active = filter (\<lambda>h. \<not> h_closed h \<and> handle_live app h) (tall (handles tx)) in
      \<not> protected_store app \<or>
      length active < 512 \<and> length (filter (\<lambda>h. h_user h = u_id user) active) < 32)"

text \<open>The part of \<^verbatim>\<open>Open\<close> for the modes that create or truncate.\<close>

definition open_existing :: "app \<Rightarrow> user_rec \<Rightarrow> session_rec \<Rightarrow> open_mode \<Rightarrow> node_rec \<Rightarrow> db \<Rightarrow>
    (node_rec \<times> int \<times> int \<times> db) res" where
  "open_existing app user session mode n tx =
     need (\<not> n_directory n) IS_DIRECTORY (
     bindr (require app tx user n (if mode \<in> set READ_MODES then 6 else 2)) (\<lambda>_.
     let old = Option.bind (n_snapshot n) (tget (snapshots tx));
         (owner, tx) = uid app tx
     in bindr (acquire app owner (n_id n) (s_id session) [] True True True tx) (\<lambda>(lock, tx).
        let tx = tx\<lparr>locks := tdel (lk_id lock) (locks tx)\<rparr> in
        deref old (\<lambda>s. Inr (n, sr_content_epoch (sn_ref s) + 1, sr_file_version (sn_ref s) + 1, tx)))))"

definition open_create :: "app \<Rightarrow> user_rec \<Rightarrow> session_rec \<Rightarrow> path_ref \<Rightarrow> open_mode \<Rightarrow> db \<Rightarrow> (node_rec \<times> db) res" where
  "open_create app user session path mode tx =
     bindr (resolve_opt app tx user path) (\<lambda>existing.
     bindr (case existing of
              None \<Rightarrow> bindr (parent_of app tx user path) (\<lambda>(p, name). Inr (Some p, name))
            | Some n \<Rightarrow> Inr (Option.bind (n_parent n) (tget (nodes tx)), n_name n)) (\<lambda>(parent0, name).
     need (existing = None \<or> mode \<notin> {MODE_X, MODE_X_PLUS}) ALREADY_EXISTS (
     deref parent0 (\<lambda>parent.
     need (\<not> reserved app tx (n_id parent) name) LOCK_BUSY (
     bindr (case existing of
              Some n \<Rightarrow> open_existing app user session mode n tx
            | None \<Rightarrow>
                let (n, tx) = new_node app name (Some (n_id parent)) (u_id user) False 384 tx
                in Inr (n\<lparr>n_block_size := block_size_bytes app\<rparr>, 1, 1, tx)) (\<lambda>(n, epoch, version, tx).
     let (root, tx) = uid app tx;
         ref = \<lparr>sr_file = n_id n, sr_content_epoch = epoch, sr_file_version = version, sr_root = root,
                sr_size = 0, sr_manifest_sha = manifest_hash app [], sr_file_sha = Some (sha256 app ''''),
                sr_block_size = n_block_size n\<rparr>;
         tx = put_snapshot \<lparr>sn_id = root, sn_file = n_id n, sn_ref = ref, sn_blocks = []\<rparr> tx;
         (n, tx) = bump (n\<lparr>n_snapshot := Some root\<rparr>) tx;
         (_, tx) = bump parent tx
     in Inr (n, tx)))))))"

definition access_Open :: "app \<Rightarrow> user_rec \<Rightarrow> session_rec \<Rightarrow> path_ref \<Rightarrow> open_mode \<Rightarrow> db \<Rightarrow> (handle_msg \<times> db) res" where
  "access_Open app user session path mode tx =
     need (mode \<in> set READ_MODES \<union> set WRITE_MODES) UNSUPPORTED_MODE (
     need (handle_quota app tx user) LIMIT_EXCEEDED (
     bindr (if mode \<in> {MODE_W, MODE_W_PLUS, MODE_X, MODE_X_PLUS}
            then open_create app user session path mode tx
            else bindr (resolve app tx user path) (\<lambda>n.
                 need (\<not> n_directory n) IS_DIRECTORY (
                 bindr (require app tx user n (if mode = MODE_R_PLUS then 6 else 4)) (\<lambda>_. Inr (n, tx))))) (\<lambda>(node, tx).
     bindr (ancestors tx (ancestor_fuel tx) (n_parent node)) (\<lambda>anc.
     let (i, tx) = uid app tx;
         h = refresh_handle app True (fresh_handle user session node anc mode i);
         tx = put_handle h tx
     in bindr (handle_message app tx h) (\<lambda>m. Inr (m, tx))))))"

definition protection_Open :: "app \<Rightarrow> user_rec \<Rightarrow> session_rec \<Rightarrow> path_ref \<Rightarrow> open_mode \<Rightarrow> db \<Rightarrow> (handle_msg \<times> db) res" where
  "protection_Open app user session path mode tx =
     bindr (if mode \<in> set WRITE_MODES
            then bindr (resolve_opt app tx user path) (\<lambda>existing.
                 case existing of
                   None \<Rightarrow> Inr ()
                 | Some n \<Rightarrow> bindr (policy app (n_id n) False tx) (\<lambda>(p, _). need (p_state p \<noteq> PROMOTING) LOCK_BUSY (Inr ())))
            else Inr ()) (\<lambda>_.
     bindr (access_Open app user session path mode tx) (\<lambda>(r, tx).
     bindr (policy app (sr_file (hm_snapshot r)) True tx) (\<lambda>(_, tx). Inr (r, tx))))"

definition Open :: "app \<Rightarrow> user_rec \<Rightarrow> session_rec \<Rightarrow> path_ref \<Rightarrow> open_mode \<Rightarrow> db \<Rightarrow> (handle_msg \<times> db) res" where
  "Open app =
     (case profile app of
        REPLICATED \<Rightarrow> protection_Open app
      | RF3 \<Rightarrow> access_Open app
      | _ \<Rightarrow> local_Open app)"

definition local_RenewHandle :: "app \<Rightarrow> user_rec \<Rightarrow> session_rec \<Rightarrow> string \<Rightarrow> int \<Rightarrow> db \<Rightarrow> (handle_msg \<times> db) res" where
  "local_RenewHandle app user session handle_id expected tx =
     bindr (local_handle app tx user session handle_id) (\<lambda>(h, _).
     need (h_revision h = expected) VERSION_CONFLICT (
     let h = h\<lparr>h_expires := now_ms app + 300000, h_revision := h_revision h + 1\<rparr>;
         tx = put_handle h tx
     in bindr (handle_message app tx h) (\<lambda>m. Inr (m, tx))))"

definition access_RenewHandle :: "app \<Rightarrow> user_rec \<Rightarrow> session_rec \<Rightarrow> string \<Rightarrow> db \<Rightarrow> (handle_msg \<times> db) res" where
  "access_RenewHandle app user session handle_id tx =
     bindr (access_handle app tx user session handle_id) (\<lambda>(h, _).
     let h = refresh_handle app False h;
         tx = put_handle h tx;
         tx = (case Option.bind (h_busy h) (tget (uploads tx)) of
                 None \<Rightarrow> tx
               | Some op \<Rightarrow> if o_write op \<noteq> None \<and> o_state op = PREPARING
                            then put_upload (op\<lparr>o_expires := h_expires h\<rparr>) tx else tx)
     in bindr (handle_message app tx h) (\<lambda>m. Inr (m, tx)))"

definition RenewHandle :: "app \<Rightarrow> user_rec \<Rightarrow> session_rec \<Rightarrow> string \<Rightarrow> int \<Rightarrow> db \<Rightarrow> (handle_msg \<times> db) res" where
  "RenewHandle app user session handle_id expected tx =
     (if has_leases app then access_RenewHandle app user session handle_id tx
      else local_RenewHandle app user session handle_id expected tx)"

definition local_Close :: "user_rec \<Rightarrow> session_rec \<Rightarrow> req_ctx \<Rightarrow> string \<Rightarrow> int \<Rightarrow> db \<Rightarrow> (mutation_result \<times> db) res" where
  "local_Close user session cx handle_id expected tx =
     need_some (tget (handles tx) handle_id) STALE_HANDLE (\<lambda>h.
     need (h_user h = u_id user \<and> h_session h = s_id session) STALE_HANDLE (
     need (h_revision h = expected) VERSION_CONFLICT (
     let h = h\<lparr>h_closed := True, h_revision := h_revision h + 1\<rparr>
     in Inr (result cx (h_revision h), put_handle h tx))))"

definition drop_locks :: "string \<Rightarrow> string \<Rightarrow> db \<Rightarrow> db" where
  "drop_locks handle session tx =
     fold (\<lambda>l tx. if lk_handle l = handle \<and> lk_session l = session
                  then tx\<lparr>locks := tdel (lk_id l) (locks tx)\<rparr> else tx) (tall (locks tx)) tx"

definition access_Close :: "user_rec \<Rightarrow> session_rec \<Rightarrow> req_ctx \<Rightarrow> string \<Rightarrow> db \<Rightarrow> (mutation_result \<times> db) res" where
  "access_Close user session cx handle_id tx =
     need_some (tget (handles tx) handle_id) STALE_HANDLE (\<lambda>h.
     need (h_user h = u_id user \<and> h_session h = s_id session) STALE_HANDLE (
     if h_closed h then Inr (result cx (h_revision h), tx)
     else need (h_busy h = None) HANDLE_BUSY (
       let h = h\<lparr>h_closed := True, h_revision := h_revision h + 1\<rparr>;
           tx = drop_locks (h_id h) (s_id session) (put_handle h tx)
       in Inr (result cx (h_revision h), tx))))"

definition Close :: "app \<Rightarrow> user_rec \<Rightarrow> session_rec \<Rightarrow> req_ctx \<Rightarrow> string \<Rightarrow> int \<Rightarrow> db \<Rightarrow> (mutation_result \<times> db) res" where
  "Close app user session cx handle_id expected tx =
     (if has_leases app then access_Close user session cx handle_id tx
      else local_Close user session cx handle_id expected tx)"

section \<open>Reads\<close>

definition validate_read :: "db \<Rightarrow> handle_rec \<Rightarrow> string \<Rightarrow> int \<Rightarrow> int \<Rightarrow> read_rec res" where
  "validate_read tx h identity offset len =
     bindr (checked_range offset len None) (\<lambda>stop.
     need_some (tget (reads tx) identity) HANDLE_BUSY (\<lambda>r.
     need (rd_handle r = h_id h \<and> rd_session r = h_session h \<and> h_busy h = Some identity \<and> \<not> rd_closed r) HANDLE_BUSY (
     need (rd_offset r \<le> offset \<and> stop \<le> rd_offset r + rd_length r) PERMISSION_DENIED (
     Inr r))))"

record read_lease =
  rl_id :: string
  rl_snapshot :: snapshot_ref
  rl_expires :: int

definition BeginRead :: "app \<Rightarrow> user_rec \<Rightarrow> session_rec \<Rightarrow> string \<Rightarrow> snapshot_ref \<Rightarrow> int \<Rightarrow> int \<Rightarrow> db \<Rightarrow> (read_lease \<times> db) res" where
  "BeginRead app user session handle_id ref offset len tx =
     bindr (access_handle app tx user session handle_id) (\<lambda>(h, snap).
     need (h_mode h \<in> set READ_MODES) PERMISSION_DENIED (
     need (h_busy h = None) HANDLE_BUSY (
     need (ref = sn_ref snap) VERSION_CONFLICT (
     bindr (checked_range offset len None) (\<lambda>_.
     let (i, tx) = uid app tx;
         tx = tx\<lparr>reads := tput i \<lparr>rd_id = i, rd_handle = h_id h, rd_session = s_id session, rd_offset = offset,
                rd_length = len, rd_closed = False\<rparr> (reads tx)\<rparr>;
         tx = put_handle (h\<lparr>h_busy := Some i\<rparr>) tx
     in Inr (\<lparr>rl_id = i, rl_snapshot = ref, rl_expires = h_expires h\<rparr>, tx))))))"

definition EndRead :: "user_rec \<Rightarrow> session_rec \<Rightarrow> req_ctx \<Rightarrow> string \<Rightarrow> string \<Rightarrow> db \<Rightarrow> (mutation_result \<times> db) res" where
  "EndRead user session cx handle_id read_id tx =
     need_some (tget (handles tx) handle_id) PERMISSION_DENIED (\<lambda>h.
     need_some (tget (reads tx) read_id) PERMISSION_DENIED (\<lambda>r.
     need (rd_handle r = h_id h \<and> rd_session r = s_id session \<and> h_user h = u_id user) PERMISSION_DENIED (
     let tx = tx\<lparr>reads := tput (rd_id r) (r\<lparr>rd_closed := True\<rparr>) (reads tx)\<rparr>;
         tx = (if h_busy h = Some (rd_id r) then put_handle (h\<lparr>h_busy := None\<rparr>) tx else tx)
     in Inr (result cx 1, tx))))"

definition slice :: "'a list \<Rightarrow> int \<Rightarrow> int \<Rightarrow> 'a list" where
  "slice xs a b = take (nat (b - a)) (drop (nat a) xs)"

definition local_ResolveBlocks :: "app \<Rightarrow> user_rec \<Rightarrow> session_rec \<Rightarrow> string \<Rightarrow> snapshot_ref \<Rightarrow> int option \<Rightarrow> int option \<Rightarrow>
    int \<Rightarrow> int option \<Rightarrow> db \<Rightarrow> block_plan res" where
  "local_ResolveBlocks app user session handle_id ref offset0 len0 limit cursor tx =
     bindr (local_handle app tx user session handle_id) (\<lambda>(h, snap0).
     deref snap0 (\<lambda>snap.
     need (ref = sn_ref snap) VERSION_CONFLICT (
     need (1 \<le> limit \<and> limit \<le> 64) INVALID_ARGUMENT (
     let offset = (case offset0 of Some o' \<Rightarrow> o' | None \<Rightarrow> 0);
         ttl = sr_size (sn_ref snap);
         len = (case len0 of Some l \<Rightarrow> l | None \<Rightarrow> ttl - offset)
     in need (offset \<le> ttl \<and> offset + len \<le> ttl) INVALID_ARGUMENT (
        need_some cursor INVALID_ARGUMENT (\<lambda>index.
        let sized = sr_block_size (sn_ref snap);
            blks = filter (\<lambda>b. br_index b * sized < offset + len \<and> br_index b * sized + br_size b > offset) (sn_blocks snap)
        in need (0 \<le> index \<and> index \<le> int (length blks)) INVALID_ARGUMENT (
           let selected = slice blks index (index + limit);
               next_index = index + int (length selected)
           in bindr (map_res (\<lambda>b. plan app b user (handle_binding h) True tx) selected) (\<lambda>ps.
              Inr \<lparr>bp_blocks = map fst ps,
                   bp_cursor = (if next_index < int (length blks) then dec_int next_index else ''''),
                   bp_snapshot = Some ref\<rparr>))))))))"

text \<open>A read grant is narrowed to the requested bytes of its block and re-signed.\<close>

definition narrow_grant :: "app \<Rightarrow> db \<Rightarrow> user_rec \<Rightarrow> handle_rec \<Rightarrow> block_ref \<Rightarrow> string \<Rightarrow> int \<Rightarrow> int \<Rightarrow> block_grant \<Rightarrow> block_grant res" where
  "narrow_grant app tx user h block read_id low high g =
     deref (tget (datanodes tx) (bg_node g)) (\<lambda>d.
     Inr (g\<lparr>bg_offset := low, bg_length := high - low,
            bg_capability := cluster_capability app user (handle_binding h) block d
              (join '':'' [''read'', dec_int low, dec_int (high - low), read_id])\<rparr>))"

definition access_ResolveBlocks :: "app \<Rightarrow> user_rec \<Rightarrow> session_rec \<Rightarrow> string \<Rightarrow> string \<Rightarrow> snapshot_ref \<Rightarrow> int option \<Rightarrow> int option \<Rightarrow>
    int \<Rightarrow> int option \<Rightarrow> db \<Rightarrow> block_plan res" where
  "access_ResolveBlocks app user session handle_id read_id ref offset0 len0 limit cursor0 tx =
     bindr (access_handle app tx user session handle_id) (\<lambda>(h, snap).
     need (h_mode h \<in> set READ_MODES) PERMISSION_DENIED (
     need (h_busy h = None \<or> h_busy h = Some read_id) HANDLE_BUSY (
     bindr (if read_id = [] then Inr ()
            else bindr (validate_read tx h read_id (case offset0 of Some x \<Rightarrow> x | None \<Rightarrow> 0)
                          (case len0 of Some x \<Rightarrow> x | None \<Rightarrow> 0)) (\<lambda>_. Inr ())) (\<lambda>_.
     need (ref = sn_ref snap) VERSION_CONFLICT (
     let offset = (case offset0 of Some x \<Rightarrow> x | None \<Rightarrow> 0);
         len = (case len0 of Some x \<Rightarrow> x | None \<Rightarrow> max 0 (sr_size ref - offset))
     in bindr (checked_range offset len None) (\<lambda>stop.
        let fin = min stop (sr_size ref) in
        need (1 \<le> limit \<and> limit \<le> 64) INVALID_ARGUMENT (
        need_some cursor0 INVALID_ARGUMENT (\<lambda>cursor.
        let sized = sr_block_size ref;
            start_index = offset div sized;
            stop_index = (if len \<noteq> 0 \<and> offset < fin then ceil_div fin sized else start_index)
        in need (0 \<le> cursor \<and> cursor \<le> max 0 (stop_index - start_index)) INVALID_ARGUMENT (
           let selected = slice (sn_blocks snap) (start_index + cursor) (min stop_index (start_index + cursor + limit))
           in bindr (map_res (\<lambda>b.
                bindr (plan app b user (handle_binding h) True tx) (\<lambda>(p, _).
                let low = max 0 (offset - br_index b * sized);
                    high = min (br_size b) (fin - br_index b * sized)
                in bindr (map_res (narrow_grant app tx user h b read_id low high) (pb_grants p)) (\<lambda>gs.
                   Inr (p\<lparr>pb_grants := gs\<rparr>)))) selected) (\<lambda>planned.
              let next_index = cursor + int (length planned) in
              Inr \<lparr>bp_blocks = planned,
                   bp_cursor = (if start_index + next_index < stop_index then dec_int next_index else ''''),
                   bp_snapshot = Some ref\<rparr>))))))))))"

end
