(* ===== verification/Writes.thy ===== *)
theory Writes
  imports Files
begin

text \<open>
  Locks and writes in place: \<^verbatim>\<open>Lock\<close>, \<^verbatim>\<open>RenewLock\<close>, \<^verbatim>\<open>Unlock\<close>, \<^verbatim>\<open>BeginWrite\<close>, \<^verbatim>\<open>CommitWrite\<close> and
  \<^verbatim>\<open>AbortWrite\<close> of \<^verbatim>\<open>src/src/dfsha/control/access.py\<close> with the overrides of \<^verbatim>\<open>replication.py\<close>.
  The loops of \<^verbatim>\<open>BeginWrite\<close> and \<^verbatim>\<open>CommitWrite\<close> are definitions of their own, named after what they do.
\<close>

section \<open>Locks\<close>

definition index_range :: "int \<Rightarrow> int \<Rightarrow> int list" where
  "index_range low high = map (\<lambda>k. low + int k) [0..<nat (high - low)]"

definition Lock :: "app \<Rightarrow> user_rec \<Rightarrow> session_rec \<Rightarrow> string \<Rightarrow> bool \<Rightarrow> int option \<Rightarrow> int option \<Rightarrow> int \<Rightarrow> db \<Rightarrow>
    (fence \<times> db) res" where
  "Lock app user session handle_id whole offset0 len0 wait_ms tx =
     bindr (writable app tx user session handle_id) (\<lambda>(h, snap, _, _).
     need (h_busy h = None) HANDLE_BUSY (
     need (wait_ms \<le> 5000) INVALID_ARGUMENT (
     bindr (if whole then need (offset0 = None \<and> len0 = None) INVALID_ARGUMENT (Inr [])
            else (case (offset0, len0) of
                (Some offset, Some len) \<Rightarrow>
                  need (len > 0) INVALID_ARGUMENT (
                  bindr (checked_range offset len (Some MAX_DELTA)) (\<lambda>stop.
                  let sized = sr_block_size (sn_ref snap) in
                  Inr (index_range (offset div sized) ((stop - 1) div sized + 1))))
              | _ \<Rightarrow> Inl (Fault INVALID_ARGUMENT))) (\<lambda>indices.
     bindr (acquire app (h_id h) (h_file h) (h_session h) indices whole whole False tx) (\<lambda>(l, tx).
     Inr (lock_message app l, tx))))))"

definition RenewLock :: "app \<Rightarrow> user_rec \<Rightarrow> session_rec \<Rightarrow> fence \<Rightarrow> db \<Rightarrow> (fence \<times> db) res" where
  "RenewLock app user session f tx =
     bindr (writable app tx user session (f_handle f)) (\<lambda>_.
     bindr (validate app tx (s_id session) f) (\<lambda>l.
     let l = l\<lparr>lk_deadline := clock_s app + lock_seconds app\<rparr>
     in Inr (lock_message app l, put_lock l tx)))"

definition Unlock :: "app \<Rightarrow> session_rec \<Rightarrow> req_ctx \<Rightarrow> fence \<Rightarrow> db \<Rightarrow> (mutation_result \<times> db) res" where
  "Unlock app session cx f tx =
     bindr (validate app tx (s_id session) f) (\<lambda>l.
     need (lk_active l = []) LOCK_BUSY (
     Inr (result cx 1, tx\<lparr>locks := tdel (lk_id l) (locks tx)\<rparr>)))"

section \<open>The checks of \<open>BeginWrite\<close>\<close>

text \<open>The parts must be the cut of the written range at block boundaries, in order.\<close>

primrec check_parts :: "int \<Rightarrow> int \<Rightarrow> int \<Rightarrow> write_part list \<Rightarrow> int \<Rightarrow> int res" where
  "check_parts offset len sized [] cursor = Inr cursor"
| "check_parts offset len sized (part # parts) cursor =
     (let absolute = offset + cursor;
          expected = min (len - cursor) (sized - absolute mod sized)
      in need (expected > 0 \<and> wp_index part = absolute div sized \<and> wp_block_offset part = absolute mod sized \<and>
               wp_delta_offset part = cursor \<and> wp_length part = expected \<and> length (wp_sha part) = 32) INVALID_ARGUMENT (
         check_parts offset len sized parts (cursor + wp_length part)))"

definition block_at :: "snapshot_rec \<Rightarrow> int \<Rightarrow> block_ref option" where
  "block_at snap index =
     (if index < int (length (sn_blocks snap)) then Some (sn_blocks snap ! nat index) else None)"

text \<open>Locks gathered so far, the blocks they cover, and whether one covers the size.\<close>

type_synonym coverage = "lock_rec list \<times> int list \<times> bool"

definition cover :: "int list \<Rightarrow> lock_rec \<Rightarrow> coverage \<Rightarrow> coverage" where
  "cover wanted l = (\<lambda>(ls, covered, has_size).
     (ls @ [l], covered @ (if lk_whole l then wanted else lk_indices l), has_size \<or> lk_size l))"

definition cover_fence :: "app \<Rightarrow> db \<Rightarrow> session_rec \<Rightarrow> string \<Rightarrow> int list \<Rightarrow> fence \<Rightarrow> coverage \<Rightarrow> coverage res" where
  "cover_fence app tx session handle wanted f acc =
     bindr (validate app tx (s_id session) f) (\<lambda>l.
     need (lk_handle l = handle) PERMISSION_DENIED (
     Inr (cover wanted l acc)))"

definition cover_own :: "app \<Rightarrow> session_rec \<Rightarrow> string \<Rightarrow> int list \<Rightarrow> lock_rec \<Rightarrow> coverage \<Rightarrow> coverage" where
  "cover_own app session handle wanted l acc =
     (if lock_live app l \<and> lk_handle l = handle \<and> lk_session l = s_id session \<and> \<not> lk_automatic l \<and>
         lk_id l \<notin> set (map lk_id (fst acc))
      then cover wanted l acc else acc)"

definition gather_locks :: "app \<Rightarrow> session_rec \<Rightarrow> handle_rec \<Rightarrow> int list \<Rightarrow> fence list \<Rightarrow> bool \<Rightarrow> db \<Rightarrow>
    (lock_rec list \<times> db) res" where
  "gather_locks app session h wanted fences growing tx =
     bindr (foldr_res (cover_fence app tx session (h_id h) wanted) fences ([], [], False)) (\<lambda>acc.
     let (ls, covered, has_size) = fold (cover_own app session (h_id h) wanted) (tall (locks tx)) acc;
         missing = filter (\<lambda>i. i \<notin> set covered) (sort (remdups wanted));
         want_size = growing \<and> \<not> has_size
     in if missing \<noteq> [] \<or> want_size
        then bindr (acquire app (h_id h) (h_file h) (h_session h) missing False want_size True tx) (\<lambda>(l, tx).
             Inr (ls @ [l], tx))
        else Inr (ls, tx))"

section \<open>Placing the replacement blocks\<close>

definition empty_ref :: "string \<Rightarrow> int \<Rightarrow> block_ref" where
  "empty_ref file index = \<lparr>br_file = file, br_version = '''', br_index = index, br_size = 0, br_sha = ''''\<rparr>"

definition room :: "app \<Rightarrow> db \<Rightarrow> int \<Rightarrow> datanode_rec \<Rightarrow> bool" where
  "room app tx cost d \<longleftrightarrow>
     (let (used, reserved) = usage app tx d in
      used + reserved + cost \<le> dn_capacity d \<and> reserved + cost + 1048576 \<le> dn_free d)"

text \<open>A node that has the base block, or else another one and a task that copies the base to it.\<close>

definition assign_replacement :: "app \<Rightarrow> string \<Rightarrow> block_ref \<Rightarrow> block_ref \<Rightarrow> db \<Rightarrow> db res" where
  "assign_replacement app op_id base replacement tx =
     (let candidates = filter (\<lambda>d. node_state app (Some d) = READY)
            (List.map_filter (\<lambda>x. tget (datanodes tx) (lc_node x))
              (filter (\<lambda>x. lc_block x = br_version base) (tall (locations tx))));
          cost = storage_cost (br_size replacement);
          base_cost = storage_cost (br_size base)
      in need (candidates \<noteq> []) DATA_UNAVAILABLE (
         bindr (case find (room app tx cost) candidates of
                  Some d \<Rightarrow> Inr (d, tx)
                | None \<Rightarrow>
                    need_some (find (\<lambda>d. node_state app (Some d) = READY \<and> d \<notin> set candidates \<and> room app tx (cost + base_cost) d)
                        (sort_key dn_id (tall (datanodes tx)))) NO_SPACE (\<lambda>d.
                    let source = hd candidates;
                        (t, tx) = new_task app COPY base (dn_id source) (dn_id d) tx
                    in deref (location_of tx (br_version base) (dn_id source)) (\<lambda>loc.
                       Inr (d, put_task (t\<lparr>t_source := Some (dn_location source), t_destination := Some (dn_location d),
                         t_receipt := Some (lc_receipt loc), t_reserved := base_cost, t_write_operation := Some op_id\<rparr>) tx)))) (\<lambda>(d, tx).
         Inr (tx\<lparr>assignments := tput (br_version replacement) \<lparr>as_id = br_version replacement, as_node = dn_id d,
                as_operation = op_id, as_generation = bl_generation (dn_location d), as_reserved = cost\<rparr> (assignments tx)\<rparr>))))"

definition patch_plan :: "app \<Rightarrow> db \<Rightarrow> user_rec \<Rightarrow> upload_rec \<Rightarrow> write_part \<Rightarrow> block_ref \<Rightarrow> block_ref \<Rightarrow> planned_block \<Rightarrow>
    planned_block res" where
  "patch_plan app tx user op part base replacement p =
     (case (pb_locations p, pb_grants p) of
        (loc # _, g # gs) \<Rightarrow>
          deref (tget (datanodes tx) (bl_node loc)) (\<lambda>target.
          Inr (p\<lparr>pb_block := base, pb_patch := True, pb_replacement := br_version replacement,
                 pb_block_offset := wp_block_offset part, pb_delta_offset := wp_delta_offset part,
                 pb_delta_length := wp_length part,
                 pb_grants := g\<lparr>bg_action := PATCH_DATA,
                    bg_capability := cluster_capability app user (op_binding op) replacement target ''patch''\<rparr> # gs\<rparr>))
      | _ \<Rightarrow> Inl IndexError)"

definition plan_part :: "app \<Rightarrow> user_rec \<Rightarrow> node_rec \<Rightarrow> snapshot_rec \<Rightarrow> write_part \<Rightarrow>
    upload_rec \<times> planned_block list \<times> db \<Rightarrow> (upload_rec \<times> planned_block list \<times> db) res" where
  "plan_part app user node snap part = (\<lambda>(op, planned, tx).
     let index = wp_index part;
         base = (case block_at snap index of Some b \<Rightarrow> b | None \<Rightarrow> empty_ref (n_id node) index);
         (v, tx) = uid app tx;
         replacement = \<lparr>br_file = n_id node, br_version = v, br_index = index,
           br_size = max (br_size base) (wp_block_offset part + wp_length part), br_sha = ''''\<rparr>
     in bindr (if br_version base = [] then Inr tx else assign_replacement app (o_id op) base replacement tx) (\<lambda>tx.
        bindr (plan app replacement user (op_binding op) False tx) (\<lambda>(p, tx).
        bindr (patch_plan app tx user op part base replacement p) (\<lambda>p.
        let op = op\<lparr>o_allocations := dict_put index replacement (o_allocations op),
                    o_write := map_option (\<lambda>w. w\<lparr>w_parts := w_parts w @
                      [\<lparr>pt_part = part, pt_base = base, pt_replacement = replacement, pt_plan = p\<rparr>]\<rparr>) (o_write op)\<rparr>
        in Inr (op, planned @ [p], put_upload op tx)))))"

definition activate_locks :: "string \<Rightarrow> lock_rec list \<Rightarrow> db \<Rightarrow> db" where
  "activate_locks op_id ls tx = fold (\<lambda>l tx. put_lock (l\<lparr>lk_active := lk_active l @ [op_id]\<rparr>) tx) ls tx"

definition access_BeginWrite :: "app \<Rightarrow> user_rec \<Rightarrow> session_rec \<Rightarrow> req_ctx \<Rightarrow> begin_write_req \<Rightarrow> db \<Rightarrow> (write_plan \<times> db) res" where
  "access_BeginWrite app user session cx req tx =
     bindr (writable app tx user session (bw_handle req)) (\<lambda>(h, snap, node, current).
     need (h_busy h = None) HANDLE_BUSY (
     need (bw_base req = sn_ref snap) VERSION_CONFLICT (
     need_some (bw_offset req) INVALID_ARGUMENT (\<lambda>offset.
     need_some (bw_length req) INVALID_ARGUMENT (\<lambda>len.
     need (length (bw_sha req) = 32) INVALID_ARGUMENT (
     bindr (checked_range offset len (Some MAX_DELTA)) (\<lambda>stop.
     need (offset \<le> sr_size (bw_base req)) SPARSE_WRITE_UNSUPPORTED (
     need (stop \<le> max_file_bytes app) LIMIT_EXCEEDED (
     let sized = sr_block_size (bw_base req); growing = stop > sr_size (bw_base req); parts = bw_parts req in
     need (\<not> growing \<or> sr_size (sn_ref current) = sr_size (bw_base req)) VERSION_CONFLICT (
     need (length parts \<le> 5) INVALID_ARGUMENT (
     bindr (check_parts offset len sized parts 0) (\<lambda>cursor.
     need (cursor = len \<and> (len > 0 \<or> bw_sha req = sha256 app '''')) INVALID_ARGUMENT (
     need (list_all (\<lambda>p. block_at snap (wp_index p) = block_at current (wp_index p)) parts) VERSION_CONFLICT (
     let (op_id, tx) = uid app tx;
         reference = \<lparr>or_id = op_id, or_request = cx_request_id cx, or_intent = cx_intent cx\<rparr> in
     need (length (bw_fences req) \<le> 6) INVALID_ARGUMENT (
     bindr (gather_locks app session h (map wp_index parts) (bw_fences req) growing tx) (\<lambda>(ls, tx).
     let fences = map (lock_message app) ls;
         op = \<lparr>o_id = op_id, o_operation = reference, o_request = cx_request_id cx, o_user = u_id user,
               o_session = s_id session, o_parent = (case n_parent node of Some p \<Rightarrow> p | None \<Rightarrow> ''''), o_name = n_name node, o_file = n_id node,
               o_base = h_snapshot h, o_version = n_revision node, o_block_size = sized,
               o_total = max (sr_size (bw_base req)) stop, o_sha = '''', o_state = PREPARING,
               o_expires = h_expires h, o_max_expires = h_expires h, o_epoch = sr_content_epoch (bw_base req),
               o_reserved = 0, o_allocations = [], o_pages = [], o_sealed = None, o_result = None,
               o_locks = map lk_id ls, o_full_fence = None, o_policy = None,
               o_write = Some \<lparr>w_handle = h_id h, w_handle_revision = h_revision h, w_control_epoch = lease_epoch app,
                 w_offset = offset, w_length = len, w_growing = growing, w_base_size = sr_size (bw_base req),
                 w_fences = fences, w_parts = [], w_begin = req\<rparr>\<rparr>;
         tx = put_upload op tx
     in bindr (foldr_res (plan_part app user node snap) parts (op, [], tx)) (\<lambda>(op, planned, tx).
        let tx = activate_locks op_id ls tx;
            (op, tx) =
              (if len \<noteq> 0 then (op, put_handle (h\<lparr>h_busy := Some op_id\<rparr>) tx)
               else let op = op\<lparr>o_state := COMMITTED, o_result := Some \<lparr>cr_operation = reference, cr_state = COMMITTED,
                          cr_snapshot = bw_base req, cr_accepted = 0, cr_degraded = False, cr_target = 1, cr_minimum = 1\<rparr>\<rparr>
                    in (op, release_operation op tx))
        in Inr (\<lparr>wl_operation = reference, wl_blocks = planned, wl_fences = fences, wl_base = bw_base req, wl_minimum = 0\<rparr>,
                put_upload op tx))))))))))))))))))"

definition protection_BeginWrite :: "app \<Rightarrow> user_rec \<Rightarrow> session_rec \<Rightarrow> req_ctx \<Rightarrow> begin_write_req \<Rightarrow> db \<Rightarrow> (write_plan \<times> db) res" where
  "protection_BeginWrite app user session cx req tx =
     bindr (access_handle app tx user session (bw_handle req)) (\<lambda>(h, _).
     bindr (policy app (h_file h) False tx) (\<lambda>(p0, _).
     need (p_state p0 \<noteq> PROMOTING) LOCK_BUSY (
     bindr (access_BeginWrite app user session cx req tx) (\<lambda>(r, tx).
     deref (tget (uploads tx) (or_id (wl_operation r))) (\<lambda>op.
     bindr (capture_policy app op tx) (\<lambda>tx.
     bindr (policy app (o_file op) False tx) (\<lambda>(p, _).
     let r = r\<lparr>wl_minimum := p_w p\<rparr>; op = op\<lparr>o_policy := Some p\<rparr> in
     if o_state op = COMMITTED
     then deref (o_result op) (\<lambda>res. bindr (policy_result app op res tx) (\<lambda>(_, tx). Inr (r, tx)))
     else Inr (r, tx))))))))"

definition BeginWrite :: "app \<Rightarrow> user_rec \<Rightarrow> session_rec \<Rightarrow> req_ctx \<Rightarrow> begin_write_req \<Rightarrow> db \<Rightarrow> (write_plan \<times> db) res" where
  "BeginWrite app = (if profile app = REPLICATED then protection_BeginWrite app else access_BeginWrite app)"

section \<open>Commit and abort\<close>

definition write_operation :: "app \<Rightarrow> user_rec \<Rightarrow> session_rec \<Rightarrow> operation_ref \<Rightarrow> db \<Rightarrow>
    (upload_rec \<times> write_rec \<times> handle_rec \<times> node_rec \<times> snapshot_rec) res" where
  "write_operation app user session reference tx =
     need_some (tget (uploads tx) (or_id reference)) PERMISSION_DENIED (\<lambda>op.
     need_some (o_write op) PERMISSION_DENIED (\<lambda>w.
     need (o_user op = u_id user \<and> o_session op = s_id session) PERMISSION_DENIED (
     need (o_operation op = reference) IDEMPOTENCY_MISMATCH (
     need (o_state op = PREPARING \<and> w_control_epoch w = lease_epoch app) OPERATION_EXPIRED (
     bindr (writable app tx user session (w_handle w)) (\<lambda>(h, _, node, current).
     need (h_busy h = Some (o_id op) \<and> h_revision h = w_handle_revision w) HANDLE_BUSY (
     bindr (map_res (validate app tx (s_id session)) (w_fences w)) (\<lambda>_.
     Inr (op, w, h, node, current)))))))))"

definition fence_intent :: "app \<Rightarrow> fence \<Rightarrow> string" where
  "fence_intent app f = intent app (JObj [(''fence'', fence_dict app f)])"

definition replacement_durable :: "app \<Rightarrow> db \<Rightarrow> upload_rec \<Rightarrow> block_ref \<Rightarrow> block_rec option \<Rightarrow> assignment_rec \<Rightarrow> unit res" where
  "replacement_durable app tx op replacement record a =
     need (case record of None \<Rightarrow> False | Some r \<Rightarrow> b_ref r = replacement) DATA_UNAVAILABLE (
     if profile app = REPLICATED then require_durable app op replacement tx
     else deref (tget (datanodes tx) (as_node a)) (\<lambda>d.
       need (location_of tx (br_version replacement) (dn_id d) \<noteq> None \<and> serving app (Some d) \<and>
             as_generation a = bl_generation (dn_location d)) DATA_UNAVAILABLE (Inr ())))"

definition replace_block :: "int \<Rightarrow> block_ref \<Rightarrow> block_ref list \<Rightarrow> block_ref list res" where
  "replace_block index b blks =
     (if index = int (length blks) then Inr (blks @ [b])
      else if 0 \<le> index \<and> index < int (length blks) then Inr (blks[nat index := b]) else Inl IndexError)"

definition commit_part :: "app \<Rightarrow> db \<Rightarrow> upload_rec \<Rightarrow> node_rec \<Rightarrow> part_rec \<times> block_change \<Rightarrow> block_ref list \<Rightarrow> block_ref list res" where
  "commit_part app tx op node = (\<lambda>(part, change) blks.
     let base = pt_base part; replacement = bc_replacement change; index = br_index base; expected = pt_replacement part;
         latest = (if index < int (length blks) then blks ! nat index else empty_ref (n_id node) index)
     in need (latest = base \<and> bc_base change = base) VERSION_CONFLICT (
        need (br_version replacement = br_version expected \<and> br_file replacement = br_file expected \<and>
              br_index replacement = index \<and> br_size replacement = br_size expected) VERSION_CONFLICT (
        let record = tget (blocks tx) (br_version replacement) in
        deref (tget (assignments tx) (br_version replacement)) (\<lambda>a.
        bindr (replacement_durable app tx op replacement record a) (\<lambda>_.
        deref record (\<lambda>r.
        need (bc_receipts change = [b_receipt r]) CHECKSUM_MISMATCH (
        replace_block index replacement blks)))))))"

record commit_write_req =
  cw_operation :: operation_ref
  cw_handle :: string
  cw_revision :: int
  cw_fences :: "fence list"
  cw_changes :: "block_change list"

definition access_CommitWrite :: "app \<Rightarrow> user_rec \<Rightarrow> session_rec \<Rightarrow> commit_write_req \<Rightarrow> db \<Rightarrow> (commit_result \<times> db) res" where
  "access_CommitWrite app user session req tx =
     bindr (write_operation app user session (cw_operation req) tx) (\<lambda>(op, w, h, node, current).
     need (cw_handle req = h_id h \<and> cw_revision req = h_revision h) VERSION_CONFLICT (
     need (map (fence_intent app) (cw_fences req) = map (fence_intent app) (w_fences w)) LOCK_EXPIRED (
     need (length (cw_changes req) = length (w_parts w)) VERSION_CONFLICT (
     bindr (foldr_res (commit_part app tx op node) (zip (w_parts w) (cw_changes req)) (sn_blocks current)) (\<lambda>blks.
     let current_size = sr_size (sn_ref current) in
     need (\<not> w_growing w \<or> current_size = w_base_size w) VERSION_CONFLICT (
     let (root, tx) = uid app tx;
         ref = \<lparr>sr_file = n_id node, sr_content_epoch = o_epoch op,
                sr_file_version = sr_file_version (sn_ref current) + 1, sr_root = root,
                sr_size = max current_size (o_total op), sr_manifest_sha = manifest_hash app blks,
                sr_file_sha = None, sr_block_size = o_block_size op\<rparr>;
         tx = put_snapshot \<lparr>sn_id = root, sn_file = n_id node, sn_ref = ref, sn_blocks = blks\<rparr> tx;
         (_, tx) = bump (node\<lparr>n_snapshot := Some root\<rparr>) tx;
         tx = put_handle (h\<lparr>h_snapshot := Some root, h_revision := h_revision h + 1\<rparr>) tx;
         r = \<lparr>cr_operation = cw_operation req, cr_state = COMMITTED, cr_snapshot = ref, cr_accepted = w_length w,
              cr_degraded = False, cr_target = 1, cr_minimum = 1\<rparr>;
         op = op\<lparr>o_state := COMMITTED, o_result := Some r, o_reserved := 0\<rparr>;
         tx = put_upload op tx
     in Inr (r, release_operation op tx)))))))"

definition protection_CommitWrite :: "app \<Rightarrow> user_rec \<Rightarrow> session_rec \<Rightarrow> commit_write_req \<Rightarrow> db \<Rightarrow> (commit_result \<times> db) res" where
  "protection_CommitWrite app user session req tx =
     bindr (validate_policy app (tget (uploads tx) (or_id (cw_operation req))) tx) (\<lambda>_.
     bindr (access_CommitWrite app user session req tx) (\<lambda>(r, tx).
     deref (tget (uploads tx) (or_id (cw_operation req))) (\<lambda>op. policy_result app op r tx)))"

definition CommitWrite :: "app \<Rightarrow> user_rec \<Rightarrow> session_rec \<Rightarrow> commit_write_req \<Rightarrow> db \<Rightarrow> (commit_result \<times> db) res" where
  "CommitWrite app = (if profile app = REPLICATED then protection_CommitWrite app else access_CommitWrite app)"

definition AbortWrite :: "user_rec \<Rightarrow> session_rec \<Rightarrow> req_ctx \<Rightarrow> operation_ref \<Rightarrow> db \<Rightarrow> (mutation_result \<times> db) res" where
  "AbortWrite user session cx reference tx =
     need_some (tget (uploads tx) (or_id reference)) PERMISSION_DENIED (\<lambda>op.
     need (o_write op \<noteq> None \<and> o_user op = u_id user \<and> o_session op = s_id session) PERMISSION_DENIED (
     need (o_operation op = reference) IDEMPOTENCY_MISMATCH (
     need (o_state op \<noteq> COMMITTED) VERSION_CONFLICT (
     let op = abort_op op
     in Inr (result cx 1, release_operation op (put_upload op tx))))))"

end
