(* ===== verification/Tree.thy ===== *)
theory Tree
  imports Publish Writes
begin

text \<open>
  The name space stays a tree. Every command that changes nodes or operations keeps \<open>fs_ok\<close>, so it
  holds in every state that the commands reach from a fresh installation; with it the loops over ancestors
  end and a path is never deeper than 32 levels.
\<close>

section \<open>Commands that leave the nodes alone\<close>

definition quiet :: "db \<Rightarrow> db \<Rightarrow> bool" where
  "quiet tx tx' \<longleftrightarrow> nodes tx' = nodes tx \<and> uploads_later tx tx' \<and> uid_count tx \<le> uid_count tx'"

lemma quiet_fs_ok: "fs_ok app tx \<Longrightarrow> quiet tx tx' \<Longrightarrow> fs_ok app tx'"
  by (auto simp: quiet_def intro: fs_ok_cong)

lemma quiet_refl [intro, simp]: "quiet tx tx"
  by (auto simp: quiet_def)

lemma quiet_trans: "quiet a b \<Longrightarrow> quiet b c \<Longrightarrow> quiet a c"
  by (auto simp: quiet_def intro: uploads_later_trans)

lemma quiet_frame:
  "nodes tx' = nodes tx \<Longrightarrow> uploads tx' = uploads tx \<Longrightarrow> uid_count tx \<le> uid_count tx' \<Longrightarrow> quiet tx tx'"
  by (auto simp: quiet_def)

lemma quiet_put_upload:
  assumes "tget (uploads tx) k = Some a" "op_later a b"
  shows "quiet tx (tx\<lparr>uploads := tput k b (uploads tx)\<rparr>)"
  using assms by (auto simp: quiet_def uploads_later_def)

text \<open>Placement changes only the tables of placement.\<close>

definition same_core :: "db \<Rightarrow> db \<Rightarrow> bool" where
  "same_core tx tx' \<longleftrightarrow> nodes tx' = nodes tx \<and> uploads tx' = uploads tx \<and> uid_count tx' = uid_count tx \<and>
     snapshots tx' = snapshots tx \<and> locks tx' = locks tx \<and> handles tx' = handles tx \<and> lock_sequence tx' = lock_sequence tx"

lemma same_core_refl [simp, intro]: "same_core tx tx"
  by (simp add: same_core_def)

lemma same_core_trans: "same_core a b \<Longrightarrow> same_core b c \<Longrightarrow> same_core a c"
  by (simp add: same_core_def)

lemma same_core_quiet: "same_core tx tx' \<Longrightarrow> quiet tx tx'"
  by (auto simp: same_core_def intro: quiet_frame)

lemma policy_core: "policy app file create tx = Inr (p, tx') \<Longrightarrow> same_core tx tx'"
  by (auto simp: policy_def run Let_def same_core_def split: option.splits)

lemma assign_block_core: "assign_block app block bd tx = Inr (a, tx') \<Longrightarrow> same_core tx tx'"
  by (auto simp: assign_block_def run Let_def same_core_def split: option.splits)

lemma reserve_replicas_core: "reserve_replicas app block bd p tx = Inr tx' \<Longrightarrow> same_core tx tx'"
  by (auto simp: reserve_replicas_def run Let_def same_core_def split: option.splits prod.splits)

lemma cluster_plan_core: "cluster_plan app block user bd rd tx = Inr (p, tx') \<Longrightarrow> same_core tx tx'"
  by (auto simp: cluster_plan_def run Let_def dest: assign_block_core split: if_splits prod.splits)

lemma replicated_plan_core:
  assumes "replicated_plan app block user bd rd tx = Inr (p, tx')"
  shows "same_core tx tx'"
proof -
  from assms obtain result tx1 where c: "cluster_plan app block user bd rd tx = Inr (result, tx1)"
    by (auto simp: replicated_plan_def run)
  have "same_core tx1 tx'"
  proof (cases rd)
    case True
    with assms c show ?thesis by (simp add: replicated_plan_def run Let_def)
  next
    case False
    with assms c obtain q tx2 where "policy app (bd_file bd) (\<not> bd_based bd) tx1 = Inr (q, tx2)"
      "reserve_replicas app block bd q tx2 = Inr tx'" by (auto simp: replicated_plan_def run)
    then show ?thesis by (blast intro: same_core_trans policy_core reserve_replicas_core)
  qed
  with cluster_plan_core [OF c] show ?thesis by (rule same_core_trans)
qed

lemma plan_core: "plan app block user bd rd tx = Inr (p, tx') \<Longrightarrow> same_core tx tx'"
  using cluster_plan_core replicated_plan_core
  by (cases "profile app") (auto simp: plan_def)

section \<open>Operations of an upload\<close>

lemma operation_stored:
  assumes "operation app user session reference fence tx = Inr op" and "keyed o_id (uploads tx)"
  shows "tget (uploads tx) (o_id op) = Some op"
  using operation_Inr(1) [OF assms(1)] keyedD [OF assms(2)] by auto

lemma RenewUpload_quiet:
  assumes "RenewUpload app user session reference tx = Inr (r, tx')" and keyed: "keyed o_id (uploads tx)"
  shows "quiet tx tx'"
proof -
  have base: "quiet tx t" if "base_RenewUpload app user session reference tx = Inr (p, t)" for p t
    using that keyed
    by (auto simp: base_RenewUpload_def run Let_def operation_stored op_later_def intro!: quiet_put_upload)
  show ?thesis
  proof (cases "has_leases app")
    case True
    with assms(1) have "\<exists>p t. base_RenewUpload app user session reference tx = Inr (p, t) \<and> quiet t tx'"
      by (auto simp: RenewUpload_def access_RenewUpload_def run Let_def intro!: quiet_frame)
    with base show ?thesis by (blast intro: quiet_trans)
  qed (use assms(1) base in \<open>auto simp: RenewUpload_def\<close>)
qed

lemma allocate_one_step:
  assumes "allocate_one app user requested (op, planned, tx) = Inr (op', planned', tx')"
  shows "nodes tx' = nodes tx \<and> uploads tx' = uploads tx \<and> uid_count tx \<le> uid_count tx' \<and>
     (\<exists>as. op' = op\<lparr>o_allocations := as\<rparr>)"
  using assms
  by (auto simp: allocate_one_def run Let_def uid_def dest!: plan_core split: option.splits prod.splits)
     (auto simp: same_core_def intro: exI [of _ "o_allocations op"])

lemma allocate_all_step:
  assumes "foldr_res (allocate_one app user) reqs (op, planned, tx) = Inr (op', planned', tx')"
  shows "nodes tx' = nodes tx \<and> uploads tx' = uploads tx \<and> uid_count tx \<le> uid_count tx' \<and>
     (\<exists>as. op' = op\<lparr>o_allocations := as\<rparr>)"
  using assms
proof (induction reqs arbitrary: op planned tx)
  case Nil
  then show ?case by (auto intro: exI [of _ "o_allocations op"])
next
  case (Cons req reqs)
  from Cons.prems obtain op1 planned1 tx1 where
    a: "allocate_one app user req (op, planned, tx) = Inr (op1, planned1, tx1)" and
    r: "foldr_res (allocate_one app user) reqs (op1, planned1, tx1) = Inr (op', planned', tx')"
    by (auto simp: run)
  from allocate_one_step [OF a] Cons.IH [OF r] show ?case by auto
qed

lemma AllocateBlocks_quiet:
  assumes "AllocateBlocks app user session reference fence reqs tx = Inr (r, tx')" and keyed: "keyed o_id (uploads tx)"
  shows "quiet tx tx'"
proof -
  from assms(1) obtain op op' planned t where
    op: "operation app user session reference (Some fence) tx = Inr op" and
    a: "foldr_res (allocate_one app user) reqs (op, [], tx) = Inr (op', planned, t)" and tx': "tx' = put_upload op' t"
    by (auto simp: AllocateBlocks_def run)
  from allocate_all_step [OF a] have t: "nodes t = nodes tx" "uploads t = uploads tx" "uid_count tx \<le> uid_count t"
    and "\<exists>as. op' = op\<lparr>o_allocations := as\<rparr>" by auto
  then have "quiet t tx'" using operation_stored [OF op keyed] unfolding tx'
    by (intro quiet_put_upload [of _ _ op]) (auto simp: op_later_def)
  with quiet_frame [OF t] show ?thesis by (rule quiet_trans)
qed

lemma Stage_Seal_Abort_quiet:
  assumes keyed: "keyed o_id (uploads tx)"
  shows "StageManifestPage app user session reference fence i blks sha n tx = Inr (p, tx') \<Longrightarrow> quiet tx tx'"
    and "SealManifest app user session reference fence i j k sha tx = Inr (p, tx') \<Longrightarrow> quiet tx tx'"
    and "base_AbortUpload user session cx reference tx = Inr (m, tx') \<Longrightarrow> quiet tx tx'"
proof -
  show "StageManifestPage app user session reference fence i blks sha n tx = Inr (p, tx') \<Longrightarrow> quiet tx tx'"
    using operation_stored [OF _ keyed]
    by (auto simp: StageManifestPage_def run Let_def op_later_def intro!: quiet_put_upload)
  show "SealManifest app user session reference fence i j k sha tx = Inr (p, tx') \<Longrightarrow> quiet tx tx'"
    using operation_stored [OF _ keyed]
    by (auto simp: SealManifest_def run Let_def op_later_def intro!: quiet_put_upload)
  show "base_AbortUpload user session cx reference tx = Inr (m, tx') \<Longrightarrow> quiet tx tx'"
    using keyedD [OF keyed]
    by (auto simp: base_AbortUpload_def run Let_def intro!: quiet_put_upload)
qed

lemma release_operation_quiet: "quiet tx (release_operation op tx)"
  by (rule quiet_frame) (simp_all add: frame)

lemma AbortUpload_quiet:
  assumes "AbortUpload app user session cx reference tx = Inr (r, tx')" and keyed: "keyed o_id (uploads tx)"
  shows "quiet tx tx'"
  using assms(1) Stage_Seal_Abort_quiet(3) [OF keyed]
  by (auto simp: AbortUpload_def run split: if_splits intro: quiet_trans [OF _ release_operation_quiet])

section \<open>Beginning an upload\<close>

lemma pending_ok_new:
  assumes ok: "pending_ok app tx" and nodes: "nodes tx' = nodes tx" and ids: "uid_count tx \<le> uid_count tx'"
    and ups: "uploads tx' = tput (o_id op) op (uploads tx)" and new: "tget (uploads tx) (o_id op) = None"
    and op: "upload_ok app tx' op"
    and fileless: "\<And>k b. tget (uploads tx) k = Some b \<Longrightarrow> o_base op = None \<Longrightarrow> o_file b \<noteq> o_file op"
  shows "pending_ok app tx'"
proof -
  have old: "o_id b = k \<and> upload_ok app tx' b" if "tget (uploads tx) k = Some b" for k b
    using ok that upload_ok_extends [of app tx b b tx'] ids extends_refl [OF nodes]
    unfolding pending_ok_def by (auto simp: nodes)
  have "j = k" if "tget (uploads tx') j = Some a" "tget (uploads tx') k = Some b" "o_base a = None" "o_base b = None"
    "o_file a = o_file b" for j k a b
    using that fileless [of j a] fileless [of k b] ok unfolding pending_ok_def ups
    by (auto split: if_splits)
  moreover have "o_id b = k \<and> upload_ok app tx' b" if "tget (uploads tx') k = Some b" for k b
    using that op old by (auto simp: ups split: if_splits)
  ultimately show ?thesis unfolding pending_ok_def by blast
qed

lemma pending_issued:
  "pending_ok app tx \<Longrightarrow> tget (uploads tx) k = Some b \<Longrightarrow> issued app tx (o_file b) \<and> issued app tx k"
  by (auto simp: pending_ok_def upload_ok_def)

text \<open>What the record of a new upload says.\<close>

lemma base_BeginUpload_Inr:
  assumes "base_BeginUpload app user session cx req tx = Inr (p, tx')"
  shows "\<exists>parent name existing snap op. parent_of app tx user (bu_path req) = Inr (parent, name) \<and>
     existing = find (\<lambda>n. n_name n = name) (children tx (n_id parent)) \<and> \<not> reserved app tx (n_id parent) name \<and>
     overwrite_base app user req existing tx = Inr snap \<and>
     o_id op = uidgen app (uid_count tx) \<and> o_parent op = n_id parent \<and> o_name op = name \<and> o_state op = PREPARING \<and>
     o_base op = Option.bind existing n_snapshot \<and> o_total op = bu_total req \<and> o_sha op = bu_sha req \<and>
     o_write op = None \<and> o_locks op = [] \<and>
     o_file op = (case existing of Some n \<Rightarrow> n_id n | None \<Rightarrow> uidgen app (Suc (uid_count tx))) \<and>
     tx' = tx\<lparr>uid_count := (case existing of Some n \<Rightarrow> Suc (uid_count tx) | None \<Rightarrow> Suc (Suc (uid_count tx))),
              uploads := tput (o_id op) op (uploads tx)\<rparr> \<and>
     p = upload_plan app op \<and> or_id (up_operation p) = o_id op"
proof -
  from assms obtain parent name snap res where
    par: "parent_of app tx user (bu_path req) = Inr (parent, name)" and
    over: "overwrite_base app user req (find (\<lambda>n. n_name n = name) (children tx (n_id parent))) tx = Inr snap" and
    free: "\<not> reserved app tx (n_id parent) name" and
    res: "reserve_upload app (bu_total req) (case find (\<lambda>n. n_name n = name) (children tx (n_id parent)) of
       Some n \<Rightarrow> n_block_size n | None \<Rightarrow> block_size_bytes app) tx = Inr res" and
    req: "upload_quota app tx user" "length (bu_sha req) = 32" "bu_total req \<le> max_file_bytes app"
    by (auto simp: base_BeginUpload_def run Let_def)
  let ?f = "find (\<lambda>n. n_name n = name) (children tx (n_id parent))"
  define op where "op = \<lparr>o_id = uidgen app (uid_count tx),
       o_operation = \<lparr>or_id = uidgen app (uid_count tx), or_request = cx_request_id cx, or_intent = cx_intent cx\<rparr>,
       o_request = cx_request_id cx, o_user = u_id user, o_session = s_id session,
       o_parent = n_id parent, o_name = name,
       o_file = (case ?f of Some n \<Rightarrow> n_id n | None \<Rightarrow> uidgen app (Suc (uid_count tx))),
       o_base = Option.bind ?f n_snapshot, o_version = (case ?f of Some n \<Rightarrow> n_revision n | None \<Rightarrow> 0),
       o_block_size = (case ?f of Some n \<Rightarrow> n_block_size n | None \<Rightarrow> block_size_bytes app),
       o_total = bu_total req, o_sha = bu_sha req, o_state = PREPARING, o_expires = now_ms app + 300000,
       o_max_expires = now_ms app + 3600000, o_epoch = (case snap of Some s \<Rightarrow> sr_content_epoch (sn_ref s) + 1 | None \<Rightarrow> 1),
       o_reserved = res, o_allocations = [], o_pages = [], o_sealed = None, o_result = None,
       o_locks = [], o_full_fence = None, o_policy = None, o_write = None\<rparr>"
  have "base_BeginUpload app user session cx req tx =
      Inr (upload_plan app op, tx\<lparr>uid_count := (case ?f of Some n \<Rightarrow> Suc (uid_count tx) | None \<Rightarrow> Suc (Suc (uid_count tx))),
              uploads := tput (o_id op) op (uploads tx)\<rparr>)"
    using par over free res req by (cases ?f) (simp_all add: base_BeginUpload_def Let_def uid_def op_def need_def)
  with assms have out: "p = upload_plan app op" "tx' = tx\<lparr>uid_count := (case ?f of Some n \<Rightarrow> Suc (uid_count tx) | None \<Rightarrow> Suc (Suc (uid_count tx))),
              uploads := tput (o_id op) op (uploads tx)\<rparr>" by simp_all
  have fields: "o_id op = uidgen app (uid_count tx)" "o_parent op = n_id parent" "o_name op = name" "o_state op = PREPARING"
    "o_base op = Option.bind ?f n_snapshot" "o_total op = bu_total req" "o_sha op = bu_sha req" "o_write op = None" "o_locks op = []"
    "o_file op = (case ?f of Some n \<Rightarrow> n_id n | None \<Rightarrow> uidgen app (Suc (uid_count tx)))" "or_id (o_operation op) = o_id op"
    by (simp_all add: op_def)
  have "or_id (up_operation p) = o_id op" by (simp add: out(1) upload_plan_def fields(11))
  with par over free out fields show ?thesis by blast
qed

lemma base_BeginUpload_fs_ok:
  assumes ok: "fs_ok app tx" and distinct: "ids_distinct app" and nfc: "nfc_keeps_slash app"
    and b: "base_BeginUpload app user session cx req tx = Inr (p, tx')"
  shows "fs_ok app tx'"
proof -
  from ok have tree: "tree_ok app tx" and pend: "pending_ok app tx" by (simp_all add: fs_ok_def)
  from base_BeginUpload_Inr [OF b] obtain parent name existing snap op where
    par: "parent_of app tx user (bu_path req) = Inr (parent, name)" and
    ex: "existing = find (\<lambda>n. n_name n = name) (children tx (n_id parent))" and
    over: "overwrite_base app user req existing tx = Inr snap" and
    op: "o_id op = uidgen app (uid_count tx)" "o_parent op = n_id parent" "o_name op = name"
      "o_base op = Option.bind existing n_snapshot"
      "o_file op = (case existing of Some n \<Rightarrow> n_id n | None \<Rightarrow> uidgen app (Suc (uid_count tx)))" and
    tx'_def: "tx' = tx\<lparr>uid_count := (case existing of Some n \<Rightarrow> Suc (uid_count tx) | None \<Rightarrow> Suc (Suc (uid_count tx))),
              uploads := tput (o_id op) op (uploads tx)\<rparr>" by blast
  have tx': "nodes tx' = nodes tx" "uid_count tx \<le> uid_count tx'" "uploads tx' = tput (o_id op) op (uploads tx)"
    "uid_count tx' = (case existing of Some n \<Rightarrow> Suc (uid_count tx) | None \<Rightarrow> Suc (Suc (uid_count tx)))"
    by (simp_all add: tx'_def split: option.split)
  note po = parent_of_ok [OF tree nfc par]
  have tree': "tree_ok app tx'" using tree_ok_nodes [OF tree tx'(1,2)] .
  have new: "tget (uploads tx) (o_id op) = None"
    using pending_issued [OF pend] issued_fresh [OF distinct] op(1) by (cases "tget (uploads tx) (o_id op)") force+
  have iss: "issued app tx' (o_id op)" using tx'(4) op(1) by (auto intro!: issued_next split: option.splits)
  have shared: "name_fine (o_name op)" "depth_le tx' 31 (o_parent op)"
    "case tget (nodes tx') (o_parent op) of None \<Rightarrow> False | Some m \<Rightarrow> o_base op = None \<longrightarrow> n_directory m"
    using po op(2,3) tx'(1) depth_le_extends [OF po(3) extends_refl [OF tx'(1)]] by (auto simp: stored_def)
  show ?thesis
  proof (cases existing)
    case None
    then have nf: "o_file op = uidgen app (Suc (uid_count tx))" "o_base op = None" using op(4,5) by simp_all
    have fresh: "\<not> issued app tx (o_file op)" using issued_fresh [OF distinct, of tx "o_file op" "Suc (uid_count tx)"] nf(1) by auto
    have "upload_ok app tx' op"
      unfolding upload_ok_def using shared iss nf tx'(1,4) None fresh tree_okD(2) [OF tree]
      by (cases "tget (nodes tx) (o_file op)") (auto intro: issued_next)
    moreover have "o_file b \<noteq> o_file op" if "tget (uploads tx) k = Some b" for k b
      using pending_issued [OF pend that] fresh by auto
    ultimately have "pending_ok app tx'" by (intro pending_ok_new [OF pend tx'(1,2,3) new])
    with tree' show ?thesis by (simp add: fs_ok_def)
  next
    case (Some n)
    from over Some have based: "n_snapshot n \<noteq> None" "\<not> n_directory n" by (auto simp: overwrite_base_def run bind_eq_Some_conv)
    obtain k where k: "tget (nodes tx) k = Some n" "n_parent n = Some (n_id parent)"
      using find_child [OF trans [OF ex [symmetric] Some]] by blast
    then have "n_id n = k" "issued app tx k" using tree_okD [OF tree k(1)] by simp_all
    with k Some op(2,4,5) based have "upload_ok app tx' op"
      unfolding upload_ok_def using shared iss tx'(1,2) by (auto intro: issued_mono)
    then have "pending_ok app tx'"
      by (intro pending_ok_new [OF pend tx'(1,2,3) new]) (use Some op(4) based in auto)
    with tree' show ?thesis by (simp add: fs_ok_def)
  qed
qed

lemma acquire_quiet: "acquire app h f s is w z a tx = Inr (l, tx') \<Longrightarrow> quiet tx tx'"
  by (auto simp: acquire_def run Let_def uid_def intro!: quiet_frame)

lemma access_BeginUpload_quiet:
  assumes "access_BeginUpload app user session cx req tx = Inr (p, tx')"
  shows "\<exists>t. base_BeginUpload app user session cx req tx = Inr (p, t) \<and> (keyed o_id (uploads t) \<longrightarrow> quiet t tx')"
proof -
  from assms obtain t op l t1 where b: "base_BeginUpload app user session cx req tx = Inr (p, t)" and
    op: "tget (uploads t) (or_id (up_operation p)) = Some op" and
    a: "acquire app (o_id op) (o_file op) (s_id session) [] True True True t = Inr (l, t1)"
    by (auto simp: access_BeginUpload_def run Let_def)
  let ?l = "l\<lparr>lk_deadline := clock_s app + 300, lk_active := [o_id op]\<rparr>"
  from assms b op a have tx': "tx' = put_upload (op\<lparr>o_locks := [lk_id ?l], o_full_fence := Some (lock_message app ?l)\<rparr>) (put_lock ?l t1)"
    by (simp add: access_BeginUpload_def Let_def)
  have same: "uploads t1 = uploads t" "nodes t1 = nodes t" "uid_count t \<le> uid_count t1"
    by (subst acquire_Inr(16) [OF a], simp)+
  have "quiet t tx'" if "keyed o_id (uploads t)"
    using op keyedD [OF that op] by (simp add: tx' quiet_def uploads_later_def op_later_def same)
  with b show ?thesis by blast
qed

lemma capture_policy_quiet:
  assumes "capture_policy app op tx = Inr tx'" and "tget (uploads tx) (o_id op) = Some op"
  shows "quiet tx tx'"
proof -
  from assms(1) obtain q t where p: "policy app (o_file op) (o_base op = None) tx = Inr (q, t)"
    and tx': "tx' = put_upload (op\<lparr>o_policy := Some q\<rparr>) t" by (auto simp: capture_policy_def run)
  have "uploads t = uploads tx" using policy_core [OF p] by (simp add: same_core_def)
  then have "quiet t tx'" unfolding tx' using assms(2) quiet_put_upload [of t "o_id op" op "op\<lparr>o_policy := Some q\<rparr>"]
    by (simp add: op_later_def)
  with same_core_quiet [OF policy_core [OF p]] show ?thesis by (rule quiet_trans)
qed

lemma protection_BeginUpload_quiet:
  assumes "protection_BeginUpload app user session cx req tx = Inr (p, tx')"
  shows "\<exists>q t. access_BeginUpload app user session cx req tx = Inr (q, t) \<and> (keyed o_id (uploads t) \<longrightarrow> quiet t tx')"
proof -
  from assms obtain q t op t1 pol where a: "access_BeginUpload app user session cx req tx = Inr (q, t)" and
    op: "tget (uploads t) (or_id (up_operation q)) = Some op" and c: "capture_policy app op t = Inr t1" and
    p: "policy app (up_file q) False t1 = Inr (pol, tx')"
    by (auto simp: protection_BeginUpload_def run)
  have "quiet t tx'" if "keyed o_id (uploads t)"
    using capture_policy_quiet [OF c] op keyedD [OF that op] same_core_quiet [OF policy_core [OF p]]
    by (auto intro: quiet_trans)
  with a show ?thesis by blast
qed

lemma fs_ok_keyed: "fs_ok app tx \<Longrightarrow> keyed o_id (uploads tx)"
  using pending_ok_keyed by (auto simp: fs_ok_def)

lemma BeginUpload_fs_ok:
  assumes "fs_ok app tx" "ids_distinct app" "nfc_keeps_slash app" and b: "BeginUpload app user session cx req tx = Inr (p, tx')"
  shows "fs_ok app tx'"
proof -
  note base = base_BeginUpload_fs_ok [OF assms(1-3)]
  have access: "fs_ok app t" if "access_BeginUpload app user session cx req tx = Inr (q, t)" for q t
    using access_BeginUpload_quiet [OF that] base fs_ok_keyed quiet_fs_ok by blast
  have "fs_ok app t" if "protection_BeginUpload app user session cx req tx = Inr (q, t)" for q t
    using protection_BeginUpload_quiet [OF that] access fs_ok_keyed quiet_fs_ok by blast
  with base access b show ?thesis by (cases "profile app") (auto simp: BeginUpload_def)
qed

section \<open>Opening\<close>

lemma walk_pieces_append:
  "walk_pieces app tx user node (xs @ ys) = bindr (walk_pieces app tx user node xs) (\<lambda>n. walk_pieces app tx user n ys)"
proof (induction xs arbitrary: node)
  case (Cons x xs)
  show ?case
    by (simp add: Cons.IH need_def guardr_def bindr_assoc need_some_def somer_def deref_def split: option.split)
qed simp

lemma path_pieces_slashes: "path_pieces (p @ replicate n (CHR ''/'')) = path_pieces p"
proof (induction n)
  case (Suc n)
  have "p @ replicate (Suc n) (CHR ''/'') = (p @ replicate n (CHR ''/'')) @ CHR ''/'' # []"
    by (simp add: replicate_append_same)
  then show ?case by (simp only: path_pieces_append Suc.IH) simp
qed simp

lemma rstrip_slashes: "\<exists>n. p = rstrip c p @ replicate n c"
proof -
  let ?r = "rev p"
  have "takeWhile (\<lambda>x. x = c) ?r = replicate (length (takeWhile (\<lambda>x. x = c) ?r)) c"
    by (induction p rule: rev_induct) auto
  then obtain n where n: "takeWhile (\<lambda>x. x = c) ?r = replicate n c" by blast
  have "rev ?r = rev (dropWhile (\<lambda>x. x = c) ?r) @ rev (takeWhile (\<lambda>x. x = c) ?r)"
    by (metis rev_append takeWhile_dropWhile_id)
  then show ?thesis by (auto simp: n rstrip_def)
qed

lemma rstrip_last:
  assumes "rstrip c p \<noteq> []"
  shows "last (rstrip c p) \<noteq> c"
proof -
  let ?d = "dropWhile (\<lambda>x. x = c) (rev p)"
  have "?d \<noteq> []" using assms unfolding rstrip_def by (metis rev.simps(1))
  from hd_dropWhile [OF this] this show ?thesis by (simp only: rstrip_def last_rev) simp
qed

lemma rpartition_append:
  assumes "c \<in> set s"
  shows "s = fst (rpartition c s) @ c # snd (rpartition c s)"
proof -
  let ?t = "takeWhile (\<lambda>x. x \<noteq> c) (rev s)" and ?d = "dropWhile (\<lambda>x. x \<noteq> c) (rev s)"
  have ne: "?d \<noteq> []" using assms by (simp add: dropWhile_eq_Nil_conv)
  with hd_dropWhile [OF this] have d: "?d = c # tl ?d" by (metis list.collapse)
  have "rev s = ?t @ ?d" by simp
  also have "\<dots> = ?t @ c # tl ?d" using d by argo
  finally have "rev (rev s) = rev (tl ?d) @ c # rev ?t" by (metis append.assoc append_Cons append_Nil rev.simps(2) rev_append)
  then show ?thesis using assms by (simp add: rpartition_def)
qed

text \<open>If a path does not resolve but its directory does, there is no entry of that name.\<close>

lemma not_found_free:
  assumes "resolve app tx user ref = Inl (Fault NOT_FOUND)" and "parent_of app tx user ref = Inr (parent, name)"
  shows "\<not> list_ex (\<lambda>n. n_name n = name) (children tx (n_id parent))"
proof -
  from assms(2) obtain p0 where abs: "abs_path app tx user ref = Inr p0" by (auto simp: parent_of_def run)
  let ?path = "rstrip (CHR ''/'') p0"
  let ?pp = "fst (rpartition (CHR ''/'') ?path)" and ?n0 = "snd (rpartition (CHR ''/'') ?path)"
  from assms(2) abs have ne: "?path \<noteq> []" and name: "name = nfc app ?n0" "name \<noteq> ''.''" "name \<noteq> ''..''" and
    w: "walk app tx user (if ?pp = [] then ''/'' else ?pp) = Inr parent"
    by (auto simp: parent_of_def run Let_def case_prod_beta)
  from assms(1) abs have nf: "walk app tx user p0 = Inl (Fault NOT_FOUND)" by (simp add: resolve_def)
  then have start: "starts_slash p0" by (auto simp: walk_def need_eq_Inl)
  have slash: "CHR ''/'' \<in> set ?path"
  proof -
    obtain n where n: "p0 = ?path @ replicate n (CHR ''/'')" using rstrip_slashes by metis
    from start have "take 1 p0 = ''/''" by (simp add: starts_slash_def)
    with n ne have "hd ?path = CHR ''/''" by (metis hd_append2 hd_take list.sel(1) zero_less_one)
    with ne show ?thesis by (metis hd_in_set)
  qed
  note cut = rpartition_append [OF slash]
  have n0: "?n0 \<noteq> []" using rstrip_last [OF ne] cut by (metis last_snoc)
  have pieces: "path_pieces p0 = path_pieces ?pp @ [?n0]"
  proof -
    have "path_pieces p0 = path_pieces ?path" using rstrip_slashes path_pieces_slashes by metis
    also have "\<dots> = path_pieces ?pp @ path_pieces ?n0" by (subst cut) (rule path_pieces_append)
    also have "path_pieces ?n0 = [?n0]" using n0 rpartition_name by (intro path_pieces_name)
    finally show ?thesis .
  qed
  obtain root where root: "tget (nodes tx) (sys_root app) = Some root" and
    w1: "walk_pieces app tx user root (map (nfc app) (path_pieces ?pp)) = Inr parent"
    using w by (auto simp: walk_def run Let_def split: if_splits)
  have "walk_pieces app tx user root (map (nfc app) (path_pieces p0)) = Inl (Fault NOT_FOUND)"
    using nf root by (auto simp: walk_def Let_def need_eq_Inl)
  then have "walk_pieces app tx user parent [name] = Inl (Fault NOT_FOUND)"
    by (simp add: pieces walk_pieces_append w1 name)
  then have "find (\<lambda>n. n_name n = name) (children tx (n_id parent)) = None"
    using name by (auto simp: need_eq_Inl bindr_def require_def need_some_def somer_def split: sum.splits option.splits if_splits)
  then show ?thesis by (auto simp: find_None_iff list_ex_iff)
qed

text \<open>What opening for creation or truncation does to the nodes.\<close>

definition created :: "node_rec \<Rightarrow> node_rec \<Rightarrow> string \<Rightarrow> db \<Rightarrow> db \<Rightarrow> bool" where
  "created parent n sid tx tx' \<longleftrightarrow>
     nodes tx' = tput (n_id parent) (parent\<lparr>n_revision := n_revision parent + 1\<rparr>)
       (tput (n_id n) (n\<lparr>n_snapshot := Some sid, n_revision := n_revision n + 1\<rparr>) (nodes tx)) \<and>
     uploads tx' = uploads tx \<and> uid_count tx < uid_count tx'"

lemma open_existing_Inr:
  assumes "open_existing app user session mode n tx = Inr (m, e, v, tx')"
  shows "m = n \<and> \<not> n_directory n \<and> nodes tx' = nodes tx \<and> uploads tx' = uploads tx \<and> uid_count tx < uid_count tx'"
proof -
  from assms obtain owner t l t1 where u: "uid app tx = (owner, t)" and
    a: "acquire app owner (n_id n) (s_id session) [] True True True t = Inr (l, t1)" and
    r: "m = n" "\<not> n_directory n" "tx' = t1\<lparr>locks := tdel (lk_id l) (locks t1)\<rparr>"
    by (auto simp: open_existing_def run Let_def split: prod.splits)
  have "nodes t1 = nodes t" "uploads t1 = uploads t" "uid_count t1 = Suc (uid_count t)"
    by (subst acquire_Inr(16) [OF a], simp)+
  with r u show ?thesis by (auto simp: uid_def)
qed

lemma open_create_Inr:
  assumes "open_create app user session path mode tx = Inr (n', tx')"
  shows "\<exists>parent n sid.
     created parent n sid tx tx' \<and> n' = n\<lparr>n_snapshot := Some sid, n_revision := n_revision n + 1\<rparr> \<and>
     (resolve app tx user path = Inr n \<and> \<not> n_directory n \<and> (\<exists>p. n_parent n = Some p \<and> tget (nodes tx) p = Some parent) \<or>
      resolve app tx user path = Inl (Fault NOT_FOUND) \<and> (\<exists>name. parent_of app tx user path = Inr (parent, name) \<and>
        n = (fst (new_node app name (Some (n_id parent)) (u_id user) False 384 tx))\<lparr>n_block_size := block_size_bytes app\<rparr>))"
proof (cases "resolve app tx user path")
  case (Inr n)
  with assms obtain p parent m e v t where
    p: "n_parent n = Some p" "tget (nodes tx) p = Some parent" and
    o1: "open_existing app user session mode n tx = Inr (m, e, v, t)" and
    m: "n' = m\<lparr>n_snapshot := Some (uidgen app (uid_count t)), n_revision := n_revision m + 1\<rparr>"
      "nodes tx' = tput (n_id parent) (parent\<lparr>n_revision := n_revision parent + 1\<rparr>) (tput (n_id m) n' (nodes t))" and
    tx': "uploads tx' = uploads t" "uid_count tx' = Suc (uid_count t)"
    by (auto simp: open_create_def resolve_opt_def run Let_def uid_def bump_def bind_eq_Some_conv)
  have o': "open_existing app user session mode n tx = Inr (n, e, v, t)" and
    n': "n' = n\<lparr>n_snapshot := Some (uidgen app (uid_count t)), n_revision := n_revision n + 1\<rparr>" and
    nodes': "nodes tx' = tput (n_id parent) (parent\<lparr>n_revision := n_revision parent + 1\<rparr>) (tput (n_id n) n' (nodes t))"
    using open_existing_Inr [OF o1] o1 m by simp_all
  from open_existing_Inr [OF o'] show ?thesis
    by (intro exI [of _ parent] exI [of _ n] exI [of _ "uidgen app (uid_count t)"]) (auto simp: created_def Inr p n' tx' nodes')
next
  case (Inl e)
  with assms have e: "e = Fault NOT_FOUND" by (auto simp: open_create_def resolve_opt_def run split: if_splits)
  from assms Inl e obtain parent name where par: "parent_of app tx user path = Inr (parent, name)"
    and free: "\<not> reserved app tx (n_id parent) name"
    by (auto simp: open_create_def resolve_opt_def run)
  let ?n = "(fst (new_node app name (Some (n_id parent)) (u_id user) False 384 tx))\<lparr>n_block_size := block_size_bytes app\<rparr>"
  have "n' = ?n\<lparr>n_snapshot := Some (uidgen app (Suc (uid_count tx))), n_revision := n_revision ?n + 1\<rparr> \<and>
      created parent ?n (uidgen app (Suc (uid_count tx))) tx tx'"
    using assms Inl e par free
    by (auto simp: open_create_def resolve_opt_def run Let_def uid_def bump_def created_def new_node_def)
  with Inl e par show ?thesis by blast
qed

lemma created_fs_ok:
  assumes ok: "fs_ok app tx" "ids_distinct app" "nfc_keeps_slash app"
    and c: "open_create app user session path mode tx = Inr (n', tx')"
  shows "fs_ok app tx'"
proof -
  from ok have tree: "tree_ok app tx" and pend: "pending_ok app tx" by (simp_all add: fs_ok_def)
  from open_create_Inr [OF c] obtain parent n sid where cr: "created parent n sid tx tx'" and
    cases: "resolve app tx user path = Inr n \<and> \<not> n_directory n \<and> (\<exists>p. n_parent n = Some p \<and> tget (nodes tx) p = Some parent) \<or>
      resolve app tx user path = Inl (Fault NOT_FOUND) \<and> (\<exists>name. parent_of app tx user path = Inr (parent, name) \<and>
        n = (fst (new_node app name (Some (n_id parent)) (u_id user) False 384 tx))\<lparr>n_block_size := block_size_bytes app\<rparr>)"
    by blast
  let ?n = "n\<lparr>n_snapshot := Some sid, n_revision := n_revision n + 1\<rparr>"
  from cases show ?thesis
  proof (elim disjE conjE exE)
    fix p
    assume n: "resolve app tx user path = Inr n" "\<not> n_directory n" "n_parent n = Some p" "tget (nodes tx) p = Some parent"
    have stored: "tget (nodes tx) (n_id n) = Some n" using resolve_ok [OF tree n(1)] by (simp add: stored_def)
    have par: "n_id parent = p" by (rule tree_okD(1) [OF tree n(4)])
    let ?mid = "tx\<lparr>nodes := tput (n_id n) ?n (nodes tx)\<rparr>"
    have "uploads_later tx ?mid" by (rule uploads_later_same) simp
    then have mid: "fs_ok app ?mid"
      by (intro fs_ok_touch [OF ok(1) stored, of ?n]) (simp_all add: n(3))
    have late: "uploads_later ?mid tx'" using cr by (intro uploads_later_same) (simp add: created_def)
    have "n_id n \<noteq> p" using no_own_parent [OF stored n(3) tree_okD(3) [OF tree stored]] by simp
    with par n(4) cr show ?thesis
      by (intro fs_ok_touch [OF mid _ _ _ _ _ _ _ late, of parent "parent\<lparr>n_revision := n_revision parent + 1\<rparr>"])
         (simp_all add: created_def)
  next
    fix name
    assume nf: "resolve app tx user path = Inl (Fault NOT_FOUND)" and par: "parent_of app tx user path = Inr (parent, name)"
      and n: "n = (fst (new_node app name (Some (n_id parent)) (u_id user) False 384 tx))\<lparr>n_block_size := block_size_bytes app\<rparr>"
    note po = parent_of_ok [OF tree ok(3) par] and free = not_found_free [OF nf par]
    have id: "n_id ?n = uidgen app (uid_count tx)" "n_parent ?n = Some (n_id parent)" "n_name ?n = name" by (simp_all add: n)
    have ids: "uid_count tx \<le> uid_count tx'" "issued app tx' (n_id ?n)"
      using cr id(1) by (auto simp: created_def intro!: issued_next)
    have new: "tget (nodes tx) (n_id ?n) = None"
      using tree_okD(2) [OF tree] issued_fresh [OF ok(2)] id(1) by (cases "tget (nodes tx) (n_id ?n)") fastforce+
    have nodes': "nodes tx' = tput (n_id parent) (parent\<lparr>n_revision := n_revision parent + 1\<rparr>) (tput (n_id ?n) ?n (nodes tx))"
      using cr by (simp add: created_def)
    have add: "tree_ok app tx'" "extends tx tx'"
      using tree_ok_add_child [OF tree po(1) _ po(3) new id(2) _ _ nodes' ids] po(2,4) free id(3) by auto
    have late: "uploads_later tx tx'" using cr by (intro uploads_later_same) (simp add: created_def)
    have "pending_ok app tx'"
      by (rule pending_ok_add [OF pend add(2) ids(1) late ok(2) order_refl])
         (use nodes' id(1) po(1) in \<open>auto simp: stored_def split: if_splits\<close>)
    with add(1) show ?thesis by (simp add: fs_ok_def)
  qed
qed

lemma quiet_new_handle [simp]: "quiet b (b\<lparr>uid_count := Suc (uid_count b), handles := H\<rparr>)"
  by (rule quiet_frame) simp_all

lemma access_Open_fs_ok:
  assumes ok: "fs_ok app tx" "ids_distinct app" "nfc_keeps_slash app"
    and o': "access_Open app user session path mode tx = Inr (m, tx')"
  shows "fs_ok app tx'"
proof -
  let ?creates = "mode \<in> {MODE_W, MODE_W_PLUS, MODE_X, MODE_X_PLUS}"
  let ?look = "bindr (resolve app tx user path) (\<lambda>n. need (\<not> n_directory n) IS_DIRECTORY (
     bindr (require app tx user n (if mode = MODE_R_PLUS then 6 else 4)) (\<lambda>_. Inr (n, tx))))"
  from o' obtain x where x: "(if ?creates then open_create app user session path mode tx else ?look) = Inr x" and q: "quiet (snd x) tx'"
    by (auto simp: access_Open_def bindr_eq_Inr [of "if _ then _ else _"] bindr_eq_Inr [of "ancestors _ _ _"]
        bindr_eq_Inr [of "handle_message _ _ _"] need_eq_Inr Let_def uid_def simp del: if_split_eq1 split del: if_split)
  have "fs_ok app (snd x)"
  proof (cases ?creates)
    case True
    with x created_fs_ok [OF ok, of user session path mode "fst x" "snd x"] show ?thesis by simp
  next
    case False
    with x ok(1) show ?thesis by (auto simp: run)
  qed
  with q show ?thesis by (rule quiet_fs_ok [rotated])
qed

lemma Open_fs_ok:
  assumes ok: "fs_ok app tx" "ids_distinct app" "nfc_keeps_slash app" and o': "Open app user session path mode tx = Inr (m, tx')"
  shows "fs_ok app tx'"
proof -
  have "fs_ok app tx'" if "local_Open app user session path mode tx = Inr (m, tx')"
    using that ok(1) by (auto simp: local_Open_def run Let_def uid_def intro!: quiet_fs_ok [of app tx] quiet_frame)
  moreover have "fs_ok app tx'" if "protection_Open app user session path mode tx = Inr (m, tx')"
    using that access_Open_fs_ok [OF ok] policy_core same_core_quiet quiet_fs_ok
    by (auto simp: protection_Open_def run) blast+
  ultimately show ?thesis using access_Open_fs_ok [OF ok] o' by (cases "profile app") (auto simp: Open_def)
qed

section \<open>Writes in place\<close>

lemma writable_Inr:
  assumes "writable app tx user session identity = Inr (h, snap, node, cur)"
  shows "tget (handles tx) identity = Some h" "tget (nodes tx) (h_file h) = Some node" "n_alive node"
    "\<exists>s. n_snapshot node = Some s \<and> tget (snapshots tx) s = Some cur" "\<exists>s. h_snapshot h = Some s \<and> tget (snapshots tx) s = Some snap"
    "sr_content_epoch (sn_ref cur) = sr_content_epoch (sn_ref snap)" "h_mode h \<in> set WRITE_MODES" "h_session h = s_id session"
    "handle_live app h" "\<not> h_closed h"
  using assms by (auto simp: writable_def access_handle_def run Let_def bind_eq_Some_conv)

text \<open>A node with content is not the root, so it has a parent.\<close>

lemma content_has_parent:
  assumes "tree_ok app tx" and "tget (nodes tx) k = Some n" and "n_snapshot n \<noteq> None"
  shows "\<exists>p m. n_parent n = Some p \<and> tget (nodes tx) p = Some m \<and> depth_le tx 31 p \<and> name_fine (n_name n)"
proof -
  have pl: "placed app tx n" by (rule tree_okD(4) [OF assms(1,2)])
  then obtain p where p: "n_parent n = Some p" using assms(3) by (cases "n_parent n") (auto simp: placed_def)
  moreover have "depth_le tx 31 p" using tree_okD(3) [OF assms(1,2)] depth_le_child [OF assms(2) p, of 31] by simp
  moreover have "name_fine (n_name n)" using pl p by (simp add: placed_def)
  ultimately show ?thesis using tree_ok_parent [OF assms(1,2) p] by blast
qed

lemma write_operation_Inr:
  assumes "write_operation app user session reference tx = Inr (op, w, h, node, cur)"
  shows "tget (uploads tx) (or_id reference) = Some op" "o_write op = Some w" "o_state op = PREPARING" "o_user op = u_id user"
    "o_session op = s_id session" "o_operation op = reference" "w_control_epoch w = lease_epoch app"
    "\<exists>snap. writable app tx user session (w_handle w) = Inr (h, snap, node, cur)" "h_busy h = Some (o_id op)"
    "h_revision h = w_handle_revision w" "\<exists>ls. map_res (validate app tx (s_id session)) (w_fences w) = Inr ls"
  using assms by (auto simp: write_operation_def run)

lemma access_CommitWrite_Inr:
  assumes "access_CommitWrite app user session req tx = Inr (r, tx')"
  shows "\<exists>op w h node cur blks sid.
     write_operation app user session (cw_operation req) tx = Inr (op, w, h, node, cur) \<and>
     cw_handle req = h_id h \<and> cw_revision req = h_revision h \<and>
     foldr_res (commit_part app tx op node) (zip (w_parts w) (cw_changes req)) (sn_blocks cur) = Inr blks \<and>
     length (cw_changes req) = length (w_parts w) \<and>
     (\<not> w_growing w \<or> sr_size (sn_ref cur) = w_base_size w) \<and> sid = uidgen app (uid_count tx) \<and>
     cr_snapshot r = \<lparr>sr_file = n_id node, sr_content_epoch = o_epoch op, sr_file_version = sr_file_version (sn_ref cur) + 1,
       sr_root = sid, sr_size = max (sr_size (sn_ref cur)) (o_total op), sr_manifest_sha = manifest_hash app blks,
       sr_file_sha = None, sr_block_size = o_block_size op\<rparr> \<and> cr_accepted r = w_length w \<and>
     snapshots tx' = tput sid \<lparr>sn_id = sid, sn_file = n_id node, sn_ref = cr_snapshot r, sn_blocks = blks\<rparr> (snapshots tx) \<and>
     nodes tx' = tput (n_id node) (node\<lparr>n_snapshot := Some sid, n_revision := n_revision node + 1\<rparr>) (nodes tx) \<and>
     uploads tx' = tput (o_id op) (op\<lparr>o_state := COMMITTED, o_result := Some r, o_reserved := 0\<rparr>) (uploads tx) \<and>
     uid_count tx' = Suc (uid_count tx)"
proof -
  from assms obtain op w h node cur blks where
    op: "write_operation app user session (cw_operation req) tx = Inr (op, w, h, node, cur)"
    "cw_handle req = h_id h \<and> cw_revision req = h_revision h"
    "map (fence_intent app) (cw_fences req) = map (fence_intent app) (w_fences w)"
    "length (cw_changes req) = length (w_parts w)"
    "foldr_res (commit_part app tx op node) (zip (w_parts w) (cw_changes req)) (sn_blocks cur) = Inr blks"
    "\<not> w_growing w \<or> sr_size (sn_ref cur) = w_base_size w"
    by (auto simp: access_CommitWrite_def run Let_def)
  define sid where "sid = uidgen app (uid_count tx)"
  define ref where "ref = \<lparr>sr_file = n_id node, sr_content_epoch = o_epoch op, sr_file_version = sr_file_version (sn_ref cur) + 1,
    sr_root = sid, sr_size = max (sr_size (sn_ref cur)) (o_total op), sr_manifest_sha = manifest_hash app blks,
    sr_file_sha = None, sr_block_size = o_block_size op\<rparr>"
  define out where "out = \<lparr>cr_operation = cw_operation req, cr_state = COMMITTED, cr_snapshot = ref, cr_accepted = w_length w,
    cr_degraded = False, cr_target = 1, cr_minimum = 1\<rparr>"
  define done_op where "done_op = op\<lparr>o_state := COMMITTED, o_result := Some out, o_reserved := 0\<rparr>"
  define after where "after = release_operation done_op (tx\<lparr>uid_count := Suc (uid_count tx),
      snapshots := tput sid \<lparr>sn_id = sid, sn_file = n_id node, sn_ref = ref, sn_blocks = blks\<rparr> (snapshots tx),
      nodes := tput (n_id node) (node\<lparr>n_snapshot := Some sid, n_revision := n_revision node + 1\<rparr>) (nodes tx),
      handles := tput (h_id h) (h\<lparr>h_snapshot := Some sid, h_revision := h_revision h + 1\<rparr>) (handles tx),
      uploads := tput (o_id op) done_op (uploads tx)\<rparr>)"
  have "access_CommitWrite app user session req tx = Inr (out, after)"
    using op by (simp add: access_CommitWrite_def Let_def uid_def bump_def need_def guardr_def after_def out_def ref_def done_op_def sid_def)
  with assms have r: "r = out" "tx' = after" by simp_all
  show ?thesis
    using op by (intro exI [of _ op] exI [of _ w] exI [of _ h] exI [of _ node] exI [of _ cur] exI [of _ blks] exI [of _ sid])
      (simp add: r out_def ref_def after_def done_op_def frame sid_def)
qed

lemma access_CommitWrite_fs_ok:
  assumes ok: "fs_ok app tx" and c: "access_CommitWrite app user session req tx = Inr (r, tx')"
  shows "fs_ok app tx'"
proof -
  from ok have tree: "tree_ok app tx" by (simp add: fs_ok_def)
  from access_CommitWrite_Inr [OF c] obtain op w h node cur sid where
    wo: "write_operation app user session (cw_operation req) tx = Inr (op, w, h, node, cur)" and
    tx': "nodes tx' = tput (n_id node) (node\<lparr>n_snapshot := Some sid, n_revision := n_revision node + 1\<rparr>) (nodes tx)"
      "uploads tx' = tput (o_id op) (op\<lparr>o_state := COMMITTED, o_result := Some r, o_reserved := 0\<rparr>) (uploads tx)"
      "uid_count tx' = Suc (uid_count tx)" by blast
  obtain snap where w: "writable app tx user session (w_handle w) = Inr (h, snap, node, cur)"
    using write_operation_Inr(8) [OF wo] by blast
  have node: "tget (nodes tx) (n_id node) = Some node" "n_snapshot node \<noteq> None"
    using writable_Inr(2,4) [OF w] tree_okD(1) [OF tree] by auto
  have up: "tget (uploads tx) (o_id op) = Some op"
    using write_operation_Inr(1) [OF wo] keyedD [OF fs_ok_keyed [OF ok]] by auto
  have later: "uploads_later tx tx'" using up tx'(2) by (auto simp: uploads_later_def op_later_def)
  show ?thesis
    by (rule fs_ok_touch [OF ok node(1) _ _ _ _ _ _ later, of "node\<lparr>n_snapshot := Some sid, n_revision := n_revision node + 1\<rparr>"])
       (use tx' content_has_parent [OF tree node] in auto)
qed

lemma CommitWrite_fs_ok:
  assumes ok: "fs_ok app tx" and c: "CommitWrite app user session req tx = Inr (r, tx')"
  shows "fs_ok app tx'"
proof (cases "profile app = REPLICATED")
  case True
  with c obtain r1 t op where a: "access_CommitWrite app user session req tx = Inr (r1, t)" and
    op: "tget (uploads t) (or_id (cw_operation req)) = Some op" and p: "policy_result app op r1 t = Inr (r, tx')"
    by (auto simp: CommitWrite_def protection_CommitWrite_def run)
  note t = access_CommitWrite_fs_ok [OF ok a]
  have "quiet t tx'" unfolding policy_result_Inr(4) [OF p]
    using op keyedD [OF fs_ok_keyed [OF t] op] by (auto simp: op_later_def intro!: quiet_put_upload)
  with t show ?thesis by (rule quiet_fs_ok)
qed (use c access_CommitWrite_fs_ok [OF ok] in \<open>auto simp: CommitWrite_def\<close>)

text \<open>\<open>BeginWrite\<close> adds one operation and changes locks, placement and its handle.\<close>

definition grows :: "db \<Rightarrow> db \<Rightarrow> bool" where
  "grows tx tx' \<longleftrightarrow> nodes tx' = nodes tx \<and> uploads tx' = uploads tx \<and> uid_count tx \<le> uid_count tx'"

lemma grows_trans: "grows a b \<Longrightarrow> grows b c \<Longrightarrow> grows a c"
  by (simp add: grows_def)

lemma same_core_grows: "same_core a b \<Longrightarrow> grows a b"
  by (simp add: same_core_def grows_def)

lemma gather_locks_Inr:
  assumes "gather_locks app session h wanted fences growing tx = Inr (ls, tx')"
  shows "\<exists>acc ls0 covered has_size.
     foldr_res (cover_fence app tx session (h_id h) wanted) fences ([], [], False) = Inr acc \<and>
     fold (cover_own app session (h_id h) wanted) (tall (locks tx)) acc = (ls0, covered, has_size) \<and>
     (ls = ls0 \<and> tx' = tx \<and> set wanted \<subseteq> set covered \<and> (growing \<longrightarrow> has_size) \<or>
      (\<exists>l. acquire app (h_id h) (h_file h) (h_session h) (filter (\<lambda>i. i \<notin> set covered) (sort (remdups wanted))) False
             (growing \<and> \<not> has_size) True tx = Inr (l, tx') \<and> ls = ls0 @ [l]))"
proof -
  from assms obtain acc where acc: "foldr_res (cover_fence app tx session (h_id h) wanted) fences ([], [], False) = Inr acc"
    by (auto simp: gather_locks_def bindr_eq_Inr)
  obtain ls0 covered has_size where f: "fold (cover_own app session (h_id h) wanted) (tall (locks tx)) acc = (ls0, covered, has_size)"
    by (cases "fold (cover_own app session (h_id h) wanted) (tall (locks tx)) acc") auto
  from assms acc f show ?thesis
    by (intro exI [of _ acc] exI [of _ ls0] exI [of _ covered] exI [of _ has_size])
       (auto simp: gather_locks_def bindr_eq_Inr Let_def filter_empty_conv split: if_splits)
qed

lemma gather_locks_grows:
  assumes "gather_locks app session h wanted fences growing tx = Inr (ls, tx')"
  shows "grows tx tx'"
proof -
  have "grows tx t" if "acquire app i f s is w z a tx = Inr (l, t)" for i f s "is" w z a l t
    using that by (auto simp: acquire_def run Let_def uid_def grows_def)
  moreover have "grows tx tx" by (simp add: grows_def)
  ultimately show ?thesis using gather_locks_Inr [OF assms] by blast
qed

lemma assign_replacement_grows: "assign_replacement app i base repl tx = Inr tx' \<Longrightarrow> grows tx tx'"
  by (auto simp: assign_replacement_def run Let_def new_task_def uid_def grows_def split: option.splits prod.splits)

lemma plan_part_step:
  assumes "plan_part app user node snap part (op, planned, tx) = Inr (op', planned', tx')"
  shows "\<exists>A W. op' = op\<lparr>o_allocations := A, o_write := W\<rparr>" "nodes tx' = nodes tx" "uid_count tx \<le> uid_count tx'"
    "uploads tx' = tput (o_id op) op' (uploads tx)"
proof -
  let ?base = "case block_at snap (wp_index part) of Some b \<Rightarrow> b | None \<Rightarrow> empty_ref (n_id node) (wp_index part)"
  let ?t = "tx\<lparr>uid_count := Suc (uid_count tx)\<rparr>"
  from assms obtain repl t1 t2 p q where
    a: "(if br_version ?base = [] then Inr ?t else assign_replacement app (o_id op) ?base repl ?t) = Inr t1" and
    p: "plan app repl user (op_binding op) False t1 = Inr (p, t2)" and
    out: "op' = op\<lparr>o_allocations := dict_put (wp_index part) repl (o_allocations op),
        o_write := map_option (\<lambda>w. w\<lparr>w_parts := w_parts w @ [\<lparr>pt_part = part, pt_base = ?base, pt_replacement = repl, pt_plan = q\<rparr>]\<rparr>) (o_write op)\<rparr>"
      "tx' = put_upload op' t2"
    by (auto simp: plan_part_def uid_def Let_def bindr_eq_Inr split del: if_split)
  have "grows ?t t1" using a by (auto simp: grows_def split: if_splits dest: assign_replacement_grows)
  with same_core_grows [OF plan_core [OF p]] have g: "grows ?t t2" by (blast intro: grows_trans)
  have id: "o_id op' = o_id op" by (simp add: out)
  show "\<exists>A W. op' = op\<lparr>o_allocations := A, o_write := W\<rparr>" using out by blast
  show "nodes tx' = nodes tx" "uid_count tx \<le> uid_count tx'" "uploads tx' = tput (o_id op) op' (uploads tx)"
    using g id by (simp_all add: grows_def out(2))
qed

lemma plan_parts_step:
  assumes "foldr_res (plan_part app user node snap) parts (op, planned, tx) = Inr (op', planned', tx')"
    and "tget (uploads tx) (o_id op) = Some op"
  shows "(\<exists>A W. op' = op\<lparr>o_allocations := A, o_write := W\<rparr>) \<and> nodes tx' = nodes tx \<and> uid_count tx \<le> uid_count tx' \<and>
    uploads tx' = tput (o_id op) op' (uploads tx)"
  using assms
proof (induction parts arbitrary: op planned tx)
  case Nil
  then have "op' = op" "tx' = tx" by simp_all
  with Nil show ?case
    by (intro conjI exI [of _ "o_allocations op"] exI [of _ "o_write op"]) (simp_all add: tput_same)
next
  case (Cons part parts)
  from Cons.prems obtain op1 planned1 tx1 where
    a: "plan_part app user node snap part (op, planned, tx) = Inr (op1, planned1, tx1)" and
    r: "foldr_res (plan_part app user node snap) parts (op1, planned1, tx1) = Inr (op', planned', tx')"
    by (auto simp: bindr_eq_Inr)
  obtain A W where op1: "op1 = op\<lparr>o_allocations := A, o_write := W\<rparr>" using plan_part_step(1) [OF a] by blast
  then have id: "o_id op1 = o_id op" by simp
  with plan_part_step(4) [OF a] have "tget (uploads tx1) (o_id op1) = Some op1" by simp
  from Cons.IH [OF r this] plan_part_step(2-4) [OF a] id op1 show ?case by (auto simp: tput_tput)
qed

lemma activate_locks_frame:
  "nodes (activate_locks i ls tx) = nodes tx" "uploads (activate_locks i ls tx) = uploads tx"
  "uid_count (activate_locks i ls tx) = uid_count tx"
  by (induction ls arbitrary: tx) (auto simp: activate_locks_def)

definition begun :: "app \<Rightarrow> string \<Rightarrow> begin_write_req \<Rightarrow> upload_rec \<Rightarrow> handle_rec \<Rightarrow> node_rec \<Rightarrow> db \<Rightarrow> db \<Rightarrow> bool" where
  "begun app i req op h node tx tx' \<longleftrightarrow>
     o_id op = i \<and> i = uidgen app (uid_count tx) \<and> o_parent op = (case n_parent node of Some p \<Rightarrow> p | None \<Rightarrow> '''') \<and>
     o_name op = n_name node \<and> o_file op = n_id node \<and> o_base op = h_snapshot h \<and>
     nodes tx' = nodes tx \<and> uid_count tx < uid_count tx' \<and> uploads tx' = tput i op (uploads tx)"

lemma access_BeginWrite_begun:
  assumes "access_BeginWrite app user session cx req tx = Inr (r, tx')"
  shows "\<exists>op h snap node cur. writable app tx user session (bw_handle req) = Inr (h, snap, node, cur) \<and>
     begun app (or_id (wl_operation r)) req op h node tx tx'"
proof -
  from assms obtain h snap node cur offset len stop cursor ls t1 where
    w: "writable app tx user session (bw_handle req) = Inr (h, snap, node, cur)" and
    v: "h_busy h = None" "bw_base req = sn_ref snap" "bw_offset req = Some offset" "bw_length req = Some len"
      "length (bw_sha req) = 32" "checked_range offset len (Some MAX_DELTA) = Inr stop" "offset \<le> sr_size (bw_base req)"
      "stop \<le> max_file_bytes app" "\<not> stop > sr_size (bw_base req) \<or> sr_size (sn_ref cur) = sr_size (bw_base req)"
      "length (bw_parts req) \<le> 5" "check_parts offset len (sr_block_size (bw_base req)) (bw_parts req) 0 = Inr cursor"
      "cursor = len \<and> (len > 0 \<or> bw_sha req = sha256 app '''')"
      "list_all (\<lambda>p. block_at snap (wp_index p) = block_at cur (wp_index p)) (bw_parts req)" "length (bw_fences req) \<le> 6" and
    g: "gather_locks app session h (map wp_index (bw_parts req)) (bw_fences req) (stop > sr_size (bw_base req))
          (tx\<lparr>uid_count := Suc (uid_count tx)\<rparr>) = Inr (ls, t1)"
    by (auto simp: access_BeginWrite_def bindr_eq_Inr need_eq_Inr need_some_eq_Inr Let_def uid_def)
  let ?i = "uidgen app (uid_count tx)"
  let ?sized = "sr_block_size (bw_base req)" and ?growing = "stop > sr_size (bw_base req)"
  let ?ref = "\<lparr>or_id = ?i, or_request = cx_request_id cx, or_intent = cx_intent cx\<rparr>"
  define op where "op = \<lparr>o_id = ?i, o_operation = ?ref, o_request = cx_request_id cx, o_user = u_id user,
     o_session = s_id session, o_parent = (case n_parent node of Some p \<Rightarrow> p | None \<Rightarrow> ''''), o_name = n_name node, o_file = n_id node,
     o_base = h_snapshot h, o_version = n_revision node, o_block_size = ?sized,
     o_total = max (sr_size (bw_base req)) stop, o_sha = '''', o_state = PREPARING,
     o_expires = h_expires h, o_max_expires = h_expires h, o_epoch = sr_content_epoch (bw_base req),
     o_reserved = 0, o_allocations = [], o_pages = [], o_sealed = None, o_result = None,
     o_locks = map lk_id ls, o_full_fence = None, o_policy = None,
     o_write = Some \<lparr>w_handle = h_id h, w_handle_revision = h_revision h, w_control_epoch = lease_epoch app,
       w_offset = offset, w_length = len, w_growing = ?growing, w_base_size = sr_size (bw_base req),
       w_fences = map (lock_message app) ls, w_parts = [], w_begin = req\<rparr>\<rparr>"
  define fin where "fin o' t = (if len \<noteq> 0 then (o', put_handle (h\<lparr>h_busy := Some ?i\<rparr>) t)
     else let o' = o'\<lparr>o_state := COMMITTED, o_result := Some \<lparr>cr_operation = ?ref, cr_state = COMMITTED,
              cr_snapshot = bw_base req, cr_accepted = 0, cr_degraded = False, cr_target = 1, cr_minimum = 1\<rparr>\<rparr>
          in (o', release_operation o' t))" for o' t
  have eq: "access_BeginWrite app user session cx req tx =
     bindr (foldr_res (plan_part app user node snap) (bw_parts req) (op, [], put_upload op t1)) (\<lambda>(op, planned, t).
       let (op, t) = fin op (activate_locks ?i ls t) in
       Inr (\<lparr>wl_operation = ?ref, wl_blocks = planned, wl_fences = map (lock_message app) ls, wl_base = bw_base req, wl_minimum = 0\<rparr>,
            put_upload op t))"
    using w v g by (simp add: access_BeginWrite_def Let_def uid_def op_def fin_def need_def guardr_def)
  from assms eq obtain op1 planned t2 where
    pl: "foldr_res (plan_part app user node snap) (bw_parts req) (op, [], put_upload op t1) = Inr (op1, planned, t2)" and
    r: "wl_operation r = ?ref" "tx' = put_upload (fst (fin op1 (activate_locks ?i ls t2))) (snd (fin op1 (activate_locks ?i ls t2)))"
    by (auto simp: bindr_eq_Inr Let_def case_prod_beta)
  have id: "o_id op = ?i" by (simp add: op_def)
  have t2: "\<exists>A W. op1 = op\<lparr>o_allocations := A, o_write := W\<rparr>" "nodes t2 = nodes t1" "uid_count t1 \<le> uid_count t2"
      "uploads t2 = tput ?i op1 (uploads t1)"
    using plan_parts_step [OF pl] id by (auto simp: tput_tput)
  have t1: "nodes t1 = nodes tx" "uploads t1 = uploads tx" "Suc (uid_count tx) \<le> uid_count t1"
    using gather_locks_grows [OF g] by (simp_all add: grows_def)
  let ?op = "fst (fin op1 (activate_locks ?i ls t2))"
  have same: "o_id ?op = ?i" "o_parent ?op = o_parent op" "o_name ?op = o_name op" "o_file ?op = o_file op" "o_base ?op = o_base op"
    using t2(1) id by (auto simp: fin_def Let_def)
  have "nodes tx' = nodes tx" "uid_count tx < uid_count tx'" "uploads tx' = tput ?i ?op (uploads tx)"
    using t1 t2 same(1) by (auto simp: r(2) fin_def Let_def frame activate_locks_frame tput_tput)
  with same r(1) w show ?thesis
    by (intro exI [of _ ?op] exI [of _ h] exI [of _ snap] exI [of _ node] exI [of _ cur]) (simp add: begun_def op_def)
qed

lemma access_BeginWrite_fs_ok:
  assumes ok: "fs_ok app tx" and distinct: "ids_distinct app" and b: "access_BeginWrite app user session cx req tx = Inr (r, tx')"
  shows "fs_ok app tx'"
proof -
  from ok have tree: "tree_ok app tx" and pend: "pending_ok app tx" by (simp_all add: fs_ok_def)
  from access_BeginWrite_begun [OF b] obtain op h snap node cur i where
    w: "writable app tx user session (bw_handle req) = Inr (h, snap, node, cur)" and bg: "begun app i req op h node tx tx'" by blast
  have node: "tget (nodes tx) (n_id node) = Some node" "n_snapshot node \<noteq> None" "h_snapshot h \<noteq> None"
    using writable_Inr(2,4,5) [OF w] tree_okD(1) [OF tree] by auto
  obtain p m where p: "n_parent node = Some p" "tget (nodes tx) p = Some m" "depth_le tx 31 p" "name_fine (n_name node)"
    using content_has_parent [OF tree node(1,2)] by blast
  have tx': "nodes tx' = nodes tx" "uid_count tx \<le> uid_count tx'" "uploads tx' = tput (o_id op) op (uploads tx)"
    "uid_count tx < uid_count tx'" and id: "o_id op = uidgen app (uid_count tx)"
    using bg by (auto simp: begun_def)
  have iss: "issued app tx' (o_id op)" using issued_next [OF tx'(4), of app] id by simp
  have fi: "issued app tx' (n_id node)" using tree_okD(2) [OF tree node(1)] tx'(2) by (rule issued_mono)
  have "depth_le tx' 31 p" using depth_le_extends [OF p(3) extends_refl [OF tx'(1)]] .
  then have up: "upload_ok app tx' op"
    using bg p node iss fi by (auto simp: upload_ok_def begun_def)
  have new: "tget (uploads tx) (o_id op) = None"
    using pending_issued [OF pend] issued_fresh [OF distinct] id by (cases "tget (uploads tx) (o_id op)") force+
  have "pending_ok app tx'"
    by (rule pending_ok_new [OF pend tx'(1-3) new up]) (use bg node(3) in \<open>auto simp: begun_def\<close>)
  with tree_ok_nodes [OF tree tx'(1,2)] show ?thesis by (simp add: fs_ok_def)
qed

lemma BeginWrite_fs_ok:
  assumes ok: "fs_ok app tx" and distinct: "ids_distinct app" and b: "BeginWrite app user session cx req tx = Inr (r, tx')"
  shows "fs_ok app tx'"
proof (cases "profile app = REPLICATED")
  case True
  with b obtain r1 t op t1 where a: "access_BeginWrite app user session cx req tx = Inr (r1, t)" and
    op: "tget (uploads t) (or_id (wl_operation r1)) = Some op" and c: "capture_policy app op t = Inr t1" and
    rest: "tx' = t1 \<or> (\<exists>q res x. policy_result app (op\<lparr>o_policy := q\<rparr>) res t1 = Inr (x, tx'))"
    by (auto simp: BeginWrite_def protection_BeginWrite_def run Let_def split: if_splits) blast+
  note t = access_BeginWrite_fs_ok [OF ok distinct a]
  have "o_id op = or_id (wl_operation r1)" using keyedD [OF fs_ok_keyed [OF t] op] .
  with op have opt: "tget (uploads t) (o_id op) = Some op" by simp
  note q = capture_policy_quiet [OF c opt]
  note t1 = quiet_fs_ok [OF t q]
  obtain a1 where "tget (uploads t1) (o_id op) = Some a1" "op_later op a1"
    using c opt by (auto simp: capture_policy_def run op_later_def)
  moreover have "o_state a1 = o_state op" if "tget (uploads t1) (o_id op) = Some a1" for a1
    using c that by (auto simp: capture_policy_def run)
  ultimately have "quiet t1 tx'" if "policy_result app (op\<lparr>o_policy := q\<rparr>) res t1 = Inr (x, tx')" for q res x
    unfolding policy_result_Inr(4) [OF that] by (auto simp: op_later_def intro!: quiet_put_upload)
  with rest have "quiet t1 tx'" by blast
  with t1 show ?thesis by (rule quiet_fs_ok)
qed (use b access_BeginWrite_fs_ok [OF ok distinct] in \<open>auto simp: BeginWrite_def\<close>)

end
