(* ===== verification/Rpc.thy ===== *)
theory Rpc
  imports Identity
begin

text \<open>
  The shell around every operation (\<^verbatim>\<open>credentials\<close> to \<^verbatim>\<open>unary_once\<close> of
  \<^verbatim>\<open>src/src/dfsha/control/monolith.py\<close>): credentials, the request context, the ledger that makes a
  repeated request return the first answer, \<^verbatim>\<open>Login\<close> with its rate limits, and the two units of work
  of a command.

  \<open>encode\<close> and \<open>decode\<close> stand for the protobuf codec of the response type,
  \<^verbatim>\<open>aead_seal\<close> and \<^verbatim>\<open>aead_open\<close> for AES-GCM with the master key. The nonce of an encryption is
  drawn like an identifier. What the ledger relies on is \<open>codec_ok\<close>.
\<close>

section \<open>Definitions\<close>

text \<open>
  The values of the \<^verbatim>\<open>authorization\<close> header. \<open>b64\<close> is the strict base64 decoder of the
  standard library, \<open>None\<close> where it raises \<^verbatim>\<open>ValueError\<close>.
\<close>

definition credentials :: "(string \<Rightarrow> string option) \<Rightarrow> string list \<Rightarrow> string res" where
  "credentials b64 headers =
     (case headers of
        [v] \<Rightarrow> need (take 7 v = ''Bearer '') UNAUTHENTICATED (need_some (b64 (drop 7 v)) UNAUTHENTICATED Inr)
      | _ \<Rightarrow> Inl (Fault UNAUTHENTICATED))"

text \<open>A request as the shell sees it: its context, its dictionary, and its password field if it has one.\<close>

record call =
  cl_cx :: req_ctx
  cl_dict :: json
  cl_password :: "string option"
  cl_username :: string
  cl_user_id :: string

definition authenticated :: "app \<Rightarrow> db \<Rightarrow> string \<Rightarrow> req_ctx \<Rightarrow> (user_rec \<times> session_rec) res" where
  "authenticated app tx token cx =
     bindr (authenticate app tx token) (\<lambda>(user, session).
     bindr (uuid (cx_request_id cx)) (\<lambda>_.
     need (cx_user_id cx = u_id user \<and> cx_service_epoch cx = sys_epoch app) UNAUTHENTICATED (
     Inr (user, session))))"

definition ledger_id :: "app \<Rightarrow> user_rec \<Rightarrow> req_ctx \<Rightarrow> string" where
  "ledger_id app user cx = sys_epoch app @ '':'' @ u_id user @ '':'' @ cx_request_id cx"

definition replay :: "app \<Rightarrow> (string \<Rightarrow> 'r) \<Rightarrow> user_rec \<Rightarrow> call \<Rightarrow> string \<Rightarrow> db \<Rightarrow> 'r option res" where
  "replay app decode user call rpc tx =
     need (cx_intent (cl_cx call) = intent app (cl_dict call)) INVALID_ARGUMENT (
     case tget (ledger tx) (ledger_id app user (cl_cx call)) of
       None \<Rightarrow> Inr None
     | Some previous \<Rightarrow>
         need (lg_rpc previous = rpc \<and> lg_digest previous = hex (intent app (cl_dict call))) IDEMPOTENCY_MISMATCH (
         bindr (case cl_password call of
                  None \<Rightarrow> Inr ()
                | Some password \<Rightarrow>
                    somer (lg_verifier previous) KeyError (\<lambda>v.
                    bindr (matches app v password) (\<lambda>same. need same IDEMPOTENCY_MISMATCH (Inr ())))) (\<lambda>_.
         somer (aead_open app (lg_response previous)) InvalidTag (\<lambda>bytes. Inr (Some (decode bytes))))))"

text \<open>The account whose password hash is kept to compare a repeated request with.\<close>

definition verifier_of :: "call \<Rightarrow> string \<Rightarrow> db \<Rightarrow> string option res" where
  "verifier_of call rpc tx =
     (case cl_password call of
        None \<Rightarrow> Inr None
      | Some _ \<Rightarrow>
          if rpc = ''ChangePassword''
          then deref (tget (users tx) (cl_user_id call)) (\<lambda>u. Inr (Some (u_password u)))
          else somer (find (\<lambda>u. u_username u = cl_username call) (tall (users tx))) StopIteration
                 (\<lambda>u. Inr (Some (u_password u))))"

definition remember :: "app \<Rightarrow> ('r \<Rightarrow> string) \<Rightarrow> user_rec \<Rightarrow> call \<Rightarrow> string \<Rightarrow> 'r \<Rightarrow> db \<Rightarrow> db res" where
  "remember app encode user call rpc response tx =
     bindr (verifier_of call rpc tx) (\<lambda>verifier.
     let k = ledger_id app user (cl_cx call) in
     Inr (tx\<lparr>ledger := tput k \<lparr>lg_id = k, lg_rpc = rpc, lg_digest = hex (intent app (cl_dict call)),
                lg_response = aead_seal app (uid_count tx) (encode response), lg_verifier = verifier\<rparr> (ledger tx),
             uid_count := Suc (uid_count tx)\<rparr>))"

text \<open>First unit of work of a command: authentication and an earlier answer, if there is one.\<close>

definition look_up :: "app \<Rightarrow> (string \<Rightarrow> 'r) \<Rightarrow> string \<Rightarrow> call \<Rightarrow> string \<Rightarrow> db \<Rightarrow> 'r option res" where
  "look_up app decode token call rpc tx =
     (let cx = cl_cx call;
          old = (if rpc = ''Logout'' then tget (sessions tx) (hex (sha256 app token)) else None) in
      case old of
        Some s \<Rightarrow>
          if s_revoked s then
            deref (tget (users tx) (s_user s)) (\<lambda>user.
            need (cx_user_id cx = u_id user \<and> cx_service_epoch cx = sys_epoch app) UNAUTHENTICATED (
            bindr (uuid (cx_request_id cx)) (\<lambda>_.
            bindr (replay app decode user call rpc tx) (\<lambda>previous.
            need (previous \<noteq> None) UNAUTHENTICATED (Inr previous)))))
          else bindr (authenticated app tx token cx) (\<lambda>(user, _). replay app decode user call rpc tx)
      | None \<Rightarrow> bindr (authenticated app tx token cx) (\<lambda>(user, _). replay app decode user call rpc tx))"

text \<open>Second unit of work: the checks again, the handler, and the ledger row.\<close>

definition perform :: "app \<Rightarrow> (string \<Rightarrow> 'r) \<Rightarrow> ('r \<Rightarrow> string) \<Rightarrow> (user_rec \<Rightarrow> session_rec \<Rightarrow> db \<Rightarrow> ('r \<times> db) res) \<Rightarrow>
    string \<Rightarrow> call \<Rightarrow> string \<Rightarrow> db \<Rightarrow> ('r \<times> db) res" where
  "perform app decode encode handler token call rpc tx =
     bindr (authenticated app tx token (cl_cx call)) (\<lambda>(user, session).
     bindr (replay app decode user call rpc tx) (\<lambda>previous.
     case previous of
       Some r \<Rightarrow> Inr (r, tx)
     | None \<Rightarrow>
         bindr (handler user session tx) (\<lambda>(response, tx).
         bindr (remember app encode user call rpc response tx) (\<lambda>tx.
         Inr (response, tx)))))"

text \<open>
  A command, from the store at its first unit of work (\<open>tx1\<close>) to the store at its second
  (\<open>tx2\<close>); other commands may run in between. An answer found first leaves the store alone.
\<close>

definition unary_once :: "app \<Rightarrow> (string \<Rightarrow> 'r) \<Rightarrow> ('r \<Rightarrow> string) \<Rightarrow> (user_rec \<Rightarrow> session_rec \<Rightarrow> db \<Rightarrow> ('r \<times> db) res) \<Rightarrow>
    string \<Rightarrow> call \<Rightarrow> string \<Rightarrow> db \<Rightarrow> db \<Rightarrow> ('r \<times> db) res" where
  "unary_once app decode encode handler token call rpc tx1 tx2 =
     bindr (look_up app decode token call rpc tx1) (\<lambda>previous.
     case previous of
       Some r \<Rightarrow> Inr (r, tx2)
     | None \<Rightarrow> perform app decode encode handler token call rpc tx2)"

definition unary_query :: "app \<Rightarrow> (user_rec \<Rightarrow> session_rec \<Rightarrow> 'r res) \<Rightarrow> string \<Rightarrow> req_ctx \<Rightarrow> db \<Rightarrow> 'r res" where
  "unary_query app query token cx tx =
     bindr (authenticated app tx token cx) (\<lambda>(user, session). query user session)"

section \<open>Login\<close>

record session_msg =
  sm_id :: string
  sm_user :: string
  sm_token :: string
  sm_expires :: int
  sm_epoch :: string

fun be_int :: "string \<Rightarrow> int" where
  "be_int bs = foldl (\<lambda>a c. a * 256 + int (of_char c)) 0 bs"

definition login_bucket :: "app \<Rightarrow> string \<Rightarrow> string" where
  "login_bucket app username = ''login-'' @ dec_int (be_int (take 4 (sha256 app username)) mod 64)"

definition count_rate :: "app \<Rightarrow> string \<times> int \<Rightarrow> db \<Rightarrow> db res" where
  "count_rate app = (\<lambda>(identity, limit) tx.
     let window = now_ms app div 60000;
         rate0 = (case tget (auth_rates tx) identity of Some r \<Rightarrow> r
                  | None \<Rightarrow> \<lparr>ar_id = identity, ar_window = window, ar_count = 0\<rparr>);
         rate = (if ar_window rate0 \<noteq> window then rate0\<lparr>ar_window := window, ar_count := 0\<rparr> else rate0)
     in need (ar_count rate < limit) LIMIT_EXCEEDED (
        Inr (tx\<lparr>auth_rates := tput (ar_id rate) (rate\<lparr>ar_count := ar_count rate + 1\<rparr>) (auth_rates tx)\<rparr>)))"

definition login_rates :: "app \<Rightarrow> string \<Rightarrow> db \<Rightarrow> db res" where
  "login_rates app username tx =
     (if protected_store app
      then foldr_res (count_rate app) [(''login-global'', 60), (login_bucket app username, 10)] tx
      else Inr tx)"

definition DUMMY_HASH :: string where
  "DUMMY_HASH = ''$argon2id$v=19$m=19456,t=2,p=1$ZGYtc2hhLWR1bW15LXNhbHQ$AoSIjKnHgcYoiDZOGtzyEMrePTYVKYnGNoh++8ucPeE''"

definition login_check :: "app \<Rightarrow> string \<Rightarrow> string \<Rightarrow> db \<Rightarrow> user_rec res" where
  "login_check app username password tx =
     (let user = find (\<lambda>u. u_username u = username) (tall (users tx)) in
      bindr (matches app (case user of Some u \<Rightarrow> u_password u | None \<Rightarrow> DUMMY_HASH) password) (\<lambda>valid.
      need_some user UNAUTHENTICATED (\<lambda>u.
      need (\<not> u_disabled u \<and> valid) UNAUTHENTICATED (
      Inr u))))"

definition login_issue :: "app \<Rightarrow> (string \<Rightarrow> session_msg) \<Rightarrow> (session_msg \<Rightarrow> string) \<Rightarrow> string \<Rightarrow> string \<Rightarrow> user_rec \<Rightarrow> db \<Rightarrow>
    (session_msg \<times> db) res" where
  "login_issue app decode encode login_id token user tx =
     (let (sid, tx) = uid app tx;
          session = \<lparr>s_id = hex (sha256 app token), s_session_id = sid, s_user = u_id user,
                     s_expires = now_ms app + 3600000, s_revoked = False\<rparr>;
          msg = \<lparr>sm_id = sid, sm_user = u_id user, sm_token = token, sm_expires = s_expires session, sm_epoch = sys_epoch app\<rparr>
      in deref (tget (users tx) (u_id user)) (\<lambda>current.
         need (\<not> u_disabled current \<and> u_password current = u_password user) UNAUTHENTICATED (
         if \<not> protected_store app then Inr (msg, put_session session tx)
         else (case tget (login_results tx) login_id of
             Some previous \<Rightarrow>
               need_some (tget (sessions tx) (li_session previous)) UNAUTHENTICATED (\<lambda>live.
               need (\<not> s_revoked live \<and> s_expires live > now_ms app) UNAUTHENTICATED (
               need (etcd_backend app \<longrightarrow> session_leased app live) UNAUTHENTICATED (
               somer (aead_open app (li_response previous)) InvalidTag (\<lambda>bytes. Inr (decode bytes, tx)))))
           | None \<Rightarrow>
               let active = filter (\<lambda>s. \<not> s_revoked s \<and> s_expires s > now_ms app) (tall (sessions tx)) in
               need (length active < 128 \<and> length (filter (\<lambda>s. s_user s = u_id user) active) < 8) LIMIT_EXCEEDED (
               let tx = put_session session tx;
                   sealed = aead_seal app (uid_count tx) (encode msg);
                   tx = tx\<lparr>uid_count := Suc (uid_count tx)\<rparr>
               in Inr (msg, tx\<lparr>login_results := tput login_id \<lparr>li_id = login_id, li_session = s_id session,
                    li_expires = s_expires session, li_response = sealed\<rparr> (login_results tx)\<rparr>))))))"

text \<open>
  The three units of work of \<^verbatim>\<open>Login\<close>. \<open>others i\<close> is what other calls do to the store between two of them. The
  counters of the first stay when a later one fails, so the store comes with either outcome.
\<close>

definition Login :: "app \<Rightarrow> (string \<Rightarrow> session_msg) \<Rightarrow> (session_msg \<Rightarrow> string) \<Rightarrow> (nat \<Rightarrow> db \<Rightarrow> db) \<Rightarrow> string \<Rightarrow> string \<Rightarrow> string \<Rightarrow>
    string \<Rightarrow> db \<Rightarrow> session_msg res \<times> db" where
  "Login app decode encode others request_id username password token tx =
     (case bindr (uuid request_id) (\<lambda>_.
           need (1 \<le> length username \<and> length username \<le> 64 \<and> length password \<le> 1024) UNAUTHENTICATED (
           login_rates app username tx)) of
        Inl e \<Rightarrow> (Inl e, tx)
      | Inr tx1 \<Rightarrow>
          let login_id = hex (sha256 app (username @ [CHR 0x00] @ request_id)) in
          case login_check app username password (others 0 tx1) of
            Inl e \<Rightarrow> (Inl e, others 0 tx1)
          | Inr user \<Rightarrow>
              case login_issue app decode encode login_id token user (others 1 (others 0 tx1)) of
                Inl e \<Rightarrow> (Inl e, others 1 (others 0 tx1))
              | Inr (msg, tx2) \<Rightarrow> (Inr msg, tx2))"

section \<open>The ledger\<close>

definition codec_ok :: "app \<Rightarrow> (string \<Rightarrow> 'r) \<Rightarrow> ('r \<Rightarrow> string) \<Rightarrow> bool" where
  "codec_ok app decode encode \<longleftrightarrow>
     (\<forall>r. decode (encode r) = r) \<and> (\<forall>i s. aead_open app (aead_seal app i s) = Some s)"

lemma authenticated_Inr:
  "authenticated app tx token cx = Inr (user, session) \<longleftrightarrow>
     authenticate app tx token = Inr (user, session) \<and> is_uuid (cx_request_id cx) \<and>
     cx_user_id cx = u_id user \<and> cx_service_epoch cx = sys_epoch app"
  by (auto simp: authenticated_def run uuid_def)

lemma remember_Inr:
  assumes "remember app encode user call rpc r tx = Inr tx'"
  obtains v where "ledger tx' = tput (ledger_id app user (cl_cx call))
       \<lparr>lg_id = ledger_id app user (cl_cx call), lg_rpc = rpc, lg_digest = hex (intent app (cl_dict call)),
        lg_response = aead_seal app (uid_count tx) (encode r), lg_verifier = v\<rparr> (ledger tx)"
    "tx' = tx\<lparr>ledger := ledger tx', uid_count := Suc (uid_count tx)\<rparr>"
  using assms by (auto simp: remember_def run Let_def)

section \<open>Login\<close>

lemma login_issue_session:
  assumes "login_issue app decode encode lid token user tx = Inr (m, tx')" and "\<not> protected_store app"
  shows "sm_token m = token" "sm_user m = u_id user"
    "tget (sessions tx') (hex (sha256 app token)) = Some \<lparr>s_id = hex (sha256 app token), s_session_id = sm_id m,
       s_user = u_id user, s_expires = now_ms app + 3600000, s_revoked = False\<rparr>"
    "users tx' = users tx" "\<exists>c. tget (users tx) (u_id user) = Some c \<and> \<not> u_disabled c"
  using assms by (auto simp: login_issue_def Let_def run uid_def)

lemma login_check_Inr:
  "login_check app username password tx = Inr u \<longleftrightarrow>
     find (\<lambda>u. u_username u = username) (tall (users tx)) = Some u \<and> \<not> u_disabled u \<and>
     length password \<le> 1024 \<and> slot_free app \<and> pw_verify app (u_password u) password"
  by (auto simp: login_check_def run Let_def matches_def split: if_splits)

end
