(* ===== verification/Cluster.thy ===== *)
theory Cluster
  imports Writes Rpc
begin

text \<open>
  What DataNodes and administrators ask of the control node (\<^verbatim>\<open>distributed.py\<close>, \<^verbatim>\<open>patch_authority.py\<close>
  and the overrides of \<^verbatim>\<open>replication.py\<close> under \<^verbatim>\<open>src/src/dfsha/control\<close>): registration, heartbeats and
  inventories, authorization of block transfers, receipts of stored blocks, tasks and their
  reports, and the retirement of copies.

  \<open>peer\<close> is the identity in the TLS certificate of the caller. A remote procedure that opens a
  read transaction for its checks and then a write transaction is run on one store.
\<close>

section \<open>Which blocks are in use\<close>

definition snapshot_pins :: "app \<Rightarrow> db \<Rightarrow> string list" where
  "snapshot_pins app tx =
     List.map_filter (\<lambda>n. if n_alive n then n_snapshot n else None) (tall (nodes tx)) @
     List.map_filter (\<lambda>h. if \<not> h_closed h \<and> handle_live app h then h_snapshot h else None) (tall (handles tx))"

text \<open>The pins of a migrated installation, which only \<^verbatim>\<open>HAControl\<close> has.\<close>

definition migrated_snapshots :: "app \<Rightarrow> db \<Rightarrow> string list" where
  "migrated_snapshots app tx = (if etcd_backend app then tall (migration_pins tx) else [])"

definition useful :: "app \<Rightarrow> db \<Rightarrow> (string \<times> block_ref) list" where
  "useful app tx =
     (let pins = snapshot_pins app tx;
          refs = concat (map sn_blocks (filter (\<lambda>s. sn_id s \<in> set pins) (tall (snapshots tx)))) @
                 concat (map (\<lambda>op. map snd (o_allocations op)) (filter (\<lambda>op. operation_live app tx (Some op)) (tall (uploads tx)))) @
                 concat (map (\<lambda>i. case tget (snapshots tx) i of None \<Rightarrow> [] | Some s \<Rightarrow> sn_blocks s) (migrated_snapshots app tx))
      in fold (\<lambda>b. dict_put (br_version b) b) refs [])"

definition is_useful :: "app \<Rightarrow> db \<Rightarrow> string \<Rightarrow> bool" where
  "is_useful app tx v \<longleftrightarrow> v \<in> set (map fst (useful app tx))"

section \<open>Retirement of copies\<close>

definition cluster_retire_copy :: "app \<Rightarrow> block_ref \<Rightarrow> string \<Rightarrow> db \<Rightarrow> db" where
  "cluster_retire_copy app ref node tx =
     (let identity = location_key (br_version ref) node in
      case tget (retirements tx) identity of
        Some _ \<Rightarrow> tx
      | None \<Rightarrow>
          let (t, tx) = new_task app DELETE ref '''' node tx;
              tx = put_task t tx
          in tx\<lparr>retirements := tput identity (t_id t) (retirements tx)\<rparr>)"

definition replicated_retire_copy :: "app \<Rightarrow> block_ref \<Rightarrow> string \<Rightarrow> db \<Rightarrow> db" where
  "replicated_retire_copy app ref node tx =
     (let identity = location_key (br_version ref) node in
      case Option.bind (tget (retirements tx) identity) (tget (tasks tx)) of
        Some t \<Rightarrow>
          if ts_state (t_status t) = FAILED \<or> t_owner t \<noteq> lease_epoch app then
            (let (t, tx) = new_task app DELETE ref '''' node tx;
                 t = t\<lparr>t_expected_receipt := (case location_of tx (br_version ref) node of
                        Some l \<Rightarrow> dr_id (lc_receipt l) | None \<Rightarrow> '''')\<rparr>;
                 tx = put_task t tx
             in tx\<lparr>retirements := tput identity (t_id t) (retirements tx)\<rparr>)
          else tx
      | None \<Rightarrow>
          (let (t, tx) = new_task app DELETE ref '''' node tx;
               t = t\<lparr>t_expected_receipt := (case location_of tx (br_version ref) node of
                      Some l \<Rightarrow> dr_id (lc_receipt l) | None \<Rightarrow> '''')\<rparr>;
               tx = put_task t tx
           in tx\<lparr>retirements := tput identity (t_id t) (retirements tx)\<rparr>))"

definition retire_copy :: "app \<Rightarrow> block_ref \<Rightarrow> string \<Rightarrow> db \<Rightarrow> db" where
  "retire_copy app = (if profile app = REPLICATED then replicated_retire_copy app else cluster_retire_copy app)"

definition local_retire_block :: "block_rec \<Rightarrow> db \<Rightarrow> db" where
  "local_retire_block b tx = tx\<lparr>blocks := tdel (b_id b) (blocks tx)\<rparr>"

definition cluster_retire_block :: "app \<Rightarrow> block_rec \<Rightarrow> db \<Rightarrow> db" where
  "cluster_retire_block app b tx =
     local_retire_block b
       (fold (\<lambda>l tx. if lc_block l = b_id b
                     then (let tx = retire_copy app (b_ref b) (lc_node l) tx in tx\<lparr>locations := tdel (lc_id l) (locations tx)\<rparr>)
                     else tx) (tall (locations tx)) tx)"

definition retire_block :: "app \<Rightarrow> block_rec \<Rightarrow> db \<Rightarrow> db" where
  "retire_block app b tx =
     (case profile app of
        LOCAL \<Rightarrow> local_retire_block b tx
      | REPLICATED \<Rightarrow> cluster_retire_block app b (tx\<lparr>retired := tput (b_id b) (b_ref b) (retired tx)\<rparr>)
      | _ \<Rightarrow> cluster_retire_block app b tx)"

definition retired_at_node :: "app \<Rightarrow> db \<Rightarrow> string \<Rightarrow> string \<Rightarrow> bool" where
  "retired_at_node app tx block node \<longleftrightarrow>
     location_of tx block node = None \<and>
     (case tget (assignments tx) block of
        None \<Rightarrow> True
      | Some a \<Rightarrow> \<not> (as_node a = node \<and> operation_live app tx (tget (uploads tx) (as_operation a)))) \<and>
     \<not> list_ex (\<lambda>t. t_kind t = COPY \<and> t_dest t = node \<and> br_version (t_block t) = block \<and>
          t_expires t > now_ms app \<and> task_active t) (tall (tasks tx))"

section \<open>Registration and inventories\<close>

definition require_node :: "app \<Rightarrow> db \<Rightarrow> string \<Rightarrow> unit res" where
  "require_node app tx node =
     need (map_of (allowed app) node \<noteq> None \<and>
           (case tget (node_policies tx) node of None \<Rightarrow> True | Some p \<Rightarrow> np_enabled p)) PERMISSION_DENIED (Inr ())"

definition peer_is :: "app \<Rightarrow> string \<Rightarrow> string \<Rightarrow> bool" where
  "peer_is app peer node \<longleftrightarrow>
     (case map_of (allowed app) node of None \<Rightarrow> False | Some a \<Rightarrow> al_identity a = peer)"

definition node_peer :: "app \<Rightarrow> string \<Rightarrow> req_ctx \<Rightarrow> string \<Rightarrow> db \<Rightarrow> unit res" where
  "node_peer app peer cx node tx =
     need (peer_is app peer node \<and> cx_user_id cx = node \<and> cx_service_epoch cx = sys_epoch app) PERMISSION_DENIED (
     bindr (uuid (cx_request_id cx)) (\<lambda>_. require_node app tx node))"

record node_lease =
  nl_node :: string
  nl_generation :: int
  nl_expires :: int
  nl_revision :: int

definition lease :: "app \<Rightarrow> datanode_rec \<Rightarrow> node_lease" where
  "lease app d = \<lparr>nl_node = dn_id d, nl_generation = bl_generation (dn_location d),
     nl_expires = dn_seen d + suspect_ms app, nl_revision = dn_sequence d\<rparr>"

abbreviation put_datanode :: "datanode_rec \<Rightarrow> db \<Rightarrow> db" where
  "put_datanode d tx \<equiv> tx\<lparr>datanodes := tput (dn_id d) d (datanodes tx)\<rparr>"

abbreviation put_location :: "location_rec \<Rightarrow> db \<Rightarrow> db" where
  "put_location l tx \<equiv> tx\<lparr>locations := tput (lc_id l) l (locations tx)\<rparr>"

definition fresh_datanode :: "app \<Rightarrow> block_location \<Rightarrow> int \<Rightarrow> int \<Rightarrow> string \<Rightarrow> datanode_rec" where
  "fresh_datanode app loc capacity free inventory =
     \<lparr>dn_id = bl_node loc, dn_location = loc, dn_capacity = capacity, dn_free = free, dn_used = 0,
      dn_seen = now_ms app, dn_sequence = 0, dn_reconciled = False, dn_inventory = inventory, dn_page = 0,
      dn_active = 0, dn_disabled = False, dn_digest = None, dn_counters = [0, 0, 0, 0], dn_report_pages = []\<rparr>"

definition abort_assigned :: "string \<Rightarrow> db \<Rightarrow> db" where
  "abort_assigned node tx =
     fold (\<lambda>a tx. if as_node a = node then
                    (case tget (uploads tx) (as_operation a) of
                       Some op \<Rightarrow> if o_state op = PREPARING then put_upload (abort_op op) tx else tx
                     | None \<Rightarrow> tx)
                  else tx) (tall (assignments tx)) tx"

definition RegisterNode :: "app \<Rightarrow> string \<Rightarrow> req_ctx \<Rightarrow> block_location \<Rightarrow> int \<Rightarrow> int \<Rightarrow> string \<Rightarrow> db \<Rightarrow> (node_lease \<times> db) res" where
  "RegisterNode app peer cx loc capacity free inventory tx =
     bindr (node_peer app peer cx (bl_node loc) tx) (\<lambda>_.
     bindr (uuid inventory) (\<lambda>_.
     somer (map_of (allowed app) (bl_node loc)) KeyError (\<lambda>allow.
     need (bl_client loc = al_client allow \<and> bl_private loc = al_private allow \<and> bl_domain loc = al_domain allow \<and>
           capacity = al_capacity allow \<and> bl_generation loc > 0) PERMISSION_DENIED (
     bindr (require_node app tx (bl_node loc)) (\<lambda>_.
     let node = fresh_datanode app loc capacity free inventory in
     case tget (datanodes tx) (bl_node loc) of
       None \<Rightarrow> Inr (lease app node, put_datanode node tx)
     | Some old \<Rightarrow>
         need (bl_generation loc \<ge> bl_generation (dn_location old)) VERSION_CONFLICT (
         if bl_generation loc = bl_generation (dn_location old) then
           need (dn_location old = loc) VERSION_CONFLICT (
           if etcd_backend app \<and> dn_inventory old = inventory then
             (let old = old\<lparr>dn_seen := now_ms app\<rparr> in Inr (lease app old, put_datanode old tx))
           else need (etcd_backend app \<or> dn_inventory old = inventory) VERSION_CONFLICT (
             Inr (lease app node, put_datanode node tx)))
         else Inr (lease app node, put_datanode node (abort_assigned (bl_node loc) tx))))))))"

record heartbeat_req =
  hb_node :: string
  hb_generation :: int
  hb_sequence :: int
  hb_free :: int
  hb_used :: int
  hb_active :: int
  hb_counters :: "int list"
  hb_dict :: json

definition Heartbeat :: "app \<Rightarrow> string \<Rightarrow> req_ctx \<Rightarrow> heartbeat_req \<Rightarrow> db \<Rightarrow> (node_lease \<times> db) res" where
  "Heartbeat app peer cx req tx =
     bindr (node_peer app peer cx (hb_node req) tx) (\<lambda>_.
     need_some (tget (datanodes tx) (hb_node req)) VERSION_CONFLICT (\<lambda>node.
     need (dn_reconciled node \<and> bl_generation (dn_location node) = hb_generation req \<and>
           hb_sequence req \<ge> dn_sequence node) VERSION_CONFLICT (
     let digest = hex (intent app (hb_dict req)) in
     if hb_sequence req = dn_sequence node then
       need (dn_digest node = Some digest) VERSION_CONFLICT (Inr (lease app node, tx))
     else
       (let node = node\<lparr>dn_seen := now_ms app, dn_sequence := hb_sequence req, dn_free := hb_free req,
              dn_used := hb_used req, dn_active := hb_active req, dn_digest := Some digest,
              dn_counters := hb_counters req\<rparr>
        in Inr (lease app node, put_datanode node tx)))))"

record report_req =
  rq_node :: string
  rq_generation :: int
  rq_report :: string
  rq_page :: int
  rq_last :: bool
  rq_receipts :: "durable_receipt list"
  rq_bytes :: nat
  rq_dict :: json

definition cluster_report_one :: "app \<Rightarrow> report_req \<Rightarrow> durable_receipt \<Rightarrow> db \<Rightarrow> db res" where
  "cluster_report_one app req receipt tx =
     need (dr_node receipt = rq_node req \<and> length (dr_cipher_sha receipt) = 32) INVALID_ARGUMENT (
     case location_of tx (br_version (dr_block receipt)) (rq_node req) of
       Some old \<Rightarrow>
         need (lc_receipt old = receipt) CHECKSUM_MISMATCH (
         Inr (put_location (old\<lparr>lc_inventory := rq_report req\<rparr>) tx))
     | None \<Rightarrow> Inr (retire_copy app (dr_block receipt) (rq_node req) tx))"

definition drop_unreported :: "report_req \<Rightarrow> db \<Rightarrow> db" where
  "drop_unreported req tx =
     fold (\<lambda>l tx. if lc_node l = rq_node req \<and> lc_inventory l \<noteq> rq_report req
                  then tx\<lparr>locations := tdel (lc_id l) (locations tx)\<rparr> else tx) (tall (locations tx)) tx"

definition cluster_BlockReport :: "app \<Rightarrow> string \<Rightarrow> req_ctx \<Rightarrow> report_req \<Rightarrow> db \<Rightarrow> (mutation_result \<times> db) res" where
  "cluster_BlockReport app peer cx req tx =
     bindr (node_peer app peer cx (rq_node req) tx) (\<lambda>_.
     need (length (rq_receipts req) \<le> 64 \<and> rq_bytes req \<le> 65536) INVALID_ARGUMENT (
     need_some (tget (datanodes tx) (rq_node req)) VERSION_CONFLICT (\<lambda>node.
     need (bl_generation (dn_location node) = rq_generation req \<and> rq_report req = dn_inventory node \<and>
           rq_page req = dn_page node) VERSION_CONFLICT (
     bindr (foldr_res (cluster_report_one app req) (rq_receipts req) tx) (\<lambda>tx.
     let node = node\<lparr>dn_page := dn_page node + 1, dn_seen := now_ms app, dn_reconciled := rq_last req\<rparr>;
         tx = (if rq_last req then drop_unreported req tx else tx)
     in Inr (result cx (rq_page req + 1), put_datanode node tx))))))"

definition cluster_confirm_location :: "durable_receipt \<Rightarrow> string \<Rightarrow> db \<Rightarrow> db" where
  "cluster_confirm_location receipt inventory tx =
     put_location \<lparr>lc_id = location_key (br_version (dr_block receipt)) (dr_node receipt),
       lc_block = br_version (dr_block receipt), lc_node = dr_node receipt, lc_receipt = receipt,
       lc_inventory = inventory, lc_health = VERIFIED, lc_checked_at = 0\<rparr> tx"

definition confirm_location :: "app \<Rightarrow> durable_receipt \<Rightarrow> string \<Rightarrow> db \<Rightarrow> db res" where
  "confirm_location app receipt inventory tx =
     (let v = br_version (dr_block receipt) in
      if profile app = REPLICATED then
        need (tget (retired tx) v = None) VERSION_CONFLICT (
        let tx = cluster_confirm_location receipt inventory tx
        in Inr (tx\<lparr>durability := tput v (dict_put (dr_node receipt) receipt (history tx v)) (durability tx)\<rparr>))
      else Inr (cluster_confirm_location receipt inventory tx))"

definition recovered :: "app \<Rightarrow> db \<Rightarrow> report_req \<Rightarrow> durable_receipt \<Rightarrow> bool" where
  "recovered app tx req receipt \<longleftrightarrow>
     (case (tget (blocks tx) (br_version (dr_block receipt)), tget (tasks tx) (dr_operation receipt)) of
        (Some b, Some t) \<Rightarrow>
          t_kind t = COPY \<and> t_dest t = rq_node req \<and> t_block t = dr_block receipt \<and>
          is_useful app tx (br_version (dr_block receipt)) \<and> dr_cipher_sha (b_receipt b) = dr_cipher_sha receipt
      | _ \<Rightarrow> False)"

definition replicated_report_one :: "app \<Rightarrow> report_req \<Rightarrow> durable_receipt \<Rightarrow> db \<Rightarrow> db res" where
  "replicated_report_one app req receipt tx =
     (let v = br_version (dr_block receipt); old = location_of tx v (rq_node req); gone = tget (retired tx) v \<noteq> None in
      need (dr_node receipt = rq_node req \<and> length (dr_cipher_sha receipt) = 32) INVALID_ARGUMENT (
      if recovered app tx req receipt \<and> \<not> gone then confirm_location app receipt (rq_report req) tx
      else (case old of
          Some l \<Rightarrow>
            if lc_receipt l = receipt \<and> \<not> gone
            then Inr (put_location (l\<lparr>lc_inventory := rq_report req, lc_health := VERIFIED, lc_checked_at := now_ms app\<rparr>) tx)
            else Inr tx
        | None \<Rightarrow>
            let tx = retire_copy app (dr_block receipt) (rq_node req) tx in
            deref (tget (retirements tx) (location_key v (rq_node req))) (\<lambda>i.
            deref (tget (tasks tx) i) (\<lambda>t.
            Inr (put_task (t\<lparr>t_expected_receipt := dr_id receipt\<rparr>) tx))))))"

definition mark_missing :: "report_req \<Rightarrow> db \<Rightarrow> db" where
  "mark_missing req tx =
     fold (\<lambda>l tx. if lc_node l = rq_node req \<and> lc_inventory l \<noteq> rq_report req
                  then put_location (l\<lparr>lc_health := MISSING\<rparr>) tx else tx) (tall (locations tx)) tx"

definition replicated_BlockReport :: "app \<Rightarrow> string \<Rightarrow> req_ctx \<Rightarrow> report_req \<Rightarrow> db \<Rightarrow> (mutation_result \<times> db) res" where
  "replicated_BlockReport app peer cx req tx =
     bindr (node_peer app peer cx (rq_node req) tx) (\<lambda>_.
     need (length (rq_receipts req) \<le> 64 \<and> rq_bytes req \<le> 65536) INVALID_ARGUMENT (
     need_some (tget (datanodes tx) (rq_node req)) VERSION_CONFLICT (\<lambda>node.
     need (bl_generation (dn_location node) = rq_generation req \<and> rq_report req = dn_inventory node) VERSION_CONFLICT (
     let digest = hex (intent app (rq_dict req)) in
     if rq_page req < dn_page node then
       need (map_of (dn_report_pages node) (rq_page req) = Some digest) VERSION_CONFLICT (
       Inr (result cx (rq_page req + 1), tx))
     else
       need (rq_page req = dn_page node) VERSION_CONFLICT (
       bindr (foldr_res (replicated_report_one app req) (rq_receipts req) tx) (\<lambda>tx.
       let node = node\<lparr>dn_page := dn_page node + 1, dn_seen := now_ms app, dn_reconciled := rq_last req,
             dn_report_pages := dict_put (rq_page req) digest (dn_report_pages node)\<rparr>;
           tx = (if rq_last req then mark_missing req tx else tx)
       in Inr (result cx (rq_page req + 1), put_datanode node tx)))))))"

definition BlockReport :: "app \<Rightarrow> string \<Rightarrow> req_ctx \<Rightarrow> report_req \<Rightarrow> db \<Rightarrow> (mutation_result \<times> db) res" where
  "BlockReport app = (if profile app = REPLICATED then replicated_BlockReport app else cluster_BlockReport app)"

section \<open>Administration\<close>

definition fail_tasks_of :: "string \<Rightarrow> db \<Rightarrow> db" where
  "fail_tasks_of node tx =
     fold (\<lambda>t tx. if (node = t_src t \<or> node = t_dest t) \<and> task_active t
                  then put_task (t\<lparr>t_expires := 0, t_reserved := 0, t_status := (t_status t)\<lparr>ts_state := FAILED\<rparr>\<rparr>) tx
                  else tx) (tall (tasks tx)) tx"

definition SetNodeAuthorization :: "app \<Rightarrow> user_rec \<Rightarrow> req_ctx \<Rightarrow> string \<Rightarrow> bool \<Rightarrow> int \<Rightarrow> db \<Rightarrow> (mutation_result \<times> db) res" where
  "SetNodeAuthorization app user cx node enabled expected tx =
     need (u_admin user) PERMISSION_DENIED (
     need (map_of (allowed app) node \<noteq> None) NOT_FOUND (
     let previous = (case tget (node_policies tx) node of Some p \<Rightarrow> p
                     | None \<Rightarrow> \<lparr>np_id = node, np_enabled = True, np_revision = 0\<rparr>) in
     need (np_revision previous = expected) VERSION_CONFLICT (
     let p = previous\<lparr>np_enabled := enabled, np_revision := np_revision previous + 1\<rparr>;
         tx = tx\<lparr>node_policies := tput (np_id p) p (node_policies tx)\<rparr>;
         tx = (case tget (datanodes tx) node of
                 None \<Rightarrow> tx
               | Some d \<Rightarrow> put_datanode (d\<lparr>dn_disabled := \<not> enabled,
                             dn_reconciled := (if enabled then False else dn_reconciled d)\<rparr>) tx);
         tx = (if enabled then tx else fail_tasks_of node tx)
     in Inr (result cx (np_revision p), tx))))"

definition CopyBlock :: "app \<Rightarrow> user_rec \<Rightarrow> block_ref \<Rightarrow> string \<Rightarrow> string \<Rightarrow> db \<Rightarrow> (task_status \<times> db) res" where
  "CopyBlock app user ref source_id dest_id tx =
     need (u_admin user) PERMISSION_DENIED (
     bindr (uuid (br_version ref)) (\<lambda>v.
     need_some (tget (blocks tx) v) NOT_FOUND (\<lambda>block.
     need (b_ref block = ref) NOT_FOUND (
     need_some (location_of tx v source_id) DATA_UNAVAILABLE (\<lambda>source.
     need_some (tget (datanodes tx) dest_id) DATA_UNAVAILABLE (\<lambda>dest.
     need (node_state app (Some dest) = READY \<and> source_id \<noteq> dest_id) DATA_UNAVAILABLE (
     need (location_of tx v (dn_id dest) = None) ALREADY_EXISTS (
     let source_node = tget (datanodes tx) source_id in
     need (node_state app source_node = READY) DATA_UNAVAILABLE (
     deref source_node (\<lambda>sn.
     let (used, rsv) = usage app tx dest; cost = storage_cost (br_size ref) in
     need (used + rsv + cost \<le> dn_capacity dest \<and> rsv + cost \<le> dn_free dest) NO_SPACE (
     let (t, tx) = new_task app COPY (b_ref block) (lc_node source) (dn_id dest) tx;
         t = t\<lparr>t_source := Some (dn_location sn), t_destination := Some (dn_location dest),
               t_receipt := Some (lc_receipt source), t_reserved := cost\<rparr>
     in Inr (t_status t, put_task t tx))))))))))))"

record node_status =
  ns_location :: block_location
  ns_state :: node_state
  ns_capacity :: int
  ns_used :: int
  ns_reserved :: int
  ns_free :: int
  ns_active :: int
  ns_seen :: int
  ns_blocks :: int
  ns_counters :: "int list"

definition status_of_node :: "app \<Rightarrow> db \<Rightarrow> datanode_rec \<Rightarrow> node_status" where
  "status_of_node app tx d =
     (let (used, rsv) = usage app tx d in
      \<lparr>ns_location = dn_location d, ns_state = node_state app (Some d), ns_capacity = dn_capacity d, ns_used = used,
       ns_reserved = rsv, ns_free = dn_free d, ns_active = dn_active d, ns_seen = dn_seen d,
       ns_blocks = int (length (filter (\<lambda>x. lc_node x = dn_id d) (tall (locations tx)))), ns_counters = dn_counters d\<rparr>)"

definition ListNodes :: "app \<Rightarrow> user_rec \<Rightarrow> nat \<Rightarrow> string \<Rightarrow> db \<Rightarrow> (node_status list \<times> string) res" where
  "ListNodes app user limit0 cursor tx =
     need (u_admin user) PERMISSION_DENIED (
     let limit = (if limit0 = 0 then 64 else limit0) in
     need (1 \<le> limit \<and> limit \<le> 64) INVALID_ARGUMENT (
     let records = filter (\<lambda>d. dn_id d > cursor) (tall (datanodes tx)) in
     Inr (map (status_of_node app tx) (take limit records),
          if length records > limit then dn_id (records ! (limit - 1)) else '''')))"

definition CopyStatus :: "user_rec \<Rightarrow> string \<Rightarrow> db \<Rightarrow> task_status res" where
  "CopyStatus user task_id tx =
     need (u_admin user) PERMISSION_DENIED (
     bindr (uuid task_id) (\<lambda>i. need_some (tget (tasks tx) i) NOT_FOUND (\<lambda>t. Inr (t_status t))))"

end
