(* ===== verification/Grants.thy ===== *)
theory Grants
  imports Cluster
begin

text \<open>
  Authorization of transfers and confirmation of what was stored (\<^verbatim>\<open>AuthorizeBlock\<close>,
  \<^verbatim>\<open>ReportDurable\<close>, \<^verbatim>\<open>AuthorizeInternal\<close> and \<^verbatim>\<open>ReportTask\<close> of \<^verbatim>\<open>src/src/dfsha/control/distributed.py\<close>, their
  overrides in \<^verbatim>\<open>replication.py\<close>, and \<^verbatim>\<open>patch_authority.py\<close>).
\<close>

section \<open>Decisions\<close>

record decision =
  de_subject :: string
  de_block_size :: int
  de_until :: int
  de_replay :: "durable_receipt option"
  de_replacement_size :: int

record transfer_req =
  tr_node :: string
  tr_action :: access_action
  tr_token :: string
  tr_operation :: operation_ref
  tr_fence :: fence
  tr_block :: block_ref
  tr_handle :: string
  tr_read :: string
  tr_snapshot :: snapshot_ref
  tr_offset :: int
  tr_length :: int
  tr_capability :: string
  tr_replacement :: string
  tr_delta_sha :: string

definition query_handle :: "app \<Rightarrow> db \<Rightarrow> user_rec \<Rightarrow> session_rec \<Rightarrow> string \<Rightarrow> (handle_rec \<times> snapshot_rec option) res" where
  "query_handle app tx user session identity =
     (if has_leases app
      then bindr (access_handle app tx user session identity) (\<lambda>(h, s). Inr (h, Some s))
      else local_handle app tx user session identity)"

text \<open>
  \<open>header\<close> is the call the DataNode's header of the client's stream amounts to; its ledger row
  holds the receipt.
\<close>

definition authorize_put :: "app \<Rightarrow> (string \<Rightarrow> durable_receipt) \<Rightarrow> call \<Rightarrow> transfer_req \<Rightarrow> db \<Rightarrow> decision res" where
  "authorize_put app decode header req tx =
     bindr (authenticated app tx (tr_token req) (cl_cx header)) (\<lambda>(user, session).
     let node = tget (datanodes tx) (tr_node req) in
     need (serving app node) DATA_UNAVAILABLE (
     deref node (\<lambda>node.
     bindr (replay app decode user header ''PutBlock'' tx) (\<lambda>previous.
     case previous of
       Some r \<Rightarrow>
         need (dr_node r = dn_id node) PERMISSION_DENIED (
         Inr \<lparr>de_subject = u_id user, de_block_size = 0, de_until = s_expires session, de_replay = Some r, de_replacement_size = 0\<rparr>)
     | None \<Rightarrow>
         bindr (operation app user session (tr_operation req) (Some (tr_fence req)) tx) (\<lambda>op.
         need_some (tget (assignments tx) (br_version (tr_block req))) PERMISSION_DENIED (\<lambda>a.
         need (as_node a = dn_id node \<and> as_generation a = bl_generation (dn_location node) \<and>
               map_of (o_allocations op) (br_index (tr_block req)) = Some (tr_block req)) PERMISSION_DENIED (
         need (tr_offset req = 0 \<and> tr_length req = br_size (tr_block req)) UNSUPPORTED_MODE (
         need (tr_capability req = cluster_capability app user (op_binding op) (tr_block req) node ''write'') PERMISSION_DENIED (
         Inr \<lparr>de_subject = u_id user, de_block_size = o_block_size op, de_until = min (s_expires session) (o_expires op),
              de_replay = None, de_replacement_size = 0\<rparr>)))))))))"

definition read_action :: "transfer_req \<Rightarrow> string" where
  "read_action req = join '':'' [''read'', dec_int (tr_offset req), dec_int (tr_length req), tr_read req]"

definition authorize_get :: "app \<Rightarrow> req_ctx \<Rightarrow> transfer_req \<Rightarrow> db \<Rightarrow> decision res" where
  "authorize_get app cx req tx =
     bindr (authenticated app tx (tr_token req) cx) (\<lambda>(user, session).
     let node = tget (datanodes tx) (tr_node req) in
     need (serving app node) DATA_UNAVAILABLE (
     deref node (\<lambda>node.
     bindr (query_handle app tx user session (tr_handle req)) (\<lambda>(h, snap0).
     bindr (if has_leases app
            then need (h_mode h \<in> set READ_MODES \<and> (h_busy h = None \<or> h_busy h = Some (tr_read req))) PERMISSION_DENIED (
                 if tr_read req = [] then Inr ()
                 else deref snap0 (\<lambda>s. bindr (validate_read tx h (tr_read req)
                        (br_index (tr_block req) * sr_block_size (sn_ref s) + tr_offset req) (tr_length req)) (\<lambda>_. Inr ())))
            else Inr ()) (\<lambda>_.
     deref snap0 (\<lambda>snap.
     need (sn_ref snap = tr_snapshot req \<and> tr_block req \<in> set (sn_blocks snap) \<and>
           location_of tx (br_version (tr_block req)) (dn_id node) \<noteq> None) PERMISSION_DENIED (
     bindr (if has_leases app
            then need (tr_offset req \<le> br_size (tr_block req) \<and> 0 < tr_length req \<and>
                       tr_length req \<le> br_size (tr_block req) - tr_offset req) INVALID_ARGUMENT (Inr (read_action req))
            else need (tr_offset req = 0 \<and> tr_length req = br_size (tr_block req)) UNSUPPORTED_MODE (Inr ''read'')) (\<lambda>action.
     need (tr_capability req = cluster_capability app user (handle_binding h) (tr_block req) node action) PERMISSION_DENIED (
     Inr \<lparr>de_subject = u_id user, de_block_size = sr_block_size (sn_ref snap),
          de_until = min (s_expires session) (if has_leases app then expiry_hint app h else h_expires h),
          de_replay = None, de_replacement_size = 0\<rparr>)))))))))"

section \<open>Patches\<close>

record patch_header =
  ph_call :: call
  ph_operation :: operation_ref
  ph_base :: block_ref
  ph_new :: string
  ph_offset :: int
  ph_length :: int
  ph_sha :: string
  ph_fence :: fence

definition validate_header :: "app \<Rightarrow> db \<Rightarrow> user_rec \<Rightarrow> session_rec \<Rightarrow> patch_header \<Rightarrow> datanode_rec \<Rightarrow>
    (upload_rec \<times> write_rec \<times> part_rec \<times> assignment_rec) res" where
  "validate_header app tx user session header node =
     bindr (write_operation app user session (ph_operation header) tx) (\<lambda>(op, w, _, _, _).
     need_some (find (\<lambda>p. br_version (pt_replacement p) = ph_new header) (w_parts w)) PERMISSION_DENIED (\<lambda>part.
     need (ph_base header = pt_base part \<and> ph_offset header = wp_block_offset (pt_part part) \<and>
           ph_length header = wp_length (pt_part part) \<and> ph_sha header = wp_sha (pt_part part)) IDEMPOTENCY_MISMATCH (
     need (list_ex (\<lambda>f. fence_intent app (ph_fence header) = fence_intent app f) (w_fences w)) LOCK_EXPIRED (
     need_some (tget (assignments tx) (ph_new header)) PERMISSION_DENIED (\<lambda>a.
     need (as_node a = dn_id node \<and> as_operation a = o_id op \<and> as_generation a = bl_generation (dn_location node)) PERMISSION_DENIED (
     Inr (op, w, part, a)))))))"

definition authorize_patch :: "app \<Rightarrow> string \<Rightarrow> (string \<Rightarrow> durable_receipt) \<Rightarrow> patch_header \<Rightarrow> transfer_req \<Rightarrow> db \<Rightarrow> decision res" where
  "authorize_patch app peer decode header req tx =
     need (has_leases app) UNSUPPORTED_MODE (
     need (peer_is app peer (tr_node req)) PERMISSION_DENIED (
     bindr (authenticated app tx (tr_token req) (cl_cx (ph_call header))) (\<lambda>(user, session).
     let node = tget (datanodes tx) (tr_node req) in
     need (serving app node) DATA_UNAVAILABLE (
     deref node (\<lambda>node.
     bindr (replay app decode user (ph_call header) ''PatchBlock'' tx) (\<lambda>previous.
     case previous of
       Some r \<Rightarrow>
         need (dr_node r = dn_id node) PERMISSION_DENIED (
         Inr \<lparr>de_subject = '''', de_block_size = 0, de_until = s_expires session, de_replay = Some r, de_replacement_size = 0\<rparr>)
     | None \<Rightarrow>
         bindr (validate_header app tx user session header node) (\<lambda>(op, w, part, _).
         let replacement = pt_replacement part in
         need (tr_capability req = cluster_capability app user (op_binding op) replacement node ''patch'') PERMISSION_DENIED (
         deref (tget (handles tx) (w_handle w)) (\<lambda>h.
         Inr \<lparr>de_subject = u_id user, de_block_size = o_block_size op,
              de_until = min (s_expires session) (expiry_hint app h), de_replay = None,
              de_replacement_size = br_size replacement\<rparr>))))))))) "

definition AuthorizeBlock :: "app \<Rightarrow> string \<Rightarrow> (string \<Rightarrow> durable_receipt) \<Rightarrow> patch_header \<Rightarrow> call \<Rightarrow> transfer_req \<Rightarrow> db \<Rightarrow> decision res" where
  "AuthorizeBlock app peer decode patch header req tx =
     bindr (require_node app tx (tr_node req)) (\<lambda>_.
     if tr_action req = PATCH_DATA then authorize_patch app peer decode patch req tx
     else need (peer_is app peer (tr_node req)) PERMISSION_DENIED (
       if tr_action req = WRITE_DATA then authorize_put app decode header req tx
       else if tr_action req = READ_DATA then authorize_get app (cl_cx header) req tx
       else bindr (authenticated app tx (tr_token req) (cl_cx header)) (\<lambda>_.
            need (serving app (tget (datanodes tx) (tr_node req))) DATA_UNAVAILABLE (Inl (Fault PERMISSION_DENIED)))))"

section \<open>Receipts\<close>

definition put_block :: "upload_rec \<Rightarrow> durable_receipt \<Rightarrow> db \<Rightarrow> db" where
  "put_block op receipt tx =
     tx\<lparr>blocks := tput (br_version (dr_block receipt)) \<lparr>b_id = br_version (dr_block receipt),
        b_file = br_file (dr_block receipt), b_operation = o_id op, b_ref = dr_block receipt,
        b_stored = dr_stored receipt, b_receipt = receipt\<rparr> (blocks tx)\<rparr>"

definition live_session :: "app \<Rightarrow> db \<Rightarrow> string \<Rightarrow> session_rec res" where
  "live_session app tx op_id =
     need_some (Option.bind (tget (uploads tx) op_id) (\<lambda>op. tget (sessions tx) (o_session op))) UNAUTHENTICATED (\<lambda>s.
     need (\<not> s_revoked s \<and> s_expires s > now_ms app) UNAUTHENTICATED (Inr s))"

text \<open>The node that reports and the account it reports for.\<close>

definition reporting :: "app \<Rightarrow> string \<Rightarrow> req_ctx \<Rightarrow> req_ctx \<Rightarrow> durable_receipt \<Rightarrow> db \<Rightarrow> (datanode_rec \<times> user_rec) res" where
  "reporting app peer cx client receipt tx =
     bindr (node_peer app peer cx (dr_node receipt) tx) (\<lambda>_.
     bindr (require_node app tx (dr_node receipt)) (\<lambda>_.
     need_some (tget (datanodes tx) (dr_node receipt)) VERSION_CONFLICT (\<lambda>node.
     need (dr_generation receipt = bl_generation (dn_location node)) VERSION_CONFLICT (
     need_some (tget (users tx) (cx_user_id client)) UNAUTHENTICATED (\<lambda>user.
     need (\<not> u_disabled user \<and> cx_service_epoch client = sys_epoch app) UNAUTHENTICATED (
     Inr (node, user)))))))"

definition report_put :: "app \<Rightarrow> (string \<Rightarrow> durable_receipt) \<Rightarrow> (durable_receipt \<Rightarrow> string) \<Rightarrow> string \<Rightarrow> req_ctx \<Rightarrow> call \<Rightarrow>
    operation_ref \<Rightarrow> fence \<Rightarrow> durable_receipt \<Rightarrow> db \<Rightarrow> (mutation_result \<times> db) res" where
  "report_put app decode encode peer cx header reference fence receipt tx =
     bindr (reporting app peer cx (cl_cx header) receipt tx) (\<lambda>(node, user).
     bindr (uuid (cx_request_id (cl_cx header))) (\<lambda>_.
     bindr (replay app decode user header ''PutBlock'' tx) (\<lambda>previous.
     case previous of
       Some r \<Rightarrow> need (r = receipt) IDEMPOTENCY_MISMATCH (Inr (result cx 1, tx))
     | None \<Rightarrow>
         bindr (live_session app tx (dr_operation receipt)) (\<lambda>session.
         bindr (operation app user session reference (Some fence) tx) (\<lambda>op.
         need_some (tget (assignments tx) (br_version (dr_block receipt))) VERSION_CONFLICT (\<lambda>a.
         need (as_node a = dn_id node \<and> as_generation a = dr_generation receipt \<and> as_operation a = o_id op \<and>
               map_of (o_allocations op) (br_index (dr_block receipt)) = Some (dr_block receipt)) VERSION_CONFLICT (
         need (dr_domain receipt = bl_domain (dn_location node) \<and> length (dr_cipher_sha receipt) = 32 \<and>
               br_size (dr_block receipt) < dr_stored receipt \<and> dr_stored receipt \<le> as_reserved a) CHECKSUM_MISMATCH (
         bindr (confirm_location app receipt (dn_inventory node) (put_block op receipt tx)) (\<lambda>tx.
         bindr (remember app encode user header ''PutBlock'' receipt tx) (\<lambda>tx.
         Inr (result cx 1, tx)))))))))))"

definition report_patch :: "app \<Rightarrow> (string \<Rightarrow> durable_receipt) \<Rightarrow> (durable_receipt \<Rightarrow> string) \<Rightarrow> string \<Rightarrow> req_ctx \<Rightarrow>
    patch_header \<Rightarrow> durable_receipt \<Rightarrow> db \<Rightarrow> (mutation_result \<times> db) res" where
  "report_patch app decode encode peer cx header receipt tx =
     need (has_leases app) UNSUPPORTED_MODE (
     bindr (reporting app peer cx (cl_cx (ph_call header)) receipt tx) (\<lambda>(node, user).
     bindr (replay app decode user (ph_call header) ''PatchBlock'' tx) (\<lambda>previous.
     case previous of
       Some r \<Rightarrow> need (r = receipt) IDEMPOTENCY_MISMATCH (Inr (result cx 1, tx))
     | None \<Rightarrow>
         bindr (live_session app tx (dr_operation receipt)) (\<lambda>session.
         bindr (validate_header app tx user session header node) (\<lambda>(op, _, part, a).
         let expected = pt_replacement part; block = dr_block receipt in
         need (dr_operation receipt = o_id op \<and> br_file block = br_file expected \<and>
               br_version block = br_version expected \<and> br_index block = br_index expected \<and>
               br_size block = br_size expected \<and> length (br_sha block) = 32 \<and>
               length (dr_cipher_sha receipt) = 32 \<and> dr_domain receipt = bl_domain (dn_location node) \<and>
               br_size block < dr_stored receipt \<and> dr_stored receipt \<le> as_reserved a) CHECKSUM_MISMATCH (
         bindr (confirm_location app receipt (dn_inventory node) (put_block op receipt tx)) (\<lambda>tx.
         bindr (remember app encode user (ph_call header) ''PatchBlock'' receipt tx) (\<lambda>tx.
         Inr (result cx 1, tx)))))))))"

section \<open>Tasks\<close>

record internal_req =
  ir_task :: string
  ir_source :: string
  ir_dest :: string
  ir_block :: block_ref
  ir_capability :: string
  ir_fence :: fence
  ir_action :: access_action

definition cluster_AuthorizeInternal :: "app \<Rightarrow> string \<Rightarrow> req_ctx \<Rightarrow> internal_req \<Rightarrow> db \<Rightarrow> decision res" where
  "cluster_AuthorizeInternal app peer cx req tx =
     bindr (require_node app tx (ir_dest req)) (\<lambda>_.
     bindr (if ir_source req = [] then Inr () else require_node app tx (ir_source req)) (\<lambda>_.
     need_some (tget (tasks tx) (ir_task req)) PERMISSION_DENIED (\<lambda>t.
     need (t_expires t > now_ms app \<and> task_active t \<and> ir_block req = t_block t \<and>
           ir_capability req = task_capability app t \<and> ir_source req = t_src t \<and> ir_dest req = t_dest t \<and>
           f_lock (ir_fence req) = t_id t \<and> f_epoch (ir_fence req) = sys_epoch app) PERMISSION_DENIED (
     let expected = (if ir_action req = READ_REPLICA then t_src t else t_dest t) in
     need (peer_is app peer expected \<and> cx_user_id cx = expected) PERMISSION_DENIED (
     need (t_kind t = COPY \<and> ir_action req \<in> {READ_REPLICA, STORE_REPLICA} \<or>
           t_kind t = DELETE \<and> ir_action req = DELETE_RETIRED \<and>
           retired_at_node app tx (br_version (ir_block req)) (t_dest t)) PERMISSION_DENIED (
     Inr \<lparr>de_subject = expected, de_block_size = 0, de_until = t_expires t, de_replay = None, de_replacement_size = 0\<rparr>))))))"

definition same_boot :: "db \<Rightarrow> block_location \<Rightarrow> bool" where
  "same_boot tx loc \<longleftrightarrow>
     (case tget (datanodes tx) (bl_node loc) of None \<Rightarrow> False
      | Some d \<Rightarrow> bl_generation (dn_location d) = bl_generation loc)"

definition AuthorizeInternal :: "app \<Rightarrow> string \<Rightarrow> req_ctx \<Rightarrow> internal_req \<Rightarrow> db \<Rightarrow> decision res" where
  "AuthorizeInternal app peer cx req tx =
     (if profile app = REPLICATED then
        need_some (tget (tasks tx) (ir_task req)) LOCK_EXPIRED (\<lambda>t.
        need (t_owner t = lease_epoch app \<and> t_generation t = f_generation (ir_fence req)) LOCK_EXPIRED (
        need (t_kind t = DELETE \<or> is_useful app tx (br_version (ir_block req))) VERSION_CONFLICT (
        need (list_all (\<lambda>l. case l of None \<Rightarrow> True | Some l \<Rightarrow> same_boot tx l) [t_source t, t_destination t]) VERSION_CONFLICT (
        cluster_AuthorizeInternal app peer cx req tx))))
      else cluster_AuthorizeInternal app peer cx req tx)"

definition validate_task_report :: "app \<Rightarrow> db \<Rightarrow> fence \<Rightarrow> task_status \<Rightarrow> task_rec \<Rightarrow> datanode_rec \<Rightarrow> unit res" where
  "validate_task_report app tx fence status t node =
     need (t_owner t = lease_epoch app \<and> f_generation fence = t_generation t \<and> f_lock fence = t_id t) LOCK_EXPIRED (
     need (t_kind t = DELETE \<or> is_useful app tx (br_version (t_block t))) VERSION_CONFLICT (
     need (task_active t \<or> t_status t = status) OPERATION_EXPIRED (
     if t_kind t = COPY then
       somer (t_destination t) KeyError (\<lambda>dest.
       need (dn_location node = dest) VERSION_CONFLICT (
       need_some (tget (datanodes tx) (t_src t)) VERSION_CONFLICT (\<lambda>d.
       somer (t_source t) KeyError (\<lambda>l.
       need (bl_generation (dn_location d) = bl_generation l) VERSION_CONFLICT (
       Inr ())))))
     else Inr ())))"

definition ReportTask :: "app \<Rightarrow> string \<Rightarrow> req_ctx \<Rightarrow> string \<Rightarrow> int \<Rightarrow> fence \<Rightarrow> task_status \<Rightarrow> db \<Rightarrow> (mutation_result \<times> db) res" where
  "ReportTask app peer cx node_id generation fence status tx =
     bindr (node_peer app peer cx node_id tx) (\<lambda>_.
     bindr (require_node app tx node_id) (\<lambda>_.
     need_some (tget (tasks tx) (ts_task status)) PERMISSION_DENIED (\<lambda>t.
     need_some (tget (datanodes tx) node_id) PERMISSION_DENIED (\<lambda>node.
     need (t_dest t = node_id \<and> bl_generation (dn_location node) = generation) PERMISSION_DENIED (
     bindr (if profile app = REPLICATED then validate_task_report app tx fence status t node else Inr ()) (\<lambda>_.
     if ts_state (t_status t) = FINISHED then
       need (t_status t = status) IDEMPOTENCY_MISMATCH (Inr (result cx 1, tx))
     else
       need (t_expires t > now_ms app \<and> ts_state status \<in> {FINISHED, FAILED}) OPERATION_EXPIRED (
       bindr (if ts_state status = FINISHED \<and> t_kind t = COPY then
                somer (t_receipt t) KeyError (\<lambda>expected. need_some (ts_receipt status) CHECKSUM_MISMATCH (\<lambda>r.
                need (dr_operation r = t_id t \<and> dr_node r = dn_id node \<and> dr_generation r = generation \<and>
                      dr_block r = t_block t \<and> dr_stored r = dr_stored expected \<and>
                      dr_cipher_sha r = dr_cipher_sha expected \<and>
                      tget (blocks tx) (br_version (dr_block r)) \<noteq> None) CHECKSUM_MISMATCH (
                confirm_location app r (dn_inventory node) tx)))
              else Inr tx) (\<lambda>tx.
       Inr (result cx 1, put_task (t\<lparr>t_status := status, t_reserved := 0\<rparr>) tx)))))))))"

end
