(* ===== verification/Maintenance.thy ===== *)
theory Maintenance
  imports Grants
begin

text \<open>
  Maintenance of the store: garbage collection (\<^verbatim>\<open>collect\<close> of \<^verbatim>\<open>monolith.py\<close>, \<^verbatim>\<open>distributed.py\<close> and
  \<^verbatim>\<open>replication.py\<close> under \<^verbatim>\<open>src/src/dfsha/control\<close>), repair of under-replicated blocks (\<^verbatim>\<open>reconcile\<close>),
  the bookkeeping of \<^verbatim>\<open>scrub\<close>, \<^verbatim>\<open>clean_orphan_copy\<close> and \<^verbatim>\<open>tick\<close> around their remote calls, and the
  policy operations \<^verbatim>\<open>PromoteProtection\<close> and \<^verbatim>\<open>GetProtection\<close>.

  The outcome of a remote call is an argument.
\<close>

section \<open>Garbage collection\<close>

text \<open>Writes that lost their handle or a lock end, and what ended operations hold is released.\<close>

definition lease_dead :: "app \<Rightarrow> db \<Rightarrow> upload_rec \<Rightarrow> bool" where
  "lease_dead app tx op \<longleftrightarrow>
     (case o_write op of
        None \<Rightarrow> False
      | Some w \<Rightarrow>
          (case tget (handles tx) (w_handle w) of None \<Rightarrow> True | Some h \<Rightarrow> \<not> handle_live app h) \<or>
          list_ex (\<lambda>i. case tget (locks tx) i of None \<Rightarrow> True | Some l \<Rightarrow> \<not> lock_live app l) (o_locks op))"

definition expire_write :: "app \<Rightarrow> upload_rec \<Rightarrow> db \<Rightarrow> db" where
  "expire_write app op tx =
     (if o_write op \<noteq> None \<and> o_state op = PREPARING \<and> lease_dead app tx op
      then (let op = op\<lparr>o_state := EXPIRED, o_reserved := 0\<rparr> in release_operation op (put_upload op tx))
      else if o_state op \<noteq> PREPARING then release_operation op tx else tx)"

definition close_dead_handles :: "app \<Rightarrow> db \<Rightarrow> db" where
  "close_dead_handles app tx =
     fold (\<lambda>h tx. if \<not> handle_live app h then put_handle (h\<lparr>h_closed := True\<rparr>) tx else tx) (tall (handles tx)) tx"

definition end_operations :: "app \<Rightarrow> bool \<Rightarrow> db \<Rightarrow> db" where
  "end_operations app restart tx =
     fold (\<lambda>op tx. if o_state op = PREPARING \<and> (restart \<or> \<not> operation_live app tx (Some op))
                   then put_upload (op\<lparr>o_state := (if restart then ABORTED else EXPIRED), o_reserved := 0\<rparr>) tx
                   else tx) (tall (uploads tx)) tx"

definition open_snapshots :: "app \<Rightarrow> db \<Rightarrow> string list" where
  "open_snapshots app tx =
     List.map_filter (\<lambda>h. if \<not> h_closed h \<and> (if has_leases app then handle_live app h else h_expires h > now_ms app)
                     then h_snapshot h else None) (tall (handles tx))"

definition live_snapshots :: "db \<Rightarrow> string list" where
  "live_snapshots tx = List.map_filter (\<lambda>n. if n_alive n then n_snapshot n else None) (tall (nodes tx))"

definition pins :: "app \<Rightarrow> db \<Rightarrow> string list" where
  "pins app tx = open_snapshots app tx @ live_snapshots tx @ migrated_snapshots app tx"

definition copied_blocks :: "app \<Rightarrow> db \<Rightarrow> string list" where
  "copied_blocks app tx =
     map (\<lambda>t. br_version (t_block t))
       (filter (\<lambda>t. t_kind t = COPY \<and> t_expires t > now_ms app \<and> task_active t) (tall (tasks tx)))"

definition sweep_snapshots :: "string list \<Rightarrow> db \<Rightarrow> db" where
  "sweep_snapshots pinned tx =
     fold (\<lambda>s tx. if sn_id s \<in> set pinned then tx else tx\<lparr>snapshots := tdel (sn_id s) (snapshots tx)\<rparr>)
       (tall (snapshots tx)) tx"

definition retained_blocks :: "app \<Rightarrow> db \<Rightarrow> string list" where
  "retained_blocks app tx =
     copied_blocks app tx @
     map br_version (concat (map sn_blocks (filter (\<lambda>s. sn_id s \<in> set (pins app tx)) (tall (snapshots tx))))) @
     map br_version (concat (map (\<lambda>op. map snd (o_allocations op)) (filter (\<lambda>op. o_state op = PREPARING) (tall (uploads tx)))))"

definition sweep_blocks :: "app \<Rightarrow> string list \<Rightarrow> db \<Rightarrow> db" where
  "sweep_blocks app retained tx =
     fold (\<lambda>b tx. if b_id b \<in> set retained then tx else retire_block app b tx) (tall (blocks tx)) tx"

text \<open>
  \<^verbatim>\<open>Monolith.collect\<close>; the result names the retained blocks, which the block store keeps. The
  constructor calls it before the lease authority exists, which is the application with
  \<^verbatim>\<open>profile := CLUSTER\<close>.
\<close>

definition monolith_collect :: "app \<Rightarrow> bool \<Rightarrow> db \<Rightarrow> string list \<times> db" where
  "monolith_collect app restart tx =
     (let tx = (if has_leases app
                then close_dead_handles app (fold (expire_write app) (tall (uploads tx)) tx) else tx);
          tx = end_operations app restart tx;
          retained = retained_blocks app tx;
          tx = sweep_snapshots (pins app tx) tx
      in (retained, sweep_blocks app retained tx))"

definition fail_task :: "reason option \<Rightarrow> task_rec \<Rightarrow> task_rec" where
  "fail_task err t =
     t\<lparr>t_status := \<lparr>ts_task = t_id t, ts_state = FAILED, ts_receipt = None, ts_error = err\<rparr>, t_reserved := 0\<rparr>"

definition fail_orphan_copies :: "db \<Rightarrow> db" where
  "fail_orphan_copies tx =
     fold (\<lambda>t tx. case t_write_operation t of
                    None \<Rightarrow> tx
                  | Some i \<Rightarrow>
                      if task_active t \<and> (case tget (uploads tx) i of None \<Rightarrow> True | Some op \<Rightarrow> o_state op \<noteq> PREPARING)
                      then put_task (fail_task (Some OPERATION_EXPIRED) t) tx else tx) (tall (tasks tx)) tx"

definition retire_unconfirmed :: "app \<Rightarrow> db \<Rightarrow> db" where
  "retire_unconfirmed app tx =
     fold (\<lambda>a tx. case tget (uploads tx) (as_operation a) of
                    None \<Rightarrow> tx
                  | Some op \<Rightarrow>
                      if o_state op \<in> {ABORTED, EXPIRED} \<and> location_of tx (as_id a) (as_node a) = None
                      then (case find (\<lambda>b. br_version b = as_id a) (map snd (o_allocations op)) of
                              Some ref \<Rightarrow> retire_copy app ref (as_node a) tx | None \<Rightarrow> tx)
                      else tx) (tall (assignments tx)) tx"

definition retire_failed_copies :: "app \<Rightarrow> db \<Rightarrow> db" where
  "retire_failed_copies app tx =
     fold (\<lambda>t tx. if t_kind t = COPY \<and> ts_state (t_status t) = FAILED then retire_copy app (t_block t) (t_dest t) tx else tx)
       (tall (tasks tx)) tx"

definition cluster_collect :: "app \<Rightarrow> bool \<Rightarrow> db \<Rightarrow> string list \<times> db" where
  "cluster_collect app restart tx =
     (let (retained, tx) = monolith_collect app restart tx
      in (retained, retire_failed_copies app (retire_unconfirmed app (fail_orphan_copies tx))))"

definition endpoint_gone :: "app \<Rightarrow> db \<Rightarrow> block_location option \<Rightarrow> bool" where
  "endpoint_gone app tx l =
     (case l of
        None \<Rightarrow> False
      | Some l \<Rightarrow>
          (case tget (datanodes tx) (bl_node l) of
             None \<Rightarrow> True
           | Some d \<Rightarrow> node_state app (Some d) = UNAVAILABLE \<or> bl_generation (dn_location d) \<noteq> bl_generation l))"

definition fail_stale_copies :: "app \<Rightarrow> db \<Rightarrow> db" where
  "fail_stale_copies app tx =
     (let keep = set (map fst (useful app tx)) in
      fold (\<lambda>t tx. if t_kind t = COPY \<and> task_active t \<and>
                      (br_version (t_block t) \<notin> keep \<or> t_owner t \<noteq> lease_epoch app \<or> t_expires t \<le> now_ms app \<or>
                       endpoint_gone app tx (t_source t) \<or> endpoint_gone app tx (t_destination t))
                   then put_task (t\<lparr>t_status := (t_status t)\<lparr>ts_state := FAILED\<rparr>, t_reserved := 0, t_expires := 0\<rparr>) tx
                   else tx) (tall (tasks tx)) tx)"

definition replicated_collect :: "app \<Rightarrow> bool \<Rightarrow> db \<Rightarrow> string list \<times> db" where
  "replicated_collect app restart tx = monolith_collect app restart (fail_stale_copies app tx)"

definition collect :: "app \<Rightarrow> bool \<Rightarrow> db \<Rightarrow> string list \<times> db" where
  "collect app =
     (case profile app of
        LOCAL \<Rightarrow> monolith_collect app
      | REPLICATED \<Rightarrow> replicated_collect app
      | _ \<Rightarrow> cluster_collect app)"

section \<open>Repair\<close>

definition repair_candidates :: "app \<Rightarrow> db \<Rightarrow> string list \<Rightarrow> string \<Rightarrow> int \<Rightarrow> datanode_rec list res" where
  "repair_candidates app tx domains identity cost =
     (let planned = tget (replica_plans tx) identity;
          held = (\<lambda>d. case planned of None \<Rightarrow> False
                  | Some p \<Rightarrow> dn_id d \<in> set (rp_destinations p) \<and> operation_live app tx (tget (uploads tx) (rp_operation p)));
          good = (\<lambda>d. let (used, rsv) = usage app tx d in
                  used + rsv + (if held d then 0 else cost) \<le> dn_capacity d \<and> rsv + cost \<le> dn_free d);
          ready = filter (\<lambda>d. node_state app (Some d) = READY) (tall (datanodes tx))
      in bindr (map_res (\<lambda>d. domain_of app (dn_id d)) ready) (\<lambda>ds.
         Inr (sort_key (\<lambda>d. (load_band app tx d, dn_id d))
                (filter good (map fst (filter (\<lambda>(_, dom). dom \<notin> set domains) (zip ready ds)))))))"

definition back_off :: "app \<Rightarrow> string \<Rightarrow> db \<Rightarrow> db" where
  "back_off app k tx =
     (let retry = (case tget (repair_retries tx) k of Some r \<Rightarrow> r | None \<Rightarrow> \<lparr>rt_id = k, rt_attempts = 0, rt_next_run = 0\<rparr>);
          pause = min 30000 (1000 * 2 ^ nat (min (rt_attempts retry) 5))
      in tx\<lparr>repair_retries := tput k (retry\<lparr>rt_attempts := rt_attempts retry + 1, rt_next_run := now_ms app + pause\<rparr>)
              (repair_retries tx)\<rparr>)"

definition repair_one :: "app \<Rightarrow> block_ref \<Rightarrow> location_rec \<Rightarrow> int \<Rightarrow> int \<Rightarrow> datanode_rec \<Rightarrow> string list \<times> db \<Rightarrow> (string list \<times> db) res" where
  "repair_one app ref source r cost d = (\<lambda>(domains, tx).
     if int (length domains) \<ge> r then Inr (domains, tx)
     else bindr (domain_of app (dn_id d)) (\<lambda>domain.
       let k = location_key (br_version ref) (dn_id d) in
       if domain \<in> set domains \<or>
          (case tget (repair_retries tx) k of None \<Rightarrow> False | Some t \<Rightarrow> rt_next_run t > now_ms app)
       then Inr (domains, tx)
       else deref (tget (datanodes tx) (lc_node source)) (\<lambda>sn.
         let (t, tx) = new_task app COPY ref (lc_node source) (dn_id d) tx;
             old = location_of tx (br_version ref) (dn_id d);
             t = t\<lparr>t_source := Some (dn_location sn), t_destination := Some (dn_location d),
                   t_receipt := Some (lc_receipt source), t_reserved := cost,
                   t_replace_receipt := (case old of
                      Some l \<Rightarrow> if lc_health l \<in> {CORRUPT, MISSING} then dr_id (lc_receipt l) else ''''
                    | None \<Rightarrow> '''')\<rparr>
         in Inr (domains @ [domain], back_off app k (put_task t tx)))))"

definition repair_block :: "app \<Rightarrow> string \<times> block_ref \<Rightarrow> db \<Rightarrow> db res" where
  "repair_block app = (\<lambda>(identity, ref) tx.
     case tget (blocks tx) identity of
       None \<Rightarrow> Inr tx
     | Some record \<Rightarrow>
         if tget (retired tx) identity \<noteq> None then Inr tx
         else bindr (policy app (br_file ref) False tx) (\<lambda>(p, _).
           let elig = eligible app tx identity;
               active = filter (\<lambda>t. t_kind t = COPY \<and> br_version (t_block t) = identity \<and> task_active t \<and>
                          t_expires t > now_ms app) (tall (tasks tx))
           in bindr (map_res (domain_of app) (map lc_node elig @ map t_dest active)) (\<lambda>ds.
              let domains = remdups ds in
              if elig = [] \<or> int (length domains) \<ge> p_r p then Inr tx
              else
                let cost = storage_cost (br_size (b_ref record)) in
                bindr (repair_candidates app tx domains identity cost) (\<lambda>candidates.
                bindr (foldr_res (repair_one app (b_ref record) (hd elig) (p_r p) cost) candidates (domains, tx)) (\<lambda>(_, tx).
                Inr tx)))))"

definition settle_promotion :: "app \<Rightarrow> (string \<times> block_ref) list \<Rightarrow> policy_rec \<Rightarrow> db \<Rightarrow> db" where
  "settle_promotion app refs p tx =
     (if p_state p = PROMOTING then
        (let own = filter (\<lambda>(_, b). br_file b = p_id p) refs;
             p = (if list_all (\<lambda>(i, b). int (length (eligible app tx (br_version b))) \<ge> p_r p) own then p\<lparr>p_state := ACTIVE\<rparr>
                  else if now_ms app \<ge> p_until p then p\<lparr>p_state := PROMOTION_BLOCKED\<rparr> else p)
         in tx\<lparr>policies := tput (p_id p) p (policies tx)\<rparr>)
      else tx)"

definition reconcile :: "app \<Rightarrow> db \<Rightarrow> db res" where
  "reconcile app tx =
     (let refs = useful app tx in
      bindr (foldr_res (repair_block app) refs tx) (\<lambda>tx.
      Inr (fold (settle_promotion app refs) (tall (policies tx)) tx)))"

section \<open>Scrubbing and dispatch\<close>

definition scrub_pick :: "app \<Rightarrow> db \<Rightarrow> location_rec option" where
  "scrub_pick app tx =
     (case filter (\<lambda>l. lc_health l = VERIFIED \<and> node_state app (tget (datanodes tx) (lc_node l)) = READY \<and>
              lc_checked_at l + scrub_interval_ms app < now_ms app) (tall (locations tx)) of
        [] \<Rightarrow> None
      | l # ls \<Rightarrow> Some (fold (\<lambda>x best. if lc_checked_at x < lc_checked_at best then x else best) ls l))"

text \<open>What \<^verbatim>\<open>VerifyReceipt\<close> answered: the receipt, a gRPC status, or another failure.\<close>

datatype scrub_answer = Verified_as durable_receipt | Status_data_loss | Status_not_found | Other_failure

definition scrub_health :: "location_rec \<Rightarrow> scrub_answer \<Rightarrow> copy_health option" where
  "scrub_health l answer =
     (case answer of
        Verified_as r \<Rightarrow> if r = lc_receipt l then Some VERIFIED else None
      | Status_data_loss \<Rightarrow> Some CORRUPT
      | Status_not_found \<Rightarrow> Some MISSING
      | Other_failure \<Rightarrow> None)"

definition scrub_record :: "app \<Rightarrow> location_rec \<Rightarrow> copy_health \<Rightarrow> db \<Rightarrow> db" where
  "scrub_record app l health tx =
     (case location_of tx (lc_block l) (lc_node l) of
        None \<Rightarrow> tx
      | Some current \<Rightarrow>
          if lc_receipt current = lc_receipt l then
            (let tx = put_location (current\<lparr>lc_health := health, lc_checked_at := now_ms app\<rparr>) tx in
             if health = VERIFIED then tx
             else (let (i, tx) = uid app tx in
                   tx\<lparr>health_events := tput i \<lparr>he_id = i, he_block = lc_block l, he_node = lc_node l,
                        he_receipt = lc_receipt l, he_health = health, he_observed_at = now_ms app\<rparr> (health_events tx)\<rparr>))
          else tx)"

definition scrub :: "app \<Rightarrow> (location_rec \<Rightarrow> scrub_answer) \<Rightarrow> db \<Rightarrow> db" where
  "scrub app ask tx =
     (case scrub_pick app tx of
        None \<Rightarrow> tx
      | Some l \<Rightarrow> (case scrub_health l (ask l) of None \<Rightarrow> tx | Some health \<Rightarrow> scrub_record app l health tx))"

definition orphan_copies :: "app \<Rightarrow> db \<Rightarrow> task_rec list" where
  "orphan_copies app tx =
     filter (\<lambda>t. t_kind t = COPY \<and> ts_state (t_status t) = FAILED \<and> \<not> t_cleanup_checked t \<and>
        \<not> is_useful app tx (br_version (t_block t)) \<and> node_state app (tget (datanodes tx) (t_dest t)) = READY) (tall (tasks tx))"

definition clean_orphan_copy :: "app \<Rightarrow> (task_rec \<Rightarrow> task_status option) \<Rightarrow> db \<Rightarrow> db res" where
  "clean_orphan_copy app ask tx =
     (case orphan_copies app tx of
        [] \<Rightarrow> Inr tx
      | t # _ \<Rightarrow>
          (case ask t of
             None \<Rightarrow> Inr tx
           | Some status \<Rightarrow>
               bindr (case ts_receipt status of
                        Some r \<Rightarrow>
                          if ts_state status = FINISHED \<and> dr_block r = t_block t \<and> \<not> is_useful app tx (br_version (t_block t))
                          then (let tx = retire_copy app (t_block t) (t_dest t) tx in
                                deref (tget (retirements tx) (location_key (br_version (t_block t)) (t_dest t))) (\<lambda>i.
                                deref (tget (tasks tx) i) (\<lambda>d.
                                Inr (put_task (d\<lparr>t_expected_receipt := dr_id r\<rparr>) tx))))
                          else Inr tx
                      | None \<Rightarrow> Inr tx) (\<lambda>tx.
               if ts_state status \<in> {FINISHED, FAILED}
               then deref (tget (tasks tx) (t_id t)) (\<lambda>c. Inr (put_task (c\<lparr>t_cleanup_checked := True\<rparr>) tx))
               else Inr tx)))"

text \<open>
  The tasks one pass of the replicated \<^verbatim>\<open>tick\<close> sends: at most one copy and one deletion. Over the shared store the
  copies of blocks that do not have their minimum of copies yet come first.
\<close>

definition has_minimum :: "app \<Rightarrow> db \<Rightarrow> task_rec \<Rightarrow> bool res" where
  "has_minimum app tx t =
     bindr (policy app (br_file (t_block t)) False tx) (\<lambda>(p, _).
     Inr (p_w p \<le> int (length (eligible app tx (br_version (t_block t))))))"

definition due_tasks :: "app \<Rightarrow> db \<Rightarrow> task_rec list res" where
  "due_tasks app tx =
     (let active = sort_key t_id (filter (\<lambda>t. task_active t \<and> t_expires t > now_ms app) (tall (tasks tx)));
          copies = filter (\<lambda>t. t_kind t = COPY) active
      in bindr (if etcd_backend app
                then bindr (map_res (has_minimum app tx) copies) (\<lambda>ks. Inr (map snd (sort_key fst (zip ks copies))))
                else Inr copies) (\<lambda>copies.
         let running = filter t_dispatched copies
         in Inr (take 1 (if running \<noteq> [] then running else copies) @ take 1 (filter (\<lambda>t. t_kind t = DELETE) active))))"

definition dispatched :: "app \<Rightarrow> task_rec \<Rightarrow> db \<Rightarrow> db res" where
  "dispatched app t tx =
     deref (tget (tasks tx) (t_id t)) (\<lambda>c.
     let n = t_attempts c + 1 in
     Inr (put_task (c\<lparr>t_attempts := n, t_dispatched := True,
            t_next_run := now_ms app + min 10000 (500 * 2 ^ nat (min n 4))\<rparr>) tx))"

section \<open>Protection policies\<close>

definition promote_abort :: "string \<Rightarrow> db \<Rightarrow> db" where
  "promote_abort file tx =
     fold (\<lambda>op tx. if o_file op = file \<and> o_state op = PREPARING
                   then release_operation (abort_op op) (put_upload (abort_op op) tx) else tx) (tall (uploads tx)) tx"

definition PromoteProtection :: "app \<Rightarrow> user_rec \<Rightarrow> req_ctx \<Rightarrow> path_ref \<Rightarrow> int \<Rightarrow> db \<Rightarrow> (mutation_result \<times> db) res" where
  "PromoteProtection app user cx path expected tx =
     need (u_admin user) PERMISSION_DENIED (
     bindr (resolve app tx user path) (\<lambda>node.
     need (\<not> n_directory node) IS_DIRECTORY (
     bindr (policy app (n_id node) False tx) (\<lambda>(p, tx).
     need (expected = p_revision p) VERSION_CONFLICT (
     if p_r p = 3 \<and> p_state p \<noteq> PROMOTION_BLOCKED then Inr (result cx (p_revision p), tx)
     else
       (let p = p\<lparr>p_r := 3, p_w := 2, p_revision := p_revision p + 1, p_state := PROMOTING, p_until := now_ms app + 300000\<rparr>;
            tx = tx\<lparr>policies := tput (p_id p) p (policies tx)\<rparr>
        in Inr (result cx (p_revision p), promote_abort (n_id node) tx)))))))"

record protection_status =
  pv_file :: string
  pv_target :: int
  pv_minimum :: int
  pv_revision :: int
  pv_policy :: policy_state
  pv_blocks :: "block_protection list"
  pv_state :: string
  pv_durable :: bool
  pv_cursor :: string
  pv_operation :: "op_state option"

text \<open>The failure profile in the answer is a text of the configuration and left out; without an operation its state is unspecified.\<close>

definition protection_page :: "app \<Rightarrow> db \<Rightarrow> string \<Rightarrow> block_ref list \<Rightarrow> op_state option \<Rightarrow> int \<Rightarrow> int option \<Rightarrow> protection_status res" where
  "protection_page app tx file refs state limit cursor0 =
     bindr (policy app file False tx) (\<lambda>(p, _).
     need_some cursor0 INVALID_ARGUMENT (\<lambda>cursor.
     need (0 \<le> cursor \<and> cursor \<le> int (length refs)) INVALID_ARGUMENT (
     bindr (map_res (\<lambda>b. protection app tx b p) (slice refs cursor (cursor + limit))) (\<lambda>rows.
     Inr \<lparr>pv_file = file, pv_target = p_r p, pv_minimum = p_w p, pv_revision = p_revision p, pv_policy = p_state p,
          pv_blocks = rows,
          pv_state = (if list_ex (\<lambda>x. bp_eligible x = 0) rows then ''UNAVAILABLE''
                      else if list_ex (\<lambda>x. bp_eligible x < p_r p) rows then ''DEGRADED'' else ''NORMAL''),
          pv_durable = list_all (\<lambda>x. bp_confirmed x \<ge> p_w p \<and> bp_eligible x \<ge> p_w p) rows,
          pv_cursor = (if cursor + limit < int (length refs) then dec_int (cursor + limit) else ''''), pv_operation = state\<rparr>))))"

definition GetProtection :: "app \<Rightarrow> user_rec \<Rightarrow> session_rec \<Rightarrow> string \<Rightarrow> path_ref \<Rightarrow> string \<Rightarrow> int \<Rightarrow> int option \<Rightarrow> db \<Rightarrow>
    protection_status res" where
  "GetProtection app user session operation_id path snapshot_id limit0 cursor tx =
     (let limit = (if limit0 = 0 then 64 else limit0) in
      need (1 \<le> limit \<and> limit \<le> 64) INVALID_ARGUMENT (
      if operation_id \<noteq> [] then
        need_some (tget (uploads tx) operation_id) PERMISSION_DENIED (\<lambda>op.
        need (o_user op = u_id user) PERMISSION_DENIED (
        protection_page app tx (o_file op) (map snd (o_allocations op)) (Some (o_state op)) limit cursor))
      else
        bindr (resolve app tx user path) (\<lambda>node.
        need (\<not> n_directory node) IS_DIRECTORY (
        bindr (require app tx user node 4) (\<lambda>_.
        need (snapshot_id = [] \<or> list_ex (\<lambda>h. h_file h = n_id node \<and> h_snapshot h = Some snapshot_id \<and>
                h_user h = u_id user \<and> h_session h = s_id session \<and> \<not> h_closed h \<and> handle_live app h) (tall (handles tx))) STALE_HANDLE (
        deref (if snapshot_id \<noteq> [] then tget (snapshots tx) snapshot_id
               else Option.bind (n_snapshot node) (tget (snapshots tx))) (\<lambda>snap.
        protection_page app tx (n_id node) (sn_blocks snap) None limit cursor)))))))"

end
