(* ===== verification/Samples.thy ===== *)
theory Samples
  imports Json
begin

text \<open>
  A small concrete system on which the properties with hypotheses are exercised: a configuration whose
  external functions are simple executable ones, an administrator and a session.
\<close>

definition sample_app :: app where
  "sample_app = \<lparr>profile = LOCAL, block_size_bytes = 4194304, max_file_bytes = 1000000, capacity_bytes = 10000000,
     protected_store = False, etcd_backend = False, session_leased = (\<lambda>_. True), handle_leased = (\<lambda>_. True), lock_seconds = 30, handle_seconds = 60, suspect_ms = 2000,
     unavailable_ms = 10000, scrub_interval_ms = 1000, default_replicas = 1, allowed = [], sys_epoch = ''epoch'',
     sys_root = dec_digits 2, sys_node = ''node'', strict_content = False, lease_epoch = ''lease'',
     maintenance_generation = 1, verified_seals = [], now_ms = 1000, clock_s = 1, disk_free = 100000000, slot_free = True,
     master_key = ''key'', uidgen = dec_digits, nfc = (\<lambda>s. s), sha256 = (\<lambda>s. s), hmac_sha256 = (\<lambda>k s. s),
     pw_hash = (\<lambda>n s. s), pw_verify = (\<lambda>h p. h = p), aead_seal = (\<lambda>n s. s), aead_open = Some,
     block_dict = (\<lambda>b. JStr (br_version b)), fence_dict = (\<lambda>f. JStr (f_lock f))\<rparr>"

definition sample_user :: user_rec where
  "sample_user = \<lparr>u_id = ''u'', u_username = ''ana'', u_password = ''a long password'', u_disabled = False, u_admin = True, u_revision = 1\<rparr>"

definition sample_session :: session_rec where
  "sample_session = \<lparr>s_id = ''s'', s_session_id = ''sid'', s_user = ''u'', s_expires = 5000, s_revoked = False\<rparr>"

definition sample_cx :: req_ctx where
  "sample_cx = \<lparr>cx_request_id = ''r'', cx_user_id = ''u'', cx_service_epoch = ''epoch'', cx_intent = ''''\<rparr>"

lemma dec_digits_inj: "dec_digits m = dec_digits n \<longleftrightarrow> m = n"
  by (metis dec_val_digits of_nat_eq_iff)

lemma sample_app_simps [simp]:
  "uidgen sample_app = dec_digits" "nfc sample_app = (\<lambda>s. s)" "sys_root sample_app = dec_digits 2" "profile sample_app = LOCAL"
  "now_ms sample_app = 1000" "strict_content sample_app = False" "slot_free sample_app" "sys_epoch sample_app = ''epoch''"
  "lease_epoch sample_app = ''lease''" "clock_s sample_app = 1" "pw_hash sample_app = (\<lambda>n s. s)" "verified_seals sample_app = []"
  "sha256 sample_app = (\<lambda>s. s)" "aead_seal sample_app = (\<lambda>n s. s)" "aead_open sample_app = Some" "pw_verify sample_app = (\<lambda>h p. h = p)"
  "block_size_bytes sample_app = 4194304" "max_file_bytes sample_app = 1000000" "allowed sample_app = []"
  "lock_seconds sample_app = 30" "\<not> etcd_backend sample_app" "handle_seconds sample_app = 60"
  by (simp_all add: sample_app_def)

lemma sample_user_simps [simp]:
  "u_id sample_user = ''u''" "u_admin sample_user" "\<not> u_disabled sample_user" "u_username sample_user = ''ana''"
  "s_id sample_session = ''s''" "s_user sample_session = ''u''" "s_expires sample_session = 5000" "\<not> s_revoked sample_session"
  "cx_request_id sample_cx = ''r''" "cx_user_id sample_cx = ''u''" "cx_service_epoch sample_cx = ''epoch''" "cx_intent sample_cx = ''''"
  by (simp_all add: sample_user_def sample_session_def sample_cx_def)

end
