(* ===== verification/Lock_Machine.thy ===== *)
theory Lock_Machine
  imports Tree Maintenance Samples
begin

text \<open>
  The locks of the cluster as a machine. Every command that takes, renews or gives up a lock is a step, and so are
  the passing of time, which ends leases, and a restart of the control node, which begins a new epoch. Commands that leave the
  locks alone are covered by \<open>locks_kept\<close>. The invariant is mutual exclusion: of two live locks on one file that
  belong to different handles, neither covers the whole file, they do not both cover its size, and they cover no common block.
\<close>

section \<open>The invariant\<close>

definition lock_ok :: "app \<Rightarrow> db \<Rightarrow> bool" where
  "lock_ok app tx \<longleftrightarrow> lock_keys tx \<and> lock_excl app tx"

definition same_claim :: "lock_rec \<Rightarrow> lock_rec \<Rightarrow> bool" where
  "same_claim a b \<longleftrightarrow> lk_file a = lk_file b \<and> lk_session a = lk_session b \<and> lk_handle a = lk_handle b \<and>
     lk_whole a = lk_whole b \<and> lk_size a = lk_size b \<and> lk_indices a = lk_indices b"

definition locks_kept :: "db \<Rightarrow> db \<Rightarrow> bool" where
  "locks_kept tx tx' \<longleftrightarrow> locks tx' = locks tx \<and> lock_sequence tx' = lock_sequence tx"

lemma same_claim_refl [simp]: "same_claim a a"
  by (simp add: same_claim_def)

lemma same_claim_clash: "same_claim a a' \<Longrightarrow> same_claim b b' \<Longrightarrow> lock_clash a' b' \<Longrightarrow> lock_clash a b"
  by (simp add: same_claim_def lock_clash_def)

lemma locks_kept_refl [simp]: "locks_kept tx tx"
  by (simp add: locks_kept_def)

lemma locks_kept_trans: "locks_kept a b \<Longrightarrow> locks_kept b c \<Longrightarrow> locks_kept a c"
  by (simp add: locks_kept_def)

lemma lock_ok_kept: "locks_kept tx tx' \<Longrightarrow> lock_ok app tx \<Longrightarrow> lock_ok app tx'"
  by (simp add: locks_kept_def lock_ok_def lock_keys_def lock_excl_def)

lemma lock_ok_frame [simp]:
  "lock_ok app (tx\<lparr>nodes := a\<rparr>) = lock_ok app tx" "lock_ok app (tx\<lparr>uploads := b\<rparr>) = lock_ok app tx"
  "lock_ok app (tx\<lparr>handles := c\<rparr>) = lock_ok app tx" "lock_ok app (tx\<lparr>uid_count := d\<rparr>) = lock_ok app tx"
  "lock_ok app (tx\<lparr>snapshots := e\<rparr>) = lock_ok app tx" "lock_ok app (tx\<lparr>policies := f\<rparr>) = lock_ok app tx"
  "lock_ok app (tx\<lparr>tasks := g\<rparr>) = lock_ok app tx" "lock_ok app (tx\<lparr>retirements := h\<rparr>) = lock_ok app tx"
  "lock_ok app (tx\<lparr>locations := i\<rparr>) = lock_ok app tx" "lock_ok app (tx\<lparr>blocks := j\<rparr>) = lock_ok app tx"
  "lock_ok app (tx\<lparr>retired := k\<rparr>) = lock_ok app tx" "lock_ok app (tx\<lparr>control_epoch := l\<rparr>) = lock_ok app tx"
  by (simp_all add: lock_ok_def lock_keys_def lock_excl_def)

lemma same_core_kept: "same_core tx tx' \<Longrightarrow> locks_kept tx tx'"
  by (simp add: same_core_def locks_kept_def)

text \<open>
  The shape of every argument below: each lock afterwards makes the claim of a lock that was live before, or
  that of one lock \<open>l\<close> which clashes with none of those.
\<close>

lemma lock_ok_from:
  assumes ok: "lock_ok app tx"
    and new: "\<And>k b. tget (locks tx') k = Some b \<Longrightarrow> lk_id b = k \<and> lk_generation b \<le> lock_sequence tx' \<and>
       (lock_live app b \<longrightarrow> same_claim l b \<or> (\<exists>j a. tget (locks tx) j = Some a \<and> lock_live app a \<and> same_claim a b))"
    and apart: "\<And>j a. tget (locks tx) j = Some a \<Longrightarrow> lock_live app a \<Longrightarrow> \<not> lock_clash l a"
  shows "lock_ok app tx'"
proof -
  have "\<not> lock_clash a b" if a: "tget (locks tx') j = Some a" "lock_live app a" and b: "tget (locks tx') k = Some b" "lock_live app b" for j k a b
  proof
    assume clash: "lock_clash a b"
    note sym = lock_clash_sym [OF clash]
    from new [OF a(1)] a(2) consider "same_claim l a" | i c where "tget (locks tx) i = Some c" "lock_live app c" "same_claim c a" by blast
    note ca = this
    from new [OF b(1)] b(2) consider "same_claim l b" | i c where "tget (locks tx) i = Some c" "lock_live app c" "same_claim c b" by blast
    note cb = this
    from ca show False
    proof cases
      case 1
      from cb show False
      proof cases
        case 1
        with same_claim_clash [OF \<open>same_claim l a\<close> 1 clash] show False by simp
      next
        case (2 i c)
        with same_claim_clash [OF 1 2(3) clash] apart show False by blast
      qed
    next
      case (2 i c)
      note c = this
      from cb show False
      proof cases
        case 1
        with same_claim_clash [OF 1 c(3) sym] apart c(1,2) show False by blast
      next
        case (2 j d)
        with same_claim_clash [OF c(3) 2(3) clash] ok c(1,2) show False unfolding lock_ok_def lock_excl_def by blast
      qed
    qed
  qed
  moreover have "lock_keys tx'" using new by (auto simp: lock_keys_def)
  ultimately show ?thesis unfolding lock_ok_def lock_excl_def by blast
qed

text \<open>The same without a new claim: an empty one clashes with nothing.\<close>

lemma lock_ok_sub:
  assumes "lock_ok app tx"
    and "\<And>k b. tget (locks tx') k = Some b \<Longrightarrow> lk_id b = k \<and> lk_generation b \<le> lock_sequence tx' \<and>
       (lock_live app b \<longrightarrow> (\<exists>j a. tget (locks tx) j = Some a \<and> lock_live app a \<and> same_claim a b))"
  shows "lock_ok app tx'"
proof (cases "\<exists>j a. tget (locks tx) j = Some a \<and> lock_live app a")
  case True
  then obtain j a where a: "tget (locks tx) j = Some a" "lock_live app a" by blast
  show ?thesis
  proof (rule lock_ok_from [OF assms(1), where l = a])
    show "\<not> lock_clash a b" if "tget (locks tx) k = Some b" "lock_live app b" for k b
      using assms(1) a that unfolding lock_ok_def lock_excl_def by blast
  qed (use assms(2) in blast)
next
  case False
  with assms(2) have "\<not> lock_live app b" if "tget (locks tx') k = Some b" for k b using that by blast
  with assms(2) show ?thesis by (auto simp: lock_ok_def lock_keys_def lock_excl_def)
qed

lemma live_claim: "tget (locks tx) k = Some b \<Longrightarrow> lock_live app b \<Longrightarrow> \<exists>j a. tget (locks tx) j = Some a \<and> lock_live app a \<and> same_claim a b"
  using same_claim_refl by blast

lemma lock_keysD: "lock_ok app tx \<Longrightarrow> tget (locks tx) k = Some l \<Longrightarrow> lk_id l = k \<and> lk_generation l \<le> lock_sequence tx"
  by (simp add: lock_ok_def lock_keys_def)

lemma lock_ok_tdel [simp]: "lock_ok app tx \<Longrightarrow> lock_ok app (tx\<lparr>locks := tdel k (locks tx)\<rparr>)"
  by (rule lock_ok_sub) (auto dest: lock_keysD intro: live_claim split: if_splits)

lemma lock_ok_renewed:
  assumes "lock_ok app tx" "tget (locks tx) k = Some l" "lock_live app l" "same_claim l l'" "lk_id l' = lk_id l"
    "lk_generation l' = lk_generation l"
  shows "lock_ok app (put_lock l' tx)"
proof (rule lock_ok_sub [OF assms(1)])
  fix j b
  assume b: "tget (locks (put_lock l' tx)) j = Some b"
  show "lk_id b = j \<and> lk_generation b \<le> lock_sequence (put_lock l' tx) \<and>
      (lock_live app b \<longrightarrow> (\<exists>j a. tget (locks tx) j = Some a \<and> lock_live app a \<and> same_claim a b))"
    using b assms(2-) lock_keysD [OF assms(1)] by (cases "j = lk_id l'") (auto intro: live_claim)
qed

lemma acquire_ok:
  assumes a: "acquire app handle file session is whole sized automatic tx = Inr (l, t)" and ok: "lock_ok app tx"
    and l': "same_claim l l'" "lk_id l' = lk_id l" "lk_generation l' = lk_generation l"
  shows "lock_ok app (put_lock l' t)"
proof (rule lock_ok_from [OF ok, where l = l])
  have t: "locks t = tput (lk_id l) l (locks tx)" "lock_sequence t = lock_sequence tx + 1"
    by (subst acquire_Inr(16) [OF a], simp)+
  show "lk_id b = j \<and> lk_generation b \<le> lock_sequence (put_lock l' t) \<and>
      (lock_live app b \<longrightarrow> same_claim l b \<or> (\<exists>j a. tget (locks tx) j = Some a \<and> lock_live app a \<and> same_claim a b))"
    if "tget (locks (put_lock l' t)) j = Some b" for j b
  proof (cases "j = lk_id l")
    case True
    with that l' acquire_Inr(11) [OF a] show ?thesis by (auto simp: t)
  next
    case False
    with that l' have b: "tget (locks tx) j = Some b" by (simp add: t)
    from lock_keysD [OF ok b] have "lk_id b = j" "lk_generation b \<le> lock_sequence tx + 1" by auto
    then show ?thesis using live_claim [OF b] by (simp add: t)
  qed
  show "\<not> lock_clash l b" if "tget (locks tx) j = Some b" "lock_live app b" for j b
    using acquire_no_clash [OF a that] .
qed

lemma acquire_lock_ok:
  assumes a: "acquire app handle file session is whole sized automatic tx = Inr (l, t)" and ok: "lock_ok app tx"
  shows "lock_ok app t"
proof -
  have t: "locks t = tput (lk_id l) l (locks tx)" by (subst acquire_Inr(16) [OF a]) simp
  have "locks_kept (put_lock l t) t" by (simp add: locks_kept_def t tput_tput)
  with acquire_ok [OF a ok, of l] show ?thesis by (auto intro: lock_ok_kept)
qed

lemma release_operation_ok [simp]: "lock_ok app tx \<Longrightarrow> lock_ok app (release_operation op tx)"
proof -
  assume ok: "lock_ok app tx"
  have "lock_keys (fold (release_lock i) ks t)" if "lock_keys t" for i ks t
    using that by (induction ks arbitrary: t) (simp_all add: release_lock_keys)
  moreover have "lock_keys (release_busy i h t) = lock_keys t" for i h t by (simp add: lock_keys_def frame)
  ultimately have "lock_keys (release_operation op tx)" using ok unfolding release_operation_def lock_ok_def by blast
  with ok show ?thesis by (simp add: lock_ok_def release_operation_excl)
qed

lemma fold_release_ok:
  "lock_ok app tx \<Longrightarrow> lock_ok app (fold (\<lambda>op tx. if P op then release_operation (f op) (g op tx) else tx) ops tx)"
  if "\<And>op t. locks_kept t (g op t)"
proof (induction ops arbitrary: tx)
  case (Cons op ops)
  have "lock_ok app (release_operation (f op) (g op tx))" using lock_ok_kept [OF that Cons.prems] by (rule release_operation_ok)
  then show ?case using Cons by simp
qed simp

section \<open>Commands\<close>

lemma Lock_ok:
  assumes "Lock app user session hid whole off len wait tx = Inr (f, tx')" and "lock_ok app tx"
  shows "lock_ok app tx'"
  using assms acquire_lock_ok by (auto simp: Lock_def run split: if_splits option.splits)

lemma validated_put:
  assumes "validate app tx session f = Inr l" and "lock_ok app tx"
  shows "lock_ok app (put_lock (l\<lparr>lk_deadline := d\<rparr>) tx)"
  using assms by (intro lock_ok_renewed [of app tx "f_lock f" l]) (auto simp: validate_Inr same_claim_def)

lemma RenewLock_ok:
  assumes "RenewLock app user session f tx = Inr (g, tx')" and "lock_ok app tx"
  shows "lock_ok app tx'"
  using assms(1) validated_put [OF _ assms(2)] by (auto simp: RenewLock_def run Let_def)

lemma Unlock_ok:
  assumes "Unlock app session cx f tx = Inr (m, tx')" and "lock_ok app tx"
  shows "lock_ok app tx'"
  using assms by (auto simp: Unlock_def run)

lemma Close_ok:
  assumes "Close app user session cx hid expected tx = Inr (m, tx')" and "lock_ok app tx"
  shows "lock_ok app tx'"
proof -
  have drop: "lock_ok app (drop_locks h s t)" if "lock_ok app t" for h s t
    unfolding drop_locks_def by (rule fold_invariant [where P = "lock_ok app"]) (use that in auto)
  with assms show ?thesis by (auto simp: Close_def access_Close_def local_Close_def run Let_def split: if_splits)
qed

lemma policy_ok: "policy app file create tx = Inr (p, tx') \<Longrightarrow> lock_ok app' tx \<Longrightarrow> lock_ok app' tx'"
  using policy_core same_core_kept lock_ok_kept by blast

lemma open_existing_ok:
  assumes "open_existing app user session mode n tx = Inr (m, e, v, tx')" and "lock_ok app tx"
  shows "lock_ok app tx'"
proof -
  from assms obtain owner t l t1 where u: "uid app tx = (owner, t)" and
    a: "acquire app owner (n_id n) (s_id session) [] True True True t = Inr (l, t1)" and
    r: "tx' = t1\<lparr>locks := tdel (lk_id l) (locks t1)\<rparr>"
    by (auto simp: open_existing_def run Let_def split: prod.splits)
  have "lock_ok app t" using assms(2) u by (auto simp: uid_def locks_kept_def intro: lock_ok_kept)
  with acquire_lock_ok [OF a] r show ?thesis by simp
qed

lemma open_create_ok:
  assumes "open_create app user session path mode tx = Inr (n, tx')" and "lock_ok app tx"
  shows "lock_ok app tx'"
proof -
  from assms(1) obtain existing where ex: "resolve_opt app tx user path = Inr existing" by (auto simp: open_create_def run)
  show ?thesis
  proof (cases existing)
    case None
    with assms ex show ?thesis by (auto simp: open_create_def run Let_def uid_def bump_def new_node_def)
  next
    case (Some m)
    with assms(1) ex open_existing_ok [OF _ assms(2)] show ?thesis by (auto simp: open_create_def run Let_def uid_def bump_def)
  qed
qed

lemma Open_ok:
  assumes "Open app user session path mode tx = Inr (m, tx')" and "lock_ok app tx"
  shows "lock_ok app tx'"
proof -
  have access: "lock_ok app t" if "access_Open app user session path mode tx = Inr (r, t)" for r t
  proof -
    have new: "lock_ok app b" if "open_create app user session path mode tx = Inr (a, b)" for a b
      using open_create_ok [OF that assms(2)] .
    from that assms(2) show ?thesis
      by (cases "mode \<in> {MODE_W, MODE_W_PLUS, MODE_X, MODE_X_PLUS}") (auto simp: access_Open_def run Let_def uid_def dest!: new)
  qed
  have "lock_ok app t" if "protection_Open app user session path mode tx = Inr (r, t)" for r t
    using that access policy_ok by (auto simp: protection_Open_def run)
  moreover have "lock_ok app t" if "local_Open app user session path mode tx = Inr (r, t)" for r t
    using that assms(2) by (auto simp: local_Open_def run Let_def uid_def)
  ultimately show ?thesis using assms access by (auto simp: Open_def split: profile.splits)
qed

lemma base_BeginUpload_kept: "base_BeginUpload app user session cx req tx = Inr (p, tx') \<Longrightarrow> locks_kept tx tx'"
  by (auto dest!: base_BeginUpload_Inr simp: locks_kept_def)

lemma capture_policy_ok: "capture_policy app op tx = Inr tx' \<Longrightarrow> lock_ok app' tx \<Longrightarrow> lock_ok app' tx'"
  by (auto simp: capture_policy_def run intro: policy_ok)

lemma policy_result_ok: "policy_result app op r tx = Inr (r', tx') \<Longrightarrow> lock_ok app' tx \<Longrightarrow> lock_ok app' tx'"
  by (auto dest!: policy_result_Inr(4))

lemma BeginUpload_ok:
  assumes "BeginUpload app user session cx req tx = Inr (p, tx')" and "lock_ok app tx"
  shows "lock_ok app tx'"
proof -
  have access: "lock_ok app t" if "access_BeginUpload app user session cx req tx = Inr (q, t)" for q t
  proof -
    from that obtain t0 op l t1 where b: "base_BeginUpload app user session cx req tx = Inr (q, t0)" and
      op: "tget (uploads t0) (or_id (up_operation q)) = Some op" and
      a: "acquire app (o_id op) (o_file op) (s_id session) [] True True True t0 = Inr (l, t1)"
      by (auto simp: access_BeginUpload_def run Let_def)
    from that b op a have kept: "locks_kept (put_lock (l\<lparr>lk_deadline := clock_s app + 300, lk_active := [o_id op]\<rparr>) t1) t"
      by (auto simp: access_BeginUpload_def Let_def locks_kept_def)
    have "lock_ok app t0" using base_BeginUpload_kept [OF b] assms(2) by (rule lock_ok_kept)
    from acquire_ok [OF a this, of "l\<lparr>lk_deadline := clock_s app + 300, lk_active := [o_id op]\<rparr>"] kept show ?thesis
      by (auto simp: same_claim_def intro: lock_ok_kept)
  qed
  have "lock_ok app t" if "protection_BeginUpload app user session cx req tx = Inr (q, t)" for q t
  proof -
    from that obtain a b x t1 y where "access_BeginUpload app user session cx req tx = Inr (a, b)"
      "capture_policy app x b = Inr t1" "policy app (up_file a) False t1 = Inr (y, t)" by (auto simp: protection_BeginUpload_def run)
    then show ?thesis by (blast intro: policy_ok capture_policy_ok access)
  qed
  moreover have "lock_ok app t" if "base_BeginUpload app user session cx req tx = Inr (q, t)" for q t
    using base_BeginUpload_kept [OF that] assms(2) by (rule lock_ok_kept)
  ultimately show ?thesis using assms access by (auto simp: BeginUpload_def split: profile.splits)
qed

lemma RenewUpload_ok:
  assumes "RenewUpload app user session reference tx = Inr (p, tx')" and "lock_ok app tx"
  shows "lock_ok app tx'"
proof -
  have base: "lock_ok app t" if "base_RenewUpload app user session reference tx = Inr (q, t)" for q t
    using assms(2) that by (auto simp: base_RenewUpload_def run Let_def locks_kept_def intro: lock_ok_kept)
  have "lock_ok app t" if "access_RenewUpload app user session reference tx = Inr (q, t)" for q t
    using that base validated_put by (auto simp: access_RenewUpload_def run Let_def)
  with base assms(1) show ?thesis by (auto simp: RenewUpload_def split: if_splits)
qed

lemma CommitUpload_ok:
  assumes "CommitUpload app user session reference fence seal tx = Inr (r, tx')" and "lock_ok app tx"
  shows "lock_ok app tx'"
proof -
  have base: "locks_kept tx t" if "base_CommitUpload app user session reference fence seal tx = Inr (q, t)" for q t
    using that by (auto simp: base_CommitUpload_def run Let_def uid_def bump_def new_node_def locks_kept_def split: option.splits prod.splits)
  then have cluster: "locks_kept tx t" if "cluster_CommitUpload app user session reference fence seal tx = Inr (q, t)" for q t
    using that by (auto simp: cluster_CommitUpload_def run)
  have access: "lock_ok app t" if acc: "access_CommitUpload app user session reference fence seal tx = Inr (q, t)" for q t
  proof -
    have finished: "lock_ok app b" if "cluster_CommitUpload app user session reference fence seal tx = Inr (a, b)" for a b
      using cluster [OF that] assms(2) by (rule lock_ok_kept)
    from acc show ?thesis by (auto simp: access_CommitUpload_def run Let_def dest!: finished)
  qed
  have "lock_ok app t" if "protection_CommitUpload app user session reference fence seal tx = Inr (q, t)" for q t
    using that by (auto simp: protection_CommitUpload_def run intro: policy_result_ok access)
  moreover have "lock_ok app t" if "locks_kept tx t" for t using that assms(2) by (rule lock_ok_kept)
  ultimately show ?thesis using assms access base cluster by (auto simp: CommitUpload_def split: profile.splits)
qed

lemma AbortUpload_ok:
  assumes "AbortUpload app user session cx reference tx = Inr (m, tx')" and "lock_ok app tx"
  shows "lock_ok app tx'"
proof -
  have "lock_ok app t" if "base_AbortUpload user session cx reference tx = Inr (q, t)" for q t
    using that assms(2) by (auto simp: base_AbortUpload_def run)
  with assms(1) show ?thesis by (auto simp: AbortUpload_def run split: if_splits)
qed

lemma remove_ok:
  assumes "remove app user cx path directory tx = Inr (m, tx')" and "lock_ok app tx"
  shows "lock_ok app tx'"
proof -
  have abort: "lock_ok app (abort_uploads i t)" if "lock_ok app t" for i t
    unfolding abort_uploads_def by (rule fold_invariant [where P = "lock_ok app"]) (use that in auto)
  have base: "lock_ok app t" if "base_remove app user cx path directory tx = Inr (q, t)" for q t
    using that abort assms(2) by (auto simp: base_remove_def run Let_def bump_def)
  have "lock_ok app (fold (\<lambda>op tx. if P op then release_operation op tx else tx) ops t)" if "lock_ok app t" for P ops t
    using fold_release_ok [of "\<lambda>_ t. t" app t P "\<lambda>op. op" ops] that by simp
  with base assms(1) show ?thesis by (auto simp: remove_def access_remove_def run split: if_splits)
qed

section \<open>Writes in place\<close>

text \<open>
  \<open>from_store\<close>: a lock of the store \<open>tx\<close>, or the one that was acquired for the write.
\<close>

definition from_store :: "db \<Rightarrow> lock_rec option \<Rightarrow> int \<Rightarrow> string \<Rightarrow> lock_rec \<Rightarrow> bool" where
  "from_store tx new seq k a \<longleftrightarrow> tget (locks tx) k = Some a \<or> new = Some a \<and> lk_id a = k \<and> lk_generation a \<le> seq"

lemma fst_cover [simp]: "fst (cover wanted l acc) = fst acc @ [l]"
  by (simp add: cover_def case_prod_beta)

lemma cover_fences_held:
  assumes "foldr_res (cover_fence app tx session handle wanted) fences acc = Inr acc'" and "lock_ok app tx"
    and "\<forall>l \<in> set (fst acc). tget (locks tx) (lk_id l) = Some l"
  shows "\<forall>l \<in> set (fst acc'). tget (locks tx) (lk_id l) = Some l"
proof (rule foldr_res_invariant [OF assms(1), where P = "\<lambda>a. \<forall>l \<in> set (fst a). tget (locks tx) (lk_id l) = Some l"])
  show "\<forall>l \<in> set (fst t'). tget (locks tx) (lk_id l) = Some l"
    if "\<forall>l \<in> set (fst t). tget (locks tx) (lk_id l) = Some l" "cover_fence app tx session handle wanted f t = Inr t'" for f t t'
    using that lock_keysD [OF assms(2)] by (auto simp: cover_fence_def run validate_Inr)
qed (rule assms(3))

lemma cover_own_held:
  assumes "lock_ok app tx" and "\<forall>l \<in> set (fst acc). tget (locks tx) (lk_id l) = Some l"
  shows "\<forall>l \<in> set (fst (fold (cover_own app session handle wanted) (tall (locks tx)) acc)). tget (locks tx) (lk_id l) = Some l"
proof (rule fold_invariant [where P = "\<lambda>a. \<forall>l \<in> set (fst a). tget (locks tx) (lk_id l) = Some l"])
  show "\<forall>l \<in> set (fst (cover_own app session handle wanted m t)). tget (locks tx) (lk_id l) = Some l"
    if "m \<in> set (tall (locks tx))" "\<forall>l \<in> set (fst t). tget (locks tx) (lk_id l) = Some l" for m t
    using that lock_keysD [OF assms(1)] by (auto simp: cover_own_def in_tall_iff)
qed (rule assms(2))

lemma gathered:
  assumes "gather_locks app session h wanted fences growing tx = Inr (ls, t)" and "lock_ok app tx"
  shows "\<exists>new. (\<forall>l \<in> set ls. from_store tx new (lock_sequence t) (lk_id l) l) \<and>
     (\<forall>k b. tget (locks t) k = Some b \<longrightarrow> from_store tx new (lock_sequence t) k b) \<and> lock_sequence tx \<le> lock_sequence t \<and>
     (\<forall>l j a. new = Some l \<longrightarrow> tget (locks tx) j = Some a \<longrightarrow> lock_live app a \<longrightarrow> \<not> lock_clash l a)"
proof -
  from gather_locks_Inr [OF assms(1)] obtain acc ls0 covered has_size where
    acc: "foldr_res (cover_fence app tx session (h_id h) wanted) fences ([], [], False) = Inr acc" and
    own: "fold (cover_own app session (h_id h) wanted) (tall (locks tx)) acc = (ls0, covered, has_size)" and
    out: "ls = ls0 \<and> t = tx \<or> (\<exists>l i z. acquire app (h_id h) (h_file h) (h_session h) i False z True tx = Inr (l, t) \<and> ls = ls0 @ [l])"
    by blast
  have ls0: "\<forall>l \<in> set ls0. tget (locks tx) (lk_id l) = Some l"
    using cover_own_held [OF assms(2) cover_fences_held [OF acc assms(2)], of session "h_id h" wanted] own by simp
  from out show ?thesis
  proof
    assume "ls = ls0 \<and> t = tx"
    with ls0 show ?thesis by (intro exI [of _ None]) (simp add: from_store_def)
  next
    assume "\<exists>l i z. acquire app (h_id h) (h_file h) (h_session h) i False z True tx = Inr (l, t) \<and> ls = ls0 @ [l]"
    then obtain l i z where a: "acquire app (h_id h) (h_file h) (h_session h) i False z True tx = Inr (l, t)" and ls: "ls = ls0 @ [l]" by blast
    have t: "locks t = tput (lk_id l) l (locks tx)" "lock_sequence t = lock_sequence tx + 1"
      by (subst acquire_Inr(16) [OF a], simp)+
    with ls0 ls acquire_no_clash [OF a] acquire_Inr(11) [OF a] show ?thesis
      by (intro exI [of _ "Some l"]) (auto simp: from_store_def)
  qed
qed

text \<open>Activation puts the gathered locks back, marked as in use.\<close>

lemma activate_locks_ok:
  assumes ok: "lock_ok app tx" and ls: "\<forall>l \<in> set ls. from_store tx new (lock_sequence t) (lk_id l) l"
    and t: "\<forall>k b. tget (locks t) k = Some b \<longrightarrow> from_store tx new (lock_sequence t) k b" and seq: "lock_sequence tx \<le> lock_sequence t"
    and apart: "\<forall>l j a. new = Some l \<longrightarrow> tget (locks tx) j = Some a \<longrightarrow> lock_live app a \<longrightarrow> \<not> lock_clash l a"
  shows "lock_ok app (activate_locks op_id ls t)"
proof -
  let ?from = "\<lambda>k b. \<exists>a x. from_store tx new (lock_sequence t) k a \<and> b = a\<lparr>lk_active := x\<rparr>"
  have same: "lock_sequence (activate_locks op_id ls t) = lock_sequence t"
    unfolding activate_locks_def by (rule fold_invariant [where P = "\<lambda>u. lock_sequence u = lock_sequence t"]) auto
  have all: "\<forall>k b. tget (locks (activate_locks op_id ls t)) k = Some b \<longrightarrow> ?from k b"
    unfolding activate_locks_def
  proof (rule fold_invariant [where P = "\<lambda>u. \<forall>k b. tget (locks u) k = Some b \<longrightarrow> ?from k b"])
    have "b = b\<lparr>lk_active := lk_active b\<rparr>" for b :: lock_rec by simp
    with t show "\<forall>k b. tget (locks t) k = Some b \<longrightarrow> ?from k b" by metis
  qed (use ls in auto)
  have row: "lk_id b = k \<and> lk_generation b \<le> lock_sequence (activate_locks op_id ls t) \<and> (lock_live app b \<longrightarrow>
      (\<exists>l. new = Some l \<and> same_claim l b) \<or> (\<exists>j a. tget (locks tx) j = Some a \<and> lock_live app a \<and> same_claim a b))"
    if "tget (locks (activate_locks op_id ls t)) k = Some b" for k b
  proof -
    from all that obtain a x where a: "from_store tx new (lock_sequence t) k a" "b = a\<lparr>lk_active := x\<rparr>" by blast
    then have claim: "same_claim a b" "lock_live app b = lock_live app a" "lk_id b = lk_id a" "lk_generation b = lk_generation a"
      by (simp_all add: same_claim_def lock_live_def)
    from a(1) consider "tget (locks tx) k = Some a" | "new = Some a" "lk_id a = k" "lk_generation a \<le> lock_sequence t"
      by (auto simp: from_store_def)
    then show ?thesis
    proof cases
      case 1
      with lock_keysD [OF ok 1] claim seq same show ?thesis by auto
    qed (use claim same in auto)
  qed
  show ?thesis
  proof (cases new)
    case None
    with row show ?thesis by (intro lock_ok_sub [OF ok]) blast
  next
    case (Some l)
    with row apart show ?thesis by (intro lock_ok_from [OF ok, of _ l]) blast+
  qed
qed

lemma plan_part_kept:
  assumes "plan_part app user node snap part (op, planned, tx) = Inr (op', planned', tx')"
  shows "locks_kept tx tx'"
proof -
  have assign: "locks_kept t t'" if "assign_replacement app i base repl t = Inr t'" for i base repl t t'
    using that by (auto simp: assign_replacement_def run Let_def new_task_def uid_def locks_kept_def split: option.splits prod.splits)
  let ?t = "tx\<lparr>uid_count := Suc (uid_count tx)\<rparr>"
  from assms obtain base repl t1 t2 p where
    a: "(if br_version base = [] then Inr ?t else assign_replacement app (o_id op) base repl ?t) = Inr t1" and
    p: "plan app repl user (op_binding op) False t1 = Inr (p, t2)" and out: "tx' = put_upload op' t2"
    by (auto simp: plan_part_def uid_def Let_def bindr_eq_Inr split del: if_split)
  have "locks_kept ?t t1" using a assign by (auto split: if_splits)
  with same_core_kept [OF plan_core [OF p]] show ?thesis by (simp add: locks_kept_def out)
qed

lemma plan_parts_kept:
  "foldr_res (plan_part app user node snap) parts (op, planned, tx) = Inr (op', planned', tx') \<Longrightarrow> locks_kept tx tx'"
proof (induction parts arbitrary: op planned tx)
  case (Cons part parts)
  then obtain op1 planned1 tx1 where "plan_part app user node snap part (op, planned, tx) = Inr (op1, planned1, tx1)"
    "foldr_res (plan_part app user node snap) parts (op1, planned1, tx1) = Inr (op', planned', tx')"
    by (auto simp: bindr_eq_Inr)
  then show ?case using Cons.IH plan_part_kept locks_kept_trans by blast
qed simp

lemma access_BeginWrite_ok:
  assumes "access_BeginWrite app user session cx req tx = Inr (r, tx')" and ok: "lock_ok app tx"
  shows "lock_ok app tx'"
proof -
  let ?t0 = "tx\<lparr>uid_count := Suc (uid_count tx)\<rparr>"
  from assms(1) obtain h wanted growing ls t1 node snap op1 op2 planned U t2 where
    g: "gather_locks app session h wanted (bw_fences req) growing ?t0 = Inr (ls, t1)" and
    pl: "foldr_res (plan_part app user node snap) (bw_parts req) (op1, [], t1\<lparr>uploads := U\<rparr>) = Inr (op2, planned, t2)" and
    out: "lock_ok app (activate_locks (uidgen app (uid_count tx)) ls t2) \<Longrightarrow> lock_ok app tx'"
    by (auto simp: access_BeginWrite_def bindr_eq_Inr need_eq_Inr need_some_eq_Inr Let_def uid_def split: if_splits)
  have ok0: "lock_ok app ?t0" using ok by simp
  from gathered [OF g ok0] obtain new where
    n: "\<forall>l \<in> set ls. from_store ?t0 new (lock_sequence t1) (lk_id l) l"
      "\<forall>k b. tget (locks t1) k = Some b \<longrightarrow> from_store ?t0 new (lock_sequence t1) k b" "lock_sequence ?t0 \<le> lock_sequence t1"
      "\<forall>l j a. new = Some l \<longrightarrow> tget (locks ?t0) j = Some a \<longrightarrow> lock_live app a \<longrightarrow> \<not> lock_clash l a" by blast
  have same: "locks t2 = locks t1" "lock_sequence t2 = lock_sequence t1"
    using plan_parts_kept [OF pl] by (simp_all add: locks_kept_def)
  show ?thesis by (rule out, rule activate_locks_ok [OF ok0, of _ new]) (use n same in simp_all)
qed

lemma BeginWrite_ok:
  assumes "BeginWrite app user session cx req tx = Inr (r, tx')" and ok: "lock_ok app tx"
  shows "lock_ok app tx'"
proof (cases "profile app = REPLICATED")
  case True
  with assms(1) obtain r1 t op t1 where a: "access_BeginWrite app user session cx req tx = Inr (r1, t)" and
    c: "capture_policy app op t = Inr t1" and rest: "tx' = t1 \<or> (\<exists>o' res x. policy_result app o' res t1 = Inr (x, tx'))"
    by (auto simp: BeginWrite_def protection_BeginWrite_def run Let_def split: if_splits) blast+
  have "lock_ok app t1" using capture_policy_ok [OF c access_BeginWrite_ok [OF a ok]] .
  with rest policy_result_ok show ?thesis by blast
qed (use assms access_BeginWrite_ok in \<open>auto simp: BeginWrite_def\<close>)

lemma CommitWrite_ok:
  assumes "CommitWrite app user session req tx = Inr (r, tx')" and "lock_ok app tx"
  shows "lock_ok app tx'"
proof -
  have access: "lock_ok app t" if "access_CommitWrite app user session req tx = Inr (q, t)" for q t
    using that assms(2) by (auto simp: access_CommitWrite_def run Let_def uid_def bump_def)
  then show ?thesis
    using assms(1) by (auto simp: CommitWrite_def protection_CommitWrite_def run intro: policy_result_ok split: if_splits)
qed

lemma AbortWrite_ok:
  "AbortWrite user session cx reference tx = Inr (m, tx') \<Longrightarrow> lock_ok app tx \<Longrightarrow> lock_ok app tx'"
  by (auto simp: AbortWrite_def run Let_def)

section \<open>Maintenance, time and restarts\<close>

lemma fold_ok: "lock_ok app tx \<Longrightarrow> (\<And>x t. lock_ok app t \<Longrightarrow> lock_ok app (f x t)) \<Longrightarrow> lock_ok app (fold f xs tx)"
  by (rule fold_invariant [where P = "lock_ok app"])

lemma retire_copy_ok: "lock_ok app t \<Longrightarrow> lock_ok app (retire_copy app' ref node t)"
  by (auto simp: retire_copy_def cluster_retire_copy_def replicated_retire_copy_def new_task_def uid_def Let_def split: option.split)

lemma retire_block_ok: "lock_ok app t \<Longrightarrow> lock_ok app (retire_block app' b t)"
  by (auto simp: retire_block_def local_retire_block_def cluster_retire_block_def Let_def retire_copy_ok intro!: fold_ok split: profile.split)

lemma monolith_collect_ok: "lock_ok app tx \<Longrightarrow> lock_ok app (snd (monolith_collect app' restart tx))"
  by (auto simp: monolith_collect_def Let_def sweep_blocks_def sweep_snapshots_def end_operations_def close_dead_handles_def expire_write_def
      retire_block_ok intro!: fold_ok)

lemma collect_ok:
  assumes "collect app restart tx = (retained, tx')" and "lock_ok app tx"
  shows "lock_ok app tx'"
proof -
  have "lock_ok app (snd (cluster_collect app restart tx))"
    using monolith_collect_ok [OF assms(2)]
    by (auto simp: cluster_collect_def Let_def case_prod_beta retire_failed_copies_def retire_unconfirmed_def fail_orphan_copies_def
        retire_copy_ok intro!: fold_ok split: option.split)
  moreover have "lock_ok app (fail_stale_copies app tx)"
    unfolding fail_stale_copies_def Let_def by (rule fold_ok) (use assms(2) in auto)
  then have "lock_ok app (snd (replicated_collect app restart tx))" by (simp add: replicated_collect_def monolith_collect_ok)
  ultimately show ?thesis
    using assms monolith_collect_ok [OF assms(2), of app restart] by (cases "profile app") (auto simp: collect_def dest: arg_cong [of _ _ snd])
qed

lemma PromoteProtection_ok:
  assumes "PromoteProtection app user cx path expected tx = Inr (m, tx')" and "lock_ok app tx"
  shows "lock_ok app tx'"
proof -
  have "lock_ok app (promote_abort i t)" if "lock_ok app t" for i t
    unfolding promote_abort_def by (rule fold_ok) (use that in auto)
  then show ?thesis using assms(1) policy_ok [OF _ assms(2)]
    by (auto simp: PromoteProtection_def run Let_def split: if_splits)
qed

lemma restart_no_locks:
  assumes "lock_keys tx" and "lease_restart app tx = (epoch, tx')"
  shows "locks tx' = tempty"
proof -
  have keyed: "keyed lk_id (locks tx)" using assms(1) by (auto simp: keyed_def lock_keys_def)
  have locks: "locks (fold (\<lambda>l t. t\<lparr>locks := tdel (lk_id l) (locks t)\<rparr>) ls t) = fold (\<lambda>l. tdel (lk_id l)) ls (locks t)" for ls t
    by (induction ls arbitrary: t) simp_all
  have handles: "locks (fold (\<lambda>h t. t\<lparr>handles := tput (h_id h) (h\<lparr>h_closed := True\<rparr>) (handles t)\<rparr>) hs t) = locks t" for hs t
    by (induction hs arbitrary: t) simp_all
  have "tget (fold (\<lambda>l. tdel (lk_id l)) (tall (locks tx)) (locks tx)) k = None" for k
    using tget_fold_tdel_all [OF keyed, of "\<lambda>_. True" k] by (simp split: option.splits)
  then have "fold (\<lambda>l. tdel (lk_id l)) (tall (locks tx)) (locks tx) = tempty" by (intro table_eqI) simp
  with assms(2) show ?thesis by (auto simp: lease_restart_def Let_def uid_def locks handles split: option.splits)
qed

section \<open>The machine\<close>

text \<open>A state is the application, whose clock and epoch matter here, with its store.\<close>

inductive lock_command :: "app \<Rightarrow> db \<Rightarrow> db \<Rightarrow> bool" for app where
  "Lock app user session hid whole off len wait tx = Inr (f, tx') \<Longrightarrow> lock_command app tx tx'"
| "RenewLock app user session f tx = Inr (g, tx') \<Longrightarrow> lock_command app tx tx'"
| "Unlock app session cx f tx = Inr (m, tx') \<Longrightarrow> lock_command app tx tx'"
| "Open app user session path mode tx = Inr (h, tx') \<Longrightarrow> lock_command app tx tx'"
| "Close app user session cx hid expected tx = Inr (m, tx') \<Longrightarrow> lock_command app tx tx'"
| "BeginUpload app user session cx ureq tx = Inr (p, tx') \<Longrightarrow> lock_command app tx tx'"
| "RenewUpload app user session reference tx = Inr (p, tx') \<Longrightarrow> lock_command app tx tx'"
| "CommitUpload app user session reference fence seal tx = Inr (c, tx') \<Longrightarrow> lock_command app tx tx'"
| "AbortUpload app user session cx reference tx = Inr (m, tx') \<Longrightarrow> lock_command app tx tx'"
| "BeginWrite app user session cx wreq tx = Inr (w, tx') \<Longrightarrow> lock_command app tx tx'"
| "CommitWrite app user session creq tx = Inr (c, tx') \<Longrightarrow> lock_command app tx tx'"
| "AbortWrite user session cx reference tx = Inr (m, tx') \<Longrightarrow> lock_command app tx tx'"
| "remove app user cx path directory tx = Inr (m, tx') \<Longrightarrow> lock_command app tx tx'"
| "collect app restart tx = (retained, tx') \<Longrightarrow> lock_command app tx tx'"
| "PromoteProtection app user cx path expected tx = Inr (m, tx') \<Longrightarrow> lock_command app tx tx'"
| "locks_kept tx tx' \<Longrightarrow> lock_command app tx tx'"

lemma lock_command_ok: "lock_command app tx tx' \<Longrightarrow> lock_ok app tx \<Longrightarrow> lock_ok app tx'"
  by (induction rule: lock_command.induct)
     (blast intro: Lock_ok RenewLock_ok Unlock_ok Open_ok Close_ok BeginUpload_ok RenewUpload_ok CommitUpload_ok AbortUpload_ok
       BeginWrite_ok CommitWrite_ok AbortWrite_ok remove_ok collect_ok PromoteProtection_ok lock_ok_kept)+

inductive lock_step :: "app \<times> db \<Rightarrow> app \<times> db \<Rightarrow> bool" where
  command: "lock_command app tx tx' \<Longrightarrow> lock_step (app, tx) (app, tx')"
| later: "lease_epoch app' = lease_epoch app \<Longrightarrow> clock_s app \<le> clock_s app' \<Longrightarrow> lock_step (app, tx) (app', tx)"
| restart: "lease_restart app tx = (lease_epoch app', tx') \<Longrightarrow> lock_step (app, tx) (app', tx')"

inductive_cases lock_stepE: "lock_step s s'"

definition lock_start :: "app \<times> db \<Rightarrow> bool" where
  "lock_start s \<longleftrightarrow> locks (snd s) = tempty"

interpretation lock_machine: safe_machine lock_start lock_step "\<lambda>(app, tx). lock_ok app tx"
proof
  show "case s of (app, tx) \<Rightarrow> lock_ok app tx" if "lock_start s" for s
    using that by (cases s) (simp add: lock_start_def lock_ok_def lock_keys_def lock_excl_def)
  show "case s' of (app, tx) \<Rightarrow> lock_ok app tx" if "case s of (app, tx) \<Rightarrow> lock_ok app tx" "lock_step s s'" for s s'
    using that(2,1)
  proof cases
    case (restart app tx app' tx')
    with that(1) have "locks tx' = tempty" by (intro restart_no_locks [of tx]) (auto simp: lock_ok_def)
    then show ?thesis by (simp add: restart lock_ok_def lock_keys_def lock_excl_def)
  qed (use that(1) lock_command_ok in \<open>auto simp: lock_ok_def lock_excl_later\<close>)
qed

section \<open>Properties\<close>

text \<open>
  C2. Locks exclude each other. From a store without locks, whatever commands run in whatever order, however time passes and
  however often the control node restarts: when two fences are accepted (\<^verbatim>\<open>validate\<close>) for locks on the same file that belong to different
  sessions or handles, then no block index is covered by both, they do not both cover the size, and none of
  them covers the whole file.
\<close>

theorem fences_exclude:
  assumes "reach lock_start lock_step (app, tx)" and "validate app tx s f = Inr a" and "validate app tx s' g = Inr b"
    and "lk_file a = lk_file b" and "(s, f_handle f) \<noteq> (s', f_handle g)"
  shows "\<not> f_whole f \<and> \<not> f_whole g \<and> \<not> (f_size f \<and> f_size g) \<and> set (f_indices f) \<inter> set (f_indices g) = {}"
proof -
  have ok: "lock_ok app tx" using lock_machine.reach_inv [OF assms(1)] by simp
  have a: "tget (locks tx) (f_lock f) = Some a" "lock_live app a" "lk_session a = s" "lk_handle a = f_handle f"
    using assms(2) by (simp_all add: validate_Inr)
  have b: "tget (locks tx) (f_lock g) = Some b" "lock_live app b" "lk_session b = s'" "lk_handle b = f_handle g"
    using assms(3) by (simp_all add: validate_Inr)
  from ok a(1,2) b(1,2) have "\<not> lock_clash a b" unfolding lock_ok_def lock_excl_def by blast
  then show ?thesis
    using a(3,4) b(3,4) assms(4,5) validate_fields(1-3) [OF assms(2)] validate_fields(1-3) [OF assms(3)] by (simp add: lock_clash_def) blast
qed

definition locking_handle :: "string \<Rightarrow> handle_rec" where
  "locking_handle i = \<lparr>h_id = i, h_file = ''f'', h_snapshot = Some ''n'', h_user = ''u'', h_session = ''s'', h_expires = 100000, h_revision = 1,
     h_closed = False, h_ancestors = [], h_mode = MODE_R_PLUS, h_busy = None, h_epoch = ''lease'', h_deadline = 100, h_maximum = 1000\<rparr>"

definition locking_snapshot :: snapshot_rec where
  "locking_snapshot = \<lparr>sn_id = ''n'', sn_file = ''f'', sn_ref = \<lparr>sr_file = ''f'', sr_content_epoch = 1, sr_file_version = 1, sr_root = ''n'', sr_size = 0,
     sr_manifest_sha = '''', sr_file_sha = None, sr_block_size = 4194304\<rparr>, sn_blocks = []\<rparr>"

definition locking_db :: db where
  "locking_db = empty_db\<lparr>handles := tput ''h'' (locking_handle ''h'') (tput ''g'' (locking_handle ''g'') tempty),
     nodes := tput ''f'' \<lparr>n_id = ''f'', n_name = ''x'', n_parent = None, n_owner = ''u'', n_group = ''u'', n_mode = 438, n_acl = [], n_alive = True,
        n_directory = False, n_revision = 1, n_snapshot = Some ''n'', n_block_size = 4194304\<rparr> tempty,
     snapshots := tput ''n'' locking_snapshot tempty\<rparr>"

lemma locking_writable:
  assumes "i \<in> {''h'', ''g''}" and "handles tx = handles locking_db" "nodes tx = nodes locking_db" "snapshots tx = snapshots locking_db"
  shows "\<exists>n. writable sample_app tx sample_user sample_session i = Inr (locking_handle i, locking_snapshot, n, locking_snapshot)"
  using assms
  by (auto simp: writable_def access_handle_def locking_db_def locking_handle_def handle_live_def live_at_def require_def need_def need_some_def deref_def
      READ_MODES_def WRITE_MODES_def)

text \<open>A handle of the sample store locks one block that nobody else has locked.\<close>

lemma locking_acquire:
  assumes "i \<in> {''h'', ''g''}" and same: "handles tx = handles locking_db" "nodes tx = nodes locking_db" "snapshots tx = snapshots locking_db"
    and "k \<in> {0, 1}" and free: "\<And>j l. tget (locks tx) j = Some l \<Longrightarrow> lk_whole l = False \<and> lk_size l = False \<and> k \<notin> set (lk_indices l)"
  shows "\<exists>l t. Lock sample_app sample_user sample_session i False (Some (k * 4194304)) (Some 1) 0 tx = Inr (lock_message sample_app l, t) \<and>
     handles t = handles tx \<and> nodes t = nodes tx \<and> snapshots t = snapshots tx \<and> uid_count t = Suc (uid_count tx) \<and>
     locks t = tput (lk_id l) l (locks tx) \<and> lk_id l = dec_digits (uid_count tx) \<and> lk_handle l = i \<and> lk_session l = ''s'' \<and> lk_file l = ''f'' \<and>
     lk_indices l = [k] \<and> \<not> lk_whole l \<and> \<not> lk_size l \<and> lock_live sample_app l"
proof -
  obtain n where w: "writable sample_app tx sample_user sample_session i = Inr (locking_handle i, locking_snapshot, n, locking_snapshot)"
    using locking_writable [OF assms(1-4)] by blast
  have range: "checked_range (k * 4194304) 1 (Some MAX_DELTA) = Inr (k * 4194304 + 1)"
    using assms(5) by (auto simp: checked_range_Inr MAX_DELTA_def MAX_OFFSET_def)
  have "index_range (k * 4194304 div 4194304) ((k * 4194304 + 1 - 1) div 4194304 + 1) = [k]" by (simp add: index_range_def)
  moreover have "\<not> list_ex (blocks_request sample_app ''f'' ''s'' i [k] False False) (tall (locks tx))"
    using free by (auto simp: list_ex_iff in_tall_iff blocks_request_def)
  ultimately show ?thesis
    using w range
    by (intro exI [of _ "\<lparr>lk_id = dec_digits (uid_count tx), lk_handle = i, lk_file = ''f'', lk_session = ''s'', lk_generation = lock_sequence tx + 1,
          lk_epoch = ''lease'', lk_indices = [k], lk_whole = False, lk_size = False, lk_automatic = False, lk_lease = lock_sequence tx + 1,
          lk_active = [], lk_deadline = 31\<rparr>"]) (simp add: Lock_def locking_handle_def locking_snapshot_def need_def acquire_def Let_def uid_def lock_live_def live_at_def)
qed

theorem fences_exclude_witness:
  "\<exists>tx f g a b. reach lock_start lock_step (sample_app, tx) \<and> validate sample_app tx ''s'' f = Inr a \<and> validate sample_app tx ''s'' g = Inr b \<and>
     lk_file a = lk_file b \<and> f_handle f = ''h'' \<and> f_handle g = ''g'' \<and> f_indices f = [0] \<and> set (f_indices f) \<inter> set (f_indices g) = {}"
proof -
  have none: "locks locking_db = tempty" by (simp add: locking_db_def empty_db_def)
  obtain a t where A: "Lock sample_app sample_user sample_session ''h'' False (Some (0 * 4194304)) (Some 1) 0 locking_db = Inr (lock_message sample_app a, t)"
    "handles t = handles locking_db" "nodes t = nodes locking_db" "snapshots t = snapshots locking_db" "uid_count t = Suc (uid_count locking_db)"
    "locks t = tput (lk_id a) a (locks locking_db)" "lk_id a = dec_digits (uid_count locking_db)" "lk_handle a = ''h''" "lk_session a = ''s''" "lk_file a = ''f''"
    "lk_indices a = [0]" "\<not> lk_whole a" "\<not> lk_size a" "lock_live sample_app a"
    using locking_acquire [of "''h''" locking_db 0] none by auto
  have one: "lk_whole l = False \<and> lk_size l = False \<and> 1 \<notin> set (lk_indices l)" if "tget (locks t) j = Some l" for j l
    using that A none by (auto split: if_splits)
  obtain b u where B: "Lock sample_app sample_user sample_session ''g'' False (Some (1 * 4194304)) (Some 1) 0 t = Inr (lock_message sample_app b, u)"
    "locks u = tput (lk_id b) b (locks t)" "lk_id b = dec_digits (uid_count t)" "lk_handle b = ''g''" "lk_session b = ''s''" "lk_file b = ''f''" "lock_live sample_app b"
    using locking_acquire [of "''g''" t 1] A(2-4) one by auto
  have "reach lock_start lock_step (sample_app, locking_db)" by (rule reach_start) (simp add: lock_start_def none)
  from reach_step [OF reach_step [OF this command [OF lock_command.intros(1) [OF A(1)]]] command [OF lock_command.intros(1) [OF B(1)]]]
  have r: "reach lock_start lock_step (sample_app, u)" .
  have ne: "lk_id b \<noteq> lk_id a" using A(5,7) B(3) by (simp add: dec_digits_inj)
  have va: "validate sample_app u ''s'' (lock_message sample_app a) = Inr a"
    using validate_message [of u a sample_app] A B(2) ne by simp
  have vb: "validate sample_app u ''s'' (lock_message sample_app b) = Inr b"
    using validate_message [of u b sample_app] B by simp
  have fields: "f_handle (lock_message sample_app a) = ''h''" "f_handle (lock_message sample_app b) = ''g''" "f_indices (lock_message sample_app a) = [0]"
    using A(8,11) B(4) by (simp_all add: lock_message_def)
  from fences_exclude [OF r va vb] A(10) B(6) fields have "set (f_indices (lock_message sample_app a)) \<inter> set (f_indices (lock_message sample_app b)) = {}" by simp
  with r va vb fields A(10) B(6) show ?thesis by metis
qed

end
