(* ===== verification/Draft_Machine.thy ===== *)
theory Draft_Machine
  imports Tree Maintenance Samples
begin

text \<open>
  Uploads as a machine. Every command of an upload is a step; whatever else changes operations only moves their state or
  adds writes in place, which is \<open>drafts_kept\<close>. The invariant says that what has been allocated, staged and sealed fits
  together, so that a commit publishes a complete file.
\<close>

section \<open>The invariant\<close>

definition draft_ok :: "app \<Rightarrow> upload_rec \<Rightarrow> bool" where
  "draft_ok app op \<longleftrightarrow>
     (\<forall>i b. map_of (o_allocations op) i = Some b \<longrightarrow>
        br_index b = i \<and> br_file b = o_file op \<and> br_size b = block_span op i \<and> 0 < block_span op i \<and> length (br_sha b) = 32) \<and>
     (\<forall>p bs j. map_of (o_pages op) p = Some bs \<longrightarrow> j < length bs \<longrightarrow> map_of (o_allocations op) (p * 64 + int j) = Some (bs ! j)) \<and>
     (\<forall>seal. o_sealed op = Some seal \<longrightarrow> (\<exists>bs. manifest op = Inr bs \<and> pr_sha seal = manifest_hash app bs))"

text \<open>A write in place is an operation too; it exists only where there are leases.\<close>

definition op_ok :: "app \<Rightarrow> upload_rec \<Rightarrow> bool" where
  "op_ok app op \<longleftrightarrow> (if o_write op = None then draft_ok app op else has_leases app)"

definition drafts_ok :: "app \<Rightarrow> upload_rec table \<Rightarrow> bool" where
  "drafts_ok app U \<longleftrightarrow> (\<forall>k op. tget U k = Some op \<longrightarrow> o_id op = k \<and> op_ok app op)"

lemma block_span_frame [simp]:
  "block_span (op\<lparr>o_allocations := a\<rparr>) i = block_span op i" "block_span (op\<lparr>o_pages := b\<rparr>) i = block_span op i"
  "block_span (op\<lparr>o_sealed := c\<rparr>) i = block_span op i"
  by (simp_all add: block_span_def)

lemma op_ok_frame [simp]:
  "op_ok app (op\<lparr>o_state := a\<rparr>) = op_ok app op" "op_ok app (op\<lparr>o_expires := b\<rparr>) = op_ok app op"
  "op_ok app (op\<lparr>o_reserved := c\<rparr>) = op_ok app op" "op_ok app (op\<lparr>o_result := d\<rparr>) = op_ok app op"
  "op_ok app (op\<lparr>o_locks := e\<rparr>) = op_ok app op" "op_ok app (op\<lparr>o_full_fence := f\<rparr>) = op_ok app op"
  "op_ok app (op\<lparr>o_policy := g\<rparr>) = op_ok app op"
  by (simp_all add: op_ok_def draft_ok_def block_span_def manifest_def block_count_def page_blocks_def)

lemma drafts_put [intro]: "drafts_ok app U \<Longrightarrow> op_ok app op \<Longrightarrow> o_id op = k \<Longrightarrow> drafts_ok app (tput k op U)"
  by (auto simp: drafts_ok_def)

lemma drafts_get: "drafts_ok app U \<Longrightarrow> tget U k = Some op \<Longrightarrow> op_ok app op \<and> o_id op = k"
  by (simp add: drafts_ok_def)

lemma drafts_keyed: "drafts_ok app U \<Longrightarrow> keyed o_id U"
  by (simp add: drafts_ok_def keyed_def)

text \<open>Moving the state of one stored operation.\<close>

lemma drafts_move:
  assumes "drafts_ok app U" and "tget U k = Some op" and "op_ok app op \<Longrightarrow> op_ok app op'" and "o_id op' = o_id op"
  shows "drafts_ok app (tput (o_id op') op' U)" "drafts_ok app (tput k op' U)"
  using assms drafts_get [OF assms(1,2)] by (auto intro: drafts_put)

lemma operation_draft:
  assumes "operation app user session reference fence tx = Inr op" and "drafts_ok app (uploads tx)"
  shows "tget (uploads tx) (o_id op) = Some op" "op_ok app op" "o_write op = None" "draft_ok app op"
proof -
  show ok: "op_ok app op" using drafts_get [OF assms(2) operation_Inr(1) [OF assms(1)]] by simp
  show "tget (uploads tx) (o_id op) = Some op" by (rule operation_stored [OF assms(1) drafts_keyed [OF assms(2)]])
  show "o_write op = None"
  proof (cases "has_leases app")
    case True
    with assms(1) show ?thesis by (auto simp: operation_def access_operation_def run split: option.splits)
  qed (use ok in \<open>auto simp: op_ok_def split: if_splits\<close>)
  with ok show "draft_ok app op" by (simp add: op_ok_def)
qed

section \<open>The commands\<close>

lemma base_BeginUpload_drafts:
  assumes "base_BeginUpload app user session cx req tx = Inr (p, tx')" and "drafts_ok app (uploads tx)"
  shows "drafts_ok app (uploads tx')"
proof -
  have new: "op_ok app op" if "o_write op = None" "o_allocations op = []" "o_pages op = []" "o_sealed op = None" for op
    using that by (simp add: op_ok_def draft_ok_def)
  show ?thesis
    using assms by (auto simp: base_BeginUpload_def run Let_def uid_def new intro!: drafts_put split: option.splits)
qed

lemma BeginUpload_drafts:
  assumes "BeginUpload app user session cx req tx = Inr (p, tx')" and ok: "drafts_ok app (uploads tx)"
  shows "drafts_ok app (uploads tx')"
proof -
  have access: "drafts_ok app (uploads t)" if "access_BeginUpload app user session cx req tx = Inr (q, t)" for q t
  proof -
    from that obtain t0 op l f where b: "base_BeginUpload app user session cx req tx = Inr (q, t0)"
      and op: "tget (uploads t0) (or_id (up_operation q)) = Some op"
      and t: "uploads t = tput (o_id op) (op\<lparr>o_locks := l, o_full_fence := f\<rparr>) (uploads t0)"
      by (auto simp: access_BeginUpload_def run Let_def acquire_def uid_def)
    show ?thesis using drafts_move(1) [OF base_BeginUpload_drafts [OF b ok] op, of "op\<lparr>o_locks := l, o_full_fence := f\<rparr>"] by (simp add: t)
  qed
  have "drafts_ok app (uploads t)" if prot: "protection_BeginUpload app user session cx req tx = Inr (q, t)" for q t
  proof -
    from prot obtain q0 t0 op t1 p t2 where a: "access_BeginUpload app user session cx req tx = Inr (q0, t0)"
      and op: "tget (uploads t0) (or_id (up_operation q0)) = Some op" and c: "capture_policy app op t0 = Inr t1"
      and p: "policy app (up_file q0) False t1 = Inr (p, t)"
      by (auto simp: protection_BeginUpload_def run)
    from c obtain q t3 where "policy app (o_file op) (o_base op = None) t0 = Inr (q, t3)"
      and t1: "t1 = put_upload (op\<lparr>o_policy := Some q\<rparr>) t3" by (auto simp: capture_policy_def run)
    then have "uploads t = tput (o_id op) (op\<lparr>o_policy := Some q\<rparr>) (uploads t0)"
      using policy_core [OF p] policy_core [of app "o_file op"] by (simp add: same_core_def)
    with drafts_move(1) [OF access [OF a] op, of "op\<lparr>o_policy := Some q\<rparr>"] show ?thesis by simp
  qed
  with access base_BeginUpload_drafts [OF _ ok] assms(1) show ?thesis by (cases "profile app") (auto simp: BeginUpload_def)
qed

lemma RenewUpload_drafts:
  assumes "RenewUpload app user session reference tx = Inr (p, tx')" and ok: "drafts_ok app (uploads tx)"
  shows "drafts_ok app (uploads tx')"
proof -
  have base: "drafts_ok app (uploads t)" if "base_RenewUpload app user session reference tx = Inr (q, t)" for q t
    proof -
    from that obtain op x where "operation app user session reference None tx = Inr op" "uploads t = tput (o_id op) (op\<lparr>o_expires := x\<rparr>) (uploads tx)"
      by (auto simp: base_RenewUpload_def run Let_def)
    with operation_draft(2) [OF _ ok] ok show ?thesis by auto
  qed
  show ?thesis using assms(1) base by (auto simp: RenewUpload_def access_RenewUpload_def run Let_def split: if_splits)
qed

lemma allocate_one_draft:
  assumes "allocate_one app user requested (op, planned, tx) = Inr (op', planned', tx')" and "draft_ok app op" and "o_sealed op = None"
  shows "draft_ok app op'" "uploads tx' = uploads tx" "\<exists>as. op' = op\<lparr>o_allocations := as\<rparr>"
proof -
  show "uploads tx' = uploads tx" "\<exists>as. op' = op\<lparr>o_allocations := as\<rparr>" using allocate_one_step [OF assms(1)] by blast+
  let ?i = "br_index requested"
  show "draft_ok app op'"
  proof (cases "map_of (o_allocations op) ?i")
    case (Some b)
    with assms(1) have "op' = op" by (auto simp: allocate_one_def run Let_def)
    with assms(2) show ?thesis by simp
  next
    case None
    with assms(1) obtain v where op': "op' = op\<lparr>o_allocations := dict_put ?i \<lparr>br_file = o_file op, br_version = v, br_index = ?i,
        br_size = block_span op ?i, br_sha = br_sha requested\<rparr> (o_allocations op)\<rparr>"
      and "0 < block_span op ?i" "length (br_sha requested) = 32"
      by (auto simp: allocate_one_def run Let_def uid_def)
    moreover have "p * 64 + int j \<noteq> ?i" if "map_of (o_pages op) p = Some bs" "j < length bs" for p bs j
      using assms(2) that None by (fastforce simp: draft_ok_def)
    ultimately show ?thesis using assms(2,3) by (auto simp: draft_ok_def)
  qed
qed

lemma allocate_all_draft:
  assumes "foldr_res (allocate_one app user) reqs (op, planned, tx) = Inr (op', planned', tx')" and "draft_ok app op" and "o_sealed op = None"
  shows "draft_ok app op' \<and> uploads tx' = uploads tx \<and> (\<exists>as. op' = op\<lparr>o_allocations := as\<rparr>)"
  using assms
proof (induction reqs arbitrary: op planned tx)
  case Nil
  then show ?case by (auto intro: exI [of _ "o_allocations op"])
next
  case (Cons req reqs)
  from Cons.prems(1) obtain op1 planned1 tx1 where
    a: "allocate_one app user req (op, planned, tx) = Inr (op1, planned1, tx1)" and
    r: "foldr_res (allocate_one app user) reqs (op1, planned1, tx1) = Inr (op', planned', tx')"
    by (auto simp: run)
  from allocate_one_draft [OF a Cons.prems(2,3)] Cons.IH [OF r] Cons.prems(3) show ?case by auto
qed

lemma AllocateBlocks_drafts:
  assumes "AllocateBlocks app user session reference fence reqs tx = Inr (r, tx')" and ok: "drafts_ok app (uploads tx)"
  shows "drafts_ok app (uploads tx')"
proof -
  from assms(1) obtain op op' planned t where
    op: "operation app user session reference (Some fence) tx = Inr op" "o_sealed op = None" and
    a: "foldr_res (allocate_one app user) reqs (op, [], tx) = Inr (op', planned, t)" and tx': "tx' = put_upload op' t"
    by (auto simp: AllocateBlocks_def run)
  note d = operation_draft [OF op(1) ok]
  from allocate_all_draft [OF a d(4) op(2)] d(3) have "op_ok app op'" "o_id op' = o_id op" "uploads t = uploads tx" by (auto simp: op_ok_def)
  with ok show ?thesis by (auto simp: tx')
qed

lemma StageManifestPage_drafts:
  assumes "StageManifestPage app user session reference fence i blks sha n tx = Inr (p, tx')" and ok: "drafts_ok app (uploads tx)"
  shows "drafts_ok app (uploads tx')"
proof -
  from assms(1) obtain op us where op: "operation app user session reference (Some fence) tx = Inr op" "o_sealed op = None"
    and all: "map_res (\<lambda>(i, b). need (br_index b = i \<and> map_of (o_allocations op) i = Some b) VERSION_CONFLICT (
              need (tget (blocks tx) (br_version b) \<noteq> None) DATA_UNAVAILABLE (Inr ())))
              (zip (map (\<lambda>k. i * 64 + int k) [0..<length blks]) blks) = Inr us"
    and tx': "uploads tx' = tput (o_id op) (op\<lparr>o_pages := dict_put i blks (o_pages op)\<rparr>) (uploads tx)"
    by (auto simp: StageManifestPage_def run Let_def)
  have "map_of (o_allocations op) (i * 64 + int j) = Some (blks ! j)" if "j < length blks" for j
    using list_all2_nthD [OF all [unfolded map_res_Inr], of j] that by (auto simp: run)
  with operation_draft(3,4) [OF op(1) ok] op(2) have "op_ok app (op\<lparr>o_pages := dict_put i blks (o_pages op)\<rparr>)"
    by (auto simp: op_ok_def draft_ok_def)
  with ok show ?thesis by (auto simp: tx')
qed

lemma SealManifest_drafts:
  assumes "SealManifest app user session reference fence i j k sha tx = Inr (p, tx')" and ok: "drafts_ok app (uploads tx)"
  shows "drafts_ok app (uploads tx')"
proof -
  from assms(1) obtain op bs where op: "operation app user session reference (Some fence) tx = Inr op" and m: "manifest op = Inr bs" "sha = manifest_hash app bs"
    and tx': "uploads tx' = tput (o_id op) (op\<lparr>o_sealed := Some \<lparr>pr_page = o_id op, pr_sha = sha, pr_revision = 1\<rparr>\<rparr>) (uploads tx)"
    by (auto simp: SealManifest_def run Let_def)
  have "manifest (op\<lparr>o_sealed := x\<rparr>) = manifest op" for x by (simp add: manifest_def block_count_def page_blocks_def)
  with operation_draft(3,4) [OF op ok] m have "op_ok app (op\<lparr>o_sealed := Some \<lparr>pr_page = o_id op, pr_sha = sha, pr_revision = 1\<rparr>\<rparr>)"
    by (auto simp: op_ok_def draft_ok_def)
  with ok show ?thesis by (auto simp: tx')
qed

lemma CommitUpload_drafts:
  assumes "CommitUpload app user session reference fence seal tx = Inr (r, tx')" and ok: "drafts_ok app (uploads tx)"
  shows "drafts_ok app (uploads tx')"
proof -
  from CommitUpload_Inr [OF assms(1) drafts_keyed [OF ok]] obtain op where op: "operation app user session reference (Some fence) tx = Inr op"
    and tx': "uploads tx' = tput (o_id op) (op\<lparr>o_state := COMMITTED, o_result := Some r, o_reserved := 0\<rparr>) (uploads tx)"
    by (auto simp: commit_post_def)
  from operation_draft(2) [OF op ok] ok show ?thesis by (auto simp: tx')
qed

lemma AbortUpload_drafts:
  assumes "AbortUpload app user session cx reference tx = Inr (r, tx')" and ok: "drafts_ok app (uploads tx)"
  shows "drafts_ok app (uploads tx')"
proof -
  from assms(1) obtain op where "tget (uploads tx) (or_id reference) = Some op" "uploads tx' = tput (o_id op) (abort_op op) (uploads tx)"
    by (auto simp: AbortUpload_def base_AbortUpload_def abort_op_def run frame split: if_splits)
  with drafts_move(1) [OF ok, of _ op "abort_op op"] show ?thesis by (simp add: abort_op_def)
qed

lemma drafts_fold:
  assumes "drafts_ok app (uploads t)" and "\<And>x u. x \<in> set xs \<Longrightarrow> drafts_ok app (uploads u) \<Longrightarrow> drafts_ok app (uploads (f x u))"
  shows "drafts_ok app (uploads (fold f xs t))"
  by (rule fold_invariant [where P = "\<lambda>t. drafts_ok app (uploads t)"]) (use assms in auto)

lemma retire_copy_uploads [simp]: "uploads (retire_copy app ref node t) = uploads t"
  by (simp add: retire_copy_def cluster_retire_copy_def replicated_retire_copy_def new_task_def uid_def Let_def split: option.split)

lemma retire_block_drafts: "drafts_ok app (uploads t) \<Longrightarrow> drafts_ok app (uploads (retire_block app' b t))"
  by (auto simp: retire_block_def local_retire_block_def cluster_retire_block_def Let_def intro!: drafts_fold split: profile.split)

lemma monolith_collect_drafts:
  assumes "drafts_ok app (uploads tx)"
  shows "drafts_ok app (uploads (snd (monolith_collect app restart tx)))"
proof -
  have old: "op_ok app op" if "op \<in> set (tall U)" "drafts_ok app U" for op U using that by (auto simp: in_tall_iff drafts_ok_def)
  have expire: "drafts_ok app (uploads (fold (expire_write app) (tall (uploads tx)) tx))"
    by (rule drafts_fold [OF assms]) (auto simp: expire_write_def Let_def frame old assms intro!: drafts_put)
  have close: "uploads (close_dead_handles app t) = uploads t" for t
    unfolding close_dead_handles_def by (rule fold_invariant [where P = "\<lambda>u. uploads u = uploads t"]) auto
  have ended: "drafts_ok app (uploads (end_operations app restart t))" if "drafts_ok app (uploads t)" for t
    unfolding end_operations_def by (rule drafts_fold [OF that]) (auto simp: old that intro!: drafts_put)
  have snaps: "drafts_ok app (uploads (sweep_snapshots pinned t))" if "drafts_ok app (uploads t)" for pinned t
    unfolding sweep_snapshots_def by (rule drafts_fold [OF that]) auto
  have blocks: "drafts_ok app (uploads (sweep_blocks app retained t))" if "drafts_ok app (uploads t)" for retained t
    unfolding sweep_blocks_def by (rule drafts_fold [OF that]) (auto simp: retire_block_drafts)
  show ?thesis using assms expire by (simp add: monolith_collect_def Let_def close ended snaps blocks)
qed

lemma collect_drafts:
  assumes "collect app restart tx = (retained, tx')" and ok: "drafts_ok app (uploads tx)"
  shows "drafts_ok app (uploads tx')"
proof -
  have stale: "drafts_ok app (uploads (fail_stale_copies app tx))"
    unfolding fail_stale_copies_def Let_def by (rule drafts_fold [OF ok]) auto
  have "drafts_ok app (uploads (snd (cluster_collect app restart tx)))"
    using monolith_collect_drafts [OF ok]
    by (auto simp: cluster_collect_def Let_def case_prod_beta retire_failed_copies_def retire_unconfirmed_def fail_orphan_copies_def
        intro!: drafts_fold split: option.split)
  with monolith_collect_drafts [OF ok, of restart] monolith_collect_drafts [OF stale, of restart] assms(1) show ?thesis
    by (cases "profile app") (auto simp: collect_def replicated_collect_def dest: arg_cong [of _ _ snd])
qed

section \<open>The machine\<close>

definition same_draft :: "upload_rec \<Rightarrow> upload_rec \<Rightarrow> bool" where
  "same_draft op op' \<longleftrightarrow> o_id op' = o_id op \<and> o_write op = None \<and> o_write op' = None \<and> o_file op' = o_file op \<and> o_block_size op' = o_block_size op \<and>
     o_total op' = o_total op \<and> o_allocations op' = o_allocations op \<and> o_pages op' = o_pages op \<and> o_sealed op' = o_sealed op"

definition drafts_kept :: "app \<Rightarrow> db \<Rightarrow> db \<Rightarrow> bool" where
  "drafts_kept app tx tx' \<longleftrightarrow> (\<forall>k op'. tget (uploads tx') k = Some op' \<longrightarrow>
     o_id op' = k \<and> o_write op' \<noteq> None \<and> has_leases app \<or> (\<exists>op. tget (uploads tx) k = Some op \<and> same_draft op op'))"

lemma drafts_kept_ok: "drafts_kept app tx tx' \<Longrightarrow> drafts_ok app (uploads tx) \<Longrightarrow> drafts_ok app (uploads tx')"
proof -
  assume kept: "drafts_kept app tx tx'" and ok: "drafts_ok app (uploads tx)"
  have "op_ok app op'" if "same_draft op op'" "op_ok app op" for op op'
    using that by (simp add: same_draft_def op_ok_def draft_ok_def block_span_def manifest_def block_count_def page_blocks_def)
  note same = this
  have "o_id op' = k \<and> op_ok app op'" if "tget (uploads tx') k = Some op'" for k op'
    using kept [unfolded drafts_kept_def, rule_format, OF that]
  proof
    assume "\<exists>op. tget (uploads tx) k = Some op \<and> same_draft op op'"
    then obtain op where op: "tget (uploads tx) k = Some op" "same_draft op op'" by blast
    with drafts_get [OF ok op(1)] same [OF op(2)] show ?thesis by (simp add: same_draft_def)
  qed (auto simp: op_ok_def)
  then show ?thesis by (simp add: drafts_ok_def)
qed

inductive draft_command :: "app \<Rightarrow> db \<Rightarrow> db \<Rightarrow> bool" for app where
  "BeginUpload app user session cx ureq tx = Inr (p, tx') \<Longrightarrow> draft_command app tx tx'"
| "RenewUpload app user session reference tx = Inr (p, tx') \<Longrightarrow> draft_command app tx tx'"
| "AllocateBlocks app user session reference fence reqs tx = Inr (bp, tx') \<Longrightarrow> draft_command app tx tx'"
| "StageManifestPage app user session reference fence i bs sha n tx = Inr (pr, tx') \<Longrightarrow> draft_command app tx tx'"
| "SealManifest app user session reference fence i j k sha tx = Inr (pr, tx') \<Longrightarrow> draft_command app tx tx'"
| "CommitUpload app user session reference fence seal tx = Inr (r, tx') \<Longrightarrow> draft_command app tx tx'"
| "AbortUpload app user session cx reference tx = Inr (m, tx') \<Longrightarrow> draft_command app tx tx'"
| "collect app restart tx = (retained, tx') \<Longrightarrow> draft_command app tx tx'"
| "drafts_kept app tx tx' \<Longrightarrow> draft_command app tx tx'"

lemma draft_command_ok: "draft_command app tx tx' \<Longrightarrow> drafts_ok app (uploads tx) \<Longrightarrow> drafts_ok app (uploads tx')"
  by (induction rule: draft_command.induct)
     (blast intro: BeginUpload_drafts RenewUpload_drafts AllocateBlocks_drafts StageManifestPage_drafts SealManifest_drafts CommitUpload_drafts
       AbortUpload_drafts collect_drafts drafts_kept_ok)+

text \<open>Commands run at different times and with whatever nodes there are; the profile and the hash stay.\<close>

definition same_format :: "app \<Rightarrow> app \<Rightarrow> bool" where
  "same_format app app' \<longleftrightarrow> profile app' = profile app \<and> sha256 app' = sha256 app \<and> block_dict app' = block_dict app"

definition draft_step :: "app \<Rightarrow> db \<Rightarrow> db \<Rightarrow> bool" where
  "draft_step app tx tx' \<longleftrightarrow> (\<exists>app'. same_format app app' \<and> draft_command app' tx tx')"

lemma same_format_drafts: "same_format app app' \<Longrightarrow> drafts_ok app' U \<longleftrightarrow> drafts_ok app U"
  by (simp add: same_format_def drafts_ok_def op_ok_def draft_ok_def has_leases_def manifest_hash_def)

definition draft_start :: "db \<Rightarrow> bool" where
  "draft_start tx \<longleftrightarrow> uploads tx = tempty"

interpretation draft_machine: safe_machine draft_start "draft_step app" "\<lambda>tx. drafts_ok app (uploads tx)" for app
proof
  show "drafts_ok app (uploads s)" if "draft_start s" for s using that by (simp add: draft_start_def drafts_ok_def)
  show "drafts_ok app (uploads s')" if "drafts_ok app (uploads s)" "draft_step app s s'" for s s'
    using that draft_command_ok same_format_drafts unfolding draft_step_def by blast
qed

section \<open>The published node\<close>

lemma commit_node:
  assumes ok: "fs_ok app tx" and op: "operation app user session reference (Some fence) tx = Inr op"
    and post: "commit_post app user seal tx op blks parent node sid r tx'"
  shows "\<exists>f. tget (nodes tx') (o_file op) = Some f \<and> n_alive f \<and> n_snapshot f = Some (sr_root (cr_snapshot r))"
proof -
  from ok have tree: "tree_ok app tx" and pend: "pending_ok app tx" by (simp_all add: fs_ok_def)
  note facts = operation_Inr [OF op]
  have okop: "upload_ok app tx op" using pend facts(1) unfolding pending_ok_def by blast
  have p: "tget (nodes tx) (o_parent op) = Some parent" using post by (simp add: commit_post_def)
  have pid: "n_id parent = o_parent op" using tree_okD(1) [OF tree p] .
  have "n_id node = o_file op \<and> n_alive node \<and> o_file op \<noteq> o_parent op"
  proof (cases "o_base op = None")
    case True
    then have "tget (nodes tx) (o_file op) = None" using okop facts(5) by (simp add: upload_ok_def)
    with p True post show ?thesis by (auto simp: commit_post_def)
  next
    case False
    then have node: "tget (nodes tx) (o_file op) = Some node" using post by (auto simp: commit_post_def)
    have nid: "n_id node = o_file op" using tree_okD(1) [OF tree node] .
    have npar: "n_parent node = Some (n_id parent)" using okop False node by (auto simp: upload_ok_def pid)
    have "n_id parent \<noteq> n_id node" using no_own_parent [OF _ _ tree_okD(3) [OF tree node]] node npar nid by auto
    with facts(8) [OF False] node nid pid show ?thesis by auto
  qed
  with post pid show ?thesis by (simp add: commit_post_def)
qed

section \<open>Durability\<close>

text \<open>The failure domains that hold a verified copy of a block on a node that serves it.\<close>

definition copy_domains :: "app \<Rightarrow> db \<Rightarrow> block_ref \<Rightarrow> string set" where
  "copy_domains app tx b = {d. \<exists>l \<in> set (eligible app tx (br_version b)). domain_of app (lc_node l) = Inr d}"

lemma list_all2_set1: "list_all2 P xs ys \<Longrightarrow> x \<in> set xs \<Longrightarrow> \<exists>y \<in> set ys. P x y"
  by (induction rule: list_all2_induct) auto

lemma list_all2_set2: "list_all2 P xs ys \<Longrightarrow> y \<in> set ys \<Longrightarrow> \<exists>x \<in> set xs. P x y"
  by (induction rule: list_all2_induct) auto

lemma require_durable_domains:
  assumes "require_durable app op b tx = Inr u"
  shows "\<exists>p t. policy app (o_file op) False tx = Inr (p, t) \<and> p_w p \<le> int (card (copy_domains app tx b))"
proof -
  from assms obtain p t ds where p: "policy app (o_file op) False tx = Inr (p, t)"
    and ds: "map_res (\<lambda>x. domain_of app (lc_node x)) (eligible app tx (br_version b)) = Inr ds" "int (length (remdups ds)) \<ge> p_w p"
    by (auto simp: require_durable_def run)
  have "set ds = copy_domains app tx b"
    using list_all2_set1 [OF ds(1) [unfolded map_res_Inr]] list_all2_set2 [OF ds(1) [unfolded map_res_Inr]] by (force simp: copy_domains_def)
  then have "int (length (remdups ds)) = int (card (copy_domains app tx b))" by (metis length_remdups_card_conv)
  with p ds(2) show ?thesis by auto
qed

lemma CommitUpload_durable:
  assumes "CommitUpload app user session reference fence seal tx = Inr (r, tx')" and "profile app = REPLICATED"
    and "operation app user session reference (Some fence) tx = Inr op" and "b \<in> set (map snd (o_allocations op))"
  shows "\<exists>u. require_durable app op b tx = Inr u"
proof -
  from assms(1,2) obtain r0 t0 where "access_CommitUpload app user session reference fence seal tx = Inr (r0, t0)"
    by (auto simp: CommitUpload_def protection_CommitUpload_def run)
  then obtain r1 t where "cluster_CommitUpload app user session reference fence seal tx = Inr (r1, t)"
    by (auto simp: access_CommitUpload_def run Let_def)
  with assms(2,3) obtain us where "map_res (\<lambda>b. require_durable app op b tx) (map snd (o_allocations op)) = Inr us"
    by (auto simp: cluster_CommitUpload_def run)
  with assms(4) show ?thesis unfolding map_res_Inr by (blast dest: list_all2_set1)
qed

section \<open>Properties\<close>

text \<open>
  C3. A commit publishes a complete, sealed and durable file. In every state that the commands reach, when \<^verbatim>\<open>CommitUpload\<close> succeeds, the file
  points to a new snapshot whose blocks are those allocated to the operation, one for each position in order, each of the
  size its position demands, together exactly the announced total, with the hash the seal carries. With replication, every
  block has verified copies on serving nodes in as many failure domains as the policy of the file requires.
\<close>

theorem commit_publishes:
  assumes "fs_ok app tx" and "reach draft_start (draft_step app) tx" and "CommitUpload app user session reference fence seal tx = Inr (r, tx')"
  shows "\<exists>op node bs. tget (uploads tx) (or_id reference) = Some op \<and> tget (nodes tx') (o_file op) = Some node \<and> n_alive node \<and>
     n_snapshot node = Some (sr_root (cr_snapshot r)) \<and> sr_size (cr_snapshot r) = o_total op \<and>
     map_option sn_blocks (tget (snapshots tx') (sr_root (cr_snapshot r))) = Some bs \<and> int (length bs) = block_count op \<and>
     (\<forall>i < length bs. map_of (o_allocations op) (int i) = Some (bs ! i) \<and> br_index (bs ! i) = int i \<and> br_size (bs ! i) = block_span op (int i)) \<and>
     sum_list (map br_size bs) = o_total op \<and> pr_sha seal = manifest_hash app bs \<and>
     (profile app = REPLICATED \<longrightarrow> (\<forall>b \<in> set bs. \<exists>p t. policy app (o_file op) False tx = Inr (p, t) \<and> p_w p \<le> int (card (copy_domains app tx b))))"
proof -
  have ok: "drafts_ok app (uploads tx)" using draft_machine.reach_inv [OF assms(2)] .
  from CommitUpload_Inr [OF assms(3) drafts_keyed [OF ok]] obtain op bs parent node sid where
    op: "operation app user session reference (Some fence) tx = Inr op" and post: "commit_post app user seal tx op bs parent node sid r tx'" by blast
  have d: "draft_ok app op" by (rule operation_draft(4) [OF op ok])
  have m: "manifest op = Inr bs" "o_sealed op = Some seal" using post by (simp_all add: commit_post_def)
  then have shape: "int (length bs) = block_count op" "sum_list (map br_size bs) = o_total op" "bs = page_blocks op"
    and index: "\<And>i. i < length bs \<Longrightarrow> br_index (bs ! i) = int i"
    by (auto simp: manifest_def run Let_def list_all_length)
  have mem: "map_of (o_allocations op) (br_index b) = Some b" if b: "b \<in> set bs" for b
  proof -
    from b obtain p where "b \<in> set (case map_of (o_pages op) (int p) of None \<Rightarrow> [] | Some bs \<Rightarrow> bs)"
      unfolding shape(3) page_blocks_def by auto
    then obtain page j where "map_of (o_pages op) (int p) = Some page" "j < length page" "page ! j = b"
      by (cases "map_of (o_pages op) (int p)") (auto simp: in_set_conv_nth)
    then show ?thesis using d unfolding draft_ok_def by metis
  qed
  have at: "map_of (o_allocations op) (int i) = Some (bs ! i) \<and> br_index (bs ! i) = int i \<and> br_size (bs ! i) = block_span op (int i)" if "i < length bs" for i
    using mem [of "bs ! i"] index [OF that] that d by (auto simp: draft_ok_def)
  have seal: "pr_sha seal = manifest_hash app bs" using d m by (auto simp: draft_ok_def)
  have durable: "\<exists>p t. policy app (o_file op) False tx = Inr (p, t) \<and> p_w p \<le> int (card (copy_domains app tx b))"
    if "profile app = REPLICATED" "b \<in> set bs" for b
    using CommitUpload_durable [OF assms(3) that(1) op, of b] mem [OF that(2)] require_durable_domains by (force dest: map_of_SomeD)
  from commit_node [OF assms(1) op post] obtain f where "tget (nodes tx') (o_file op) = Some f" "n_alive f" "n_snapshot f = Some (sr_root (cr_snapshot r))" by blast
  then show ?thesis
    using operation_Inr(1) [OF op] post shape(1,2) at seal durable by (intro exI [of _ op] exI [of _ f] exI [of _ bs]) (simp add: commit_post_def)
qed

text \<open>
  The witness: a file of one block goes through all commands. The row of the block, which \<^verbatim>\<open>PutBlock\<close> adds, is in the store from the start.
\<close>

definition up_root :: node_rec where
  "up_root = \<lparr>n_id = dec_digits 2, n_name = '''', n_parent = None, n_owner = ''u'', n_group = ''u'', n_mode = 493, n_acl = [], n_alive = True,
     n_directory = True, n_revision = 1, n_snapshot = None, n_block_size = 0\<rparr>"

definition up_block :: block_ref where
  "up_block = \<lparr>br_file = dec_digits 4, br_version = dec_digits 5, br_index = 0, br_size = 3, br_sha = replicate 32 (CHR ''h'')\<rparr>"

definition up_row :: block_rec where
  "up_row = \<lparr>b_id = dec_digits 5, b_file = dec_digits 4, b_operation = dec_digits 3, b_ref = up_block, b_stored = 3,
     b_receipt = \<lparr>dr_id = '''', dr_operation = dec_digits 3, dr_block = up_block, dr_node = ''node'', dr_generation = 1, dr_domain = '''',
        dr_stored = 3, dr_cipher_sha = '''', dr_durable_at = 0\<rparr>\<rparr>"

definition up_db :: db where
  "up_db = empty_db\<lparr>uid_count := 3, nodes := tput (dec_digits 2) up_root tempty, blocks := tput (dec_digits 5) up_row tempty\<rparr>"

definition up_path :: path_ref where
  "up_path = \<lparr>pf_path = ''/x'', pf_cwd_path = ''/'', pf_cwd_id = ''''\<rparr>"

definition up_req :: begin_upload_req where
  "up_req = \<lparr>bu_path = up_path, bu_total = 3, bu_sha = replicate 32 (CHR ''h''), bu_overwrite = False, 
    bu_expected = \<lparr>sr_file = '''', sr_content_epoch = 0, sr_file_version = 0, sr_root = '''', sr_size = 0,
     sr_manifest_sha = '''', sr_file_sha = None, sr_block_size = 0\<rparr>\<rparr>"

definition up_app :: app where
  "up_app = sample_app\<lparr>verified_seals := [(dec_digits 3, manifest_hash sample_app [up_block])]\<rparr>"

definition up_ref :: operation_ref where
  "up_ref = \<lparr>or_id = dec_digits 3, or_request = ''r'', or_intent = ''''\<rparr>"

definition up_fence :: fence where
  "up_fence = \<lparr>f_lock = dec_digits 3, f_handle = '''', f_epoch = ''epoch'', f_generation = 1, f_lease = 1, f_indices = [], f_whole = True, f_size = True, f_expires = 301000\<rparr>"

definition up_seal :: page_receipt where
  "up_seal = \<lparr>pr_page = dec_digits 3, pr_sha = manifest_hash sample_app [up_block], pr_revision = 1\<rparr>"

definition up_op :: upload_rec where
  "up_op = \<lparr>o_id = dec_digits 3, o_operation = up_ref, o_request = ''r'', o_user = ''u'', o_session = ''s'', o_parent = dec_digits 2, o_name = ''x'',
     o_file = dec_digits 4, o_base = None, o_version = 0, o_block_size = 4194304, o_total = 3, o_sha = replicate 32 (CHR ''h''), o_state = PREPARING,
     o_expires = 301000, o_max_expires = 3601000, o_epoch = 1, o_reserved = 4119, o_allocations = [], o_pages = [], o_sealed = None, o_result = None,
     o_locks = [], o_full_fence = None, o_policy = None, o_write = None\<rparr>"

definition up_state :: "nat \<Rightarrow> upload_rec \<Rightarrow> db" where
  "up_state n op = up_db\<lparr>uid_count := n, uploads := tput (dec_digits 3) op tempty\<rparr>"

lemma up_begins: "map_sum id snd (BeginUpload up_app sample_user sample_session sample_cx up_req up_db) = Inr (up_state 5 up_op)"
  by code_simp

lemma up_allocates:
  "map_sum id snd (AllocateBlocks up_app sample_user sample_session up_ref up_fence [up_block\<lparr>br_version := ''''\<rparr>] (up_state 5 up_op)) =
     Inr (up_state 6 (up_op\<lparr>o_allocations := [(0, up_block)]\<rparr>))"
  by code_simp

lemma up_stages:
  "map_sum id snd (StageManifestPage up_app sample_user sample_session up_ref up_fence 0 [up_block] (pr_sha up_seal) 100
     (up_state 6 (up_op\<lparr>o_allocations := [(0, up_block)]\<rparr>))) = Inr (up_state 6 (up_op\<lparr>o_allocations := [(0, up_block)], o_pages := [(0, [up_block])]\<rparr>))"
  by code_simp

lemma up_seals:
  "map_sum id snd (SealManifest up_app sample_user sample_session up_ref up_fence 1 3 1 (pr_sha up_seal)
     (up_state 6 (up_op\<lparr>o_allocations := [(0, up_block)], o_pages := [(0, [up_block])]\<rparr>))) =
     Inr (up_state 6 (up_op\<lparr>o_allocations := [(0, up_block)], o_pages := [(0, [up_block])], o_sealed := Some up_seal\<rparr>))"
  by code_simp

lemma up_commits: "\<not> isl (CommitUpload up_app sample_user sample_session up_ref up_fence up_seal
     (up_state 6 (up_op\<lparr>o_allocations := [(0, up_block)], o_pages := [(0, [up_block])], o_sealed := Some up_seal\<rparr>)))"
  by code_simp

lemma up_db_ok: "fs_ok up_app up_db" "draft_start up_db" "ids_distinct up_app" "nfc_keeps_slash up_app"
proof -
  have "depth_le up_db 0 (dec_digits 2)" by (simp add: up_db_def up_root_def)
  then have "depth_le up_db 32 (dec_digits 2)" by (rule depth_le_mono) simp
  then show "fs_ok up_app up_db"
    by (simp add: fs_ok_def tree_ok_def pending_ok_def issued_def placed_def up_app_def) (simp add: up_db_def empty_db_def up_root_def)
qed (simp_all add: up_db_def up_app_def empty_db_def draft_start_def ids_distinct_def nfc_keeps_slash_def inj_def dec_digits_inj)

lemma map_sum_snd: "map_sum id snd x = Inr t \<Longrightarrow> \<exists>p. x = Inr (p, t)"
  by (cases x) auto

theorem commit_publishes_witness:
  "\<exists>t4 r t5 bs. fs_ok up_app t4 \<and> reach draft_start (draft_step up_app) t4 \<and> CommitUpload up_app sample_user sample_session up_ref up_fence up_seal t4 = Inr (r, t5) \<and>
     map_option sn_blocks (tget (snapshots t5) (sr_root (cr_snapshot r))) = Some bs \<and> sum_list (map br_size bs) = sr_size (cr_snapshot r)"
proof -
  obtain p q u v t1 t2 t3 t4 where
    c: "BeginUpload up_app sample_user sample_session sample_cx up_req up_db = Inr (p, t1)"
      "AllocateBlocks up_app sample_user sample_session up_ref up_fence [up_block\<lparr>br_version := ''''\<rparr>] t1 = Inr (q, t2)"
      "StageManifestPage up_app sample_user sample_session up_ref up_fence 0 [up_block] (pr_sha up_seal) 100 t2 = Inr (u, t3)"
      "SealManifest up_app sample_user sample_session up_ref up_fence 1 3 1 (pr_sha up_seal) t3 = Inr (v, t4)"
    and t4: "t4 = up_state 6 (up_op\<lparr>o_allocations := [(0, up_block)], o_pages := [(0, [up_block])], o_sealed := Some up_seal\<rparr>)"
    using map_sum_snd [OF up_begins] map_sum_snd [OF up_allocates] map_sum_snd [OF up_stages] map_sum_snd [OF up_seals] by blast
  obtain r t5 where d: "CommitUpload up_app sample_user sample_session up_ref up_fence up_seal t4 = Inr (r, t5)"
    using up_commits unfolding t4 by (cases "CommitUpload up_app sample_user sample_session up_ref up_fence up_seal
     (up_state 6 (up_op\<lparr>o_allocations := [(0, up_block)], o_pages := [(0, [up_block])], o_sealed := Some up_seal\<rparr>))") auto
  have onward: "reach draft_start (draft_step up_app) t'" if "reach draft_start (draft_step up_app) t" "draft_command up_app t t'" for t t'
    by (rule reach_step [OF that(1)]) (use that(2) in \<open>auto simp: draft_step_def same_format_def\<close>)
  have "reach draft_start (draft_step up_app) up_db" using up_db_ok(2) by (rule reach_start)
  from onward [OF this draft_command.intros(1) [OF c(1)]] have "reach draft_start (draft_step up_app) t1" .
  from onward [OF this draft_command.intros(3) [OF c(2)]] have "reach draft_start (draft_step up_app) t2" .
  from onward [OF this draft_command.intros(4) [OF c(3)]] have "reach draft_start (draft_step up_app) t3" .
  from onward [OF this draft_command.intros(5) [OF c(4)]] have reach: "reach draft_start (draft_step up_app) t4" .
  have "fs_ok up_app t1" by (rule BeginUpload_fs_ok [OF up_db_ok(1,3,4) c(1)])
  then have "fs_ok up_app t2" using AllocateBlocks_quiet [OF c(2) fs_ok_keyed] quiet_fs_ok by blast
  then have "fs_ok up_app t3" using Stage_Seal_Abort_quiet(1) [OF fs_ok_keyed c(3)] quiet_fs_ok by blast
  then have ok: "fs_ok up_app t4" using Stage_Seal_Abort_quiet(2) [OF fs_ok_keyed c(4)] quiet_fs_ok by blast
  from commit_publishes [OF ok reach d] obtain bs where
    e: "map_option sn_blocks (tget (snapshots t5) (sr_root (cr_snapshot r))) = Some bs" "sum_list (map br_size bs) = sr_size (cr_snapshot r)"
    by (elim exE conjE) (rule that, assumption, simp)
  show ?thesis by (intro exI conjI) (fact ok reach d e)+
qed

end
