(* ===== verification/Collection.thy ===== *)
theory Collection
  imports Maintenance Samples
begin

text \<open>
  What garbage collection leaves, in every profile: exactly the snapshots that a live file, an open handle or,
  over the shared store, a migration pin names, with the rows and the registered copies of their blocks.
\<close>

section \<open>What is in use\<close>

definition handle_open :: "app \<Rightarrow> handle_rec \<Rightarrow> bool" where
  "handle_open app h \<longleftrightarrow> \<not> h_closed h \<and> (if has_leases app then handle_live app h else h_expires h > now_ms app)"

definition in_use :: "app \<Rightarrow> db \<Rightarrow> string \<Rightarrow> bool" where
  "in_use app tx s \<longleftrightarrow>
     (\<exists>k n. tget (nodes tx) k = Some n \<and> n_alive n \<and> n_snapshot n = Some s) \<or>
     (\<exists>k h. tget (handles tx) k = Some h \<and> handle_open app h \<and> h_snapshot h = Some s) \<or>
     (etcd_backend app \<and> (\<exists>k. tget (migration_pins tx) k = Some s))"

definition store_keyed :: "db \<Rightarrow> bool" where
  "store_keyed tx \<longleftrightarrow> keyed h_id (handles tx) \<and> keyed sn_id (snapshots tx) \<and> keyed lc_id (locations tx)"

lemma map_filter_if: "set (List.map_filter (\<lambda>x. if P x then f x else None) xs) = {y. \<exists>x \<in> set xs. P x \<and> f x = Some y}"
  by (auto simp: List.map_filter_def image_iff) force+

lemma pins_in_use: "s \<in> set (pins app tx) \<longleftrightarrow> in_use app tx s"
proof -
  have "s \<in> set (open_snapshots app tx) \<longleftrightarrow> (\<exists>h. (\<exists>k. tget (handles tx) k = Some h) \<and> handle_open app h \<and> h_snapshot h = Some s)"
    unfolding open_snapshots_def handle_open_def map_filter_if by (simp only: mem_Collect_eq Bex_def in_tall_iff)
  moreover have "s \<in> set (live_snapshots tx) \<longleftrightarrow> (\<exists>n. (\<exists>k. tget (nodes tx) k = Some n) \<and> n_alive n \<and> n_snapshot n = Some s)"
    unfolding live_snapshots_def map_filter_if by (simp only: mem_Collect_eq Bex_def in_tall_iff)
  moreover have "s \<in> set (migrated_snapshots app tx) \<longleftrightarrow> etcd_backend app \<and> (\<exists>k. tget (migration_pins tx) k = Some s)"
    by (simp add: migrated_snapshots_def in_tall_iff)
  ultimately show ?thesis unfolding pins_def in_use_def set_append by blast
qed

section \<open>Ending operations and handles\<close>

text \<open>Up to the sweep, handles lose a reference or are closed when they are dead already, and nothing else here changes.\<close>

definition handle_row_as :: "app \<Rightarrow> handle_rec option \<Rightarrow> handle_rec option \<Rightarrow> bool" where
  "handle_row_as app = rel_option (\<lambda>h h'. h_snapshot h' = h_snapshot h \<and> handle_open app h' = handle_open app h)"

definition before_sweep :: "app \<Rightarrow> db \<Rightarrow> db \<Rightarrow> bool" where
  "before_sweep app tx t \<longleftrightarrow> nodes t = nodes tx \<and> snapshots t = snapshots tx \<and> blocks t = blocks tx \<and> locations t = locations tx \<and>
     migration_pins t = migration_pins tx \<and> keyed h_id (handles t) \<and> (\<forall>k. handle_row_as app (tget (handles tx) k) (tget (handles t) k))"

lemma before_sweep_refl: "store_keyed tx \<Longrightarrow> before_sweep app tx tx"
  by (simp add: before_sweep_def store_keyed_def handle_row_as_def option.rel_refl)

lemma before_sweep_frame [simp]:
  "before_sweep app tx (t\<lparr>uploads := a\<rparr>) = before_sweep app tx t" "before_sweep app tx (t\<lparr>locks := b\<rparr>) = before_sweep app tx t"
  "before_sweep app tx (t\<lparr>tasks := c\<rparr>) = before_sweep app tx t"
  by (simp_all add: before_sweep_def)

lemma before_sweep_fold:
  "before_sweep app tx t \<Longrightarrow> (\<And>x u. before_sweep app tx u \<Longrightarrow> before_sweep app tx (f x u)) \<Longrightarrow> before_sweep app tx (fold f xs t)"
  by (rule fold_invariant [where P = "before_sweep app tx"])

lemma before_sweep_put:
  assumes "before_sweep app tx t" and "tget (handles t) k = Some h" and "h_id h' = h_id h" "h_snapshot h' = h_snapshot h" "handle_open app h' = handle_open app h"
  shows "before_sweep app tx (t\<lparr>handles := tput (h_id h') h' (handles t)\<rparr>)"
proof -
  have k: "h_id h' = k" using assms(1-3) keyedD [of h_id "handles t"] by (simp add: before_sweep_def)
  have "handle_row_as app (tget (handles tx) k) (Some h')"
    using assms by (auto simp: before_sweep_def handle_row_as_def option_rel_Some2 dest!: spec [of _ k])
  with assms(1) k show ?thesis by (auto simp: before_sweep_def keyed_tput)
qed

lemma before_sweep_busy:
  assumes "before_sweep app tx t"
  shows "before_sweep app tx (release_busy i k t)"
proof (cases "tget (handles t) k")
  case (Some h)
  from before_sweep_put [OF assms this, of "h\<lparr>h_busy := None\<rparr>"] assms Some show ?thesis
    by (simp add: release_busy_def handle_open_def handle_live_def live_at_def)
qed (simp add: release_busy_def assms)

lemma before_sweep_release: "before_sweep app tx t \<Longrightarrow> before_sweep app tx (release_operation op t)"
proof -
  assume t: "before_sweep app tx t"
  have "before_sweep app tx (fold (release_lock (o_id op)) (o_locks op) t)"
    by (rule before_sweep_fold [OF t]) (auto simp: release_lock_def split: option.split)
  then show ?thesis by (simp add: release_operation_def before_sweep_busy)
qed

lemma before_sweep_expire: "before_sweep app tx t \<Longrightarrow> before_sweep app tx (expire_write app op t)"
  by (simp add: expire_write_def Let_def before_sweep_release)

lemma before_sweep_close:
  assumes "before_sweep app tx t" and "has_leases app"
  shows "before_sweep app tx (close_dead_handles app t)"
proof -
  have "before_sweep app tx u \<and> (\<forall>h \<in> set (tall (handles t)). \<exists>h'. tget (handles u) (h_id h) = Some h' \<and> (h' = h \<or> h' = h\<lparr>h_closed := True\<rparr>))"
    if "u = close_dead_handles app t" for u
    unfolding that close_dead_handles_def
  proof (rule fold_invariant)
    show "before_sweep app tx t \<and> (\<forall>h \<in> set (tall (handles t)). \<exists>h'. tget (handles t) (h_id h) = Some h' \<and> (h' = h \<or> h' = h\<lparr>h_closed := True\<rparr>))"
      using assms(1) keyed_tall [of h_id "handles t"] by (auto simp: before_sweep_def)
  next
    fix h v
    assume h: "h \<in> set (tall (handles t))" and v: "before_sweep app tx v \<and> (\<forall>h \<in> set (tall (handles t)). \<exists>h'. tget (handles v) (h_id h) = Some h' \<and> (h' = h \<or> h' = h\<lparr>h_closed := True\<rparr>))"
    then obtain h0 where h0: "tget (handles v) (h_id h) = Some h0" "h0 = h \<or> h0 = h\<lparr>h_closed := True\<rparr>" by blast
    have "before_sweep app tx (v\<lparr>handles := tput (h_id (h\<lparr>h_closed := True\<rparr>)) (h\<lparr>h_closed := True\<rparr>) (handles v)\<rparr>)" if "\<not> handle_live app h"
      by (rule before_sweep_put [OF _ h0(1)]) (use v h0(2) that assms(2) in \<open>auto simp: handle_open_def handle_live_def live_at_def\<close>)
    moreover have "h_id g = h_id h \<Longrightarrow> g = h" if "g \<in> set (tall (handles t))" for g
      using that h assms(1) keyed_tall [of h_id "handles t"] by (auto simp: before_sweep_def)
    ultimately show "before_sweep app tx (if \<not> handle_live app h then put_handle (h\<lparr>h_closed := True\<rparr>) v else v) \<and>
      (\<forall>h' \<in> set (tall (handles t)). \<exists>h''. tget (handles (if \<not> handle_live app h then put_handle (h\<lparr>h_closed := True\<rparr>) v else v)) (h_id h') = Some h'' \<and>
         (h'' = h' \<or> h'' = h'\<lparr>h_closed := True\<rparr>))"
      using v by auto
  qed
  then show ?thesis by blast
qed

lemma before_sweep_end: "before_sweep app tx t \<Longrightarrow> before_sweep app tx (end_operations app restart t)"
  unfolding end_operations_def by (erule before_sweep_fold) auto

lemma before_sweep_in_use: "before_sweep app tx t \<Longrightarrow> in_use app t s \<longleftrightarrow> in_use app tx s"
proof -
  assume t: "before_sweep app tx t"
  have "(\<exists>k h. tget (handles t) k = Some h \<and> handle_open app h \<and> h_snapshot h = Some s) \<longleftrightarrow>
    (\<exists>k h. tget (handles tx) k = Some h \<and> handle_open app h \<and> h_snapshot h = Some s)" (is "(\<exists>k. ?L k) \<longleftrightarrow> (\<exists>k. ?R k)")
  proof -
    have "?L k \<longleftrightarrow> ?R k" for k
      using t by (auto simp: before_sweep_def handle_row_as_def dest!: spec [of _ k] elim!: option.rel_cases)
    then show ?thesis by blast
  qed
  with t show ?thesis by (simp add: in_use_def before_sweep_def)
qed

section \<open>The sweep\<close>

lemma sweep_snapshots_only:
  assumes "keyed sn_id (snapshots t)"
  shows "tget (snapshots (sweep_snapshots pinned t)) s = (if s \<in> set pinned then tget (snapshots t) s else None)"
    "blocks (sweep_snapshots pinned t) = blocks t" "locations (sweep_snapshots pinned t) = locations t"
proof -
  have fold: "fold (\<lambda>s tx. if sn_id s \<in> set pinned then tx else tx\<lparr>snapshots := tdel (sn_id s) (snapshots tx)\<rparr>) ss u =
      u\<lparr>snapshots := fold (\<lambda>s r. if sn_id s \<notin> set pinned then tdel (sn_id s) r else r) ss (snapshots u)\<rparr>" for ss u
    by (induction ss arbitrary: u) simp_all
  show "tget (snapshots (sweep_snapshots pinned t)) s = (if s \<in> set pinned then tget (snapshots t) s else None)"
    using tget_fold_tdel_all [OF assms, of "\<lambda>s. sn_id s \<notin> set pinned" s] keyedD [OF assms, of s]
    by (simp add: sweep_snapshots_def fold split: option.split)
  show "blocks (sweep_snapshots pinned t) = blocks t" "locations (sweep_snapshots pinned t) = locations t"
    by (simp_all add: sweep_snapshots_def fold)
qed

text \<open>What retiring other blocks keeps of a block \<open>b\<close>.\<close>

definition block_kept :: "db \<Rightarrow> string \<Rightarrow> db \<Rightarrow> bool" where
  "block_kept tx b t \<longleftrightarrow> snapshots t = snapshots tx \<and> tget (blocks t) b = tget (blocks tx) b \<and> keyed lc_id (locations t) \<and>
     (\<forall>k l. tget (locations tx) k = Some l \<longrightarrow> lc_block l = b \<longrightarrow> tget (locations t) k = Some l)"

lemma block_kept_frame [simp]:
  "block_kept tx b (t\<lparr>tasks := a\<rparr>) = block_kept tx b t" "block_kept tx b (t\<lparr>retirements := c\<rparr>) = block_kept tx b t"
  "block_kept tx b (t\<lparr>uid_count := d\<rparr>) = block_kept tx b t" "block_kept tx b (t\<lparr>retired := e\<rparr>) = block_kept tx b t"
  by (simp_all add: block_kept_def)

lemma block_kept_retire_copy [simp]: "block_kept tx b (retire_copy app ref node t) = block_kept tx b t"
  by (simp add: retire_copy_def cluster_retire_copy_def replicated_retire_copy_def new_task_def uid_def Let_def split: option.split)

lemma retire_copy_locations: "locations (retire_copy app ref node t) = locations t"
  by (simp add: retire_copy_def cluster_retire_copy_def replicated_retire_copy_def new_task_def uid_def Let_def split: option.split)

lemma block_kept_retire_block:
  assumes "block_kept tx b t" and "b_id r \<noteq> b"
  shows "block_kept tx b (retire_block app r t)"
proof -
  have cluster: "block_kept tx b (cluster_retire_block app r u)" if u: "block_kept tx b u" for u
  proof -
    have "block_kept tx b v \<and> (\<forall>k l. tget (locations v) k = Some l \<longrightarrow> tget (locations u) k = Some l)"
      if "v = fold (\<lambda>l tx. if lc_block l = b_id r
         then (let tx = retire_copy app (b_ref r) (lc_node l) tx in tx\<lparr>locations := tdel (lc_id l) (locations tx)\<rparr>) else tx) (tall (locations u)) u" for v
      unfolding that
    proof (rule fold_invariant)
      fix l v
      assume l: "l \<in> set (tall (locations u))" and v: "block_kept tx b v \<and> (\<forall>k l. tget (locations v) k = Some l \<longrightarrow> tget (locations u) k = Some l)"
      have "tget (locations u) (lc_id l) = Some l" using u l keyed_tall [of lc_id "locations u"] by (simp add: block_kept_def)
      then have "lc_block m \<noteq> b" if "tget (locations tx) (lc_id l) = Some m" "lc_block l = b_id r" for m
        using u that assms(2) by (auto simp: block_kept_def)
      then show "block_kept tx b (if lc_block l = b_id r
         then (let tx = retire_copy app (b_ref r) (lc_node l) v in tx\<lparr>locations := tdel (lc_id l) (locations tx)\<rparr>) else v) \<and>
         (\<forall>k m. tget (locations (if lc_block l = b_id r
         then (let tx = retire_copy app (b_ref r) (lc_node l) v in tx\<lparr>locations := tdel (lc_id l) (locations tx)\<rparr>) else v)) k = Some m \<longrightarrow>
            tget (locations u) k = Some m)"
        using v block_kept_retire_copy [of tx b app "b_ref r" "lc_node l" v]
        by (auto simp: Let_def block_kept_def retire_copy_locations keyed_tdel split: if_splits)
    qed (use u in simp)
    then show ?thesis using assms(2) by (simp add: cluster_retire_block_def local_retire_block_def block_kept_def)
  qed
  show ?thesis
    using assms cluster by (cases "profile app") (auto simp: retire_block_def local_retire_block_def block_kept_def)
qed

lemma block_kept_sweep:
  assumes "block_kept tx b t" and "b \<in> set retained"
  shows "block_kept tx b (sweep_blocks app retained t)"
  unfolding sweep_blocks_def by (rule fold_invariant [where P = "block_kept tx b", OF assms(1)]) (use assms(2) in \<open>auto intro!: block_kept_retire_block\<close>)

lemma sweep_blocks_snapshots: "snapshots (sweep_blocks app retained t) = snapshots t"
proof -
  have copy: "snapshots (retire_copy app ref node u) = snapshots u" for ref node u
    by (simp add: retire_copy_def cluster_retire_copy_def replicated_retire_copy_def new_task_def uid_def Let_def split: option.split)
  have "snapshots (cluster_retire_block app r u) = snapshots u" for r u
    unfolding cluster_retire_block_def local_retire_block_def
    by (simp, rule fold_invariant [where P = "\<lambda>v. snapshots v = snapshots u"]) (simp_all add: copy Let_def)
  then have "snapshots (retire_block app r u) = snapshots u" for r u
    by (cases "profile app") (simp_all add: retire_block_def local_retire_block_def)
  then show ?thesis unfolding sweep_blocks_def by (intro fold_invariant [where P = "\<lambda>v. snapshots v = snapshots t"]) auto
qed

section \<open>Collection\<close>

definition collected :: "app \<Rightarrow> db \<Rightarrow> string list \<Rightarrow> db \<Rightarrow> bool" where
  "collected app tx retained tx' \<longleftrightarrow>
     (\<forall>s. tget (snapshots tx') s = (if in_use app tx s then tget (snapshots tx) s else None)) \<and>
     (\<forall>s snap b. tget (snapshots tx') s = Some snap \<longrightarrow> b \<in> set (map br_version (sn_blocks snap)) \<longrightarrow>
        b \<in> set retained \<and> tget (blocks tx') b = tget (blocks tx) b \<and>
        (\<forall>k l. tget (locations tx) k = Some l \<longrightarrow> lc_block l = b \<longrightarrow> tget (locations tx') k = Some l))"

lemma monolith_collected:
  assumes "before_sweep app tx tx0" and "store_keyed tx" and "monolith_collect app restart tx0 = (retained, tx')"
  shows "collected app tx retained tx'"
proof -
  define t where "t = end_operations app restart (if has_leases app
     then close_dead_handles app (fold (expire_write app) (tall (uploads tx0)) tx0) else tx0)"
  have "before_sweep app tx (fold (expire_write app) (tall (uploads tx0)) tx0)"
    by (rule before_sweep_fold [OF assms(1) before_sweep_expire])
  then have t: "before_sweep app tx t" unfolding t_def by (intro before_sweep_end) (simp add: before_sweep_close assms(1))
  define u where "u = sweep_snapshots (pins app t) t"
  have r: "retained = retained_blocks app t" and tx': "tx' = sweep_blocks app retained u"
    using assms(3) by (auto simp: monolith_collect_def Let_def t_def [symmetric] u_def [symmetric])
  have keyed: "keyed sn_id (snapshots t)" "keyed lc_id (locations tx)" using t assms(2) by (simp_all add: before_sweep_def store_keyed_def)
  have snaps: "tget (snapshots tx') s = (if in_use app tx s then tget (snapshots tx) s else None)" for s
    using sweep_snapshots_only(1) [OF keyed(1), of "pins app t" s] t
    by (simp add: tx' sweep_blocks_snapshots u_def pins_in_use before_sweep_in_use [OF t]) (simp add: before_sweep_def)
  have "block_kept u b tx' \<and> b \<in> set retained" if s: "tget (snapshots tx') s = Some snap" "b \<in> set (map br_version (sn_blocks snap))" for s snap b
  proof -
    have "in_use app tx s" "tget (snapshots t) s = Some snap" using s(1) t by (simp_all add: snaps before_sweep_def split: if_splits)
    then have "b \<in> set retained"
      using s(2) keyedD [OF keyed(1), of s snap] by (auto simp: r retained_blocks_def pins_in_use before_sweep_in_use [OF t] in_tall_iff intro!: bexI [of _ snap])
    moreover have "block_kept u b u" using keyed(2) t sweep_snapshots_only(3) [OF keyed(1), of "pins app t"] by (simp add: block_kept_def u_def before_sweep_def)
    ultimately show ?thesis using block_kept_sweep by (simp add: tx')
  qed
  moreover have "blocks u = blocks tx" "locations u = locations tx"
    using sweep_snapshots_only(2,3) [OF keyed(1)] t by (simp_all add: u_def before_sweep_def)
  ultimately show ?thesis using snaps by (simp add: collected_def block_kept_def)
qed

lemma collect_collected:
  assumes "collect app restart tx = (retained, tx')" and "store_keyed tx"
  shows "collected app tx retained tx'"
proof -
  note self = before_sweep_refl [OF assms(2), of app]
  have stale: "before_sweep app tx (fail_stale_copies app tx)"
    unfolding fail_stale_copies_def Let_def by (rule before_sweep_fold [OF self]) auto
  have cluster: "collected app tx retained tx'" if "cluster_collect app restart tx = (retained, tx')"
  proof -
    from that obtain u where u: "monolith_collect app restart tx = (retained, u)"
      and tx': "tx' = retire_failed_copies app (retire_unconfirmed app (fail_orphan_copies u))"
      by (auto simp: cluster_collect_def Let_def split: prod.splits)
    have copy: "snapshots (retire_copy app ref node v) = snapshots v \<and> blocks (retire_copy app ref node v) = blocks v \<and>
       locations (retire_copy app ref node v) = locations v" for ref node v
      by (simp add: retire_copy_def cluster_retire_copy_def replicated_retire_copy_def new_task_def uid_def Let_def split: option.split)
    have "snapshots tx' = snapshots u \<and> blocks tx' = blocks u \<and> locations tx' = locations u"
      unfolding tx' retire_failed_copies_def retire_unconfirmed_def fail_orphan_copies_def
      by (intro fold_invariant [where P = "\<lambda>v. snapshots v = snapshots u \<and> blocks v = blocks u \<and> locations v = locations u"]) (auto simp: copy split: option.split)
    with monolith_collected [OF self assms(2) u] show ?thesis by (simp add: collected_def)
  qed
  show ?thesis
    using assms(1) cluster monolith_collected [OF self assms(2)] monolith_collected [OF stale assms(2)]
    by (cases "profile app") (auto simp: collect_def replicated_collect_def)
qed

section \<open>Properties\<close>

text \<open>
  C11. Collection keeps exactly what is in use. In every profile, after \<^verbatim>\<open>collect\<close> the store holds the snapshots that a live file, an open
  handle or, in the control over the shared store, a migration pin names, unchanged, and no others; and every block of a remaining snapshot is in the list handed to the block
  store, keeps its row, and keeps the registrations of all its copies.
\<close>

theorem collect_exact:
  assumes "collect app restart tx = (retained, tx')" and "store_keyed tx"
  shows "(\<forall>s. tget (snapshots tx') s = (if in_use app tx s then tget (snapshots tx) s else None)) \<and>
     (\<forall>s snap b. tget (snapshots tx') s = Some snap \<longrightarrow> b \<in> set (map br_version (sn_blocks snap)) \<longrightarrow>
        b \<in> set retained \<and> tget (blocks tx') b = tget (blocks tx) b \<and>
        (\<forall>k l. tget (locations tx) k = Some l \<longrightarrow> lc_block l = b \<longrightarrow> tget (locations tx') k = Some l))"
  using collect_collected [OF assms] by (simp add: collected_def)

definition sample_snapshot :: "string \<Rightarrow> snapshot_rec" where
  "sample_snapshot i = \<lparr>sn_id = i, sn_file = ''f'', sn_ref = \<lparr>sr_file = ''f'', sr_content_epoch = 1, sr_file_version = 1, sr_root = i, sr_size = 3,
     sr_manifest_sha = '''', sr_file_sha = None, sr_block_size = 4194304\<rparr>,
     sn_blocks = [\<lparr>br_file = ''f'', br_version = ''b'' @ i, br_index = 0, br_size = 3, br_sha = ''''\<rparr>]\<rparr>"

definition sample_file :: node_rec where
  "sample_file = \<lparr>n_id = ''f'', n_name = ''x'', n_parent = None, n_owner = ''u'', n_group = ''u'', n_mode = 438, n_acl = [], n_alive = True,
     n_directory = False, n_revision = 1, n_snapshot = Some ''new'', n_block_size = 4194304\<rparr>"

definition overwritten_db :: db where
  "overwritten_db = empty_db\<lparr>nodes := tput ''f'' sample_file tempty,
     snapshots := tput ''new'' (sample_snapshot ''new'') (tput ''old'' (sample_snapshot ''old'') tempty)\<rparr>"

definition shared_app :: app where
  "shared_app = sample_app\<lparr>profile := REPLICATED, etcd_backend := True\<rparr>"

definition pinned_db :: db where
  "pinned_db = overwritten_db\<lparr>migration_pins := tput ''pin'' ''old'' tempty\<rparr>"

text \<open>
  A file that was overwritten: its old snapshot, which nobody has open, goes; the new one stays with its block. With a migration pin
  on the old snapshot, the control over the shared store keeps both.
\<close>

theorem collect_exact_witness:
  "(\<exists>retained tx'. collect sample_app False overwritten_db = (retained, tx') \<and> tget (snapshots tx') ''new'' = Some (sample_snapshot ''new'') \<and>
     tget (snapshots tx') ''old'' = None \<and> ''bnew'' \<in> set retained) \<and>
   (\<exists>retained tx'. collect shared_app False pinned_db = (retained, tx') \<and> tget (snapshots tx') ''old'' = Some (sample_snapshot ''old'') \<and>
     tget (snapshots tx') ''new'' = Some (sample_snapshot ''new''))"
proof
  obtain retained tx' where c: "collect shared_app False pinned_db = (retained, tx')" by (cases "collect shared_app False pinned_db")
  have keyed: "store_keyed pinned_db"
    by (simp add: store_keyed_def pinned_db_def overwritten_db_def empty_db_def sample_snapshot_def keyed_tput)
  have use: "in_use shared_app pinned_db ''new''" "in_use shared_app pinned_db ''old''"
    by (auto simp: in_use_def shared_app_def pinned_db_def overwritten_db_def empty_db_def sample_file_def)
  from collect_exact [OF c keyed] use c show "\<exists>retained tx'. collect shared_app False pinned_db = (retained, tx') \<and>
     tget (snapshots tx') ''old'' = Some (sample_snapshot ''old'') \<and> tget (snapshots tx') ''new'' = Some (sample_snapshot ''new'')"
    by (simp add: pinned_db_def overwritten_db_def)
next
  obtain retained tx' where c: "collect sample_app False overwritten_db = (retained, tx')" by (cases "collect sample_app False overwritten_db")
  have keyed: "store_keyed overwritten_db"
    by (simp add: store_keyed_def overwritten_db_def empty_db_def sample_snapshot_def keyed_tput)
  have use: "in_use sample_app overwritten_db ''new''" "\<not> in_use sample_app overwritten_db ''old''"
    by (auto simp: in_use_def overwritten_db_def empty_db_def sample_file_def split: if_splits)
  note all = collect_exact [OF c keyed]
  have new: "tget (snapshots tx') ''new'' = Some (sample_snapshot ''new'')" "tget (snapshots tx') ''old'' = None"
    using all use by (simp_all add: overwritten_db_def)
  have "''bnew'' \<in> set (map br_version (sn_blocks (sample_snapshot ''new'')))" by (simp add: sample_snapshot_def)
  with all new(1) have "''bnew'' \<in> set retained" by blast
  with c new show "\<exists>retained tx'. collect sample_app False overwritten_db = (retained, tx') \<and>
     tget (snapshots tx') ''new'' = Some (sample_snapshot ''new'') \<and> tget (snapshots tx') ''old'' = None \<and> ''bnew'' \<in> set retained" by blast
qed

end
