(* ===== verification/Tree_Machine.thy ===== *)
theory Tree_Machine
  imports Tree Samples
begin

text \<open>
  The name space as a machine: it starts with a fresh installation (\<^verbatim>\<open>initialize\<close>) and every command
  is a step. Between two steps the clock, the configuration and the caller may change; what stays
  is the root directory, the source of identifiers and Unicode composition (\<open>same_system\<close>). Commands that
  leave the nodes alone and only end operations are covered by \<open>step_quiet\<close>.
\<close>

section \<open>The initial state\<close>

lemma keys_empty_db [simp]: "nodes empty_db = tempty" "uploads empty_db = tempty" "uid_count empty_db = 0"
  by (simp_all add: empty_db_def)

definition fresh_dir :: "string \<Rightarrow> string \<Rightarrow> string option \<Rightarrow> string \<Rightarrow> nat \<Rightarrow> node_rec" where
  "fresh_dir i name parent owner mode =
     \<lparr>n_id = i, n_name = name, n_parent = parent, n_owner = owner, n_group = owner, n_mode = mode, n_acl = [],
      n_alive = True, n_directory = True, n_revision = 1, n_snapshot = None, n_block_size = 0\<rparr>"

lemma initialize_Inr:
  assumes "initialize app False False username password empty_db = Inr (r, tx)"
  shows "name_ok username" "r = uidgen app 2" "uid_count tx = Suc (Suc 3)" "uploads tx = tempty"
    "nodes tx = tput (uidgen app (Suc 3)) (fresh_dir (uidgen app (Suc 3)) username (Some (uidgen app 3)) (uidgen app 1) 448)
       (tput (uidgen app 3) (fresh_dir (uidgen app 3) ''home'' (Some (uidgen app 2)) (uidgen app 1) 493)
       (tput (uidgen app 2) (fresh_dir (uidgen app 2) '''' None (uidgen app 1) 493) tempty))"
  using assms
  by (auto simp: initialize_def password_hash_def new_node_def uid_def run Let_def numeral_2_eq_2 numeral_3_eq_3 fresh_dir_def)

lemma initialize_fs_ok:
  assumes "initialize app False False username password empty_db = Inr (sys_root app, tx)" and "ids_distinct app"
  shows "fs_ok app tx"
proof -
  note facts = initialize_Inr [OF assms(1)]
  obtain a b c where
    n: "nodes tx = tput (uidgen app (Suc 3)) a (tput (uidgen app 3) b (tput (uidgen app 2) c tempty))" and
    ids: "n_id a = uidgen app (Suc 3)" "n_id b = uidgen app 3" "n_id c = uidgen app 2" and
    par: "n_parent a = Some (uidgen app 3)" "n_parent b = Some (uidgen app 2)" "n_parent c = None" and
    rest: "n_name a = username" "n_name b = ''home''" "n_alive a" "n_alive b" "n_alive c"
       "n_directory a" "n_directory b" "n_directory c" "n_snapshot c = None"
    using facts(5) by (simp add: fresh_dir_def)
  have ne: "uidgen app 2 \<noteq> uidgen app 3" "uidgen app 2 \<noteq> uidgen app (Suc 3)" "uidgen app 3 \<noteq> uidgen app (Suc 3)"
    using assms(2) by (auto simp: ids_distinct_def dest: injD)
  have get: "tget (nodes tx) k = (if k = uidgen app (Suc 3) then Some a else if k = uidgen app 3 then Some b
      else if k = uidgen app 2 then Some c else None)" for k by (simp add: n)
  have depth: "depth_le tx 0 (uidgen app 2)" "depth_le tx (Suc 0) (uidgen app 3)" "depth_le tx (Suc (Suc 0)) (uidgen app (Suc 3))"
    using ne par by (auto simp: get depth_le.simps)
  have deep: "depth_le tx 32 k" if "tget (nodes tx) k = Some m" for k m
    using that depth_le_mono [OF depth(1), of 32] depth_le_mono [OF depth(2), of 32] depth_le_mono [OF depth(3), of 32]
    by (auto simp: get split: if_splits)
  have fine: "name_fine username" "name_fine ''home''"
    using name_ok_fine [OF facts(1)] by (auto simp: name_fine_def)
  have iss: "issued app tx k" if "tget (nodes tx) k = Some m" for k m
    using that facts(3) by (auto simp: get split: if_splits intro: issued_next)
  have placed: "placed app tx m" if "tget (nodes tx) k = Some m" for k m
    using that ids par rest fine ne facts(2) by (auto simp: get placed_def split: if_splits)
  have "tree_ok app tx"
    unfolding tree_ok_def using deep iss placed ids par ne facts(2) by (auto simp: get split: if_splits)
  moreover have "pending_ok app tx" by (simp add: pending_ok_def facts(4))
  ultimately show ?thesis by (simp add: fs_ok_def)
qed

section \<open>The machine\<close>

definition same_system :: "app \<Rightarrow> app \<Rightarrow> bool" where
  "same_system app app' \<longleftrightarrow> sys_root app' = sys_root app \<and> uidgen app' = uidgen app \<and> nfc app' = nfc app"

lemma same_system_fs_ok: "same_system app app' \<Longrightarrow> fs_ok app' tx \<longleftrightarrow> fs_ok app tx"
  by (simp add: same_system_def fs_ok_def tree_ok_def pending_ok_def upload_ok_def placed_def homed_def issued_def cong: option.case_cong)

lemma same_system_hyps:
  "same_system app app' \<Longrightarrow> ids_distinct app' \<longleftrightarrow> ids_distinct app"
  "same_system app app' \<Longrightarrow> nfc_keeps_slash app' \<longleftrightarrow> nfc_keeps_slash app"
  by (simp_all add: same_system_def ids_distinct_def nfc_keeps_slash_def)

definition fs_start :: "app \<Rightarrow> db \<Rightarrow> bool" where
  "fs_start app tx \<longleftrightarrow> (\<exists>username password. initialize app False False username password empty_db = Inr (sys_root app, tx))"

inductive fs_command :: "app \<Rightarrow> db \<Rightarrow> db \<Rightarrow> bool" for app where
  step_Mkdir: "Mkdir app user path tx = Inr (e, tx') \<Longrightarrow> fs_command app tx tx'"
| step_Rmdir: "Rmdir app user cx path tx = Inr (m, tx') \<Longrightarrow> fs_command app tx tx'"
| step_Remove: "Remove app user cx path tx = Inr (m, tx') \<Longrightarrow> fs_command app tx tx'"
| step_SetAcl: "SetAcl app user cx path acl expected tx = Inr (m, tx') \<Longrightarrow> fs_command app tx tx'"
| step_CreateUser: "CreateUser app user username password tx = Inr (u, tx') \<Longrightarrow> fs_command app tx tx'"
| step_BeginUpload: "BeginUpload app user session cx ureq tx = Inr (p, tx') \<Longrightarrow> fs_command app tx tx'"
| step_RenewUpload: "RenewUpload app user session reference tx = Inr (p, tx') \<Longrightarrow> fs_command app tx tx'"
| step_AllocateBlocks: "AllocateBlocks app user session reference fence reqs tx = Inr (bp, tx') \<Longrightarrow> fs_command app tx tx'"
| step_StageManifestPage: "StageManifestPage app user session reference fence i blks sha n tx = Inr (pr, tx') \<Longrightarrow> fs_command app tx tx'"
| step_SealManifest: "SealManifest app user session reference fence i j k sha tx = Inr (pr, tx') \<Longrightarrow> fs_command app tx tx'"
| step_CommitUpload: "CommitUpload app user session reference fence seal tx = Inr (r, tx') \<Longrightarrow> fs_command app tx tx'"
| step_AbortUpload: "AbortUpload app user session cx reference tx = Inr (m, tx') \<Longrightarrow> fs_command app tx tx'"
| step_Open: "Open app user session path mode tx = Inr (hm, tx') \<Longrightarrow> fs_command app tx tx'"
| step_BeginWrite: "BeginWrite app user session cx wreq tx = Inr (wp, tx') \<Longrightarrow> fs_command app tx tx'"
| step_CommitWrite: "CommitWrite app user session creq tx = Inr (r, tx') \<Longrightarrow> fs_command app tx tx'"
| step_quiet: "quiet tx tx' \<Longrightarrow> fs_command app tx tx'"

inductive_cases fs_commandE: "fs_command app tx tx'"

definition fs_step :: "app \<Rightarrow> db \<Rightarrow> db \<Rightarrow> bool" where
  "fs_step app tx tx' \<longleftrightarrow> (\<exists>app'. same_system app app' \<and> fs_command app' tx tx')"

lemma fs_command_ok:
  assumes "fs_command app tx tx'" and ok: "fs_ok app tx" and "ids_distinct app" "nfc_keeps_slash app"
  shows "fs_ok app tx'"
  using assms(1)
  by cases (auto simp: Rmdir_def Remove_def
      intro: CreateUser_fs_ok [OF ok assms(3)] Mkdir_fs_ok [OF ok assms(3,4)] remove_fs_ok [OF ok] SetAcl_fs_ok [OF ok] BeginUpload_fs_ok [OF ok assms(3,4)]
        CommitUpload_fs_ok [OF ok] Open_fs_ok [OF ok assms(3,4)] BeginWrite_fs_ok [OF ok assms(3)] CommitWrite_fs_ok [OF ok]
        quiet_fs_ok [OF ok] RenewUpload_quiet [OF _ fs_ok_keyed [OF ok], THEN quiet_fs_ok [OF ok, rotated]]
      dest!: RenewUpload_quiet [OF _ fs_ok_keyed [OF ok]] AllocateBlocks_quiet [OF _ fs_ok_keyed [OF ok]]
        Stage_Seal_Abort_quiet(1,2) [OF fs_ok_keyed [OF ok]] AbortUpload_quiet [OF _ fs_ok_keyed [OF ok]])

interpretation fs_machine: safe_machine "fs_start app" "fs_step app" "\<lambda>tx. ids_distinct app \<longrightarrow> nfc_keeps_slash app \<longrightarrow> fs_ok app tx" for app
proof
  show "ids_distinct app \<longrightarrow> nfc_keeps_slash app \<longrightarrow> fs_ok app s" if "fs_start app s" for s
    using that initialize_fs_ok by (auto simp: fs_start_def)
  show "ids_distinct app \<longrightarrow> nfc_keeps_slash app \<longrightarrow> fs_ok app s'"
    if "ids_distinct app \<longrightarrow> nfc_keeps_slash app \<longrightarrow> fs_ok app s" "fs_step app s s'" for s s'
    using that fs_command_ok same_system_fs_ok same_system_hyps unfolding fs_step_def by blast
qed

section \<open>Properties\<close>

lemma sample_hyps: "ids_distinct sample_app" "nfc_keeps_slash sample_app"
  by (simp_all add: ids_distinct_def nfc_keeps_slash_def inj_def dec_digits_inj)

lemma sample_start: "\<exists>tx. fs_start sample_app tx"
proof -
  have "name_ok ''ana''" by code_simp
  then have "\<exists>tx. initialize sample_app False False ''ana'' ''a long password'' empty_db = Inr (dec_digits 2, tx)"
    by (simp add: initialize_def password_hash_def new_node_def uid_def Let_def numeral_2_eq_2)
  then show ?thesis by (auto simp: fs_start_def)
qed

text \<open>
  C1. The name space is a tree in every reachable state. From a fresh installation, whatever commands are
  executed in whatever order, by whomever and at whatever times: every node is stored under its identifier,
  at most 32 levels below the root; the root is the only node without a parent; the parent of a live node
  is a live directory, with one exception, the account directories below a file that is or was stored as \<^verbatim>\<open>/home\<close>; live siblings have different names;
  and every pending operation names an existing parent, a directory if the operation creates its file,
  and either its file or an identifier no node has. The exception is real: \<^verbatim>\<open>CreateUser\<close> does not look whether \<^verbatim>\<open>/home\<close> is a directory, and
  removing a file does not look for children.
\<close>

theorem reachable_tree:
  assumes "reach (fs_start app) (fs_step app) tx" and "ids_distinct app" and "nfc_keeps_slash app"
  shows "fs_ok app tx"
  using fs_machine.reach_inv [OF assms(1)] assms(2,3) by blast

theorem reachable_tree_witness: "\<exists>tx. reach (fs_start sample_app) (fs_step sample_app) tx \<and> fs_ok sample_app tx"
proof -
  obtain tx where "fs_start sample_app tx" using sample_start by blast
  then have r: "reach (fs_start sample_app) (fs_step sample_app) tx" by (rule reach_start)
  from reachable_tree [OF r sample_hyps] r show ?thesis by blast
qed

lemma ancestors_depth:
  assumes "tree_ok app tx" and "depth_le tx d k" and "d < fuel"
  shows "\<exists>as. ancestors tx fuel (Some k) = Inr as \<and> length as \<le> Suc d \<and> as \<noteq> [] \<and> last as = sys_root app \<and>
     (\<forall>a \<in> set as. \<exists>n. tget (nodes tx) a = Some n)"
  using assms(2,3)
proof (induction d arbitrary: k fuel)
  case 0
  then obtain n where n: "tget (nodes tx) k = Some n" "n_parent n = None" by (auto split: option.splits)
  have "k = sys_root app" using tree_okD(1,4) [OF assms(1) n(1)] n(2) by (simp add: placed_def)
  with n 0 show ?case by (cases fuel) auto
next
  case (Suc d)
  then obtain n f where n: "tget (nodes tx) k = Some n" and f: "fuel = Suc f"
    by (cases fuel) (auto simp: depth_le.simps split: option.splits)
  show ?case
  proof (cases "n_parent n")
    case None
    have "k = sys_root app" using tree_okD(1,4) [OF assms(1) n] None by (simp add: placed_def)
    with n None f show ?thesis by simp
  next
    case (Some p)
    with Suc.prems n have "depth_le tx d p" using depth_le_child by blast
    from Suc.IH [OF this, of f] Suc.prems(2) f obtain as where
      "ancestors tx f (Some p) = Inr as" "length as \<le> Suc d" "as \<noteq> []" "last as = sys_root app"
      "\<forall>a \<in> set as. \<exists>n. tget (nodes tx) a = Some n" by auto
    with n Some f show ?thesis by auto
  qed
qed

text \<open>
  C24. The loop over the ancestors of a node ends. \<^verbatim>\<open>Open\<close> collects the ancestors of the node it opens by
  following parents until there is none. In every state that commands reach from a fresh installation this ends for every stored node, with
  existing nodes only, after at most 32 of them, the last being the root.
\<close>

theorem ancestors_end:
  assumes "reach (fs_start app) (fs_step app) tx" and "ids_distinct app" and "nfc_keeps_slash app" and "tget (nodes tx) k = Some n"
  shows "\<exists>as. ancestors tx (ancestor_fuel tx) (n_parent n) = Inr as \<and> length as \<le> 32 \<and>
     (\<forall>a \<in> set as. \<exists>m. tget (nodes tx) a = Some m) \<and> (n_parent n \<noteq> None \<longrightarrow> last as = sys_root app)"
proof (cases "n_parent n")
  case (Some p)
  have tree: "tree_ok app tx" using fs_machine.reach_inv [OF assms(1)] assms(2,3) by (simp add: fs_ok_def)
  have "depth_le tx 31 p" using tree_okD(3) [OF tree assms(4)] depth_le_child [OF assms(4) Some, of 31] by simp
  from ancestors_depth [OF tree this, of "ancestor_fuel tx"] Some show ?thesis by (auto simp: ancestor_fuel_def)
qed simp

theorem ancestors_end_witness:
  "\<exists>tx n. reach (fs_start sample_app) (fs_step sample_app) tx \<and> tget (nodes tx) (dec_digits (Suc 3)) = Some n \<and>
     (\<exists>as. ancestors tx (ancestor_fuel tx) (n_parent n) = Inr as \<and> length as \<le> 32 \<and> last as = dec_digits 2)"
proof -
  obtain tx u p where tx: "initialize sample_app False False u p empty_db = Inr (sys_root sample_app, tx)"
    using sample_start by (auto simp: fs_start_def)
  then have r: "reach (fs_start sample_app) (fs_step sample_app) tx" by (intro reach_start) (auto simp: fs_start_def)
  obtain n where n: "tget (nodes tx) (dec_digits (Suc 3)) = Some n" "n_parent n \<noteq> None"
    using initialize_Inr(5) [OF tx] by (simp add: fresh_dir_def)
  from ancestors_end [OF r sample_hyps n(1)] n r show ?thesis by auto
qed

end
