(* ===== verification/Account_Machine.thy ===== *)
theory Account_Machine
  imports Rpc Tree_Machine
begin

text \<open>
  The accounts as a machine: users, groups and sessions from a fresh installation on, under every command that changes
  them. Commands that leave the three tables alone are covered by \<open>accounts_kept\<close>. The invariant is what the code
  takes for granted when it reads a row.
\<close>

section \<open>The invariant\<close>

definition user_ok :: "app \<Rightarrow> db \<Rightarrow> string \<Rightarrow> user_rec \<Rightarrow> bool" where
  "user_ok app tx k u \<longleftrightarrow> u_id u = k \<and> issued app tx k \<and> name_ok (u_username u) \<and> (u_admin u \<longrightarrow> \<not> u_disabled u) \<and> tget (groups tx) k \<noteq> None"

definition group_ok :: "app \<Rightarrow> db \<Rightarrow> string \<Rightarrow> group_rec \<Rightarrow> bool" where
  "group_ok app tx k g \<longleftrightarrow> g_id g = k \<and> issued app tx k \<and> distinct (g_members g) \<and> (\<forall>u \<in> set (g_members g). tget (users tx) u \<noteq> None)"

definition accounts_ok :: "app \<Rightarrow> db \<Rightarrow> bool" where
  "accounts_ok app tx \<longleftrightarrow>
     (\<forall>k u. tget (users tx) k = Some u \<longrightarrow> user_ok app tx k u) \<and>
     (\<forall>j k u v. tget (users tx) j = Some u \<longrightarrow> tget (users tx) k = Some v \<longrightarrow> u_username u = u_username v \<longrightarrow> j = k) \<and>
     (\<forall>k g. tget (groups tx) k = Some g \<longrightarrow> group_ok app tx k g) \<and>
     (\<forall>k s. tget (sessions tx) k = Some s \<longrightarrow> s_id s = k \<and> tget (users tx) (s_user s) \<noteq> None)"

definition accounts_kept :: "db \<Rightarrow> db \<Rightarrow> bool" where
  "accounts_kept tx tx' \<longleftrightarrow> users tx' = users tx \<and> groups tx' = groups tx \<and> sessions tx' = sessions tx \<and> uid_count tx \<le> uid_count tx'"

lemma accounts_okD:
  assumes "accounts_ok app tx"
  shows "tget (users tx) k = Some u \<Longrightarrow> user_ok app tx k u"
    "tget (users tx) j = Some u \<Longrightarrow> tget (users tx) k = Some v \<Longrightarrow> u_username u = u_username v \<Longrightarrow> j = k"
    "tget (groups tx) k = Some g \<Longrightarrow> group_ok app tx k g"
    "tget (sessions tx) k = Some s \<Longrightarrow> s_id s = k \<and> tget (users tx) (s_user s) \<noteq> None"
  using assms unfolding accounts_ok_def by blast+

lemma accounts_ok_keyed: "accounts_ok app tx \<Longrightarrow> accounts_keyed tx"
  by (simp add: accounts_ok_def accounts_keyed_def keyed_def user_ok_def group_ok_def)

text \<open>A change that keeps the names and only adds rows or replaces them by sound ones.\<close>

lemma accounts_ok_grow:
  assumes ok: "accounts_ok app tx" and ids: "uid_count tx \<le> uid_count tx'"
    and keep: "\<And>k. tget (users tx) k \<noteq> None \<Longrightarrow> tget (users tx') k \<noteq> None" "\<And>k. tget (groups tx) k \<noteq> None \<Longrightarrow> tget (groups tx') k \<noteq> None"
    and users: "\<And>k u. tget (users tx') k = Some u \<Longrightarrow> tget (users tx) k = Some u \<or> user_ok app tx' k u"
    and names: "\<And>j k u v. tget (users tx') j = Some u \<Longrightarrow> tget (users tx') k = Some v \<Longrightarrow> u_username u = u_username v \<Longrightarrow> j = k"
    and groups: "\<And>k g. tget (groups tx') k = Some g \<Longrightarrow> tget (groups tx) k = Some g \<or> group_ok app tx' k g"
    and sessions: "\<And>k s. tget (sessions tx') k = Some s \<Longrightarrow> (\<exists>s0. tget (sessions tx) k = Some s0 \<and> s_id s = s_id s0 \<and> s_user s = s_user s0) \<or>
       s_id s = k \<and> tget (users tx') (s_user s) \<noteq> None"
  shows "accounts_ok app tx'"
  unfolding accounts_ok_def
proof (intro conjI allI impI)
  show "user_ok app tx' k u" if "tget (users tx') k = Some u" for k u
    using users [OF that] accounts_okD(1) [OF ok] keep(2) issued_mono [OF _ ids] by (auto simp: user_ok_def)
  show "group_ok app tx' k g" if "tget (groups tx') k = Some g" for k g
    using groups [OF that] accounts_okD(3) [OF ok] keep(1) issued_mono [OF _ ids] by (auto simp: group_ok_def)
  show "s_id s = k" "tget (users tx') (s_user s) \<noteq> None" if "tget (sessions tx') k = Some s" for k s
    using sessions [OF that] accounts_okD(4) [OF ok] keep(1) by auto
qed (fact names)

lemma accounts_ok_kept: "accounts_kept tx tx' \<Longrightarrow> accounts_ok app tx \<Longrightarrow> accounts_ok app tx'"
  by (rule accounts_ok_grow) (auto simp: accounts_kept_def dest: accounts_okD)

section \<open>The commands\<close>

lemma CreateUser_accounts:
  assumes "CreateUser app user username password tx = Inr (m, tx')" and ok: "accounts_ok app tx" and ids: "ids_distinct app"
  shows "accounts_ok app tx'"
proof -
  let ?i = "uidgen app (uid_count tx)"
  have name: "name_ok username" and new: "\<And>k u. tget (users tx) k = Some u \<Longrightarrow> u_username u \<noteq> username"
    and count: "uid_count tx' = uid_count tx + 3"
    and U: "users tx' = tput ?i \<lparr>u_id = ?i, u_username = username, u_password = pw_hash app (Suc (uid_count tx)) password, u_disabled = False,
      u_admin = False, u_revision = 1\<rparr> (users tx)"
    and G: "groups tx' = tput ?i \<lparr>g_id = ?i, g_name = username, g_members = [?i], g_revision = 1\<rparr> (groups tx)"
    and S: "sessions tx' = sessions tx"
    using assms(1) by (auto simp: CreateUser_def run Let_def case_prod_beta password_hash_def new_node_def uid_def bump_def list_ex_iff in_tall_iff)
  have i: "issued app tx' ?i" by (auto simp: issued_def count)
  have free: "\<not> issued app tx ?i" using ids by (auto simp: issued_def ids_distinct_def inj_eq)
  then have none: "tget (users tx) ?i = None" using accounts_okD(1) [OF ok, of "?i"] by (cases "tget (users tx) ?i") (auto simp: user_ok_def)
  show ?thesis
  proof (rule accounts_ok_grow [OF ok])
    show "j = k" if "tget (users tx') j = Some u" "tget (users tx') k = Some v" "u_username u = u_username v" for j k u v
      using that new [of j u] new [of k v] accounts_okD(2) [OF ok, of j u k v] by (auto simp: U split: if_splits)
  qed (use i name in \<open>auto simp: U G S count user_ok_def group_ok_def split: if_splits\<close>)
qed

lemma SetUser_accounts:
  assumes "SetUser user i disabled expected tx = Inr (m, tx')" and ok: "accounts_ok app tx"
  shows "accounts_ok app tx'"
proof -
  from assms(1) obtain t where t: "tget (users tx) i = Some t" "\<not> u_admin t"
    and tx': "tx' = put_user (t\<lparr>u_disabled := disabled, u_revision := expected + 1\<rparr>) (if disabled then revoke_sessions (u_id t) tx else tx)"
    unfolding SetUser_Inr by blast
  have keyed: "keyed s_id (sessions tx)" using accounts_ok_keyed [OF ok] by (simp add: accounts_keyed_def)
  have u: "user_ok app tx i t" "u_id t = i" using accounts_okD(1) [OF ok t(1)] by (simp_all add: user_ok_def)
  show ?thesis
  proof (rule accounts_ok_grow [OF ok])
    show "j = k" if "tget (users tx') j = Some u" "tget (users tx') k = Some v" "u_username u = u_username v" for j k u v
      using that accounts_okD(2) [OF ok] t(1) u(2) by (auto simp: tx' revoke_sessions_frame split: if_splits)
  qed (use t u keyed in \<open>auto simp: tx' frame user_ok_def issued_def tget_revoke_sessions split: if_splits\<close>)
qed

lemma ChangePassword_accounts:
  assumes "ChangePassword app user i password expected tx = Inr (m, tx')" and ok: "accounts_ok app tx"
  shows "accounts_ok app tx'"
proof (rule ChangePassword_Inr [OF assms(1)])
  fix t
  assume t: "tget (users tx) i = Some t" and tx': "tx' = revoke_sessions (u_id t) (put_user (t\<lparr>u_password := pw_hash app (uid_count tx) password,
        u_revision := expected + 1\<rparr>) (tx\<lparr>uid_count := Suc (uid_count tx)\<rparr>))"
  have keyed: "keyed s_id (sessions tx)" using accounts_ok_keyed [OF ok] by (simp add: accounts_keyed_def)
  have u: "user_ok app tx i t" "u_id t = i" using accounts_okD(1) [OF ok t(1)] by (simp_all add: user_ok_def)
  show "accounts_ok app tx'"
  proof (rule accounts_ok_grow [OF ok])
    show "j = k" if "tget (users tx') j = Some u" "tget (users tx') k = Some v" "u_username u = u_username v" for j k u v
      using that accounts_okD(2) [OF ok] t(1) u(2) by (auto simp: tx' revoke_sessions_frame split: if_splits)
  qed (use t u keyed in \<open>auto simp: tx' frame user_ok_def issued_def tget_revoke_sessions split: if_splits\<close>)
qed

lemma group_accounts:
  assumes ok: "accounts_ok app tx" and same: "users tx' = users tx" "sessions tx' = sessions tx" "uid_count tx \<le> uid_count tx'"
    and g: "groups tx' = tput (g_id g) g (groups tx)" "group_ok app tx' (g_id g) g"
  shows "accounts_ok app tx'"
  by (rule accounts_ok_grow [OF ok]) (use same g accounts_okD [OF ok] in \<open>auto split: if_splits\<close>)

lemma CreateGroup_accounts:
  assumes "CreateGroup app user name tx = Inr (m, tx')" and "accounts_ok app tx"
  shows "accounts_ok app tx'"
  using assms(1) by (intro group_accounts [OF assms(2), where g = "\<lparr>g_id = uidgen app (uid_count tx), g_name = name, g_members = [], g_revision = 1\<rparr>"])
    (auto simp: CreateGroup_def run Let_def uid_def group_ok_def issued_def)

lemma SetGroupMembers_accounts:
  assumes "SetGroupMembers user i ids expected tx = Inr (m, tx')" and ok: "accounts_ok app tx"
  shows "accounts_ok app tx'"
proof -
  from assms(1) obtain g where g: "tget (groups tx) i = Some g" "distinct ids" "list_all (\<lambda>u. tget (users tx) u \<noteq> None) ids"
    and tx': "tx' = put_group (g\<lparr>g_members := ids, g_revision := g_revision g + 1\<rparr>) tx"
    by (auto simp: SetGroupMembers_def run Let_def)
  show ?thesis
    using g accounts_okD(3) [OF ok g(1)] by (intro group_accounts [OF ok, where g = "g\<lparr>g_members := ids, g_revision := g_revision g + 1\<rparr>"])
      (auto simp: tx' group_ok_def issued_def list_all_iff)
qed

lemma session_accounts:
  assumes ok: "accounts_ok app tx" and same: "users tx' = users tx" "groups tx' = groups tx" "uid_count tx \<le> uid_count tx'"
    and s: "sessions tx' = tput (s_id s) s (sessions tx)" "tget (users tx) (s_user s) \<noteq> None"
  shows "accounts_ok app tx'"
  by (rule accounts_ok_grow [OF ok]) (use same s accounts_okD [OF ok] in \<open>auto split: if_splits\<close>)

lemma Logout_accounts:
  assumes "Logout session cx i tx = Inr (m, tx')" and "authenticate app' tx token = Inr (user, session)" and ok: "accounts_ok app tx"
  shows "accounts_ok app tx'"
  using assms(1,2) by (intro session_accounts [OF ok, where s = "session\<lparr>s_revoked := True\<rparr>"]) (auto simp: Logout_def run authenticate_Inr)

lemma login_rates_accounts: "login_rates app username tx = Inr tx' \<Longrightarrow> accounts_kept tx tx'"
  by (auto simp: login_rates_def count_rate_def accounts_kept_def run Let_def split: if_splits)

lemma login_issue_accounts:
  assumes "login_issue app decode encode lid token user tx = Inr (m, tx')" and ok: "accounts_ok app tx"
  shows "accounts_ok app tx'"
proof (cases "sessions tx' = sessions tx")
  case True
  with assms show ?thesis
    by (intro accounts_ok_kept [OF _ ok]) (auto simp: login_issue_def accounts_kept_def run Let_def uid_def split: if_splits option.splits)
next
  case False
  with assms(1) show ?thesis
    by (intro session_accounts [OF ok, where s = "\<lparr>s_id = hex (sha256 app token), s_session_id = uidgen app (uid_count tx), s_user = u_id user,
           s_expires = now_ms app + 3600000, s_revoked = False\<rparr>"])
       (auto simp: login_issue_def run Let_def uid_def split: if_splits option.splits)
qed

lemma Login_accounts:
  assumes "Login app decode encode others request_id username password token tx = (r, tx')" and ok: "accounts_ok app tx"
    and others: "\<And>i t. accounts_ok app t \<Longrightarrow> accounts_ok app (others i t)"
  shows "accounts_ok app tx'"
proof (cases "bindr (uuid request_id) (\<lambda>_. need (1 \<le> length username \<and> length username \<le> 64 \<and> length password \<le> 1024) UNAUTHENTICATED (
           login_rates app username tx))")
  case (Inl e)
  with assms show ?thesis by (simp add: Login_def)
next
  case (Inr tx1)
  then have "login_rates app username tx = Inr tx1" by (auto simp: run)
  then have ok1: "accounts_ok app tx1" using login_rates_accounts accounts_ok_kept [OF _ ok] by blast
  from assms(1) Inr consider "tx' = others 0 tx1" | "tx' = others 1 (others 0 tx1)"
    | user lid m where "login_issue app decode encode lid token user (others 1 (others 0 tx1)) = Inr (m, tx')"
    by (auto simp: Login_def Let_def split: sum.splits prod.splits)
  then show ?thesis using ok1 others login_issue_accounts by cases blast+
qed

lemma initialize_accounts:
  assumes "initialize app False False username password empty_db = Inr (r0, tx)"
  shows "accounts_ok app tx"
  using assms by (auto simp: initialize_def run Let_def password_hash_def new_node_def uid_def empty_db_def accounts_ok_def user_ok_def group_ok_def issued_def
      split: if_splits)

section \<open>The machine\<close>

inductive account_command :: "app \<Rightarrow> db \<Rightarrow> db \<Rightarrow> bool" for app where
  "CreateUser app user username password tx = Inr (m, tx') \<Longrightarrow> account_command app tx tx'"
| "SetUser user i disabled expected tx = Inr (m, tx') \<Longrightarrow> account_command app tx tx'"
| "ChangePassword app user i password expected tx = Inr (m, tx') \<Longrightarrow> account_command app tx tx'"
| "CreateGroup app user name tx = Inr (g, tx') \<Longrightarrow> account_command app tx tx'"
| "SetGroupMembers user i ids expected tx = Inr (g, tx') \<Longrightarrow> account_command app tx tx'"
| "authenticate app tx token = Inr (user, session) \<Longrightarrow> Logout session cx i tx = Inr (r, tx') \<Longrightarrow> account_command app tx tx'"
| "login_rates app username tx = Inr tx' \<Longrightarrow> account_command app tx tx'"
| "login_issue app decode encode lid token user tx = Inr (s, tx') \<Longrightarrow> account_command app tx tx'"
| "accounts_kept tx tx' \<Longrightarrow> account_command app tx tx'"

definition account_step :: "app \<Rightarrow> db \<Rightarrow> db \<Rightarrow> bool" where
  "account_step app tx tx' \<longleftrightarrow> (\<exists>app'. same_system app app' \<and> account_command app' tx tx')"

lemma account_command_ok: "account_command app tx tx' \<Longrightarrow> ids_distinct app \<Longrightarrow> accounts_ok app tx \<Longrightarrow> accounts_ok app tx'"
  by (induction rule: account_command.induct)
     (blast intro: CreateUser_accounts SetUser_accounts ChangePassword_accounts CreateGroup_accounts SetGroupMembers_accounts Logout_accounts
       login_rates_accounts login_issue_accounts accounts_ok_kept)+

lemma same_system_accounts: "same_system app app' \<Longrightarrow> accounts_ok app' tx \<longleftrightarrow> accounts_ok app tx"
  by (simp add: same_system_def accounts_ok_def user_ok_def group_ok_def issued_def)

interpretation account_machine: safe_machine "fs_start app" "account_step app" "\<lambda>tx. ids_distinct app \<longrightarrow> accounts_ok app tx" for app
proof
  show "ids_distinct app \<longrightarrow> accounts_ok app s" if "fs_start app s" for s
    using that initialize_accounts by (auto simp: fs_start_def)
  show "ids_distinct app \<longrightarrow> accounts_ok app s'" if "ids_distinct app \<longrightarrow> accounts_ok app s" "account_step app s s'" for s s'
    using that account_command_ok same_system_accounts same_system_hyps(1) unfolding account_step_def by blast
qed

section \<open>Properties\<close>

text \<open>
  C17. The account tables are well formed in every reachable state. From a fresh installation, whatever account commands and
  units of work of logins run in whatever order: every row is stored under its identifier; user names are valid and unique; every
  user has a group of the same identifier; the members of a group are distinct existing users; every session belongs to an
  existing user; and an administrator is never disabled.
\<close>

theorem reachable_accounts:
  assumes "reach (fs_start app) (account_step app) tx" and "ids_distinct app"
  shows "accounts_ok app tx"
  using account_machine.reach_inv [OF assms(1)] assms(2) by blast

lemma account_sample:
  "\<exists>tx u. fs_start sample_app tx \<and> tget (users tx) (dec_digits 1) = Some u \<and> u_revision u = 1 \<and> (\<forall>g \<in> set (tall (groups tx)). g_name g = ''ana'')"
proof -
  have "name_ok ''ana''" by code_simp
  then have "\<exists>tx u. initialize sample_app False False ''ana'' ''a long password'' empty_db = Inr (dec_digits 2, tx) \<and>
      tget (users tx) (dec_digits 1) = Some u \<and> u_revision u = 1 \<and> (\<forall>g \<in> set (tall (groups tx)). g_name g = ''ana'')"
    by (simp add: initialize_def password_hash_def new_node_def uid_def Let_def numeral_2_eq_2 empty_db_def) (auto simp: in_tall_iff split: if_splits)
  then show ?thesis by (auto simp: fs_start_def)
qed

theorem reachable_accounts_witness:
  "\<exists>tx tx' m. reach (fs_start sample_app) (account_step sample_app) tx \<and> CreateGroup sample_app sample_user ''staff'' tx = Inr (m, tx') \<and>
     accounts_ok sample_app tx'"
proof -
  obtain tx where start: "fs_start sample_app tx" and g: "\<forall>g \<in> set (tall (groups tx)). g_name g = ''ana''" using account_sample by blast
  from start have r: "reach (fs_start sample_app) (account_step sample_app) tx" by (rule reach_start)
  have name: "name_ok ''staff''" by code_simp
  obtain m tx' where c: "CreateGroup sample_app sample_user ''staff'' tx = Inr (m, tx')"
    using name g by (auto simp: CreateGroup_def need_def guardr_def Let_def uid_def list_ex_iff)
  then have "account_step sample_app tx tx'" unfolding account_step_def
    by (intro exI [of _ sample_app]) (auto simp: same_system_def intro: account_command.intros)
  from reachable_accounts [OF reach_step [OF r this] sample_hyps(1)] r c show ?thesis by blast
qed

text \<open>
  C20. A changed password or a disabled account ends every session. After \<^verbatim>\<open>ChangePassword\<close> for a user, or \<^verbatim>\<open>SetUser\<close> that disables one,
  no token issued before is accepted for that user, at whatever time it is presented.
\<close>

theorem sessions_end:
  assumes "accounts_ok app tx"
    and "ChangePassword app user i password expected tx = Inr (m, tx') \<or> SetUser user i True expected tx = Inr (m, tx')"
  shows "\<nexists>token u s. authenticate app' tx' token = Inr (u, s) \<and> u_id u = i"
proof -
  have keyed: "keyed s_id (sessions tx)" "keyed u_id (users tx)" using accounts_ok_keyed [OF assms(1)] by (simp_all add: accounts_keyed_def)
  from assms(2) obtain t U tx1 where t: "tget (users tx) i = Some t" and tx': "tx' = (revoke_sessions (u_id t) tx1)\<lparr>users := U\<rparr>"
    and U: "keyed u_id U" and s: "sessions tx1 = sessions tx"
  proof (elim disjE)
    assume "ChangePassword app user i password expected tx = Inr (m, tx')"
    then show thesis
    proof (rule ChangePassword_Inr)
      fix t
      let ?tx = "put_user (t\<lparr>u_password := pw_hash app (uid_count tx) password, u_revision := expected + 1\<rparr>) (tx\<lparr>uid_count := Suc (uid_count tx)\<rparr>)"
      assume "tget (users tx) i = Some t" "tx' = revoke_sessions (u_id t) ?tx"
      then show thesis using that [of t "users ?tx" ?tx] keyed(2) by (simp add: revoke_sessions_alt keyed_tput)
    qed
  next
    assume "SetUser user i True expected tx = Inr (m, tx')"
    then obtain t where "tget (users tx) i = Some t"
      "tx' = put_user (t\<lparr>u_disabled := True, u_revision := expected + 1\<rparr>) (revoke_sessions (u_id t) tx)" by (auto simp: SetUser_Inr)
    then show thesis using that [of t _ tx] keyed(2) by (simp add: frame keyed_tput)
  qed
  have "u_id t = i" using keyedD [OF keyed(2) t] .
  then show ?thesis using revoke_sessions_locks_out [of tx1 U] keyed(1) s U tx' by metis
qed

theorem sessions_end_witness:
  "\<exists>tx m tx'. ChangePassword sample_app sample_user (dec_digits 1) ''another password'' 1 tx = Inr (m, tx') \<and>
     (\<nexists>token u s. authenticate sample_app tx' token = Inr (u, s) \<and> u_id u = dec_digits 1)"
proof -
  obtain tx u where start: "fs_start sample_app tx" and u: "tget (users tx) (dec_digits 1) = Some u" "u_revision u = 1" using account_sample by blast
  have ok: "accounts_ok sample_app tx" using start initialize_accounts by (auto simp: fs_start_def)
  obtain m tx' where c: "ChangePassword sample_app sample_user (dec_digits 1) ''another password'' 1 tx = Inr (m, tx')"
    using u by (simp add: ChangePassword_def password_hash_def Let_def)
  from sessions_end [OF ok disjI1 [OF c]] c show ?thesis by blast
qed

end
