(* ===== verification/Control_Properties.thy ===== *)
theory Control_Properties
  imports Draft_Machine Collection Account_Machine
begin

text \<open>
  Properties of the control node that concern one command: what an answer repeats, what a permission is, where copies go, and
  two inputs that end in an exception of Python instead of an answer.
\<close>

section \<open>Permissions\<close>

text \<open>
  C18. The permission check, bit by bit. \<^verbatim>\<open>require\<close> lets a user pass exactly when the user is an administrator (for contents only where
  contents are not strict, otherwise only to cross a directory), or when each requested bit is granted by the class of mode bits the user falls into
  (owner, else owning group, else others) or by an entry of the access list that names the user or one of the user's groups.
\<close>

theorem require_by_bits:
  "require app tx user node bits = Inr u \<longleftrightarrow>
     u_admin user \<and> (\<not> strict_content app \<or> n_directory node \<and> bits = 1) \<or>
     {i. bit bits i} \<subseteq> {i. i < 3 \<and> bit (n_mode node)
         ((if n_owner node = u_id user then 6 else if n_group node \<in> set (groups_of tx user) then 3 else 0) + i)} \<union>
       {i. \<exists>e. e \<in> set (n_acl node) \<and> bit (ae_permissions e) i \<and>
         (if ae_is_group e then ae_principal e \<in> set (groups_of tx user) else ae_principal e = u_id user)}"
proof -
  have applies: "acl_applies user gs e = (if ae_is_group e then ae_principal e \<in> set gs else ae_principal e = u_id user)" for gs e
    by (auto simp: acl_applies_def)
  have "allowed_bits tx user node AND bits = bits \<longleftrightarrow> {i. bit bits i} \<subseteq> {i. bit (allowed_bits tx user node) i}"
    unfolding and_eq_iff_bits by auto
  also have "{i. bit (allowed_bits tx user node) i} = {i. i < 3 \<and> bit (n_mode node)
         ((if n_owner node = u_id user then 6 else if n_group node \<in> set (groups_of tx user) then 3 else 0) + i)} \<union>
       {i. \<exists>e. e \<in> set (n_acl node) \<and> bit (ae_permissions e) i \<and>
         (if ae_is_group e then ae_principal e \<in> set (groups_of tx user) else ae_principal e = u_id user)}"
    unfolding bit_allowed_bits class_shift_def applies by blast
  finally show ?thesis unfolding require_Inr by simp
qed

text \<open>An ordinary user reads a file of mode \<^verbatim>\<open>0o640\<close> that the user owns; another user does not.\<close>

theorem require_by_bits_witness:
  "require sample_app empty_db (sample_user\<lparr>u_admin := False\<rparr>) (sample_file\<lparr>n_mode := 416\<rparr>) 4 = Inr () \<and>
   require sample_app empty_db (sample_user\<lparr>u_admin := False, u_id := ''v''\<rparr>) (sample_file\<lparr>n_mode := 416\<rparr>) 4 \<noteq> Inr ()"
proof -
  have four: "bit (4 :: nat) i \<longleftrightarrow> i = 2" for i using bit_exp_iff [of 2 i, where 'a = nat] by (auto simp: numeral_eq_Suc)
  have "bit (416 :: nat) 8" "\<not> bit (416 :: nat) 2" by code_simp+
  then show ?thesis unfolding require_by_bits four by (simp add: sample_file_def groups_of_def empty_db_def)
qed

section \<open>Repeated requests\<close>









section \<open>Places of copies\<close>

lemma pick_domains_Inr:
  assumes "pick_domains app r ds (domains, dests) = Inr (domains', dests')"
    and "map_res (domain_of app) (a # dests) = Inr domains" "distinct domains" "int (length domains) \<le> max 1 r"
  shows "map_res (domain_of app) (a # dests') = Inr domains' \<and> distinct domains' \<and> int (length domains') \<le> max 1 r \<and> set dests' \<subseteq> set dests \<union> dn_id ` set ds"
  using assms
proof (induction ds arbitrary: domains dests)
  case (Cons d ds)
  from Cons.prems(1) obtain dom where dom: "domain_of app (dn_id d) = Inr dom" by (auto simp: run)
  show ?case
  proof (cases "dom \<notin> set domains \<and> int (length domains) < r")
    case True
    have "list_all2 (\<lambda>x y. domain_of app x = Inr y) ((a # dests) @ [dn_id d]) (domains @ [dom])"
      using Cons.prems(2) dom unfolding map_res_Inr by (intro list_all2_appendI) auto
    then have "map_res (domain_of app) (a # dests @ [dn_id d]) = Inr (domains @ [dom])" by (simp only: map_res_Inr append_Cons)
    with True Cons.prems Cons.IH [of "domains @ [dom]" "dests @ [dn_id d]"] dom show ?thesis by auto
  next
    case False
    with Cons.prems Cons.IH [of domains dests] dom show ?thesis by auto
  qed
qed simp

text \<open>
  C19. Copies are planned on different failure domains with room. When the further copies of a new block are reserved, the node that has the block and the
  chosen destinations lie in pairwise different failure domains, at least as many as a write needs and at most as many as the policy asks for, and
  every destination is a registered ready node with room for the copy beside all that is reserved on it.
\<close>

theorem replicas_apart:
  assumes "reserve_replicas app block bd p tx = Inr tx'" and "tget (replica_plans tx) (br_version block) = None"
  shows "\<exists>a rp domains. tget (assignments tx) (br_version block) = Some a \<and> tget (replica_plans tx') (br_version block) = Some rp \<and>
     map_res (domain_of app) (as_node a # rp_destinations rp) = Inr domains \<and> distinct domains \<and>
     p_w p \<le> int (length domains) \<and> int (length domains) \<le> max 1 (p_r p) \<and>
     set (rp_destinations rp) \<subseteq> dn_id ` {d. (\<exists>k. tget (datanodes tx) k = Some d) \<and> node_state app (Some d) = READY \<and>
       fst (usage app tx d) + snd (usage app tx d) + storage_cost (br_size block) \<le> dn_capacity d}"
proof -
  let ?fit = "filter (fits app tx (storage_cost (br_size block))) (tall (datanodes tx))"
  from assms obtain a own and f :: "datanode_rec \<Rightarrow> rat \<times> int \<times> string" and domains dests where a: "tget (assignments tx) (br_version block) = Some a" "domain_of app (as_node a) = Inr own"
    and pick: "pick_domains app (p_r p) (sort_key f ?fit) ([own], []) = Inr (domains, dests)" and "p_w p \<le> int (length domains)"
    and rp: "tget (replica_plans tx') (br_version block) = Some \<lparr>rp_id = br_version block, rp_operation = bd_id bd, rp_destinations = dests, rp_reserved = storage_cost (br_size block)\<rparr>"
    by (auto simp: reserve_replicas_def run Let_def)
  moreover have "map_res (domain_of app) [as_node a] = Inr [own]" using a(2) by simp
  note pick_domains_Inr [OF pick this]
  moreover have "dn_id ` set ?fit \<subseteq> dn_id ` {d. (\<exists>k. tget (datanodes tx) k = Some d) \<and> node_state app (Some d) = READY \<and>
       fst (usage app tx d) + snd (usage app tx d) + storage_cost (br_size block) \<le> dn_capacity d}"
    by (auto simp: fits_def in_tall_iff case_prod_beta Let_def)
  ultimately show ?thesis by (intro exI [of _ a] exI conjI) (assumption | simp | blast)+
qed

definition spread_node :: "string \<Rightarrow> datanode_rec" where
  "spread_node i = \<lparr>dn_id = i, dn_location = \<lparr>bl_node = i, bl_generation = 1, bl_client = '''', bl_private = '''', bl_domain = i\<rparr>,
     dn_capacity = 100000000, dn_free = 100000000, dn_used = 0, dn_seen = 1000, dn_sequence = 1, dn_reconciled = True, dn_inventory = '''', dn_page = 0,
     dn_active = 0, dn_disabled = False, dn_digest = None, dn_counters = [], dn_report_pages = []\<rparr>"

definition spread_app :: app where
  "spread_app = sample_app\<lparr>profile := REPLICATED,
     allowed := map (\<lambda>i. (i, \<lparr>al_identity = i, al_client = '''', al_private = '''', al_domain = ''rack-'' @ i, al_capacity = 100000000\<rparr>)) [''a'', ''b'']\<rparr>"

definition spread_block :: block_ref where
  "spread_block = \<lparr>br_file = ''f'', br_version = ''v'', br_index = 0, br_size = 3, br_sha = ''''\<rparr>"

definition spread_db :: db where
  "spread_db = empty_db\<lparr>datanodes := tput ''a'' (spread_node ''a'') (tput ''b'' (spread_node ''b'') tempty),
     assignments := tput ''v'' \<lparr>as_id = ''v'', as_node = ''a'', as_operation = ''o'', as_generation = 1, as_reserved = 5000\<rparr> tempty\<rparr>"

definition spread_policy :: policy_rec where
  "spread_policy = \<lparr>p_id = ''f'', p_r = 3, p_w = 2, p_revision = 1, p_state = ACTIVE, p_until = 0\<rparr>"

definition spread_binding :: binding where
  "spread_binding = \<lparr>bd_id = ''o'', bd_session = ''s'', bd_expires = 5000, bd_reserved = 0, bd_file = ''f'', bd_based = False\<rparr>"

theorem replicas_apart_witness:
  "\<exists>tx' rp domains. reserve_replicas spread_app spread_block spread_binding spread_policy spread_db = Inr tx' \<and>
     tget (replica_plans tx') ''v'' = Some rp \<and> map_res (domain_of spread_app) (''a'' # rp_destinations rp) = Inr domains \<and> distinct domains \<and> 2 \<le> length domains"
proof -
  have "\<not> isl (reserve_replicas spread_app spread_block spread_binding spread_policy spread_db)" by code_simp
  then obtain tx' where r: "reserve_replicas spread_app spread_block spread_binding spread_policy spread_db = Inr tx'"
    by (cases "reserve_replicas spread_app spread_block spread_binding spread_policy spread_db") auto
  have "tget (replica_plans spread_db) (br_version spread_block) = None" by (simp add: spread_db_def empty_db_def)
  from replicas_apart [OF r this] obtain a rp domains where "tget (assignments spread_db) ''v'' = Some a" "tget (replica_plans tx') ''v'' = Some rp"
    "map_res (domain_of spread_app) (as_node a # rp_destinations rp) = Inr domains" "distinct domains" "p_w spread_policy \<le> int (length domains)"
    by (auto simp: spread_block_def)
  with r show ?thesis by (auto simp: spread_db_def spread_policy_def)
qed

section \<open>Inputs that end in an exception\<close>

text \<open>
  C35. Opening the root directory for writing is answered with an internal error. With leases, \<^verbatim>\<open>Open\<close> of a path that resolves to the root, in a mode that truncates, subscripts
  the parent the root does not have; other directories are refused with \<^verbatim>\<open>IS_DIRECTORY\<close>.
\<close>

theorem open_root_breaks:
  assumes "has_leases app" and "resolve app tx user path = Inr node" and "n_parent node = None"
    and "mode \<in> {MODE_W, MODE_W_PLUS}" and "handle_quota app tx user" and "tget (policies tx) (n_id node) = None"
  shows "Open app user session path mode tx = Inl TypeError"
proof -
  have "access_Open app user session path mode tx = Inl TypeError"
    using assms(2-5) by (auto simp: access_Open_def open_create_def resolve_opt_def need_def guardr_def deref_def READ_MODES_def WRITE_MODES_def)
  then show ?thesis
    using assms by (auto simp: Open_def protection_Open_def has_leases_def resolve_opt_def policy_def need_def guardr_def Let_def WRITE_MODES_def
        split: profile.split)
qed

definition root_db :: db where
  "root_db = empty_db\<lparr>nodes := tput (dec_digits 2) up_root tempty\<rparr>"

theorem open_root_breaks_witness:
  "Open (sample_app\<lparr>profile := RF3\<rparr>) sample_user sample_session \<lparr>pf_path = ''/'', pf_cwd_path = '''', pf_cwd_id = ''''\<rparr> MODE_W root_db = Inl TypeError"
proof (rule open_root_breaks [where node = up_root])
  show "resolve (sample_app\<lparr>profile := RF3\<rparr>) root_db sample_user \<lparr>pf_path = ''/'', pf_cwd_path = '''', pf_cwd_id = ''''\<rparr> = Inr up_root"
    by code_simp
qed (simp_all add: has_leases_def up_root_def handle_quota_def root_db_def empty_db_def)

text \<open>
  C36. Committing an operation that does not exist. Every profile but one answers with an error of the program; where commits are versioned but not
  replicated, \<^verbatim>\<open>CommitUpload\<close> subscripts the missing row.
\<close>

theorem commit_unknown:
  assumes "tget (uploads tx) (or_id reference) = None"
  shows "CommitUpload app user session reference fence seal tx =
     Inl (case profile app of RF3 \<Rightarrow> TypeError | REPLICATED \<Rightarrow> Fault NOT_FOUND | _ \<Rightarrow> Fault PERMISSION_DENIED)"
  using assms
  by (auto simp: CommitUpload_def base_CommitUpload_def cluster_CommitUpload_def access_CommitUpload_def protection_CommitUpload_def validate_policy_def
      operation_def access_operation_def base_operation_def has_leases_def need_some_def deref_def split: profile.split)

theorem commit_unknown_witness:
  "CommitUpload (sample_app\<lparr>profile := RF3\<rparr>) sample_user sample_session up_ref up_fence up_seal empty_db = Inl TypeError"
  using commit_unknown [of empty_db up_ref "sample_app\<lparr>profile := RF3\<rparr>"] by (simp add: empty_db_def)

end
