(* ===== verification/BlockStore.thy ===== *)
theory BlockStore
  imports Json "HOL-Library.Multiset"
begin

text \<open>
  The encrypted block store of a DataNode (\<^verbatim>\<open>src/src/dfsha/datanode/blocks.py\<close>) and the local
  admission control (\<^verbatim>\<open>src/src/dfsha/common/local.py\<close>).

  A block is a container \<^verbatim>\<open>DFSHAB01\<close>: a length-prefixed JSON header and length-prefixed AES-GCM
  records, one for each chunk. The disk is a map from (file, block) to the bytes of the container;
  links and the resolution of paths are the operating system's. AES-GCM, AES key wrapping and the
  hash are fields of \<open>crypto\<close>; what the store relies on is \<open>crypto_ok\<close>.
\<close>

section \<open>Framing\<close>

definition MAGIC :: string where "MAGIC = ''DFSHAB01''"

text \<open>\<^verbatim>\<open>struct.pack('>I', n)\<close> for numbers below \<open>2\<^sup>3\<^sup>2\<close>, and its inverse.\<close>

definition be32 :: "nat \<Rightarrow> string" where
  "be32 n = map char_of [n div 16777216 mod 256, n div 65536 mod 256, n div 256 mod 256, n mod 256]"

definition unbe32 :: "string \<Rightarrow> nat" where
  "unbe32 s = foldl (\<lambda>a c. a * 256 + of_char c) 0 s"

record crypto =
  gcm_encrypt :: "string \<Rightarrow> string \<Rightarrow> string \<Rightarrow> string \<Rightarrow> string"
  gcm_decrypt :: "string \<Rightarrow> string \<Rightarrow> string \<Rightarrow> string \<Rightarrow> string option"
  key_wrap :: "string \<Rightarrow> string \<Rightarrow> string"
  key_unwrap :: "string \<Rightarrow> string \<Rightarrow> string option"
  hash :: "string \<Rightarrow> string"

text \<open>
  With 256-bit keys and 12-byte nonces: decryption undoes encryption and the ciphertext carries a
  tag of 16 bytes; unwrapping undoes the wrapping of a 256-bit data key, which adds 8 bytes; a hash
  has 32 bytes.
\<close>

definition crypto_ok :: "crypto \<Rightarrow> bool" where
  "crypto_ok cr \<longleftrightarrow>
     (\<forall>k n a p. length k = 32 \<longrightarrow> length n = 12 \<longrightarrow>
        gcm_decrypt cr k n a (gcm_encrypt cr k n a p) = Some p \<and> length (gcm_encrypt cr k n a p) = length p + 16) \<and>
     (\<forall>k d. length k = 32 \<longrightarrow> length d = 32 \<longrightarrow> key_unwrap cr k (key_wrap cr k d) = Some d \<and> length (key_wrap cr k d) = 40) \<and>
     (\<forall>s. length (hash cr s) = 32)"

section \<open>Containers\<close>

record keyring =
  kr_active :: string
  kr_keys :: "(string \<times> string) list"

text \<open>The keys are found by the hexadecimal hash of the key.\<close>

definition key_id :: "crypto \<Rightarrow> string \<Rightarrow> string" where
  "key_id cr k = hex (hash cr k)"

definition open_keys :: "crypto \<Rightarrow> string \<Rightarrow> string list \<Rightarrow> keyring" where
  "open_keys cr key read_keys =
     \<lparr>kr_active = key, kr_keys = fold (\<lambda>k. dict_put (key_id cr k) k) (key # read_keys) []\<rparr>"

definition header_json :: "crypto \<Rightarrow> string \<Rightarrow> block_ref \<Rightarrow> string \<Rightarrow> string \<Rightarrow> json" where
  "header_json cr key block dek prefix =
     JObj [(''version'', JInt 1), (''file_id'', JStr (br_file block)), (''block_id'', JStr (br_version block)),
       (''size'', JInt (br_size block)), (''block_index'', JInt (br_index block)),
       (''sha256'', JStr (hex (br_sha block))), (''key_id'', JStr (key_id cr key)),
       (''wrapped_dek'', JStr (b64encode (key_wrap cr key dek))), (''nonce_prefix'', JStr (b64encode prefix))]"

definition header :: "crypto \<Rightarrow> string \<Rightarrow> block_ref \<Rightarrow> string \<Rightarrow> string \<Rightarrow> string" where
  "header cr key block dek prefix = canonical (header_json cr key block dek prefix)"

definition sealed_chunk :: "crypto \<Rightarrow> string \<Rightarrow> string \<Rightarrow> string \<Rightarrow> nat \<Rightarrow> string \<Rightarrow> string" where
  "sealed_chunk cr dek prefix hdr index chunk =
     gcm_encrypt cr dek (prefix @ be32 index) (hdr @ be32 index @ be32 (length chunk)) chunk"

fun write_records :: "crypto \<Rightarrow> string \<Rightarrow> string \<Rightarrow> string \<Rightarrow> int \<Rightarrow> nat \<Rightarrow> int \<Rightarrow> string list \<Rightarrow> string res" where
  "write_records cr dek prefix hdr sized index ttl [] = Inr []"
| "write_records cr dek prefix hdr sized index ttl (chunk # chunks) =
     need (0 < length chunk \<and> int (length chunk) \<le> CHUNK \<and> ttl + int (length chunk) \<le> sized) INVALID_ARGUMENT (
     let sealed = sealed_chunk cr dek prefix hdr index chunk in
     bindr (write_records cr dek prefix hdr sized (Suc index) (ttl + int (length chunk)) chunks) (\<lambda>rest.
     Inr (be32 (length sealed) @ sealed @ rest)))"

definition container :: "crypto \<Rightarrow> string \<Rightarrow> block_ref \<Rightarrow> string \<Rightarrow> string \<Rightarrow> string list \<Rightarrow> string res" where
  "container cr key block dek prefix chunks =
     (let hdr = header cr key block dek prefix in
      bindr (write_records cr dek prefix hdr (br_size block) 0 0 chunks) (\<lambda>body.
      need (int (length (concat chunks)) = br_size block \<and> hash cr (concat chunks) = br_sha block) CHECKSUM_MISMATCH (
      Inr (MAGIC @ be32 (length hdr) @ hdr @ body))))"

type_synonym disk = "string \<times> string \<Rightarrow> string option"

definition path :: "string \<Rightarrow> string \<Rightarrow> (string \<times> string) res" where
  "path file_id block_id = bindr (uuid file_id) (\<lambda>f. bindr (uuid block_id) (\<lambda>b. Inr (f, b)))"

definition put :: "crypto \<Rightarrow> keyring \<Rightarrow> block_ref \<Rightarrow> string list \<Rightarrow> string \<Rightarrow> string \<Rightarrow> disk \<Rightarrow> ((nat \<times> string) \<times> disk) res" where
  "put cr kr block chunks dek prefix disk =
     bindr (path (br_file block) (br_version block)) (\<lambda>target.
     bindr (container cr (kr_active kr) block dek prefix chunks) (\<lambda>bytes.
     need (disk target = None) ALREADY_EXISTS (
     Inr ((length bytes, hash cr bytes), disk(target \<mapsto> bytes)))))"

section \<open>Reading\<close>

text \<open>
  A text field of a header object. A missing key is a \<^verbatim>\<open>KeyError\<close>, which the reader turns into
  \<open>DATA_LOSS\<close>; a value of another type raises \<open>TypeError\<close>, which it does not catch.
\<close>

definition str_field :: "(string \<times> json) list \<Rightarrow> string \<Rightarrow> string res" where
  "str_field kvs k =
     (case map_of kvs k of None \<Rightarrow> Inl (Fault DATA_LOSS) | Some (JStr s) \<Rightarrow> Inr s | Some _ \<Rightarrow> Inl TypeError)"

text \<open>Looking a key identifier up in the key ring: other values than text are not found, or not hashable.\<close>

definition find_key :: "keyring \<Rightarrow> (string \<times> json) list \<Rightarrow> string res" where
  "find_key kr kvs =
     (case map_of kvs ''key_id'' of
        Some (JStr s) \<Rightarrow> need_some (map_of (kr_keys kr) s) DATA_LOSS Inr
      | Some (JArr _) \<Rightarrow> Inl TypeError
      | Some (JObj _) \<Rightarrow> Inl TypeError
      | _ \<Rightarrow> Inl (Fault DATA_LOSS))"

text \<open>Equality with a number: \<^verbatim>\<open>True\<close> equals 1 and \<^verbatim>\<open>False\<close> equals 0.\<close>

definition num_eq :: "json option \<Rightarrow> int \<Rightarrow> bool" where
  "num_eq j n = (case j of Some (JInt i) \<Rightarrow> i = n | Some (JBool b) \<Rightarrow> (if b then 1 else 0) = n | _ \<Rightarrow> False)"

definition header_matches :: "(string \<times> json) list \<Rightarrow> block_ref \<Rightarrow> bool" where
  "header_matches kvs block \<longleftrightarrow>
     num_eq (map_of kvs ''version'') 1 \<and> map_of kvs ''file_id'' = Some (JStr (br_file block)) \<and>
     map_of kvs ''block_id'' = Some (JStr (br_version block)) \<and> num_eq (map_of kvs ''size'') (br_size block) \<and>
     (map_of kvs ''block_index'' = None \<or> num_eq (map_of kvs ''block_index'') (br_index block)) \<and>
     map_of kvs ''sha256'' = Some (JStr (hex (br_sha block)))"

text \<open>The data key and nonce prefix of a container whose header names the block.\<close>

definition unlock :: "crypto \<Rightarrow> keyring \<Rightarrow> string \<Rightarrow> block_ref \<Rightarrow> (string \<times> string) res" where
  "unlock cr kr hdr block =
     (case loads hdr of
        Some (JObj kvs) \<Rightarrow>
          need (header_matches kvs block) DATA_LOSS (
          bindr (find_key kr kvs) (\<lambda>key.
          bindr (str_field kvs ''wrapped_dek'') (\<lambda>w.
          need_some (Option.bind (b64decode w) (key_unwrap cr key)) DATA_LOSS (\<lambda>dek.
          bindr (str_field kvs ''nonce_prefix'') (\<lambda>p.
          need_some (b64decode p) DATA_LOSS (\<lambda>prefix.
          need (length prefix = 8) DATA_LOSS (
          Inr (dek, prefix))))))))
      | Some _ \<Rightarrow> Inl TypeError
      | None \<Rightarrow> Inl (Fault DATA_LOSS))"

function read_records :: "crypto \<Rightarrow> string \<Rightarrow> string \<Rightarrow> string \<Rightarrow> nat \<Rightarrow> string \<Rightarrow> string list res" where
  "read_records cr dek prefix hdr index bytes =
     (if bytes = [] then Inr []
      else
        need (4 \<le> length bytes) DATA_LOSS (
        let len = unbe32 (take 4 bytes); rest = drop 4 bytes in
        need (16 < len \<and> int len \<le> CHUNK + 16) DATA_LOSS (
        need (len \<le> length rest) DATA_LOSS (
        need_some (gcm_decrypt cr dek (prefix @ be32 index) (hdr @ be32 index @ be32 (len - 16)) (take len rest)) DATA_LOSS (\<lambda>data.
        bindr (read_records cr dek prefix hdr (Suc index) (drop len rest)) (\<lambda>ds.
        Inr (data # ds)))))))"
  by pat_completeness auto
termination
  by (relation "measure (\<lambda>(cr, dek, prefix, hdr, index, bytes). length bytes)") auto

declare read_records.simps [simp del]

definition read_container :: "crypto \<Rightarrow> keyring \<Rightarrow> block_ref \<Rightarrow> string \<Rightarrow> string list res" where
  "read_container cr kr block bytes =
     need (take 8 bytes = MAGIC) DATA_LOSS (
     let rest = drop 8 bytes in
     need (4 \<le> length rest) DATA_LOSS (
     let len = unbe32 (take 4 rest) in
     need (0 < len \<and> len \<le> 4096) DATA_LOSS (
     let hdr = take len (drop 4 rest) in
     bindr (unlock cr kr hdr block) (\<lambda>(dek, prefix).
     bindr (read_records cr dek prefix hdr 0 (drop len (drop 4 rest))) (\<lambda>ds.
     need (int (length (concat ds)) = br_size block \<and> hash cr (concat ds) = br_sha block) DATA_LOSS (
     Inr ds))))))"

definition read_verified :: "crypto \<Rightarrow> keyring \<Rightarrow> disk \<Rightarrow> block_ref \<Rightarrow> string list res" where
  "read_verified cr kr disk block =
     bindr (path (br_file block) (br_version block)) (\<lambda>target.
     need_some (disk target) DATA_LOSS (read_container cr kr block))"

text \<open>
  The identifier goes into a text field of a message, so a value of another type ends in
  \<open>TypeError\<close> as well.
\<close>

definition object_key_id :: "disk \<Rightarrow> block_ref \<Rightarrow> string res" where
  "object_key_id disk block =
     bindr (path (br_file block) (br_version block)) (\<lambda>target.
     somer (disk target) OSError (\<lambda>bytes.
     need (take 8 bytes = MAGIC) DATA_LOSS (
     let rest = drop 8 bytes in
     need (4 \<le> length rest) DATA_LOSS (
     let len = unbe32 (take 4 rest) in
     need (0 < len \<and> len \<le> 4096) DATA_LOSS (
     case loads (take len (drop 4 rest)) of
       Some (JObj kvs) \<Rightarrow>
         (case map_of kvs ''key_id'' of None \<Rightarrow> Inl KeyError | Some (JStr s) \<Rightarrow> Inr s | Some _ \<Rightarrow> Inl TypeError)
     | Some _ \<Rightarrow> Inl TypeError
     | None \<Rightarrow> Inl ValueError)))))"

fun take_chunks :: "int \<Rightarrow> int \<Rightarrow> string list \<Rightarrow> string res" where
  "take_chunks len ttl [] = Inr []"
| "take_chunks len ttl (chunk # chunks) =
     need (0 < length chunk \<and> int (length chunk) \<le> CHUNK \<and> ttl + int (length chunk) \<le> len) INVALID_ARGUMENT (
     bindr (take_chunks len (ttl + int (length chunk)) chunks) (\<lambda>rest. Inr (chunk @ rest)))"

definition import_ciphertext :: "crypto \<Rightarrow> keyring \<Rightarrow> block_ref \<Rightarrow> string list \<Rightarrow> int \<Rightarrow> string \<Rightarrow> disk \<Rightarrow> disk res" where
  "import_ciphertext cr kr block chunks len digest disk =
     bindr (path (br_file block) (br_version block)) (\<lambda>target.
     bindr (take_chunks len 0 chunks) (\<lambda>bytes.
     need (int (length bytes) = len \<and> hash cr bytes = digest) CHECKSUM_MISMATCH (
     bindr (read_container cr kr block bytes) (\<lambda>_.
     need (disk target = None) ALREADY_EXISTS (
     Inr (disk(target \<mapsto> bytes)))))))"

text \<open>\<^verbatim>\<open>collect\<close>: containers whose block is neither retained nor active are unlinked.\<close>

definition collect_disk :: "string list \<Rightarrow> string list \<Rightarrow> disk \<Rightarrow> disk" where
  "collect_disk retained active_ids disk =
     (\<lambda>(f, b). if is_uuid f \<and> b \<notin> set retained \<and> b \<notin> set active_ids then None else disk (f, b))"

section \<open>Pins\<close>

record pin_state =
  pin_active :: "int table"
  pin_writers :: "string list"

definition pin_enter :: "string \<Rightarrow> bool \<Rightarrow> pin_state \<Rightarrow> pin_state res" where
  "pin_enter block exclusive s =
     need (block \<notin> set (pin_writers s) \<and> (\<not> exclusive \<or> tget (pin_active s) block = None)) LOCK_BUSY (
     let n = (case tget (pin_active s) block of None \<Rightarrow> 0 | Some n \<Rightarrow> n) in
     Inr (s\<lparr>pin_active := tput block (n + 1) (pin_active s),
            pin_writers := (if exclusive then List.insert block (pin_writers s) else pin_writers s)\<rparr>))"

definition pin_exit :: "string \<Rightarrow> pin_state \<Rightarrow> pin_state res" where
  "pin_exit block s =
     somer (tget (pin_active s) block) KeyError (\<lambda>n.
     Inr (s\<lparr>pin_active := (if n - 1 = 0 then tdel block (pin_active s) else tput block (n - 1) (pin_active s)),
            pin_writers := removeAll block (pin_writers s)\<rparr>))"

section \<open>Admission\<close>

definition weight :: "int \<Rightarrow> int option" where
  "weight block_size = map_of (zip PROFILES [1, 2, 4]) block_size"

text \<open>
  One look at the free units: \<open>None\<close> means wait. A size that is no profile raises
  \<^verbatim>\<open>ValueError\<close> in \<^verbatim>\<open>PROFILES.index\<close>, which is not an answer either.
\<close>

definition admit_try :: "int \<Rightarrow> int \<Rightarrow> int option" where
  "admit_try block_size units =
     (case weight block_size of None \<Rightarrow> None | Some w \<Rightarrow> if units < w then None else Some (units - w))"

definition admit_leave :: "int \<Rightarrow> int \<Rightarrow> int" where
  "admit_leave block_size units = units + (case weight block_size of None \<Rightarrow> 0 | Some w \<Rightarrow> w)"

text \<open>The waiting loop over what the units are at each wake-up, until the deadline.\<close>

fun admit :: "int \<Rightarrow> int list \<Rightarrow> int res" where
  "admit block_size [] = Inl (Fault SERVICE_UNAVAILABLE)"
| "admit block_size (units # later) =
     (case admit_try block_size units of Some left \<Rightarrow> Inr left | None \<Rightarrow> admit block_size later)"

section \<open>Lemmas: framing\<close>

lemma length_be32 [simp]: "length (be32 n) = 4"
  by (simp add: be32_def)

lemma unbe32_be32 [simp]: "n < 2 ^ 32 \<Longrightarrow> unbe32 (be32 n) = n"
proof -
  assume "n < 2 ^ 32"
  then have "n div 16777216 < 256" by (simp add: div_less_iff_less_mult)
  then have top: "n div 16777216 mod 256 = n div 16777216" by simp
  have "n div 16777216 = n div 256 div 256 div 256" "n div 65536 = n div 256 div 256" by (simp_all add: div_mult2_eq [symmetric])
  then show ?thesis
    using top by (simp add: be32_def unbe32_def)
qed

lemma length_MAGIC [simp]: "length MAGIC = 8"
  by (simp add: MAGIC_def)

lemma crypto_okD:
  assumes "crypto_ok cr" and "length k = 32"
  shows "length n = 12 \<Longrightarrow> gcm_decrypt cr k n a (gcm_encrypt cr k n a p) = Some p"
    "length n = 12 \<Longrightarrow> length (gcm_encrypt cr k n a p) = length p + 16"
    "length d = 32 \<Longrightarrow> key_unwrap cr k (key_wrap cr k d) = Some d"
    "length d = 32 \<Longrightarrow> length (key_wrap cr k d) = 40"
  using assms unfolding crypto_ok_def by blast+

lemma CHUNK_small: "int n \<le> CHUNK + 16 \<Longrightarrow> n < 2 ^ 32"
  by (simp add: CHUNK_def)

text \<open>Records written one after the other are read back one after the other.\<close>

lemma read_write_records:
  assumes "crypto_ok cr" "length dek = 32" "length prefix = 8"
    and w0: "write_records cr dek prefix hdr sized index ttl chunks = Inr body"
  shows "read_records cr dek prefix hdr index body = Inr chunks"
  using w0
proof (induction chunks arbitrary: index ttl body)
  case Nil
  then show ?case by (simp add: read_records.simps)
next
  case (Cons chunk chunks)
  let ?s = "sealed_chunk cr dek prefix hdr index chunk"
  from Cons.prems obtain rest where
    ok: "0 < length chunk" "int (length chunk) \<le> CHUNK" and
    w: "write_records cr dek prefix hdr sized (Suc index) (ttl + int (length chunk)) chunks = Inr rest" and
    body: "body = be32 (length ?s) @ ?s @ rest"
    by (auto simp: run Let_def)
  have len: "length ?s = length chunk + 16" by (simp add: sealed_chunk_def crypto_okD [OF assms(1,2)] assms(3))
  have small: "unbe32 (be32 (length chunk + 16)) = length chunk + 16"
    using ok by (intro unbe32_be32 CHUNK_small) simp
  have cut: "take 4 body = be32 (length ?s)" "drop 4 body = ?s @ rest" "body \<noteq> []" "4 \<le> length body"
    by (simp_all add: body flip: length_greater_0_conv)
  have "gcm_decrypt cr dek (prefix @ be32 index) (hdr @ be32 index @ be32 (length chunk)) ?s = Some chunk"
    by (simp add: sealed_chunk_def crypto_okD [OF assms(1,2)] assms(3))
  with Cons.IH [OF w] ok show ?case
    by (subst read_records.simps) (simp add: cut small len Let_def)
qed

lemma length_write_records:
  assumes "crypto_ok cr" "length dek = 32" "length prefix = 8"
    and w0: "write_records cr dek prefix hdr sized index ttl chunks = Inr body"
  shows "length body = length (concat chunks) + 20 * length chunks"
  using w0
  by (induction chunks arbitrary: index ttl body)
     (auto simp: run Let_def sealed_chunk_def crypto_okD [OF assms(1,2)] assms(3))

lemma write_records_ttl:
  "write_records cr dek prefix hdr sized index ttl chunks = Inr body \<Longrightarrow> list_all (\<lambda>c. c \<noteq> [] \<and> int (length c) \<le> CHUNK) chunks"
  by (induction chunks arbitrary: index ttl body) (auto simp: run Let_def)

section \<open>Lemmas: containers\<close>

lemma map_of_sort_key: "distinct (map fst kvs) \<Longrightarrow> map_of (sort_key fst kvs) = map_of kvs"
  by (intro map_of_inject_set [THEN iffD2]) (simp_all add: distinct_map distinct_sort)

lemma loads_flat:
  assumes "distinct (map fst kvs)" and "\<And>k v. (k, v) \<in> set kvs \<Longrightarrow> json_wf (\<lambda>_. True) v \<and> normal v = v"
  shows "\<exists>kvs'. loads (canonical (JObj kvs)) = Some (JObj kvs') \<and> map_of kvs' = map_of kvs"
proof -
  have "map (\<lambda>(k, v). (k, normal v)) kvs = map id kvs"
    using assms(2) by (intro map_cong) auto
  then have "normal (JObj kvs) = JObj (sort_key fst kvs)" by simp
  moreover have "json_wf (\<lambda>_. True) (JObj kvs)" using assms by (auto simp: list_all_iff)
  ultimately show ?thesis using loads_canonical map_of_sort_key [OF assms(1)] by metis
qed

text \<open>A key ring that finds its active key, and the sizes of what a container is sealed with.\<close>

definition keyring_ok :: "crypto \<Rightarrow> keyring \<Rightarrow> bool" where
  "keyring_ok cr kr \<longleftrightarrow> length (kr_active kr) = 32 \<and> map_of (kr_keys kr) (key_id cr (kr_active kr)) = Some (kr_active kr)"

lemma unlock_header:
  assumes "crypto_ok cr" and "keyring_ok cr kr" and "length dek = 32" "length prefix = 8"
  shows "unlock cr kr (header cr (kr_active kr) block dek prefix) block = Inr (dek, prefix)"
proof -
  let ?kvs = "[(''version'', JInt 1), (''file_id'', JStr (br_file block)), (''block_id'', JStr (br_version block)),
       (''size'', JInt (br_size block)), (''block_index'', JInt (br_index block)),
       (''sha256'', JStr (hex (br_sha block))), (''key_id'', JStr (key_id cr (kr_active kr))),
       (''wrapped_dek'', JStr (b64encode (key_wrap cr (kr_active kr) dek))), (''nonce_prefix'', JStr (b64encode prefix))]"
  have "\<exists>kvs. loads (canonical (JObj ?kvs)) = Some (JObj kvs) \<and> map_of kvs = map_of ?kvs"
    by (rule loads_flat) auto
  then obtain kvs where
    loads: "loads (canonical (JObj ?kvs)) = Some (JObj kvs)" and m: "map_of kvs = map_of ?kvs" by blast
  have "header_matches kvs block" unfolding header_matches_def num_eq_def m by simp
  moreover have "find_key kr kvs = Inr (kr_active kr)" unfolding find_key_def m using assms(2) by (simp add: keyring_ok_def)
  moreover have "str_field kvs ''wrapped_dek'' = Inr (b64encode (key_wrap cr (kr_active kr) dek))"
    "str_field kvs ''nonce_prefix'' = Inr (b64encode prefix)" unfolding str_field_def m by simp_all
  moreover have "key_unwrap cr (kr_active kr) (key_wrap cr (kr_active kr) dek) = Some dek"
    using assms by (intro crypto_okD) (simp_all add: keyring_ok_def)
  ultimately show ?thesis
    unfolding unlock_def header_def header_json_def loads by (simp add: assms(4))
qed

lemma header_not_Nil: "header cr key block dek prefix \<noteq> []"
  by (simp add: header_def header_json_def)

lemma read_container_container:
  assumes "crypto_ok cr" and "keyring_ok cr kr" and "length dek = 32" "length prefix = 8"
    and "container cr (kr_active kr) block dek prefix chunks = Inr bytes"
    and hlen: "length (header cr (kr_active kr) block dek prefix) \<le> 4096"
  shows "read_container cr kr block bytes = Inr chunks"
proof -
  let ?h = "header cr (kr_active kr) block dek prefix"
  from assms(5) obtain body where
    w: "write_records cr dek prefix ?h (br_size block) 0 0 chunks = Inr body" and
    sum: "int (length (concat chunks)) = br_size block" "hash cr (concat chunks) = br_sha block" and
    bytes: "bytes = MAGIC @ be32 (length ?h) @ ?h @ body"
    by (auto simp: container_def run Let_def)
  have cut: "take 8 bytes = MAGIC" "drop 8 bytes = be32 (length ?h) @ ?h @ body"
    by (simp_all add: bytes)
  have num: "unbe32 (be32 (length ?h)) = length ?h" using hlen by simp
  show ?thesis
    unfolding read_container_def cut
    using unlock_header [OF assms(1-4), of block] read_write_records [OF assms(1,3,4) w] hlen sum header_not_Nil
    by (simp add: num Let_def)
qed

lemma open_keys_active:
  assumes "\<forall>k \<in> set read_keys. key_id cr k = key_id cr key \<longrightarrow> k = key"
  shows "map_of (kr_keys (open_keys cr key read_keys)) (key_id cr key) = Some key"
proof -
  have "map_of (fold (\<lambda>k. dict_put (key_id cr k) k) ks acc) (key_id cr key) = Some key"
    if "map_of acc (key_id cr key) = Some key" "\<forall>k \<in> set ks. key_id cr k = key_id cr key \<longrightarrow> k = key" for ks acc
    using that
  proof (induction ks arbitrary: acc)
    case (Cons k ks)
    then show ?case by (cases "key_id cr k = key_id cr key") simp_all
  qed simp
  from this [of "[(key_id cr key, key)]" read_keys] assms show ?thesis by (simp add: open_keys_def)
qed

lemma length_container:
  assumes "crypto_ok cr" "length dek = 32" "length prefix = 8" and c0: "container cr key block dek prefix chunks = Inr bytes"
  shows "int (length bytes) = 12 + int (length (header cr key block dek prefix)) + br_size block + 20 * int (length chunks)"
  using c0 length_write_records [OF assms(1-3)]
  by (auto simp: container_def run Let_def)

text \<open>The header of a block of sane size is short, so a written container can be read and its cost is known.\<close>

lemma length_hex: "length (hex s) = 2 * length s"
  by (induction s) (simp_all add: hex_def)

lemma length_b64encode: "length (b64encode s) \<le> 2 * length s + 2"
proof (induction s rule: b64encode.induct)
  case (4 a b c rest)
  then have "length (b64encode rest) \<le> 2 * length rest + 2" by blast
  then show ?case by (simp add: Let_def)
qed (simp_all add: Let_def)

lemma length_json_str: "length (json_str s) \<le> 6 * length s + 2"
  by (induction s) (auto simp: json_str_def esc_char_def)

lemma length_dec_digits: "n < 10 ^ Suc k \<Longrightarrow> length (dec_digits n) \<le> Suc k"
proof (induction k arbitrary: n)
  case (Suc k)
  show ?case
  proof (cases "n < 10")
    case False
    from Suc.prems have "n div 10 < 10 ^ Suc k" by (simp add: div_less_iff_less_mult)
    from Suc.IH [OF this] False show ?thesis by (subst dec_digits.simps) simp
  qed (subst dec_digits.simps, simp)
qed (subst dec_digits.simps, simp)

lemma length_dec_int: "0 \<le> i \<Longrightarrow> i < 2 ^ 63 \<Longrightarrow> length (dec_int i) \<le> 19"
proof -
  assume i: "0 \<le> i" "i < 2 ^ 63"
  then have "nat i < 10 ^ Suc 18" by (simp add: nat_less_iff)
  from length_dec_digits [OF this] i show ?thesis by (simp add: dec_int_def)
qed

lemma length_join: "length (join '','' xs) = sum_list (map length xs) + (length xs - 1)"
  by (induction "'',''" xs rule: join.induct) auto

lemma sum_list_sort_key: "sum_list (map g (sort_key f xs)) = (sum_list (map g xs) :: nat)"
  by (metis mset_map mset_sort sum_mset_sum_list)

lemma length_canonical_JObj:
  "length (canonical (JObj kvs)) = 2 + sum_list (map (length \<circ> member_text) kvs) + (length kvs - 1)"
  by (simp only: canonical_JObj length_append length_join map_map sum_list_sort_key length_map length_sort) simp

definition block_sane :: "block_ref \<Rightarrow> bool" where
  "block_sane b \<longleftrightarrow> is_uuid (br_file b) \<and> is_uuid (br_version b) \<and> 0 \<le> br_size b \<and> br_size b < 2 ^ 63 \<and>
     0 \<le> br_index b \<and> br_index b < 2 ^ 63 \<and> length (br_sha b) = 32"

lemma header_length:
  assumes "crypto_ok cr" "length key = 32" "length dek = 32" "length prefix = 8" "block_sane block"
  shows "length (header cr key block dek prefix) \<le> 4084"
proof -
  have strs: "length (json_str (br_file block)) \<le> 218" "length (json_str (br_version block)) \<le> 218"
    "length (json_str (hex (br_sha block))) \<le> 386"
    using assms(5) length_json_str [of "br_file block"] length_json_str [of "br_version block"]
      length_json_str [of "hex (br_sha block)"]
    by (auto simp: block_sane_def is_uuid_def length_hex)
  have "length (key_id cr key) = 64" using assms(1) by (simp add: key_id_def length_hex crypto_ok_def)
  then have key: "length (json_str (key_id cr key)) \<le> 386" using length_json_str [of "key_id cr key"] by simp
  have "length (key_wrap cr key dek) = 40" using assms by (intro crypto_okD)
  then have dek: "length (json_str (b64encode (key_wrap cr key dek))) \<le> 494"
    using length_json_str [of "b64encode (key_wrap cr key dek)"] length_b64encode [of "key_wrap cr key dek"] by simp
  have pre: "length (json_str (b64encode prefix)) \<le> 110"
    using length_json_str [of "b64encode prefix"] length_b64encode [of prefix] assms(4) by simp
  have nums: "length (dec_int (br_size block)) \<le> 19" "length (dec_int (br_index block)) \<le> 19" "length (dec_int 1) \<le> 19"
    using assms(5) by (auto simp: block_sane_def intro: length_dec_int)
  have names: "length (json_str ''version'') \<le> 44" "length (json_str ''file_id'') \<le> 44" "length (json_str ''block_id'') \<le> 50"
    "length (json_str ''size'') \<le> 26" "length (json_str ''block_index'') \<le> 68" "length (json_str ''sha256'') \<le> 38"
    "length (json_str ''key_id'') \<le> 38" "length (json_str ''wrapped_dek'') \<le> 68" "length (json_str ''nonce_prefix'') \<le> 74"
    using length_json_str [of "''version''"] length_json_str [of "''file_id''"] length_json_str [of "''block_id''"]
      length_json_str [of "''size''"] length_json_str [of "''block_index''"] length_json_str [of "''sha256''"]
      length_json_str [of "''key_id''"] length_json_str [of "''wrapped_dek''"] length_json_str [of "''nonce_prefix''"] by simp_all
  show ?thesis
    unfolding header_def header_json_def length_canonical_JObj
    using strs key dek pre nums names by simp
qed

section \<open>Pins as a machine\<close>

text \<open>The pins together with the sections that are open: the block and whether it is exclusive.\<close>

type_synonym sections = "(string \<times> bool) list"

definition pins_start :: "pin_state \<times> sections \<Rightarrow> bool" where
  "pins_start s \<longleftrightarrow> s = (\<lparr>pin_active = tempty, pin_writers = []\<rparr>, [])"

inductive pins_step :: "pin_state \<times> sections \<Rightarrow> pin_state \<times> sections \<Rightarrow> bool" where
  pin_in: "pin_enter k x s = Inr s' \<Longrightarrow> pins_step (s, hs) (s', (k, x) # hs)"
| pin_out: "(k, x) \<in> set hs \<Longrightarrow> pin_exit k s = Inr s' \<Longrightarrow> pins_step (s, hs) (s', remove1 (k, x) hs)"

inductive_cases pins_stepE: "pins_step s s'"

definition held :: "string \<Rightarrow> sections \<Rightarrow> nat" where
  "held k hs = length (filter (\<lambda>h. fst h = k) hs)"

definition pins_inv :: "pin_state \<times> sections \<Rightarrow> bool" where
  "pins_inv = (\<lambda>(s, hs).
     (\<forall>k. tget (pin_active s) k = (if held k hs = 0 then None else Some (int (held k hs)))) \<and>
     (\<forall>k. k \<in> set (pin_writers s) \<longleftrightarrow> (k, True) \<in> set hs) \<and>
     (\<forall>k. (k, True) \<in> set hs \<longrightarrow> held k hs = 1))"

lemma held_simps [simp]: "held k [] = 0" "held k (h # hs) = (if fst h = k then Suc (held k hs) else held k hs)"
  by (simp_all add: held_def)

lemma held_pos: "(k, x) \<in> set hs \<Longrightarrow> 0 < held k hs"
  by (induction hs) auto

lemma held_remove1: "(k, x) \<in> set hs \<Longrightarrow> held j (remove1 (k, x) hs) = (if j = k then held j hs - 1 else held j hs)"
proof (induction hs)
  case (Cons h hs)
  show ?case
  proof (cases "h = (k, x)")
    case False
    with Cons.prems have "(k, x) \<in> set hs" by auto
    with False Cons.IH held_pos [of k x hs] show ?thesis by auto
  qed auto
qed simp

lemma held_one: "held k hs = 1 \<Longrightarrow> (k, x) \<in> set hs \<Longrightarrow> (k, y) \<in> set hs \<Longrightarrow> x = y"
  by (induction hs) (auto dest: held_pos split: if_splits)

lemma pins_inv_enter:
  assumes "pins_inv (s, hs)" and "pin_enter k x s = Inr s'"
  shows "pins_inv (s', (k, x) # hs)"
proof -
  from assms(2) have free: "k \<notin> set (pin_writers s)" "x \<longrightarrow> tget (pin_active s) k = None" and
    s': "s' = s\<lparr>pin_active := tput k ((case tget (pin_active s) k of None \<Rightarrow> 0 | Some n \<Rightarrow> n) + 1) (pin_active s),
            pin_writers := (if x then List.insert k (pin_writers s) else pin_writers s)\<rparr>"
    by (auto simp: pin_enter_def run Let_def)
  from assms(1) have act: "\<And>k. tget (pin_active s) k = (if held k hs = 0 then None else Some (int (held k hs)))"
    and wr: "\<And>k. k \<in> set (pin_writers s) \<longleftrightarrow> (k, True) \<in> set hs"
    and one: "\<And>k. (k, True) \<in> set hs \<Longrightarrow> held k hs = 1" by (auto simp: pins_inv_def)
  have "x \<longrightarrow> held k hs = 0" using free(2) act [of k] by (auto split: if_splits)
  then show ?thesis using free(1) wr one by (auto simp: pins_inv_def s' act)
qed

lemma pins_inv_exit:
  assumes "pins_inv (s, hs)" and "(k, x) \<in> set hs"
  shows "\<exists>s'. pin_exit k s = Inr s' \<and> pins_inv (s', remove1 (k, x) hs)"
proof -
  from assms(1) have act: "\<And>k. tget (pin_active s) k = (if held k hs = 0 then None else Some (int (held k hs)))"
    and wr: "\<And>k. k \<in> set (pin_writers s) \<longleftrightarrow> (k, True) \<in> set hs"
    and one: "\<And>k. (k, True) \<in> set hs \<Longrightarrow> held k hs = 1" by (auto simp: pins_inv_def)
  have pos: "0 < held k hs" by (rule held_pos [OF assms(2)])
  let ?s' = "s\<lparr>pin_active := (if int (held k hs) - 1 = 0 then tdel k (pin_active s)
       else tput k (int (held k hs) - 1) (pin_active s)), pin_writers := removeAll k (pin_writers s)\<rparr>"
  have gone: "(k, True) \<notin> set (remove1 (k, x) hs)"
  proof
    assume in1: "(k, True) \<in> set (remove1 (k, x) hs)"
    then have "(k, True) \<in> set hs" by (meson notin_set_remove1)
    then have "held k (remove1 (k, x) hs) = 0" using one held_remove1 [OF assms(2)] by simp
    with held_pos [OF in1] show False by simp
  qed
  have "j \<in> set (pin_writers ?s') \<longleftrightarrow> (j, True) \<in> set (remove1 (k, x) hs)" for j
    using gone wr [of j] in_set_remove1 [of "(j, True)" "(k, x)" hs] by auto
  moreover have "tget (pin_active ?s') j = (if held j (remove1 (k, x) hs) = 0 then None
      else Some (int (held j (remove1 (k, x) hs))))" for j
    using pos act by (auto simp: held_remove1 [OF assms(2)] of_nat_diff)
  moreover have "held j (remove1 (k, x) hs) = 1" if "(j, True) \<in> set (remove1 (k, x) hs)" for j
    using that gone one [of j] by (auto simp: held_remove1 [OF assms(2)] dest: notin_set_remove1 split: if_splits)
  ultimately have "pins_inv (?s', remove1 (k, x) hs)" by (simp add: pins_inv_def)
  moreover have "pin_exit k s = Inr ?s'" using act [of k] pos by (simp add: pin_exit_def)
  ultimately show ?thesis by blast
qed

interpretation pin_machine: safe_machine pins_start pins_step pins_inv
proof
  show "pins_inv s" if "pins_start s" for s
    using that by (simp add: pins_start_def pins_inv_def)
  show "pins_inv s'" if "pins_inv s" "pins_step s s'" for s s'
    using that(2,1)
  proof cases
    case (pin_out k x hs s t)
    with that(1) pins_inv_exit [of s hs k x] show ?thesis by auto
  qed (auto intro: pins_inv_enter)
qed

section \<open>Admission as a machine\<close>

definition units_start :: "int \<times> int list \<Rightarrow> bool" where
  "units_start s \<longleftrightarrow> s = (4, [])"

inductive units_step :: "int \<times> int list \<Rightarrow> int \<times> int list \<Rightarrow> bool" where
  unit_in: "admit_try size_in units = Some left \<Longrightarrow> units_step (units, sizes) (left, size_in # sizes)"
| unit_out: "size_out \<in> set sizes \<Longrightarrow> units_step (units, sizes) (admit_leave size_out units, remove1 size_out sizes)"

definition load :: "int list \<Rightarrow> int" where
  "load sizes = sum_list (map (\<lambda>b. case weight b of None \<Rightarrow> 0 | Some w \<Rightarrow> w) sizes)"

definition units_inv :: "int \<times> int list \<Rightarrow> bool" where
  "units_inv = (\<lambda>(units, sizes). units + load sizes = 4 \<and> 0 \<le> units \<and> (\<forall>b \<in> set sizes. weight b \<noteq> None))"

lemma weight_Some: "weight b = Some w \<Longrightarrow> w \<in> {1, 2, 4}"
  by (auto simp: weight_def PROFILES_def split: if_splits)

lemma load_remove1: "b \<in> set sizes \<Longrightarrow>
    load (remove1 b sizes) = load sizes - (case weight b of None \<Rightarrow> 0 | Some w \<Rightarrow> w)"
  by (induction sizes) (auto simp: load_def)

interpretation unit_machine: safe_machine units_start units_step units_inv
proof
  show "units_inv s" if "units_start s" for s
    using that by (simp add: units_start_def units_inv_def load_def)
  show "units_inv s'" if "units_inv s" "units_step s s'" for s s'
    using that(2,1)
  proof cases
    case (unit_in b units left sizes)
    then show ?thesis using that(1)
      by (auto simp: units_inv_def admit_try_def load_def split: option.splits if_splits)
  next
    case (unit_out b sizes units)
    then show ?thesis using that(1)
      by (auto simp: units_inv_def admit_leave_def load_remove1 split: option.splits
          dest: weight_Some notin_set_remove1)
  qed
qed

section \<open>Properties of the store\<close>

lemma put_Inr:
  assumes "put cr kr block chunks dek prefix disk = Inr ((stored, digest), disk')"
  shows "\<exists>bytes. container cr (kr_active kr) block dek prefix chunks = Inr bytes \<and> is_uuid (br_file block) \<and>
     is_uuid (br_version block) \<and> disk (br_file block, br_version block) = None \<and> stored = length bytes \<and>
     digest = hash cr bytes \<and> disk' = disk((br_file block, br_version block) \<mapsto> bytes)"
  using assms by (auto simp: put_def path_def uuid_def run)

lemma container_Inr:
  assumes "container cr key block dek prefix chunks = Inr bytes"
  shows "int (length (concat chunks)) = br_size block" "hash cr (concat chunks) = br_sha block"
    "list_all (\<lambda>c. c \<noteq> [] \<and> int (length c) \<le> CHUNK) chunks"
  using assms by (auto simp: container_def run Let_def dest: write_records_ttl)

lemma put_sane:
  assumes "crypto_ok cr" and "put cr kr block chunks dek prefix disk = Inr ((stored, digest), disk')"
    and "br_size block < 2 ^ 63" "0 \<le> br_index block" "br_index block < 2 ^ 63"
  shows "block_sane block"
proof -
  obtain bytes where c: "container cr (kr_active kr) block dek prefix chunks = Inr bytes" and
    u: "is_uuid (br_file block)" "is_uuid (br_version block)" using put_Inr [OF assms(2)] by blast
  have "length (hash cr (concat chunks)) = 32" using assms(1) by (simp add: crypto_ok_def)
  with container_Inr [OF c] u assms(3-5) show ?thesis by (auto simp: block_sane_def)
qed

lemma open_keys_ok:
  assumes "length key = 32" "\<forall>k \<in> set read_keys. key_id cr k = key_id cr key \<longrightarrow> k = key"
  shows "keyring_ok cr (open_keys cr key read_keys)" "kr_active (open_keys cr key read_keys) = key"
  using assms open_keys_active by (auto simp: keyring_ok_def open_keys_def)

definition sample_crypto :: crypto where
  "sample_crypto = \<lparr>gcm_encrypt = (\<lambda>k n a p. p @ replicate 16 (CHR ''t'')),
     gcm_decrypt = (\<lambda>k n a c. Some (take (length c - 16) c)),
     key_wrap = (\<lambda>k d. d @ replicate 8 (CHR ''w'')), key_unwrap = (\<lambda>k w. Some (take (length w - 8) w)),
     hash = (\<lambda>s. replicate 32 (CHR ''h''))\<rparr>"

lemma sample_crypto_ok: "crypto_ok sample_crypto"
  by (simp add: crypto_ok_def sample_crypto_def)

definition sample_block :: block_ref where
  "sample_block = \<lparr>br_file = ''00000000-0000-4000-8000-000000000001'', br_version = ''00000000-0000-4000-8000-000000000002'',
     br_index = 0, br_size = 5, br_sha = replicate 32 (CHR ''h'')\<rparr>"

lemma sample_uuids: "is_uuid (br_file sample_block)" "is_uuid (br_version sample_block)"
  by code_simp+

definition sample_key :: string where
  "sample_key = replicate 32 (CHR ''k'')"

text \<open>
  C4. What a DataNode stores is what it reads back. If \<open>put\<close> succeeds, \<open>read_verified\<close> of the same
  block returns exactly the chunks that were given, every other object of the disk is as it was, and the
  announced digest is that of the stored bytes. Nothing is assumed of the block but numbers of 63 bits: that
  the identifiers are UUIDs, that the content has the announced size and hash, and that the header fits in
  what the reader accepts are all enforced by the code.
\<close>

theorem put_then_read:
  assumes "crypto_ok cr" "length key = 32" "\<forall>k \<in> set read_keys. key_id cr k = key_id cr key \<longrightarrow> k = key"
    and "length dek = 32" "length prefix = 8"
    and "br_size block < 2 ^ 63" "0 \<le> br_index block" "br_index block < 2 ^ 63"
    and put: "put cr (open_keys cr key read_keys) block chunks dek prefix disk = Inr ((stored, digest), disk')"
  shows "read_verified cr (open_keys cr key read_keys) disk' block = Inr chunks \<and>
     (\<forall>t. t \<noteq> (br_file block, br_version block) \<longrightarrow> disk' t = disk t) \<and>
     disk (br_file block, br_version block) = None \<and>
     map_option (hash cr) (disk' (br_file block, br_version block)) = Some digest"
proof -
  let ?kr = "open_keys cr key read_keys"
  note kr = open_keys_ok [OF assms(2,3)]
  obtain bytes where b: "container cr (kr_active ?kr) block dek prefix chunks = Inr bytes"
    "is_uuid (br_file block)" "is_uuid (br_version block)" "disk (br_file block, br_version block) = None"
    "digest = hash cr bytes" "disk' = disk((br_file block, br_version block) \<mapsto> bytes)"
    using put_Inr [OF put] by blast
  have "length (header cr (kr_active ?kr) block dek prefix) \<le> 4096"
    using header_length [OF assms(1,2,4,5) put_sane [OF assms(1) put assms(6-8)]] kr(2) by simp
  from read_container_container [OF assms(1) kr(1) assms(4,5) b(1) this] b show ?thesis
    by (simp add: read_verified_def path_def uuid_def)
qed

theorem put_then_read_witness:
  "\<exists>r disk'. put sample_crypto (open_keys sample_crypto sample_key []) sample_block [''abc'', ''de''] sample_key (replicate 8 (CHR ''p'')) (\<lambda>_. None) = Inr (r, disk') \<and>
     read_verified sample_crypto (open_keys sample_crypto sample_key []) disk' sample_block = Inr [''abc'', ''de'']"
proof -
  let ?p = "put sample_crypto (open_keys sample_crypto sample_key []) sample_block [''abc'', ''de''] sample_key (replicate 8 (CHR ''p'')) (\<lambda>_. None)"
  have "\<not> isl ?p"
    by (simp add: put_def path_def uuid_def sample_uuids container_def Let_def need_def)
       (simp add: sample_block_def sample_crypto_def CHUNK_def)
  then obtain stored digest disk' where p: "?p = Inr ((stored, digest), disk')"
    by (metis sum.collapse(2) surj_pair)
  have "read_verified sample_crypto (open_keys sample_crypto sample_key []) disk' sample_block = Inr [''abc'', ''de'']"
    using put_then_read [OF sample_crypto_ok _ _ _ _ _ _ _ p] by (simp add: sample_key_def sample_block_def)
  with p show ?thesis by blast
qed

text \<open>
  C26. A copy received from another node is taken over only if it is a complete container of that very
  block. Whatever bytes arrive, an import that succeeds stores bytes with the announced digest and length,
  and the stored object can be read: its plaintext has the size and the hash of the block.
\<close>

theorem import_then_read:
  assumes "import_ciphertext cr kr block chunks len digest disk = Inr disk'"
  shows "\<exists>bytes ds. disk (br_file block, br_version block) = None \<and>
     disk' = disk((br_file block, br_version block) \<mapsto> bytes) \<and> int (length bytes) = len \<and> hash cr bytes = digest \<and>
     read_verified cr kr disk' block = Inr ds \<and> int (length (concat ds)) = br_size block \<and>
     hash cr (concat ds) = br_sha block"
proof -
  from assms obtain bytes ds where "is_uuid (br_file block)" "is_uuid (br_version block)"
    "disk (br_file block, br_version block) = None" "disk' = disk((br_file block, br_version block) \<mapsto> bytes)"
    "int (length bytes) = len" "hash cr bytes = digest" and r: "read_container cr kr block bytes = Inr ds"
    by (auto simp: import_ciphertext_def path_def uuid_def run)
  moreover from r have "int (length (concat ds)) = br_size block" "hash cr (concat ds) = br_sha block"
    by (auto simp: read_container_def run Let_def split: prod.splits)
  ultimately show ?thesis by (auto simp: read_verified_def path_def uuid_def)
qed

theorem import_then_read_witness:
  "\<exists>bytes disk'. container sample_crypto sample_key sample_block sample_key (replicate 8 (CHR ''p'')) [''abcde''] = Inr bytes \<and>
     import_ciphertext sample_crypto (open_keys sample_crypto sample_key []) sample_block [bytes] (int (length bytes)) (replicate 32 (CHR ''h'')) (\<lambda>_. None) = Inr disk' \<and>
     \<not> isl (read_verified sample_crypto (open_keys sample_crypto sample_key []) disk' sample_block)"
proof -
  let ?c = "container sample_crypto sample_key sample_block sample_key (replicate 8 (CHR ''p'')) [''abcde'']"
  let ?i = "\<lambda>bytes. import_ciphertext sample_crypto (open_keys sample_crypto sample_key []) sample_block [bytes]
     (int (length bytes)) (replicate 32 (CHR ''h'')) (\<lambda>_. None)"
  have "\<not> isl ?c"
    by (simp add: container_def Let_def need_def) (simp add: sample_block_def sample_crypto_def CHUNK_def)
  then obtain bytes where b: "?c = Inr bytes" by (metis sum.collapse(2))
  note kr = open_keys_ok [of sample_key "[]" sample_crypto]
  have "block_sane sample_block" by (simp add: block_sane_def sample_uuids) (simp add: sample_block_def)
  then have "length (header sample_crypto sample_key sample_block sample_key (replicate 8 (CHR ''p''))) \<le> 4084"
    by (intro header_length [OF sample_crypto_ok]) (simp_all add: sample_key_def)
  then have h: "length (header sample_crypto sample_key sample_block sample_key (replicate 8 (CHR ''p''))) \<le> 4096" by linarith
  have "read_container sample_crypto (open_keys sample_crypto sample_key []) sample_block bytes = Inr [''abcde'']"
    using kr h b by (intro read_container_container [OF sample_crypto_ok]) (simp_all add: sample_key_def)
  moreover have "length bytes = 25 + 12 + length (header sample_crypto sample_key sample_block sample_key (replicate 8 (CHR ''p'')))"
    using length_container [OF sample_crypto_ok _ _ b] by (simp add: sample_key_def sample_block_def)
  moreover have "hash sample_crypto bytes = replicate 32 (CHR ''h'')" by (simp add: sample_crypto_def)
  ultimately have "\<exists>disk'. ?i bytes = Inr disk'" using h
    by (simp add: import_ciphertext_def path_def uuid_def sample_uuids need_def sample_key_def CHUNK_def)
  then obtain disk' where i: "?i bytes = Inr disk'" by blast
  from import_then_read [OF i] b i show ?thesis by auto
qed

text \<open>
  C21. Pins exclude. However uses of a node's blocks are opened and closed, a block that is being written
  has no other use at all, and every open use can be closed (the counter is there).
\<close>

theorem pins_exclude:
  assumes "reach pins_start pins_step (s, hs)"
  shows "(\<forall>k. (k, True) \<in> set hs \<longrightarrow> length (filter (\<lambda>h. fst h = k) hs) = 1) \<and>
     (\<forall>k x. (k, x) \<in> set hs \<longrightarrow> (\<exists>s'. pin_exit k s = Inr s')) \<and>
     (\<forall>k. (\<exists>s'. pin_enter k True s = Inr s') \<longleftrightarrow> k \<notin> fst ` set hs)"
proof -
  from pin_machine.reach_inv [OF assms] have inv: "pins_inv (s, hs)" .
  have "(\<exists>s'. pin_enter k True s = Inr s') \<longleftrightarrow> k \<notin> fst ` set hs" for k
  proof -
    have "held k hs = 0 \<longleftrightarrow> k \<notin> fst ` set hs" by (auto simp: held_def filter_empty_conv)
    with inv show ?thesis by (auto simp: pins_inv_def pin_enter_def need_eq_Inr Let_def image_iff)
  qed
  moreover have "\<exists>s'. pin_exit k s = Inr s'" if "(k, x) \<in> set hs" for k x
    using pins_inv_exit [OF inv that] by blast
  ultimately show ?thesis using inv by (auto simp: pins_inv_def held_def)
qed

theorem pins_exclude_witness:
  "\<exists>s. reach pins_start pins_step (s, [(''b'', True)]) \<and> (\<nexists>s'. pin_enter ''b'' True s = Inr s')"
proof -
  let ?s = "\<lparr>pin_active = tput ''b'' 1 tempty, pin_writers = [''b'']\<rparr>"
  have "pins_step (\<lparr>pin_active = tempty, pin_writers = []\<rparr>, []) (?s, [(''b'', True)])"
    by (rule pin_in) (simp add: pin_enter_def)
  then have r: "reach pins_start pins_step (?s, [(''b'', True)])"
    by (rule reach_step [OF reach_start, rotated]) (simp add: pins_start_def)
  from pins_exclude [OF r] r show ?thesis by auto
qed

text \<open>
  C22. Admission bounds the transfers of a node. However transfers come and go, the weights of those
  running add up to at most four units, so at most four run at once, and one of a 128 MiB block runs alone.
\<close>

theorem admission_bound:
  assumes "reach units_start units_step (units, sizes)"
  shows "0 \<le> units \<and> length sizes \<le> 4 \<and> (134217728 \<in> set sizes \<longrightarrow> sizes = [134217728]) \<and>
     units = 4 - sum_list (map (\<lambda>b. the (weight b)) sizes)"
proof -
  have "units_inv (units, sizes)" using unit_machine.reach_inv [OF assms] .
  then have inv: "units + load sizes = 4" "0 \<le> units" "\<forall>b \<in> set sizes. weight b \<noteq> None" by (auto simp: units_inv_def)
  have low: "int (length bs) \<le> load bs" if "\<forall>b \<in> set bs. weight b \<noteq> None" for bs
    using that
  proof (induction bs)
    case (Cons b bs)
    then obtain w where "weight b = Some w" by auto
    with Cons weight_Some [of b w] show ?case by (auto simp: load_def)
  qed (simp add: load_def)
  have "sizes = [134217728]" if "134217728 \<in> set sizes"
  proof -
    have "load sizes = 4 + load (remove1 134217728 sizes)"
      using load_remove1 [OF that] by (simp add: weight_def PROFILES_def)
    moreover have "int (length (remove1 134217728 sizes)) \<le> load (remove1 134217728 sizes)"
      using inv(3) by (intro low) (meson notin_set_remove1)
    ultimately have "length (remove1 134217728 sizes) = 0" using inv by linarith
    then have "remove1 134217728 sizes = []" by simp
    then show ?thesis using that by (cases sizes) (auto split: if_splits)
  qed
  moreover have "load sizes = sum_list (map (\<lambda>b. the (weight b)) sizes)"
    unfolding load_def using inv(3) by (intro arg_cong [of _ _ sum_list] map_cong) auto
  ultimately show ?thesis using inv low [OF inv(3)] by auto
qed

theorem admission_bound_witness:
  "reach units_start units_step (0, [134217728]) \<and> admit_try 4194304 0 = None"
proof -
  have "units_step (4, []) (0, [134217728])" by (rule unit_in) (simp add: admit_try_def weight_def PROFILES_def)
  then have r: "reach units_start units_step (0, [134217728])"
    by (rule reach_step [OF reach_start, rotated]) (simp add: units_start_def)
  from admission_bound [OF r] r show ?thesis by (simp add: admit_try_def weight_def PROFILES_def)
qed

end
