(* ===== verification/Node_State.thy ===== *)
theory Node_State
  imports Effects BlockStore Grants
begin

text \<open>
  The state of a DataNode (\<^verbatim>\<open>src/src/dfsha/datanode/service.py\<close>), what it asks of its surroundings, and
  the resources its handlers share: space, admission units and pins.

  The state \<open>node\<close> holds the rows of the inventory, the files (the disk of \<open>BlockStore\<close> and the
  objects set aside), and the fields of the running process. \<open>node_env\<close> holds the configuration and
  everything a node only asks for: clocks, random values, free space, identifiers and the answers of
  other machines. These may differ at every reading, so they are functions of the number of
  readings so far, \<open>nd_tick\<close>. \<open>ne_others\<close> is what other threads do to the node while a
  handler waits; otherwise a handler runs without interruption. The hooks that inject faults in
  tests (\<^verbatim>\<open>self.fault\<close>) and the audit events have no effect.
\<close>

section \<open>State and environment\<close>

record stored_block =
  sb_id :: string
  sb_ref :: block_ref
  sb_stored :: int
  sb_receipt :: durable_receipt
  sb_unconfirmed :: bool

record put_entry =
  pe_digest :: string
  pe_receipt :: durable_receipt

record replicate_req =
  re_cx :: req_ctx
  re_task :: string
  re_block :: block_ref
  re_source :: block_location
  re_destination :: block_location
  re_capability :: string
  re_fence :: fence
  re_length :: int
  re_sha :: string
  re_replace :: string

record delete_req =
  dq_cx :: req_ctx
  dq_task :: string
  dq_block :: block_ref
  dq_revision :: int
  dq_capability :: string
  dq_fence :: fence
  dq_expected :: string

datatype task_request = Replicate replicate_req | Delete delete_req

record node_task =
  nt_id :: string
  nt_request :: task_request
  nt_status :: task_status
  nt_reported :: bool

record node =
  nd_blocks :: "stored_block table"
  nd_puts :: "put_entry table"
  nd_patches :: "put_entry table"
  nd_tasks :: "node_task table"
  nd_quarantine :: "(block_ref \<times> int) table"
  nd_traffic :: "(string \<times> int) list"
  nd_disk :: disk
  nd_aside :: "(string \<times> string) \<times> string \<Rightarrow> string option"
  nd_owner :: "(string \<times> string) option"
  nd_generation :: int
  nd_inventory :: string
  nd_sequence :: int
  nd_reserved :: int
  nd_units :: int
  nd_pins :: pin_state
  nd_jobs :: "string list"
  nd_queue :: "replicate_req list"
  nd_tick :: nat

record put_header =
  pu_cx :: req_ctx
  pu_operation :: operation_ref
  pu_block :: block_ref
  pu_fence :: fence
  pu_capability :: string
  pu_dict :: json

record data_chunk =
  dc_offset :: int
  dc_data :: string

text \<open>A frame of a stream is a header or a chunk; an empty frame is neither.\<close>

datatype 'h stream_frame = Header 'h | Chunk data_chunk | Empty_Frame

record get_block_req =
  gb_cx :: req_ctx
  gb_handle :: string
  gb_snapshot :: snapshot_ref
  gb_block :: block_ref
  gb_offset :: "int option"
  gb_length :: "int option"
  gb_capability :: string
  gb_read :: string

record read_header =
  rh_block :: block_ref
  rh_offset :: int
  rh_length :: int
  rh_sha :: string

record replica_header =
  ch_task :: string
  ch_block :: block_ref
  ch_length :: int
  ch_sha :: string
  ch_key :: string

record get_replica_req =
  gr_cx :: req_ctx
  gr_task :: string
  gr_block :: block_ref
  gr_capability :: string
  gr_fence :: fence
  gr_dest :: string

datatype durable_report = Put_Report durable_receipt put_header | Patch_Report durable_receipt patch_header

record node_metrics =
  nm_used :: int
  nm_free :: int
  nm_active :: int
  nm_reserved :: int
  nm_counters :: "int list"

record report_page =
  rg_node :: string
  rg_generation :: int
  rg_report :: string
  rg_page :: int
  rg_receipts :: "durable_receipt list"
  rg_last :: bool

record heartbeat =
  bt_node :: string
  bt_generation :: int
  bt_sequence :: int
  bt_observed :: int
  bt_metrics :: node_metrics

text \<open>What a stream of another machine delivers: frames, and how it ends.\<close>

type_synonym 'f incoming = "'f list \<times> exn option"

record node_env =
  ne_id :: string
  ne_epoch :: string
  ne_domain :: string
  ne_client :: string
  ne_private :: string
  ne_capacity :: int
  ne_control :: "string list"
  ne_replication :: bool
  ne_rf3 :: bool
  ne_failover :: bool
  ne_crypto :: crypto
  ne_keys :: keyring
  ne_nfc :: "string \<Rightarrow> string"
  ne_patience :: nat
  ne_others :: "nat \<Rightarrow> node \<Rightarrow> node"
  ne_now :: "nat \<Rightarrow> int"
  ne_mono :: "nat \<Rightarrow> rat"
  ne_uid :: "nat \<Rightarrow> string"
  ne_dek :: "nat \<Rightarrow> string"
  ne_prefix :: "nat \<Rightarrow> string"
  ne_free :: "nat \<Rightarrow> int"
  ne_ask_block :: "nat \<Rightarrow> req_ctx \<Rightarrow> transfer_req \<Rightarrow> decision res"
  ne_ask_internal :: "nat \<Rightarrow> req_ctx \<Rightarrow> internal_req \<Rightarrow> decision res"
  ne_tell_durable :: "nat \<Rightarrow> req_ctx \<Rightarrow> durable_report \<Rightarrow> unit res"
  ne_tell_task :: "nat \<Rightarrow> req_ctx \<Rightarrow> int \<Rightarrow> task_status \<Rightarrow> fence option \<Rightarrow> unit res"
  ne_register :: "nat \<Rightarrow> req_ctx \<Rightarrow> block_location \<Rightarrow> int \<Rightarrow> int \<Rightarrow> string \<Rightarrow> int res"
  ne_report :: "nat \<Rightarrow> req_ctx \<Rightarrow> report_page \<Rightarrow> unit res"
  ne_beat :: "nat \<Rightarrow> req_ctx \<Rightarrow> heartbeat \<Rightarrow> unit res"
  ne_fetch :: "nat \<Rightarrow> string \<Rightarrow> get_replica_req \<Rightarrow> replica_header stream_frame incoming"
  ne_as_replicate :: "task_request \<Rightarrow> replicate_req res"
  ne_as_delete :: "task_request \<Rightarrow> delete_req res"
  ne_replicate_dict :: "replicate_req \<Rightarrow> json"
  ne_delete_dict :: "delete_req \<Rightarrow> json"
  ne_folders :: "string list"
  ne_names :: "string \<Rightarrow> (string \<times> string) list"

text \<open>The call a handler answers: credentials, peer certificate, remaining time, and whether the caller is still there.\<close>

record node_ctx =
  nc_token :: "string res"
  nc_peers :: "string list"
  nc_remaining :: "nat \<Rightarrow> rat"
  nc_active :: "nat \<Rightarrow> bool"

type_synonym 'a on_node = "(node, 'a) act"

section \<open>Readings\<close>

definition tick :: "(nat \<Rightarrow> 'a) \<Rightarrow> 'a on_node" where
  "tick f = (\<lambda>s. (Inr (f (nd_tick s)), s\<lparr>nd_tick := Suc (nd_tick s)\<rparr>))"

text \<open>A call of another machine.\<close>

definition asking :: "(nat \<Rightarrow> 'a res) \<Rightarrow> 'a on_node" where
  "asking f = bindm (tick f) liftm"

text \<open>\<^verbatim>\<open>stop_event.wait\<close>, and the wait for a condition variable: other threads go on.\<close>

definition waiting :: "node_env \<Rightarrow> unit on_node" where
  "waiting env = bindm (tick (ne_others env)) modm"

definition own_context :: "node_env \<Rightarrow> req_ctx on_node" where
  "own_context env = bindm (tick (ne_uid env)) (\<lambda>i.
     retm \<lparr>cx_request_id = i, cx_user_id = ne_id env, cx_service_epoch = ne_epoch env, cx_intent = []\<rparr>)"

definition node_intent :: "node_env \<Rightarrow> json \<Rightarrow> string" where
  "node_intent env dict = hash (ne_crypto env) (canonical (clean (ne_nfc env) dict))"

definition peer :: "node_ctx \<Rightarrow> string res" where
  "peer ctx = (case nc_peers ctx of [p] \<Rightarrow> Inr p | _ \<Rightarrow> Inl (Fault UNAUTHENTICATED))"

definition location :: "node_env \<Rightarrow> node \<Rightarrow> block_location" where
  "location env s = \<lparr>bl_node = ne_id env, bl_generation = nd_generation s, bl_client = ne_client env,
     bl_private = ne_private env, bl_domain = ne_domain env\<rparr>"

text \<open>The caller is still there and the authorization has not run out.\<close>

definition still_there :: "node_env \<Rightarrow> node_ctx \<Rightarrow> int \<Rightarrow> unit on_node" where
  "still_there env ctx until =
     bindm (tick (nc_active ctx)) (\<lambda>active. bindm (needm active DEADLINE_EXCEEDED) (\<lambda>_.
     bindm (tick (ne_now env)) (\<lambda>n. needm (n < until) DEADLINE_EXCEEDED)))"

section \<open>Space, counters, admission\<close>

definition used_bytes :: "node \<Rightarrow> int" where
  "used_bytes s = sum_list (map sb_stored (tall (nd_blocks s))) + sum_list (map snd (tall (nd_quarantine s)))"

definition counters :: "string list" where
  "counters = [''client_write_bytes'', ''client_read_bytes'', ''replica_write_bytes'', ''replica_read_bytes'']"

definition traffic :: "node \<Rightarrow> string \<Rightarrow> int" where
  "traffic s name = (case map_of (nd_traffic s) name of None \<Rightarrow> 0 | Some n \<Rightarrow> n)"

definition metrics :: "node_env \<Rightarrow> node_metrics on_node" where
  "metrics env = bindm (tick (ne_free env)) (\<lambda>free. getm (\<lambda>s.
     \<lparr>nm_used = used_bytes s, nm_free = free, nm_active = int (length (tkeys (pin_active (nd_pins s)))),
      nm_reserved = nd_reserved s, nm_counters = map (traffic s) counters\<rparr>))"

definition count_bytes :: "string \<Rightarrow> int \<Rightarrow> unit on_node" where
  "count_bytes name amount = modm (\<lambda>s. s\<lparr>nd_traffic := dict_put name (traffic s name + amount) (nd_traffic s)\<rparr>)"

definition reserve :: "node_env \<Rightarrow> int \<Rightarrow> unit on_node" where
  "reserve env amount =
     bindm (metrics env) (\<lambda>m.
     bindm (needm (nm_used m + nm_reserved m + amount \<le> ne_capacity env \<and>
                   nm_reserved m + amount + 1048576 \<le> nm_free m) NO_SPACE) (\<lambda>_.
     modm (\<lambda>s. s\<lparr>nd_reserved := nd_reserved s + amount\<rparr>)))"

definition unreserve :: "int \<Rightarrow> unit on_node" where
  "unreserve amount = modm (\<lambda>s. s\<lparr>nd_reserved := nd_reserved s - amount\<rparr>)"

text \<open>The loop of \<^verbatim>\<open>admit\<close>: look at the free units, give up at the deadline, wait.\<close>

fun admit_loop :: "node_env \<Rightarrow> int \<Rightarrow> rat \<Rightarrow> nat \<Rightarrow> unit on_node" where
  "admit_loop env w until 0 = raisem OutOfFuel"
| "admit_loop env w until (Suc n) =
     bindm (getm nd_units) (\<lambda>units.
     if w \<le> units then modm (\<lambda>s. s\<lparr>nd_units := nd_units s - w\<rparr>)
     else bindm (tick (ne_mono env)) (\<lambda>t.
          bindm (needm (t < until) SERVICE_UNAVAILABLE) (\<lambda>_.
          bindm (waiting env) (\<lambda>_.
          admit_loop env w until n))))"

definition admitted :: "node_env \<Rightarrow> int \<Rightarrow> 'a on_node \<Rightarrow> 'a on_node" where
  "admitted env block_size body =
     (case weight block_size of
        None \<Rightarrow> raisem ValueError
      | Some w \<Rightarrow>
          bindm (tick (ne_mono env)) (\<lambda>t.
          bindm (admit_loop env w (t + 5) (ne_patience env)) (\<lambda>_.
          finallym body (modm (\<lambda>s. s\<lparr>nd_units := nd_units s + w\<rparr>)))))"

definition pinning :: "string \<Rightarrow> bool \<Rightarrow> unit on_node" where
  "pinning block exclusive =
     bindm (getm nd_pins) (\<lambda>p. bindm (liftm (pin_enter block exclusive p)) (\<lambda>p. modm (\<lambda>s. s\<lparr>nd_pins := p\<rparr>)))"

definition unpinning :: "string \<Rightarrow> unit on_node" where
  "unpinning block =
     bindm (getm nd_pins) (\<lambda>p. bindm (liftm (pin_exit block p)) (\<lambda>p. modm (\<lambda>s. s\<lparr>nd_pins := p\<rparr>)))"

definition pinned :: "string \<Rightarrow> bool \<Rightarrow> 'a on_node \<Rightarrow> 'a on_node" where
  "pinned block exclusive body = bindm (pinning block exclusive) (\<lambda>_. finallym body (unpinning block))"

text \<open>Messages that are not set.\<close>

definition no_fence :: fence where
  "no_fence = \<lparr>f_lock = [], f_handle = [], f_epoch = [], f_generation = 0, f_lease = 0, f_indices = [], f_whole = False,
     f_size = False, f_expires = 0\<rparr>"

definition no_operation :: operation_ref where
  "no_operation = \<lparr>or_id = [], or_request = [], or_intent = []\<rparr>"

definition no_snapshot :: snapshot_ref where
  "no_snapshot = \<lparr>sr_file = [], sr_content_epoch = 0, sr_file_version = 0, sr_root = [], sr_size = 0,
     sr_manifest_sha = [], sr_file_sha = None, sr_block_size = 0\<rparr>"

lemma keeps_frame [keep]:
  "(\<And>h. keeps I (f h)) \<Longrightarrow> (\<And>c. keeps I (g c)) \<Longrightarrow> keeps I e \<Longrightarrow>
   keeps I (case fr of Header h \<Rightarrow> f h | Chunk c \<Rightarrow> g c | Empty_Frame \<Rightarrow> e)"
  by (auto split: stream_frame.split)

end
