(* ===== verification/DataNode.thy ===== *)
theory DataNode
  imports Node_State
begin

text \<open>
  The handlers of a DataNode (\<^verbatim>\<open>src/src/dfsha/datanode/service.py\<close> and \<^verbatim>\<open>patch.py\<close>): the streams of
  clients and of other nodes, the tasks of the control node, and the node's own registration.
\<close>

section \<open>Authorization\<close>

definition write_request :: "node_env \<Rightarrow> string \<Rightarrow> put_header \<Rightarrow> transfer_req" where
  "write_request env token head =
     \<lparr>tr_node = ne_id env, tr_action = WRITE_DATA, tr_token = token, tr_operation = pu_operation head,
      tr_fence = pu_fence head, tr_block = pu_block head, tr_handle = [], tr_read = [], tr_snapshot = no_snapshot,
      tr_offset = 0, tr_length = br_size (pu_block head), tr_capability = pu_capability head,
      tr_replacement = [], tr_delta_sha = []\<rparr>"

definition read_offset :: "get_block_req \<Rightarrow> int" where
  "read_offset req = (case gb_offset req of None \<Rightarrow> 0 | Some i \<Rightarrow> i)"

definition read_length :: "get_block_req \<Rightarrow> int" where
  "read_length req = (case gb_length req of None \<Rightarrow> br_size (gb_block req) - read_offset req | Some n \<Rightarrow> n)"

definition read_request :: "node_env \<Rightarrow> string \<Rightarrow> get_block_req \<Rightarrow> transfer_req" where
  "read_request env token req =
     \<lparr>tr_node = ne_id env, tr_action = READ_DATA, tr_token = token, tr_operation = no_operation, tr_fence = no_fence,
      tr_block = gb_block req, tr_handle = gb_handle req, tr_read = gb_read req, tr_snapshot = gb_snapshot req,
      tr_offset = read_offset req, tr_length = read_length req, tr_capability = gb_capability req,
      tr_replacement = [], tr_delta_sha = []\<rparr>"

text \<open>The deadline of the caller fits the size of the block, and the decision is still good.\<close>

definition timely :: "node_env \<Rightarrow> node_ctx \<Rightarrow> decision \<Rightarrow> unit on_node" where
  "timely env ctx decision =
     bindm (tick (nc_remaining ctx)) (\<lambda>left.
     bindm (liftm (somer (DEADLINES (de_block_size decision)) KeyError Inr)) (\<lambda>seconds.
     bindm (needm (left \<le> of_int (seconds + 2)) INVALID_ARGUMENT) (\<lambda>_.
     bindm (tick (ne_now env)) (\<lambda>n. needm (de_until decision > n) INVALID_ARGUMENT))))"

definition decided :: "node_env \<Rightarrow> node_ctx \<Rightarrow> req_ctx \<Rightarrow> transfer_req \<Rightarrow> decision on_node" where
  "decided env ctx cx req =
     bindm (asking (\<lambda>t. ne_ask_block env t cx req)) (\<lambda>decision.
     bindm (if de_replay decision = None then timely env ctx decision else retm ()) (\<lambda>_.
     retm decision))"

definition authorize_write :: "node_env \<Rightarrow> node_ctx \<Rightarrow> put_header \<Rightarrow> decision on_node" where
  "authorize_write env ctx head =
     bindm (liftm (nc_token ctx)) (\<lambda>token. decided env ctx (pu_cx head) (write_request env token head))"

text \<open>A negative length does not fit the unsigned field of the request.\<close>

definition authorize_read :: "node_env \<Rightarrow> node_ctx \<Rightarrow> get_block_req \<Rightarrow> decision on_node" where
  "authorize_read env ctx req =
     bindm (liftm (nc_token ctx)) (\<lambda>token.
     bindm (liftm (if read_length req < 0 then Inl ValueError else Inr ())) (\<lambda>_.
     bindm (needm (read_offset req \<le> br_size (gb_block req) \<and> 0 < read_length req \<and>
                   read_length req \<le> br_size (gb_block req) - read_offset req) INVALID_ARGUMENT) (\<lambda>_.
     decided env ctx (gb_cx req) (read_request env token req))))"

section \<open>Writing a block\<close>

definition new_receipt :: "node_env \<Rightarrow> string \<Rightarrow> block_ref \<Rightarrow> int \<Rightarrow> string \<Rightarrow> durable_receipt on_node" where
  "new_receipt env op_id block bytes digest =
     bindm (tick (ne_uid env)) (\<lambda>i. bindm (tick (ne_now env)) (\<lambda>n. getm (\<lambda>s.
     \<lparr>dr_id = i, dr_operation = op_id, dr_block = block, dr_node = ne_id env, dr_generation = nd_generation s,
      dr_domain = ne_domain env, dr_stored = bytes, dr_cipher_sha = digest, dr_durable_at = n\<rparr>)))"

definition put_row :: "durable_receipt \<Rightarrow> node \<Rightarrow> node" where
  "put_row receipt s = (let b = dr_block receipt in
     s\<lparr>nd_blocks := tput (br_version b) \<lparr>sb_id = br_version b, sb_ref = b, sb_stored = dr_stored receipt,
        sb_receipt = receipt, sb_unconfirmed = False\<rparr> (nd_blocks s)\<rparr>)"

definition request_key :: "req_ctx \<Rightarrow> string" where
  "request_key cx = cx_user_id cx @ '':'' @ cx_request_id cx"

fun put_chunks :: "node_env \<Rightarrow> node_ctx \<Rightarrow> int \<Rightarrow> int \<Rightarrow> int \<Rightarrow> put_header stream_frame list \<Rightarrow> exn option \<Rightarrow> string list on_node" where
  "put_chunks env ctx until sized offset [] ending = (case ending of None \<Rightarrow> retm [] | Some e \<Rightarrow> raisem e)"
| "put_chunks env ctx until sized offset (frame # frames) ending =
     bindm (still_there env ctx until) (\<lambda>_.
     case frame of
       Chunk c \<Rightarrow>
         bindm (needm (dc_offset c = offset \<and> int (length (dc_data c)) = min CHUNK (sized - offset) \<and> 0 < length (dc_data c))
                  INVALID_ARGUMENT) (\<lambda>_.
         bindm (put_chunks env ctx until sized (offset + int (length (dc_data c))) frames ending) (\<lambda>rest.
         retm (dc_data c # rest)))
     | _ \<Rightarrow> raisem (Fault INVALID_ARGUMENT))"

text \<open>The store writes the object under a fresh data key while \<open>content\<close> delivers its chunks.\<close>

definition write_object :: "node_env \<Rightarrow> block_ref \<Rightarrow> string list on_node \<Rightarrow> (int \<times> string) on_node" where
  "write_object env block content =
     bindm (liftm (path (br_file block) (br_version block))) (\<lambda>_.
     bindm (tick (ne_dek env)) (\<lambda>dek. bindm (tick (ne_prefix env)) (\<lambda>prefix.
     bindm content (\<lambda>chunks.
     bindm (getm nd_disk) (\<lambda>disk.
     bindm (liftm (put (ne_crypto env) (ne_keys env) block chunks dek prefix disk)) (\<lambda>((stored, digest), disk).
     bindm (modm (\<lambda>s. s\<lparr>nd_disk := disk\<rparr>)) (\<lambda>_.
     retm (int stored, digest))))))))"

definition reserving :: "node_env \<Rightarrow> int \<Rightarrow> 'a on_node \<Rightarrow> 'a on_node" where
  "reserving env amount body = bindm (reserve env amount) (\<lambda>_. finallym body (unreserve amount))"

definition record_put :: "node_env \<Rightarrow> put_header \<Rightarrow> durable_receipt \<Rightarrow> unit on_node" where
  "record_put env head receipt =
     bindm (modm (put_row receipt)) (\<lambda>_.
     bindm (modm (\<lambda>s. s\<lparr>nd_puts := tput (request_key (pu_cx head))
              \<lparr>pe_digest = hex (node_intent env (pu_dict head)), pe_receipt = receipt\<rparr> (nd_puts s)\<rparr>)) (\<lambda>_.
     count_bytes ''client_write_bytes'' (br_size (pu_block head))))"

definition store_put :: "node_env \<Rightarrow> node_ctx \<Rightarrow> put_header \<Rightarrow> decision \<Rightarrow> put_header stream_frame incoming \<Rightarrow> durable_receipt on_node" where
  "store_put env ctx head decision = (\<lambda>(frames, ending).
     let block = pu_block head in
     reserving env (storage_cost (br_size block)) (
     bindm (write_object env block (put_chunks env ctx (de_until decision) (br_size block) 0 frames ending)) (\<lambda>(stored, digest).
     bindm (new_receipt env (or_id (pu_operation head)) block stored digest) (\<lambda>receipt.
     bindm (record_put env head receipt) (\<lambda>_.
     retm receipt)))))"

definition earlier :: "node_env \<Rightarrow> json \<Rightarrow> put_entry \<Rightarrow> durable_receipt on_node" where
  "earlier env dict previous =
     bindm (needm (pe_digest previous = hex (node_intent env dict)) IDEMPOTENCY_MISMATCH) (\<lambda>_. retm (pe_receipt previous))"

definition tell_durable :: "node_env \<Rightarrow> durable_report \<Rightarrow> unit on_node" where
  "tell_durable env report =
     bindm (own_context env) (\<lambda>cx. asking (\<lambda>t. ne_tell_durable env t cx report))"

definition PutBlock :: "node_env \<Rightarrow> node_ctx \<Rightarrow> put_header stream_frame incoming \<Rightarrow> durable_receipt on_node" where
  "PutBlock env ctx = (\<lambda>(frames, ending).
     case frames of
       Header head # rest \<Rightarrow>
         bindm (authorize_write env ctx head) (\<lambda>decision.
         case de_replay decision of
           Some receipt \<Rightarrow> retm receipt
         | None \<Rightarrow>
             bindm (getm (\<lambda>s. tget (nd_puts s) (request_key (pu_cx head)))) (\<lambda>previous.
             bindm (case previous of
                      Some p \<Rightarrow> earlier env (pu_dict head) p
                    | None \<Rightarrow> admitted env (de_block_size decision) (pinned (br_version (pu_block head)) True (
                        store_put env ctx head decision (rest, ending)))) (\<lambda>receipt.
             bindm (tell_durable env (Put_Report receipt head)) (\<lambda>_.
             retm receipt))))
     | _ \<Rightarrow> raisem (Fault INVALID_ARGUMENT))"

section \<open>Patching a block\<close>

definition patch_request :: "node_env \<Rightarrow> string \<Rightarrow> string \<Rightarrow> patch_header \<Rightarrow> transfer_req" where
  "patch_request env token cap head =
     \<lparr>tr_node = ne_id env, tr_action = PATCH_DATA, tr_token = token, tr_operation = ph_operation head,
      tr_fence = ph_fence head, tr_block = ph_base head, tr_handle = [], tr_read = [], tr_snapshot = no_snapshot,
      tr_offset = ph_offset head, tr_length = ph_length head, tr_capability = cap,
      tr_replacement = ph_new head, tr_delta_sha = ph_sha head\<rparr>"

text \<open>Waiting for the base block, which another node may still be sending.\<close>

fun wait_base :: "node_env \<Rightarrow> node_ctx \<Rightarrow> block_ref \<Rightarrow> rat \<Rightarrow> int \<Rightarrow> nat \<Rightarrow> unit on_node" where
  "wait_base env ctx base until valid_until 0 = raisem OutOfFuel"
| "wait_base env ctx base until valid_until (Suc n) =
     bindm (getm (\<lambda>s. tget (nd_blocks s) (br_version base))) (\<lambda>row.
     case row of
       Some b \<Rightarrow> needm (sb_ref b = base) DATA_LOSS
     | None \<Rightarrow>
         bindm (tick (nc_active ctx)) (\<lambda>active. bindm (needm active DATA_UNAVAILABLE) (\<lambda>_.
         bindm (tick (ne_mono env)) (\<lambda>t. bindm (needm (t < until) DATA_UNAVAILABLE) (\<lambda>_.
         bindm (tick (ne_now env)) (\<lambda>now. bindm (needm (now < valid_until) DATA_UNAVAILABLE) (\<lambda>_.
         bindm (waiting env) (\<lambda>_.
         wait_base env ctx base until valid_until n))))))))"

fun pin_base :: "node_env \<Rightarrow> node_ctx \<Rightarrow> string \<Rightarrow> rat \<Rightarrow> nat \<Rightarrow> unit on_node" where
  "pin_base env ctx base until 0 = raisem OutOfFuel"
| "pin_base env ctx base until (Suc n) =
     catchm (pinning base False) (\<lambda>e.
     if e \<noteq> Fault LOCK_BUSY then raisem e
     else bindm (tick (nc_active ctx)) (\<lambda>active. bindm (needm active DATA_UNAVAILABLE) (\<lambda>_.
          bindm (tick (ne_mono env)) (\<lambda>t. bindm (needm (t < until) DATA_UNAVAILABLE) (\<lambda>_.
          bindm (waiting env) (\<lambda>_.
          pin_base env ctx base until n))))))"

text \<open>The bytes that replace a range, received in chunks.\<close>

fun delta_chunks :: "node_env \<Rightarrow> node_ctx \<Rightarrow> int \<Rightarrow> int \<Rightarrow> string \<Rightarrow> patch_header stream_frame list \<Rightarrow> exn option \<Rightarrow> string on_node" where
  "delta_chunks env ctx until len delta [] ending = (case ending of None \<Rightarrow> retm delta | Some e \<Rightarrow> raisem e)"
| "delta_chunks env ctx until len delta (frame # frames) ending =
     bindm (still_there env ctx until) (\<lambda>_.
     case frame of
       Chunk c \<Rightarrow>
         bindm (needm (dc_offset c = int (length delta) \<and> 0 < length (dc_data c) \<and> int (length (dc_data c)) \<le> CHUNK \<and>
                       int (length delta) + int (length (dc_data c)) \<le> len) INVALID_ARGUMENT) (\<lambda>_.
         delta_chunks env ctx until len (delta @ dc_data c) frames ending)
     | _ \<Rightarrow> raisem (Fault INVALID_ARGUMENT))"

text \<open>
  One step of \<^verbatim>\<open>result_chunks\<close>: draw chunks of the base until enough bytes are pending, cut off the
  wanted ones, fill up what lies beyond the base, and overlay the part of the delta that falls here.
\<close>

fun fill :: "nat \<Rightarrow> string \<Rightarrow> string list \<Rightarrow> string \<times> string list" where
  "fill wanted pending [] = (pending, [])"
| "fill wanted pending (chunk # source) =
     (if length pending < wanted then fill wanted (pending @ chunk) source else (pending, chunk # source))"

definition overlay :: "nat \<Rightarrow> nat \<Rightarrow> string \<Rightarrow> string \<Rightarrow> string" where
  "overlay offset start delta chunk =
     (let low = max offset start; high = min (offset + length chunk) (start + length delta) in
      if low < high
      then take (low - offset) chunk @ take (high - low) (drop (low - start) delta) @ drop (high - offset) chunk
      else chunk)"

definition cut_chunk :: "nat \<Rightarrow> string \<Rightarrow> nat \<Rightarrow> nat \<Rightarrow> string \<Rightarrow> string res" where
  "cut_chunk start delta offset wanted pending =
     (let chunk = take wanted pending in
      need (wanted \<le> length chunk \<or>
            start \<le> offset + length chunk \<and> offset + wanted \<le> start + length delta) SPARSE_WRITE_UNSUPPORTED (
      Inr (overlay offset start delta (chunk @ replicate (wanted - length chunk) (CHR 0x00)))))"

function result_chunks :: "node_env \<Rightarrow> node_ctx \<Rightarrow> int \<Rightarrow> nat \<Rightarrow> nat \<Rightarrow> string \<Rightarrow> nat \<Rightarrow> string \<Rightarrow> string list \<Rightarrow> string list on_node" where
  "result_chunks env ctx until sized start delta offset pending source =
     (if sized \<le> offset then retm []
      else let wanted = min (nat CHUNK) (sized - offset); (pending, source) = fill wanted pending source in
        bindm (liftm (cut_chunk start delta offset wanted pending)) (\<lambda>chunk.
        bindm (still_there env ctx until) (\<lambda>_.
        bindm (result_chunks env ctx until sized start delta (offset + wanted) (drop wanted pending) source) (\<lambda>rest.
        retm (chunk # rest)))))"
  by pat_completeness auto
termination
  by (relation "measure (\<lambda>(env, ctx, until, sized, start, delta, offset, pending, source). sized - offset)")
     (auto simp: CHUNK_def)

declare result_chunks.simps [simp del]

text \<open>The base is opened when its first bytes are wanted, and read from the start in each of the two passes.\<close>

definition patched :: "node_env \<Rightarrow> node_ctx \<Rightarrow> decision \<Rightarrow> patch_header \<Rightarrow> string \<Rightarrow> string list on_node" where
  "patched env ctx decision head delta =
     bindm (getm nd_disk) (\<lambda>disk.
     bindm (liftm (if br_version (ph_base head) \<noteq> [] \<and> 0 < de_replacement_size decision
                   then read_verified (ne_crypto env) (ne_keys env) disk (ph_base head) else Inr [])) (\<lambda>source.
     result_chunks env ctx (de_until decision) (nat (de_replacement_size decision)) (nat (ph_offset head)) delta 0 [] source))"

definition record_patch :: "node_env \<Rightarrow> patch_header \<Rightarrow> string \<Rightarrow> durable_receipt \<Rightarrow> unit on_node" where
  "record_patch env head delta receipt =
     bindm (modm (put_row receipt)) (\<lambda>_.
     bindm (modm (\<lambda>s. s\<lparr>nd_patches := tput (request_key (cl_cx (ph_call head)))
              \<lparr>pe_digest = hex (node_intent env (cl_dict (ph_call head))), pe_receipt = receipt\<rparr> (nd_patches s)\<rparr>)) (\<lambda>_.
     bindm (count_bytes ''client_write_bytes'' (int (length delta))) (\<lambda>_.
     bindm (count_bytes ''patch_base_plaintext_processed_bytes'' (4 * br_size (ph_base head))) (\<lambda>_.
     bindm (count_bytes ''patch_result_processed_bytes'' (2 * br_size (dr_block receipt))) (\<lambda>_.
     count_bytes ''patch_ciphertext_stored_bytes'' (dr_stored receipt))))))"

definition store_patch :: "node_env \<Rightarrow> node_ctx \<Rightarrow> patch_header \<Rightarrow> decision \<Rightarrow> patch_header stream_frame incoming \<Rightarrow> durable_receipt on_node" where
  "store_patch env ctx head decision = (\<lambda>(frames, ending).
     reserving env (storage_cost (de_replacement_size decision)) (
     bindm (delta_chunks env ctx (de_until decision) (ph_length head) [] frames ending) (\<lambda>delta.
     bindm (needm (int (length delta) = ph_length head \<and> hash (ne_crypto env) delta = ph_sha head) CHECKSUM_MISMATCH) (\<lambda>_.
     bindm (needm (ph_offset head \<le> br_size (ph_base head)) SPARSE_WRITE_UNSUPPORTED) (\<lambda>_.
     bindm (getm (\<lambda>s. tget (nd_blocks s) (br_version (ph_base head)))) (\<lambda>row.
     bindm (needm (br_version (ph_base head) = [] \<or> map_option sb_ref row = Some (ph_base head)) DATA_UNAVAILABLE) (\<lambda>_.
     bindm (patched env ctx decision head delta) (\<lambda>first.
     let replacement = \<lparr>br_file = br_file (ph_base head), br_version = ph_new head, br_index = br_index (ph_base head),
           br_size = de_replacement_size decision, br_sha = hash (ne_crypto env) (concat first)\<rparr> in
     bindm (write_object env replacement (patched env ctx decision head delta)) (\<lambda>(stored, digest).
     bindm (new_receipt env (or_id (ph_operation head)) replacement stored digest) (\<lambda>receipt.
     bindm (record_patch env head delta receipt) (\<lambda>_.
     retm receipt)))))))))))"

definition with_base :: "node_env \<Rightarrow> node_ctx \<Rightarrow> string \<Rightarrow> rat \<Rightarrow> 'a on_node \<Rightarrow> 'a on_node" where
  "with_base env ctx base until body =
     (if base = [] then body
      else bindm (pin_base env ctx base until (ne_patience env)) (\<lambda>_. finallym body (unpinning base)))"

definition patch_block :: "node_env \<Rightarrow> node_ctx \<Rightarrow> string \<Rightarrow> patch_header stream_frame incoming \<Rightarrow> durable_receipt on_node" where
  "patch_block env ctx cap = (\<lambda>(frames, ending).
     case frames of
       Header head # rest \<Rightarrow>
         bindm (liftm (checked_range (ph_offset head) (ph_length head) (Some MAX_DELTA))) (\<lambda>_.
         bindm (needm (0 < ph_length head \<and> ph_length head \<le> MAX_DELTA \<and> length (ph_sha head) = 32) INVALID_ARGUMENT) (\<lambda>_.
         bindm (liftm (nc_token ctx)) (\<lambda>token.
         bindm (asking (\<lambda>t. ne_ask_block env t (cl_cx (ph_call head)) (patch_request env token cap head))) (\<lambda>decision.
         case de_replay decision of
           Some receipt \<Rightarrow> retm receipt
         | None \<Rightarrow>
             bindm (timely env ctx decision) (\<lambda>_.
             let base = br_version (ph_base head) in
             bindm (if base = [] then retm 0
                    else bindm (tick (ne_mono env)) (\<lambda>t. bindm (tick (nc_remaining ctx)) (\<lambda>left.
                         let until = t + min 60 left in
                         bindm (wait_base env ctx (ph_base head) until (de_until decision) (ne_patience env)) (\<lambda>_.
                         retm until)))) (\<lambda>until.
             bindm (admitted env (de_block_size decision) (pinned (ph_new head) True (with_base env ctx base until (
                      bindm (getm (\<lambda>s. tget (nd_patches s) (request_key (cl_cx (ph_call head))))) (\<lambda>previous.
                      case previous of
                        Some p \<Rightarrow> earlier env (cl_dict (ph_call head)) p
                      | None \<Rightarrow> store_patch env ctx head decision (rest, ending)))))) (\<lambda>receipt.
             bindm (tell_durable env (Patch_Report receipt head)) (\<lambda>_.
             retm receipt))))))))
     | _ \<Rightarrow> raisem (Fault INVALID_ARGUMENT))"

text \<open>Without patches (\<^verbatim>\<open>rf3_enabled\<close>) the call is refused as not implemented.\<close>

definition PatchBlock :: "node_env \<Rightarrow> node_ctx \<Rightarrow> string \<Rightarrow> patch_header stream_frame incoming \<Rightarrow> durable_receipt on_node" where
  "PatchBlock env ctx cap frames =
     (if ne_rf3 env then patch_block env ctx cap frames else raisem (Fault NOT_IMPLEMENTED_STAGE2))"

section \<open>Reading a block\<close>

text \<open>
  A generator delivers frames until it ends or raises. Its run is the list of frames delivered
  and the exception that ended it, if one did.
\<close>

type_synonym 'h outgoing = "'h stream_frame list \<times> exn option"

fun get_chunks :: "node_env \<Rightarrow> node_ctx \<Rightarrow> int \<Rightarrow> int \<Rightarrow> int \<Rightarrow> int \<Rightarrow> int \<Rightarrow> string list \<Rightarrow> read_header outgoing on_node" where
  "get_chunks env ctx until start len ttl position [] = retm ([], None)"
| "get_chunks env ctx until start len ttl position (chunk # chunks) =
     bindm (trym (still_there env ctx until)) (\<lambda>there.
     case there of
       Inl e \<Rightarrow> retm ([], Some e)
     | Inr _ \<Rightarrow>
         (let low = max start position; high = min (start + len) (position + int (length chunk));
              payload = take (nat (high - low)) (drop (nat (low - position)) chunk);
              out = (if low < high then [Chunk \<lparr>dc_offset = ttl, dc_data = payload\<rparr>] else []);
              ttl = (if low < high then ttl + int (length payload) else ttl);
              position = position + int (length chunk)
          in if start + len \<le> position then retm (out, None)
             else bindm (get_chunks env ctx until start len ttl position chunks) (\<lambda>(frames, ending).
                  retm (out @ frames, ending))))"

definition payload :: "'h stream_frame list \<Rightarrow> string" where
  "payload frames = concat (map (\<lambda>f. case f of Chunk c \<Rightarrow> dc_data c | _ \<Rightarrow> []) frames)"

definition read_stream :: "node_env \<Rightarrow> node_ctx \<Rightarrow> get_block_req \<Rightarrow> int \<Rightarrow> read_header outgoing on_node" where
  "read_stream env ctx req until =
     (let block = gb_block req; start = read_offset req; len = read_length req in
      bindm (getm nd_disk) (\<lambda>disk.
      bindm (liftm (read_verified (ne_crypto env) (ne_keys env) disk block)) (\<lambda>chunks.
      bindm (get_chunks env ctx until start len 0 0 chunks) (\<lambda>(frames, ending).
      retm (Header \<lparr>rh_block = block, rh_offset = start, rh_length = len,
              rh_sha = (if start = 0 \<and> len = br_size block then br_sha block else [])\<rparr> # frames, ending)))))"

text \<open>What is delivered is counted however the stream ends.\<close>

definition counted :: "string \<Rightarrow> 'h outgoing on_node \<Rightarrow> 'h outgoing on_node" where
  "counted name stream =
     bindm (catchm stream (\<lambda>e. retm ([], Some e))) (\<lambda>(frames, ending).
     bindm (count_bytes name (int (length (payload frames)))) (\<lambda>_.
     retm (frames, ending)))"

definition GetBlock :: "node_env \<Rightarrow> node_ctx \<Rightarrow> get_block_req \<Rightarrow> read_header outgoing on_node" where
  "GetBlock env ctx req =
     bindm (authorize_read env ctx req) (\<lambda>decision.
     bindm (getm (\<lambda>s. tget (nd_blocks s) (br_version (gb_block req)))) (\<lambda>row.
     bindm (needm (map_option sb_ref row = Some (gb_block req)) DATA_UNAVAILABLE) (\<lambda>_.
     counted ''client_read_bytes'' (
       admitted env (de_block_size decision) (pinned (br_version (gb_block req)) False (
       read_stream env ctx req (de_until decision)))))))"

end
