(* ===== verification/Patching.thy ===== *)
theory Patching
  imports DataNode "HOL-Library.Sublist"
begin

text \<open>
  What a patch writes and what a read delivers (\<^verbatim>\<open>patch.py\<close>, \<^verbatim>\<open>GetBlock\<close>): the streams of chunks
  against their reference definitions on whole byte strings.
\<close>

section \<open>Splicing\<close>

text \<open>The reference: a byte string with a range replaced, or extended at its end.\<close>

definition spliced :: "nat \<Rightarrow> string \<Rightarrow> string \<Rightarrow> string" where
  "spliced start delta base = take start base @ delta @ drop (start + length delta) base"

lemma length_splice: "start \<le> length base \<Longrightarrow> length (spliced start delta base) = max (length base) (start + length delta)"
  by (simp add: spliced_def)

lemma nth_splice:
  assumes "start \<le> length base" and "i < max (length base) (start + length delta)"
  shows "spliced start delta base ! i = (if start \<le> i \<and> i < start + length delta then delta ! (i - start) else base ! i)"
proof -
  have "min (length base) start = start" using assms(1) by simp
  then show ?thesis using assms
    by (auto simp: spliced_def nth_append)
qed

lemma length_overlay [simp]: "length (overlay offset start delta chunk) = length chunk"
  by (auto simp: overlay_def Let_def)

lemma nth_middle:
  "length xs \<le> i \<Longrightarrow> i < length xs + length ys \<Longrightarrow> (xs @ ys @ zs) ! i = ys ! (i - length xs)"
  "length xs + length ys \<le> i \<Longrightarrow> (xs @ ys @ zs) ! i = zs ! (i - length xs - length ys)"
  by (auto simp: nth_append)

lemma nth_overlay:
  assumes "i < length chunk"
  shows "overlay offset start delta chunk ! i =
     (if start \<le> offset + i \<and> offset + i < start + length delta then delta ! (offset + i - start) else chunk ! i)"
proof (cases "max offset start < min (offset + length chunk) (start + length delta)")
  case False
  with assms show ?thesis by (auto simp: overlay_def Let_def)
next
  case True
  define low where "low = max offset start"
  define high where "high = min (offset + length chunk) (start + length delta)"
  have o: "overlay offset start delta chunk =
      take (low - offset) chunk @ take (high - low) (drop (low - start) delta) @ drop (high - offset) chunk"
    using True by (simp add: overlay_def low_def high_def Let_def)
  let ?xs = "take (low - offset) chunk" and ?ys = "take (high - low) (drop (low - start) delta)"
  have b: "offset \<le> low" "start \<le> low" "low < high" "high \<le> offset + length chunk" "high \<le> start + length delta"
    using True by (simp_all add: low_def high_def)
  then have len: "length ?xs = low - offset" "length ?ys = high - low" by auto
  have in_range: "start \<le> offset + i \<and> offset + i < start + length delta \<longleftrightarrow> low - offset \<le> i \<and> i < high - offset"
    using assms b by (auto simp: low_def high_def)
  consider "i < low - offset" | "low - offset \<le> i" "i < high - offset" | "high - offset \<le> i" by linarith
  then show ?thesis
  proof cases
    case 1
    then show ?thesis unfolding o in_range using assms by (simp add: nth_append)
  next
    case 2
    have "low - start + (i - (low - offset)) = offset + i - start" using 2 b by linarith
    moreover have "?ys ! (i - (low - offset)) = delta ! (low - start + (i - (low - offset)))"
      using 2 b by (subst nth_take) auto
    moreover have "overlay offset start delta chunk ! i = ?ys ! (i - length ?xs)"
      unfolding o by (rule nth_middle(1), unfold len) (use 2 b in linarith)+
    ultimately show ?thesis using 2 by (simp only: in_range len) simp
  next
    case 3
    have "overlay offset start delta chunk ! i = drop (high - offset) chunk ! (i - length ?xs - length ?ys)"
      unfolding o by (rule nth_middle(2), unfold len) (use 3 b in linarith)
    also have "\<dots> = chunk ! (high - offset + (i - (low - offset) - (high - low)))"
      using 3 b assms by (simp only: len) (intro nth_drop, linarith)
    also have "high - offset + (i - (low - offset) - (high - low)) = i" using 3 b by linarith
    finally show ?thesis using 3 by (simp only: in_range) simp
  qed
qed

lemma cut_chunk_splice:
  assumes "start \<le> length base" and "offset + wanted \<le> max (length base) (start + length delta)"
    and "take wanted pending = take wanted (drop offset base)"
  shows "cut_chunk start delta offset wanted pending = Inr (take wanted (drop offset (spliced start delta base)))"
proof -
  let ?c = "take wanted (drop offset base)"
  let ?p = "?c @ replicate (wanted - length ?c) (CHR 0x00)"
  have len: "length ?p = wanted" by simp
  have "overlay offset start delta ?p = take wanted (drop offset (spliced start delta base))"
  proof (rule nth_equalityI)
    show "length (overlay offset start delta ?p) = length (take wanted (drop offset (spliced start delta base)))"
      using assms by (simp add: length_splice)
    fix i
    assume "i < length (overlay offset start delta ?p)"
    then have i: "i < wanted" by simp
    have "?p ! i = base ! (offset + i)" if "offset + i < length base" using that i by (auto simp: nth_append)
    then show "overlay offset start delta ?p ! i = take wanted (drop offset (spliced start delta base)) ! i"
      using i assms nth_overlay [of i ?p offset start delta] by (auto simp: nth_splice length_splice)
  qed
  moreover have "wanted \<le> length ?c \<or> start \<le> offset + length ?c \<and> offset + wanted \<le> start + length delta"
    using assms by auto
  ultimately show ?thesis using assms(3) by (simp add: cut_chunk_def Let_def)
qed

lemma fill_bytes: "fill wanted pending source = (p, r) \<Longrightarrow> p @ concat r = pending @ concat source \<and> (wanted \<le> length p \<or> r = [])"
  by (induction wanted pending source arbitrary: p r rule: fill.induct) (auto split: if_splits)

lemma fill_take:
  assumes "fill wanted pending source = (p, r)"
  shows "take wanted p = take wanted (pending @ concat source)" "drop wanted p @ concat r = drop wanted (pending @ concat source)"
proof -
  from fill_bytes [OF assms] have same: "pending @ concat source = p @ concat r" and e: "wanted \<le> length p \<or> r = []" by auto
  show "take wanted p = take wanted (pending @ concat source)" "drop wanted p @ concat r = drop wanted (pending @ concat source)"
    unfolding same using e by auto
qed

text \<open>
  The loop of a patch, against the reference: the stream ends because the caller is gone or its time
  is over, or it delivers exactly the spliced bytes, in chunks of the usual size.
\<close>

definition only_tick :: "node \<Rightarrow> node \<Rightarrow> bool" where
  "only_tick s t \<longleftrightarrow> (\<exists>n. t = s\<lparr>nd_tick := n\<rparr>)"

lemma only_tick_refl [simp]: "only_tick s s"
  unfolding only_tick_def by (rule exI [of _ "nd_tick s"]) simp

lemma only_tick_trans: "only_tick s t \<Longrightarrow> only_tick t u \<Longrightarrow> only_tick s u"
  by (auto simp: only_tick_def)

lemma still_there_cases:
  assumes "still_there env ctx until s = (r, t)"
  shows "r = Inr () \<or> r = Inl (Fault DEADLINE_EXCEEDED)" and "only_tick s t"
  using assms by (auto simp: only_tick_def still_there_def bindm_def tick_def needm_def split: if_splits)

lemma ceil_step:
  assumes "0 < c" and "0 < x"
  shows "(x + (c - 1)) div c = Suc ((x - min c x + (c - 1)) div (c :: nat))"
proof (cases "c \<le> x")
  case True
  then obtain y where "x = y + c" by (metis add.commute le_Suc_ex)
  then have x: "x + (c - 1) = (y + (c - 1)) + c" "x - min c x = y" by simp_all
  show ?thesis unfolding x using assms(1) by (simp only: div_add_self2)
next
  case False
  then have x: "x + (c - 1) = (x - 1) + c" "x - min c x = 0" using assms by simp_all
  show ?thesis unfolding x using False assms by (simp only: div_add_self2) simp
qed

lemma result_chunks_splice:
  assumes "start \<le> length base" and "sized = max (length base) (start + length delta)"
    and "pending @ concat source = drop offset base"
    and "result_chunks env ctx until sized start delta offset pending source s = (r, t)"
  shows "(r = Inl (Fault DEADLINE_EXCEEDED) \<or>
      (\<exists>chunks. r = Inr chunks \<and> concat chunks = drop offset (spliced start delta base) \<and>
         (offset \<le> sized \<longrightarrow> length chunks = (sized - offset + (nat CHUNK - 1)) div nat CHUNK) \<and>
         list_all (\<lambda>c. c \<noteq> [] \<and> int (length c) \<le> CHUNK) chunks)) \<and> only_tick s t"
  using assms(3,4)
proof (induction "sized - offset" arbitrary: offset pending source s r t rule: less_induct)
  case less
  note run = less.prems(2) [unfolded result_chunks.simps [of env ctx until sized start delta offset]]
  show ?case
  proof (cases "sized \<le> offset")
    case True
    with run have "r = Inr []" "t = s" by simp_all
    with True assms(1,2) show ?thesis by (simp add: length_splice CHUNK_def)
  next
    case False
    define wanted where "wanted = min (nat CHUNK) (sized - offset)"
    obtain p rest where f: "fill wanted pending source = (p, rest)" by fastforce
    have w: "0 < wanted" "wanted \<le> nat CHUNK" "offset + wanted \<le> sized" using False by (auto simp: wanted_def CHUNK_def)
    note cut = fill_take [OF f, unfolded less.prems(1)]
    have chunk: "cut_chunk start delta offset wanted p = Inr (take wanted (drop offset (spliced start delta base)))"
      using cut(1) w assms(1,2) by (intro cut_chunk_splice) auto
    let ?go = "result_chunks env ctx until sized start delta (offset + wanted) (drop wanted p) rest"
    let ?c = "take wanted (drop offset (spliced start delta base))"
    from run False f chunk have run': "bindm (still_there env ctx until) (\<lambda>_. bindm ?go (\<lambda>rest. retm (?c # rest))) s = (r, t)"
      by (simp add: wanted_def [symmetric] Let_def bindm_run)
    obtain q u where st: "still_there env ctx until s = (q, u)" by fastforce
    note here = still_there_cases [OF st]
    show ?thesis
    proof (cases "q = Inr ()")
      case False
      with here run' st show ?thesis by (auto simp: bindm_def)
    next
      case True
      obtain r' t' where g: "?go u = (r', t')" by fastforce
      have next_bytes: "drop wanted p @ concat rest = drop (offset + wanted) base" using cut(2) by (simp add: add.commute)
      have smaller: "sized - (offset + wanted) < sized - offset" using w False by simp
      note ih = less.hyps [OF smaller next_bytes g]
      have out: "(r, t) = (case r' of Inl e \<Rightarrow> (Inl e, t') | Inr cs \<Rightarrow> (Inr (?c # cs), t'))"
        using run' st True g by (auto simp: bindm_def split: sum.splits)
      have lc: "?c \<noteq> []" "int (length ?c) \<le> CHUNK" using w assms(1,2) False by (auto simp: length_splice CHUNK_def)
      have num: "(sized - offset + (nat CHUNK - 1)) div nat CHUNK = Suc ((sized - (offset + wanted) + (nat CHUNK - 1)) div nat CHUNK)"
        using ceil_step [of "nat CHUNK" "sized - offset"] False by (simp add: wanted_def CHUNK_def)
      have "?c @ drop (offset + wanted) (spliced start delta base) = drop offset (spliced start delta base)"
        by (metis append_take_drop_id drop_drop add.commute)
      note whole = this
      show ?thesis
      proof (cases r')
        case (Inl e)
        with ih out here(2) show ?thesis by (auto dest: only_tick_trans)
      next
        case (Inr cs)
        with ih have cs: "concat cs = drop (offset + wanted) (spliced start delta base)"
          "length cs = (sized - (offset + wanted) + (nat CHUNK - 1)) div nat CHUNK"
          "list_all (\<lambda>c. c \<noteq> [] \<and> int (length c) \<le> CHUNK) cs" "only_tick u t'" using w(3) by auto
        have "concat (?c # cs) = drop offset (spliced start delta base)" by (simp only: concat.simps cs(1) whole)
        moreover have "length (?c # cs) = (sized - offset + (nat CHUNK - 1)) div nat CHUNK" by (simp only: list.size num cs(2))
        moreover have "list_all (\<lambda>c. c \<noteq> [] \<and> int (length c) \<le> CHUNK) (?c # cs)" by (simp only: list.pred_inject lc cs(3) simp_thms)
        moreover have "r = Inr (?c # cs)" "t = t'" using out Inr by simp_all
        ultimately show ?thesis using only_tick_trans [OF here(2) cs(4)] by blast
      qed
    qed
  qed
qed

section \<open>Slices\<close>

text \<open>The part of a byte string a read asks for.\<close>

definition slice_of :: "int \<Rightarrow> int \<Rightarrow> string \<Rightarrow> string" where
  "slice_of start len bytes = take (nat len) (drop (nat start) bytes)"

lemma payload_simps [simp]:
  "payload [] = []" "payload (Header h # fs) = payload fs" "payload (Chunk c # fs) = dc_data c @ payload fs"
  "payload (fs @ gs) = payload fs @ payload gs"
  by (simp_all add: payload_def)

text \<open>Chunks of a delivery are numbered by the bytes delivered before them.\<close>

fun contiguous :: "int \<Rightarrow> 'h stream_frame list \<Rightarrow> bool" where
  "contiguous ttl [] = True"
| "contiguous ttl (Chunk c # fs) = (dc_offset c = ttl \<and> dc_data c \<noteq> [] \<and> contiguous (ttl + int (length (dc_data c))) fs)"
| "contiguous ttl (f # fs) = False"

lemma trym_still_there:
  assumes "trym (still_there env ctx until) s = (q, t)"
  shows "\<exists>x. q = Inr x \<and> (x = Inr () \<or> x = Inl (Fault DEADLINE_EXCEEDED))" "only_tick s t"
proof -
  obtain r u where st: "still_there env ctx until s = (r, u)" by fastforce
  from still_there_cases [OF st] st assms show "\<exists>x. q = Inr x \<and> (x = Inr () \<or> x = Inl (Fault DEADLINE_EXCEEDED))" "only_tick s t"
    by (auto simp: trym_def catchm_def bindm_def)
qed

text \<open>What is left to deliver of a read once \<open>position\<close> bytes of the block are behind.\<close>

definition wanted_from :: "int \<Rightarrow> int \<Rightarrow> int \<Rightarrow> string \<Rightarrow> string" where
  "wanted_from start len position bytes = take (nat (start + len - max start position)) (drop (nat (start - position)) bytes)"

lemma wanted_nat:
  "take (a + l - max a p) (drop (a - p) (chunk @ rest)) =
   take (min (a + l) (p + length chunk) - max a p) (drop (max a p - p) chunk) @
   take (a + l - max a (p + length chunk)) (drop (a - (p + length chunk)) (rest :: 'a list))"
proof -
  have rest: "a - p - length chunk = a - (p + length chunk)" "a + l - max a p - (length chunk - (a - p)) = a + l - max a (p + length chunk)"
    by (auto simp: max_def)
  have first: "take (a + l - max a p) (drop (a - p) chunk) = take (min (a + l) (p + length chunk) - max a p) (drop (max a p - p) chunk)"
    by (cases "a + l \<le> p + length chunk") (auto simp: max_def min_def)
  show ?thesis unfolding drop_append take_append length_drop rest first ..
qed

lemma wanted_from_chunk:
  assumes "0 \<le> start" "0 \<le> len" "0 \<le> position"
  shows "wanted_from start len position (chunk @ rest) =
    take (nat (min (start + len) (position + int (length chunk)) - max start position)) (drop (nat (max start position - position)) chunk) @
    wanted_from start len (position + int (length chunk)) rest"
proof -
  obtain a l p where n: "start = int a" "len = int l" "position = int p" using assms by (metis nonneg_int_cases)
  have j: "nat (int x - int y) = x - y" for x y by simp
  show ?thesis
    unfolding wanted_from_def n of_nat_max [symmetric] of_nat_min [symmetric] of_nat_add [symmetric] j by (rule wanted_nat)
qed

lemma wanted_from_end [simp]: "start + len \<le> position \<Longrightarrow> wanted_from start len position bytes = []"
  by (simp add: wanted_from_def)

lemma get_chunks_slice:
  assumes "0 \<le> start" "0 \<le> len"
    and "0 \<le> position" and "get_chunks env ctx until start len ttl position chunks s = (r, t)"
  shows "only_tick s t \<and> (\<exists>frames ending. r = Inr (frames, ending) \<and> contiguous ttl frames \<and>
     (ending = None \<and> payload frames = wanted_from start len position (concat chunks) \<or>
      ending = Some (Fault DEADLINE_EXCEEDED) \<and> prefix (payload frames) (wanted_from start len position (concat chunks))))"
  using assms(3,4)
proof (induction chunks arbitrary: position ttl s r t)
  case Nil
  then show ?case by (auto simp: wanted_from_def)
next
  case (Cons chunk chunks)
  obtain q u where st: "trym (still_there env ctx until) s = (q, u)" by fastforce
  define low where "low = max start position"
  define high where "high = min (start + len) (position + int (length chunk))"
  define pay where "pay = take (nat (high - low)) (drop (nat (low - position)) chunk)"
  define out where "out = (if low < high then [Chunk \<lparr>dc_offset = ttl, dc_data = pay\<rparr>] else [] :: read_header stream_frame list)"
  define ttl' where "ttl' = (if low < high then ttl + int (length pay) else ttl)"
  have w: "wanted_from start len position (concat (chunk # chunks)) = pay @ wanted_from start len (position + int (length chunk)) (concat chunks)"
    using wanted_from_chunk [OF assms(1,2) Cons.prems(1)] by (simp add: pay_def low_def high_def)
  have "nat (low - position) < length chunk" if "low < high"
    using that Cons.prems(1) by (auto simp: low_def high_def nat_less_iff max_def)
  then have pay: "payload out = pay" "low < high \<Longrightarrow> pay \<noteq> []" by (auto simp: out_def pay_def)
  from trym_still_there [OF st] consider "q = Inr (Inr ())" | "q = Inr (Inl (Fault DEADLINE_EXCEEDED))" by blast
  then show ?case
  proof cases
    case 2
    with Cons.prems(2) st trym_still_there(2) [OF st] show ?thesis by (auto simp: bindm_def)
  next
    case 1
    show ?thesis
    proof (cases "start + len \<le> position + int (length chunk)")
      case True
      with Cons.prems(2) st 1 have "r = Inr (out, None)" "t = u"
        by (auto simp: bindm_def Let_def out_def pay_def low_def high_def)
      with w True pay trym_still_there(2) [OF st] show ?thesis by (auto simp: out_def)
    next
      case False
      obtain r' t' where g: "get_chunks env ctx until start len ttl' (position + int (length chunk)) chunks u = (r', t')" by fastforce
      from Cons.IH [OF _ g] Cons.prems(1) obtain frames ending where
        ih: "only_tick u t'" "r' = Inr (frames, ending)" "contiguous ttl' frames" and
        ends: "ending = None \<and> payload frames = wanted_from start len (position + int (length chunk)) (concat chunks) \<or>
        ending = Some (Fault DEADLINE_EXCEEDED) \<and> prefix (payload frames) (wanted_from start len (position + int (length chunk)) (concat chunks))"
        by auto
      have "r = Inr (out @ frames, ending)" "t = t'"
        using Cons.prems(2) st 1 False g ih(2)
        by (auto simp: bindm_def Let_def out_def pay_def low_def high_def ttl'_def split: if_splits)
      moreover have "contiguous ttl (out @ frames)" using ih(3) pay(2) by (auto simp: out_def ttl'_def)
      ultimately show ?thesis
        using ends ih(1) trym_still_there(2) [OF st] w pay(1) by (auto dest: only_tick_trans)
    qed
  qed
qed

section \<open>Storing\<close>

text \<open>What the node relies on of its keys and random values.\<close>

definition env_ok :: "node_env \<Rightarrow> bool" where
  "env_ok env \<longleftrightarrow> crypto_ok (ne_crypto env) \<and> keyring_ok (ne_crypto env) (ne_keys env) \<and>
     (\<forall>i. length (ne_dek env i) = 32) \<and> (\<forall>i. length (ne_prefix env i) = 8)"

lemma tick_eq [run]: "tick f s = (r, t) \<longleftrightarrow> r = Inr (f (nd_tick s)) \<and> t = s\<lparr>nd_tick := Suc (nd_tick s)\<rparr>"
  by (auto simp: tick_def)

lemma getm_eq [run]: "getm f s = (r, t) \<longleftrightarrow> r = Inr (f s) \<and> t = s"
  by auto

lemma modm_eq [run]: "modm f s = (r, t) \<longleftrightarrow> r = Inr () \<and> t = f s"
  by auto

lemma write_object_run:
  assumes "write_object env block content s = (Inr (n, digest), t)"
  obtains chunks s1 s2 i j disk' where "only_tick s s1" "content s1 = (Inr chunks, s2)"
    "put (ne_crypto env) (ne_keys env) block chunks (ne_dek env i) (ne_prefix env j) (nd_disk s2) = Inr ((nat n, digest), disk')"
    "0 \<le> n" "t = s2\<lparr>nd_disk := disk'\<rparr>"
proof -
  from assms obtain chunks s2 st disk' where
    r: "content (s\<lparr>nd_tick := Suc (Suc (nd_tick s))\<rparr>) = (Inr chunks, s2)"
    "put (ne_crypto env) (ne_keys env) block chunks (ne_dek env (nd_tick s)) (ne_prefix env (Suc (nd_tick s))) (nd_disk s2) = Inr ((st, digest), disk')"
    "n = int st" "t = s2\<lparr>nd_disk := disk'\<rparr>"
    by (auto simp: write_object_def run split: prod.splits)
  have "only_tick s (s\<lparr>nd_tick := Suc (Suc (nd_tick s))\<rparr>)" by (auto simp: only_tick_def)
  from that [OF this r(1)] r show ?thesis by auto
qed

lemma read_back:
  assumes "env_ok env" and "put (ne_crypto env) (ne_keys env) block chunks (ne_dek env i) (ne_prefix env j) disk = Inr ((n, digest), disk')"
    and "br_size block < 2 ^ 63" "0 \<le> br_index block" "br_index block < 2 ^ 63"
  shows "read_verified (ne_crypto env) (ne_keys env) disk' block = Inr chunks"
proof -
  have k: "crypto_ok (ne_crypto env)" "keyring_ok (ne_crypto env) (ne_keys env)" "length (ne_dek env i) = 32" "length (ne_prefix env j) = 8"
    "length (kr_active (ne_keys env)) = 32" using assms(1) by (auto simp: env_ok_def keyring_ok_def)
  from put_Inr [OF assms(2)] obtain bytes where
    b: "container (ne_crypto env) (kr_active (ne_keys env)) block (ne_dek env i) (ne_prefix env j) chunks = Inr bytes"
    "is_uuid (br_file block)" "is_uuid (br_version block)" "disk' = disk((br_file block, br_version block) \<mapsto> bytes)" by blast
  have "length (header (ne_crypto env) (kr_active (ne_keys env)) block (ne_dek env i) (ne_prefix env j)) \<le> 4096"
    using header_length [OF k(1,5,3,4) put_sane [OF k(1) assms(2-5)]] by simp
  from read_container_container [OF k(1-4) b(1) this] b show ?thesis
    by (simp add: read_verified_def path_def uuid_def)
qed

lemma delta_chunks_run:
  assumes "delta_chunks env ctx until len delta frames ending s = (Inr d, t)"
  shows "d = delta @ payload frames \<and> only_tick s t \<and> ending = None"
  using assms
proof (induction frames arbitrary: delta s)
  case Nil
  then show ?case by (auto split: option.splits)
next
  case (Cons frame frames)
  then obtain c u where c: "frame = Chunk c" and st: "still_there env ctx until s = (Inr (), u)" and
    rest: "delta_chunks env ctx until len (delta @ dc_data c) frames ending u = (Inr d, t)"
    by (auto simp: run split: stream_frame.splits)
  from Cons.IH [OF rest] still_there_cases(2) [OF st] show ?case by (auto simp: c dest: only_tick_trans)
qed

lemma patched_run:
  assumes "patched env ctx decision head delta s = (Inr chunks, t)"
    and base: "if br_version (ph_base head) = [] then base = [] else
      (\<exists>ds. read_verified (ne_crypto env) (ne_keys env) (nd_disk s) (ph_base head) = Inr ds \<and> base = concat ds)"
    and "0 \<le> ph_offset head" "nat (ph_offset head) \<le> length base"
    and sized: "de_replacement_size decision = max (int (length base)) (ph_offset head + int (length delta))"
  shows "concat chunks = spliced (nat (ph_offset head)) delta base \<and> only_tick s t \<and>
     int (length chunks) = (de_replacement_size decision + CHUNK - 1) div CHUNK"
proof -
  have n: "nat (de_replacement_size decision) = max (length base) (nat (ph_offset head) + length delta)"
    using sized assms(3) by linarith
  obtain source where run: "result_chunks env ctx (de_until decision) (nat (de_replacement_size decision)) (nat (ph_offset head)) delta 0 [] source s = (Inr chunks, t)"
    and src: "br_version (ph_base head) \<noteq> [] \<and> 0 < de_replacement_size decision \<Longrightarrow>
       read_verified (ne_crypto env) (ne_keys env) (nd_disk s) (ph_base head) = Inr source"
      "\<not> (br_version (ph_base head) \<noteq> [] \<and> 0 < de_replacement_size decision) \<Longrightarrow> source = []"
    using assms(1) by (auto simp: patched_def run split: if_splits)
  have "concat source = base"
  proof (cases "br_version (ph_base head) \<noteq> [] \<and> 0 < de_replacement_size decision")
    case True
    with src(1) base show ?thesis by auto
  next
    case False
    then have "base = [] \<or> \<not> 0 < de_replacement_size decision" using base by auto
    then have "length base = 0" using sized by (cases "base = []") (simp, linarith)
    then have "base = []" by simp
    with src(2) False show ?thesis by simp
  qed
  then have "[] @ concat source = drop 0 base" by simp
  from result_chunks_splice [OF assms(4) n this run]
  have r: "concat chunks = spliced (nat (ph_offset head)) delta base" "only_tick s t"
    "length chunks = (nat (de_replacement_size decision) + (nat CHUNK - 1)) div nat CHUNK" by auto
  have "0 \<le> de_replacement_size decision" using sized by linarith
  then have "int (length chunks) = (de_replacement_size decision + CHUNK - 1) div CHUNK"
    unfolding r(3) by (simp add: zdiv_int CHUNK_def)
  with r show ?thesis by simp
qed

text \<open>The content a patch starts from.\<close>

definition base_bytes :: "node_env \<Rightarrow> disk \<Rightarrow> block_ref \<Rightarrow> string res" where
  "base_bytes env disk base =
     (if br_version base = [] then Inr [] else bindr (read_verified (ne_crypto env) (ne_keys env) disk base) (\<lambda>ds. Inr (concat ds)))"

lemma only_tick_fields:
  assumes "only_tick s t"
  shows "nd_disk t = nd_disk s" "nd_blocks t = nd_blocks s" "nd_puts t = nd_puts s" "nd_patches t = nd_patches s"
  using assms by (auto simp: only_tick_def)

lemma read_verified_size:
  "read_verified cr kr disk block = Inr ds \<Longrightarrow> int (length (concat ds)) = br_size block \<and> hash cr (concat ds) = br_sha block"
  by (auto simp: read_verified_def read_container_def run Let_def split: prod.splits)

lemma reserve_run:
  assumes "reserve env amount s = (r, t)"
  shows "t = s\<lparr>nd_tick := Suc (nd_tick s), nd_reserved := nd_reserved s + amount\<rparr> \<or>
     r = Inl (Fault NO_SPACE) \<and> t = s\<lparr>nd_tick := Suc (nd_tick s)\<rparr>"
    and "r = Inr () \<Longrightarrow> used_bytes s + nd_reserved s + amount \<le> ne_capacity env"
  using assms by (auto simp: reserve_def metrics_def bindm_def tick_def needm_def used_bytes_def split: if_splits)

lemma new_receipt_run:
  assumes "new_receipt env op_id block n digest s = (r, t)"
  shows "only_tick s t" "\<exists>receipt. r = Inr receipt \<and> dr_block receipt = block \<and> dr_stored receipt = n \<and> dr_cipher_sha receipt = digest \<and>
    dr_operation receipt = op_id \<and> dr_node receipt = ne_id env \<and> dr_generation receipt = nd_generation s"
  using assms by (auto simp: new_receipt_def bindm_def tick_def only_tick_def)

lemma put_row_fields [simp]:
  "nd_disk (put_row r s) = nd_disk s" "nd_puts (put_row r s) = nd_puts s" "nd_patches (put_row r s) = nd_patches s"
  "nd_reserved (put_row r s) = nd_reserved s" "nd_quarantine (put_row r s) = nd_quarantine s"
  "nd_units (put_row r s) = nd_units s" "nd_pins (put_row r s) = nd_pins s"
  by (simp_all add: put_row_def Let_def)

lemma record_run:
  "\<exists>tr. record_put env head receipt s = (Inr (), (put_row receipt s)\<lparr>nd_puts := tput (request_key (pu_cx head))
     \<lparr>pe_digest = hex (node_intent env (pu_dict head)), pe_receipt = receipt\<rparr> (nd_puts s), nd_traffic := tr\<rparr>)"
  "\<exists>tr. record_patch env phead delta receipt s = (Inr (), (put_row receipt s)\<lparr>nd_patches := tput (request_key (cl_cx (ph_call phead)))
     \<lparr>pe_digest = hex (node_intent env (cl_dict (ph_call phead))), pe_receipt = receipt\<rparr> (nd_patches s), nd_traffic := tr\<rparr>)"
  by (simp_all add: record_put_def record_patch_def count_bytes_def bindm_def) blast+

text \<open>The run of a patch that succeeds, step by step.\<close>

lemma store_patch_run:
  assumes "store_patch env ctx head decision (frames, ending) s = (Inr receipt, t)"
  obtains delta first s1 s2 s3 s4 n digest where
    "nd_disk s1 = nd_disk s" "nd_blocks s1 = nd_blocks s" "delta = payload frames"
    "int (length delta) = ph_length head" "hash (ne_crypto env) delta = ph_sha head" "ph_offset head \<le> br_size (ph_base head)"
    "patched env ctx decision head delta s1 = (Inr first, s2)"
    "write_object env \<lparr>br_file = br_file (ph_base head), br_version = ph_new head, br_index = br_index (ph_base head),
           br_size = de_replacement_size decision, br_sha = hash (ne_crypto env) (concat first)\<rparr>
       (patched env ctx decision head delta) s2 = (Inr (n, digest), s3)"
    "new_receipt env (or_id (ph_operation head)) \<lparr>br_file = br_file (ph_base head), br_version = ph_new head, br_index = br_index (ph_base head),
           br_size = de_replacement_size decision, br_sha = hash (ne_crypto env) (concat first)\<rparr> n digest s3 = (Inr receipt, s4)"
    "nd_disk t = nd_disk s4" "nd_blocks t = nd_blocks (put_row receipt s4)"
proof -
  obtain u delta u1 first u2 n digest u3 u4 u5 where
    a: "reserve env (storage_cost (de_replacement_size decision)) s = (Inr (), u)" and
    d: "delta_chunks env ctx (de_until decision) (ph_length head) [] frames ending u = (Inr delta, u1)" and
    c: "int (length delta) = ph_length head \<and> hash (ne_crypto env) delta = ph_sha head" "ph_offset head \<le> br_size (ph_base head)" and
    p: "patched env ctx decision head delta u1 = (Inr first, u2)" and
    w: "write_object env \<lparr>br_file = br_file (ph_base head), br_version = ph_new head, br_index = br_index (ph_base head),
           br_size = de_replacement_size decision, br_sha = hash (ne_crypto env) (concat first)\<rparr>
       (patched env ctx decision head delta) u2 = (Inr (n, digest), u3)" and
    r: "new_receipt env (or_id (ph_operation head)) \<lparr>br_file = br_file (ph_base head), br_version = ph_new head, br_index = br_index (ph_base head),
           br_size = de_replacement_size decision, br_sha = hash (ne_crypto env) (concat first)\<rparr> n digest u3 = (Inr receipt, u4)" and
    last: "record_patch env head delta receipt u4 = (Inr (), u5)" and un: "unreserve (storage_cost (de_replacement_size decision)) u5 = (Inr (), t)"
    using assms unfolding store_patch_def reserving_def Let_def prod.case bindm_eq_Inr finallym_eq needm_eq_Inr
    by (auto split: prod.splits simp: bindm_eq_Inr needm_eq_Inr)
  have t: "nd_disk t = nd_disk u4" "nd_blocks t = nd_blocks (put_row receipt u4)"
    using last un record_run(2) [of env head delta receipt u4] by (auto simp: unreserve_def)
  have "nd_disk u1 = nd_disk s" "nd_blocks u1 = nd_blocks s" "delta = payload frames"
    using reserve_run(1) [OF a] delta_chunks_run [OF d] by (auto simp: only_tick_def)
  from that [OF this c(1)[THEN conjunct1] c(1)[THEN conjunct2] c(2) p w r t] show ?thesis .
qed

lemma put_chunks_run:
  assumes "put_chunks env ctx until sized offset frames ending s = (Inr chunks, t)" and "offset \<le> sized"
  shows "concat chunks = payload frames \<and> contiguous offset frames \<and> only_tick s t \<and> ending = None \<and>
     offset + int (length (concat chunks)) \<le> sized \<and>
     (offset + int (length (concat chunks)) = sized \<longrightarrow> int (length chunks) = (sized - offset + CHUNK - 1) div CHUNK)"
  using assms
proof (induction frames arbitrary: offset s chunks)
  case Nil
  then show ?case by (auto simp: CHUNK_def split: option.splits)
next
  case (Cons frame frames)
  from Cons.prems(1) obtain c u rest where c: "frame = Chunk c" and st: "still_there env ctx until s = (Inr (), u)" and
    ok: "dc_offset c = offset" "int (length (dc_data c)) = min CHUNK (sized - offset)" "dc_data c \<noteq> []" and
    go: "put_chunks env ctx until sized (offset + int (length (dc_data c))) frames ending u = (Inr rest, t)" and
    cs: "chunks = dc_data c # rest"
    by (auto simp: run split: stream_frame.splits)
  have le: "offset + int (length (dc_data c)) \<le> sized" using ok(2) by linarith
  note ih = Cons.IH [OF go le]
  have "(sized - offset + CHUNK - 1) div CHUNK = 1 + (sized - (offset + int (length (dc_data c))) + CHUNK - 1) div CHUNK"
  proof (cases "CHUNK \<le> sized - offset")
    case True
    then have "int (length (dc_data c)) = CHUNK" using ok(2) by simp
    moreover have "sized - offset + CHUNK - 1 = (sized - (offset + CHUNK) + CHUNK - 1) + CHUNK" by simp
    ultimately show ?thesis by (simp add: CHUNK_def)
  next
    case False
    have "0 < int (length (dc_data c))" using ok(3) by simp
    with False ok(2) have e: "int (length (dc_data c)) = sized - offset" "0 < sized - offset" "sized - offset < CHUNK" by auto
    then have "(sized - offset + CHUNK - 1) div CHUNK = 1"
      by (intro int_div_pos_eq [of _ _ _ "sized - offset - 1"]) (auto simp: CHUNK_def)
    with e show ?thesis by (simp add: CHUNK_def)
  qed
  with ih still_there_cases(2) [OF st] ok cs c show ?case by (auto dest: only_tick_trans)
qed

text \<open>The run of an upload that succeeds, step by step.\<close>

lemma store_put_run:
  assumes "store_put env ctx head decision (frames, ending) s = (Inr receipt, t)" and "0 \<le> br_size (pu_block head)"
  obtains chunks s2 i j n digest disk' where
    "concat chunks = payload frames" "contiguous 0 frames" "int (length (payload frames)) = br_size (pu_block head)"
    "int (length chunks) = (br_size (pu_block head) + CHUNK - 1) div CHUNK"
    "put (ne_crypto env) (ne_keys env) (pu_block head) chunks (ne_dek env i) (ne_prefix env j) (nd_disk s) = Inr ((nat n, digest), disk')"
    "dr_block receipt = pu_block head" "dr_stored receipt = n" "0 \<le> n" "dr_cipher_sha receipt = digest" "dr_node receipt = ne_id env"
    "dr_operation receipt = or_id (pu_operation head)" "nd_disk t = disk'"
    "nd_blocks t = nd_blocks (put_row receipt s)"
    "nd_puts t = tput (request_key (pu_cx head)) \<lparr>pe_digest = hex (node_intent env (pu_dict head)), pe_receipt = receipt\<rparr> (nd_puts s)"
    "used_bytes s + nd_reserved s + storage_cost (br_size (pu_block head)) \<le> ne_capacity env"
    "nd_reserved t = nd_reserved s" "nd_quarantine t = nd_quarantine s"
proof -
  obtain u n digest u1 u2 u3 where
    a: "reserve env (storage_cost (br_size (pu_block head))) s = (Inr (), u)" and
    w: "write_object env (pu_block head) (put_chunks env ctx (de_until decision) (br_size (pu_block head)) 0 frames ending) u = (Inr (n, digest), u1)" and
    r: "new_receipt env (or_id (pu_operation head)) (pu_block head) n digest u1 = (Inr receipt, u2)" and
    last: "record_put env head receipt u2 = (Inr (), u3)" and un: "unreserve (storage_cost (br_size (pu_block head))) u3 = (Inr (), t)"
    using assms(1) unfolding store_put_def reserving_def Let_def prod.case bindm_eq_Inr finallym_eq
    by (auto split: prod.splits simp: bindm_eq_Inr)
  have t: "nd_disk t = nd_disk u2" "nd_blocks t = nd_blocks (put_row receipt u2)"
      "nd_puts t = tput (request_key (pu_cx head)) \<lparr>pe_digest = hex (node_intent env (pu_dict head)), pe_receipt = receipt\<rparr> (nd_puts u2)"
      "nd_reserved t = nd_reserved u2 - storage_cost (br_size (pu_block head))" "nd_quarantine t = nd_quarantine u2"
    using last un record_run(1) [of env head receipt u2] by (auto simp: unreserve_def)
  from w obtain chunks s1 s2 i j disk' where
    w': "only_tick u s1" "put_chunks env ctx (de_until decision) (br_size (pu_block head)) 0 frames ending s1 = (Inr chunks, s2)"
    "put (ne_crypto env) (ne_keys env) (pu_block head) chunks (ne_dek env i) (ne_prefix env j) (nd_disk s2) = Inr ((nat n, digest), disk')"
    "0 \<le> n" "u1 = s2\<lparr>nd_disk := disk'\<rparr>" by (rule write_object_run)
  note pc = put_chunks_run [OF w'(2) assms(2)]
  note ru = reserve_run [OF a]
  from put_Inr [OF w'(3)] have sz: "int (length (concat chunks)) = br_size (pu_block head)" using container_Inr(1) by blast
  have same: "nd_disk s2 = nd_disk s" "nd_blocks s2 = nd_blocks s" "nd_puts s2 = nd_puts s" "nd_quarantine s2 = nd_quarantine s"
    "nd_reserved s2 = nd_reserved s + storage_cost (br_size (pu_block head))"
    using ru(1) w'(1) pc by (auto simp: only_tick_def)
  have after: "nd_disk u2 = disk'" "nd_blocks u2 = nd_blocks s" "nd_puts u2 = nd_puts s" "nd_quarantine u2 = nd_quarantine s"
    "nd_reserved u2 = nd_reserved s + storage_cost (br_size (pu_block head))"
    using new_receipt_run(1) [OF r] w'(5) same by (auto simp: only_tick_def)
  show ?thesis
    using that [of chunks i j n digest disk'] pc sz w'(3,4) ru(2) new_receipt_run(2) [OF r] t same after
    by (auto simp: put_row_def Let_def)
qed

end
