(* ===== verification/Node_Samples.thy ===== *)
theory Node_Samples
  imports Patching Samples
begin

text \<open>A small concrete node on which the properties with hypotheses are exercised.\<close>

definition sample_decision :: decision where
  "sample_decision = \<lparr>de_subject = ''u'', de_block_size = 4194304, de_until = 5000, de_replay = None, de_replacement_size = 3\<rparr>"

definition sample_env :: node_env where
  "sample_env = \<lparr>ne_id = ''n1'', ne_epoch = ''epoch'', ne_domain = ''d1'', ne_client = ''c1'', ne_private = ''p1'',
     ne_capacity = 10000000, ne_control = [''control''], ne_replication = True, ne_rf3 = True, ne_failover = False,
     ne_crypto = sample_crypto, ne_keys = open_keys sample_crypto sample_key [], ne_nfc = (\<lambda>s. s), ne_patience = 1,
     ne_others = (\<lambda>_ s. s), ne_now = (\<lambda>_. 1000), ne_mono = (\<lambda>_. 0), ne_uid = dec_digits, ne_dek = (\<lambda>_. sample_key),
     ne_prefix = (\<lambda>_. replicate 8 (CHR ''p'')), ne_free = (\<lambda>_. 100000000),
     ne_ask_block = (\<lambda>_ _ _. Inr sample_decision), ne_ask_internal = (\<lambda>_ _ _. Inr sample_decision),
     ne_tell_durable = (\<lambda>_ _ _. Inr ()), ne_tell_task = (\<lambda>_ _ _ _ _. Inr ()), ne_register = (\<lambda>_ _ _ _ _ _. Inr 1),
     ne_report = (\<lambda>_ _ _. Inr ()), ne_beat = (\<lambda>_ _ _. Inr ()), ne_fetch = (\<lambda>_ _ _. ([], None)),
     ne_as_replicate = (\<lambda>r. case r of Replicate q \<Rightarrow> Inr q | _ \<Rightarrow> Inl ValueError),
     ne_as_delete = (\<lambda>r. case r of Delete q \<Rightarrow> Inr q | _ \<Rightarrow> Inl ValueError),
     ne_replicate_dict = (\<lambda>q. JStr (re_task q)), ne_delete_dict = (\<lambda>q. JStr (dq_task q)), ne_folders = [], ne_names = (\<lambda>_. [])\<rparr>"

definition sample_nctx :: node_ctx where
  "sample_nctx = \<lparr>nc_token = Inr ''token'', nc_peers = [''control''], nc_remaining = (\<lambda>_. 10), nc_active = (\<lambda>_. True)\<rparr>"

definition sample_node :: node where
  "sample_node = \<lparr>nd_blocks = tempty, nd_puts = tempty, nd_patches = tempty, nd_tasks = tempty, nd_quarantine = tempty,
     nd_traffic = [], nd_disk = (\<lambda>_. None), nd_aside = (\<lambda>_. None), nd_owner = None, nd_generation = 1, nd_inventory = ''i'',
     nd_sequence = 0, nd_reserved = 0, nd_units = 4, nd_pins = \<lparr>pin_active = tempty, pin_writers = []\<rparr>, nd_jobs = [],
     nd_queue = [], nd_tick = 0\<rparr>"

definition sample_head :: put_header where
  "sample_head = \<lparr>pu_cx = sample_cx, pu_operation = no_operation, pu_block = sample_block, pu_fence = no_fence,
     pu_capability = ''cap'', pu_dict = JNull\<rparr>"

definition sample_patch :: patch_header where
  "sample_patch = \<lparr>ph_call = \<lparr>cl_cx = sample_cx, cl_dict = JNull, cl_password = None, cl_username = [], cl_user_id = []\<rparr>,
     ph_operation = no_operation, ph_base = \<lparr>br_file = br_file sample_block, br_version = [], br_index = 0, br_size = 0, br_sha = []\<rparr>,
     ph_new = br_version sample_block, ph_offset = 0, ph_length = 3, ph_sha = replicate 32 (CHR ''h''), ph_fence = no_fence\<rparr>"

lemma sample_env_simps [simp]:
  "ne_crypto sample_env = sample_crypto" "ne_keys sample_env = open_keys sample_crypto sample_key []" "ne_patience sample_env = 1"
  "ne_now sample_env = (\<lambda>_. 1000)" "ne_mono sample_env = (\<lambda>_. 0)" "ne_uid sample_env = dec_digits" "ne_dek sample_env = (\<lambda>_. sample_key)"
  "ne_prefix sample_env = (\<lambda>_. replicate 8 (CHR ''p''))" "ne_free sample_env = (\<lambda>_. 100000000)" "ne_capacity sample_env = 10000000"
  "ne_ask_block sample_env = (\<lambda>_ _ _. Inr sample_decision)" "ne_ask_internal sample_env = (\<lambda>_ _ _. Inr sample_decision)"
  "ne_tell_durable sample_env = (\<lambda>_ _ _. Inr ())" "ne_others sample_env = (\<lambda>_ s. s)" "ne_id sample_env = ''n1''"
  "nc_token sample_nctx = Inr ''token''" "nc_remaining sample_nctx = (\<lambda>_. 10)" "nc_active sample_nctx = (\<lambda>_. True)"
  "de_block_size sample_decision = 4194304" "de_until sample_decision = 5000" "de_replay sample_decision = None"
  "de_replacement_size sample_decision = 3" "hash sample_crypto = (\<lambda>_. replicate 32 (CHR ''h''))"
  by (simp_all add: sample_env_def sample_nctx_def sample_decision_def sample_crypto_def)

lemma sample_node_simps [simp]:
  "nd_blocks sample_node = tempty" "nd_puts sample_node = tempty" "nd_patches sample_node = tempty" "nd_quarantine sample_node = tempty"
  "nd_traffic sample_node = []" "nd_disk sample_node = (\<lambda>_. None)" "nd_reserved sample_node = 0" "nd_units sample_node = 4"
  "nd_pins sample_node = \<lparr>pin_active = tempty, pin_writers = []\<rparr>" "nd_tick sample_node = 0" "nd_generation sample_node = 1"
  by (simp_all add: sample_node_def)

lemma sample_env_ok: "env_ok sample_env"
  by (simp add: env_ok_def sample_crypto_ok open_keys_ok(1) sample_key_def)

lemma sample_put:
  assumes "is_uuid f" "is_uuid v" "int (length bytes) = n" "bytes \<noteq> []" "length bytes \<le> 100" "disk (f, v) = None"
  obtains stored digest disk' where "put sample_crypto (open_keys sample_crypto sample_key [])
     \<lparr>br_file = f, br_version = v, br_index = i, br_size = n, br_sha = replicate 32 (CHR ''h'')\<rparr> [bytes] sample_key (replicate 8 (CHR ''p'')) disk = Inr ((stored, digest), disk')"
proof -
  let ?p = "put sample_crypto (open_keys sample_crypto sample_key [])
     \<lparr>br_file = f, br_version = v, br_index = i, br_size = n, br_sha = replicate 32 (CHR ''h'')\<rparr> [bytes] sample_key (replicate 8 (CHR ''p'')) disk"
  have "\<not> isl ?p"
    using assms by (simp add: put_def path_def uuid_def container_def Let_def need_def CHUNK_def)
  then obtain stored digest disk' where "?p = Inr ((stored, digest), disk')"
    by (metis sum.collapse(2) surj_pair)
  from that [OF this] show ?thesis .
qed

lemmas act_eval = bindm_def tick_def needm_def finallym_def catchm_def still_there_def metrics_def reserve_def reserving_def unreserve_def
  write_object_def new_receipt_def count_bytes_def asking_def own_context_def used_bytes_def

lemma sample_patch_simps [simp]:
  "ph_base sample_patch = \<lparr>br_file = br_file sample_block, br_version = [], br_index = 0, br_size = 0, br_sha = []\<rparr>"
  "ph_new sample_patch = br_version sample_block" "ph_offset sample_patch = 0" "ph_length sample_patch = 3"
  "ph_sha sample_patch = replicate 32 (CHR ''h'')"
  "pu_cx sample_head = sample_cx" "pu_operation sample_head = no_operation" "pu_block sample_head = sample_block" "pu_dict sample_head = JNull"
  by (simp_all add: sample_patch_def sample_head_def)

lemma sample_path [simp]: "path (br_file sample_block) (br_version sample_block) = Inr (br_file sample_block, br_version sample_block)"
  by (simp add: path_def uuid_def sample_uuids)

lemma sample_patch_run:
  "\<exists>receipt t. store_patch sample_env sample_nctx sample_patch sample_decision ([Chunk \<lparr>dc_offset = 0, dc_data = ''abc''\<rparr>], None) sample_node = (Inr receipt, t)"
proof -
  obtain stored digest disk' where p: "put sample_crypto (open_keys sample_crypto sample_key [])
     \<lparr>br_file = br_file sample_block, br_version = br_version sample_block, br_index = 0, br_size = 3, br_sha = replicate 32 (CHR ''h'')\<rparr>
     [''abc''] sample_key (replicate 8 (CHR ''p'')) (\<lambda>_. None) = Inr ((stored, digest), disk')"
    by (rule sample_put [of "br_file sample_block" "br_version sample_block" "''abc''" 3 "\<lambda>_. None" 0]) (simp_all add: sample_uuids)
  have one: "result_chunks sample_env sample_nctx 5000 3 0 ''abc'' 0 [] [] s = (Inr [''abc''], s\<lparr>nd_tick := Suc (Suc (nd_tick s))\<rparr>)" for s
    by (subst result_chunks.simps, subst result_chunks.simps)
       (simp add: act_eval cut_chunk_def overlay_def CHUNK_def Let_def)
  have pat: "patched sample_env sample_nctx sample_decision sample_patch ''abc'' s = (Inr [''abc''], s\<lparr>nd_tick := Suc (Suc (nd_tick s))\<rparr>)" for s
    using one by (simp add: patched_def bindm_def)
  show ?thesis
    by (simp add: store_patch_def act_eval storage_cost_def CHUNK_def Let_def pat p record_patch_def)
qed

lemma sample_store_put:
  obtains receipt t where "PutBlock sample_env sample_nctx ([Header sample_head, Chunk \<lparr>dc_offset = 0, dc_data = ''abcde''\<rparr>], None) sample_node = (Inr receipt, t)"
    "tget (nd_blocks t) (br_version sample_block) = Some \<lparr>sb_id = br_version sample_block, sb_ref = sample_block, sb_stored = dr_stored receipt, sb_receipt = receipt, sb_unconfirmed = False\<rparr>"
    "nd_units t = 4" "nd_pins t = \<lparr>pin_active = tempty, pin_writers = []\<rparr>"
    "read_verified sample_crypto (open_keys sample_crypto sample_key []) (nd_disk t) sample_block = Inr [''abcde'']"
proof -
  obtain stored digest disk' where p: "put sample_crypto (open_keys sample_crypto sample_key []) sample_block
     [''abcde''] sample_key (replicate 8 (CHR ''p'')) (\<lambda>_. None) = Inr ((stored, digest), disk')"
    using sample_put [of "br_file sample_block" "br_version sample_block" "''abcde''" 5 "\<lambda>_. None" 0] sample_uuids
    by (auto simp: sample_block_def)
  have size5: "br_size sample_block = 5" by (simp add: sample_block_def)
  have rv: "read_verified sample_crypto (open_keys sample_crypto sample_key []) disk' sample_block = Inr [''abcde'']"
    using read_back [OF sample_env_ok, of sample_block "[''abcde'']" 0 0 "\<lambda>_. None" stored digest disk'] p by (simp add: sample_block_def)
  have gone: "tdel k (tput k v tempty) = tempty" for k :: string and v :: int by (rule table_eqI) simp
  show ?thesis
    by (rule that,
        simp add: PutBlock_def authorize_write_def decided_def timely_def DEADLINES_def PROFILES_def weight_def admitted_def
         pinned_def pinning_def unpinning_def pin_enter_def pin_exit_def act_eval store_put_def storage_cost_def CHUNK_def Let_def p size5
         record_put_def put_row_def tell_durable_def gone)
       (simp_all add: rv)
qed

end
