(* ===== verification/Node_Tasks.thy ===== *)
theory Node_Tasks
  imports DataNode
begin

text \<open>
  What the control node and other nodes ask of a DataNode, and what it does on its own
  (\<^verbatim>\<open>src/src/dfsha/datanode/service.py\<close>): tasks, copies, deletions, registration with the inventory,
  and the recovery of objects whose row was lost in a crash.
\<close>

section \<open>Administration\<close>

definition control_peer :: "node_env \<Rightarrow> node_ctx \<Rightarrow> req_ctx \<Rightarrow> unit on_node" where
  "control_peer env ctx cx =
     bindm (liftm (peer ctx)) (\<lambda>identity.
     needm (identity \<in> set (ne_control env) \<and> cx_user_id cx = identity \<and> cx_service_epoch cx = ne_epoch env) PERMISSION_DENIED)"

record key_status =
  ks_node :: string
  ks_generation :: int
  ks_active :: string
  ks_readable :: "string list"

definition GetKeyStatus :: "node_env \<Rightarrow> node_ctx \<Rightarrow> req_ctx \<Rightarrow> key_status on_node" where
  "GetKeyStatus env ctx cx =
     bindm (control_peer env ctx cx) (\<lambda>_. getm (\<lambda>s.
     \<lparr>ks_node = ne_id env, ks_generation = nd_generation s, ks_active = key_id (ne_crypto env) (kr_active (ne_keys env)),
      ks_readable = sort (map fst (kr_keys (ne_keys env)))\<rparr>))"

record verify_req =
  vr_cx :: req_ctx
  vr_operation :: string
  vr_receipt :: string
  vr_block :: block_ref
  vr_generation :: int
  vr_content :: bool

text \<open>The smallest profile a block fits into.\<close>

definition profile_for :: "int \<Rightarrow> int option" where
  "profile_for sized = find (\<lambda>b. sized \<le> b) PROFILES"

definition check_object :: "node_env \<Rightarrow> block_ref \<Rightarrow> unit on_node" where
  "check_object env block =
     bindm (getm nd_disk) (\<lambda>disk. bindm (liftm (read_verified (ne_crypto env) (ne_keys env) disk block)) (\<lambda>_. retm ()))"

definition find_row :: "block_ref \<Rightarrow> stored_block on_node" where
  "find_row block =
     bindm (getm (\<lambda>s. tget (nd_blocks s) (br_version block))) (\<lambda>row.
     liftm (need_some row NOT_FOUND (\<lambda>b. need (sb_ref b = block) NOT_FOUND (Inr b))))"

definition VerifyReceipt :: "node_env \<Rightarrow> node_ctx \<Rightarrow> verify_req \<Rightarrow> durable_receipt on_node" where
  "VerifyReceipt env ctx req =
     bindm (control_peer env ctx (vr_cx req)) (\<lambda>_.
     bindm (find_row (vr_block req)) (\<lambda>row.
     let receipt = sb_receipt row in
     bindm (getm nd_generation) (\<lambda>generation.
     bindm (needm (dr_id receipt = vr_receipt req \<and> dr_operation receipt = vr_operation req \<and>
                   vr_generation req = generation) VERSION_CONFLICT) (\<lambda>_.
     bindm (if vr_content req
            then bindm (liftm (somer (profile_for (br_size (vr_block req))) ValueError Inr)) (\<lambda>sized.
                 admitted env sized (pinned (br_version (vr_block req)) False (check_object env (vr_block req))))
            else retm ()) (\<lambda>_.
     retm receipt)))))"

definition ask_internal :: "node_env \<Rightarrow> internal_req \<Rightarrow> decision on_node" where
  "ask_internal env req = bindm (own_context env) (\<lambda>cx. asking (\<lambda>t. ne_ask_internal env t cx req))"

definition internal_authorize :: "node_env \<Rightarrow> replicate_req \<Rightarrow> access_action \<Rightarrow> decision on_node" where
  "internal_authorize env task act =
     ask_internal env \<lparr>ir_task = re_task task, ir_source = bl_node (re_source task), ir_dest = bl_node (re_destination task),
       ir_block = re_block task, ir_capability = re_capability task, ir_fence = re_fence task, ir_action = act\<rparr>"

section \<open>Tasks\<close>

definition put_node_task :: "node_task \<Rightarrow> unit on_node" where
  "put_node_task task = modm (\<lambda>s. s\<lparr>nd_tasks := tput (nt_id task) task (nd_tasks s)\<rparr>)"

definition request_fence :: "task_request \<Rightarrow> fence" where
  "request_fence r = (case r of Replicate q \<Rightarrow> re_fence q | Delete q \<Rightarrow> dq_fence q)"

definition report_task :: "node_env \<Rightarrow> node_task \<Rightarrow> unit on_node" where
  "report_task env task =
     bindm (own_context env) (\<lambda>cx.
     bindm (getm nd_generation) (\<lambda>generation.
     bindm (asking (\<lambda>t. ne_tell_task env t cx generation (nt_status task)
              (if ne_replication env then Some (request_fence (nt_request task)) else None))) (\<lambda>_.
     put_node_task (task\<lparr>nt_reported := True\<rparr>))))"

definition GetTask :: "node_env \<Rightarrow> node_ctx \<Rightarrow> req_ctx \<Rightarrow> string \<Rightarrow> task_status on_node" where
  "GetTask env ctx cx task_id =
     bindm (control_peer env ctx cx) (\<lambda>_.
     bindm (getm (\<lambda>s. tget (nd_tasks s) task_id)) (\<lambda>task.
     liftm (need_some task NOT_FOUND (\<lambda>t. Inr (nt_status t)))))"

definition unfinished :: "node_task \<Rightarrow> bool" where
  "unfinished t \<longleftrightarrow> ts_state (nt_status t) = ACCEPTED \<or> ts_state (nt_status t) = RUNNING"

definition accept_task :: "node_env \<Rightarrow> replicate_req \<Rightarrow> node_task on_node" where
  "accept_task env req =
     bindm (getm (\<lambda>s. tget (nd_tasks s) (re_task req))) (\<lambda>old.
     case old of
       Some task \<Rightarrow>
         bindm (liftm (ne_as_replicate env (nt_request task))) (\<lambda>before.
         bindm (needm (node_intent env (ne_replicate_dict env before) = node_intent env (ne_replicate_dict env req))
                  IDEMPOTENCY_MISMATCH) (\<lambda>_. retm task))
     | None \<Rightarrow>
         bindm (getm (\<lambda>s. length (nd_jobs s))) (\<lambda>n. bindm (needm (n < 2) LIMIT_EXCEEDED) (\<lambda>_.
         let task = \<lparr>nt_id = re_task req, nt_request = Replicate req,
               nt_status = \<lparr>ts_task = re_task req, ts_state = ACCEPTED, ts_receipt = None, ts_error = None\<rparr>, nt_reported = False\<rparr> in
         bindm (put_node_task task) (\<lambda>_. retm task))))"

definition ReplicateBlock :: "node_env \<Rightarrow> node_ctx \<Rightarrow> replicate_req \<Rightarrow> task_status on_node" where
  "ReplicateBlock env ctx req =
     bindm (control_peer env ctx (re_cx req)) (\<lambda>_.
     bindm (getm (location env)) (\<lambda>here.
     bindm (needm (re_destination req = here) VERSION_CONFLICT) (\<lambda>_.
     bindm (internal_authorize env req STORE_REPLICA) (\<lambda>_.
     bindm (accept_task env req) (\<lambda>task.
     bindm (modm (\<lambda>s. if unfinished task \<and> re_task req \<notin> set (nd_jobs s)
              then s\<lparr>nd_jobs := nd_jobs s @ [re_task req], nd_queue := nd_queue s @ [req]\<rparr> else s)) (\<lambda>_.
     retm (nt_status task)))))))"

section \<open>Copies\<close>

text \<open>A replaced copy is set aside and its space still counted.\<close>

definition set_aside :: "node_env \<Rightarrow> replicate_req \<Rightarrow> stored_block \<Rightarrow> unit on_node" where
  "set_aside env req existing =
     bindm (needm (dr_id (sb_receipt existing) = re_replace req) VERSION_CONFLICT) (\<lambda>_.
     bindm (internal_authorize env req STORE_REPLICA) (\<lambda>_.
     bindm (liftm (path (br_file (re_block req)) (br_version (re_block req)))) (\<lambda>target.
     bindm (modm (\<lambda>s. case nd_disk s target of
                None \<Rightarrow> s
              | Some bytes \<Rightarrow> s\<lparr>nd_disk := (nd_disk s)(target := None), nd_aside := (nd_aside s)((target, re_replace req) \<mapsto> bytes)\<rparr>)) (\<lambda>_.
     modm (\<lambda>s. s\<lparr>nd_quarantine := tput (re_replace req) (sb_ref existing, sb_stored existing) (nd_quarantine s),
                 nd_blocks := tdel (br_version (re_block req)) (nd_blocks s)\<rparr>)))))"

text \<open>A copy that is already there is checked and confirmed under a new receipt.\<close>

definition confirm_copy :: "node_env \<Rightarrow> replicate_req \<Rightarrow> stored_block \<Rightarrow> durable_receipt on_node" where
  "confirm_copy env req existing =
     (let old = sb_receipt existing in
      bindm (needm (dr_block old = re_block req \<and> dr_cipher_sha old = re_sha req) CHECKSUM_MISMATCH) (\<lambda>_.
      bindm (check_object env (re_block req)) (\<lambda>_.
      bindm (tick (ne_uid env)) (\<lambda>i. bindm (getm nd_generation) (\<lambda>generation. bindm (tick (ne_now env)) (\<lambda>n.
      let receipt = old\<lparr>dr_id := i, dr_operation := re_task req, dr_generation := generation, dr_durable_at := n\<rparr> in
      bindm (modm (\<lambda>s. s\<lparr>nd_blocks := tput (sb_id existing) (existing\<lparr>sb_receipt := receipt\<rparr>) (nd_blocks s)\<rparr>)) (\<lambda>_.
      retm receipt)))))))"

fun copy_chunks :: "node_env \<Rightarrow> int \<Rightarrow> int \<Rightarrow> replica_header stream_frame list \<Rightarrow> exn option \<Rightarrow> string list on_node" where
  "copy_chunks env until offset [] ending = (case ending of None \<Rightarrow> retm [] | Some e \<Rightarrow> raisem e)"
| "copy_chunks env until offset (frame # frames) ending =
     (case frame of
        Chunk c \<Rightarrow>
          bindm (needm (dc_offset c = offset) INVALID_ARGUMENT) (\<lambda>_.
          bindm (tick (ne_now env)) (\<lambda>n. bindm (needm (n < until) INVALID_ARGUMENT) (\<lambda>_.
          bindm (copy_chunks env until (offset + int (length (dc_data c))) frames ending) (\<lambda>rest.
          retm (dc_data c # rest)))))
      | _ \<Rightarrow> raisem (Fault INVALID_ARGUMENT))"

definition header_fits :: "node_env \<Rightarrow> replicate_req \<Rightarrow> replica_header \<Rightarrow> bool" where
  "header_fits env req h \<longleftrightarrow>
     ch_block h = re_block req \<and> ch_length h = re_length req \<and> ch_sha h = re_sha req \<and>
     ch_key h \<in> fst ` set (kr_keys (ne_keys env))"

definition fetch_copy :: "node_env \<Rightarrow> replicate_req \<Rightarrow> durable_receipt on_node" where
  "fetch_copy env req =
     reserving env (storage_cost (br_size (re_block req))) (
     bindm (own_context env) (\<lambda>cx.
     bindm (tick (\<lambda>t. ne_fetch env t (bl_private (re_source req)) \<lparr>gr_cx = cx, gr_task = re_task req, gr_block = re_block req,
              gr_capability = re_capability req, gr_fence = re_fence req, gr_dest = ne_id env\<rparr>)) (\<lambda>(frames, ending).
     case frames of
       [] \<Rightarrow> raisem (case ending of None \<Rightarrow> StopIteration | Some e \<Rightarrow> e)
     | first # rest \<Rightarrow>
         bindm (needm (case first of Header h \<Rightarrow> header_fits env req h | _ \<Rightarrow> False) CHECKSUM_MISMATCH) (\<lambda>_.
         bindm (liftm (path (br_file (re_block req)) (br_version (re_block req)))) (\<lambda>_.
         bindm (copy_chunks env (f_expires (re_fence req)) 0 rest ending) (\<lambda>chunks.
         bindm (getm nd_disk) (\<lambda>disk.
         bindm (liftm (import_ciphertext (ne_crypto env) (ne_keys env) (re_block req) chunks (re_length req) (re_sha req) disk)) (\<lambda>disk.
         bindm (modm (\<lambda>s. s\<lparr>nd_disk := disk\<rparr>)) (\<lambda>_.
         bindm (new_receipt env (re_task req) (re_block req) (re_length req) (re_sha req)) (\<lambda>receipt.
         bindm (modm (put_row receipt)) (\<lambda>_.
         bindm (count_bytes ''replica_write_bytes'' (re_length req)) (\<lambda>_.
         retm receipt))))))))))))"

definition copy_body :: "node_env \<Rightarrow> replicate_req \<Rightarrow> durable_receipt on_node" where
  "copy_body env req =
     bindm (getm (\<lambda>s. tget (nd_blocks s) (br_version (re_block req)))) (\<lambda>existing.
     bindm (case existing of
              Some e \<Rightarrow> if re_replace req \<noteq> [] then bindm (set_aside env req e) (\<lambda>_. retm None) else retm (Some e)
            | None \<Rightarrow> retm None) (\<lambda>existing.
     case existing of
       Some e \<Rightarrow> confirm_copy env req e
     | None \<Rightarrow> fetch_copy env req))"

definition copy_profile :: "int \<Rightarrow> int" where
  "copy_profile sized = (case profile_for sized of None \<Rightarrow> 134217728 | Some b \<Rightarrow> b)"

text \<open>
  The job of the thread pool. Whatever goes wrong is the status \<open>FAILED\<close>; the reservation, which the
  code gives back at the end, is given back where the copy that made it ends.
\<close>

definition copy :: "node_env \<Rightarrow> replicate_req \<Rightarrow> unit on_node" where
  "copy env req =
     bindm (trym (admitted env (copy_profile (br_size (re_block req))) (pinned (br_version (re_block req)) True (copy_body env req)))) (\<lambda>outcome.
     let status = (case outcome of
           Inr receipt \<Rightarrow> \<lparr>ts_task = re_task req, ts_state = FINISHED, ts_receipt = Some receipt, ts_error = None\<rparr>
         | Inl _ \<Rightarrow> \<lparr>ts_task = re_task req, ts_state = FAILED, ts_receipt = None, ts_error = Some DATA_UNAVAILABLE\<rparr>) in
     bindm (modm (\<lambda>s. s\<lparr>nd_jobs := removeAll (re_task req) (nd_jobs s)\<rparr>)) (\<lambda>_.
     bindm (getm (\<lambda>s. tget (nd_tasks s) (re_task req))) (\<lambda>task.
     bindm (liftm (deref task Inr)) (\<lambda>task.
     let task = task\<lparr>nt_status := status\<rparr> in
     bindm (put_node_task task) (\<lambda>_.
     bindm (trym (report_task env task)) (\<lambda>_.
     retm ()))))))"

text \<open>The next job of the pool.\<close>

definition run_job :: "node_env \<Rightarrow> unit on_node" where
  "run_job env = bindm (getm nd_queue) (\<lambda>queue.
     case queue of
       [] \<Rightarrow> retm ()
     | req # rest \<Rightarrow> bindm (modm (\<lambda>s. s\<lparr>nd_queue := rest\<rparr>)) (\<lambda>_. copy env req))"

section \<open>Sending a copy\<close>

function file_chunks :: "string \<Rightarrow> string list" where
  "file_chunks bytes = (if bytes = [] then [] else take (nat CHUNK) bytes # file_chunks (drop (nat CHUNK) bytes))"
  by pat_completeness auto
termination
  by (relation "measure length") (auto simp: CHUNK_def)

declare file_chunks.simps [simp del]

fun send_chunks :: "node_env \<Rightarrow> node_ctx \<Rightarrow> int \<Rightarrow> int \<Rightarrow> string list \<Rightarrow> replica_header outgoing on_node" where
  "send_chunks env ctx until offset [] = retm ([], None)"
| "send_chunks env ctx until offset (chunk # chunks) =
     bindm (trym (still_there env ctx until)) (\<lambda>there.
     case there of
       Inl e \<Rightarrow> retm ([], Some e)
     | Inr _ \<Rightarrow>
         bindm (send_chunks env ctx until (offset + int (length chunk)) chunks) (\<lambda>(frames, ending).
         retm (Chunk \<lparr>dc_offset = offset, dc_data = chunk\<rparr> # frames, ending)))"

definition replica_stream :: "node_env \<Rightarrow> node_ctx \<Rightarrow> get_replica_req \<Rightarrow> durable_receipt \<Rightarrow> int \<Rightarrow> replica_header outgoing on_node" where
  "replica_stream env ctx req receipt until =
     bindm (getm nd_disk) (\<lambda>disk.
     bindm (liftm (object_key_id disk (gr_block req))) (\<lambda>key.
     bindm (liftm (bindr (path (br_file (gr_block req)) (br_version (gr_block req))) (\<lambda>target. somer (disk target) OSError Inr))) (\<lambda>bytes.
     bindm (send_chunks env ctx until 0 (file_chunks bytes)) (\<lambda>(frames, ending).
     retm (Header \<lparr>ch_task = gr_task req, ch_block = gr_block req, ch_length = dr_stored receipt,
             ch_sha = dr_cipher_sha receipt, ch_key = key\<rparr> # frames, ending)))))"

definition GetReplica :: "node_env \<Rightarrow> node_ctx \<Rightarrow> get_replica_req \<Rightarrow> replica_header outgoing on_node" where
  "GetReplica env ctx req =
     bindm (liftm (peer ctx)) (\<lambda>identity.
     bindm (needm (identity = gr_dest req \<and> cx_user_id (gr_cx req) = gr_dest req) PERMISSION_DENIED) (\<lambda>_.
     bindm (ask_internal env \<lparr>ir_task = gr_task req, ir_source = ne_id env, ir_dest = gr_dest req, ir_block = gr_block req,
              ir_capability = gr_capability req, ir_fence = gr_fence req, ir_action = READ_REPLICA\<rparr>) (\<lambda>decision.
     bindm (find_row (gr_block req)) (\<lambda>row.
     counted ''replica_read_bytes'' (
       admitted env (copy_profile (br_size (gr_block req))) (pinned (br_version (gr_block req)) False (
       replica_stream env ctx req (sb_receipt row) (de_until decision))))))))"

section \<open>Deleting a retired block\<close>

definition delete_allowed :: "node_env \<Rightarrow> delete_req \<Rightarrow> decision on_node" where
  "delete_allowed env req =
     ask_internal env \<lparr>ir_task = dq_task req, ir_source = [], ir_dest = ne_id env, ir_block = dq_block req,
       ir_capability = dq_capability req, ir_fence = dq_fence req, ir_action = DELETE_RETIRED\<rparr>"

definition delete_body :: "node_env \<Rightarrow> delete_req \<Rightarrow> node_task on_node" where
  "delete_body env req =
     bindm (if ne_replication env
            then bindm (getm (\<lambda>s. tget (nd_blocks s) (br_version (dq_block req)))) (\<lambda>current.
                 bindm (needm (case current of None \<Rightarrow> True | Some b \<Rightarrow> dr_id (sb_receipt b) = dq_expected req) VERSION_CONFLICT) (\<lambda>_.
                 bindm (delete_allowed env req) (\<lambda>_. retm ())))
            else retm ()) (\<lambda>_.
     bindm (liftm (path (br_file (dq_block req)) (br_version (dq_block req)))) (\<lambda>target.
     let task = \<lparr>nt_id = dq_task req, nt_request = Delete req,
           nt_status = \<lparr>ts_task = dq_task req, ts_state = FINISHED, ts_receipt = None, ts_error = None\<rparr>, nt_reported = False\<rparr> in
     bindm (modm (\<lambda>s. s\<lparr>nd_disk := (nd_disk s)(target := None)\<rparr>)) (\<lambda>_.
     bindm (modm (\<lambda>s. s\<lparr>nd_blocks := tdel (br_version (dq_block req)) (nd_blocks s)\<rparr>)) (\<lambda>_.
     bindm (put_node_task task) (\<lambda>_.
     retm task)))))"

definition DeleteRetiredBlock :: "node_env \<Rightarrow> node_ctx \<Rightarrow> delete_req \<Rightarrow> task_status on_node" where
  "DeleteRetiredBlock env ctx req =
     bindm (control_peer env ctx (dq_cx req)) (\<lambda>_.
     bindm (getm (\<lambda>s. tget (nd_tasks s) (dq_task req))) (\<lambda>old.
     case old of
       Some task \<Rightarrow>
         bindm (liftm (ne_as_delete env (nt_request task))) (\<lambda>before.
         bindm (needm (node_intent env (ne_delete_dict env before) = node_intent env (ne_delete_dict env req))
                  IDEMPOTENCY_MISMATCH) (\<lambda>_. retm (nt_status task)))
     | None \<Rightarrow>
         bindm (delete_allowed env req) (\<lambda>_.
         bindm (pinned (br_version (dq_block req)) True (delete_body env req)) (\<lambda>task.
         bindm (report_task env task) (\<lambda>_.
         retm (nt_status task))))))"

section \<open>Registration\<close>

text \<open>Only receipts of objects that can be read are reported.\<close>

fun sound_receipts :: "node_env \<Rightarrow> disk \<Rightarrow> stored_block list \<Rightarrow> durable_receipt list res" where
  "sound_receipts env disk [] = Inr []"
| "sound_receipts env disk (row # rows) =
     (case read_verified (ne_crypto env) (ne_keys env) disk (sb_ref row) of
        Inr _ \<Rightarrow> bindr (sound_receipts env disk rows) (\<lambda>rest. Inr (sb_receipt row # rest))
      | Inl (Fault _) \<Rightarrow> sound_receipts env disk rows
      | Inl e \<Rightarrow> Inl e)"

definition report_pages :: "node_env \<Rightarrow> int \<Rightarrow> string \<Rightarrow> durable_receipt list \<Rightarrow> report_page list" where
  "report_pages env generation inventory receipts =
     map (\<lambda>page. \<lparr>rg_node = ne_id env, rg_generation = generation, rg_report = inventory, rg_page = int page,
            rg_receipts = take 64 (drop (page * 64) receipts), rg_last = (length receipts \<le> (page + 1) * 64)\<rparr>)
       [0..<max 1 ((length receipts + 63) div 64)]"

definition register_inventory :: "node_env \<Rightarrow> unit on_node" where
  "register_inventory env =
     bindm (if ne_failover env then bindm (tick (ne_uid env)) (\<lambda>i. modm (\<lambda>s. s\<lparr>nd_inventory := i\<rparr>)) else retm ()) (\<lambda>_.
     bindm (own_context env) (\<lambda>cx.
     bindm (metrics env) (\<lambda>m.
     bindm (getm (\<lambda>s. s)) (\<lambda>s.
     bindm (asking (\<lambda>t. ne_register env t cx (location env s) (ne_capacity env) (nm_free m) (nd_inventory s))) (\<lambda>revision.
     bindm (getm (\<lambda>s. s)) (\<lambda>s.
     bindm (liftm (sound_receipts env (nd_disk s) (tall (nd_blocks s)))) (\<lambda>receipts.
     bindm (eachm (\<lambda>page. bindm (own_context env) (\<lambda>cx. asking (\<lambda>t. ne_report env t cx page)))
              (report_pages env (nd_generation s) (nd_inventory s) receipts)) (\<lambda>_.
     modm (\<lambda>s. s\<lparr>nd_sequence := revision\<rparr>)))))))))"

definition beat :: "node_env \<Rightarrow> unit on_node" where
  "beat env =
     bindm (modm (\<lambda>s. s\<lparr>nd_sequence := nd_sequence s + 1\<rparr>)) (\<lambda>_.
     bindm (own_context env) (\<lambda>cx. bindm (tick (ne_now env)) (\<lambda>n. bindm (metrics env) (\<lambda>m. bindm (getm (\<lambda>s. s)) (\<lambda>s.
     asking (\<lambda>t. ne_beat env t cx \<lparr>bt_node = ne_id env, bt_generation = nd_generation s, bt_sequence = nd_sequence s,
       bt_observed = n, bt_metrics = m\<rparr>))))))"

definition finished_tasks :: "node \<Rightarrow> node_task list" where
  "finished_tasks s = filter (\<lambda>t. (ts_state (nt_status t) = FINISHED \<or> ts_state (nt_status t) = FAILED) \<and> \<not> nt_reported t)
     (tall (nd_tasks s))"

text \<open>
  One round of \<^verbatim>\<open>maintain\<close>; the value says whether the node counts as registered afterwards. A control node that
  answers \<open>VERSION_CONFLICT\<close> or \<open>NOT_FOUND\<close> does not know this incarnation.
\<close>

definition maintain_round :: "node_env \<Rightarrow> bool \<Rightarrow> bool on_node" where
  "maintain_round env registered =
     bindm (trym (if registered then retm () else register_inventory env)) (\<lambda>joined.
     bindm (case joined of
              Inl _ \<Rightarrow> retm (False, [])
            | Inr _ \<Rightarrow>
                bindm (trym (bindm (beat env) (\<lambda>_. getm finished_tasks))) (\<lambda>answer.
                retm (case answer of
                        Inr ended \<Rightarrow> (True, ended)
                      | Inl e \<Rightarrow> (e \<noteq> RpcError VERSION_CONFLICT \<and> e \<noteq> RpcError NOT_FOUND, [])))) (\<lambda>(registered, ended).
     bindm (eachm (\<lambda>task. bindm (trym (report_task env task)) (\<lambda>_. retm ())) (take 8 ended)) (\<lambda>_.
     retm registered)))"

section \<open>Start\<close>

text \<open>\<^verbatim>\<open>bytes.fromhex\<close>, which skips white space between the bytes.\<close>

definition ascii_space :: "char \<Rightarrow> bool" where
  "ascii_space c \<longleftrightarrow> c \<in> {CHR '' '', CHR 0x09, CHR 0x0A, CHR 0x0B, CHR 0x0C, CHR 0x0D}"

fun fromhex :: "string \<Rightarrow> string option" where
  "fromhex [] = Some []"
| "fromhex [c] = (if ascii_space c then Some [] else None)"
| "fromhex (c # d # rest) =
     (if ascii_space c then fromhex (d # rest)
      else case (hex_val c, hex_val d) of
             (Some h, Some l) \<Rightarrow> map_option (Cons (char_of (16 * h + l))) (fromhex rest)
           | _ \<Rightarrow> None)"

text \<open>A number for an unsigned 64-bit field of a message.\<close>

definition uint_field :: "json option \<Rightarrow> int option \<Rightarrow> int res" where
  "uint_field j fallback =
     (case j of
        None \<Rightarrow> somer fallback KeyError Inr
      | Some (JInt i) \<Rightarrow> if 0 \<le> i \<and> i < 2 ^ 64 then Inr i else Inl ValueError
      | Some (JBool b) \<Rightarrow> Inr (if b then 1 else 0)
      | Some _ \<Rightarrow> Inl TypeError)"

definition object_ref :: "string \<Rightarrow> string \<Rightarrow> string \<Rightarrow> block_ref res" where
  "object_ref file_id block_id bytes =
     need (take 8 bytes = MAGIC) DATA_LOSS (
     let rest = drop 8 bytes in
     guardr (4 \<le> length rest) ValueError (
     let len = unbe32 (take 4 rest) in
     need (0 < len \<and> len \<le> 4096) DATA_LOSS (
     case loads (take len (drop 4 rest)) of
       None \<Rightarrow> Inl ValueError
     | Some (JObj kvs) \<Rightarrow>
         bindr (uint_field (map_of kvs ''block_index'') (Some 0)) (\<lambda>index.
         bindr (uint_field (map_of kvs ''size'') None) (\<lambda>sized.
         case map_of kvs ''sha256'' of
           None \<Rightarrow> Inl KeyError
         | Some (JStr h) \<Rightarrow> somer (fromhex h) ValueError (\<lambda>sha.
             Inr \<lparr>br_file = file_id, br_version = block_id, br_index = index, br_size = sized, br_sha = sha\<rparr>)
         | Some _ \<Rightarrow> Inl TypeError))
     | Some _ \<Rightarrow> Inl TypeError)))"

definition recover_object :: "node_env \<Rightarrow> string \<Rightarrow> string \<Rightarrow> unit on_node" where
  "recover_object env file_id block_id =
     bindm (getm nd_disk) (\<lambda>disk.
     bindm (liftm (somer (disk (file_id, block_id)) OSError Inr)) (\<lambda>bytes.
     bindm (liftm (object_ref file_id block_id bytes)) (\<lambda>block.
     bindm (check_object env block) (\<lambda>_.
     bindm (tick (ne_uid env)) (\<lambda>op_id.
     bindm (new_receipt env op_id block (int (length bytes)) (hash (ne_crypto env) bytes)) (\<lambda>receipt.
     modm (\<lambda>s. s\<lparr>nd_blocks := tput block_id \<lparr>sb_id = block_id, sb_ref = block, sb_stored = int (length bytes),
       sb_receipt = receipt, sb_unconfirmed = True\<rparr> (nd_blocks s)\<rparr>)))))))"

text \<open>Objects that cannot be read stay where they are, without a row.\<close>

definition quarantined :: "exn \<Rightarrow> bool" where
  "quarantined e \<longleftrightarrow> (case e of Fault _ \<Rightarrow> True | ValueError \<Rightarrow> True | KeyError \<Rightarrow> True | _ \<Rightarrow> False)"

definition recover_name :: "node_env \<Rightarrow> string \<Rightarrow> string \<times> string \<Rightarrow> unit on_node" where
  "recover_name env folder = (\<lambda>(stem, suffix).
     if suffix = ''.staging'' then bindm (liftm (uuid stem)) (\<lambda>_. retm ())
     else if suffix = ''.blk'' then
       bindm (liftm (uuid stem)) (\<lambda>_.
       bindm (getm (\<lambda>s. tget (nd_blocks s) stem)) (\<lambda>known.
       if known \<noteq> None then retm ()
       else catchm (recover_object env folder stem) (\<lambda>e. if quarantined e then retm () else raisem e)))
     else retm ())"

definition recover_unindexed_objects :: "node_env \<Rightarrow> unit on_node" where
  "recover_unindexed_objects env =
     eachm (\<lambda>folder. bindm (liftm (uuid folder)) (\<lambda>_. eachm (recover_name env folder) (ne_names env folder))) (ne_folders env)"

text \<open>
  The constructor: the master key is the one the volume was set up with, the incarnation gets a new
  generation before anything else can fail, and the fields of the process start afresh.
\<close>

definition start_node :: "node_env \<Rightarrow> string \<Rightarrow> string list \<Rightarrow> string option \<Rightarrow> unit on_node" where
  "start_node env key read_keys active_key =
     bindm (liftm (guardr (length key = 32) RuntimeError (Inr ()))) (\<lambda>_.
     bindm (getm nd_owner) (\<lambda>owner.
     bindm (liftm (guardr (map_option fst owner = Some (ne_id env)) RuntimeError (
                   guardr (map_option snd owner = Some (hex (hash (ne_crypto env) key))) RuntimeError (Inr ())))) (\<lambda>_.
     bindm (modm (\<lambda>s. s\<lparr>nd_generation := nd_generation s + 1\<rparr>)) (\<lambda>_.
     bindm (tick (ne_uid env)) (\<lambda>i.
     bindm (modm (\<lambda>s. s\<lparr>nd_inventory := i\<rparr>)) (\<lambda>_.
     let active = (case active_key of None \<Rightarrow> key | Some k \<Rightarrow> k) in
     bindm (liftm (guardr (length active = 32 \<and> list_all (\<lambda>k. length k = 32) read_keys) RuntimeError (Inr ()))) (\<lambda>_.
     let env = env\<lparr>ne_keys := open_keys (ne_crypto env) active (key # read_keys)\<rparr> in
     bindm (recover_unindexed_objects env) (\<lambda>_.
     modm (\<lambda>s. s\<lparr>nd_reserved := 0, nd_units := 4, nd_pins := \<lparr>pin_active = tempty, pin_writers = []\<rparr>, nd_jobs := [],
                 nd_queue := [], nd_sequence := 0\<rparr>)))))))))"

end
