(* ===== verification/Node_Frames.thy ===== *)
theory Node_Frames
  imports Node_Tasks Patching
begin

text \<open>
  What the handlers of a DataNode leave alone. \<open>steady_state\<close> is the interface: a property of the node that
  neither a reading nor the other threads change is kept by everything a handler does that only looks
  and asks. It is interpreted twice: for the shared resources (admission units, reserved bytes and pins),
  and for the content of one object on disk.
\<close>

section \<open>Looking and asking\<close>

locale steady_state =
  fixes env :: node_env and I :: "node \<Rightarrow> bool"
  assumes steady_tick: "I s \<Longrightarrow> I (s\<lparr>nd_tick := n\<rparr>)"
    and steady_others: "I s \<Longrightarrow> I (ne_others env i s)"
begin

lemma tick_keeps [keep]: "keeps I (tick f)"
  by (auto simp: valid_def tick_def intro: steady_tick)

lemma waiting_keeps [keep]: "keeps I (waiting env)"
  by (auto simp: waiting_def valid_def bindm_def tick_def intro: steady_tick steady_others)

lemma asking_keeps [keep]: "keeps I (asking f)" "keeps I (own_context env)" "keeps I (metrics env)"
  "keeps I (still_there env ctx until)" "keeps I (timely env ctx decision)"
  unfolding asking_def own_context_def metrics_def still_there_def timely_def by (intro keep)+

lemma deciding_keeps [keep]: "keeps I (decided env ctx cx req)" "keeps I (authorize_write env ctx head)" "keeps I (authorize_read env ctx greq)"
  "keeps I (tell_durable env report)" "keeps I (ask_internal env ireq)" "keeps I (internal_authorize env rreq act)"
  "keeps I (delete_allowed env dreq)" "keeps I (control_peer env ctx cx)" "keeps I (earlier env dict previous)"
  "keeps I (check_object env block)" "keeps I (find_row block)" "keeps I (new_receipt env op_id block n digest)"
  unfolding decided_def authorize_write_def authorize_read_def tell_durable_def ask_internal_def internal_authorize_def delete_allowed_def
    control_peer_def earlier_def check_object_def find_row_def new_receipt_def decided_def ask_internal_def
  by (intro keep)+

lemma streams_keep [keep]: "keeps I (put_chunks env ctx until sized offset frames ending)"
  "keeps I (delta_chunks env ctx until len delta dframes ending)" "keeps I (wait_base env ctx base limit valid_until fuel)"
  "keeps I (get_chunks env ctx until start len ttl position chunks)" "keeps I (copy_chunks env until offset cframes ending)"
  "keeps I (send_chunks env ctx until offset chunks)"
proof -
  show "keeps I (put_chunks env ctx until sized offset frames ending)"
    by (induction frames arbitrary: offset) (auto intro!: keep)
  show "keeps I (delta_chunks env ctx until len delta dframes ending)"
    by (induction dframes arbitrary: delta) (auto intro!: keep)
  show "keeps I (wait_base env ctx base limit valid_until fuel)"
    by (induction fuel) (auto simp only: wait_base.simps intro!: keep)
  show "keeps I (get_chunks env ctx until start len ttl position chunks)"
    by (induction chunks arbitrary: ttl position) (auto simp: Let_def intro!: keep)
  show "keeps I (copy_chunks env until offset cframes ending)"
    by (induction cframes arbitrary: offset) (auto intro!: keep)
  show "keeps I (send_chunks env ctx until offset chunks)"
    by (induction chunks arbitrary: offset) (auto intro!: keep)
qed

lemma result_chunks_keeps [keep]: "keeps I (result_chunks env ctx until sized start delta offset pending source)"
proof (induction "sized - offset" arbitrary: offset pending source rule: less_induct)
  case less
  show ?case
  proof (cases "sized \<le> offset")
    case False
    have "keeps I (result_chunks env ctx until sized start delta (offset + min (nat CHUNK) (sized - offset)) p r)" for p r
      using False by (intro less.hyps) (auto simp: CHUNK_def)
    with False show ?thesis by (subst result_chunks.simps) (auto simp: Let_def intro!: keep split: prod.split)
  qed (subst result_chunks.simps, simp add: keep)
qed

lemma patched_keeps [keep]: "keeps I (patched env ctx decision head delta)" "keeps I (read_stream env ctx req until)"
  "keeps I (replica_stream env ctx rreq receipt until)"
  unfolding patched_def read_stream_def replica_stream_def by (intro keep)+

end

section \<open>Shared resources\<close>

text \<open>
  Units, reserved bytes and pins. Other threads change them too, but each gives back what it took by
  the time it is done: \<open>calm\<close> says so of the threads that run while a handler waits.
\<close>

definition resources :: "node \<Rightarrow> int \<times> int \<times> pin_state" where
  "resources s = (nd_units s, nd_reserved s, nd_pins s)"

definition calm :: "node_env \<Rightarrow> bool" where
  "calm env \<longleftrightarrow> (\<forall>i s. resources (ne_others env i s) = resources s)"

definition holding :: "node_env \<Rightarrow> int \<times> int \<times> pin_state \<Rightarrow> node \<Rightarrow> bool" where
  "holding env r s \<longleftrightarrow> (calm env \<longrightarrow> resources s = r)"

lemma resources_simps [simp]:
  "resources (s\<lparr>nd_tick := n\<rparr>) = resources s" "resources (s\<lparr>nd_disk := d\<rparr>) = resources s" "resources (s\<lparr>nd_blocks := b\<rparr>) = resources s"
  "resources (s\<lparr>nd_puts := q\<rparr>) = resources s" "resources (s\<lparr>nd_patches := q\<rparr>) = resources s" "resources (s\<lparr>nd_traffic := v\<rparr>) = resources s"
  "resources (s\<lparr>nd_tasks := w\<rparr>) = resources s" "resources (s\<lparr>nd_quarantine := x\<rparr>) = resources s" "resources (s\<lparr>nd_aside := y\<rparr>) = resources s"
  "resources (s\<lparr>nd_jobs := z\<rparr>) = resources s" "resources (s\<lparr>nd_queue := a\<rparr>) = resources s" "resources (s\<lparr>nd_sequence := k\<rparr>) = resources s"
  "resources (s\<lparr>nd_inventory := i\<rparr>) = resources s" "resources (put_row r s) = resources s"
  by (simp_all add: resources_def put_row_def Let_def)

interpretation res: steady_state env "holding env r" for env r
  by standard (auto simp: holding_def calm_def)

lemma plain_modm [keep]: "(\<And>s. resources (f s) = resources s) \<Longrightarrow> keeps (holding env r) (modm f)"
  by (intro keeps_modm) (simp add: holding_def)

declare res.tick_keeps [keep] res.waiting_keeps [keep] res.asking_keeps [keep] res.deciding_keeps [keep] res.streams_keep [keep]
  res.result_chunks_keeps [keep] res.patched_keeps [keep]

definition pins_ok :: "pin_state \<Rightarrow> bool" where
  "pins_ok p \<longleftrightarrow> (\<forall>j n. tget (pin_active p) j = Some n \<longrightarrow> 1 \<le> n)"

lemma pin_in_out:
  assumes "pin_enter k x p = Inr q" and "pins_ok p"
  shows "pin_exit k q = Inr p" and "pins_ok q"
proof -
  define n where "n = (case tget (pin_active p) k of None \<Rightarrow> 0 | Some n \<Rightarrow> n)"
  have pos: "1 \<le> m" if "tget (pin_active p) j = Some m" for j m using that assms(2) by (simp add: pins_ok_def)
  have n: "n = 0 \<and> tget (pin_active p) k = None \<or> 1 \<le> n \<and> tget (pin_active p) k = Some n"
    using pos [of k] by (auto simp: n_def split: option.splits)
  from assms(1) have free: "k \<notin> set (pin_writers p)" and
    q: "q = p\<lparr>pin_active := tput k (n + 1) (pin_active p), pin_writers := (if x then List.insert k (pin_writers p) else pin_writers p)\<rparr>"
    by (auto simp: pin_enter_def run Let_def n_def)
  have w: "removeAll k (if x then List.insert k (pin_writers p) else pin_writers p) = pin_writers p"
    using free by (auto simp: List.insert_def removeAll_id)
  have a: "(if n + 1 - 1 = 0 then tdel k (tput k (n + 1) (pin_active p)) else tput k (n + 1 - 1) (tput k (n + 1) (pin_active p))) = pin_active p"
    using n by (intro table_eqI) auto
  have "pin_exit k q = Inr (p\<lparr>pin_active := (if n + 1 - 1 = 0 then tdel k (tput k (n + 1) (pin_active p)) else tput k (n + 1 - 1) (tput k (n + 1) (pin_active p))),
      pin_writers := removeAll k (if x then List.insert k (pin_writers p) else pin_writers p)\<rparr>)"
    by (simp add: pin_exit_def q)
  then show "pin_exit k q = Inr p" unfolding a w by simp
  have "1 \<le> n + 1" using n by auto
  then show "pins_ok q" using pos by (auto simp: pins_ok_def q)
qed

lemma holding_calm: "calm env \<Longrightarrow> holding env r = (\<lambda>s. resources s = r)" "\<not> calm env \<Longrightarrow> holding env r = (\<lambda>_. True)"
  by (simp_all add: holding_def fun_eq_iff)

lemma keeps_any: "valid P m (\<lambda>_ _. True) (\<lambda>_ _. True)"
  by (simp add: valid_def)

lemma keeps_pinned [keep]:
  assumes body: "\<And>q. pins_ok q \<Longrightarrow> keeps (holding env (u, v, q)) body" and "pins_ok p"
  shows "keeps (holding env (u, v, p)) (pinned k x body)"
proof (cases "calm env")
  case True
  have enter: "valid (\<lambda>s. resources s = (u, v, p)) (pinning k x)
     (\<lambda>_ s. \<exists>q. pin_enter k x p = Inr q \<and> resources s = (u, v, q)) (\<lambda>_ s. resources s = (u, v, p))"
    by (auto simp: valid_def pinning_def bindm_def resources_def split: sum.splits)
  have leave: "valid (\<lambda>s. resources s = (u, v, q)) (unpinning k) (\<lambda>_ s. resources s = (u, v, p)) (\<lambda>_ s. resources s = (u, v, p))"
    if "pin_enter k x p = Inr q" for q
    using pin_in_out(1) [OF that assms(2)] by (auto simp: valid_def unpinning_def bindm_def resources_def)
  have inside: "valid (\<lambda>s. \<exists>q. pin_enter k x p = Inr q \<and> resources s = (u, v, q)) (finallym body (unpinning k))
     (\<lambda>_ s. resources s = (u, v, p)) (\<lambda>_ s. resources s = (u, v, p))"
  proof (cases "pin_enter k x p")
    case (Inr q)
    have "valid (\<lambda>s. resources s = (u, v, q)) body (\<lambda>_ s. resources s = (u, v, q)) (\<lambda>_ s. resources s = (u, v, q))"
      using body [OF pin_in_out(2) [OF Inr assms(2)]] True by (simp add: holding_calm)
    from valid_finallym [OF this leave [OF Inr] leave [OF Inr]] show ?thesis by (simp add: Inr)
  qed (simp add: valid_def)
  show ?thesis unfolding holding_calm(1) [OF True] pinned_def by (rule valid_bindm [OF enter inside])
qed (simp add: holding_calm keeps_any)

lemma keeps_admitted [keep]:
  assumes body: "\<And>w. keeps (holding env (w, v, p)) body"
  shows "keeps (holding env (u, v, p)) (admitted env b body)"
proof (cases "calm env")
  case True
  have loop: "valid (\<lambda>s. resources s = (u, v, p)) (admit_loop env w until n)
     (\<lambda>_ s. resources s = (u - w, v, p)) (\<lambda>_ s. resources s = (u, v, p))" for w until n
  proof (induction n)
    case (Suc n)
    have k: "keeps (\<lambda>s. resources s = (u, v, p)) (tick f)" "keeps (\<lambda>s. resources s = (u, v, p)) (waiting env)" for f :: "nat \<Rightarrow> rat"
      using res.tick_keeps [of env "(u, v, p)" f] res.waiting_keeps [of env "(u, v, p)"] by (simp_all add: holding_calm(1) [OF True])
    show ?case
      unfolding admit_loop.simps
    proof (rule valid_bindm [OF keeps_rules(4)])
      fix units
      show "valid (\<lambda>s. resources s = (u, v, p)) (if w \<le> units then modm (\<lambda>s. s\<lparr>nd_units := nd_units s - w\<rparr>)
        else bindm (tick (ne_mono env)) (\<lambda>t. bindm (needm (t < until) SERVICE_UNAVAILABLE) (\<lambda>_. bindm (waiting env) (\<lambda>_. admit_loop env w until n))))
        (\<lambda>_ s. resources s = (u - w, v, p)) (\<lambda>_ s. resources s = (u, v, p))"
      proof (cases "w \<le> units")
        case True
        then show ?thesis unfolding if_P [OF True] by (intro valid_modm) (simp add: resources_def)
      next
        case False
        then show ?thesis unfolding if_not_P [OF False]
          by (intro valid_bindm [OF k(1)] valid_bindm [OF keeps_rules(5)] valid_bindm [OF k(2)] Suc)
      qed
    qed
  qed (simp add: valid_def)
  have inner: "keeps (\<lambda>s. resources s = (u, v, p)) (bindm (admit_loop env w until n) (\<lambda>_. finallym body (modm (\<lambda>s. s\<lparr>nd_units := nd_units s + w\<rparr>))))" for w until n
    using body [of "u - w"] True
    by (intro valid_bindm [OF loop] valid_finallym [where ?Q1.0 = "\<lambda>_ s. resources s = (u - w, v, p)" and ?E1.0 = "\<lambda>_ s. resources s = (u - w, v, p)"])
       (auto simp: holding_calm resources_def intro!: valid_modm)
  show ?thesis
    using res.tick_keeps [of env "(u, v, p)" "ne_mono env"]
    unfolding admitted_def holding_calm(1) [OF True] by (intro keeps_cases(2) keeps_rules keeps_bindm inner)
qed (simp add: holding_calm keeps_any)

lemma keeps_reserving [keep]:
  assumes body: "\<And>w. keeps (holding env (u, w, p)) body"
  shows "keeps (holding env (u, v, p)) (reserving env amount body)"
proof (cases "calm env")
  case True
  have res: "valid (\<lambda>s. resources s = (u, v, p)) (reserve env amount) (\<lambda>_ s. resources s = (u, v + amount, p)) (\<lambda>_ s. resources s = (u, v, p))"
    by (auto simp: valid_def reserve_def metrics_def bindm_def tick_def needm_def resources_def split: if_splits)
  show ?thesis
    using body [of "v + amount"]
    unfolding reserving_def unreserve_def holding_calm(1) [OF True]
    by (intro valid_bindm [OF res] valid_finallym [where ?Q1.0 = "\<lambda>_ s. resources s = (u, v + amount, p)" and ?E1.0 = "\<lambda>_ s. resources s = (u, v + amount, p)"])
       (auto simp: resources_def intro!: valid_modm)
qed (simp add: holding_calm keeps_any)

lemma keeps_pin_base:
  assumes "pins_ok p"
  shows "valid (holding env (u, v, p)) (pin_base env ctx k until n)
     (\<lambda>_ s. calm env \<longrightarrow> (\<exists>q. pin_enter k False p = Inr q \<and> resources s = (u, v, q))) (\<lambda>_. holding env (u, v, p))"
proof (cases "calm env")
  case True
  have enter: "valid (\<lambda>s. resources s = (u, v, p)) (pinning k False)
     (\<lambda>_ s. \<exists>q. pin_enter k False p = Inr q \<and> resources s = (u, v, q)) (\<lambda>_ s. resources s = (u, v, p))"
    by (auto simp: valid_def pinning_def bindm_def resources_def split: sum.splits)
  have k: "keeps (\<lambda>s. resources s = (u, v, p)) (tick f)" "keeps (\<lambda>s. resources s = (u, v, p)) (tick g)"
    "keeps (\<lambda>s. resources s = (u, v, p)) (waiting env)" for f :: "nat \<Rightarrow> rat" and g :: "nat \<Rightarrow> bool"
    using res.tick_keeps [of env "(u, v, p)" f] res.tick_keeps [of env "(u, v, p)" g] res.waiting_keeps [of env "(u, v, p)"]
    by (simp_all add: holding_calm(1) [OF True])
  have "valid (\<lambda>s. resources s = (u, v, p)) (pin_base env ctx k until n)
     (\<lambda>_ s. \<exists>q. pin_enter k False p = Inr q \<and> resources s = (u, v, q)) (\<lambda>_ s. resources s = (u, v, p))"
  proof (induction n)
    case (Suc n)
    show ?case
      unfolding pin_base.simps
    proof (rule valid_catchm [OF enter])
      fix e
      show "valid (\<lambda>s. resources s = (u, v, p)) (if e \<noteq> Fault LOCK_BUSY then raisem e else
        bindm (tick (nc_active ctx)) (\<lambda>active. bindm (needm active DATA_UNAVAILABLE) (\<lambda>_. bindm (tick (ne_mono env)) (\<lambda>t.
        bindm (needm (t < until) DATA_UNAVAILABLE) (\<lambda>_. bindm (waiting env) (\<lambda>_. pin_base env ctx k until n))))))
        (\<lambda>_ s. \<exists>q. pin_enter k False p = Inr q \<and> resources s = (u, v, q)) (\<lambda>_ s. resources s = (u, v, p))"
      proof (cases "e \<noteq> Fault LOCK_BUSY")
        case True
        then show ?thesis unfolding if_P [OF True] by (intro valid_raisem)
      next
        case False
        then show ?thesis unfolding if_not_P [OF False]
          by (intro valid_bindm [OF k(2)] valid_bindm [OF keeps_rules(5)] valid_bindm [OF k(1)] valid_bindm [OF k(3)] Suc)
      qed
    qed
  qed (simp add: valid_def)
  with True show ?thesis by (simp add: holding_calm)
qed (simp add: holding_calm keeps_any)

lemma keeps_with_base [keep]:
  assumes body: "\<And>q. pins_ok q \<Longrightarrow> keeps (holding env (u, v, q)) body" and "pins_ok p"
  shows "keeps (holding env (u, v, p)) (with_base env ctx k until body)"
proof (cases "calm env \<and> k \<noteq> []")
  case True
  have leave: "valid (\<lambda>s. resources s = (u, v, q)) (unpinning k) (\<lambda>_ s. resources s = (u, v, p)) (\<lambda>_ s. resources s = (u, v, p))"
    if "pin_enter k False p = Inr q" for q
    using pin_in_out(1) [OF that assms(2)] by (auto simp: valid_def unpinning_def bindm_def resources_def)
  have inside: "valid (\<lambda>s. \<exists>q. pin_enter k False p = Inr q \<and> resources s = (u, v, q)) (finallym body (unpinning k))
     (\<lambda>_ s. resources s = (u, v, p)) (\<lambda>_ s. resources s = (u, v, p))"
  proof (cases "pin_enter k False p")
    case (Inr q)
    have "valid (\<lambda>s. resources s = (u, v, q)) body (\<lambda>_ s. resources s = (u, v, q)) (\<lambda>_ s. resources s = (u, v, q))"
      using body [OF pin_in_out(2) [OF Inr assms(2)]] True by (simp add: holding_calm)
    from valid_finallym [OF this leave [OF Inr] leave [OF Inr]] show ?thesis by (simp add: Inr)
  qed (simp add: valid_def)
  have "keeps (\<lambda>s. resources s = (u, v, p)) (bindm (pin_base env ctx k until (ne_patience env)) (\<lambda>_. finallym body (unpinning k)))"
    using keeps_pin_base [OF assms(2), of env u v ctx k until "ne_patience env"] True
    by (intro valid_bindm [OF _ inside]) (simp add: holding_calm)
  with True show ?thesis by (simp add: with_base_def holding_calm)
qed (use body [OF assms(2)] in \<open>auto simp: with_base_def holding_calm keeps_any\<close>)

section \<open>Every handler gives back what it takes\<close>

lemma parts_keep [keep]:
  "keeps (holding env r) (count_bytes name amount)" "keeps (holding env r) (put_node_task task)"
  "keeps (holding env r) (record_put env head receipt)" "keeps (holding env r) (record_patch env phead delta receipt)"
  "keeps (holding env r) content \<Longrightarrow> keeps (holding env r) (write_object env block content)"
  "keeps (holding env r) stream \<Longrightarrow> keeps (holding env r) (counted name stream)"
  unfolding count_bytes_def put_node_task_def record_put_def record_patch_def write_object_def counted_def
  by (intro keep; simp)+

lemma tasks_keep [keep]:
  "keeps (holding env r) (report_task env task)" "keeps (holding env r) (accept_task env req)"
  "keeps (holding env r) (set_aside env req existing)" "keeps (holding env r) (confirm_copy env req existing)"
  "keeps (holding env r) (delete_body env dreq)"
  unfolding report_task_def accept_task_def set_aside_def confirm_copy_def delete_body_def Let_def
  by (intro keep; simp split: option.split)+

lemma stores_keep [keep]:
  "keeps (holding env (u, v, p)) (store_put env ctx head decision frames)"
  "keeps (holding env (u, v, p)) (store_patch env ctx phead decision pframes)"
  "keeps (holding env (u, v, p)) (fetch_copy env req)"
  unfolding store_put_def store_patch_def fetch_copy_def Let_def by (intro keep; simp)+

lemma clients_keep:
  assumes "pins_ok p"
  shows "keeps (holding env (u, v, p)) (PutBlock env ctx frames)" "keeps (holding env (u, v, p)) (PatchBlock env ctx cap pframes)"
    "keeps (holding env (u, v, p)) (GetBlock env ctx req)"
  unfolding PutBlock_def PatchBlock_def patch_block_def GetBlock_def Let_def by (intro keep; simp add: assms)+

lemma control_keeps:
  assumes "pins_ok p"
  shows "keeps (holding env (u, v, p)) (VerifyReceipt env ctx vreq)" "keeps (holding env (u, v, p)) (ReplicateBlock env ctx req)"
    "keeps (holding env (u, v, p)) (copy env req)" "keeps (holding env (u, v, p)) (GetReplica env ctx greq)"
    "keeps (holding env (u, v, p)) (DeleteRetiredBlock env ctx dreq)"
  unfolding VerifyReceipt_def ReplicateBlock_def copy_def copy_body_def GetReplica_def DeleteRetiredBlock_def Let_def
  by (intro keep; simp add: assms)+

lemma maintenance_keeps:
  "keeps (holding env r) (register_inventory env)" "keeps (holding env r) (beat env)" "keeps (holding env r) (maintain_round env registered)"
proof -
  show reg: "keeps (holding env r) (register_inventory env)"
    unfolding register_inventory_def by (intro keep keeps_eachm; simp)
  show b: "keeps (holding env r) (beat env)" unfolding beat_def by (intro keep; simp)
  show "keeps (holding env r) (maintain_round env registered)"
    unfolding maintain_round_def by (intro keep keeps_eachm reg b)
qed

section \<open>One object\<close>

text \<open>An object that the other threads leave alone.\<close>

definition undisturbed :: "node_env \<Rightarrow> string \<times> string \<Rightarrow> bool" where
  "undisturbed env k \<longleftrightarrow> (\<forall>i s. nd_disk (ne_others env i s) k = nd_disk s k)"

definition object_is :: "node_env \<Rightarrow> string \<times> string \<Rightarrow> string option \<Rightarrow> node \<Rightarrow> bool" where
  "object_is env k v s \<longleftrightarrow> (undisturbed env k \<longrightarrow> nd_disk s k = v)"

interpretation obj: steady_state env "object_is env k v" for env k v
  by standard (auto simp: object_is_def undisturbed_def)

lemma units_object: "object_is env k v s \<Longrightarrow> object_is env k v (s\<lparr>nd_units := u\<rparr>)"
  by (simp add: object_is_def)

lemma admit_loop_object: "keeps (object_is env k v) (admit_loop env w until n)"
  by (induction n) (auto simp only: admit_loop.simps intro!: keep obj.tick_keeps obj.waiting_keeps keeps_modm units_object)

lemma admitted_run:
  assumes "admitted env b body s = (Inr x, t)"
  shows "\<exists>s1 s2 w. body s1 = (Inr x, s2) \<and> t = s2\<lparr>nd_units := nd_units s2 + w\<rparr> \<and>
     (\<forall>k. undisturbed env k \<longrightarrow> nd_disk s1 k = nd_disk s k)"
proof -
  from assms obtain w s0 s1 s2 where w: "tick (ne_mono env) s = (Inr (ne_mono env (nd_tick s)), s0)"
    "admit_loop env w (ne_mono env (nd_tick s) + 5) (ne_patience env) s0 = (Inr (), s1)" "body s1 = (Inr x, s2)"
    "t = s2\<lparr>nd_units := nd_units s2 + w\<rparr>"
    by (auto simp: admitted_def bindm_eq_Inr finallym_eq tick_def split: option.splits)
  have "nd_disk s1 k = nd_disk s k" if "undisturbed env k" for k
    using keepsD [OF admit_loop_object _ w(2), of k "nd_disk s k"] w(1) that by (auto simp: object_is_def tick_def)
  with w show ?thesis by blast
qed

lemma pinned_run:
  assumes "pinned k x body s = (Inr y, t)"
  shows "\<exists>s1 s2 q q'. body s1 = (Inr y, s2) \<and> s1 = s\<lparr>nd_pins := q\<rparr> \<and> t = s2\<lparr>nd_pins := q'\<rparr>"
  using assms by (auto simp: pinned_def pinning_def unpinning_def bindm_eq_Inr finallym_eq liftm_eq_Inr)

lemma in_section_run:
  assumes "admitted env b (pinned k x body) s = (Inr y, t)"
  shows "\<exists>s1 s2 u q. body s1 = (Inr y, s2) \<and> t = s2\<lparr>nd_units := u, nd_pins := q\<rparr> \<and>
    (\<forall>k. undisturbed env k \<longrightarrow> nd_disk s1 k = nd_disk s k)"
proof -
  from admitted_run [OF assms] obtain v1 v2 w where v: "pinned k x body v1 = (Inr y, v2)" "t = v2\<lparr>nd_units := nd_units v2 + w\<rparr>"
    "\<forall>k. undisturbed env k \<longrightarrow> nd_disk v1 k = nd_disk s k" by blast
  from pinned_run [OF v(1)] obtain s1 s2 q q' where p: "body s1 = (Inr y, s2)" "s1 = v1\<lparr>nd_pins := q\<rparr>" "v2 = s2\<lparr>nd_pins := q'\<rparr>" by blast
  have "t = s2\<lparr>nd_units := nd_units v2 + w, nd_pins := q'\<rparr>" using v(2) p(3) by simp
  moreover have "\<forall>k. undisturbed env k \<longrightarrow> nd_disk s1 k = nd_disk s k" using v(3) p(2) by simp
  ultimately show ?thesis using p(1) by blast
qed

section \<open>A node at work\<close>

text \<open>Everything that is called on a node or that it does by itself, once it is started.\<close>

inductive node_step :: "node_env \<Rightarrow> node \<Rightarrow> node \<Rightarrow> bool" for env where
  step_put: "PutBlock env ctx frames s = (r, t) \<Longrightarrow> node_step env s t"
| step_patch: "PatchBlock env ctx cap pframes s = (r, t) \<Longrightarrow> node_step env s t"
| step_get: "GetBlock env ctx req s = (r', t) \<Longrightarrow> node_step env s t"
| step_verify: "VerifyReceipt env ctx vreq s = (r, t) \<Longrightarrow> node_step env s t"
| step_replicate: "ReplicateBlock env ctx rreq s = (q, t) \<Longrightarrow> node_step env s t"
| step_job: "run_job env s = (z, t) \<Longrightarrow> node_step env s t"
| step_replica: "GetReplica env ctx greq s = (w, t) \<Longrightarrow> node_step env s t"
| step_delete: "DeleteRetiredBlock env ctx dreq s = (q, t) \<Longrightarrow> node_step env s t"
| step_round: "maintain_round env registered s = (b, t) \<Longrightarrow> node_step env s t"

inductive_cases node_stepE: "node_step env s t"

definition idle :: "int \<times> int \<times> pin_state" where
  "idle = (4, 0, \<lparr>pin_active = tempty, pin_writers = []\<rparr>)"

definition node_start :: "node_env \<Rightarrow> string \<Rightarrow> string list \<Rightarrow> string option \<Rightarrow> node \<Rightarrow> bool" where
  "node_start env key read_keys active_key s \<longleftrightarrow> (\<exists>s0. start_node env key read_keys active_key s0 = (Inr (), s))"

lemma run_job_keeps: "pins_ok p \<Longrightarrow> keeps (holding env (u, v, p)) (run_job env)"
  unfolding run_job_def by (intro keep control_keeps) simp_all

lemma node_step_keeps:
  assumes "node_step env s t" and "holding env (u, v, p) s" and "pins_ok p"
  shows "holding env (u, v, p) t"
  using assms(1)
  by cases (use assms(2,3) in \<open>blast intro: keepsD clients_keep control_keeps maintenance_keeps run_job_keeps\<close>)+

interpretation node_machine: safe_machine "node_start env key read_keys active_key" "node_step env" "holding env idle"
  for env key read_keys active_key
proof
  show "holding env idle s" if "node_start env key read_keys active_key s" for s
    using that by (auto simp: node_start_def start_node_def bindm_eq_Inr modm_eq Let_def holding_def resources_def idle_def)
  show "holding env idle s'" if "holding env idle s" "node_step env s s'" for s s'
    using node_step_keeps [OF that(2), of 4 0] that(1) by (simp add: idle_def pins_ok_def)
qed

end
