(* ===== verification/Node_Properties.thy ===== *)
theory Node_Properties
  imports Node_Samples Node_Frames
begin

text \<open>The properties of a DataNode.\<close>

section \<open>Properties\<close>

text \<open>
  C5. A patch stores the spliced content. When a node stores the result of a patch, the new block can be
  read and its bytes are those of the base with the announced range replaced by the bytes the client
  sent (or extended by them), the bytes sent have the announced hash, and every other object stays. The
  replacement is produced chunk by chunk in two passes; the reference splices whole byte strings.
\<close>

theorem patch_stores_splice:
  assumes "env_ok env" and stored: "store_patch env ctx head decision (frames, ending) s = (Inr receipt, t)"
    and "0 \<le> ph_offset head" "0 < ph_length head" "br_version (ph_base head) = [] \<Longrightarrow> br_size (ph_base head) = 0"
    and sized: "de_replacement_size decision = max (br_size (ph_base head)) (ph_offset head + ph_length head)"
    and "de_replacement_size decision < 2 ^ 63" "0 \<le> br_index (ph_base head)" "br_index (ph_base head) < 2 ^ 63"
  shows "\<exists>base ds. base_bytes env (nd_disk s) (ph_base head) = Inr base \<and>
     read_verified (ne_crypto env) (ne_keys env) (nd_disk t) (dr_block receipt) = Inr ds \<and>
     concat ds = spliced (nat (ph_offset head)) (payload frames) base \<and>
     hash (ne_crypto env) (payload frames) = ph_sha head \<and> br_version (dr_block receipt) = ph_new head \<and>
     (\<forall>k. k \<noteq> (br_file (ph_base head), ph_new head) \<longrightarrow> nd_disk t k = nd_disk s k)"
proof -
  from stored obtain delta first s1 s2 s3 s4 n digest where
    disk1: "nd_disk s1 = nd_disk s" and delta: "delta = payload frames" "int (length delta) = ph_length head"
      "hash (ne_crypto env) delta = ph_sha head" "ph_offset head \<le> br_size (ph_base head)" and
    p: "patched env ctx decision head delta s1 = (Inr first, s2)" and
    w: "write_object env \<lparr>br_file = br_file (ph_base head), br_version = ph_new head, br_index = br_index (ph_base head),
           br_size = de_replacement_size decision, br_sha = hash (ne_crypto env) (concat first)\<rparr>
       (patched env ctx decision head delta) s2 = (Inr (n, digest), s3)" and
    r: "new_receipt env (or_id (ph_operation head)) \<lparr>br_file = br_file (ph_base head), br_version = ph_new head, br_index = br_index (ph_base head),
           br_size = de_replacement_size decision, br_sha = hash (ne_crypto env) (concat first)\<rparr> n digest s3 = (Inr receipt, s4)" and
    t: "nd_disk t = nd_disk s4"
    by (rule store_patch_run)
  let ?new = "\<lparr>br_file = br_file (ph_base head), br_version = ph_new head, br_index = br_index (ph_base head),
           br_size = de_replacement_size decision, br_sha = hash (ne_crypto env) (concat first)\<rparr>"
  have pos: "0 < de_replacement_size decision" using sized assms(3,4) by linarith
  have "\<exists>base. base_bytes env (nd_disk s) (ph_base head) = Inr base \<and> int (length base) = br_size (ph_base head)"
  proof (cases "br_version (ph_base head) = []")
    case False
    then obtain ds where "read_verified (ne_crypto env) (ne_keys env) (nd_disk s) (ph_base head) = Inr ds"
      using p pos disk1 by (auto simp: patched_def run)
    with read_verified_size [OF this] False show ?thesis by (auto simp: base_bytes_def)
  qed (simp add: base_bytes_def assms(5))
  then obtain base where base: "base_bytes env (nd_disk s) (ph_base head) = Inr base" "int (length base) = br_size (ph_base head)" by blast
  have pat: "concat cs = spliced (nat (ph_offset head)) delta base \<and> only_tick u v"
    if "patched env ctx decision head delta u = (Inr cs, v)" "nd_disk u = nd_disk s" for cs u v
  proof -
    have "if br_version (ph_base head) = [] then base = [] else
      (\<exists>ds. read_verified (ne_crypto env) (ne_keys env) (nd_disk u) (ph_base head) = Inr ds \<and> base = concat ds)"
      using base(1) that(2) by (auto simp: base_bytes_def run split: if_splits)
    from patched_run [OF that(1) this assms(3)] base(2) delta sized assms(3) show ?thesis by auto
  qed
  note p1 = pat [OF p disk1]
  from w obtain chunks s1' s2' i j disk' where
    w': "only_tick s2 s1'" "patched env ctx decision head delta s1' = (Inr chunks, s2')"
    "put (ne_crypto env) (ne_keys env) ?new chunks (ne_dek env i) (ne_prefix env j) (nd_disk s2') = Inr ((nat n, digest), disk')"
    "0 \<le> n" "s3 = s2'\<lparr>nd_disk := disk'\<rparr>" by (rule write_object_run)
  have d2: "nd_disk s1' = nd_disk s" using p1 w'(1) disk1 only_tick_fields(1) by metis
  note p2 = pat [OF w'(2) d2]
  have d3: "nd_disk t = disk'" using t new_receipt_run(1) [OF r] w'(5) only_tick_fields(1) by fastforce
  have d4: "nd_disk s2' = nd_disk s" using p2 d2 only_tick_fields(1) by metis
  have "read_verified (ne_crypto env) (ne_keys env) disk' ?new = Inr chunks"
    using read_back [OF assms(1) w'(3)] assms(7-9) by simp
  moreover have "dr_block receipt = ?new" using new_receipt_run(2) [OF r] by auto
  moreover have "disk' k = nd_disk s k" if "k \<noteq> (br_file (ph_base head), ph_new head)" for k
    using put_Inr [OF w'(3)] d4 that by auto
  ultimately show ?thesis using base(1) p2 delta d3 by auto
qed

theorem patch_stores_splice_witness:
  "\<exists>receipt t ds. store_patch sample_env sample_nctx sample_patch sample_decision ([Chunk \<lparr>dc_offset = 0, dc_data = ''abc''\<rparr>], None) sample_node = (Inr receipt, t) \<and>
     read_verified sample_crypto (open_keys sample_crypto sample_key []) (nd_disk t) (dr_block receipt) = Inr ds \<and> concat ds = ''abc''"
proof -
  obtain receipt t where r: "store_patch sample_env sample_nctx sample_patch sample_decision ([Chunk \<lparr>dc_offset = 0, dc_data = ''abc''\<rparr>], None) sample_node = (Inr receipt, t)"
    using sample_patch_run by blast
  from patch_stores_splice [OF sample_env_ok r] r show ?thesis by (auto simp: base_bytes_def spliced_def)
qed

text \<open>
  C15. A node loses no capacity. However a started node is used, by clients, by the control node, by other
  nodes and by its own rounds, and however each call ends, between calls all four admission units are free,
  no byte is reserved and no block is pinned. The threads that run while a handler waits are assumed to
  give back what they take, as every handler does.
\<close>

theorem node_gives_back:
  assumes "reach (node_start env key read_keys active_key) (node_step env) s" and "calm env"
  shows "nd_units s = 4 \<and> nd_reserved s = 0 \<and> tkeys (pin_active (nd_pins s)) = [] \<and> pin_writers (nd_pins s) = []"
proof -
  have "resources s = idle" using node_machine.reach_inv [OF assms(1)] assms(2) by (simp add: holding_def)
  moreover have "tkeys tempty = []" by (metis in_tkeys_iff list.set_intros(1) neq_Nil_conv tget_tempty)
  ultimately show ?thesis by (simp add: resources_def idle_def)
qed

theorem node_gives_back_witness:
  "\<exists>s t. reach (node_start sample_env sample_key [] None) (node_step sample_env) t \<and>
     PutBlock sample_env sample_nctx ([Chunk \<lparr>dc_offset = 0, dc_data = ''abc''\<rparr>], None) s = (Inl (Fault INVALID_ARGUMENT), t) \<and> nd_units t = 4"
proof -
  let ?s0 = "sample_node\<lparr>nd_owner := Some (''n1'', hex (hash sample_crypto sample_key))\<rparr>"
  obtain s where s: "start_node sample_env sample_key [] None ?s0 = (Inr (), s)"
    by (simp add: start_node_def bindm_def tick_def recover_unindexed_objects_def sample_key_def sample_env_def)
  then have r: "reach (node_start sample_env sample_key [] None) (node_step sample_env) s"
    by (intro reach_start) (auto simp: node_start_def)
  have put: "PutBlock sample_env sample_nctx ([Chunk \<lparr>dc_offset = 0, dc_data = ''abc''\<rparr>], None) s = (Inl (Fault INVALID_ARGUMENT), s)"
    by (simp add: PutBlock_def)
  from reach_step [OF r step_put [OF put]] have r2: "reach (node_start sample_env sample_key [] None) (node_step sample_env) s" .
  have "calm sample_env" by (simp add: calm_def)
  from node_gives_back [OF r2 this] r2 put show ?thesis by blast
qed

lemma timely_tick: "timely env ctx d s = (r, t) \<Longrightarrow> only_tick s t"
  by (auto simp: timely_def bindm_def tick_def needm_def only_tick_def split: sum.splits prod.splits if_splits)

lemma decided_run:
  assumes "decided env ctx cx req s = (r, t)"
  shows "only_tick s t" "r = Inr d \<Longrightarrow> ne_ask_block env (nd_tick s) cx req = Inr d"
  using assms timely_tick [of env ctx]
  by (auto simp: decided_def asking_def bindm_def tick_def only_tick_def split: sum.splits prod.splits if_splits) fastforce+

lemma authorize_tick:
  "authorize_write env ctx head s = (r, t) \<Longrightarrow> only_tick s t" "authorize_read env ctx req s = (r, t) \<Longrightarrow> only_tick s t"
  using decided_run(1) by (auto simp: authorize_write_def authorize_read_def bindm_def needm_def split: sum.splits prod.splits if_splits)

lemma tell_durable_tick: "tell_durable env report s = (r, t) \<Longrightarrow> only_tick s t"
  by (auto simp: tell_durable_def own_context_def asking_def bindm_def tick_def only_tick_def split: sum.splits)

lemma PutBlock_stores:
  assumes "PutBlock env ctx (Header head # frames, ending) s = (Inr receipt, t)"
    and "\<And>q d. ne_ask_block env (nd_tick s) (pu_cx head) q = Inr d \<Longrightarrow> de_replay d = None" and "tget (nd_puts s) (request_key (pu_cx head)) = None"
  obtains decision s1 s2 where "store_put env ctx head decision (frames, ending) s1 = (Inr receipt, s2)"
    "nd_disk t = nd_disk s2" "nd_blocks t = nd_blocks s2" "nd_puts t = nd_puts s2"
    "\<And>k. undisturbed env k \<Longrightarrow> nd_disk s1 k = nd_disk s k"
proof -
  from assms(1) obtain d u where d: "authorize_write env ctx head s = (Inr d, u)" and
    rest: "(case de_replay d of Some receipt \<Rightarrow> retm receipt
      | None \<Rightarrow> bindm (getm (\<lambda>s. tget (nd_puts s) (request_key (pu_cx head)))) (\<lambda>previous.
           bindm (case previous of Some p \<Rightarrow> earlier env (pu_dict head) p
             | None \<Rightarrow> admitted env (de_block_size d) (pinned (br_version (pu_block head)) True (store_put env ctx head d (frames, ending)))) (\<lambda>receipt.
           bindm (tell_durable env (Put_Report receipt head)) (\<lambda>_. retm receipt)))) u = (Inr receipt, t)"
    by (auto simp: PutBlock_def bindm_eq_Inr)
  note tick = authorize_tick(1) [OF d]
  from d obtain token where "decided env ctx (pu_cx head) (write_request env token head) s = (Inr d, u)"
    by (auto simp: authorize_write_def bindm_eq_Inr liftm_eq_Inr)
  from decided_run(2) [OF this refl] assms(2) have "de_replay d = None" by blast
  moreover have "tget (nd_puts u) (request_key (pu_cx head)) = None" using only_tick_fields(3) [OF tick] assms(3) by simp
  ultimately obtain v where
    a: "admitted env (de_block_size d) (pinned (br_version (pu_block head)) True (store_put env ctx head d (frames, ending))) u = (Inr receipt, v)" and
    told: "only_tick v t" using rest tell_durable_tick by (auto simp: bindm_eq_Inr)
  from in_section_run [OF a] obtain s1 s2 un q where b: "store_put env ctx head d (frames, ending) s1 = (Inr receipt, s2)" "v = s2\<lparr>nd_units := un, nd_pins := q\<rparr>"
    "\<forall>k. undisturbed env k \<longrightarrow> nd_disk s1 k = nd_disk u k" by blast
  show ?thesis by (rule that [OF b(1)]) (use b only_tick_fields [OF told] only_tick_fields(1) [OF tick] in auto)
qed

text \<open>
  C16. What a client uploads is what a client downloads. If a node accepts the upload of a block, every later
  download of it that ends without error delivers exactly the requested range of the uploaded bytes, in
  chunks numbered without gaps; a download that breaks off has delivered a prefix of that range. Between
  the calls anything may happen on the node that leaves this object alone.
\<close>

theorem put_then_get:
  assumes "env_ok env" and put: "PutBlock env ctx (Header head # frames, ending) s = (Inr receipt, t)"
    and "\<And>i cx q d. ne_ask_block env i cx q = Inr d \<Longrightarrow> de_replay d = None" and "tget (nd_puts s) (request_key (pu_cx head)) = None"
    and "0 \<le> br_size (pu_block head)" "br_size (pu_block head) < 2 ^ 63" "0 \<le> br_index (pu_block head)" "br_index (pu_block head) < 2 ^ 63"
    and "undisturbed env (br_file (pu_block head), br_version (pu_block head))"
    and "nd_disk u (br_file (pu_block head), br_version (pu_block head)) = nd_disk t (br_file (pu_block head), br_version (pu_block head))"
    and get: "GetBlock env ctx' req u = (Inr (out, ended), v)" and "gb_block req = pu_block head" "0 \<le> read_offset req"
  shows "prefix (payload out) (slice_of (read_offset req) (read_length req) (payload frames)) \<and>
     (ended = None \<longrightarrow> payload out = slice_of (read_offset req) (read_length req) (payload frames) \<and>
        contiguous 0 (tl out))"
proof -
  let ?k = "(br_file (pu_block head), br_version (pu_block head))"
  from put assms(3,4) obtain decision s1 s2 where
    st: "store_put env ctx head decision (frames, ending) s1 = (Inr receipt, s2)" and dt: "nd_disk t = nd_disk s2"
    by (rule PutBlock_stores)
  from st assms(5) obtain chunks i j n digest disk' where c: "concat chunks = payload frames"
    "put (ne_crypto env) (ne_keys env) (pu_block head) chunks (ne_dek env i) (ne_prefix env j) (nd_disk s1) = Inr ((nat n, digest), disk')"
    "nd_disk s2 = disk'"
    by (rule store_put_run)
  have rv: "read_verified (ne_crypto env) (ne_keys env) disk' (pu_block head) = Inr chunks"
    by (rule read_back [OF assms(1) c(2) assms(6-8)])
  from get obtain d u1 where auth: "authorize_read env ctx' req u = (Inr d, u1)" and
    cnt: "counted ''client_read_bytes'' (admitted env (de_block_size d) (pinned (br_version (gb_block req)) False (read_stream env ctx' req (de_until d)))) u1 = (Inr (out, ended), v)"
    by (auto simp: GetBlock_def bindm_eq_Inr needm_eq_Inr)
  have len: "0 \<le> read_length req" using auth by (auto simp: authorize_read_def bindm_eq_Inr needm_eq_Inr liftm_eq_Inr)
  from cnt consider "out = []" "ended \<noteq> None" | w where
    "admitted env (de_block_size d) (pinned (br_version (gb_block req)) False (read_stream env ctx' req (de_until d))) u1 = (Inr (out, ended), w)"
    by (auto simp: counted_def bindm_eq_Inr catchm_eq split: prod.splits)
  then show ?thesis
  proof cases
    case 2
    from in_section_run [OF this] obtain v1 v2 un q where b: "read_stream env ctx' req (de_until d) v1 = (Inr (out, ended), v2)"
      "w = v2\<lparr>nd_units := un, nd_pins := q\<rparr>" "\<forall>k. undisturbed env k \<longrightarrow> nd_disk v1 k = nd_disk u1 k" by blast
    have "nd_disk v1 ?k = disk' ?k" using b(3) assms(9) only_tick_fields(1) [OF authorize_tick(2) [OF auth]] assms(10) dt c(3) by simp
    then have "read_verified (ne_crypto env) (ne_keys env) (nd_disk v1) (pu_block head) = Inr chunks"
      using rv by (auto simp: read_verified_def path_def uuid_def run)
    with b(1) assms(12) obtain h fs w where g: "get_chunks env ctx' (de_until d) (read_offset req) (read_length req) 0 0 chunks v1 = (Inr (fs, ended), w)"
      and out: "out = Header h # fs"
      by (auto simp: read_stream_def Let_def bindm_eq_Inr liftm_eq_Inr split: prod.splits)
    from get_chunks_slice [OF assms(13) len _ g] assms(13) have
      "contiguous 0 fs" "ended = None \<and> payload fs = wanted_from (read_offset req) (read_length req) 0 (concat chunks) \<or>
       ended = Some (Fault DEADLINE_EXCEEDED) \<and> prefix (payload fs) (wanted_from (read_offset req) (read_length req) 0 (concat chunks))" by auto
    moreover have "wanted_from (read_offset req) (read_length req) 0 (concat chunks) = slice_of (read_offset req) (read_length req) (payload frames)"
      using assms(13) c(1) by (simp add: wanted_from_def slice_of_def max_def)
    ultimately show ?thesis using out by auto
  qed auto
qed

definition sample_get :: get_block_req where
  "sample_get = \<lparr>gb_cx = sample_cx, gb_handle = ''h'', gb_snapshot = no_snapshot, gb_block = sample_block, gb_offset = Some 1,
     gb_length = Some 3, gb_capability = ''cap'', gb_read = []\<rparr>"

theorem put_then_get_witness:
  "\<exists>receipt t out v. PutBlock sample_env sample_nctx ([Header sample_head, Chunk \<lparr>dc_offset = 0, dc_data = ''abcde''\<rparr>], None) sample_node = (Inr receipt, t) \<and>
     GetBlock sample_env sample_nctx sample_get t = (Inr (out, None), v) \<and> payload out = ''bcd''"
proof -
  obtain receipt t where p: "PutBlock sample_env sample_nctx ([Header sample_head, Chunk \<lparr>dc_offset = 0, dc_data = ''abcde''\<rparr>], None) sample_node = (Inr receipt, t)"
    and row: "tget (nd_blocks t) (br_version sample_block) = Some \<lparr>sb_id = br_version sample_block, sb_ref = sample_block, sb_stored = dr_stored receipt, sb_receipt = receipt, sb_unconfirmed = False\<rparr>"
    and u: "nd_units t = 4" "nd_pins t = \<lparr>pin_active = tempty, pin_writers = []\<rparr>"
    and rv: "read_verified sample_crypto (open_keys sample_crypto sample_key []) (nd_disk t) sample_block = Inr [''abcde'']"
    by (rule sample_store_put)
  have off: "read_offset sample_get = 1" "read_length sample_get = 3" "gb_block sample_get = sample_block"
    by (simp_all add: read_offset_def read_length_def sample_get_def)
  have size5: "br_size sample_block = 5" by (simp add: sample_block_def)
  have gone: "tdel k (tput k v tempty) = tempty" for k :: string and v :: int by (rule table_eqI) simp
  have "\<exists>out v. GetBlock sample_env sample_nctx sample_get t = (Inr (out, None), v)"
    by (simp add: GetBlock_def authorize_read_def decided_def timely_def DEADLINES_def PROFILES_def weight_def admitted_def off size5
        pinned_def pinning_def unpinning_def pin_enter_def pin_exit_def act_eval counted_def read_stream_def trym_def row u rv Let_def)
  then obtain out v where g: "GetBlock sample_env sample_nctx sample_get t = (Inr (out, None), v)" by blast
  have "payload out = slice_of 1 3 ''abcde''"
    using put_then_get [OF sample_env_ok p _ _ _ _ _ _ _ refl g] off
    by (auto simp: sample_block_def undisturbed_def)
  then show ?thesis using p g by (auto simp: slice_of_def)
qed

lemma pages_take: "concat (map (\<lambda>p. take k (drop (p * k) xs)) [0..<n]) = take (n * k) xs"
  by (induction n) (simp_all add: take_add [symmetric] add.commute)

lemma ceil64: "(n + 63) div 64 \<le> (m :: nat) \<longleftrightarrow> n \<le> m * 64"
proof -
  have "(n + 63) div 64 < Suc m \<longleftrightarrow> n + 63 < Suc m * 64" by (rule div_less_iff_less_mult) simp
  then show ?thesis by (simp add: less_Suc_eq_le)
qed

text \<open>
  C29. A registration reports the whole inventory, once. The pages a node sends hold, one after the other,
  exactly the receipts to report; no page holds more than 64, they are numbered from 0, and the last page, and only
  it, is marked as the last, also when there is nothing to report.
\<close>

theorem inventory_pages:
  "concat (map rg_receipts (report_pages env generation inventory receipts)) = receipts \<and>
   list_all (\<lambda>p. length (rg_receipts p) \<le> 64 \<and> rg_generation p = generation \<and> rg_report p = inventory) (report_pages env generation inventory receipts) \<and>
   map rg_page (report_pages env generation inventory receipts) = map int [0..<length (report_pages env generation inventory receipts)] \<and>
   map rg_last (report_pages env generation inventory receipts) =
     replicate (length (report_pages env generation inventory receipts) - 1) False @ [True]"
proof -
  define n where "n = max 1 ((length receipts + 63) div 64)"
  have "length receipts \<le> n * 64" using ceil64 [of "length receipts" n] by (simp add: n_def)
  then have all: "concat (map rg_receipts (report_pages env generation inventory receipts)) = receipts"
    using pages_take [of 64 receipts n] by (simp add: report_pages_def comp_def n_def)
  have "map rg_last (report_pages env generation inventory receipts) = map (\<lambda>i. i = n - 1) [0..<n]"
    unfolding report_pages_def n_def [symmetric] map_map comp_def
  proof (rule map_cong [OF refl])
    fix i
    assume "i \<in> set [0..<n]"
    then show "rg_last \<lparr>rg_node = ne_id env, rg_generation = generation, rg_report = inventory, rg_page = int i,
       rg_receipts = take 64 (drop (i * 64) receipts), rg_last = length receipts \<le> (i + 1) * 64\<rparr> = (i = n - 1)"
      using ceil64 [of "length receipts" "i + 1"] by (auto simp: n_def)
  qed
  also have "\<dots> = replicate (n - 1) False @ [True]"
  proof -
    have "[0..<n] = [0..<n - 1] @ [n - 1]" using upt_Suc_append [of 0 "n - 1"] by (simp add: n_def)
    moreover have "map (\<lambda>i. i = n - 1) [0..<n - 1] = replicate (n - 1) False" by (rule nth_equalityI) auto
    ultimately show ?thesis by simp
  qed
  finally show ?thesis using all by (simp add: report_pages_def list_all_iff comp_def n_def)
qed

text \<open>
  C27. A repeated upload is answered with the first receipt. After an accepted upload, the same request again,
  whatever bytes come with it, stores nothing: rows, objects and the ledger of the node stay as they are. If the control node
  authorizes the repetition, be it by giving the receipt back itself or by deciding anew, the answer is the receipt of the first upload, unless the
  control node refuses the report of that receipt, whose error is then passed on; if it does not authorize it, its error is the answer. The control node is assumed
  to have nothing to repeat when the first upload asks, and later to repeat nothing but the receipt of that upload.
\<close>

theorem put_repeated:
  assumes first: "PutBlock env ctx (Header head # frames, ending) s = (Inr receipt, t)"
    and new: "\<And>q d. ne_ask_block env (nd_tick s) (pu_cx head) q = Inr d \<Longrightarrow> de_replay d = None" and fresh: "tget (nd_puts s) (request_key (pu_cx head)) = None"
    and old: "\<And>i q d. ne_ask_block env i (pu_cx head) q = Inr d \<Longrightarrow> de_replay d \<in> {None, Some receipt}"
    and "0 \<le> br_size (pu_block head)"
    and ledger: "tget (nd_puts u) (request_key (pu_cx head)) = tget (nd_puts t) (request_key (pu_cx head))"
    and second: "PutBlock env ctx' (Header head # frames', ending') u = (r, v)"
  shows "nd_disk v = nd_disk u \<and> nd_blocks v = nd_blocks u \<and> nd_puts v = nd_puts u \<and>
     (case fst (authorize_write env ctx' head u) of
        Inl e \<Rightarrow> r = Inl e
      | Inr d \<Rightarrow> r = Inr receipt \<or> (\<exists>e i cx. de_replay d = None \<and> ne_tell_durable env i cx (Put_Report receipt head) = Inl e \<and> r = Inl e))"
proof -
  from first new fresh obtain decision s1 s2 where
    st: "store_put env ctx head decision (frames, ending) s1 = (Inr receipt, s2)" "nd_puts t = nd_puts s2"
    by (rule PutBlock_stores)
  from st(1) assms(5) have "nd_puts s2 = tput (request_key (pu_cx head)) \<lparr>pe_digest = hex (node_intent env (pu_dict head)), pe_receipt = receipt\<rparr> (nd_puts s1)"
    by (rule store_put_run)
  then have entry: "tget (nd_puts u) (request_key (pu_cx head)) = Some \<lparr>pe_digest = hex (node_intent env (pu_dict head)), pe_receipt = receipt\<rparr>"
    using ledger st(2) by simp
  obtain q u1 where d: "authorize_write env ctx' head u = (q, u1)" by fastforce
  note tick = authorize_tick(1) [OF d]
  show ?thesis
  proof (cases q)
    case (Inl e)
    with second d only_tick_fields [OF tick] show ?thesis by (auto simp: PutBlock_def bindm_def)
  next
    case (Inr dec)
    from d Inr obtain token where "decided env ctx' (pu_cx head) (write_request env token head) u = (Inr dec, u1)"
      by (auto simp: authorize_write_def bindm_eq_Inr liftm_eq_Inr)
    from old [OF decided_run(2) [OF this refl]] consider "de_replay dec = Some receipt" | "de_replay dec = None" by auto
    then show ?thesis
    proof cases
      case 1
      with second d Inr only_tick_fields [OF tick] show ?thesis by (auto simp: PutBlock_def bindm_def)
    next
      case 2
      moreover have "tget (nd_puts u1) (request_key (pu_cx head)) = Some \<lparr>pe_digest = hex (node_intent env (pu_dict head)), pe_receipt = receipt\<rparr>"
        using entry only_tick_fields(3) [OF tick] by simp
      ultimately have "bindm (tell_durable env (Put_Report receipt head)) (\<lambda>_. retm receipt) u1 = (r, v)"
        using second d Inr by (auto simp: PutBlock_def bindm_def earlier_def)
      then obtain w where told: "tell_durable env (Put_Report receipt head) u1 = (w, v)" "r = (case w of Inl e \<Rightarrow> Inl e | Inr _ \<Rightarrow> Inr receipt)"
        by (auto simp: bindm_def split: prod.splits sum.splits)
      have "\<exists>i cx. ne_tell_durable env i cx (Put_Report receipt head) = Inl e" if "w = Inl e" for e
        using told(1) that by (auto simp: tell_durable_def own_context_def asking_def bindm_def tick_def split: sum.splits)
      with told 2 d Inr only_tick_fields [OF tell_durable_tick [OF told(1)]] only_tick_fields [OF tick] show ?thesis
        by (auto split: sum.splits)
    qed
  qed
qed

theorem put_repeated_witness:
  "\<exists>receipt t v. PutBlock sample_env sample_nctx ([Header sample_head, Chunk \<lparr>dc_offset = 0, dc_data = ''abcde''\<rparr>], None) sample_node = (Inr receipt, t) \<and>
     PutBlock sample_env sample_nctx ([Header sample_head], None) t = (Inr receipt, v) \<and> nd_disk v = nd_disk t"
proof -
  obtain receipt t where p: "PutBlock sample_env sample_nctx ([Header sample_head, Chunk \<lparr>dc_offset = 0, dc_data = ''abcde''\<rparr>], None) sample_node = (Inr receipt, t)"
    by (rule sample_store_put)
  obtain r v where q: "PutBlock sample_env sample_nctx ([Header sample_head], None) t = (r, v)" by fastforce
  have "fst (authorize_write sample_env sample_nctx sample_head t) = Inr sample_decision"
    by (simp add: authorize_write_def decided_def timely_def DEADLINES_def PROFILES_def act_eval)
  with put_repeated [OF p _ _ _ _ refl q] p q show ?thesis by (auto simp: sample_block_def)
qed

section \<open>Space\<close>

lemma sum_ins_row:
  "sorted_wrt (<) (map fst rows) \<Longrightarrow> sum_list (map (f \<circ> snd) (ins_row k v rows)) =
     sum_list (map (f \<circ> snd) rows) + f v - (case map_of rows k of None \<Rightarrow> 0 | Some w \<Rightarrow> (f w :: int))"
proof (induction rows)
  case (Cons row rows)
  obtain k' w where row: "row = (k', w)" by (cases row)
  have "map_of rows k = None" if "k \<le> k'"
    using Cons.prems that by (force simp: row map_of_eq_None_iff)
  with Cons row show ?case by (auto split: option.splits)
qed simp

lemma sum_tput:
  "sum_list (map f (tall (tput k v t))) = sum_list (map f (tall t)) + f v - (case tget t k of None \<Rightarrow> 0 | Some w \<Rightarrow> (f w :: int))"
  by (transfer fixing: f) (simp add: sum_ins_row)

text \<open>
  C28. A node never holds more than its capacity. When an upload is stored, what the node then holds on
  disk for its rows and its quarantine, with what is still reserved for others, is within the configured
  capacity, because the object takes no more space than was reserved for it.
\<close>

theorem put_within_capacity:
  assumes "env_ok env" and st: "store_put env ctx head decision (frames, ending) s = (Inr receipt, t)"
    and "0 \<le> br_size (pu_block head)" "br_size (pu_block head) < 2 ^ 63" "0 \<le> br_index (pu_block head)" "br_index (pu_block head) < 2 ^ 63"
    and rows: "\<And>k b. tget (nd_blocks s) k = Some b \<Longrightarrow> 0 \<le> sb_stored b"
  shows "dr_stored receipt \<le> storage_cost (br_size (pu_block head)) \<and> used_bytes t + nd_reserved t \<le> ne_capacity env"
proof -
  from st assms(3) obtain chunks i j n digest disk' where
    num: "int (length chunks) = (br_size (pu_block head) + CHUNK - 1) div CHUNK" and
    p: "put (ne_crypto env) (ne_keys env) (pu_block head) chunks (ne_dek env i) (ne_prefix env j) (nd_disk s) = Inr ((nat n, digest), disk')" and
    r: "dr_block receipt = pu_block head" "dr_stored receipt = n" "0 \<le> n" "nd_blocks t = nd_blocks (put_row receipt s)"
      "used_bytes s + nd_reserved s + storage_cost (br_size (pu_block head)) \<le> ne_capacity env"
      "nd_reserved t = nd_reserved s" "nd_quarantine t = nd_quarantine s"
    by (rule store_put_run)
  have k: "crypto_ok (ne_crypto env)" "length (kr_active (ne_keys env)) = 32" "length (ne_dek env i) = 32" "length (ne_prefix env j) = 8"
    using assms(1) by (auto simp: env_ok_def keyring_ok_def)
  from put_Inr [OF p] obtain bytes where b: "container (ne_crypto env) (kr_active (ne_keys env)) (pu_block head) (ne_dek env i) (ne_prefix env j) chunks = Inr bytes"
    "nat n = length bytes" by blast
  have "length (header (ne_crypto env) (kr_active (ne_keys env)) (pu_block head) (ne_dek env i) (ne_prefix env j)) \<le> 4084"
    by (rule header_length [OF k put_sane [OF k(1) p assms(4-6)]])
  then have cost: "n \<le> storage_cost (br_size (pu_block head))"
    using length_container [OF k(1,3,4) b(1)] b(2) r(3) num by (simp add: storage_cost_def)
  have "sum_list (map sb_stored (tall (nd_blocks t))) \<le> sum_list (map sb_stored (tall (nd_blocks s))) + n"
    using rows [of "br_version (pu_block head)"] r(1,2,4) by (auto simp: put_row_def Let_def sum_tput split: option.splits)
  with cost r show ?thesis by (simp add: used_bytes_def)
qed

theorem put_within_capacity_witness:
  "\<exists>receipt t. store_put sample_env sample_nctx sample_head sample_decision ([Chunk \<lparr>dc_offset = 0, dc_data = ''abcde''\<rparr>], None) sample_node = (Inr receipt, t) \<and>
     dr_stored receipt \<le> storage_cost 5 \<and> used_bytes t + nd_reserved t \<le> ne_capacity sample_env"
proof -
  obtain kept digest disk' where p: "put sample_crypto (open_keys sample_crypto sample_key []) sample_block
     [''abcde''] sample_key (replicate 8 (CHR ''p'')) (\<lambda>_. None) = Inr ((kept, digest), disk')"
    using sample_put [of "br_file sample_block" "br_version sample_block" "''abcde''" 5 "\<lambda>_. None" 0] sample_uuids
    by (auto simp: sample_block_def)
  have size5: "br_size sample_block = 5" and index0: "br_index sample_block = 0" by (simp_all add: sample_block_def)
  have "\<exists>receipt t. store_put sample_env sample_nctx sample_head sample_decision ([Chunk \<lparr>dc_offset = 0, dc_data = ''abcde''\<rparr>], None) sample_node = (Inr receipt, t)"
    by (simp add: act_eval store_put_def storage_cost_def CHUNK_def Let_def p size5 record_put_def put_row_def)
  then obtain receipt t where st: "store_put sample_env sample_nctx sample_head sample_decision ([Chunk \<lparr>dc_offset = 0, dc_data = ''abcde''\<rparr>], None) sample_node = (Inr receipt, t)"
    by blast
  from put_within_capacity [OF sample_env_ok st] st show ?thesis by (auto simp: size5 index0)
qed

end
