(* ===== verification/Client.thy ===== *)
theory Client
  imports Node_State Rpc Maintenance
begin

text \<open>
  The client library (\<^verbatim>\<open>src/src/dfsha/client/sdk.py\<close>): its state, the calls it makes, and the
  operations on names and permissions.

  \<open>client\<close> is the state of a \<^verbatim>\<open>Client\<close> object with what it touches on its machine: the local files,
  the opened file it sends, and the handle and the upload plan that a call works with, which the
  renewal threads of \<^verbatim>\<open>keepalive\<close> update. \<open>ct_sent\<close> records the calls made, for the properties.
  \<open>client_env\<close> holds what the client only asks for: identifiers, clocks, the message dictionary of the
  protobuf library, the context kept in a recorded write intent, what the renewal threads and other programs do meanwhile, and the answers of
  the control node and of the DataNodes, each by the number of readings so far.

  A failed remote call is \<open>RpcError r\<close>; its status code is that of the reason \<open>r\<close>, with
  \<open>SERVICE_UNAVAILABLE\<close> and \<open>DEADLINE_EXCEEDED\<close> also for a failure of the transport. Deadlines are
  the transport's and pauses between attempts have no effect.
\<close>

section \<open>Requests\<close>

datatype client_request =
    Path_Req path_ref
  | List_Req path_ref nat list_cursor
  | Set_Acl_Req path_ref acl_msg int
  | Open_Req path_ref open_mode
  | Handle_Req string int
  | Lock_Req string bool "int option" "int option" int
  | Fence_Req fence
  | Operation_Query string string
  | Operation_Req operation_ref
  | Begin_Read_Req string snapshot_ref int int
  | End_Read_Req string string
  | Resolve_Req string snapshot_ref int int nat string string
  | Begin_Upload_Req begin_upload_req
  | Allocate_Req operation_ref fence "block_ref list"
  | Stage_Req operation_ref fence int "block_ref list" string
  | Seal_Req operation_ref fence int int int string
  | Commit_Upload_Req operation_ref page_receipt fence
  | Begin_Write_Req begin_write_req
  | Commit_Write_Req commit_write_req
  | Protection_Req string string
  | Read_Block_Req string snapshot_ref block_ref int int string string
  | Put_Block_Req operation_ref block_ref fence string
  | Patch_Block_Req operation_ref block_ref string int int string fence string

type_synonym 'a answering = "nat \<Rightarrow> req_ctx \<Rightarrow> client_request \<Rightarrow> 'a res"

record source =
  so_data :: string
  so_mtime :: int

text \<open>A local file is named by its directory and its name in it.\<close>

type_synonym local_files = "string \<times> string \<Rightarrow> string option"

record client =
  ct_session :: "session_msg option"
  ct_cwd :: string
  ct_cwd_id :: string
  ct_last_commit :: "(req_ctx \<times> client_request) option"
  ct_last_operation :: "operation_ref option"
  ct_traffic :: "(string \<times> (int \<times> int)) list"
  ct_handle :: handle_msg
  ct_plan :: upload_plan
  ct_source :: source
  ct_files :: local_files
  ct_sent :: "(req_ctx \<times> client_request) list"
  ct_tick :: nat

record client_env =
  ce_lib :: app
  ce_failover :: bool
  ce_patience :: nat
  ce_dict :: "client_request \<Rightarrow> json"
  ce_intent_context :: "operation_status \<Rightarrow> req_ctx"
  ce_uid :: "nat \<Rightarrow> string"
  ce_mono :: "nat \<Rightarrow> rat"
  ce_handle_renewed :: "nat \<Rightarrow> handle_msg \<Rightarrow> handle_msg"
  ce_plan_renewed :: "nat \<Rightarrow> upload_plan \<Rightarrow> upload_plan"
  ce_renewal_failure :: "nat \<Rightarrow> exn option"
  ce_others_files :: "nat \<Rightarrow> local_files \<Rightarrow> local_files"
  ce_others_source :: "nat \<Rightarrow> source \<Rightarrow> source"
  ce_Stat :: "entry_msg answering"
  ce_List :: "list_page answering"
  ce_Mkdir :: "mutation_result answering"
  ce_Rmdir :: "mutation_result answering"
  ce_Remove :: "mutation_result answering"
  ce_GetAcl :: "acl_msg answering"
  ce_SetAcl :: "mutation_result answering"
  ce_Open :: "handle_msg answering"
  ce_RenewHandle :: "handle_msg answering"
  ce_Close :: "mutation_result answering"
  ce_Lock :: "fence answering"
  ce_RenewLock :: "fence answering"
  ce_Unlock :: "mutation_result answering"
  ce_GetOperation :: "operation_status answering"
  ce_BeginRead :: "read_lease answering"
  ce_EndRead :: "mutation_result answering"
  ce_ResolveBlocks :: "block_plan answering"
  ce_BeginUpload :: "upload_plan answering"
  ce_AllocateBlocks :: "block_plan answering"
  ce_StageManifestPage :: "page_receipt answering"
  ce_SealManifest :: "page_receipt answering"
  ce_CommitUpload :: "commit_result answering"
  ce_AbortUpload :: "mutation_result answering"
  ce_BeginWrite :: "write_plan answering"
  ce_CommitWrite :: "commit_result answering"
  ce_AbortWrite :: "mutation_result answering"
  ce_GetProtection :: "protection_status answering"
  ce_GetBlock :: "nat \<Rightarrow> string \<Rightarrow> req_ctx \<Rightarrow> client_request \<Rightarrow> read_header stream_frame incoming"
  ce_PutBlock :: "nat \<Rightarrow> string \<Rightarrow> put_header stream_frame incoming \<Rightarrow> durable_receipt res"
  ce_PatchBlock :: "nat \<Rightarrow> string \<Rightarrow> string \<Rightarrow> patch_header stream_frame incoming \<Rightarrow> durable_receipt res"

type_synonym 'a on_client = "(client, 'a) act"

section \<open>Readings and calls\<close>

definition reading :: "(nat \<Rightarrow> 'a) \<Rightarrow> 'a on_client" where
  "reading f = (\<lambda>s. (Inr (f (ct_tick s)), s\<lparr>ct_tick := Suc (ct_tick s)\<rparr>))"

text \<open>The handle and the plan as the renewal threads have left them by now.\<close>

definition handle_now :: "client_env \<Rightarrow> handle_msg on_client" where
  "handle_now env = bindm (reading (ce_handle_renewed env)) (\<lambda>f.
     bindm (modm (\<lambda>s. s\<lparr>ct_handle := f (ct_handle s)\<rparr>)) (\<lambda>_. getm ct_handle))"

definition plan_now :: "client_env \<Rightarrow> upload_plan on_client" where
  "plan_now env = bindm (reading (ce_plan_renewed env)) (\<lambda>f.
     bindm (modm (\<lambda>s. s\<lparr>ct_plan := f (ct_plan s)\<rparr>)) (\<lambda>_. getm ct_plan))"

text \<open>Leaving \<^verbatim>\<open>with self.keepalive(...)\<close> without an exception raises the first failure of a renewal.\<close>

definition keepalive :: "client_env \<Rightarrow> 'a on_client \<Rightarrow> 'a on_client" where
  "keepalive env body = bindm body (\<lambda>x. bindm (reading (ce_renewal_failure env)) (\<lambda>failure.
     case failure of None \<Rightarrow> retm x | Some e \<Rightarrow> raisem e))"

definition record_traffic :: "string \<Rightarrow> bool \<Rightarrow> int \<Rightarrow> unit on_client" where
  "record_traffic node_id writing amount = modm (\<lambda>s.
     let (w, r) = (case map_of (ct_traffic s) node_id of None \<Rightarrow> (0, 0) | Some x \<Rightarrow> x)
     in s\<lparr>ct_traffic := dict_put node_id (if writing then (w + amount, r) else (w, r + amount)) (ct_traffic s)\<rparr>)"

definition metadata :: "string on_client" where
  "metadata = bindm (getm ct_session) (\<lambda>session.
     case session of None \<Rightarrow> raisem ValueError | Some m \<Rightarrow> retm (sm_token m))"

definition prepare :: "client_env \<Rightarrow> client_request \<Rightarrow> string \<Rightarrow> req_ctx on_client" where
  "prepare env req request_id =
     bindm (if request_id = [] then reading (ce_uid env) else retm request_id) (\<lambda>i.
     bindm (getm ct_session) (\<lambda>session.
     case session of
       None \<Rightarrow> raisem AttributeError
     | Some m \<Rightarrow> retm \<lparr>cx_request_id = i, cx_user_id = sm_user m, cx_service_epoch = sm_epoch m,
                       cx_intent = intent (ce_lib env) (ce_dict env req)\<rparr>))"

definition sending :: "'a answering \<Rightarrow> req_ctx \<Rightarrow> client_request \<Rightarrow> 'a on_client" where
  "sending rpc cx req =
     bindm metadata (\<lambda>_.
     bindm (modm (\<lambda>s. s\<lparr>ct_sent := ct_sent s @ [(cx, req)]\<rparr>)) (\<lambda>_.
     bindm (reading (\<lambda>i. rpc i cx req)) liftm))"

definition recoverable :: "client_env \<Rightarrow> exn \<Rightarrow> bool" where
  "recoverable env e = (case e of
     RpcError r \<Rightarrow> fault_code r = SC_UNAVAILABLE \<or> ce_failover env \<and> fault_code r = SC_DEADLINE_EXCEEDED
   | _ \<Rightarrow> False)"

text \<open>The loop of \<^verbatim>\<open>call\<close>: the same request again, as often as it has retries left.\<close>

fun call_tries :: "client_env \<Rightarrow> 'a answering \<Rightarrow> req_ctx \<Rightarrow> client_request \<Rightarrow> nat \<Rightarrow> 'a on_client" where
  "call_tries env rpc cx req 0 = sending rpc cx req"
| "call_tries env rpc cx req (Suc retries) =
     catchm (sending rpc cx req) (\<lambda>e.
       if recoverable env e then call_tries env rpc cx req retries else raisem e)"

definition call :: "client_env \<Rightarrow> 'a answering \<Rightarrow> client_request \<Rightarrow> nat \<Rightarrow> 'a on_client" where
  "call env rpc req retries = bindm (prepare env req []) (\<lambda>cx. call_tries env rpc cx req retries)"

section \<open>Waiting for durability\<close>

fun durable_pages :: "client_env \<Rightarrow> string \<Rightarrow> string \<Rightarrow> bool \<Rightarrow> nat \<Rightarrow> bool on_client" where
  "durable_pages env op cursor ready 0 = raisem OutOfFuel"
| "durable_pages env op cursor ready (Suc n) =
     bindm (call env (ce_GetProtection env) (Protection_Req op cursor) 2) (\<lambda>status.
     bindm (needm (pv_operation status = Some PREPARING \<or> pv_operation status = Some COMMITTED) OPERATION_EXPIRED) (\<lambda>_.
     let ready = ready \<and> pv_durable status in
     if pv_cursor status = [] then retm ready else durable_pages env op (pv_cursor status) ready n))"

fun durable_loop :: "client_env \<Rightarrow> string \<Rightarrow> rat \<Rightarrow> nat \<Rightarrow> unit on_client" where
  "durable_loop env op deadline 0 = raisem OutOfFuel"
| "durable_loop env op deadline (Suc n) =
     bindm (durable_pages env op [] True (ce_patience env)) (\<lambda>ready.
     if ready then retm ()
     else bindm (reading (ce_mono env)) (\<lambda>t.
          bindm (needm (t < deadline) INSUFFICIENT_REPLICAS) (\<lambda>_. durable_loop env op deadline n)))"

definition wait_durable :: "client_env \<Rightarrow> string \<Rightarrow> unit on_client" where
  "wait_durable env op = bindm (reading (ce_mono env)) (\<lambda>t. durable_loop env op (t + 240) (ce_patience env))"

section \<open>Names and permissions\<close>

definition path_here :: "string \<Rightarrow> path_ref on_client" where
  "path_here value = getm (\<lambda>s. \<lparr>pf_path = value, pf_cwd_path = ct_cwd s, pf_cwd_id = ct_cwd_id s\<rparr>)"

definition stat :: "client_env \<Rightarrow> string \<Rightarrow> entry_msg on_client" where
  "stat env pth = bindm (path_here pth) (\<lambda>p. call env (ce_Stat env) (Path_Req p) 2)"

definition pwd :: "client_env \<Rightarrow> string on_client" where
  "pwd env = bindm (stat env ''.'') (\<lambda>e. bindm (needm (en_directory e) CWD_GONE) (\<lambda>_. getm ct_cwd))"

text \<open>\<^verbatim>\<open>posixpath.normpath\<close>: two leading slashes stay, three or more become one.\<close>

definition initial_slashes :: "string \<Rightarrow> nat" where
  "initial_slashes pth =
     (if take 1 pth \<noteq> ''/'' then 0 else if take 2 pth = ''//'' \<and> take 3 pth \<noteq> ''///'' then 2 else 1)"

definition norm_step :: "bool \<Rightarrow> string \<Rightarrow> string list \<Rightarrow> string list" where
  "norm_step rooted piece comps =
     (if piece = [] \<or> piece = ''.'' then comps
      else if piece \<noteq> ''..'' \<or> \<not> rooted \<and> comps = [] \<or> comps \<noteq> [] \<and> last comps = ''..'' then comps @ [piece]
      else butlast comps)"

definition normpath :: "string \<Rightarrow> string" where
  "normpath pth =
     (if pth = [] then ''.''
      else let n = initial_slashes pth;
               result = replicate n CHR ''/'' @ join ''/'' (fold (norm_step (n \<noteq> 0)) (split_on CHR ''/'' pth) [])
           in if result = [] then ''.'' else result)"

definition new_cwd :: "client_env \<Rightarrow> string \<Rightarrow> string \<Rightarrow> string" where
  "new_cwd env cwd pth =
     (let joined = nfc (ce_lib env) (normpath (if starts_slash pth then pth else rstrip CHR ''/'' cwd @ ''/'' @ pth))
      in if take 2 joined = ''//'' then CHR ''/'' # dropWhile (\<lambda>c. c = CHR ''/'') joined else joined)"

definition cd :: "client_env \<Rightarrow> string \<Rightarrow> string on_client" where
  "cd env pth =
     bindm (stat env pth) (\<lambda>e.
     bindm (needm (en_directory e) NOT_DIRECTORY) (\<lambda>_.
     bindm (modm (\<lambda>s. s\<lparr>ct_cwd := new_cwd env (ct_cwd s) pth, ct_cwd_id := en_id e\<rparr>)) (\<lambda>_.
     getm ct_cwd)))"

definition ls_page :: "client_env \<Rightarrow> string \<Rightarrow> nat \<Rightarrow> list_cursor \<Rightarrow> list_page on_client" where
  "ls_page env pth limit cursor = bindm (path_here pth) (\<lambda>p. call env (ce_List env) (List_Req p limit cursor) 2)"

fun ls_loop :: "client_env \<Rightarrow> string \<Rightarrow> list_cursor \<Rightarrow> nat \<Rightarrow> entry_msg list on_client" where
  "ls_loop env pth cursor 0 = raisem OutOfFuel"
| "ls_loop env pth cursor (Suc n) =
     bindm (ls_page env pth 100 cursor) (\<lambda>page.
     if lp_cursor page = NoCursor then retm (lp_entries page)
     else bindm (ls_loop env pth (lp_cursor page) n) (\<lambda>rest. retm (lp_entries page @ rest)))"

definition ls :: "client_env \<Rightarrow> string \<Rightarrow> entry_msg list on_client" where
  "ls env pth = ls_loop env pth NoCursor (ce_patience env)"

definition mkdir :: "client_env \<Rightarrow> string \<Rightarrow> mutation_result on_client" where
  "mkdir env pth = bindm (path_here pth) (\<lambda>p. call env (ce_Mkdir env) (Path_Req p) 2)"

definition rmdir :: "client_env \<Rightarrow> string \<Rightarrow> mutation_result on_client" where
  "rmdir env pth = bindm (path_here pth) (\<lambda>p. call env (ce_Rmdir env) (Path_Req p) 2)"

definition rm :: "client_env \<Rightarrow> string \<Rightarrow> mutation_result on_client" where
  "rm env pth = bindm (path_here pth) (\<lambda>p. call env (ce_Remove env) (Path_Req p) 2)"

definition get_acl :: "client_env \<Rightarrow> string \<Rightarrow> acl_msg on_client" where
  "get_acl env pth = bindm (path_here pth) (\<lambda>p. call env (ce_GetAcl env) (Path_Req p) 2)"

definition set_acl :: "client_env \<Rightarrow> string \<Rightarrow> acl_msg \<Rightarrow> mutation_result on_client" where
  "set_acl env pth acl = bindm (path_here pth) (\<lambda>p. call env (ce_SetAcl env) (Set_Acl_Req p acl (am_revision acl)) 2)"

definition with_mode :: "nat \<Rightarrow> acl_msg \<Rightarrow> acl_msg" where
  "with_mode mode acl = acl\<lparr>am_owner_perms := drop_bit 6 mode, am_group_perms := drop_bit 3 mode AND 7, am_other_perms := mode AND 7\<rparr>"

definition chmod :: "client_env \<Rightarrow> string \<Rightarrow> int \<Rightarrow> mutation_result on_client" where
  "chmod env pth mode =
     bindm (needm (0 \<le> mode \<and> mode \<le> 511) INVALID_ARGUMENT) (\<lambda>_.
     bindm (get_acl env pth) (\<lambda>acl. set_acl env pth (with_mode (nat mode) acl)))"

definition open_read :: "client_env \<Rightarrow> string \<Rightarrow> handle_msg on_client" where
  "open_read env pth = bindm (path_here pth) (\<lambda>p. call env (ce_Open env) (Open_Req p MODE_R) 2)"

definition close :: "client_env \<Rightarrow> mutation_result on_client" where
  "close env = bindm (getm ct_handle) (\<lambda>h. call env (ce_Close env) (Handle_Req (hm_id h) (hm_revision h)) 2)"

end
