(* ===== verification/Client_Transfer.thy ===== *)
theory Client_Transfer
  imports Client
begin

text \<open>
  Whole files (\<^verbatim>\<open>send\<close>, \<^verbatim>\<open>download_block\<close>, \<^verbatim>\<open>receive_handle\<close> and \<^verbatim>\<open>receive\<close> of
  \<^verbatim>\<open>src/src/dfsha/client/sdk.py\<close>). A hash object is the text hashed so far. A file being written holds what
  has been written to it; an offset in it is a length.
\<close>

section \<open>Receiving\<close>

definition write_out :: "string \<times> string \<Rightarrow> string \<Rightarrow> unit on_client" where
  "write_out out bytes = modm (\<lambda>s. s\<lparr>ct_files := (ct_files s)(out := map_option (\<lambda>c. c @ bytes) (ct_files s out))\<rparr>)"

definition truncate_out :: "string \<times> string \<Rightarrow> nat \<Rightarrow> unit on_client" where
  "truncate_out out start = modm (\<lambda>s. s\<lparr>ct_files := (ct_files s)(out := map_option (take start) (ct_files s out))\<rparr>)"

definition tell_out :: "string \<times> string \<Rightarrow> nat on_client" where
  "tell_out out = getm (\<lambda>s. case ct_files s out of None \<Rightarrow> 0 | Some c \<Rightarrow> length c)"

text \<open>\<^verbatim>\<open>next(frames)\<close>: the first frame, the error of the stream, or \<^verbatim>\<open>StopIteration\<close>.\<close>

definition next_frame :: "'f incoming \<Rightarrow> ('f \<times> 'f incoming) res" where
  "next_frame stream =
     (case stream of
        (f # fs, ending) \<Rightarrow> Inr (f, fs, ending)
      | ([], Some e) \<Rightarrow> Inl e
      | ([], None) \<Rightarrow> Inl StopIteration)"

fun block_chunks :: "string \<times> string \<Rightarrow> block_ref \<Rightarrow> string \<Rightarrow> read_header stream_frame list \<Rightarrow> exn option \<Rightarrow> string on_client" where
  "block_chunks out block got [] ending = (case ending of None \<Rightarrow> retm got | Some e \<Rightarrow> raisem e)"
| "block_chunks out block got (Chunk c # frames) ending =
     bindm (needm (dc_offset c = int (length got) \<and> 0 < length (dc_data c) \<and> int (length (dc_data c)) \<le> CHUNK \<and>
                   int (length got + length (dc_data c)) \<le> br_size block) CHECKSUM_MISMATCH) (\<lambda>_.
     bindm (write_out out (dc_data c)) (\<lambda>_.
     block_chunks out block (got @ dc_data c) frames ending))"
| "block_chunks out block got (Header h # frames) ending = raisem (Fault CHECKSUM_MISMATCH)"
| "block_chunks out block got (Empty_Frame # frames) ending = raisem (Fault CHECKSUM_MISMATCH)"

definition read_block :: "client_env \<Rightarrow> string \<times> string \<Rightarrow> handle_msg \<Rightarrow> block_ref \<Rightarrow> block_location \<Rightarrow> req_ctx \<Rightarrow> client_request \<Rightarrow> string on_client" where
  "read_block env out h block loc cx req =
     bindm metadata (\<lambda>_.
     bindm (liftm (somer (DEADLINES (sr_block_size (hm_snapshot h))) KeyError Inr)) (\<lambda>_.
     bindm (reading (\<lambda>i. ce_GetBlock env i (bl_client loc) cx req)) (\<lambda>stream.
     bindm (liftm (next_frame stream)) (\<lambda>(first, frames, ending).
     bindm (needm (case first of Header rh \<Rightarrow> rh_block rh = block \<and> rh_sha rh = br_sha block \<and> rh_length rh = br_size block | _ \<Rightarrow> False)
       CHECKSUM_MISMATCH) (\<lambda>_.
     bindm (block_chunks out block [] frames ending) (\<lambda>got.
     bindm (needm (int (length got) = br_size block \<and> sha256 (ce_lib env) got = br_sha block) CHECKSUM_MISMATCH) (\<lambda>_.
     bindm (record_traffic (bl_node loc) False (int (length got))) (\<lambda>_.
     retm got))))))))"

definition transient :: "exn \<Rightarrow> bool" where
  "transient e = (case e of RpcError r \<Rightarrow> fault_code r \<in> {SC_UNAVAILABLE, SC_DEADLINE_EXCEEDED, SC_DATA_LOSS} | _ \<Rightarrow> False)"

text \<open>One attempt after the other, each at a node that has not failed yet; \<open>left\<close> attempts may still follow.\<close>

fun download_tries :: "client_env \<Rightarrow> string \<times> string \<Rightarrow> planned_block \<Rightarrow> block_ref \<Rightarrow> string list \<Rightarrow> nat \<Rightarrow> nat \<Rightarrow> string on_client" where
  "download_tries env out allocation block failed start left =
     (case filter (\<lambda>(loc, grant). bl_node loc \<notin> set failed) (zip (pb_locations allocation) (pb_grants allocation)) of
        [] \<Rightarrow> raisem (Fault DATA_UNAVAILABLE)
      | (loc, grant) # _ \<Rightarrow>
          bindm (handle_now env) (\<lambda>h.
          let req = Read_Block_Req (hm_id h) (hm_snapshot h) block 0 (br_size block) (bg_capability grant) [] in
          bindm (prepare env req []) (\<lambda>cx.
          bindm (trym (read_block env out h block loc cx req)) (\<lambda>r.
          case r of
            Inr got \<Rightarrow> retm got
          | Inl e \<Rightarrow>
              (case left of
                 0 \<Rightarrow> raisem e
               | Suc left \<Rightarrow>
                   if \<not> transient e then raisem e
                   else
                     bindm (truncate_out out start) (\<lambda>_.
                     bindm (handle_now env) (\<lambda>h.
                     bindm (call env (ce_ResolveBlocks env) (Resolve_Req (hm_id h) (hm_snapshot h)
                       (br_index block * sr_block_size (hm_snapshot h)) (br_size block) 1 [] []) 2) (\<lambda>fresh.
                     bindm (needm (bp_snapshot fresh = Some (hm_snapshot h) \<and> length (bp_blocks fresh) = 1 \<and>
                                   pb_block (hd (bp_blocks fresh)) = block) CHECKSUM_MISMATCH) (\<lambda>_.
                     let allocation = hd (bp_blocks fresh); failed = bl_node loc # failed in
                     if list_all (\<lambda>l. bl_node l \<in> set failed) (pb_locations allocation) then raisem e
                     else download_tries env out allocation block failed start left)))))))))"

declare download_tries.simps [simp del]

definition download_block :: "client_env \<Rightarrow> string \<times> string \<Rightarrow> planned_block \<Rightarrow> string on_client" where
  "download_block env out allocation =
     bindm (tell_out out) (\<lambda>start. download_tries env out allocation (pb_block allocation) [] start 2)"

text \<open>The blocks received so far and their bytes.\<close>

fun receive_blocks :: "client_env \<Rightarrow> string \<times> string \<Rightarrow> planned_block list \<Rightarrow> block_ref list \<times> string \<Rightarrow> (block_ref list \<times> string) on_client" where
  "receive_blocks env out [] acc = retm acc"
| "receive_blocks env out (allocation # rest) (blks, bytes) =
     bindm (needm (br_index (pb_block allocation) = int (length blks)) CHECKSUM_MISMATCH) (\<lambda>_.
     bindm (download_block env out allocation) (\<lambda>got.
     receive_blocks env out rest (blks @ [pb_block allocation], bytes @ got)))"

fun receive_pages :: "client_env \<Rightarrow> string \<times> string \<Rightarrow> string \<Rightarrow> block_ref list \<times> string \<Rightarrow> nat \<Rightarrow> (block_ref list \<times> string) on_client" where
  "receive_pages env out cursor acc 0 = raisem OutOfFuel"
| "receive_pages env out cursor acc (Suc n) =
     bindm (handle_now env) (\<lambda>h.
     bindm (call env (ce_ResolveBlocks env) (Resolve_Req (hm_id h) (hm_snapshot h) 0 (sr_size (hm_snapshot h)) 64 cursor []) 2) (\<lambda>plan.
     bindm (handle_now env) (\<lambda>h.
     bindm (needm (bp_snapshot plan = Some (hm_snapshot h)) CHECKSUM_MISMATCH) (\<lambda>_.
     bindm (receive_blocks env out (bp_blocks plan) acc) (\<lambda>acc.
     if bp_cursor plan = [] then retm acc else receive_pages env out (bp_cursor plan) acc n)))))"

definition create_out :: "string \<times> string \<Rightarrow> unit on_client" where
  "create_out out = bindm (getm (\<lambda>s. ct_files s out)) (\<lambda>old.
     case old of Some _ \<Rightarrow> raisem OSError | None \<Rightarrow> modm (\<lambda>s. s\<lparr>ct_files := (ct_files s)(out := Some [])\<rparr>))"

definition unlink_out :: "string \<times> string \<Rightarrow> unit on_client" where
  "unlink_out out = modm (\<lambda>s. s\<lparr>ct_files := (ct_files s)(out := None)\<rparr>)"

text \<open>\<^verbatim>\<open>os.replace\<close>, or \<^verbatim>\<open>os.link\<close>, which fails when the target exists, and then the removal of the old name.\<close>

definition publish_out :: "bool \<Rightarrow> string \<times> string \<Rightarrow> string \<times> string \<Rightarrow> unit on_client" where
  "publish_out overwrite out target = bindm (getm ct_files) (\<lambda>files.
     if files out = None \<or> \<not> overwrite \<and> files target \<noteq> None then raisem OSError
     else modm (\<lambda>s. s\<lparr>ct_files := (ct_files s)(target := ct_files s out, out := None)\<rparr>))"

definition temporary :: "string \<times> string \<Rightarrow> string \<Rightarrow> string \<times> string" where
  "temporary target u = (fst target, ''.dfsha-'' @ u @ ''.part'')"

definition other_programs :: "client_env \<Rightarrow> unit on_client" where
  "other_programs env = bindm (reading (ce_others_files env)) (\<lambda>f. modm (\<lambda>s. s\<lparr>ct_files := f (ct_files s)\<rparr>))"

text \<open>What has arrived is the content the handle names.\<close>

definition content_ok :: "client_env \<Rightarrow> snapshot_ref \<Rightarrow> block_ref list \<Rightarrow> string \<Rightarrow> bool" where
  "content_ok env snap blks bytes \<longleftrightarrow> int (length bytes) = sr_size snap \<and>
     (case sr_file_sha snap of None \<Rightarrow> True | Some h \<Rightarrow> sha256 (ce_lib env) bytes = h) \<and>
     manifest_hash (ce_lib env) blks = sr_manifest_sha snap"

definition fetch_out :: "client_env \<Rightarrow> string \<times> string \<Rightarrow> string on_client" where
  "fetch_out env out =
     bindm (create_out out) (\<lambda>_.
     bindm (receive_pages env out [] ([], []) (ce_patience env)) (\<lambda>(blks, bytes).
     bindm (handle_now env) (\<lambda>h.
     bindm (needm (content_ok env (hm_snapshot h) blks bytes) CHECKSUM_MISMATCH) (\<lambda>_. retm bytes))))"

definition receive_handle :: "client_env \<Rightarrow> string \<times> string \<Rightarrow> bool \<Rightarrow> (int \<times> string) on_client" where
  "receive_handle env target overwrite =
     bindm (getm ct_files) (\<lambda>files.
     bindm (needm (files target = None \<or> overwrite) ALREADY_EXISTS) (\<lambda>_.
     bindm (reading (ce_uid env)) (\<lambda>u.
     let out = temporary target u in
     finallym
       (bindm (keepalive env (fetch_out env out)) (\<lambda>bytes.
        bindm (other_programs env) (\<lambda>_.
        bindm (publish_out overwrite out target) (\<lambda>_.
        retm (int (length bytes), hex (sha256 (ce_lib env) bytes))))))
       (unlink_out out))))"

definition receive :: "client_env \<Rightarrow> string \<Rightarrow> string \<times> string \<Rightarrow> bool \<Rightarrow> (int \<times> string) on_client" where
  "receive env remote target overwrite =
     bindm (open_read env remote) (\<lambda>h.
     bindm (modm (\<lambda>s. s\<lparr>ct_handle := h\<rparr>)) (\<lambda>_.
     finallym (receive_handle env target overwrite) (bindm (close env) (\<lambda>_. retm ()))))"

end
