(* ===== verification/Client_Access.thy ===== *)
theory Client_Access
  imports Client_Transfer Writes
begin

text \<open>
  Reading and writing ranges of an open file (\<^verbatim>\<open>src/src/dfsha/client/access.py\<close>). The handle of a call is the
  \<open>ct_handle\<close> of the client, which its guard reserves for one call at a time. A read delivers its bytes
  as they arrive; here it returns them joined, as \<^verbatim>\<open>read\<close> does.
\<close>

section \<open>Handles and locks\<close>

definition modes :: "(string \<times> open_mode) list" where
  "modes = [(''r'', MODE_R), (''r+'', MODE_R_PLUS), (''w'', MODE_W), (''w+'', MODE_W_PLUS), (''x'', MODE_X), (''x+'', MODE_X_PLUS)]"

definition open_file :: "client_env \<Rightarrow> string \<Rightarrow> string \<Rightarrow> handle_msg on_client" where
  "open_file env pth mode =
     (case map_of modes mode of
        None \<Rightarrow> raisem (Fault UNSUPPORTED_MODE)
      | Some m \<Rightarrow> bindm (path_here pth) (\<lambda>p. call env (ce_Open env) (Open_Req p m) 2))"

definition renew_handle :: "client_env \<Rightarrow> handle_msg on_client" where
  "renew_handle env =
     bindm (getm ct_handle) (\<lambda>h.
     bindm (call env (ce_RenewHandle env) (Handle_Req (hm_id h) (hm_revision h)) 2) (\<lambda>updated.
     bindm (if hm_revision updated \<ge> hm_revision h then modm (\<lambda>s. s\<lparr>ct_handle := updated\<rparr>) else retm ()) (\<lambda>_.
     getm ct_handle)))"

definition lock_range :: "client_env \<Rightarrow> int \<Rightarrow> int \<Rightarrow> bool \<Rightarrow> int \<Rightarrow> fence on_client" where
  "lock_range env offset len whole wait_ms =
     bindm (if whole then retm ()
            else bindm (liftm (checked_range offset len (Some MAX_DELTA))) (\<lambda>_. needm (len > 0) INVALID_ARGUMENT)) (\<lambda>_.
     bindm (getm ct_handle) (\<lambda>h.
     call env (ce_Lock env) (if whole then Lock_Req (hm_id h) True None None wait_ms
                             else Lock_Req (hm_id h) False (Some offset) (Some len) wait_ms) 0))"

definition unlock :: "client_env \<Rightarrow> fence \<Rightarrow> mutation_result on_client" where
  "unlock env f = call env (ce_Unlock env) (Fence_Req f) 2"

definition renew_lock :: "client_env \<Rightarrow> fence \<Rightarrow> fence on_client" where
  "renew_lock env f = call env (ce_RenewLock env) (Fence_Req f) 2"

definition operation_of :: "client_env \<Rightarrow> string \<Rightarrow> string \<Rightarrow> operation_status on_client" where
  "operation_of env operation_id request_id = call env (ce_GetOperation env) (Operation_Query operation_id request_id) 0"

section \<open>Reading a range\<close>

text \<open>What arrives of one grant, and the exception that ends the stream early.\<close>

fun wire_chunks :: "int \<Rightarrow> string \<Rightarrow> read_header stream_frame list \<Rightarrow> exn option \<Rightarrow> string \<times> exn option" where
  "wire_chunks len got [] ending =
     (got, case ending of Some e \<Rightarrow> Some e | None \<Rightarrow> if int (length got) = len then None else Some (Fault DATA_LOSS))"
| "wire_chunks len got (Chunk c # frames) ending =
     (if dc_offset c = int (length got) \<and> 0 < length (dc_data c) \<and> int (length (dc_data c)) \<le> CHUNK \<and>
         int (length got + length (dc_data c)) \<le> len
      then wire_chunks len (got @ dc_data c) frames ending
      else (got, Some (Fault DATA_LOSS)))"
| "wire_chunks len got (Header h # frames) ending = (got, Some (Fault DATA_LOSS))"
| "wire_chunks len got (Empty_Frame # frames) ending = (got, Some (Fault DATA_LOSS))"

definition wire_stream :: "block_ref \<Rightarrow> block_grant \<Rightarrow> read_header stream_frame incoming \<Rightarrow> string \<times> exn option" where
  "wire_stream block grant stream =
     (case stream of
        ([], Some e) \<Rightarrow> ([], Some e)
      | (Header rh # frames, ending) \<Rightarrow>
          if rh_block rh = block \<and> rh_offset rh = bg_offset grant \<and> rh_length rh = bg_length grant
          then wire_chunks (bg_length grant) [] frames ending else ([], Some (Fault DATA_LOSS))
      | _ \<Rightarrow> ([], Some (Fault DATA_LOSS)))"

text \<open>The traffic record is updated with every chunk; here once, by their sum.\<close>

definition read_grant :: "client_env \<Rightarrow> handle_msg \<Rightarrow> planned_block \<Rightarrow> block_grant \<Rightarrow> block_location \<Rightarrow> string \<Rightarrow> (string \<times> exn option) on_client" where
  "read_grant env h allocation grant loc read_id =
     (let req = Read_Block_Req (hm_id h) (hm_snapshot h) (pb_block allocation) (bg_offset grant) (bg_length grant)
                  (bg_capability grant) read_id in
      bindm (prepare env req []) (\<lambda>cx.
      bindm metadata (\<lambda>_.
      bindm (liftm (somer (DEADLINES (sr_block_size (hm_snapshot h))) KeyError Inr)) (\<lambda>_.
      bindm (reading (\<lambda>i. ce_GetBlock env i (bl_client loc) cx req)) (\<lambda>stream.
      let (got, failure) = wire_stream (pb_block allocation) grant stream in
      bindm (if got = [] then retm () else record_traffic (bl_node loc) False (int (length got))) (\<lambda>_.
      retm (got, failure)))))))"

text \<open>
  The loop over one block. A missing location raises \<^verbatim>\<open>StopIteration\<close> inside a generator, which Python
  turns into a \<open>RuntimeError\<close>.
\<close>

fun read_loop :: "client_env \<Rightarrow> string \<Rightarrow> int \<Rightarrow> int \<Rightarrow> planned_block \<Rightarrow> block_grant \<Rightarrow> string \<Rightarrow> nat \<Rightarrow> string list \<Rightarrow> nat \<Rightarrow>
    (planned_block \<times> string) on_client" where
  "read_loop env read_id low len allocation grant received attempts failed 0 = raisem OutOfFuel"
| "read_loop env read_id low len allocation grant received attempts failed (Suc n) =
     (if int (length received) \<ge> len then retm (allocation, received)
      else
        case find (\<lambda>l. bl_node l = bg_node grant) (pb_locations allocation) of
          None \<Rightarrow> raisem RuntimeError
        | Some loc \<Rightarrow>
            bindm (handle_now env) (\<lambda>h.
            bindm (read_grant env h allocation grant loc read_id) (\<lambda>(got, failure).
            let received = received @ got in
            case failure of
              None \<Rightarrow> read_loop env read_id low len allocation grant received attempts failed n
            | Some e \<Rightarrow>
                if \<not> transient e \<or> attempts \<ge> 2 \<or> int (length received) = len then raisem e
                else
                  bindm (handle_now env) (\<lambda>h.
                  bindm (call env (ce_ResolveBlocks env) (Resolve_Req (hm_id h) (hm_snapshot h)
                    (br_index (pb_block allocation) * sr_block_size (hm_snapshot h) + low + int (length received))
                    (len - int (length received)) 1 [] read_id) 2) (\<lambda>fresh.
                  bindm (needm (length (bp_blocks fresh) = 1 \<and> pb_block (hd (bp_blocks fresh)) = pb_block allocation) DATA_UNAVAILABLE) (\<lambda>_.
                  let failed = bl_node loc # failed; allocation = hd (bp_blocks fresh) in
                  case find (\<lambda>g. bg_node g \<notin> set failed) (pb_grants allocation) of
                    None \<Rightarrow> raisem e
                  | Some grant \<Rightarrow> read_loop env read_id low len allocation grant received (Suc attempts) failed n))))))"

definition read_allocation :: "client_env \<Rightarrow> string \<Rightarrow> planned_block \<Rightarrow> string on_client" where
  "read_allocation env read_id allocation =
     (case pb_grants allocation of
        [] \<Rightarrow> raisem IndexError
      | grant # _ \<Rightarrow>
          bindm (read_loop env read_id (bg_offset grant) (bg_length grant) allocation grant [] 0 [] (ce_patience env)) (\<lambda>(allocation, got).
          bindm (needm (bg_offset grant \<noteq> 0 \<or> bg_length grant \<noteq> br_size (pb_block allocation) \<or>
                        sha256 (ce_lib env) got = br_sha (pb_block allocation)) CHECKSUM_MISMATCH) (\<lambda>_.
          retm got)))"

fun read_allocations :: "client_env \<Rightarrow> string \<Rightarrow> planned_block list \<Rightarrow> string \<Rightarrow> string on_client" where
  "read_allocations env read_id [] got = retm got"
| "read_allocations env read_id (a # as) got =
     bindm (read_allocation env read_id a) (\<lambda>part. read_allocations env read_id as (got @ part))"

fun read_pages :: "client_env \<Rightarrow> string \<Rightarrow> int \<Rightarrow> int \<Rightarrow> string \<Rightarrow> string \<Rightarrow> nat \<Rightarrow> string on_client" where
  "read_pages env read_id offset len cursor got 0 = raisem OutOfFuel"
| "read_pages env read_id offset len cursor got (Suc n) =
     bindm (handle_now env) (\<lambda>h.
     bindm (call env (ce_ResolveBlocks env) (Resolve_Req (hm_id h) (hm_snapshot h) offset len 64 cursor read_id) 2) (\<lambda>pl.
     bindm (handle_now env) (\<lambda>h.
     bindm (needm (bp_snapshot pl = Some (hm_snapshot h)) VERSION_CONFLICT) (\<lambda>_.
     bindm (read_allocations env read_id (bp_blocks pl) got) (\<lambda>got.
     if bp_cursor pl = [] then retm got else read_pages env read_id offset len (bp_cursor pl) got n)))))"

definition read_serialized :: "client_env \<Rightarrow> int \<Rightarrow> int \<Rightarrow> string on_client" where
  "read_serialized env offset len =
     bindm (liftm (checked_range offset len None)) (\<lambda>_.
     bindm (getm ct_handle) (\<lambda>h.
     bindm (call env (ce_BeginRead env) (Begin_Read_Req (hm_id h) (hm_snapshot h) offset len) 2) (\<lambda>lease.
     finallym (keepalive env (read_pages env (rl_id lease) offset len [] [] (ce_patience env)))
       (bindm (getm ct_handle) (\<lambda>h. bindm (call env (ce_EndRead env) (End_Read_Req (hm_id h) (rl_id lease)) 2) (\<lambda>_. retm ()))))))"

definition read :: "client_env \<Rightarrow> int \<Rightarrow> int \<Rightarrow> string on_client" where
  "read env offset len = bindm (liftm (checked_range offset len (Some MAX_DELTA))) (\<lambda>_. read_serialized env offset len)"

section \<open>Writing a range\<close>

text \<open>The cut of a payload at the block boundaries, from \<open>cursor\<close> on.\<close>

function cut_parts :: "(string \<Rightarrow> string) \<Rightarrow> int \<Rightarrow> int \<Rightarrow> string \<Rightarrow> nat \<Rightarrow> write_part list" where
  "cut_parts hashed sized offset bytes cursor =
     (if cursor < length bytes \<and> 0 < sized
      then let absolute = offset + int cursor;
               len = min (int (length bytes - cursor)) (sized - absolute mod sized)
           in \<lparr>wp_index = absolute div sized, wp_block_offset = absolute mod sized, wp_delta_offset = int cursor, wp_length = len,
               wp_sha = hashed (take (nat len) (drop cursor bytes))\<rparr> # cut_parts hashed sized offset bytes (cursor + nat len)
      else [])"
  by pat_completeness auto
termination
  by (relation "measure (\<lambda>(_, _, _, bytes, cursor). length bytes - cursor)")
    (auto simp: min_def intro!: diff_less_mono2 simp: pos_mod_bound)

declare cut_parts.simps [simp del]

definition write_request_of :: "client_env \<Rightarrow> handle_msg \<Rightarrow> int \<Rightarrow> string \<Rightarrow> fence list \<Rightarrow> begin_write_req" where
  "write_request_of env h offset bytes fences =
     \<lparr>bw_handle = hm_id h, bw_base = hm_snapshot h, bw_offset = Some offset, bw_length = Some (int (length bytes)),
      bw_sha = sha256 (ce_lib env) bytes, bw_fences = fences,
      bw_parts = cut_parts (sha256 (ce_lib env)) (sr_block_size (hm_snapshot h)) offset bytes 0\<rparr>"

definition begin_write :: "client_env \<Rightarrow> int \<Rightarrow> string \<Rightarrow> fence list \<Rightarrow> string \<Rightarrow> write_plan on_client" where
  "begin_write env offset bytes fences request_id =
     bindm (liftm (checked_range offset (int (length bytes)) (Some MAX_DELTA))) (\<lambda>_.
     bindm (getm ct_handle) (\<lambda>h.
     bindm (needm (offset \<le> sr_size (hm_snapshot h)) SPARSE_WRITE_UNSUPPORTED) (\<lambda>_.
     if bytes \<noteq> [] \<and> sr_block_size (hm_snapshot h) = 0 then raisem ZeroDivisionError
     else
       let req = Begin_Write_Req (write_request_of env h offset bytes fences) in
       bindm (prepare env req request_id) (\<lambda>cx. call_tries env (ce_BeginWrite env) cx req 2))))"

fun chunk_frames :: "nat \<Rightarrow> string \<Rightarrow> 'h stream_frame list" where
  "chunk_frames start [] = []"
| "chunk_frames start (b # bs) =
     (let piece = take (nat CHUNK) (b # bs) in
      Chunk \<lparr>dc_offset = int start, dc_data = piece\<rparr> # chunk_frames (start + length piece) (drop (nat CHUNK - 1) bs))"

definition head_of :: "'a list \<Rightarrow> 'a res" where
  "head_of xs = (case xs of [] \<Rightarrow> Inl IndexError | x # _ \<Rightarrow> Inr x)"

text \<open>The attempts at a transfer: again after \<^verbatim>\<open>UNAVAILABLE\<close> only.\<close>

fun transfer_tries :: "(nat \<Rightarrow> 'a res) \<Rightarrow> nat \<Rightarrow> 'a on_client" where
  "transfer_tries rpc 0 = bindm metadata (\<lambda>_. bindm (reading rpc) liftm)"
| "transfer_tries rpc (Suc n) =
     catchm (bindm metadata (\<lambda>_. bindm (reading rpc) liftm)) (\<lambda>e.
       case e of RpcError r \<Rightarrow> if fault_code r = SC_UNAVAILABLE then transfer_tries rpc n else raisem e
       | _ \<Rightarrow> raisem e)"

definition piece_of :: "planned_block \<Rightarrow> string \<Rightarrow> string" where
  "piece_of allocation bytes = take (nat (pb_delta_length allocation)) (drop (nat (pb_delta_offset allocation)) bytes)"

definition patch_header_of :: "client_env \<Rightarrow> write_plan \<Rightarrow> planned_block \<Rightarrow> string \<Rightarrow> fence \<Rightarrow> string \<Rightarrow> patch_header on_client" where
  "patch_header_of env pl a piece f cap =
     (let sha = sha256 (ce_lib env) piece;
          req = Patch_Block_Req (wl_operation pl) (pb_block a) (pb_replacement a) (pb_block_offset a) (int (length piece)) sha f cap in
      bindm (prepare env req []) (\<lambda>cx.
      retm \<lparr>ph_call = \<lparr>cl_cx = cx, cl_dict = ce_dict env req, cl_password = None, cl_username = [], cl_user_id = []\<rparr>,
            ph_operation = wl_operation pl, ph_base = pb_block a, ph_new = pb_replacement a, ph_offset = pb_block_offset a,
            ph_length = int (length piece), ph_sha = sha, ph_fence = f\<rparr>))"

definition receipt_fits :: "handle_msg \<Rightarrow> write_plan \<Rightarrow> planned_block \<Rightarrow> block_location \<Rightarrow> durable_receipt \<Rightarrow> bool" where
  "receipt_fits h pl a loc receipt \<longleftrightarrow> dr_operation receipt = or_id (wl_operation pl) \<and> dr_node receipt = bl_node loc \<and>
     br_version (dr_block receipt) = pb_replacement a \<and> br_file (dr_block receipt) = sr_file (hm_snapshot h) \<and>
     br_index (dr_block receipt) = br_index (pb_block a) \<and> length (br_sha (dr_block receipt)) = 32"

definition prepare_block :: "client_env \<Rightarrow> write_plan \<Rightarrow> string \<Rightarrow> planned_block \<Rightarrow> block_change on_client" where
  "prepare_block env pl bytes a =
     (let piece = piece_of a bytes in
      bindm (liftm (head_of (wl_fences pl))) (\<lambda>f.
      bindm (liftm (head_of (pb_grants a))) (\<lambda>grant.
      bindm (patch_header_of env pl a piece f (bg_capability grant)) (\<lambda>head.
      bindm (liftm (head_of (pb_locations a))) (\<lambda>loc.
      bindm (handle_now env) (\<lambda>h.
      bindm (liftm (somer (DEADLINES (sr_block_size (hm_snapshot h))) KeyError Inr)) (\<lambda>_.
      bindm (transfer_tries (\<lambda>i. ce_PatchBlock env i (bl_client loc) (bg_capability grant)
               (Header head # chunk_frames 0 piece, None)) 2) (\<lambda>receipt.
      bindm (handle_now env) (\<lambda>h.
      bindm (needm (receipt_fits h pl a loc receipt) DATA_LOSS) (\<lambda>_.
      bindm (record_traffic (dr_node receipt) True (int (length piece))) (\<lambda>_.
      retm \<lparr>bc_base = pb_block a, bc_replacement = dr_block receipt, bc_receipts = [receipt]\<rparr>)))))))))))"

fun prepare_blocks :: "client_env \<Rightarrow> write_plan \<Rightarrow> string \<Rightarrow> planned_block list \<Rightarrow> block_change list on_client" where
  "prepare_blocks env pl bytes [] = retm []"
| "prepare_blocks env pl bytes (a # as) =
     bindm (prepare_block env pl bytes a) (\<lambda>change.
     bindm (prepare_blocks env pl bytes as) (\<lambda>changes. retm (change # changes)))"

text \<open>The result of an operation; one that is not set has the defaults of its message, whose state is not used.\<close>

definition result_of :: "operation_status \<Rightarrow> commit_result" where
  "result_of status = (case os_result status of
     Some r \<Rightarrow> r
   | None \<Rightarrow> \<lparr>cr_operation = no_operation, cr_state = PREPARING, cr_snapshot = no_snapshot, cr_accepted = 0,
              cr_degraded = False, cr_target = 0, cr_minimum = 0\<rparr>)"

definition is_rpc :: "exn \<Rightarrow> bool" where
  "is_rpc e = (case e of RpcError _ \<Rightarrow> True | _ \<Rightarrow> False)"

definition lost_answer :: "exn \<Rightarrow> bool" where
  "lost_answer e = (case e of RpcError r \<Rightarrow> fault_code r \<in> {SC_UNAVAILABLE, SC_DEADLINE_EXCEEDED} | _ \<Rightarrow> False)"

definition commit_result_of :: "client_env \<Rightarrow> write_plan \<Rightarrow> req_ctx \<Rightarrow> client_request \<Rightarrow> commit_result on_client" where
  "commit_result_of env pl cx req =
     catchm (call_tries env (ce_CommitWrite env) cx req 0) (\<lambda>e.
       if \<not> lost_answer e then raisem e
       else
         bindm (catchm (operation_of env (or_id (wl_operation pl)) []) (\<lambda>e.
           raisem (if is_rpc e then Fault OUTCOME_UNKNOWN else e))) (\<lambda>status.
         if os_state status = COMMITTED then retm (result_of status)
         else if os_state status = PREPARING then call_tries env (ce_CommitWrite env) cx req 0
         else raisem (Fault OPERATION_EXPIRED)))"

definition commit_write :: "client_env \<Rightarrow> write_plan \<Rightarrow> block_change list \<Rightarrow> commit_result on_client" where
  "commit_write env pl changes =
     bindm (if wl_minimum pl > 1 then wait_durable env (or_id (wl_operation pl)) else retm ()) (\<lambda>_.
     bindm (handle_now env) (\<lambda>h.
     let req = Commit_Write_Req \<lparr>cw_operation = wl_operation pl, cw_handle = hm_id h, cw_revision = hm_revision h,
                 cw_fences = wl_fences pl, cw_changes = changes\<rparr> in
     bindm (prepare env req []) (\<lambda>cx.
     bindm (modm (\<lambda>s. s\<lparr>ct_last_commit := Some (cx, req)\<rparr>)) (\<lambda>_.
     bindm (commit_result_of env pl cx req) (\<lambda>result.
     bindm (handle_now env) (\<lambda>_.
     bindm (modm (\<lambda>s. s\<lparr>ct_handle := (ct_handle s)\<lparr>hm_snapshot := cr_snapshot result, hm_revision := hm_revision (ct_handle s) + 1\<rparr>\<rparr>)) (\<lambda>_.
     retm result)))))))"

text \<open>After a failure: ask what became of the operation, and give it up if it is still open.\<close>

definition after_failure :: "client_env \<Rightarrow> write_plan \<Rightarrow> exn \<Rightarrow> int on_client" where
  "after_failure env pl e =
     bindm (catchm
       (bindm (operation_of env (or_id (wl_operation pl)) []) (\<lambda>status.
        if os_state status = COMMITTED then
          bindm (modm (\<lambda>s. s\<lparr>ct_handle := (ct_handle s)\<lparr>hm_snapshot := cr_snapshot (result_of status)\<rparr>\<rparr>)) (\<lambda>_.
          retm (Inr (cr_accepted (result_of status))))
        else if os_state status = PREPARING then
          bindm (call env (ce_AbortWrite env) (Operation_Req (wl_operation pl)) 0) (\<lambda>_. retm (Inl e))
        else retm (Inl e)))
       (\<lambda>d. raisem (if is_rpc d then Fault OUTCOME_UNKNOWN else d))) liftm"

definition finish_write :: "client_env \<Rightarrow> write_plan \<Rightarrow> string \<Rightarrow> int on_client" where
  "finish_write env pl bytes =
     bindm (modm (\<lambda>s. s\<lparr>ct_last_operation := Some (wl_operation pl)\<rparr>)) (\<lambda>_.
     if bytes = [] then bindm (operation_of env (or_id (wl_operation pl)) []) (\<lambda>status. retm (cr_accepted (result_of status)))
     else
       catchm
         (bindm (prepare_blocks env pl bytes (wl_blocks pl)) (\<lambda>changes.
          bindm (commit_write env pl changes) (\<lambda>r. retm (cr_accepted r))))
         (\<lambda>e. if e = OutOfFuel then raisem e else after_failure env pl e))"

definition same_write :: "client_env \<Rightarrow> handle_msg \<Rightarrow> int \<Rightarrow> string \<Rightarrow> fence list \<Rightarrow> begin_write_req \<Rightarrow> bool" where
  "same_write env h offset bytes fences original \<longleftrightarrow> bw_handle original = hm_id h \<and>
     (case bw_offset original of None \<Rightarrow> 0 | Some x \<Rightarrow> x) = offset \<and>
     (case bw_length original of None \<Rightarrow> 0 | Some x \<Rightarrow> x) = int (length bytes) \<and> bw_sha original = sha256 (ce_lib env) bytes"

definition fence_intents :: "client_env \<Rightarrow> fence list \<Rightarrow> string list" where
  "fence_intents env fences = map (\<lambda>f. intent (ce_lib env) (ce_dict env (Fence_Req f))) fences"

definition resume_write :: "client_env \<Rightarrow> int \<Rightarrow> string \<Rightarrow> fence list \<Rightarrow> operation_status \<Rightarrow> int on_client" where
  "resume_write env offset bytes fences previous =
     bindm (getm ct_handle) (\<lambda>h.
     case os_begin previous of
       None \<Rightarrow> raisem (Fault IDEMPOTENCY_MISMATCH)
     | Some original \<Rightarrow>
         bindm (needm (same_write env h offset bytes fences original) IDEMPOTENCY_MISMATCH) (\<lambda>_.
         bindm (needm (fence_intents env (bw_fences original) = fence_intents env fences) IDEMPOTENCY_MISMATCH) (\<lambda>_.
         if os_state previous = COMMITTED then retm (cr_accepted (result_of previous))
         else
           bindm (needm (os_state previous = PREPARING) OPERATION_EXPIRED) (\<lambda>_.
           let cx = ce_intent_context env previous; req = Begin_Write_Req original in
           bindm (if cx_request_id cx = [] then call env (ce_BeginWrite env) req 2
                  else call_tries env (ce_BeginWrite env) cx req 2) (\<lambda>pl.
           finish_write env pl bytes)))))"

definition write_at :: "client_env \<Rightarrow> int \<Rightarrow> string \<Rightarrow> fence list \<Rightarrow> string \<Rightarrow> int on_client" where
  "write_at env offset bytes fences request_id =
     bindm (liftm (checked_range offset (int (length bytes)) (Some MAX_DELTA))) (\<lambda>_.
     let fresh = bindm (begin_write env offset bytes fences request_id) (\<lambda>pl. finish_write env pl bytes) in
     if request_id = [] then fresh
     else
       bindm (trym (operation_of env [] request_id)) (\<lambda>previous.
       case previous of
         Inl e \<Rightarrow> (case e of RpcError r \<Rightarrow> if fault_code r = SC_NOT_FOUND then fresh else raisem e | _ \<Rightarrow> raisem e)
       | Inr previous \<Rightarrow> resume_write env offset bytes fences previous))"

end
