(* ===== verification/Client_Upload.thy ===== *)
theory Client_Upload
  imports Client_Access
begin

text \<open>
  Sending a local file (\<^verbatim>\<open>send\<close> of \<^verbatim>\<open>src/src/dfsha/client/sdk.py\<close>). The opened file is \<open>ct_source\<close>; other programs
  may write to it between two reads. The plan of the upload is \<open>ct_plan\<close>, which the renewal thread updates.
\<close>

definition read_source :: "client_env \<Rightarrow> nat \<Rightarrow> nat \<Rightarrow> string on_client" where
  "read_source env pos n =
     bindm (reading (ce_others_source env)) (\<lambda>f.
     bindm (modm (\<lambda>s. s\<lparr>ct_source := f (ct_source s)\<rparr>)) (\<lambda>_.
     getm (\<lambda>s. take n (drop pos (so_data (ct_source s))))))"

fun hash_source :: "client_env \<Rightarrow> string \<Rightarrow> nat \<Rightarrow> string on_client" where
  "hash_source env acc 0 = raisem OutOfFuel"
| "hash_source env acc (Suc n) =
     bindm (read_source env (length acc) (nat CHUNK)) (\<lambda>chunk.
     if chunk = [] then retm acc else hash_source env (acc @ chunk) n)"

text \<open>\<open>left\<close> bytes from \<open>pos\<close> on; every read delivers at least one, so \<open>left\<close> rounds are enough.\<close>

fun block_bytes :: "client_env \<Rightarrow> nat \<Rightarrow> nat \<Rightarrow> string \<Rightarrow> nat \<Rightarrow> string on_client" where
  "block_bytes env pos left acc fuel =
     (if left = 0 then retm acc
      else case fuel of
        0 \<Rightarrow> raisem OutOfFuel
      | Suc n \<Rightarrow>
          bindm (read_source env pos (min (nat CHUNK) left)) (\<lambda>chunk.
          bindm (needm (chunk \<noteq> []) CHECKSUM_MISMATCH) (\<lambda>_.
          block_bytes env (pos + length chunk) (left - length chunk) (acc @ chunk) n)))"

declare block_bytes.simps [simp del]

text \<open>The frames of one attempt. A short read raises in the generator, which ends the stream early.\<close>

fun put_frames :: "client_env \<Rightarrow> nat \<Rightarrow> nat \<Rightarrow> nat \<Rightarrow> nat \<Rightarrow> put_header stream_frame incoming on_client" where
  "put_frames env start len offset fuel =
     (if offset \<ge> len then retm ([], None)
      else case fuel of
        0 \<Rightarrow> raisem OutOfFuel
      | Suc n \<Rightarrow>
          bindm (read_source env (start + offset) (min (nat CHUNK) (len - offset))) (\<lambda>chunk.
          if chunk = [] then retm ([], Some (Fault CHECKSUM_MISMATCH))
          else bindm (put_frames env start len (offset + length chunk) n) (\<lambda>(frames, ending).
               retm (Chunk \<lparr>dc_offset = int offset, dc_data = chunk\<rparr> # frames, ending))))"

declare put_frames.simps [simp del]

definition put_once :: "client_env \<Rightarrow> block_location \<Rightarrow> put_header \<Rightarrow> nat \<Rightarrow> nat \<Rightarrow> durable_receipt on_client" where
  "put_once env loc head start len =
     bindm metadata (\<lambda>_.
     bindm (plan_now env) (\<lambda>pl.
     bindm (liftm (somer (DEADLINES (up_block_bytes pl)) KeyError Inr)) (\<lambda>_.
     bindm (put_frames env start len 0 len) (\<lambda>(frames, ending).
     bindm (reading (\<lambda>i. ce_PutBlock env i (bl_client loc) (Header head # frames, ending))) liftm))))"

fun put_tries :: "client_env \<Rightarrow> block_location \<Rightarrow> put_header \<Rightarrow> nat \<Rightarrow> nat \<Rightarrow> nat \<Rightarrow> durable_receipt on_client" where
  "put_tries env loc head start len 0 = put_once env loc head start len"
| "put_tries env loc head start len (Suc n) =
     catchm (put_once env loc head start len) (\<lambda>e.
       case e of RpcError r \<Rightarrow> if fault_code r = SC_UNAVAILABLE then put_tries env loc head start len n else raisem e
       | _ \<Rightarrow> raisem e)"

definition send_block :: "client_env \<Rightarrow> nat \<Rightarrow> nat \<Rightarrow> block_ref on_client" where
  "send_block env ttl index =
     bindm (plan_now env) (\<lambda>pl.
     let start = index * nat (up_block_bytes pl); len = min (nat (up_block_bytes pl)) (ttl - start) in
     bindm (block_bytes env start len [] len) (\<lambda>bytes.
     bindm (call env (ce_AllocateBlocks env) (Allocate_Req (up_operation pl) (up_fence pl)
       [\<lparr>br_file = up_file pl, br_version = [], br_index = int index, br_size = int len, br_sha = sha256 (ce_lib env) bytes\<rparr>]) 2) (\<lambda>answer.
     bindm (liftm (head_of (bp_blocks answer))) (\<lambda>allocation.
     bindm (liftm (head_of (pb_grants allocation))) (\<lambda>grant.
     let req = Put_Block_Req (up_operation pl) (pb_block allocation) (up_fence pl) (bg_capability grant) in
     bindm (prepare env req []) (\<lambda>cx.
     let head = \<lparr>pu_cx = cx, pu_operation = up_operation pl, pu_block = pb_block allocation, pu_fence = up_fence pl,
                 pu_capability = bg_capability grant, pu_dict = ce_dict env req\<rparr> in
     bindm (liftm (head_of (pb_locations allocation))) (\<lambda>loc.
     bindm (put_tries env loc head start len 2) (\<lambda>receipt.
     bindm (needm (dr_block receipt = pb_block allocation \<and> dr_operation receipt = or_id (up_operation pl)) CHECKSUM_MISMATCH) (\<lambda>_.
     bindm (record_traffic (dr_node receipt) True (int len)) (\<lambda>_.
     retm (pb_block allocation)))))))))))"

definition stage_page :: "client_env \<Rightarrow> nat \<Rightarrow> block_ref list \<Rightarrow> page_receipt on_client" where
  "stage_page env page_index page =
     bindm (plan_now env) (\<lambda>pl.
     call env (ce_StageManifestPage env) (Stage_Req (up_operation pl) (up_fence pl) (int page_index) page (manifest_hash (ce_lib env) page)) 2)"

text \<open>The loop over the blocks: all blocks so far, those of the open page, and the number of pages staged.\<close>

fun send_blocks :: "client_env \<Rightarrow> nat \<Rightarrow> nat \<Rightarrow> nat list \<Rightarrow> block_ref list \<times> block_ref list \<times> nat \<Rightarrow> (block_ref list \<times> nat) on_client" where
  "send_blocks env ttl num [] (blks, page, page_index) = retm (blks, page_index)"
| "send_blocks env ttl num (index # rest) (blks, page, page_index) =
     bindm (send_block env ttl index) (\<lambda>b.
     let page = page @ [b] in
     if length page = 64 \<or> index = num - 1
     then bindm (stage_page env page_index page) (\<lambda>_. send_blocks env ttl num rest (blks @ [b], [], Suc page_index))
     else send_blocks env ttl num rest (blks @ [b], page, page_index))"

text \<open>The commit, and what a lost answer means: only a commit that is known counts.\<close>

definition commit_upload :: "client_env \<Rightarrow> upload_plan \<Rightarrow> req_ctx \<Rightarrow> client_request \<Rightarrow> commit_result on_client" where
  "commit_upload env pl cx req =
     catchm (call_tries env (ce_CommitUpload env) cx req 2) (\<lambda>e.
       if \<not> lost_answer e then raisem e
       else
         bindm (catchm (operation_of env (or_id (up_operation pl)) []) (\<lambda>e.
           raisem (if is_rpc e then Fault OUTCOME_UNKNOWN else e))) (\<lambda>status.
         if os_state status = COMMITTED then retm (result_of status) else raisem (Fault OUTCOME_UNKNOWN)))"

definition send_body :: "client_env \<Rightarrow> source \<Rightarrow> commit_result on_client" where
  "send_body env opened =
     (let ttl = length (so_data opened) in
      bindm (plan_now env) (\<lambda>pl.
      if up_block_bytes pl = 0 then raisem ZeroDivisionError
      else
        let num = (ttl + nat (up_block_bytes pl) - 1) div nat (up_block_bytes pl) in
        bindm (send_blocks env ttl num [0..<num] ([], [], 0)) (\<lambda>(blks, pages).
        bindm (bindm (read_source env 0 0) (\<lambda>_. getm ct_source)) (\<lambda>now.
        bindm (needm (length (so_data now) = ttl \<and> so_mtime now = so_mtime opened) CHECKSUM_MISMATCH) (\<lambda>_.
        bindm (plan_now env) (\<lambda>pl.
        bindm (call env (ce_SealManifest env) (Seal_Req (up_operation pl) (up_fence pl) (int pages) (int (length blks)) (int ttl)
                 (manifest_hash (ce_lib env) blks)) 2) (\<lambda>seal.
        bindm (plan_now env) (\<lambda>pl.
        let req = Commit_Upload_Req (up_operation pl) seal (up_fence pl) in
        bindm (prepare env req []) (\<lambda>cx.
        bindm (if up_minimum pl > 1 then wait_durable env (or_id (up_operation pl)) else retm ()) (\<lambda>_.
        bindm (modm (\<lambda>s. s\<lparr>ct_last_commit := Some (cx, req)\<rparr>)) (\<lambda>_.
        commit_upload env pl cx req)))))))))))"

text \<open>Any failure gives the upload up, unless its outcome is unknown; a failure to give it up is ignored.\<close>

definition give_up :: "client_env \<Rightarrow> exn \<Rightarrow> 'a on_client" where
  "give_up env e =
     (if e = Fault OUTCOME_UNKNOWN \<or> e = OutOfFuel then raisem e
      else
        bindm (plan_now env) (\<lambda>pl.
        bindm (trym (call env (ce_AbortUpload env) (Operation_Req (up_operation pl)) 0)) (\<lambda>_. raisem e)))"

definition expected_snapshot :: "client_env \<Rightarrow> string \<Rightarrow> bool \<Rightarrow> snapshot_ref on_client" where
  "expected_snapshot env remote overwrite =
     (if overwrite
      then catchm (bindm (stat env remote) (\<lambda>e. retm (case en_snapshot e of None \<Rightarrow> no_snapshot | Some r \<Rightarrow> r))) (\<lambda>e.
             case e of RpcError r \<Rightarrow> if fault_code r = SC_NOT_FOUND then retm no_snapshot else raisem e | _ \<Rightarrow> raisem e)
      else retm no_snapshot)"

definition send :: "client_env \<Rightarrow> string \<Rightarrow> bool \<Rightarrow> commit_result on_client" where
  "send env remote overwrite =
     bindm (getm ct_source) (\<lambda>opened.
     bindm (hash_source env [] (ce_patience env)) (\<lambda>whole.
     bindm (expected_snapshot env remote overwrite) (\<lambda>expected.
     bindm (path_here remote) (\<lambda>p.
     bindm (call env (ce_BeginUpload env) (Begin_Upload_Req \<lparr>bu_path = p, bu_total = int (length (so_data opened)),
              bu_sha = sha256 (ce_lib env) whole, bu_overwrite = overwrite, bu_expected = expected\<rparr>) 2) (\<lambda>pl.
     bindm (modm (\<lambda>s. s\<lparr>ct_plan := pl\<rparr>)) (\<lambda>_.
     catchm (keepalive env (send_body env opened)) (give_up env)))))))"

end
