(* ===== verification/Client_Samples.thy ===== *)
theory Client_Samples
  imports Client_Upload Samples
begin

text \<open>A logged-in client and surroundings to run it in, for the concrete runs of the properties.\<close>

abbreviation unreachable :: "'a answering" where
  "unreachable \<equiv> \<lambda>_ _ _. Inl (RpcError SERVICE_UNAVAILABLE)"

definition sample_client_env :: client_env where
  "sample_client_env = \<lparr>ce_lib = sample_app, ce_failover = False, ce_patience = 4, ce_dict = (\<lambda>_. JNull),
     ce_intent_context = (\<lambda>_. sample_cx), ce_uid = (\<lambda>_. ''u''), ce_mono = (\<lambda>_. 0), ce_handle_renewed = (\<lambda>_ h. h),
     ce_plan_renewed = (\<lambda>_ p. p), ce_renewal_failure = (\<lambda>_. None), ce_others_files = (\<lambda>_ f. f), ce_others_source = (\<lambda>_ f. f),
     ce_Stat = unreachable, ce_List = unreachable, ce_Mkdir = unreachable, ce_Rmdir = unreachable, ce_Remove = unreachable,
     ce_GetAcl = unreachable, ce_SetAcl = unreachable, ce_Open = unreachable, ce_RenewHandle = unreachable, ce_Close = unreachable,
     ce_Lock = unreachable, ce_RenewLock = unreachable, ce_Unlock = unreachable, ce_GetOperation = unreachable,
     ce_BeginRead = unreachable, ce_EndRead = unreachable, ce_ResolveBlocks = unreachable, ce_BeginUpload = unreachable,
     ce_AllocateBlocks = unreachable, ce_StageManifestPage = unreachable, ce_SealManifest = unreachable, ce_CommitUpload = unreachable,
     ce_AbortUpload = unreachable, ce_BeginWrite = unreachable, ce_CommitWrite = unreachable, ce_AbortWrite = unreachable,
     ce_GetProtection = unreachable, ce_GetBlock = (\<lambda>_ _ _ _. ([], Some (RpcError SERVICE_UNAVAILABLE))),
     ce_PutBlock = (\<lambda>_ _ _. Inl (RpcError SERVICE_UNAVAILABLE)), ce_PatchBlock = (\<lambda>_ _ _ _. Inl (RpcError SERVICE_UNAVAILABLE))\<rparr>"

lemma sample_client_env_simps [simp]:
  "ce_lib sample_client_env = sample_app" "ce_patience sample_client_env = 4" "ce_uid sample_client_env = (\<lambda>_. ''u'')"
  "ce_mono sample_client_env = (\<lambda>_. 0)" "ce_handle_renewed sample_client_env = (\<lambda>_ h. h)" "ce_plan_renewed sample_client_env = (\<lambda>_ p. p)"
  "ce_renewal_failure sample_client_env = (\<lambda>_. None)" "ce_others_files sample_client_env = (\<lambda>_ f. f)"
  "ce_others_source sample_client_env = (\<lambda>_ f. f)" "ce_GetOperation sample_client_env = unreachable"
  "ce_AbortWrite sample_client_env = unreachable" "ce_AbortUpload sample_client_env = unreachable" "ce_dict sample_client_env = (\<lambda>_. JNull)"
  "\<not> ce_failover sample_client_env"
  by (simp_all add: sample_client_env_def)

definition sample_handle :: handle_msg where
  "sample_handle = \<lparr>hm_id = ''h'', hm_snapshot = no_snapshot, hm_mode = MODE_R_PLUS, hm_expires = 5000, hm_revision = 1\<rparr>"

definition sample_upload_plan :: upload_plan where
  "sample_upload_plan = \<lparr>up_operation = no_operation, up_file = ''f'', up_epoch = 1, up_fence = no_fence, up_block_bytes = 4194304,
     up_expires = 5000, up_minimum = 1\<rparr>"

definition sample_client :: client where
  "sample_client = \<lparr>ct_session = Some \<lparr>sm_id = ''s'', sm_user = ''u'', sm_token = ''token'', sm_expires = 9000, sm_epoch = ''epoch''\<rparr>,
     ct_cwd = ''/'', ct_cwd_id = ''root'', ct_last_commit = None, ct_last_operation = None, ct_traffic = [], ct_handle = sample_handle,
     ct_plan = sample_upload_plan, ct_source = \<lparr>so_data = [], so_mtime = 0\<rparr>, ct_files = (\<lambda>_. None), ct_sent = [], ct_tick = 0\<rparr>"

lemma sample_client_simps [simp]:
  "ct_session sample_client = Some \<lparr>sm_id = ''s'', sm_user = ''u'', sm_token = ''token'', sm_expires = 9000, sm_epoch = ''epoch''\<rparr>"
  "ct_handle sample_client = sample_handle" "ct_plan sample_client = sample_upload_plan" "ct_source sample_client = \<lparr>so_data = [], so_mtime = 0\<rparr>"
  "ct_files sample_client = (\<lambda>_. None)" "ct_sent sample_client = []" "ct_tick sample_client = 0" "ct_traffic sample_client = []"
  "hm_snapshot sample_handle = no_snapshot" "hm_id sample_handle = ''h''" "hm_revision sample_handle = 1"
  "ct_cwd sample_client = ''/''" "ct_cwd_id sample_client = ''root''"
  by (simp_all add: sample_client_def sample_handle_def)

definition sample_write_plan :: write_plan where
  "sample_write_plan = \<lparr>wl_operation = no_operation, wl_blocks = [], wl_fences = [], wl_base = no_snapshot, wl_minimum = 1\<rparr>"

definition sample_result :: commit_result where
  "sample_result = \<lparr>cr_operation = no_operation, cr_state = COMMITTED, cr_snapshot = no_snapshot, cr_accepted = 1, cr_degraded = False,
     cr_target = 1, cr_minimum = 1\<rparr>"

lemma sample_write_simps [simp]:
  "wl_operation sample_write_plan = no_operation" "wl_blocks sample_write_plan = []" "wl_minimum sample_write_plan = 1"
  "wl_fences sample_write_plan = []" "cr_accepted sample_result = 1" "cr_snapshot sample_result = no_snapshot"
  by (simp_all add: sample_write_plan_def sample_result_def)

text \<open>A control node that answers every commit.\<close>

definition committing_env :: client_env where
  "committing_env = sample_client_env\<lparr>ce_CommitWrite := \<lambda>_ _ _. Inr sample_result, ce_CommitUpload := \<lambda>_ _ _. Inr sample_result\<rparr>"

lemma committing_env_simps [simp]:
  "ce_renewal_failure committing_env = (\<lambda>_. None)" "ce_lib committing_env = sample_app" "ce_patience committing_env = 4" "ce_uid committing_env = (\<lambda>_. ''u'')"
  "ce_handle_renewed committing_env = (\<lambda>_ h. h)" "ce_plan_renewed committing_env = (\<lambda>_ p. p)" "ce_dict committing_env = (\<lambda>_. JNull)"
  "ce_others_source committing_env = (\<lambda>_ f. f)" "ce_AbortUpload committing_env = unreachable"
  "ce_GetOperation committing_env = unreachable" "ce_AbortWrite committing_env = unreachable"
  "ce_CommitWrite committing_env = (\<lambda>_ _ _. Inr sample_result)" "ce_CommitUpload committing_env = (\<lambda>_ _ _. Inr sample_result)"
  by (simp_all add: committing_env_def)

lemmas client_eval = bindm_def reading_def handle_now_def plan_now_def prepare_def sending_def metadata_def call_def catchm_def trym_def
  finallym_def needm_def operation_of_def Let_def

text \<open>A cluster that serves a file of two bytes in one block.\<close>

definition served_block :: block_ref where
  "served_block = \<lparr>br_file = ''f'', br_version = ''v'', br_index = 0, br_size = 2, br_sha = ''ab''\<rparr>"

definition served_snapshot :: snapshot_ref where
  "served_snapshot = \<lparr>sr_file = ''f'', sr_content_epoch = 1, sr_file_version = 1, sr_root = ''r'', sr_size = 2,
     sr_manifest_sha = canonical (JArr [JStr ''v'']), sr_file_sha = Some ''ab'', sr_block_size = 4194304\<rparr>"

definition served_allocation :: planned_block where
  "served_allocation = \<lparr>pb_block = served_block,
     pb_locations = [\<lparr>bl_node = ''n'', bl_generation = 1, bl_client = ''host'', bl_private = ''host'', bl_domain = ''d''\<rparr>],
     pb_grants = [\<lparr>bg_capability = ''c'', bg_action = READ_DATA, bg_block = served_block, bg_node = ''n'', bg_offset = 0, bg_length = 2, bg_expires = 9000\<rparr>],
     pb_replacement = [], pb_patch = False, pb_delta_offset = 0, pb_block_offset = 0, pb_delta_length = 0, pb_reservation = None\<rparr>"

definition serving_env :: client_env where
  "serving_env = sample_client_env\<lparr>
     ce_ResolveBlocks := \<lambda>_ _ _. Inr \<lparr>bp_blocks = [served_allocation], bp_cursor = [], bp_snapshot = Some served_snapshot\<rparr>,
     ce_GetBlock := \<lambda>_ _ _ _. ([Header \<lparr>rh_block = served_block, rh_offset = 0, rh_length = 2, rh_sha = ''ab''\<rparr>,
       Chunk \<lparr>dc_offset = 0, dc_data = ''ab''\<rparr>], None)\<rparr>"

definition serving_client :: client where
  "serving_client = sample_client\<lparr>ct_handle := sample_handle\<lparr>hm_snapshot := served_snapshot\<rparr>\<rparr>"

lemma serving_simps [simp]:
  "ce_lib serving_env = sample_app" "ce_patience serving_env = 4" "ce_uid serving_env = (\<lambda>_. ''u'')" "ce_dict serving_env = (\<lambda>_. JNull)"
  "ce_handle_renewed serving_env = (\<lambda>_ h. h)" "ce_renewal_failure serving_env = (\<lambda>_. None)" "ce_others_files serving_env = (\<lambda>_ f. f)"
  "ce_ResolveBlocks serving_env = (\<lambda>_ _ _. Inr \<lparr>bp_blocks = [served_allocation], bp_cursor = [], bp_snapshot = Some served_snapshot\<rparr>)"
  "ce_GetBlock serving_env = (\<lambda>_ _ _ _. ([Header \<lparr>rh_block = served_block, rh_offset = 0, rh_length = 2, rh_sha = ''ab''\<rparr>,
       Chunk \<lparr>dc_offset = 0, dc_data = ''ab''\<rparr>], None))"
  "ct_files serving_client = (\<lambda>_. None)" "ct_tick serving_client = 0" "ct_sent serving_client = []" "ct_traffic serving_client = []"
  "ct_session serving_client = Some \<lparr>sm_id = ''s'', sm_user = ''u'', sm_token = ''token'', sm_expires = 9000, sm_epoch = ''epoch''\<rparr>"
  "hm_snapshot (ct_handle serving_client) = served_snapshot" "hm_id (ct_handle serving_client) = ''h''"
  "br_index served_block = 0" "br_size served_block = 2" "br_sha served_block = ''ab''" "br_version served_block = ''v''"
  "sr_size served_snapshot = 2" "sr_block_size served_snapshot = 4194304" "sr_file_sha served_snapshot = Some ''ab''"
  "sr_manifest_sha served_snapshot = canonical (JArr [JStr ''v''])" "pb_block served_allocation = served_block"
  "pb_locations served_allocation = [\<lparr>bl_node = ''n'', bl_generation = 1, bl_client = ''host'', bl_private = ''host'', bl_domain = ''d''\<rparr>]"
  "pb_grants served_allocation = [\<lparr>bg_capability = ''c'', bg_action = READ_DATA, bg_block = served_block, bg_node = ''n'', bg_offset = 0, bg_length = 2, bg_expires = 9000\<rparr>]"
  "block_dict sample_app b = JStr (br_version b)"
  by (simp_all add: serving_env_def serving_client_def served_block_def served_snapshot_def served_allocation_def sample_app_def)

lemma receive_pages_one:
  "receive_pages serving_env out cursor acc 4 =
     bindm (handle_now serving_env) (\<lambda>h.
     bindm (call serving_env (ce_ResolveBlocks serving_env) (Resolve_Req (hm_id h) (hm_snapshot h) 0 (sr_size (hm_snapshot h)) 64 cursor []) 2) (\<lambda>answer.
     bindm (handle_now serving_env) (\<lambda>h.
     bindm (needm (bp_snapshot answer = Some (hm_snapshot h)) CHECKSUM_MISMATCH) (\<lambda>_.
     bindm (receive_blocks serving_env out (bp_blocks answer) acc) (\<lambda>acc.
     if bp_cursor answer = [] then retm acc else receive_pages serving_env out (bp_cursor answer) acc 3)))))"
  using receive_pages.simps(2) [of serving_env out cursor acc 3] by simp

lemma call_twice: "call_tries env rpc cx req 2 = call_tries env rpc cx req (Suc (Suc 0))"
  by (simp add: numeral_2_eq_2)

lemmas served_tries = download_tries.simps [of serving_env "(''d'', ''.dfsha-u.part'')" served_allocation served_block "[]" 0 2]

text \<open>An empty upload that commits.\<close>

definition sample_seal :: page_receipt where
  "sample_seal = \<lparr>pr_page = ''p'', pr_sha = [], pr_revision = 1\<rparr>"

definition uploading_env :: client_env where
  "uploading_env = committing_env\<lparr>ce_BeginUpload := \<lambda>_ _ _. Inr sample_upload_plan, ce_SealManifest := \<lambda>_ _ _. Inr sample_seal\<rparr>"

lemma hash_source_first:
  "hash_source env acc 4 = bindm (read_source env (length acc) (nat CHUNK)) (\<lambda>chunk. if chunk = [] then retm acc else hash_source env (acc @ chunk) 3)"
  using hash_source.simps(2) [of env acc 3] by simp

text \<open>A hash of 32 bytes, and a handle on a file with blocks of 4 MiB.\<close>

definition hashing_env :: client_env where
  "hashing_env = sample_client_env\<lparr>ce_lib := sample_app\<lparr>sha256 := \<lambda>_. replicate 32 (CHR ''h'')\<rparr>\<rparr>"

definition block_handle :: handle_msg where
  "block_handle = sample_handle\<lparr>hm_snapshot := no_snapshot\<lparr>sr_block_size := 4194304\<rparr>\<rparr>"

text \<open>A name space with one empty file in the root, and a control node that lists it.\<close>

definition listing_root :: node_rec where
  "listing_root = \<lparr>n_id = dec_digits 2, n_name = [], n_parent = None, n_owner = ''u'', n_group = ''u'', n_mode = 493, n_acl = [], n_alive = True,
     n_directory = True, n_revision = 1, n_snapshot = None, n_block_size = 0\<rparr>"

definition listing_file :: node_rec where
  "listing_file = \<lparr>n_id = ''f'', n_name = ''a'', n_parent = Some (dec_digits 2), n_owner = ''u'', n_group = ''u'', n_mode = 420, n_acl = [], n_alive = True,
     n_directory = False, n_revision = 1, n_snapshot = None, n_block_size = 4194304\<rparr>"

definition listing_db :: db where
  "listing_db = empty_db\<lparr>nodes := tput ''f'' listing_file (tput (dec_digits 2) listing_root tempty)\<rparr>"

definition listing_env :: client_env where
  "listing_env = sample_client_env\<lparr>ce_List := \<lambda>_ _ req. case req of List_Req p limit cursor \<Rightarrow> List sample_app listing_db sample_user p limit cursor
     | _ \<Rightarrow> Inl (RpcError INVALID_ARGUMENT)\<rparr>"

lemma listing_db_simps:
  "tget (nodes listing_db) (dec_digits 2) = Some listing_root" "tall (nodes listing_db) = [listing_root, listing_file]"
proof -
  have two: "dec_digits 2 = ''2''" by code_simp
  show "tget (nodes listing_db) (dec_digits 2) = Some listing_root" by (simp add: listing_db_def two)
  have "tall (tput ''f'' v (tput ''2'' w tempty)) = [w, v]" for v w :: node_rec
    by transfer (simp add: less_char_def)
  then show "tall (nodes listing_db) = [listing_root, listing_file]" by (simp add: listing_db_def two)
qed

end
