(* ===== verification/Receiving.thy ===== *)
theory Receiving
  imports Client_Transfer
begin

text \<open>
  What a download leaves on the local disk. \<open>quiet_client\<close> is the interface between the calls of the
  client and what is proved about its files: a property of the state that the bookkeeping of calls does
  not change is kept by every call, whatever it answers. It extends \<open>calling_client\<close>, which speaks of bare calls, and is
  interpreted for the local files.
\<close>

section \<open>Calls keep everything but their bookkeeping\<close>

locale calling_client =
  fixes I :: "client \<Rightarrow> bool"
  assumes quiet_tick: "I s \<Longrightarrow> I (s\<lparr>ct_tick := Suc (ct_tick s)\<rparr>)"
    and quiet_sent: "I s \<Longrightarrow> I (s\<lparr>ct_sent := ct_sent s @ [c]\<rparr>)"
begin

lemma reading_keeps [keep]: "keeps I (reading f)"
  by (auto simp: valid_def reading_def intro: quiet_tick)

lemma sending_keeps [keep]: "keeps I metadata" "keeps I (prepare env req i)" "keeps I (sending rpc cx req)"
  unfolding metadata_def prepare_def sending_def
  by (intro keep keeps_modm quiet_sent; assumption)+

lemma call_tries_keeps [keep]: "keeps I (call_tries env rpc cx req retries)"
  by (induction retries) (auto intro!: keep)

lemma call_keeps [keep]: "keeps I (call env rpc req retries)"
  unfolding call_def by (intro keep)

lemma wait_durable_keeps [keep]: "keeps I (durable_pages env op cursor ready n)" "keeps I (durable_loop env op deadline k)" "keeps I (wait_durable env op)"
proof -
  show pages: "keeps I (durable_pages env op cursor ready n)" for cursor ready n
    by (induction n arbitrary: cursor ready) (auto simp only: durable_pages.simps Let_def intro!: keep)
  show loop: "keeps I (durable_loop env op deadline k)" for deadline k
    by (induction k) (auto simp only: durable_loop.simps intro!: keep pages)
  show "keeps I (wait_durable env op)"
    unfolding wait_durable_def by (intro keep loop)
qed

lemma keepalive_keeps [keep]: "keeps I body \<Longrightarrow> keeps I (keepalive env body)"
  unfolding keepalive_def by (intro keep)

end

text \<open>A property that does not speak of the handle, the plan and the records of the client either.\<close>

locale quiet_client = calling_client +
  assumes quiet_handle: "I s \<Longrightarrow> I (s\<lparr>ct_handle := h\<rparr>)"
    and quiet_plan: "I s \<Longrightarrow> I (s\<lparr>ct_plan := p\<rparr>)"
    and quiet_last: "I s \<Longrightarrow> I (s\<lparr>ct_last_commit := c'\<rparr>)" "I s \<Longrightarrow> I (s\<lparr>ct_last_operation := o'\<rparr>)"
    and quiet_traffic: "I s \<Longrightarrow> I (s\<lparr>ct_traffic := t\<rparr>)"
begin

lemma bookkeeping_keeps [keep]:
  "keeps I (handle_now env)" "keeps I (plan_now env)" "keeps I (record_traffic node_id writing amount)"
  unfolding handle_now_def plan_now_def record_traffic_def
  by (intro keep keeps_modm; auto simp: Let_def split: prod.splits intro: quiet_handle quiet_plan quiet_traffic)+

end

section \<open>The file being written\<close>

definition out_is :: "string \<times> string \<Rightarrow> local_files \<Rightarrow> string \<Rightarrow> client \<Rightarrow> bool" where
  "out_is out files bytes s \<longleftrightarrow> ct_files s = files(out := Some bytes)"

definition out_from :: "string \<times> string \<Rightarrow> local_files \<Rightarrow> string \<Rightarrow> client \<Rightarrow> bool" where
  "out_from out files bytes s \<longleftrightarrow> (\<exists>rest. ct_files s = files(out := Some (bytes @ rest)))"

lemma out_is_from: "out_is out files bytes s \<Longrightarrow> out_from out files bytes s"
  by (auto simp: out_is_def out_from_def intro: exI [of _ "[]"])

lemma out_from_append: "out_is out files (bytes @ rest) s \<Longrightarrow> out_from out files bytes s"
  by (auto simp: out_is_def out_from_def)

lemma out_from_start: "out_from out files bytes s \<Longrightarrow> out_from out files [] s"
  by (auto simp: out_from_def)

interpretation on_out: quiet_client "out_is out files bytes" for out files bytes
  by standard (simp_all add: out_is_def)

lemmas quiet_out = on_out.bookkeeping_keeps(1) on_out.sending_keeps(1) on_out.sending_keeps(2) on_out.call_keeps on_out.reading_keeps
  on_out.bookkeeping_keeps(3)

text \<open>A step that keeps what is known, and a check, before the rest of an action.\<close>

lemma valid_then:
  "keeps P m \<Longrightarrow> (\<And>e s. P s \<Longrightarrow> E e s) \<Longrightarrow> (\<And>x. valid P (f x) Q E) \<Longrightarrow> valid P (bindm m f) Q E"
  unfolding valid_def bindm_eq_Inr bindm_eq_Inl by blast

lemma keeps_conj: "keeps I m \<Longrightarrow> keeps (\<lambda>s. I s \<and> c) m"
  unfolding valid_def by blast

lemma valid_guard:
  "(c \<Longrightarrow> valid P m Q E) \<Longrightarrow> (\<And>s. P s \<Longrightarrow> E (Fault r) s) \<Longrightarrow> valid P (bindm (needm c r) (\<lambda>_. m)) Q E"
  by (cases c) (simp_all add: valid_def bindm_def)

lemma write_out_is:
  "valid (out_is out files bytes) (write_out out more_bytes) (\<lambda>_. out_is out files (bytes @ more_bytes)) E"
  unfolding write_out_def by (rule valid_modm) (simp add: out_is_def)

lemma truncate_out_is:
  "valid (out_from out files bytes) (truncate_out out (length bytes)) (\<lambda>_. out_is out files bytes) E"
  unfolding truncate_out_def by (rule valid_modm) (auto simp: out_is_def out_from_def)

lemma block_chunks_out:
  "valid (out_is out files (pre @ got)) (block_chunks out block got frames ending)
     (\<lambda>all. out_is out files (pre @ all)) (\<lambda>_. out_from out files pre)"
proof (induction out block got frames ending rule: block_chunks.induct)
  case (2 out block got c frames ending)
  show ?case
    unfolding block_chunks.simps
    by (rule valid_guard, rule valid_bindm [OF write_out_is]) (use 2 in \<open>auto intro: out_from_append\<close>)
qed (auto simp: valid_def intro: out_from_append split: option.splits)

definition arrived :: "client_env \<Rightarrow> block_ref \<Rightarrow> string \<Rightarrow> bool" where
  "arrived env block got \<longleftrightarrow> int (length got) = br_size block \<and> sha256 (ce_lib env) got = br_sha block"

lemma read_block_out:
  "valid (out_is out files pre) (read_block env out h block loc cx req)
     (\<lambda>got s. out_is out files (pre @ got) s \<and> arrived env block got) (\<lambda>_. out_from out files pre)"
proof -
  have "valid (out_is out files pre) (block_chunks out block [] fs ending) (\<lambda>all. out_is out files (pre @ all)) (\<lambda>_. out_from out files pre)" for fs ending
    using block_chunks_out [of out files pre "[]"] by simp
  then show ?thesis
    unfolding read_block_def
    by (auto intro!: valid_then [OF quiet_out(2)] valid_then [OF quiet_out(5)] valid_then [OF keeps_rules(3)] valid_guard
        valid_then [OF quiet_out(6)] valid_bindm [of _ "block_chunks out block [] fs ending" for fs ending] valid_retm
        intro: out_is_from out_from_append simp: arrived_def split: prod.splits)
qed

lemma valid_trym:
  "valid P m Q E \<Longrightarrow> valid P (trym m) (\<lambda>r s. case r of Inr x \<Rightarrow> Q x s | Inl e \<Rightarrow> E e s) E'"
  by (auto simp: valid_def trym_def catchm_def bindm_def split: prod.splits sum.splits)

lemma valid_false: "(\<And>s. P s \<Longrightarrow> False) \<Longrightarrow> valid P m Q E"
  by (auto simp: valid_def)

lemma download_tries_out:
  "valid (out_is out files pre) (download_tries env out allocation block failed (length pre) left)
     (\<lambda>got s. out_is out files (pre @ got) s \<and> arrived env block got) (\<lambda>_. out_from out files pre)"
proof (induction left arbitrary: allocation failed block)
  case 0
  show ?case
    by (subst download_tries.simps) (auto intro!: valid_raisem valid_then [OF quiet_out(1)] valid_then [OF quiet_out(3)]
        valid_bindm [OF valid_trym [OF read_block_out]] valid_retm intro: out_is_from simp: Let_def split: list.split sum.splits)
next
  case (Suc left)
  show ?case
    by (subst download_tries.simps) (auto intro!: valid_raisem valid_then [OF quiet_out(1)] valid_then [OF quiet_out(3)] valid_then [OF quiet_out(4)] valid_guard
        valid_bindm [OF valid_trym [OF read_block_out]] valid_bindm [OF truncate_out_is] valid_retm Suc.IH
        simp: Let_def split: list.split sum.splits; blast intro: out_is_from Suc.IH)
qed

lemma download_block_out:
  "valid (out_is out files pre) (download_block env out allocation)
     (\<lambda>got s. out_is out files (pre @ got) s \<and> arrived env (pb_block allocation) got) (\<lambda>_. out_from out files pre)"
proof -
  have "valid (out_is out files pre) (tell_out out) (\<lambda>n s. out_is out files pre s \<and> n = length pre) E" for E
    unfolding tell_out_def by (rule valid_getm) (simp add: out_is_def)
  moreover have "valid (\<lambda>s. out_is out files pre s \<and> n = length pre) (download_tries env out allocation (pb_block allocation) [] n 2)
     (\<lambda>got s. out_is out files (pre @ got) s \<and> arrived env (pb_block allocation) got) (\<lambda>_. out_from out files pre)" for n
    using download_tries_out [of out files pre env allocation "pb_block allocation" "[]" 2]
    by (cases "n = length pre") (auto intro: valid_false)
  ultimately show ?thesis unfolding download_block_def by (rule valid_bindm)
qed

text \<open>The blocks, in order from index 0, and the bytes of each.\<close>

definition assembled :: "client_env \<Rightarrow> block_ref list \<Rightarrow> string \<Rightarrow> bool" where
  "assembled env blks bytes \<longleftrightarrow> map br_index blks = map int [0..<length blks] \<and>
     (\<exists>parts. bytes = concat parts \<and> list_all2 (arrived env) blks parts)"

lemma assembled_snoc:
  "assembled env blks bytes \<Longrightarrow> br_index b = int (length blks) \<Longrightarrow> arrived env b got \<Longrightarrow> assembled env (blks @ [b]) (bytes @ got)"
  unfolding assembled_def
  by (elim conjE exE) (rule conjI, simp, rule_tac x = "parts @ [got]" in exI, simp add: list_all2_appendI)

lemma receive_blocks_out:
  "valid (\<lambda>s. out_is out files (snd acc) s \<and> assembled env (fst acc) (snd acc)) (receive_blocks env out allocations acc)
     (\<lambda>(blks, bytes) s. out_is out files bytes s \<and> assembled env blks bytes) (\<lambda>_. out_from out files [])"
proof (induction allocations arbitrary: acc)
  case (Cons a allocations)
  obtain blks bytes where acc: "acc = (blks, bytes)" by fastforce
  have step: "valid (\<lambda>s. out_is out files bytes s \<and> assembled env blks bytes) (download_block env out a)
      (\<lambda>got s. out_is out files (bytes @ got) s \<and> assembled env (blks @ [pb_block a]) (bytes @ got)) (\<lambda>_. out_from out files [])"
    if "br_index (pb_block a) = int (length blks)"
    using download_block_out [of out files bytes env a] that
    by (auto simp: valid_def intro: assembled_snoc) (blast intro: out_from_start)
  have rest: "valid (\<lambda>s. out_is out files (bytes @ got) s \<and> assembled env (blks @ [pb_block a]) (bytes @ got))
      (receive_blocks env out allocations (blks @ [pb_block a], bytes @ got))
      (\<lambda>(blks, bytes) s. out_is out files bytes s \<and> assembled env blks bytes) (\<lambda>_. out_from out files [])" for got
    using Cons.IH [of "(blks @ [pb_block a], bytes @ got)"] by simp
  show ?case
    unfolding acc receive_blocks.simps fst_conv snd_conv
    by (rule valid_guard, rule valid_bindm [OF step rest], assumption) (auto intro: out_from_start out_is_from)
next
  case Nil
  show ?case by (cases acc) (auto simp: valid_def)
qed

lemma receive_pages_out:
  "valid (\<lambda>s. out_is out files (snd acc) s \<and> assembled env (fst acc) (snd acc)) (receive_pages env out cursor acc fuel)
     (\<lambda>(blks, bytes) s. out_is out files bytes s \<and> assembled env blks bytes) (\<lambda>_. out_from out files [])"
proof (induction fuel arbitrary: cursor acc)
  case (Suc fuel)
  have quiet: "keeps (\<lambda>s. out_is out files (snd acc) s \<and> assembled env (fst acc) (snd acc)) (handle_now env)"
    "keeps (\<lambda>s. out_is out files (snd acc) s \<and> assembled env (fst acc) (snd acc)) (call env rpc req n)" for rpc :: "block_plan answering" and req n
    by (rule keeps_conj, rule quiet_out)+
  have weak: "out_from out files [] s" if "out_is out files (snd acc) s \<and> assembled env (fst acc) (snd acc)" for s
    using that by (auto intro: out_from_start out_is_from)
  have rest: "valid ((\<lambda>(blks, bytes) s. out_is out files bytes s \<and> assembled env blks bytes) acc)
      (if done' then retm acc else receive_pages env out cur acc fuel)
      (\<lambda>(blks, bytes) s. out_is out files bytes s \<and> assembled env blks bytes) (\<lambda>_. out_from out files [])" for acc done' cur
    using Suc.IH [of acc cur] by (cases acc; cases done') (simp_all only: if_True if_False prod.case fst_conv snd_conv, rule valid_retm, simp)
  have tail: "valid (\<lambda>s. out_is out files (snd acc) s \<and> assembled env (fst acc) (snd acc))
      (bindm (receive_blocks env out (bp_blocks plan) acc) (\<lambda>acc. if bp_cursor plan = [] then retm acc else receive_pages env out (bp_cursor plan) acc fuel))
      (\<lambda>(blks, bytes) s. out_is out files bytes s \<and> assembled env blks bytes) (\<lambda>_. out_from out files [])" for plan
    by (rule valid_bindm [OF receive_blocks_out]) (rule rest)
  show ?case
    unfolding receive_pages.simps
    by (rule valid_then [OF quiet(1)], erule weak, rule valid_then [OF quiet(2)], erule weak, rule valid_then [OF quiet(1)], erule weak,
        rule valid_guard, rule tail, erule weak)
qed (auto simp: valid_def intro: out_from_start out_is_from)

section \<open>A download\<close>

definition downloaded :: "client_env \<Rightarrow> snapshot_ref \<Rightarrow> string \<Rightarrow> bool" where
  "downloaded env snap bytes \<longleftrightarrow> (\<exists>blks. assembled env blks bytes \<and> content_ok env snap blks bytes)"

lemma fetch_out_out:
  "valid (\<lambda>s. ct_files s = files) (fetch_out env out)
     (\<lambda>bytes s. out_is out files bytes s \<and> downloaded env (hm_snapshot (ct_handle s)) bytes)
     (\<lambda>_ s. \<exists>v. ct_files s = files(out := v))"
proof -
  have create: "valid (\<lambda>s. ct_files s = files) (create_out out) (\<lambda>_. out_is out files []) (\<lambda>_ s. \<exists>v. ct_files s = files(out := v))"
    by (auto simp: create_out_def valid_def bindm_def out_is_def split: option.splits) (metis fun_upd_triv)
  have pages: "valid (out_is out files []) (receive_pages env out [] ([], []) fuel)
      (\<lambda>(blks, bytes) s. out_is out files bytes s \<and> assembled env blks bytes) (\<lambda>_ s. \<exists>v. ct_files s = files(out := v))" for fuel
    using receive_pages_out [of out files "([], [])" env "[]" fuel]
    by (auto simp: valid_def assembled_def out_from_def) blast
  have handle: "valid (\<lambda>s. out_is out files bytes s \<and> assembled env blks bytes) (handle_now env)
      (\<lambda>h s. out_is out files bytes s \<and> assembled env blks bytes \<and> h = ct_handle s) E" for blks bytes E
    by (auto simp: handle_now_def valid_def bindm_def reading_def out_is_def)
  show ?thesis
    unfolding fetch_out_def
    by (rule valid_bindm [OF create], rule valid_bindm [OF pages], clarsimp, rule valid_bindm [OF handle], rule valid_guard)
       (auto intro!: valid_retm simp: downloaded_def out_is_def)
qed

lemma receive_handle_run:
  assumes "receive_handle env target overwrite s = (r, s')"
    and "\<And>i files u. ce_others_files env i files (temporary target u) = files (temporary target u)"
    and "\<And>i. target \<noteq> temporary target (ce_uid env i)"
  shows "case r of
     Inr (n, sha) \<Rightarrow> \<exists>bytes. ct_files s' target = Some bytes \<and> n = int (length bytes) \<and> sha = hex (sha256 (ce_lib env) bytes) \<and>
       downloaded env (hm_snapshot (ct_handle s')) bytes \<and> (overwrite \<or> ct_files s target = None)
   | Inl e \<Rightarrow> ct_files s' target = ct_files s target \<or>
       (\<exists>i files. files target = ct_files s target \<and> ct_files s' target = ce_others_files env i files target)"
proof (cases "ct_files s target = None \<or> overwrite")
  case False
  with assms(1) show ?thesis by (auto simp: receive_handle_def bindm_def)
next
  case True
  define u where "u = ce_uid env (ct_tick s)"
  define t where "t = s\<lparr>ct_tick := Suc (ct_tick s)\<rparr>"
  have out: "target \<noteq> temporary target u" unfolding u_def by (rule assms(3))
  obtain q t1 where fetch: "fetch_out env (temporary target u) t = (q, t1)" by fastforce
  have t: "ct_files t = ct_files s" by (simp add: t_def)
  show ?thesis
  proof (cases q)
    case (Inl e)
    from validD(2) [OF fetch_out_out t fetch [unfolded Inl]] obtain v where "ct_files t1 = (ct_files s)(temporary target u := v)" by blast
    then show ?thesis
      using assms(1) True Inl fetch out
      by (auto simp: receive_handle_def bindm_def reading_def keepalive_def finallym_def unlink_out_def u_def t_def Let_def)
  next
    case (Inr bytes)
    from validD(1) [OF fetch_out_out t fetch [unfolded Inr]]
    have got: "ct_files t1 = (ct_files s)(temporary target u := Some bytes)" "downloaded env (hm_snapshot (ct_handle t1)) bytes"
      by (auto simp: out_is_def)
    define files where "files = ce_others_files env (Suc (ct_tick t1)) ((ct_files s)(temporary target u := Some bytes))"
    have files: "files (temporary target u) = Some bytes" unfolding files_def by (simp add: assms(2))
    have before: "\<exists>i fs. fs target = ct_files s target \<and> files target = ce_others_files env i fs target"
      unfolding files_def using out by (intro exI [of _ "Suc (ct_tick t1)"] exI [of _ "(ct_files s)(temporary target u := Some bytes)"]) auto
    show ?thesis
      using assms(1) True Inr fetch out got files before
      by (auto simp: receive_handle_def bindm_def reading_def keepalive_def finallym_def unlink_out_def u_def t_def Let_def
          other_programs_def publish_out_def files_def split: option.splits if_splits) metis
  qed
qed

end
