(* ===== verification/Client_Properties.thy ===== *)
theory Client_Properties
  imports Client_Samples Receiving
begin

text \<open>
  Properties of the client library: what a write reports, what an upload reports.
\<close>

section \<open>Calls that were answered\<close>

definition later :: "client \<Rightarrow> client \<Rightarrow> bool" where
  "later s t \<longleftrightarrow> ct_tick s \<le> ct_tick t \<and> (\<exists>calls. ct_sent t = ct_sent s @ calls)"

interpretation on_later: quiet_client "later s" for s
  by standard (auto simp: later_def)

context quiet_client
begin

lemma transfer_keeps [keep]: "keeps I (transfer_tries rpc n)"
  by (induction n) (auto intro!: keep split: exn.split)

lemma blocks_keep [keep]: "keeps I (patch_header_of env pl a piece f cap)" "keeps I (prepare_block env pl bytes a)" "keeps I (prepare_blocks env pl bytes as)"
  "keeps I (operation_of env i j)"
proof -
  show head: "keeps I (patch_header_of env pl a piece f cap)" for a piece f cap
    unfolding patch_header_of_def Let_def by (intro keep)
  show block: "keeps I (prepare_block env pl bytes a)" for a
    unfolding prepare_block_def Let_def by (intro keep head)
  show "keeps I (prepare_blocks env pl bytes as)"
    by (induction as) (auto simp only: prepare_blocks.simps intro!: keep block)
  show "keeps I (operation_of env i j)"
    unfolding operation_of_def by (intro keep)
qed

end

text \<open>A call that was sent between two states and answered with \<open>x\<close>.\<close>

definition answered :: "'a answering \<Rightarrow> client_request \<Rightarrow> 'a \<Rightarrow> client \<Rightarrow> client \<Rightarrow> bool" where
  "answered rpc req x s t \<longleftrightarrow>
     (\<exists>i cx. ct_tick s \<le> i \<and> i < ct_tick t \<and> rpc i cx req = Inr x \<and> (cx, req) \<in> set (drop (length (ct_sent s)) (ct_sent t)))"

lemma later_refl [simp]: "later s s"
  by (simp add: later_def)

lemma answered_later:
  "later s t \<Longrightarrow> answered rpc req x t u \<Longrightarrow> answered rpc req x s u"
  unfolding later_def answered_def
  by (elim conjE exE) (metis le_add1 le_trans length_append set_drop_subset_set_drop subsetD)

lemma answered_before:
  "answered rpc req x s t \<Longrightarrow> later t u \<Longrightarrow> answered rpc req x s u"
  by (fastforce simp: later_def answered_def)

lemma sending_answered:
  assumes "sending rpc cx req s = (Inr x, t)"
  shows "answered rpc req x s t"
  using assms by (auto simp: sending_def answered_def bindm_eq_Inr metadata_def reading_def split: option.splits)

lemma call_tries_answered: "call_tries env rpc cx req n s = (Inr x, t) \<Longrightarrow> answered rpc req x s t"
proof (induction n arbitrary: s)
  case (Suc n)
  show ?case
  proof (cases "sending rpc cx req s")
    case (Pair q u)
    have "later s u" using keepsD [OF on_later.sending_keeps(3) later_refl Pair] .
    with Suc Pair show ?thesis
      by (cases q) (auto simp: catchm_def split: if_splits intro: answered_later sending_answered)
  qed
qed (simp add: sending_answered)

lemma call_answered:
  assumes "call env rpc req n s = (Inr x, t)"
  shows "answered rpc req x s t"
proof -
  from assms obtain cx u where p: "prepare env req [] s = (Inr cx, u)" and c: "call_tries env rpc cx req n u = (Inr x, t)"
    by (auto simp: call_def bindm_eq_Inr)
  from answered_later [OF keepsD [OF on_later.sending_keeps(2) later_refl p] call_tries_answered [OF c]] show ?thesis .
qed

text \<open>A logged-in client whose calls fail as gRPC calls do: with an \<^verbatim>\<open>RpcError\<close>.\<close>

definition running :: "client \<Rightarrow> client \<Rightarrow> bool" where
  "running s t \<longleftrightarrow> later s t \<and> ct_session t \<noteq> None"

interpretation on_running: quiet_client "running s" for s
  by standard (auto simp: running_def later_def)

lemma sending_error:
  "sending rpc cx req s = (Inl e, t) \<Longrightarrow> ct_session s \<noteq> None \<Longrightarrow> \<exists>i. rpc i cx req = Inl e"
  by (auto simp: sending_def bindm_eq_Inl metadata_def reading_def bindm_def split: option.splits)

lemma call_tries_error:
  "call_tries env rpc cx req n s = (Inl e, t) \<Longrightarrow> running s0 s \<Longrightarrow> \<exists>i. rpc i cx req = Inl e"
proof (induction n arbitrary: s)
  case (Suc n)
  show ?case
  proof (cases "sending rpc cx req s")
    case (Pair q u)
    have "running s0 u" using keepsD [OF on_running.sending_keeps(3) Suc.prems(2) Pair] .
    with Suc Pair show ?thesis
      by (cases q) (auto simp: catchm_def running_def split: if_splits dest: sending_error)
  qed
qed (auto simp: running_def dest: sending_error)

lemma call_error:
  assumes "call env rpc req n s = (Inl e, t)" "running s0 s" "\<And>i cx d. rpc i cx req = Inl d \<Longrightarrow> is_rpc d"
  shows "is_rpc e"
proof -
  have "ct_session s \<noteq> None" using assms(2) by (simp add: running_def)
  then obtain cx u where p: "prepare env req [] s = (Inr cx, u)" by (auto simp: prepare_def bindm_def reading_def split: option.splits)
  from keepsD [OF on_running.sending_keeps(2) assms(2) p] have "running s0 u" .
  moreover from assms(1) p have "call_tries env rpc cx req n u = (Inl e, t)" by (simp add: call_def bindm_def)
  ultimately show ?thesis using call_tries_error assms(3) by blast
qed

lemma call_valid:
  "(\<And>i cx d. rpc i cx req = Inl d \<Longrightarrow> is_rpc d) \<Longrightarrow>
   valid (running s) (call env rpc req n) (\<lambda>x t. running s t \<and> answered rpc req x s t) (\<lambda>e t. running s t \<and> is_rpc e)"
proof (unfold valid_def, intro conjI allI impI)
  fix u x t
  assume u: "running s u" and c: "call env rpc req n u = (Inr x, t)"
  show "running s t" by (rule keepsD [OF on_running.call_keeps u c])
  show "answered rpc req x s t" using u answered_later [OF _ call_answered [OF c]] by (simp add: running_def)
next
  fix u e t
  assume rpc: "\<And>i cx d. rpc i cx req = Inl d \<Longrightarrow> is_rpc d" and u: "running s u" and c: "call env rpc req n u = (Inl e, t)"
  show "running s t" by (rule keepsD [OF on_running.call_keeps u c])
  show "is_rpc e" by (rule call_error [OF c u rpc])
qed

section \<open>What a write reports\<close>

definition asked :: "write_plan \<Rightarrow> client_request" where
  "asked pl = Operation_Query (or_id (wl_operation pl)) []"

text \<open>The control node confirmed the commit with \<open>n\<close> bytes, in answer to the commit or to a question about the operation.\<close>

definition confirmed :: "client_env \<Rightarrow> write_plan \<Rightarrow> int \<Rightarrow> client \<Rightarrow> client \<Rightarrow> bool" where
  "confirmed env pl n s t \<longleftrightarrow>
     (\<exists>req r. answered (ce_CommitWrite env) (Commit_Write_Req req) r s t \<and> cw_operation req = wl_operation pl \<and> cr_accepted r = n) \<or>
     (\<exists>status. answered (ce_GetOperation env) (asked pl) status s t \<and> os_state status = COMMITTED \<and> cr_accepted (result_of status) = n)"

text \<open>The control node said that the operation is not and will not be committed.\<close>

definition abandoned :: "client_env \<Rightarrow> write_plan \<Rightarrow> client \<Rightarrow> client \<Rightarrow> bool" where
  "abandoned env pl s t \<longleftrightarrow>
     (\<exists>r. answered (ce_AbortWrite env) (Operation_Req (wl_operation pl)) r s t) \<or>
     (\<exists>status. answered (ce_GetOperation env) (asked pl) status s t \<and> os_state status \<notin> {COMMITTED, PREPARING})"

lemma answered_steps:
  "answered rpc req x s t \<Longrightarrow> answered rpc req x s (t\<lparr>ct_tick := Suc (ct_tick t)\<rparr>)"
  "answered rpc req x s t \<Longrightarrow> answered rpc req x s (t\<lparr>ct_sent := ct_sent t @ [c]\<rparr>)"
  "answered rpc req x s (t\<lparr>ct_handle := h\<rparr>) = answered rpc req x s t"
  "answered rpc req x s (t\<lparr>ct_plan := p\<rparr>) = answered rpc req x s t"
  "answered rpc req x s (t\<lparr>ct_last_commit := lc\<rparr>) = answered rpc req x s t"
  "answered rpc req x s (t\<lparr>ct_last_operation := lo\<rparr>) = answered rpc req x s t"
  "answered rpc req x s (t\<lparr>ct_traffic := tr\<rparr>) = answered rpc req x s t"
  by (simp_all add: answered_def) (blast intro: less_SucI, blast)

interpretation on_confirmed: quiet_client "confirmed env pl n s" for env pl n s
  by standard (unfold confirmed_def, (blast intro: answered_steps | simp add: answered_steps)+)

definition rpc_failures :: "client_env \<Rightarrow> bool" where
  "rpc_failures env \<longleftrightarrow> (\<forall>i cx req e. (ce_GetOperation env i cx req = Inl e \<longrightarrow> is_rpc e) \<and> (ce_AbortWrite env i cx req = Inl e \<longrightarrow> is_rpc e))"

lemma asks_valid:
  assumes "rpc_failures env"
  shows "valid (running s) (operation_of env (or_id (wl_operation pl)) [])
      (\<lambda>status t. running s t \<and> answered (ce_GetOperation env) (asked pl) status s t) (\<lambda>e t. running s t \<and> is_rpc e)"
  unfolding operation_of_def asked_def by (rule call_valid) (use assms in \<open>auto simp: rpc_failures_def\<close>)

lemma after_failure_valid:
  assumes "rpc_failures env"
  shows "valid (running s) (after_failure env pl e) (\<lambda>n. confirmed env pl n s)
     (\<lambda>d t. d = Fault OUTCOME_UNKNOWN \<or> abandoned env pl s t)"
proof -
  let ?R = "\<lambda>r t. case r of Inr n \<Rightarrow> confirmed env pl n s t | Inl d \<Rightarrow> abandoned env pl s t"
  let ?E = "\<lambda>d t. running s t \<and> is_rpc d"
  have aborts: "valid (running s) (call env (ce_AbortWrite env) (Operation_Req (wl_operation pl)) 0)
      (\<lambda>r t. running s t \<and> answered (ce_AbortWrite env) (Operation_Req (wl_operation pl)) r s t) ?E"
    by (rule call_valid) (use assms in \<open>auto simp: rpc_failures_def\<close>)
  let ?P = "\<lambda>status t. running s t \<and> answered (ce_GetOperation env) (asked pl) status s t"
  have committed: "valid (?P status) (bindm (modm (\<lambda>s. s\<lparr>ct_handle := (ct_handle s)\<lparr>hm_snapshot := cr_snapshot (result_of status)\<rparr>\<rparr>))
      (\<lambda>_. retm (Inr (cr_accepted (result_of status))))) ?R ?E" if "os_state status = COMMITTED" for status
    by (rule valid_bindm [OF valid_modm [where Q = "\<lambda>_. ?P status"]], simp add: running_def later_def answered_steps)
       (rule valid_retm, use that in \<open>auto simp: confirmed_def\<close>)
  have preparing: "valid (?P status) (bindm (call env (ce_AbortWrite env) (Operation_Req (wl_operation pl)) 0) (\<lambda>_. retm (Inl e))) ?R ?E" for status
    by (rule valid_bindm [where R = "\<lambda>r. answered (ce_AbortWrite env) (Operation_Req (wl_operation pl)) r s"], rule valid_weaken [OF aborts])
       (auto intro!: valid_retm simp: abandoned_def)
  have closed: "valid (?P status) (retm (Inl e)) ?R ?E" if "os_state status \<noteq> COMMITTED" "os_state status \<noteq> PREPARING" for status
    by (rule valid_retm) (use that in \<open>auto simp: abandoned_def\<close>)
  show ?thesis
    unfolding after_failure_def
    by (rule valid_bindm [where R = ?R], rule valid_catchm [of _ _ _ ?E], rule valid_bindm [OF asks_valid [OF assms]],
        use committed preparing closed in \<open>auto simp del: act_simps intro!: valid_raisem\<close>)
       (auto simp: valid_def split: sum.splits)
qed

lemma commit_result_valid:
  assumes "rpc_failures env" "cw_operation req = wl_operation pl"
  shows "valid (running s) (commit_result_of env pl cx (Commit_Write_Req req))
     (\<lambda>r t. running s t \<and> confirmed env pl (cr_accepted r) s t) (\<lambda>_. running s)"
proof -
  let ?Q = "\<lambda>r t. running s t \<and> confirmed env pl (cr_accepted r) s t"
  have commit: "valid (running s) (call_tries env (ce_CommitWrite env) cx (Commit_Write_Req req) 0) ?Q (\<lambda>_. running s)"
  proof (unfold valid_def, intro conjI allI impI)
    fix u x t
    assume u: "running s u" and c: "call_tries env (ce_CommitWrite env) cx (Commit_Write_Req req) 0 u = (Inr x, t)"
    show "running s t" by (rule keepsD [OF on_running.call_tries_keeps u c])
    show "confirmed env pl (cr_accepted x) s t"
      using u answered_later [OF _ call_tries_answered [OF c]] assms(2) by (auto simp: running_def confirmed_def)
  qed (rule keepsD [OF on_running.call_tries_keeps])
  have asks: "valid (running s) (catchm (operation_of env (or_id (wl_operation pl)) []) (\<lambda>e. raisem (if is_rpc e then Fault OUTCOME_UNKNOWN else e)))
      (\<lambda>status t. running s t \<and> answered (ce_GetOperation env) (asked pl) status s t) (\<lambda>_. running s)"
    by (rule valid_catchm [OF asks_valid [OF assms(1)]]) (auto intro!: valid_raisem)
  have known: "valid (\<lambda>t. running s t \<and> answered (ce_GetOperation env) (asked pl) status s t) (retm (result_of status)) ?Q E"
    if "os_state status = COMMITTED" for status E
    by (rule valid_retm) (use that in \<open>auto simp: confirmed_def\<close>)
  have again: "valid (\<lambda>t. running s t \<and> answered (ce_GetOperation env) (asked pl) status s t)
      (call_tries env (ce_CommitWrite env) cx (Commit_Write_Req req) 0) ?Q (\<lambda>_. running s)" for status
    by (rule valid_weaken [OF commit]) auto
  show ?thesis
    unfolding commit_result_of_def
    by (rule valid_catchm [OF commit]) (use valid_bindm [OF asks] known again in \<open>auto simp del: act_simps intro!: valid_raisem valid_bindm [OF asks]\<close>)
qed

lemma commit_write_valid:
  assumes "rpc_failures env"
  shows "valid (running s) (commit_write env pl changes) (\<lambda>r. confirmed env pl (cr_accepted r) s) (\<lambda>_. running s)"
proof -
  let ?Q = "\<lambda>r t. confirmed env pl (cr_accepted r) s t"
  have tail: "valid (\<lambda>t. running s t \<and> confirmed env pl (cr_accepted r) s t)
     (bindm (handle_now env) (\<lambda>_. bindm (modm (\<lambda>s. s\<lparr>ct_handle := (ct_handle s)\<lparr>hm_snapshot := cr_snapshot r, hm_revision := hm_revision (ct_handle s) + 1\<rparr>\<rparr>)) (\<lambda>_. retm r)))
     ?Q (\<lambda>_. running s)" for r
    by (rule valid_weaken [where P = "confirmed env pl (cr_accepted r) s" and E = "\<lambda>_. running s"])
       (auto intro!: valid_then [OF on_confirmed.bookkeeping_keeps(1)] simp: valid_def bindm_def handle_now_def reading_def confirmed_def answered_steps)
  show ?thesis
    unfolding commit_write_def Let_def
    by (rule valid_then [OF keeps_cases(1)], rule on_running.wait_durable_keeps, rule keeps_rules, assumption,
        rule valid_then [OF on_running.bookkeeping_keeps(1)], assumption,
        rule valid_then [OF on_running.sending_keeps(2)], assumption,
        rule valid_then [OF keeps_modm], erule on_running.quiet_last, assumption,
        rule valid_bindm [OF commit_result_valid [OF assms] tail], simp)
qed

lemma finish_write_truth:
  assumes "rpc_failures env" "bytes \<noteq> []" "ct_session s \<noteq> None" and run: "finish_write env pl bytes s = (r, t)"
  shows "case r of Inr n \<Rightarrow> confirmed env pl n s t
     | Inl e \<Rightarrow> e = Fault OUTCOME_UNKNOWN \<or> e = OutOfFuel \<or> abandoned env pl s t"
proof -
  have start: "running s s" using assms(3) by (simp add: running_def)
  have work: "valid (running s) (bindm (prepare_blocks env pl bytes (wl_blocks pl)) (\<lambda>changes. bindm (commit_write env pl changes) (\<lambda>r. retm (cr_accepted r))))
      (\<lambda>n. confirmed env pl n s) (\<lambda>_. running s)"
    by (rule valid_then [OF on_running.blocks_keep(3)], assumption, rule valid_bindm [OF commit_write_valid [OF assms(1)]], rule valid_retm)
  have failed: "valid (running s) (if e = OutOfFuel then raisem e else after_failure env pl e) (\<lambda>n. confirmed env pl n s)
      (\<lambda>e t. e = Fault OUTCOME_UNKNOWN \<or> e = OutOfFuel \<or> abandoned env pl s t)" for e
  proof (cases "e = OutOfFuel")
    case True
    show ?thesis unfolding if_P [OF True] by (rule valid_raisem) (simp add: True)
  next
    case False
    show ?thesis unfolding if_not_P [OF False] by (rule valid_weaken [OF after_failure_valid [OF assms(1)]]) auto
  qed
  have "valid (running s) (finish_write env pl bytes) (\<lambda>n. confirmed env pl n s)
      (\<lambda>e t. e = Fault OUTCOME_UNKNOWN \<or> e = OutOfFuel \<or> abandoned env pl s t)"
    unfolding finish_write_def if_not_P [OF assms(2)]
    by (rule valid_bindm [OF valid_modm], erule on_running.quiet_last, rule valid_catchm [OF work failed])
  from validD [OF this start] run show ?thesis by (cases r) auto
qed

text \<open>
  C12. A write that has begun reports the truth. Let \<^verbatim>\<open>BeginWrite\<close> have given its plan, and let \<^verbatim>\<open>GetOperation\<close> and \<^verbatim>\<open>AbortWrite\<close> fail only as calls fail, with an \<^verbatim>\<open>RpcError\<close>.
  When \<^verbatim>\<open>_finish_write\<close> of a payload that is not empty returns a number of bytes, the control node confirmed the
  commit of this operation with that number during the call; when it raises anything but
  \<open>OUTCOME_UNKNOWN\<close>, the control node said that the operation was given up or is closed without a commit (a call that outlives the
  rounds of the model is left out). An empty payload is committed by \<^verbatim>\<open>BeginWrite\<close> itself: then the call returns the number the control node gives for the operation,
  or the \<^verbatim>\<open>RpcError\<close> of that question, which says nothing of the write.
\<close>

theorem write_reports_truth:
  assumes "rpc_failures env" "ct_session s \<noteq> None" and run: "finish_write env pl bytes s = (r, t)"
  shows "if bytes = [] then
       (case r of Inr n \<Rightarrow> \<exists>status. answered (ce_GetOperation env) (asked pl) status s t \<and> n = cr_accepted (result_of status)
        | Inl e \<Rightarrow> is_rpc e)
     else
       (case r of Inr n \<Rightarrow> confirmed env pl n s t
        | Inl e \<Rightarrow> e = Fault OUTCOME_UNKNOWN \<or> e = OutOfFuel \<or> abandoned env pl s t)"
proof (cases "bytes = []")
  case True
  have "running s s" using assms(2) by (simp add: running_def)
  moreover have "valid (running s) (finish_write env pl bytes)
      (\<lambda>n t. \<exists>status. answered (ce_GetOperation env) (asked pl) status s t \<and> n = cr_accepted (result_of status)) (\<lambda>e t. is_rpc e)"
    (is "valid _ _ ?Q ?E")
  proof -
    have "valid (running s) (operation_of env (or_id (wl_operation pl)) [])
        (\<lambda>status t. running s t \<and> answered (ce_GetOperation env) (asked pl) status s t) ?E"
      by (rule valid_weaken [OF asks_valid [OF assms(1)]]) auto
    then have "valid (running s) (bindm (operation_of env (or_id (wl_operation pl)) []) (\<lambda>status. retm (cr_accepted (result_of status)))) ?Q ?E"
      by (rule valid_bindm) (rule valid_retm, blast)
    then show ?thesis
      unfolding finish_write_def if_P [OF True]
      by (intro valid_bindm [OF valid_modm [where Q = "\<lambda>_. running s"]]) (erule on_running.quiet_last)
  qed
  ultimately show ?thesis using run True by (cases r) (auto simp: valid_def)
qed (use finish_write_truth [OF assms(1) _ assms(2) run] in simp)

theorem write_reports_truth_witness:
  "\<exists>t. finish_write committing_env sample_write_plan ''x'' sample_client = (Inr 1, t) \<and> confirmed committing_env sample_write_plan 1 sample_client t"
proof -
  have "\<exists>t. finish_write committing_env sample_write_plan ''x'' sample_client = (Inr 1, t)"
    by (simp add: finish_write_def commit_write_def commit_result_of_def client_eval)
  then obtain t where t: "finish_write committing_env sample_write_plan ''x'' sample_client = (Inr 1, t)" by blast
  have "rpc_failures committing_env" by (simp add: rpc_failures_def is_rpc_def)
  from write_reports_truth [OF this _ t] t show ?thesis by simp
qed

section \<open>What a download leaves behind\<close>

text \<open>
  C13. A download is whole or nothing. When \<^verbatim>\<open>receive_handle\<close> returns, the target holds exactly the bytes whose
  size, file hash and manifest hash the handle's snapshot names, assembled from the blocks
  0, 1, 2, ... each with the size and hash of its reference; a target that existed was replaced only on
  request. When it raises, the target is as it was, or as other programs have left it.
\<close>

theorem download_whole_or_nothing:
  assumes "receive_handle env target overwrite s = (r, s')"
    and "\<And>i files u. ce_others_files env i files (temporary target u) = files (temporary target u)"
    and "\<And>i. target \<noteq> temporary target (ce_uid env i)"
  shows "case r of
     Inr (n, sha) \<Rightarrow> \<exists>bytes. ct_files s' target = Some bytes \<and> n = int (length bytes) \<and> sha = hex (sha256 (ce_lib env) bytes) \<and>
       downloaded env (hm_snapshot (ct_handle s')) bytes \<and> (overwrite \<or> ct_files s target = None)
   | Inl e \<Rightarrow> ct_files s' target = ct_files s target \<or>
       (\<exists>i files. files target = ct_files s target \<and> ct_files s' target = ce_others_files env i files target)"
  using assms by (rule receive_handle_run)

theorem download_whole_or_nothing_witness:
  "\<exists>s'. receive_handle serving_env (''d'', ''f'') False serving_client = (Inr (2, hex ''ab''), s') \<and> ct_files s' (''d'', ''f'') = Some ''ab'' \<and>
     downloaded serving_env (hm_snapshot (ct_handle s')) ''ab''"
proof -
  have "\<exists>s'. receive_handle serving_env (''d'', ''f'') False serving_client = (Inr (2, hex ''ab''), s') \<and> ct_files s' (''d'', ''f'') = Some ''ab''"
    by (simp add: receive_handle_def fetch_out_def create_out_def receive_pages_one call_twice download_block_def tell_out_def served_tries
        read_block_def next_frame_def write_out_def record_traffic_def content_ok_def manifest_hash_def keepalive_def other_programs_def
        publish_out_def unlink_out_def temporary_def client_eval CHUNK_def DEADLINES_def PROFILES_def somer_def)
  then obtain s' where s': "receive_handle serving_env (''d'', ''f'') False serving_client = (Inr (2, hex ''ab''), s')"
    "ct_files s' (''d'', ''f'') = Some ''ab''" by blast
  from download_whole_or_nothing [OF s'(1)] s' show ?thesis by (auto simp: temporary_def)
qed

interpretation on_handle: calling_client "\<lambda>s. ct_handle s = h" for h
  by standard simp_all

section \<open>Outcomes that are reported wrongly\<close>

text \<open>A step that reads the local file changes nothing but its copy of it.\<close>

locale sending_client = quiet_client +
  assumes quiet_source: "I s \<Longrightarrow> I (s\<lparr>ct_source := f\<rparr>)"
begin

lemma read_source_keeps [keep]: "keeps I (read_source env pos n)"
  unfolding read_source_def by (intro keep keeps_modm quiet_source)

lemma sending_loops [keep]: "keeps I (hash_source env acc n)" "keeps I (block_bytes env pos left bs fuel)" "keeps I (put_frames env start len offset fuel)"
proof -
  show "keeps I (hash_source env acc n)" by (induction n arbitrary: acc) (auto simp only: hash_source.simps intro!: keep)
  show "keeps I (block_bytes env pos left bs fuel)"
    by (induction fuel arbitrary: pos left bs) (subst block_bytes.simps, auto intro!: keep)+
  show "keeps I (put_frames env start len offset fuel)"
    by (induction fuel arbitrary: offset) (subst put_frames.simps, auto intro!: keep)+
qed

lemma put_keeps [keep]: "keeps I (put_once env loc head start len)" "keeps I (put_tries env loc head start len n)"
proof -
  show once: "keeps I (put_once env loc head start len)" unfolding put_once_def by (intro keep)
  show "keeps I (put_tries env loc head start len n)"
    by (induction n) (auto simp only: put_tries.simps intro!: keep once split: exn.split)
qed

lemma send_blocks_keeps [keep]: "keeps I (send_block env ttl index)" "keeps I (stage_page env i page)" "keeps I (send_blocks env ttl num idx acc)"
proof -
  show block: "keeps I (send_block env ttl index)" for index unfolding send_block_def Let_def by (intro keep)
  show page: "keeps I (stage_page env i page)" for i page unfolding stage_page_def by (intro keep)
  show "keeps I (send_blocks env ttl num idx acc)"
    by (induction idx arbitrary: acc) (auto simp only: send_blocks.simps Let_def split_paired_all intro!: keep block page)
qed

lemma before_keeps [keep]: "keeps I (path_here q)" "keeps I (expected_snapshot env remote overwrite)"
  unfolding path_here_def expected_snapshot_def stat_def by (intro keep; auto split: exn.split intro!: keep)+

end

interpretation on_sending: sending_client "running s" for s
  by standard (auto simp: running_def later_def)

text \<open>The control node confirmed the commit of an upload with the result \<open>r\<close>.\<close>

definition upload_confirmed :: "client_env \<Rightarrow> commit_result \<Rightarrow> client \<Rightarrow> client \<Rightarrow> bool" where
  "upload_confirmed env r s t \<longleftrightarrow>
     (\<exists>reference seal f. answered (ce_CommitUpload env) (Commit_Upload_Req reference seal f) r s t) \<or>
     (\<exists>op status. answered (ce_GetOperation env) (Operation_Query op []) status s t \<and> os_state status = COMMITTED \<and> result_of status = r)"

lemma commit_upload_confirmed:
  assumes "commit_upload env pl cx (Commit_Upload_Req reference seal f) s = (Inr r, t)"
  shows "upload_confirmed env r s t"
proof -
  obtain q u where first: "call_tries env (ce_CommitUpload env) cx (Commit_Upload_Req reference seal f) 2 s = (q, u)" by fastforce
  then have later: "later s u" by (rule keepsD [OF on_later.call_tries_keeps later_refl])
  show ?thesis
  proof (cases q)
    case (Inr x)
    with assms first show ?thesis by (auto simp: commit_upload_def catchm_def upload_confirmed_def dest: call_tries_answered)
  next
    case (Inl e)
    with assms first obtain status where "operation_of env (or_id (up_operation pl)) [] u = (Inr status, t)" "os_state status = COMMITTED" "result_of status = r"
      by (auto simp: commit_upload_def catchm_def bindm_eq_Inr split: if_splits sum.splits prod.splits)
    moreover from answered_later [OF later call_answered [OF this(1) [unfolded operation_of_def]]]
    have "answered (ce_GetOperation env) (Operation_Query (or_id (up_operation pl)) []) status s t" .
    ultimately show ?thesis unfolding upload_confirmed_def by blast
  qed
qed

lemma upload_confirmed_later: "later s t \<Longrightarrow> upload_confirmed env r t u \<Longrightarrow> upload_confirmed env r s u"
  unfolding upload_confirmed_def by (blast intro: answered_later)

lemma upload_confirmed_before: "upload_confirmed env r s t \<Longrightarrow> later t u \<Longrightarrow> upload_confirmed env r s u"
  unfolding upload_confirmed_def by (blast intro: answered_before)

lemma send_body_confirmed:
  "valid (running s) (send_body env opened) (\<lambda>r t. running s t \<and> upload_confirmed env r s t) (\<lambda>_ _. True)"
proof -
  have commit: "valid (running s) (commit_upload env pl cx (Commit_Upload_Req reference seal f)) (\<lambda>r t. running s t \<and> upload_confirmed env r s t) (\<lambda>_ _. True)"
    for pl cx reference seal f
  proof (unfold valid_def, intro conjI allI impI TrueI)
    fix u r t
    assume u: "running s u" and run: "commit_upload env pl cx (Commit_Upload_Req reference seal f) u = (Inr r, t)"
    have "keeps (running s) (commit_upload env pl cx (Commit_Upload_Req reference seal f))"
      unfolding commit_upload_def operation_of_def by (intro keep)
    from keepsD [OF this u run] show "running s t" .
    show "upload_confirmed env r s t"
      using u upload_confirmed_later commit_upload_confirmed [OF run] by (auto simp: running_def)
  qed
  show ?thesis
    unfolding send_body_def Let_def
    by (rule valid_then [OF on_running.bookkeeping_keeps(2)], rule TrueI, split if_split, intro conjI impI, rule valid_raisem, rule TrueI,
        rule valid_then [OF on_sending.send_blocks_keeps(3)], rule TrueI, split prod.split, intro allI impI,
        (rule valid_then, intro keep, rule TrueI)+, rule valid_then, rule keeps_modm, erule on_running.quiet_last, rule TrueI, rule commit)
qed

text \<open>The surroundings in which, in addition, a renewal has failed with \<open>e\<close>.\<close>

definition late :: "client_env \<Rightarrow> exn \<Rightarrow> client_env" where
  "late env e = env\<lparr>ce_renewal_failure := \<lambda>_. Some e\<rparr>"

lemma late_calls [simp]:
  "call_tries (late env e) rpc cx req n = call_tries env rpc cx req n" "prepare (late env e) req i = prepare env req i"
  "call (late env e) rpc req n = call env rpc req n" "plan_now (late env e) = plan_now env" "read_source (late env e) = read_source env"
proof -
  have "recoverable (late env e) = recoverable env"
    by (auto simp: fun_eq_iff recoverable_def late_def split: exn.split)
  then show tries: "call_tries (late env e) rpc cx req n = call_tries env rpc cx req n" for rpc :: "'a answering" and cx req n
    by (induction n) (simp_all cong: if_cong)
  show prep: "prepare (late env e) req i = prepare env req i" for req i by (simp add: prepare_def late_def cong: if_cong option.case_cong)
  show calls: "call (late env e) rpc req n = call env rpc req n" for rpc :: "'a answering" and req n
    by (simp add: call_def tries prep)
  show "plan_now (late env e) = plan_now env" "read_source (late env e) = read_source env"
    by (simp_all add: plan_now_def read_source_def late_def fun_eq_iff)
qed

lemma late_operation [simp]: "operation_of (late env e) op i = operation_of env op i"
proof -
  have "ce_GetOperation (late env e) = ce_GetOperation env" by (simp add: late_def)
  then show ?thesis by (simp add: operation_of_def)
qed
lemma late_loops [simp]:
  "hash_source (late env e) acc n = hash_source env acc n" "block_bytes (late env e) pos left bs fuel = block_bytes env pos left bs fuel"
  "put_frames (late env e) start len offset fuel = put_frames env start len offset fuel"
  "wait_durable (late env e) op = wait_durable env op"
proof -
  show "hash_source (late env e) acc n = hash_source env acc n" by (induction n arbitrary: acc) (simp_all cong: if_cong)
  show "block_bytes (late env e) pos left bs fuel = block_bytes env pos left bs fuel"
    by (induction fuel arbitrary: pos left bs) (subst (1 2) block_bytes.simps, simp)+
  show "put_frames (late env e) start len offset fuel = put_frames env start len offset fuel"
    by (induction fuel arbitrary: offset) (subst (1 2) put_frames.simps, simp cong: if_cong)+
  have env: "ce_GetProtection (late env e) = ce_GetProtection env" "ce_patience (late env e) = ce_patience env" "ce_mono (late env e) = ce_mono env"
    by (simp_all add: late_def)
  have pages: "durable_pages (late env e) op cursor ready n = durable_pages env op cursor ready n" for cursor ready n
    by (induction n arbitrary: cursor ready) (simp_all add: env Let_def cong: if_cong)
  have "durable_loop (late env e) op deadline n = durable_loop env op deadline n" for deadline n
    by (induction n) (simp_all add: pages env cong: if_cong)
  then show "wait_durable (late env e) op = wait_durable env op" by (simp add: wait_durable_def env)
qed

lemma late_sending [simp]:
  "send_body (late env e) opened = send_body env opened" "expected_snapshot (late env e) remote overwrite = expected_snapshot env remote overwrite"
proof -
  have env: "ce_lib (late env e) = ce_lib env" "ce_AllocateBlocks (late env e) = ce_AllocateBlocks env" "ce_dict (late env e) = ce_dict env"
      "ce_PutBlock (late env e) = ce_PutBlock env" "ce_StageManifestPage (late env e) = ce_StageManifestPage env"
      "ce_SealManifest (late env e) = ce_SealManifest env" "ce_CommitUpload (late env e) = ce_CommitUpload env" "ce_Stat (late env e) = ce_Stat env"
    by (simp_all add: late_def)
  have once: "put_once (late env e) = put_once env" by (simp add: put_once_def env fun_eq_iff)
  have tries: "put_tries (late env e) loc head start len n = put_tries env loc head start len n" for loc head start len n
    by (induction n) (simp_all add: once cong: exn.case_cong if_cong)
  have block: "send_block (late env e) ttl index = send_block env ttl index" for ttl index
    by (simp add: send_block_def tries env)
  have page: "stage_page (late env e) i page = stage_page env i page" for i page by (simp add: stage_page_def env)
  have blocks: "send_blocks (late env e) ttl num idx acc = send_blocks env ttl num idx acc" for ttl num idx acc
  proof (induction idx arbitrary: acc)
    case (Cons i idx)
    show ?case by (cases acc) (simp add: block page Cons.IH Let_def cong: if_cong)
  next
    case Nil
    show ?case by (cases acc) simp
  qed
  have commit: "commit_upload (late env e) pl cx req = commit_upload env pl cx req" for pl cx req by (simp add: commit_upload_def env cong: if_cong)
  show "send_body (late env e) opened = send_body env opened" by (simp add: send_body_def blocks commit env Let_def cong: if_cong)
  show "expected_snapshot (late env e) remote overwrite = expected_snapshot env remote overwrite"
    by (simp add: expected_snapshot_def stat_def env)
qed
lemma give_up_runs:
  assumes "e \<noteq> Fault OUTCOME_UNKNOWN" "e \<noteq> OutOfFuel" "ct_session s \<noteq> None"
  shows "\<exists>t cx. give_up env e s = (Inl e, t) \<and> ct_sent t = ct_sent s @ [(cx, Operation_Req (up_operation (ct_plan t)))]"
proof -
  obtain m where "ct_session s = Some m" using assms(3) by blast
  then show ?thesis
    using assms(1,2) by (auto simp: give_up_def plan_now_def trym_def catchm_def call_def prepare_def sending_def metadata_def bindm_def
        reading_def split: sum.split)
qed

text \<open>
  C33. An upload whose commit is confirmed is reported as failed, and given up, when a renewal has failed. Take any upload that returns a result, in
  surroundings where no renewal fails: the control node has confirmed the commit with that result. In the same surroundings, with the same answers of all services,
  but with a renewal of the plan that has failed with some exception by the time the block of \<^verbatim>\<open>keepalive\<close> is left, the commit is confirmed
  just as well, then \<^verbatim>\<open>send\<close> asks for the upload to be given up and raises the exception. (\<^verbatim>\<open>write_keepalive\<close> of \<^verbatim>\<open>access.py\<close> avoids this.)
\<close>

theorem committed_upload_reported_failed:
  assumes "send env remote overwrite s = (Inr r, t)" and "ct_session s \<noteq> None" and "\<And>i. ce_renewal_failure env i = None"
    and "e \<noteq> Fault OUTCOME_UNKNOWN" "e \<noteq> OutOfFuel"
  shows "upload_confirmed env r s t \<and>
     (\<exists>t' cx. send (env\<lparr>ce_renewal_failure := \<lambda>_. Some e\<rparr>) remote overwrite s = (Inl e, t') \<and>
        ct_sent t' = ct_sent t @ [(cx, Operation_Req (up_operation (ct_plan t')))])"
proof -
  have failing: "give_up env d u \<noteq> (Inr r, t)" for d u
    by (auto simp: give_up_def bindm_eq_Inr)
  from assms(1) obtain s1 whole s2 x s3 q s4 pl s5 where
    steps: "hash_source env [] (ce_patience env) s = (Inr whole, s2)" "expected_snapshot env remote overwrite s2 = (Inr x, s3)"
      "path_here remote s3 = (Inr q, s4)"
      "call env (ce_BeginUpload env) (Begin_Upload_Req \<lparr>bu_path = q, bu_total = int (length (so_data (ct_source s))), bu_sha = sha256 (ce_lib env) whole,
         bu_overwrite = overwrite, bu_expected = x\<rparr>) 2 s4 = (Inr pl, s5)"
    and last: "catchm (keepalive env (send_body env (ct_source s))) (give_up env) (s5\<lparr>ct_plan := pl\<rparr>) = (Inr r, t)"
    by (auto simp: send_def bindm_eq_Inr)
  let ?s = "s5\<lparr>ct_plan := pl\<rparr>"
  have "running s s" using assms(2) by (simp add: running_def)
  from keepsD [OF on_sending.sending_loops(1) this steps(1)] have "running s s2" .
  from keepsD [OF on_sending.before_keeps(2) this steps(2)] have "running s s3" .
  from keepsD [OF on_sending.before_keeps(1) this steps(3)] have "running s s4" .
  from keepsD [OF on_running.call_keeps this steps(4)] have start: "running s ?s" by (rule on_running.quiet_plan)
  from last failing have "keepalive env (send_body env (ct_source s)) ?s = (Inr r, t)"
    by (auto simp: catchm_def split: prod.splits sum.splits)
  then obtain u where body: "send_body env (ct_source s) ?s = (Inr r, u)" and t: "t = u\<lparr>ct_tick := Suc (ct_tick u)\<rparr>"
    using assms(3) by (auto simp: keepalive_def bindm_eq_Inr reading_def)
  from validD(1) [OF send_body_confirmed start body] have u: "running s u" "upload_confirmed env r s u" by simp_all
  have "later u t" by (simp add: t later_def)
  then have told: "upload_confirmed env r s t" using u(2) by (blast intro: upload_confirmed_before)
  have "ct_session t \<noteq> None" using u(1) by (simp add: running_def t)
  from give_up_runs [OF assms(4,5) this, of "late env e", where 'a = commit_result] obtain t' cx where
    g: "give_up (late env e) e t = (Inl e :: commit_result res, t')" "ct_sent t' = ct_sent t @ [(cx, Operation_Req (up_operation (ct_plan t')))]" by blast
  have fails: "keepalive (late env e) (send_body env (ct_source s)) ?s = (Inl e, t)"
    by (simp add: keepalive_def bindm_def body reading_def t) (simp add: late_def)
  have env: "ce_patience (late env e) = ce_patience env" "ce_lib (late env e) = ce_lib env" "ce_BeginUpload (late env e) = ce_BeginUpload env"
    by (simp_all add: late_def)
  have "send (late env e) remote overwrite s = (Inl e, t')"
    by (simp add: send_def bindm_def env steps catchm_def fails g(1))
  with told g(2) show ?thesis unfolding late_def by blast
qed

theorem committed_upload_reported_failed_witness:
  "\<exists>t'. send (uploading_env\<lparr>ce_renewal_failure := \<lambda>_. Some (RpcError OPERATION_EXPIRED)\<rparr>) ''/f'' False sample_client = (Inl (RpcError OPERATION_EXPIRED), t')"
proof -
  have "\<exists>t. send uploading_env ''/f'' False sample_client = (Inr sample_result, t)"
    by (simp add: send_def send_body_def hash_source_first read_source_def expected_snapshot_def path_here_def commit_upload_def
      keepalive_def client_eval call_twice uploading_env_def sample_upload_plan_def CHUNK_def)
  then obtain t where "send uploading_env ''/f'' False sample_client = (Inr sample_result, t)" by blast
  from committed_upload_reported_failed [OF this, of "RpcError OPERATION_EXPIRED"] show ?thesis by (auto simp: uploading_env_def)
qed

text \<open>
  C34. A write recovered by asking leaves the handle behind. When the commit is learnt only by the last resort of \<^verbatim>\<open>_finish_write\<close>, which asks for the state of
  the operation, the handle gets the snapshot of the answer but keeps its revision. After \<^verbatim>\<open>commit_write\<close>, whether its call was answered or it
  has itself learnt of the commit by asking, the handle has the new snapshot and the next revision, which is how the control node counts.
\<close>

theorem recovered_write_keeps_revision:
  assumes "\<And>i h. ce_handle_renewed env i h = h"
  shows "(after_failure env pl e s = (Inr n, t) \<longrightarrow>
      (\<exists>status. answered (ce_GetOperation env) (asked pl) status s t \<and> os_state status = COMMITTED \<and> n = cr_accepted (result_of status) \<and>
         ct_handle t = (ct_handle s)\<lparr>hm_snapshot := cr_snapshot (result_of status)\<rparr>)) \<and>
    (commit_write env pl changes s = (Inr r, u) \<longrightarrow>
       ct_handle u = (ct_handle s)\<lparr>hm_snapshot := cr_snapshot r, hm_revision := hm_revision (ct_handle s) + 1\<rparr>)"
proof (intro conjI impI)
  let ?H = "\<lambda>v. ct_handle v = ct_handle s"
  assume "after_failure env pl e s = (Inr n, t)"
  then obtain status v where ask: "operation_of env (or_id (wl_operation pl)) [] s = (Inr status, v)" and st: "os_state status = COMMITTED"
    and out: "t = v\<lparr>ct_handle := (ct_handle v)\<lparr>hm_snapshot := cr_snapshot (result_of status)\<rparr>\<rparr>" "n = cr_accepted (result_of status)"
    by (auto simp: after_failure_def bindm_eq_Inr catchm_eq liftm_eq_Inr split: if_splits sum.splits prod.splits)
  have "answered (ce_GetOperation env) (asked pl) status s v"
    using call_answered [OF ask [unfolded operation_of_def]] by (simp add: asked_def)
  moreover have "?H v" by (rule keepsD [OF on_handle.call_keeps _ ask [unfolded operation_of_def]]) simp
  ultimately show "\<exists>status. answered (ce_GetOperation env) (asked pl) status s t \<and> os_state status = COMMITTED \<and> n = cr_accepted (result_of status) \<and>
         ct_handle t = (ct_handle s)\<lparr>hm_snapshot := cr_snapshot (result_of status)\<rparr>"
    using st out by (auto simp: answered_steps)
next
  let ?H = "\<lambda>v. ct_handle v = ct_handle s"
  let ?Q = "\<lambda>r v. ct_handle v = (ct_handle s)\<lparr>hm_snapshot := cr_snapshot r, hm_revision := hm_revision (ct_handle s) + 1\<rparr>"
  have now: "keeps ?H (handle_now env)"
    by (auto simp: handle_now_def valid_def bindm_def reading_def assms)
  have tail: "valid ?H (bindm (handle_now env) (\<lambda>_. bindm (modm (\<lambda>s. s\<lparr>ct_handle := (ct_handle s)\<lparr>hm_snapshot := cr_snapshot r, hm_revision := hm_revision (ct_handle s) + 1\<rparr>\<rparr>))
      (\<lambda>_. retm r))) ?Q (\<lambda>_ _. True)" for r
    by (auto simp: valid_def bindm_def handle_now_def reading_def assms)
  have answer: "valid ?H (commit_write env pl changes) ?Q (\<lambda>_ _. True)"
    unfolding commit_write_def commit_result_of_def operation_of_def Let_def
    by (rule valid_then, (intro keep on_handle.wait_durable_keeps | simp)+, rule valid_then [OF now], simp,
        rule valid_then [OF on_handle.sending_keeps(2)], simp, rule valid_then [OF keeps_modm], simp, simp,
        rule valid_then, (intro keep on_handle.call_keeps on_handle.call_tries_keeps)+, simp, rule tail)
  show "?Q r u" if "commit_write env pl changes s = (Inr r, u)"
    by (rule validD(1) [OF answer _ that]) simp
qed

theorem recovered_write_keeps_revision_witness:
  "\<exists>t. commit_write committing_env sample_write_plan [] sample_client = (Inr sample_result, t) \<and> hm_revision (ct_handle t) = 2"
proof -
  have "\<exists>t. commit_write committing_env sample_write_plan [] sample_client = (Inr sample_result, t)"
    by (simp add: commit_write_def commit_result_of_def client_eval)
  with recovered_write_keeps_revision [of committing_env] show ?thesis by fastforce
qed

end
