(* ===== verification/Client_Cluster.thy ===== *)
theory Client_Cluster
  imports Client_Properties Node_Frames Node_Samples
begin

text \<open>
  The client against the services it calls: what it announces and sends is what the control node and the
  DataNodes accept, and what they answer is what it needs.
\<close>

section \<open>The parts of a write\<close>

lemma div_less_mult:
  fixes x :: int
  assumes "0 < b" "x < k * b"
  shows "x div b < k"
proof (rule ccontr)
  assume "\<not> x div b < k"
  then have "k * b \<le> (x div b) * b" using assms(1) by (simp add: mult_right_mono)
  also have "\<dots> \<le> x" using div_mult_mod_eq [of x b] pos_mod_sign [OF assms(1), of x] by linarith
  finally show False using assms(2) by simp
qed

lemma next_boundary:
  fixes offset :: int
  assumes "cursor < length bytes" "0 < sized"
  defines "n \<equiv> min (int (length bytes - cursor)) (sized - (offset + int cursor) mod sized)"
  shows "0 < n" "cursor + nat n \<le> length bytes"
    "min (int (length bytes) - int cursor) (sized - (offset + int cursor) mod sized) = n"
    "cursor + nat n < length bytes \<Longrightarrow> (offset + int (cursor + nat n)) div sized = (offset + int cursor) div sized + 1"
    "cursor + nat n = length bytes \<Longrightarrow> (offset + int (length bytes) - 1) div sized = (offset + int cursor) div sized"
proof -
  let ?a = "offset + int cursor"
  have m: "0 \<le> ?a mod sized" "?a mod sized < sized" using assms(2) by simp_all
  have a: "?a = sized * (?a div sized) + ?a mod sized" by simp
  show pos: "0 < n" using assms(1) m by (simp add: n_def)
  show le: "cursor + nat n \<le> length bytes" using assms(1) pos by (simp add: n_def)
  show "min (int (length bytes) - int cursor) (sized - ?a mod sized) = n" using assms(1) by (simp add: n_def of_nat_diff)
  show "(offset + int (cursor + nat n)) div sized = ?a div sized + 1" if "cursor + nat n < length bytes"
  proof -
    have "n = sized - ?a mod sized" using that pos assms(1) by (auto simp: n_def min_def split: if_splits)
    moreover have "(?a div sized + 1) * sized = sized * (?a div sized) + sized" by (simp add: algebra_simps)
    ultimately have "offset + int (cursor + nat n) = (?a div sized + 1) * sized" using pos a by linarith
    then show ?thesis using assms(2) by simp
  qed
  show "(offset + int (length bytes) - 1) div sized = ?a div sized" if "cursor + nat n = length bytes"
  proof -
    have "n \<le> sized - ?a mod sized" by (simp add: n_def)
    moreover have "offset + int (length bytes) - 1 = ?a + (n - 1)" using that pos by simp
    ultimately have "offset + int (length bytes) - 1 = sized * (?a div sized) + (?a mod sized + n - 1)" "?a mod sized + n - 1 < sized" "0 \<le> ?a mod sized + n - 1"
      using a m pos by linarith+
    then show ?thesis using int_div_pos_eq by blast
  qed
qed

abbreviation part_place :: "write_part \<Rightarrow> int \<times> int \<times> int \<times> int" where
  "part_place p \<equiv> (wp_index p, wp_block_offset p, wp_delta_offset p, wp_length p)"

lemma cut_parts_step:
  "cursor < length bytes \<Longrightarrow> 0 < sized \<Longrightarrow> n = min (int (length bytes - cursor)) (sized - (offset + int cursor) mod sized) \<Longrightarrow>
     cut_parts hashed sized offset bytes cursor =
       \<lparr>wp_index = (offset + int cursor) div sized, wp_block_offset = (offset + int cursor) mod sized, wp_delta_offset = int cursor, wp_length = n,
        wp_sha = hashed (take (nat n) (drop cursor bytes))\<rparr> # cut_parts hashed sized offset bytes (cursor + nat n)"
  by (subst cut_parts.simps) (simp add: Let_def)

lemma cut_parts_done: "length bytes \<le> cursor \<Longrightarrow> cut_parts hashed sized offset bytes cursor = []"
  by (subst cut_parts.simps) simp

text \<open>The only parts that pass the check are those at the places of the cut.\<close>

lemma check_parts_iff:
  "0 < sized \<Longrightarrow> cursor \<le> length bytes \<Longrightarrow>
    check_parts offset (int (length bytes)) sized ps (int cursor) = Inr (int (length bytes)) \<longleftrightarrow>
      map part_place ps = map part_place (cut_parts hashed sized offset bytes cursor) \<and> (\<forall>p \<in> set ps. length (wp_sha p) = 32)"
proof (induction hashed sized offset bytes cursor arbitrary: ps rule: cut_parts.induct)
  case (1 hashed sized offset bytes cursor)
  show ?case
  proof (cases "cursor < length bytes")
    case True
    define n where "n = min (int (length bytes - cursor)) (sized - (offset + int cursor) mod sized)"
    note b = next_boundary [OF True "1.prems"(1), of offset, folded n_def]
    note ih = "1.IH" [OF conjI [OF True "1.prems"(1)] refl refl, folded n_def, OF "1.prems"(1) b(2)]
    have cursor: "int (cursor + nat n) = int cursor + n" using b(1) by simp
    show ?thesis
    proof (cases ps)
      case (Cons p ps')
      then show ?thesis using ih [of ps'] b(1) True "1.prems"(1)
        by (auto simp: cut_parts_step [OF True "1.prems"(1) n_def] Let_def run b(3) cursor pos_mod_bound)
    qed (use True in \<open>simp add: cut_parts_step [OF True "1.prems"(1) n_def]\<close>)
  next
    case False
    with "1.prems" have "cursor = length bytes" by simp
    then show ?thesis by (cases ps) (auto simp: cut_parts_done Let_def run)
  qed
qed

text \<open>The cut covers the payload, each part inside one block.\<close>

lemma cut_parts_cover:
  "0 < sized \<Longrightarrow> cursor \<le> length bytes \<Longrightarrow>
    concat (map (\<lambda>p. take (nat (wp_length p)) (drop (nat (wp_delta_offset p)) bytes)) (cut_parts hashed sized offset bytes cursor)) = drop cursor bytes \<and>
    (\<forall>p \<in> set (cut_parts hashed sized offset bytes cursor). 0 < wp_length p \<and> 0 \<le> wp_block_offset p \<and> wp_block_offset p + wp_length p \<le> sized \<and>
       wp_index p * sized + wp_block_offset p = offset + wp_delta_offset p \<and>
       wp_sha p = hashed (take (nat (wp_length p)) (drop (nat (wp_delta_offset p)) bytes))) \<and>
    int (length (cut_parts hashed sized offset bytes cursor)) =
      (if cursor < length bytes then (offset + int (length bytes) - 1) div sized - (offset + int cursor) div sized + 1 else 0)"
proof (induction hashed sized offset bytes cursor rule: cut_parts.induct)
  case (1 hashed sized offset bytes cursor)
  show ?case
  proof (cases "cursor < length bytes")
    case True
    define n where "n = min (int (length bytes - cursor)) (sized - (offset + int cursor) mod sized)"
    note b = next_boundary [OF True "1.prems"(1), of offset, folded n_def]
    note ih = "1.IH" [OF conjI [OF True "1.prems"(1)] refl refl, folded n_def, OF "1.prems"(1) b(2)]
    have piece: "take (nat n) (drop cursor bytes) @ drop (cursor + nat n) bytes = drop cursor bytes"
      by (metis add.commute append_take_drop_id drop_drop)
    have place: "0 < n" "0 \<le> (offset + int cursor) mod sized" "(offset + int cursor) mod sized + n \<le> sized"
      using b(1) "1.prems"(1) by (simp_all add: n_def)
    show ?thesis
      unfolding cut_parts_step [OF True "1.prems"(1) n_def]
      using ih piece place b(2,4,5) True by (auto simp: div_mult_mod_eq)
  next
    case False
    with "1.prems" show ?thesis by (simp add: cut_parts_done)
  qed
qed

text \<open>
  C30. The parts a client announces are the ones the control node accepts. For every block size in use and
  every payload of at most 16 MiB, a list of parts passes the check of \<^verbatim>\<open>BeginWrite\<close> up to the length of the payload exactly when
  its block indices, offsets in the block, offsets in the payload and lengths are, one after the other, those that \<^verbatim>\<open>begin_write\<close> cuts, and each carries
  a hash of 32 bytes. What \<^verbatim>\<open>begin_write\<close> cuts is the payload, in order and without gaps: at most five parts, none empty, each inside the one block
  its index names, each with the hash of its bytes.
\<close>

theorem announced_parts_accepted:
  assumes "sr_block_size (hm_snapshot h) \<in> set PROFILES" "int (length bytes) \<le> MAX_DELTA" "\<And>x. length (sha256 (ce_lib env) x) = 32"
    and sized_def: "sized = sr_block_size (hm_snapshot h)" and parts_def: "parts = bw_parts (write_request_of env h offset bytes fences)"
  shows "(check_parts offset (int (length bytes)) sized ps 0 = Inr (int (length bytes)) \<longleftrightarrow>
      map (\<lambda>p. (wp_index p, wp_block_offset p, wp_delta_offset p, wp_length p)) ps =
        map (\<lambda>p. (wp_index p, wp_block_offset p, wp_delta_offset p, wp_length p)) parts \<and> (\<forall>p \<in> set ps. length (wp_sha p) = 32)) \<and>
    concat (map (\<lambda>p. take (nat (wp_length p)) (drop (nat (wp_delta_offset p)) bytes)) parts) = bytes \<and> length parts \<le> 5 \<and>
    (\<forall>p \<in> set parts. 0 < wp_length p \<and> 0 \<le> wp_block_offset p \<and> wp_block_offset p + wp_length p \<le> sized \<and>
       wp_index p * sized + wp_block_offset p = offset + wp_delta_offset p \<and>
       wp_sha p = sha256 (ce_lib env) (take (nat (wp_length p)) (drop (nat (wp_delta_offset p)) bytes)) \<and> length (wp_sha p) = 32)"
proof -
  have b: "4194304 \<le> sized" using assms(1) by (auto simp: PROFILES_def sized_def)
  then have pos: "0 < sized" by simp
  have req: "parts = cut_parts (sha256 (ce_lib env)) sized offset bytes 0" by (simp add: write_request_of_def parts_def sized_def)
  note cover = cut_parts_cover [where hashed = "sha256 (ce_lib env)" and cursor = 0, OF pos, of bytes offset, folded req]
  have "(offset + int (length bytes) - 1) div sized \<le> offset div sized + 4" if "bytes \<noteq> []"
  proof -
    have q: "(offset div sized + 5) * sized = sized * (offset div sized) + 5 * sized" by (simp add: algebra_simps)
    have "offset < sized * (offset div sized) + sized" using pos_mod_bound [OF pos, of offset] mult_div_mod_eq [of sized offset] by linarith
    then have "offset + int (length bytes) - 1 < (offset div sized + 5) * sized" unfolding q using assms(2) b by (simp add: MAX_DELTA_def)
    then have "(offset + int (length bytes) - 1) div sized < offset div sized + 5" using pos by (rule div_less_mult [rotated])
    then show ?thesis by simp
  qed
  then have "length parts \<le> 5" using cover by (cases "bytes = []") auto
  moreover note check_parts_iff [where hashed = "sha256 (ce_lib env)" and cursor = 0, OF pos, of bytes offset ps, folded req]
  ultimately show ?thesis using cover assms(3) by simp
qed

theorem announced_parts_accepted_witness:
  "check_parts 4194300 9 4194304 (bw_parts (write_request_of hashing_env block_handle 4194300 (replicate 9 CHR ''a'') [])) 0 = Inr 9"
proof -
  have "sr_block_size (hm_snapshot block_handle) = 4194304" by (simp add: block_handle_def no_snapshot_def)
  with announced_parts_accepted [OF _ _ _ refl refl, of block_handle "replicate 9 CHR ''a''" hashing_env 4194300 "bw_parts (write_request_of hashing_env block_handle 4194300 (replicate 9 CHR ''a'') [])" "[]"]
  show ?thesis by (simp add: PROFILES_def MAX_DELTA_def hashing_env_def)
qed

section \<open>The frames of a transfer\<close>

lemma nat_CHUNK: "nat CHUNK = Suc 262143"
  by (simp add: CHUNK_def)

lemma chunk_frames_step:
  "bytes \<noteq> [] \<Longrightarrow> chunk_frames start bytes =
     Chunk \<lparr>dc_offset = int start, dc_data = take (nat CHUNK) bytes\<rparr> # chunk_frames (start + length (take (nat CHUNK) bytes)) (drop (nat CHUNK) bytes)"
  by (cases bytes) (simp_all add: Let_def nat_CHUNK)

lemma still_there_outcome: "\<exists>t. still_there env ctx until s = (Inr (), t) \<or> still_there env ctx until s = (Inl (Fault DEADLINE_EXCEEDED), t)"
  by (auto simp: still_there_def bindm_def tick_def needm_def)

lemma delta_chunks_frames:
  "int (length delta + length bytes) \<le> len \<Longrightarrow>
   fst (delta_chunks env ctx until len delta (chunk_frames (length delta) bytes) None s) \<in> {Inr (delta @ bytes), Inl (Fault DEADLINE_EXCEEDED)}"
proof (induction "length bytes" arbitrary: bytes delta s rule: less_induct)
  case less
  show ?case
  proof (cases "bytes = []")
    case False
    obtain t where t: "still_there env ctx until s = (Inr (), t) \<or> still_there env ctx until s = (Inl (Fault DEADLINE_EXCEEDED), t)"
      using still_there_outcome by blast
    have "fst (delta_chunks env ctx until len (delta @ take (nat CHUNK) bytes)
        (chunk_frames (length (delta @ take (nat CHUNK) bytes)) (drop (nat CHUNK) bytes)) None t)
        \<in> {Inr ((delta @ take (nat CHUNK) bytes) @ drop (nat CHUNK) bytes), Inl (Fault DEADLINE_EXCEEDED)}"
      by (rule less.hyps) (use False less.prems in \<open>auto simp: nat_CHUNK\<close>)
    moreover have "int (length delta) + int (min (length bytes) 262144) \<le> len" using less.prems by linarith
    ultimately show ?thesis
      using False t by (auto simp: chunk_frames_step bindm_def CHUNK_def)
  qed simp
qed

lemma put_chunks_frames:
  "\<exists>r t. put_chunks env ctx until (int (start + length bytes)) (int start) (chunk_frames start bytes) None s = (r, t) \<and>
     (r = Inl (Fault DEADLINE_EXCEEDED) \<or> (\<exists>chunks. r = Inr chunks \<and> concat chunks = bytes))"
proof (induction "length bytes" arbitrary: bytes start s rule: less_induct)
  case less
  show ?case
  proof (cases "bytes = []")
    case False
    let ?n = "length (take (nat CHUNK) bytes)"
    obtain t where t: "still_there env ctx until s = (Inr (), t) \<or> still_there env ctx until s = (Inl (Fault DEADLINE_EXCEEDED), t)"
      using still_there_outcome by blast
    have whole: "start + ?n + length (drop (nat CHUNK) bytes) = start + length bytes" by simp
    have "length (drop (nat CHUNK) bytes) < length bytes" using False by (simp add: nat_CHUNK)
    from less.hyps [OF this, of "start + ?n" t, unfolded whole]
    obtain r u where rest: "put_chunks env ctx until (int (start + length bytes)) (int (start + ?n)) (chunk_frames (start + ?n) (drop (nat CHUNK) bytes)) None t = (r, u)"
      "r = Inl (Fault DEADLINE_EXCEEDED) \<or> (\<exists>chunks. r = Inr chunks \<and> concat chunks = drop (nat CHUNK) bytes)"
      by blast
    have size: "int ?n = min CHUNK (int (length bytes))" "0 < ?n" using False by (auto simp: CHUNK_def)
    from rest(1) have tail: "put_chunks env ctx until (int start + int (length bytes)) (int start + int ?n) (chunk_frames (start + ?n) (drop (nat CHUNK) bytes)) None t = (r, u)"
      by simp
    from t show ?thesis
    proof
      assume "still_there env ctx until s = (Inr (), t)"
      with rest(2) size tail show ?thesis
        by (auto simp: chunk_frames_step [OF False] bindm_def simp del: length_take)
    next
      assume "still_there env ctx until s = (Inl (Fault DEADLINE_EXCEEDED), t)"
      then show ?thesis by (simp add: chunk_frames_step [OF False] bindm_def)
    qed
  qed simp
qed

lemma put_frames_undisturbed:
  assumes "\<And>i f. ce_others_source env i f = f" "so_data (ct_source s) = data" "start + len \<le> length data"
  shows "offset \<le> len \<Longrightarrow> len - offset \<le> fuel \<Longrightarrow> \<exists>t. put_frames env start len offset fuel s =
    (Inr (chunk_frames offset (take (len - offset) (drop (start + offset) data)), None), t)"
  using assms(2)
proof (induction fuel arbitrary: offset s)
  case (Suc fuel)
  show ?case
  proof (cases "offset = len")
    case False
    let ?bytes = "take (len - offset) (drop (start + offset) data)"
    let ?chunk = "take (min (nat CHUNK) (len - offset)) (drop (start + offset) data)"
    have bytes: "?bytes \<noteq> []" "?chunk = take (nat CHUNK) ?bytes" "length ?bytes = len - offset" "?chunk \<noteq> []"
      using False Suc.prems assms(3) by (auto simp: nat_CHUNK)
    have rest: "drop (nat CHUNK) ?bytes = take (len - (offset + length ?chunk)) (drop (start + (offset + length ?chunk)) data)"
      using bytes(3) by (auto simp: drop_take min_def ac_simps)
    obtain t where t: "read_source env (start + offset) (min (nat CHUNK) (len - offset)) s = (Inr ?chunk, t)" "ct_source t = ct_source s"
      using Suc.prems assms(1) by (auto simp: read_source_def bindm_def reading_def)
    have m: "length ?chunk \<le> len - offset" "0 < length ?chunk" using bytes(4) by (simp, blast)
    have "offset + length ?chunk \<le> len" using m(1) Suc.prems(1) by linarith
    moreover have "len - (offset + length ?chunk) \<le> fuel" using m Suc.prems(2) by linarith
    moreover have "so_data (ct_source t) = data" using Suc.prems t(2) by simp
    ultimately obtain u where u:
      "put_frames env start len (offset + length ?chunk) fuel t = (Inr (chunk_frames (offset + length ?chunk) (drop (nat CHUNK) ?bytes), None), u)"
      unfolding rest using Suc.IH by blast
    define whole where "whole = ?bytes"
    define chunk where "chunk = ?chunk"
    note f = bytes(1,2,4) t(1) u
    have "\<not> len \<le> offset" using Suc.prems(1) False by simp
    then show ?thesis
      using f unfolding whole_def [symmetric] chunk_def [symmetric]
      by (subst put_frames.simps) (simp add: bindm_def chunk_frames_step)
  qed (subst put_frames.simps, simp)
qed (subst put_frames.simps, simp)

text \<open>
  C31. What a client sends is what a DataNode stores. The frames of a patch deliver the
  piece as the delta, or the node stops because the time is up. The frames of a block of an
  undisturbed local file deliver exactly the bytes of that block, in chunks of the size the node insists on.
\<close>

theorem sent_bytes_arrive:
  assumes "\<And>i f. ce_others_source cenv i f = f" "start + len \<le> length (so_data (ct_source c))"
  shows "fst (delta_chunks env ctx until (int (length piece)) [] (chunk_frames 0 piece) None s) \<in> {Inr piece, Inl (Fault DEADLINE_EXCEEDED)} \<and>
    (\<exists>frames c' r t. put_frames cenv start len 0 len c = (Inr (frames, None), c') \<and>
       put_chunks env ctx until (int len) 0 frames None s = (r, t) \<and>
       (r = Inl (Fault DEADLINE_EXCEEDED) \<or> (\<exists>chunks. r = Inr chunks \<and> concat chunks = take len (drop start (so_data (ct_source c))))))"
proof (intro conjI)
  show "fst (delta_chunks env ctx until (int (length piece)) [] (chunk_frames 0 piece) None s) \<in> {Inr piece, Inl (Fault DEADLINE_EXCEEDED)}"
    using delta_chunks_frames [of "[]" piece] by simp
  let ?bytes = "take len (drop start (so_data (ct_source c)))"
  obtain c' where "put_frames cenv start len 0 len c = (Inr (chunk_frames 0 ?bytes, None), c')"
    using put_frames_undisturbed [OF assms(1) refl assms(2), of 0 len] by auto
  moreover have "length ?bytes = len" using assms(2) by simp
  ultimately show "\<exists>frames c' r t. put_frames cenv start len 0 len c = (Inr (frames, None), c') \<and>
       put_chunks env ctx until (int len) 0 frames None s = (r, t) \<and>
       (r = Inl (Fault DEADLINE_EXCEEDED) \<or> (\<exists>chunks. r = Inr chunks \<and> concat chunks = ?bytes))"
    using put_chunks_frames [of env ctx until 0 ?bytes s] by auto
qed

theorem sent_bytes_arrive_witness:
  "\<exists>frames c'. put_frames sample_client_env 0 0 0 0 sample_client = (Inr (frames, None), c') \<and>
     fst (delta_chunks sample_env sample_nctx 5000 3 [] (chunk_frames 0 ''abc'') None sample_node) \<in> {Inr ''abc'', Inl (Fault DEADLINE_EXCEEDED)}"
  using sent_bytes_arrive [of sample_client_env 0 0 sample_client sample_env sample_nctx 5000 "''abc''" sample_node] by auto

section \<open>Listing a directory\<close>

text \<open>A server that answers \<^verbatim>\<open>List\<close> from a name space that does not change meanwhile.\<close>

definition lists_from :: "client_env \<Rightarrow> app \<Rightarrow> db \<Rightarrow> user_rec \<Rightarrow> bool" where
  "lists_from env app tx user \<longleftrightarrow> (\<forall>i cx p limit cursor. ce_List env i cx (List_Req p limit cursor) = List app tx user p limit cursor)"

lemma call_answer:
  assumes "ct_session s \<noteq> None" "\<And>i cx. rpc i cx req = Inr x"
  shows "\<exists>t. call env rpc req n s = (Inr x, t) \<and> ct_session t = ct_session s \<and> ct_cwd t = ct_cwd s \<and> ct_cwd_id t = ct_cwd_id s"
proof -
  have "\<exists>t. call_tries env rpc cx req n u = (Inr x, t) \<and> ct_session t = ct_session u \<and> ct_cwd t = ct_cwd u \<and> ct_cwd_id t = ct_cwd_id u"
    if "ct_session u \<noteq> None" for cx u
    using that assms(2) by (cases n) (auto simp: sending_def metadata_def bindm_def reading_def catchm_def)
  from this [of "s\<lparr>ct_tick := Suc (ct_tick s)\<rparr>"] assms(1) show ?thesis
    by (auto simp: call_def prepare_def bindm_def reading_def split: option.splits)
qed

lemma filter_after:
  fixes f :: "'a \<Rightarrow> 'b :: linorder"
  assumes "sorted (map f xs)" "distinct (map f xs)" "k < length xs"
  shows "filter (\<lambda>x. f (xs ! k) < f x) xs = drop (Suc k) xs"
proof -
  have order: "f (xs ! i) \<le> f (xs ! j)" if "i \<le> j" "j < length xs" for i j
    using sorted_nth_mono [OF assms(1), of i j] that by simp
  have neq: "f (xs ! i) \<noteq> f (xs ! j)" if "i \<noteq> j" "i < length xs" "j < length xs" for i j
    using that assms(2) nth_eq_iff_index_eq [OF assms(2), of i j] by simp
  have "filter (\<lambda>x. f (xs ! k) < f x) (take (Suc k) xs) = []"
    using order [OF _ assms(3)] by (auto simp: filter_empty_conv in_set_conv_nth not_less)
  moreover have "filter (\<lambda>x. f (xs ! k) < f x) (drop (Suc k) xs) = drop (Suc k) xs"
  proof (rule filter_True, rule ballI)
    fix x
    assume "x \<in> set (drop (Suc k) xs)"
    then obtain i where "x = xs ! (Suc k + i)" "Suc k + i < length xs" by (auto simp: in_set_conv_nth)
    then show "f (xs ! k) < f x" using order [of k "Suc k + i"] neq [of k "Suc k + i"] assms(3) by simp
  qed
  ultimately show ?thesis by (metis append_self_conv2 append_take_drop_id filter_append)
qed

definition page_cursor :: "user_rec \<Rightarrow> node_rec \<Rightarrow> node_rec list \<Rightarrow> nat \<Rightarrow> list_cursor" where
  "page_cursor user node cs k = (if k = 0 then NoCursor else Cursor (n_id node) (n_revision node) (u_id user) (n_id (cs ! (k - 1))))"

lemma map_res_take_drop: "map_res f xs = Inr ys \<Longrightarrow> map_res f (take m (drop k xs)) = Inr (take m (drop k ys))"
  by (simp add: map_res_Inr list_all2_takeI list_all2_dropI)

lemma List_page:
  assumes "resolve app tx user p = Inr node" "n_directory node" "require app tx user node 5 = Inr ()"
    and cs: "cs = children tx (n_id node)" "distinct (map n_name cs)" "distinct (map n_id cs)" "[] \<notin> n_name ` set cs"
    and es: "map_res (entry tx) cs = Inr es" and k: "k < length cs \<or> k = 0"
  shows "List app tx user p 100 (page_cursor user node cs k) =
    Inr \<lparr>lp_entries = take 100 (drop k es), lp_cursor = (if length cs - k \<le> 100 then NoCursor else page_cursor user node cs (k + 100)), lp_revision = n_revision node\<rparr>"
proof -
  have sorted: "sorted (map n_name cs)" unfolding cs(1) by (rule sorted_children)
  have start: "\<exists>start. list_start tx user node (page_cursor user node cs k) = Inr start \<and> filter (\<lambda>n. n_name n > start) cs = drop k cs"
  proof (cases k)
    case 0
    have "filter (\<lambda>n. n_name n > []) cs = cs" 
    proof (rule filter_True, rule ballI)
      fix n
      assume "n \<in> set cs"
      then have "n_name n \<noteq> []" using cs(4) by (metis imageI)
      then show "[] < n_name n" by (cases "n_name n") simp_all
    qed
    with 0 show ?thesis by (simp add: list_start_def page_cursor_def)
  next
    case (Suc j)
    with k have j: "j < length cs" by simp
    have "find (\<lambda>n. n_id n = n_id (cs ! j)) cs = Some (cs ! j)"
      unfolding find_Some_iff
    proof (intro exI [of _ j] conjI allI impI j refl)
      fix i
      assume "i < j"
      with j nth_eq_iff_index_eq [OF cs(3), of i j] show "n_id (cs ! i) \<noteq> n_id (cs ! j)" by simp
    qed
    with Suc filter_after [OF sorted cs(2) j] show ?thesis
      by (auto simp: list_start_def page_cursor_def need_def guardr_def need_some_def somer_def cs(1) [symmetric])
  qed
  then obtain start where st: "list_start tx user node (page_cursor user node cs k) = Inr start" "filter (\<lambda>n. n_name n > start) cs = drop k cs" by blast
  have last: "last (take 100 (drop k cs)) = cs ! (k + 99)" if "100 < length cs - k"
    using that by (simp add: last_conv_nth)
  show ?thesis
    using assms(1-3) st last map_res_take_drop [OF es, of 100 k]
    by (auto simp: List_def need_def guardr_def cs(1) [symmetric] Let_def page_cursor_def not_le add.commute)
qed

lemma ls_loop_all:
  assumes "lists_from env app tx user" "resolve app tx user \<lparr>pf_path = pth, pf_cwd_path = cwd, pf_cwd_id = cwd_id\<rparr> = Inr node"
    "n_directory node" "require app tx user node 5 = Inr ()"
    and cs: "cs = children tx (n_id node)" "distinct (map n_name cs)" "distinct (map n_id cs)" "[] \<notin> n_name ` set cs"
    and es: "map_res (entry tx) cs = Inr es"
  shows "k < length cs \<or> k = 0 \<Longrightarrow> length cs - k \<le> 100 * n \<Longrightarrow> 0 < n \<Longrightarrow> ct_session s \<noteq> None \<Longrightarrow> ct_cwd s = cwd \<Longrightarrow> ct_cwd_id s = cwd_id \<Longrightarrow>
    \<exists>t. ls_loop env pth (page_cursor user node cs k) n s = (Inr (drop k es), t)"
proof (induction n arbitrary: k s)
  case (Suc n)
  let ?req = "List_Req \<lparr>pf_path = pth, pf_cwd_path = cwd, pf_cwd_id = cwd_id\<rparr> 100 (page_cursor user node cs k)"
  have len: "length es = length cs" using es by (auto simp: map_res_Inr dest: list_all2_lengthD)
  have "ce_List env i cx ?req = Inr \<lparr>lp_entries = take 100 (drop k es),
      lp_cursor = (if length cs - k \<le> 100 then NoCursor else page_cursor user node cs (k + 100)), lp_revision = n_revision node\<rparr>" for i cx
    using assms(1) List_page [OF assms(2-) Suc.prems(1)] by (simp add: lists_from_def)
  from call_answer [where rpc = "ce_List env", OF Suc.prems(4) this] obtain t where
    t: "call env (ce_List env) ?req 2 s = (Inr \<lparr>lp_entries = take 100 (drop k es),
      lp_cursor = (if length cs - k \<le> 100 then NoCursor else page_cursor user node cs (k + 100)), lp_revision = n_revision node\<rparr>, t)"
    "ct_session t \<noteq> None" "ct_cwd t = cwd" "ct_cwd_id t = cwd_id"
    using Suc.prems(4-6) by metis
  then have page: "ls_page env pth 100 (page_cursor user node cs k) s = (Inr \<lparr>lp_entries = take 100 (drop k es),
      lp_cursor = (if length cs - k \<le> 100 then NoCursor else page_cursor user node cs (k + 100)), lp_revision = n_revision node\<rparr>, t)"
    using Suc.prems(5,6) by (simp add: ls_page_def path_here_def bindm_def)
  show ?case
  proof (cases "length cs - k \<le> 100")
    case True
    with page len show ?thesis by (auto simp: bindm_def)
  next
    case False
    then have "k + 100 < length cs \<or> k + 100 = 0" "length cs - (k + 100) \<le> 100 * n" "0 < n" using Suc.prems(2) by auto
    from Suc.IH [OF this t(2-4)] obtain u where "ls_loop env pth (page_cursor user node cs (k + 100)) n t = (Inr (drop (k + 100) es), u)" by blast
    moreover have "take 100 (drop k es) @ drop (k + 100) es = drop k es" by (metis append_take_drop_id drop_drop add.commute)
    ultimately show ?thesis using False page by (auto simp: bindm_def page_cursor_def)
  qed
qed simp

text \<open>
  C23. A listing is complete. Over a name space that does not change meanwhile, the loop of \<^verbatim>\<open>ls\<close> over
  pages of 100 ends and delivers the entries of all children of the directory, each once, in the order of their names.
\<close>

theorem ls_lists_everything:
  assumes "lists_from env app tx user" "resolve app tx user \<lparr>pf_path = pth, pf_cwd_path = ct_cwd s, pf_cwd_id = ct_cwd_id s\<rparr> = Inr node"
    "n_directory node" "require app tx user node 5 = Inr ()"
    "distinct (map n_name (children tx (n_id node)))" "distinct (map n_id (children tx (n_id node)))" "[] \<notin> n_name ` set (children tx (n_id node))"
    "map_res (entry tx) (children tx (n_id node)) = Inr es" "ct_session s \<noteq> None"
    "length (children tx (n_id node)) \<le> 100 * ce_patience env" "0 < ce_patience env"
  shows "\<exists>t. ls env pth s = (Inr es, t) \<and> length es = length (children tx (n_id node)) \<and> map en_name es = map n_name (children tx (n_id node))"
proof -
  have "list_all2 (\<lambda>n e. entry tx n = Inr e) (children tx (n_id node)) es" using assms(8) by (simp add: map_res_Inr)
  then have "map en_name es = map n_name (children tx (n_id node))"
    by (induction rule: list_all2_induct) (auto simp: entry_def Let_def deref_def somer_def split: option.splits)
  moreover have "\<exists>t. ls env pth s = (Inr es, t)"
    using ls_loop_all [OF assms(1-4) refl assms(5-8), of 0 "ce_patience env" s] assms(9-11) by (simp add: ls_def page_cursor_def)
  ultimately show ?thesis by (metis length_map)
qed

theorem ls_lists_everything_witness:
  "\<exists>t es. ls listing_env ''/'' sample_client = (Inr es, t) \<and> map en_name es = [''a'']"
proof -
  have root: "resolve sample_app listing_db sample_user \<lparr>pf_path = ''/'', pf_cwd_path = ct_cwd sample_client, pf_cwd_id = ct_cwd_id sample_client\<rparr> = Inr listing_root"
    by (simp add: resolve_def abs_path_def walk_def starts_slash_def path_pieces_def deref_def somer_def need_def guardr_def listing_db_simps)
  have kids: "children listing_db (n_id listing_root) = [listing_file]"
    by (simp add: children_def listing_db_simps listing_root_def listing_file_def)
  obtain e where e: "entry listing_db listing_file = Inr e" and name: "en_name e = ''a''" by (simp add: entry_def listing_file_def)
  have lists: "lists_from listing_env sample_app listing_db sample_user" by (simp add: lists_from_def listing_env_def)
  have dir: "n_directory listing_root" by (simp add: listing_root_def)
  have allowed: "require sample_app listing_db sample_user listing_root 5 = Inr ()"
    by (simp add: require_def listing_root_def)
  have rows: "distinct (map n_name (children listing_db (n_id listing_root)))" "distinct (map n_id (children listing_db (n_id listing_root)))"
    "[] \<notin> n_name ` set (children listing_db (n_id listing_root))" "map_res (entry listing_db) (children listing_db (n_id listing_root)) = Inr [e]"
    by (simp_all add: kids e, simp add: listing_file_def)
  have patience: "length (children listing_db (n_id listing_root)) \<le> 100 * ce_patience listing_env" "0 < ce_patience listing_env"
    by (simp_all add: kids listing_env_def)
  from ls_lists_everything [OF lists root dir allowed rows _ patience] name show ?thesis by auto
qed

end
