(* ===== verification/Spec2Isabelle.thy ===== *)
theory Spec2Isabelle
  imports Etcd_Properties Failover Lock_Machine Control_Properties Node_Properties Client_Cluster
begin

text \<open>
  \<^bold>\<open>DFSha\<close> is a distributed file system. A control node keeps the name space, the accounts, the handles, the locks
  and the manifests of files in a metadata store; DataNodes keep the encrypted blocks; a client library cuts
  files into blocks and moves them directly between its machine and the DataNodes, with capabilities that the
  control node grants. Three deployment profiles share the code: a single process (\<open>LOCAL\<close>), a cluster with one
  copy of each block, and a cluster with replicas and leases, whose
  control node may run over a metadata store shared on etcd (\<open>etcd_backend\<close>). The paths below are relative to
  \<^verbatim>\<open>src/src/dfsha\<close>.

  \<^bold>\<open>How the code is represented.\<close> A Python exception is a value of \<open>exn\<close>, in which \<open>Fault r\<close> is the program's own
  error with reason \<open>r\<close> and the other constructors are the exceptions of Python that a path of the code can
  raise; a fallible function returns \<open>'a res\<close>. The control node runs every request in one unit of work that is rolled back when it
  raises, so its handlers take a \<open>db\<close> and return a result and the new \<open>db\<close>, or an exception alone. DataNodes and clients have effects
  that survive an exception, so their handlers are actions (\<open>Effects\<close>) that return an outcome \<^emph>\<open>and\<close> a state. What the
  program only asks for (clocks, random values, identifiers, the answers of other machines) is a function of the number
  of readings so far. Cryptography, Unicode normalisation, password hashing and the dictionaries of protobuf
  messages are third-party libraries and are parameters; the theorems that need a law about them
  say so (\<open>crypto_ok\<close>, \<open>env_ok\<close>, \<open>nfc_keeps_slash\<close>, \<open>rpc_failures\<close>, and for etcd \<open>serving\<close>, \<open>atomic\<close> and \<open>no_collision\<close>).

  \<^bold>\<open>Shared theories.\<close>
  \<^item> \<open>Prelude\<close>: ordered tables (the rows of one kind, by identifier), dictionaries as association lists, and
    \<open>safe_machine\<close>, the locale of machines with an inductive invariant.
  \<^item> \<open>Domain\<close> (\<^verbatim>\<open>common/domain.py\<close>): errors, status codes, messages, rows, canonical JSON, intents.
  \<^item> \<open>Json\<close>: the JSON reader and base64, with their round trips.
  \<^item> \<open>Store\<close> (\<^verbatim>\<open>common/protected.py\<close>, \<^verbatim>\<open>control/metadata.py\<close>): envelopes and the SQLite unit of work, which refines tables
    of rows; \<open>unit_of_work\<close> is the contract the commands rely on.
  \<^item> \<open>Etcd_Pages\<close>, \<open>Etcd_Unit\<close>, \<open>Etcd_Flush\<close>, \<open>Etcd_Commit\<close> (\<^verbatim>\<open>control/etcd_metadata.py\<close>): the store that several control nodes share on etcd.
    Texts in pages of 128 KiB with their cache; the buckets of a unit of work and its leases; what a flush leaves; the gate and
    the one transaction that replaces the root. The same locale \<open>unit_of_work\<close> is its contract (without the unique names, which the
    database alone enforces). \<open>Etcd_Properties\<close>: a text is read back, the unit refines the tables of rows, a flush publishes them, and no
    update is lost; \<open>Etcd_Samples\<close> is a service that satisfies what is relied on.
  \<^item> \<open>Maintenance_Owner\<close> (\<^verbatim>\<open>control/ha.py\<close>): which of several control nodes maintains the cluster, by a key under a lease and a
    generation that its tasks carry; a generation is published by its owner only, and a way in which a later unit loses that comparison.
  \<^item> \<open>Failover\<close> (\<^verbatim>\<open>common/failover.py\<close>): calls over several endpoints, which return while one is reachable, and otherwise have asked
    the endpoints of the rotation once each.
  \<^item> \<open>Effects\<close>: the action monad with \<^verbatim>\<open>try/finally\<close> and \<^verbatim>\<open>try/except\<close>, triples, and the rules \<open>keep\<close>.

  \<^bold>\<open>The control node.\<close>
  \<^item> \<open>Auth\<close> (\<^verbatim>\<open>control/auth.py\<close>), \<open>Queries\<close> (\<^verbatim>\<open>control/queries.py\<close>), \<open>Namespace\<close> and \<open>Identity\<close> (\<^verbatim>\<open>control/commands.py\<close>):
    accounts, permissions, paths, directories.
  \<^item> \<open>Leases\<close> (\<^verbatim>\<open>control/leases.py\<close>): locks and handles; live locks of different owners never overlap.
  \<^item> \<open>Uploads\<close>, \<open>Files\<close>, \<open>Writes\<close> (\<^verbatim>\<open>control/commands.py\<close>, \<^verbatim>\<open>control/access.py\<close>): uploads, handles, reads, writes in place, in each
    profile, composed as the classes inherit.
  \<^item> \<open>Rpc\<close> (\<^verbatim>\<open>control/monolith.py\<close>): sessions, login, the ledger of answered requests.
  \<^item> \<open>Placement\<close>, \<open>Cluster\<close>, \<open>Grants\<close>, \<open>Maintenance\<close> (\<^verbatim>\<open>control/distributed.py\<close>, \<^verbatim>\<open>control/replication.py\<close>,
    \<^verbatim>\<open>control/patch_authority.py\<close>): nodes, placement, authorization of transfers, reports, copies, collection.
  \<^item> \<open>Publish\<close>, \<open>Tree\<close>, \<open>Tree_Machine\<close>: what each command does to the name space, and the machine of all commands.
    In every reachable state the nodes form a tree of bounded depth with unique live names, and the loop of \<^verbatim>\<open>Open\<close>
    over the ancestors ends. Live nodes have live directories as parents, except below a file that was stored as \<^verbatim>\<open>/home\<close>
    (\<open>homed\<close>): \<^verbatim>\<open>CreateUser\<close> does not look whether \<^verbatim>\<open>/home\<close> is a directory.
  \<^item> \<open>Lock_Machine\<close>: the locks as a machine with time and restarts; two accepted fences never cover the same part of a file.
  \<^item> \<open>Draft_Machine\<close>: uploads as a machine; a commit publishes a complete, sealed and durable file.
  \<^item> \<open>Account_Machine\<close>: users, groups and sessions as a machine; the account tables stay well formed.
  \<^item> \<open>Collection\<close>: what garbage collection keeps: the snapshots of live files, open handles and, over the shared store, the pins of a
    migration. \<open>Control_Properties\<close>: permissions bit by bit, repeated requests (at both looks into the ledger, with the verifier of
    a password, and for a \<^verbatim>\<open>Logout\<close> of a session that has ended), the places of copies,
    and two inputs that end in an exception of Python.

  \<^bold>\<open>A DataNode.\<close>
  \<^item> \<open>BlockStore\<close> (\<^verbatim>\<open>datanode/blocks.py\<close>, \<^verbatim>\<open>common/local.py\<close>): the container of a block, reading and import with
    verification, pins, admission. A stored block is read back exactly.
  \<^item> \<open>Node_State\<close>, \<open>DataNode\<close>, \<open>Node_Tasks\<close> (\<^verbatim>\<open>datanode/service.py\<close>, \<^verbatim>\<open>datanode/patch.py\<close>): uploads, patches, reads, copies, deletion,
    inventory, heartbeats, recovery.
  \<^item> \<open>Patching\<close>, \<open>Node_Frames\<close>, \<open>Node_Properties\<close>: a patch stores the base with the delta spliced in; reserved space, units and
    pins are given back however a call ends; an upload stays within the capacity, and repeated it is answered with its first receipt.

  \<^bold>\<open>The client.\<close>
  \<^item> \<open>Client\<close>, \<open>Client_Transfer\<close>, \<open>Client_Upload\<close> (\<^verbatim>\<open>client/sdk.py\<close>), \<open>Client_Access\<close> (\<^verbatim>\<open>client/access.py\<close>): calls with retries, names,
    downloads, uploads, reads and writes of ranges.
  \<^item> \<open>Receiving\<close>, \<open>Client_Properties\<close>: a download leaves the whole verified content or nothing; a write that has begun reports what the
    control node confirmed; two ways in which an outcome is reported wrongly: a renewal that failed turns a confirmed upload into a failure, and a commit learnt
    by the last resort leaves the revision of the handle behind.
  \<^item> \<open>Client_Cluster\<close>: the client beside the other machines: its parts cover the bytes and are the only ones the control node accepts, its frames
    arrive, its listing is complete.
  \<^item> \<open>Samples\<close>, \<open>Node_Samples\<close>, \<open>Client_Samples\<close>: concrete inputs on which the hypotheses of the properties hold.

  \<^bold>\<open>Bounds.\<close> Loops over data are structural recursion or have a termination proof. Loops that wait for another machine take fuel
  (\<open>ne_patience\<close>, \<open>ce_patience\<close>, \<open>ee_patience\<close>) and end in \<open>OutOfFuel\<close>, which is no exception of the program; reading blocks of a local file takes as many rounds as
  bytes are left, which is enough because every round delivers at least one. The walk over the ancestors of a node takes 33 steps and one more for every node as fuel, and
  \<open>ancestors_end\<close> shows that 32 steps reach the root. Reading a text of the shared store follows at most 16 levels of index pages, which is
  enough for \<open>128 KiB * 64 ^ 15\<close>.

  \<^bold>\<open>Not modelled.\<close> Of the shared store, the branch of \<^verbatim>\<open>put\<close> that grants and renews the leases of sessions, handles, locks and DataNodes
  (it computes with fractional deadlines, which rows as they are modelled do not hold); for the same reason the lease keys of locks and nodes
  in \<^verbatim>\<open>control/ha.py\<close> (whether the lease key of a session or a handle is alive is an input, \<open>session_leased\<close> and \<open>handle_leased\<close>); the switches for injected faults; the watcher of etcd; process start-up and
  gRPC registration, telemetry, diagnostics, the command line, backup and migration tools, generated and vendored code, and the
  scripts. Threads of a DataNode interleave only where a handler waits; the renewal threads of a client act at
  the points where the handle or the plan is read.
\<close>

end
